(* ===== verification/Restock_Prelude.thy ===== *)
theory Restock_Prelude
  imports
    Main
    "HOL-Library.AList"
    "HOL-Library.Sublist"
    "HOL-Library.Char_ord"
    "HOL-Library.List_Lexorder"
    "HOL-Library.Product_Lexorder"
begin

text \<open>
  The shared vocabulary of the development: Python dictionaries as association lists in
  insertion order, the string methods the back end calls, the exceptions it raises, the
  SQL \<^verbatim>\<open>GROUP BY\<close>/\<^verbatim>\<open>SUM\<close> idiom, and the lemmas on them that the component proofs
  share.

  Strings are lists of \<^typ>\<open>char\<close>; \<^verbatim>\<open>str.upper\<close> and \<^verbatim>\<open>str.isalpha\<close> are modelled on
  ASCII, the alphabet of SKUs, country codes, postal codes and warehouse ids.
  \<^verbatim>\<open>sorted\<close> on strings is the lexicographic order by code point, which is what
  \<^verbatim>\<open>HOL-Library.List_Lexorder\<close> and \<^verbatim>\<open>HOL-Library.Char_ord\<close> give.
\<close>

named_theorems dict_simps "lookup, key and total laws of the dictionary operations"
named_theorems py_str "definitions of the Python string methods"

type_synonym ('k, 'v) dict = "('k \<times> 'v) list"
type_synonym sku = string
type_synonym country = string
type_synonym warehouse_id = string
type_synonym date = int \<comment> \<open>a calendar day, counted from the epoch\<close>
type_synonym instant = int \<comment> \<open>a point in time, in microseconds from the epoch\<close>

subsection \<open>Exceptions\<close>

text \<open>The Python exceptions and the HTTP errors that the modelled code raises.\<close>

datatype exc =
    ValueError
  | OverflowError
  | TypeError
  | KeyError
  | ZeroDivisionError
  | RuntimeError
  | NoResultFound
  | NotFound
  | ConflictError
  | ValidationFailed
  | OSError
  | UnprocessableError
  | Forbidden
  | Unauthorized
  | LoginLocked
  | HTTPException nat
  | DatabaseError
  | AttributeError
  | SyncBusinessLockConflictError
  | SaihuAPIError
  | BusinessError

type_synonym 'a res = "exc + 'a"

abbreviation raise :: "exc \<Rightarrow> 'a res" where
  "raise e \<equiv> Inl e"

abbreviation return :: "'a \<Rightarrow> 'a res" where
  "return x \<equiv> Inr x"

definition bind_res :: "'a res \<Rightarrow> ('a \<Rightarrow> 'b res) \<Rightarrow> 'b res" where
  "bind_res r f = (case r of Inl e \<Rightarrow> Inl e | Inr x \<Rightarrow> f x)"

fun map_res :: "('a \<Rightarrow> 'b res) \<Rightarrow> 'a list \<Rightarrow> 'b list res" where
  "map_res f [] = return []"
| "map_res f (x # xs) = bind_res (f x) (\<lambda>y. bind_res (map_res f xs) (\<lambda>ys. return (y # ys)))"

text \<open>A \<^verbatim>\<open>for\<close> loop whose body may raise.\<close>

fun fold_res :: "('s \<Rightarrow> 'a \<Rightarrow> 's res) \<Rightarrow> 's \<Rightarrow> 'a list \<Rightarrow> 's res" where
  "fold_res f s [] = return s"
| "fold_res f s (x # xs) = bind_res (f s x) (\<lambda>s'. fold_res f s' xs)"

text \<open>\<^verbatim>\<open>a or b\<close> on optional strings: the empty string is false.\<close>

definition str_or :: "string option \<Rightarrow> string option \<Rightarrow> string option" where
  "str_or a b = (case a of None \<Rightarrow> b | Some s \<Rightarrow> if s = [] then b else Some s)"

subsection \<open>Dictionaries\<close>

definition dict_get :: "('k, 'v) dict \<Rightarrow> 'k \<Rightarrow> 'v option" where
  "dict_get d k = map_of d k"

definition dict_get_or :: "('k, 'v) dict \<Rightarrow> 'k \<Rightarrow> 'v \<Rightarrow> 'v" where
  "dict_get_or d k dflt = (case dict_get d k of None \<Rightarrow> dflt | Some v \<Rightarrow> v)"

definition dict_set :: "'k \<Rightarrow> 'v \<Rightarrow> ('k, 'v) dict \<Rightarrow> ('k, 'v) dict" where
  "dict_set k v d = AList.update k v d"

definition dict_mem :: "'k \<Rightarrow> ('k, 'v) dict \<Rightarrow> bool" where
  "dict_mem k d \<longleftrightarrow> k \<in> set (map fst d)"

definition dict_keys :: "('k, 'v) dict \<Rightarrow> 'k list" where
  "dict_keys d = map fst d"

definition dict_values :: "('k, 'v) dict \<Rightarrow> 'v list" where
  "dict_values d = map snd d"

text \<open>\<^verbatim>\<open>d[k] += n\<close> on a \<^verbatim>\<open>defaultdict(int)\<close>.\<close>

definition dict_add :: "'k \<Rightarrow> 'v::monoid_add \<Rightarrow> ('k, 'v) dict \<Rightarrow> ('k, 'v) dict" where
  "dict_add k n d = dict_set k (dict_get_or d k 0 + n) d"

text \<open>\<^verbatim>\<open>d[k1][k2] = v\<close> on a \<^verbatim>\<open>defaultdict(dict)\<close>, and the chained lookup.\<close>

definition dict_set2 :: "'j \<Rightarrow> 'k \<Rightarrow> 'v \<Rightarrow> ('j, ('k, 'v) dict) dict \<Rightarrow> ('j, ('k, 'v) dict) dict" where
  "dict_set2 j k v d = dict_set j (dict_set k v (dict_get_or d j [])) d"

definition dict_get2 :: "('j, ('k, 'v) dict) dict \<Rightarrow> 'j \<Rightarrow> 'k \<Rightarrow> 'v option" where
  "dict_get2 d j k = dict_get (dict_get_or d j []) k"

text \<open>\<^verbatim>\<open>SELECT key, SUM(val) ... GROUP BY key\<close> over the selected rows.\<close>

definition group_sum :: "('r \<Rightarrow> 'k) \<Rightarrow> ('r \<Rightarrow> 'v::monoid_add) \<Rightarrow> 'r list \<Rightarrow> ('k, 'v) dict" where
  "group_sum key val rows = foldl (\<lambda>d r. dict_add (key r) (val r) d) [] rows"

abbreviation wf_dict :: "('k, 'v) dict \<Rightarrow> bool" where
  "wf_dict d \<equiv> distinct (map fst d)"

subsection \<open>Python strings\<close>

definition py_isspace :: "char \<Rightarrow> bool" where
  "py_isspace c \<longleftrightarrow> (let n = (of_char c :: nat) in (9 \<le> n \<and> n \<le> 13) \<or> (28 \<le> n \<and> n \<le> 32))"

definition strip_by :: "('a \<Rightarrow> bool) \<Rightarrow> 'a list \<Rightarrow> 'a list" where
  "strip_by P s = rev (dropWhile P (rev (dropWhile P s)))"

definition py_strip :: "string \<Rightarrow> string" where
  "py_strip s = strip_by py_isspace s"

definition py_upper_char :: "char \<Rightarrow> char" where
  "py_upper_char c =
     (let n = (of_char c :: nat) in if 97 \<le> n \<and> n \<le> 122 then char_of (n - 32) else c)"

definition py_upper :: "string \<Rightarrow> string" where
  "py_upper s = map py_upper_char s"

definition py_isalpha_char :: "char \<Rightarrow> bool" where
  "py_isalpha_char c \<longleftrightarrow>
     (let n = (of_char c :: nat) in (65 \<le> n \<and> n \<le> 90) \<or> (97 \<le> n \<and> n \<le> 122))"

definition py_isalpha :: "string \<Rightarrow> bool" where
  "py_isalpha s \<longleftrightarrow> s \<noteq> [] \<and> list_all py_isalpha_char s"

text \<open>\<^verbatim>\<open>s.split(c)\<close> for a one-character separator: always at least one piece.\<close>

fun py_split :: "char \<Rightarrow> string \<Rightarrow> string list" where
  "py_split c [] = [[]]"
| "py_split c (x # xs) =
     (if x = c then [] # py_split c xs
      else (case py_split c xs of [] \<Rightarrow> [[x]] | p # ps \<Rightarrow> (x # p) # ps))"

text \<open>\<^verbatim>\<open>s.split(c, 1)\<close>: one piece when the separator does not occur, else two.\<close>

fun py_split1 :: "char \<Rightarrow> string \<Rightarrow> string list" where
  "py_split1 c s = (if c \<in> set s then [takeWhile (\<lambda>x. x \<noteq> c) s, tl (dropWhile (\<lambda>x. x \<noteq> c) s)] else [s])"

text \<open>\<^verbatim>\<open>sep.join(xs)\<close>.\<close>

fun py_join :: "string \<Rightarrow> string list \<Rightarrow> string" where
  "py_join sep [] = []"
| "py_join sep [x] = x"
| "py_join sep (x # y # xs) = x @ sep @ py_join sep (y # xs)"

text \<open>Python's slice \<^verbatim>\<open>xs[:n]\<close>; a negative bound counts from the end.\<close>

definition py_slice_to :: "'a list \<Rightarrow> int \<Rightarrow> 'a list" where
  "py_slice_to xs n = (if 0 \<le> n then take (nat n) xs else take (nat (int (length xs) + n)) xs)"

text \<open>\<^verbatim>\<open>list(dict.fromkeys(xs))\<close>: the first occurrence of every element, in order.\<close>

fun dedup_from :: "'a list \<Rightarrow> 'a list \<Rightarrow> 'a list" where
  "dedup_from seen [] = []"
| "dedup_from seen (x # xs) =
     (if x \<in> set seen then dedup_from seen xs else x # dedup_from (x # seen) xs)"

definition dedup :: "'a list \<Rightarrow> 'a list" where
  "dedup xs = dedup_from [] xs"

text \<open>\<^verbatim>\<open>sorted(set(xs))\<close>.\<close>

definition sorted_set :: "'a::linorder list \<Rightarrow> 'a list" where
  "sorted_set xs = sort (remdups xs)"

text \<open>\<^verbatim>\<open>str(n)\<close> for a non-negative integer.\<close>

fun nat_to_string :: "nat \<Rightarrow> string" where
  "nat_to_string n =
     (if n < 10 then [char_of (48 + n)] else nat_to_string (n div 10) @ [char_of (48 + n mod 10)])"

declare nat_to_string.simps [simp del]

definition int_to_string :: "int \<Rightarrow> string" where
  "int_to_string i = (if i < 0 then ''-'' @ nat_to_string (nat (- i)) else nat_to_string (nat i))"

section \<open>Lemmas\<close>

lemma bind_res_simps [simp]:
  "bind_res (Inl e) f = Inl e" "bind_res (Inr x) f = f x"
  by (simp_all add: bind_res_def)

lemma bind_res_Inr_iff: "bind_res r f = Inr y \<longleftrightarrow> (\<exists>x. r = Inr x \<and> f x = Inr y)"
  by (cases r) auto

lemma fold_res_pure: "\<forall>s. \<forall>x \<in> set xs. f s x = Inr (g s x) \<Longrightarrow> fold_res f s xs = Inr (foldl g s xs)"
  by (induction xs arbitrary: s) auto

lemma fold_res_invariant:
  assumes "fold_res f s xs = Inr s'" "P s" "\<And>s x s'. x \<in> set xs \<Longrightarrow> P s \<Longrightarrow> f s x = Inr s' \<Longrightarrow> P s'"
  shows "P s'"
  using assms by (induction xs arbitrary: s) (auto simp: bind_res_Inr_iff)

lemma fold_res_append: "fold_res f s (xs @ ys) = bind_res (fold_res f s xs) (\<lambda>s'. fold_res f s' ys)"
  by (induction xs arbitrary: s) (auto simp: bind_res_def split: sum.splits)

subsection \<open>Dictionary laws\<close>

lemma dict_get_Nil [simp, dict_simps]: "dict_get [] k = None"
  by (simp add: dict_get_def)

lemma dict_get_Cons [dict_simps]: "dict_get ((a, b) # d) k = (if k = a then Some b else dict_get d k)"
  by (simp add: dict_get_def)

lemma dict_get_set [dict_simps]: "dict_get (dict_set k v d) k' = (if k' = k then Some v else dict_get d k')"
  by (simp add: dict_get_def dict_set_def update_conv)

lemma dict_get_or_Nil [simp, dict_simps]: "dict_get_or [] k x = x"
  by (simp add: dict_get_or_def)

lemma dict_get_or_set [dict_simps]:
  "dict_get_or (dict_set k v d) k' x = (if k' = k then v else dict_get_or d k' x)"
  by (simp add: dict_get_or_def dict_get_set)

lemma dict_get_or_add [dict_simps]:
  "dict_get_or (dict_add k n d) k' 0 = (if k' = k then dict_get_or d k 0 + n else dict_get_or d k' 0)"
  by (simp add: dict_add_def dict_get_or_set)

lemma dict_get2_set2 [dict_simps]:
  "dict_get2 (dict_set2 j k v d) j' k' = (if j' = j \<and> k' = k then Some v else dict_get2 d j' k')"
  by (auto simp: dict_get2_def dict_set2_def dict_get_or_set dict_get_set)

lemma dict_get2_Nil [simp, dict_simps]: "dict_get2 [] j k = None"
  by (simp add: dict_get2_def)

lemma set_keys_dict_set [simp, dict_simps]: "fst ` set (dict_set k v d) = insert k (fst ` set d)"
  using dom_update [of k v d] by (simp add: dict_set_def)

lemma set_keys_dict_add [simp, dict_simps]: "fst ` set (dict_add k n d) = insert k (fst ` set d)"
  by (simp add: dict_add_def)

lemma wf_dict_set [simp, intro]: "wf_dict d \<Longrightarrow> wf_dict (dict_set k v d)"
  by (simp add: dict_set_def distinct_update)

lemma wf_dict_add [simp, intro]: "wf_dict d \<Longrightarrow> wf_dict (dict_add k n d)"
  by (simp add: dict_add_def)

lemma dict_mem_iff_get: "dict_mem k d \<longleftrightarrow> dict_get d k \<noteq> None"
  by (auto simp: dict_mem_def dict_get_def map_of_eq_None_iff)

lemma dict_get_in: "dict_get d k = Some v \<Longrightarrow> (k, v) \<in> set d"
  by (simp add: dict_get_def map_of_SomeD)

lemma dict_get_eq_Some_iff: "wf_dict d \<Longrightarrow> dict_get d k = Some v \<longleftrightarrow> (k, v) \<in> set d"
  by (simp add: dict_get_def)

lemma dict_get_None_iff: "dict_get d k = None \<longleftrightarrow> k \<notin> fst ` set d"
  by (simp add: dict_get_def map_of_eq_None_iff)

lemma dict_set_new: "k \<notin> fst ` set d \<Longrightarrow> dict_set k v d = d @ [(k, v)]"
  unfolding dict_set_def by (induction d) auto

lemma dict_get_append:
  "dict_get (d @ d') k = (case dict_get d k of None \<Rightarrow> dict_get d' k | Some v \<Rightarrow> Some v)"
  by (simp add: dict_get_def map_add_def split: option.splits)

lemma dict_get_filter_key:
  "dict_get (filter (\<lambda>(k, v). P k) d) k = (if P k then dict_get d k else None)"
  by (induction d) (auto simp: dict_get_Cons)

lemma dict_get_map_value:
  "dict_get (map (\<lambda>(k, v). (k, f k v)) d) k = map_option (f k) (dict_get d k)"
  by (induction d) (auto simp: dict_get_Cons)

lemma wf_dict_filter [simp, intro]: "wf_dict d \<Longrightarrow> wf_dict (filter P d)"
  by (simp add: distinct_map_filter)

lemma sum_values_dict_add [dict_simps]:
  fixes n :: "'v::comm_monoid_add"
  shows "sum_list (map snd (dict_add k n d)) = sum_list (map snd d) + n"
  unfolding dict_add_def dict_set_def
  by (induction d) (auto simp: dict_get_or_def dict_get_def add_ac)

lemma sum_filtered_dict_add [dict_simps]:
  fixes n :: "'v::comm_monoid_add"
  shows "sum_list (map snd (filter (\<lambda>(k, v). P k) (dict_add k n d))) =
     sum_list (map snd (filter (\<lambda>(k, v). P k) d)) + (if P k then n else 0)"
  unfolding dict_add_def dict_set_def
  by (induction d) (auto simp: dict_get_or_def dict_get_def add_ac)

text \<open>
  The accumulation loop \<^verbatim>\<open>for r in rows: d[key(r)] += val(r)\<close>: what a key holds
  afterwards, which keys there are, and the grand total.
\<close>

lemma foldl_dict_add_get:
  fixes val :: "'r \<Rightarrow> 'v::comm_monoid_add"
  shows "dict_get_or (foldl (\<lambda>d r. dict_add (key r) (val r) d) d0 rows) k 0 =
     dict_get_or d0 k 0 + sum_list (map val (filter (\<lambda>r. key r = k) rows))"
  by (induction rows arbitrary: d0) (auto simp: dict_get_or_add add_ac)

lemma foldl_dict_add_keys:
  "fst ` set (foldl (\<lambda>d r. dict_add (key r) (val r) d) d0 rows) = fst ` set d0 \<union> key ` set rows"
  by (induction rows arbitrary: d0) auto

lemma foldl_dict_add_wf:
  "wf_dict d0 \<Longrightarrow> wf_dict (foldl (\<lambda>d r. dict_add (key r) (val r) d) d0 rows)"
  by (induction rows arbitrary: d0) auto

lemma foldl_dict_add_total:
  fixes val :: "'r \<Rightarrow> 'v::comm_monoid_add"
  shows "sum_list (map snd (foldl (\<lambda>d r. dict_add (key r) (val r) d) d0 rows)) =
     sum_list (map snd d0) + sum_list (map val rows)"
  by (induction rows arbitrary: d0) (auto simp: sum_values_dict_add add_ac)

lemma group_sum_get:
  fixes val :: "'r \<Rightarrow> 'v::comm_monoid_add"
  shows "dict_get_or (group_sum key val rows) k 0 = sum_list (map val (filter (\<lambda>r. key r = k) rows))"
  by (simp add: group_sum_def foldl_dict_add_get)

lemma group_sum_keys: "fst ` set (group_sum key val rows) = key ` set rows"
  by (simp add: group_sum_def foldl_dict_add_keys)

lemma group_sum_wf [simp, intro]: "wf_dict (group_sum key val rows)"
  by (simp add: group_sum_def foldl_dict_add_wf)

text \<open>Filling a dictionary with fresh keys appends; adding to it shifts its total.\<close>

lemma foldl_dict_set_fresh:
  "distinct (map fst d @ map fst kvs) \<Longrightarrow> foldl (\<lambda>d (k, v). dict_set k v d) d kvs = d @ kvs"
proof (induction kvs arbitrary: d)
  case (Cons kv kvs)
  obtain k v where kv: "kv = (k, v)" by (cases kv)
  then have "dict_set k v d = d @ [(k, v)]" using Cons.prems by (intro dict_set_new) auto
  then show ?case using Cons kv by simp
qed simp

lemma foldl_dict_set_distinct:
  "wf_dict kvs \<Longrightarrow> foldl (\<lambda>d (k, v). dict_set k v d) [] kvs = kvs"
  using foldl_dict_set_fresh [of "[]" kvs] by simp

lemma values_dict_set: "snd ` set (dict_set k v d) \<subseteq> insert v (snd ` set d)"
  unfolding dict_set_def by (induction d) auto

lemma dict_get_or_value: "dict_get_or d k x \<in> insert x (snd ` set d)"
  by (auto simp: dict_get_or_def dest: dict_get_in split: option.splits intro: rev_image_eqI)

lemma nonneg_dict_add:
  fixes n :: "'v::ordered_ab_group_add"
  assumes "\<forall>v \<in> snd ` set d. 0 \<le> v" "0 \<le> n"
  shows "\<forall>v \<in> snd ` set (dict_add k n d). 0 \<le> v"
proof
  fix v assume "v \<in> snd ` set (dict_add k n d)"
  then consider "v = dict_get_or d k 0 + n" | "v \<in> snd ` set d"
    unfolding dict_add_def using values_dict_set [of k "dict_get_or d k 0 + n" d] by blast
  then show "0 \<le> v"
  proof cases
    case 1
    have "0 \<le> dict_get_or d k 0" using dict_get_or_value [of d k 0]
    proof (rule insertE)
      assume "dict_get_or d k 0 \<in> snd ` set d" with assms(1) show ?thesis by (rule bspec)
    qed simp
    then show ?thesis using assms(2) 1 by simp
  qed (use assms(1) in \<open>rule bspec\<close>)
qed

lemma nonneg_foldl_dict_add:
  fixes val :: "'r \<Rightarrow> 'v::ordered_ab_group_add"
  assumes "\<forall>v \<in> snd ` set d. 0 \<le> v" "\<forall>r \<in> set rows. 0 \<le> val r"
  shows "\<forall>v \<in> snd ` set (foldl (\<lambda>d r. dict_add (key r) (val r) d) d rows). 0 \<le> v"
  using assms
proof (induction rows arbitrary: d)
  case (Cons r rows)
  have "0 \<le> val r" using Cons.prems(2) by (rule bspec) (rule list.set_intros)
  with Cons.prems(1) have "\<forall>v \<in> snd ` set (dict_add (key r) (val r) d). 0 \<le> v"
    by (rule nonneg_dict_add)
  moreover have "\<forall>r \<in> set rows. 0 \<le> val r" using Cons.prems(2) by (metis list.set_intros(2))
  ultimately show ?case unfolding foldl_Cons by (rule Cons.IH)
qed (simp only: foldl_Nil)

lemma sum_list_filter_pos:
  fixes d :: "('k \<times> int) list"
  shows "\<forall>v \<in> snd ` set d. 0 \<le> v \<Longrightarrow> sum_list (map snd (filter (\<lambda>(k, v). v > 0) d)) = sum_list (map snd d)"
  by (induction d) (auto simp: not_less)

lemma sum_list_get_or_keys:
  fixes d :: "('k \<times> 'v::comm_monoid_add) list"
  assumes "wf_dict d" "distinct ks" "fst ` set d \<subseteq> set ks"
  shows "sum_list (map (\<lambda>k. dict_get_or d k 0) ks) = sum_list (map snd d)"
proof -
  have "sum_list (map (\<lambda>k. dict_get_or d k 0) ks) = (\<Sum>k\<in>set ks. dict_get_or d k 0)"
    using assms(2) by (rule sum_list_distinct_conv_sum_set)
  also have "\<dots> = (\<Sum>k\<in>fst ` set d. dict_get_or d k 0)"
    using assms(3) by (intro sum.mono_neutral_right) (auto simp: dict_get_or_def dict_get_None_iff [THEN iffD2])
  also have "\<dots> = sum_list (map (\<lambda>k. dict_get_or d k 0) (map fst d))"
    using sum_list_distinct_conv_sum_set [OF assms(1), of "\<lambda>k. dict_get_or d k 0"] by simp
  also have "map (\<lambda>k. dict_get_or d k 0) (map fst d) = map snd d"
  proof -
    have "dict_get_or d (fst x) 0 = snd x" if "x \<in> set d" for x
      using map_of_is_SomeI [OF assms(1), of "fst x" "snd x"] that by (simp add: dict_get_or_def dict_get_def)
    then show ?thesis by simp
  qed
  finally show ?thesis .
qed

subsection \<open>Slices\<close>

lemma py_slice_to_nonneg: "0 \<le> n \<Longrightarrow> py_slice_to xs n = take (nat n) xs"
  by (simp add: py_slice_to_def)

lemma set_py_slice_to: "set (py_slice_to xs n) \<subseteq> set xs"
  by (auto simp: py_slice_to_def dest: in_set_takeD)

subsection \<open>Deduplication and sorting\<close>

lemma set_dedup_from: "set (dedup_from seen xs) = set xs - set seen"
  by (induction xs arbitrary: seen) auto

lemma distinct_dedup_from: "distinct (dedup_from seen xs)"
  by (induction xs arbitrary: seen) (auto simp: set_dedup_from)

lemma set_dedup [simp]: "set (dedup xs) = set xs"
  by (simp add: dedup_def set_dedup_from)

lemma distinct_dedup [simp, intro]: "distinct (dedup xs)"
  by (simp add: dedup_def distinct_dedup_from)

lemma dedup_from_distinct: "distinct xs \<Longrightarrow> set xs \<inter> set seen = {} \<Longrightarrow> dedup_from seen xs = xs"
  by (induction xs arbitrary: seen) auto

lemma dedup_distinct [simp]: "distinct xs \<Longrightarrow> dedup xs = xs"
  by (simp add: dedup_def dedup_from_distinct)

lemma dedup_eq_Nil_iff [simp]: "dedup xs = [] \<longleftrightarrow> xs = []"
  by (metis set_dedup set_empty)

lemma set_sorted_set [simp]: "set (sorted_set xs) = set xs"
  by (simp add: sorted_set_def)

lemma distinct_sorted_set [simp, intro]: "distinct (sorted_set xs)"
  by (simp add: sorted_set_def)

lemma sorted_sorted_set [simp, intro]: "sorted (sorted_set xs)"
  by (simp add: sorted_set_def)

lemma sorted_set_cong: "set xs = set ys \<Longrightarrow> sorted_set xs = sorted_set ys"
  by (rule sorted_distinct_set_unique) simp_all

subsection \<open>Strings\<close>

declare py_isspace_def [py_str] py_strip_def [py_str] py_upper_char_def [py_str]
  py_upper_def [py_str] py_isalpha_char_def [py_str] py_isalpha_def [py_str]

lemma length_py_upper [simp]: "length (py_upper s) = length s"
  by (simp add: py_upper_def)

lemma of_char_less_256: "(of_char c :: nat) < 256"
  using nat_of_char_less_256 by blast

lemma py_upper_char_idem [simp]: "py_upper_char (py_upper_char c) = py_upper_char c"
  using of_char_less_256 [of c] by (auto simp: py_upper_char_def Let_def of_char_of)

lemma py_upper_idem [simp]: "py_upper (py_upper s) = py_upper s"
  by (simp add: py_upper_def)

lemma py_isspace_upper [simp]: "py_isspace (py_upper_char c) = py_isspace c"
  using of_char_less_256 [of c] by (auto simp: py_upper_char_def py_isspace_def Let_def)

lemma hd_strip_by:
  assumes "strip_by P s \<noteq> []"
  shows "\<not> P (hd (strip_by P s))"
proof -
  let ?d = "dropWhile P s"
  have "rev (takeWhile P (rev ?d) @ dropWhile P (rev ?d)) = ?d" by simp
  then have "?d = strip_by P s @ rev (takeWhile P (rev ?d))"
    unfolding strip_by_def rev_append by simp
  then have "hd ?d = hd (strip_by P s)" "?d \<noteq> []"
    using assms by (metis hd_append2, metis append_is_Nil_conv)
  then show ?thesis using hd_dropWhile [of P s] by simp
qed

lemma strip_by_idem [simp]: "strip_by P (strip_by P s) = strip_by P s"
proof -
  have l: "dropWhile P (strip_by P s) = strip_by P s"
    using hd_strip_by [of P s] by (cases "strip_by P s") auto
  have r: "rev (strip_by P s) = dropWhile P (rev (dropWhile P s))"
    by (simp add: strip_by_def)
  have "strip_by P (strip_by P s) = rev (dropWhile P (rev (strip_by P s)))"
    unfolding strip_by_def [of P "strip_by P s"] l ..
  also have "\<dots> = rev (rev (strip_by P s))" by (simp only: r dropWhile_idem)
  finally show ?thesis by simp
qed

lemma strip_by_map: "strip_by P (map f s) = map f (strip_by (P \<circ> f) s)"
  by (simp add: strip_by_def dropWhile_map rev_map)

lemma strip_by_none: "list_all (\<lambda>c. \<not> P c) s \<Longrightarrow> strip_by P s = s"
proof -
  assume *: "list_all (\<lambda>c. \<not> P c) s"
  have "list_all (\<lambda>c. \<not> P c) t \<Longrightarrow> dropWhile P t = t" for t by (cases t) auto
  moreover have "list_all (\<lambda>c. \<not> P c) (rev s)" using * by (simp add: list_all_iff)
  ultimately show ?thesis using * by (simp add: strip_by_def)
qed

lemma py_strip_idem [simp]: "py_strip (py_strip s) = py_strip s"
  by (simp add: py_strip_def)

lemma py_strip_upper: "py_strip (py_upper s) = py_upper (py_strip s)"
  by (simp add: py_strip_def py_upper_def strip_by_map comp_def)

lemma py_split_nonempty: "py_split c s \<noteq> []"
  by (induction s) (auto split: list.splits)

subsection \<open>Decimal text\<close>

lemma digit_char: "n < 10 \<Longrightarrow> (of_char (char_of (48 + n)) :: nat) = 48 + n"
  by simp

lemma nat_to_string_digits: "c \<in> set (nat_to_string n) \<Longrightarrow> 48 \<le> (of_char c :: nat) \<and> (of_char c :: nat) \<le> 57"
proof (induction n rule: nat_to_string.induct)
  case (1 n)
  then show ?case by (subst (asm) (2) nat_to_string.simps) (auto split: if_splits)
qed

lemma nat_to_string_ne: "nat_to_string n \<noteq> []"
  by (subst nat_to_string.simps) simp

lemma nat_to_string_inj: "nat_to_string m = nat_to_string n \<Longrightarrow> m = n"
proof (induction m arbitrary: n rule: nat_to_string.induct)
  case (1 m)
  have digit: "char_of (48 + k) = (char_of (48 + l) :: char) \<longleftrightarrow> k = l" if "k < 10" "l < 10" for k l :: nat
    using that by (metis add_left_cancel digit_char)
  have one: "nat_to_string k = [char_of (48 + k)]" if "k < 10" for k using that by (subst nat_to_string.simps) simp
  have more: "nat_to_string k = nat_to_string (k div 10) @ [char_of (48 + k mod 10)]" if "\<not> k < 10" for k
    using that by (subst nat_to_string.simps) simp
  show ?case
  proof (cases "m < 10"; cases "n < 10")
    assume "m < 10" "n < 10"
    then show ?thesis using 1(2) by (simp add: one digit)
  next
    assume m: "m < 10" and n: "\<not> n < 10"
    have "[char_of (48 + m)] = nat_to_string (n div 10) @ [char_of (48 + n mod 10)]" using 1(2) one [OF m] more [OF n] by simp
    then show ?thesis using nat_to_string_ne [of "n div 10"] by (simp add: Cons_eq_append_conv)
  next
    assume m: "\<not> m < 10" and n: "n < 10"
    have "nat_to_string (m div 10) @ [char_of (48 + m mod 10)] = [char_of (48 + n)]" using 1(2) one [OF n] more [OF m] by simp
    then show ?thesis using nat_to_string_ne [of "m div 10"] by (simp add: append_eq_Cons_conv)
  next
    assume m: "\<not> m < 10" and n: "\<not> n < 10"
    have "nat_to_string (m div 10) = nat_to_string (n div 10)" "m mod 10 = n mod 10"
      using 1(2) digit [of "m mod 10" "n mod 10"] by (simp_all add: more [OF m] more [OF n])
    then show ?thesis using 1(1) [OF m, of "n div 10"] by (metis div_mult_mod_eq)
  qed
qed

lemma int_to_string_inj: "0 \<le> i \<Longrightarrow> 0 \<le> j \<Longrightarrow> int_to_string i = int_to_string j \<Longrightarrow> i = j"
  by (simp add: int_to_string_def) (metis nat_to_string_inj int_nat_eq)

lemma int_to_string_no_underscore: "0 \<le> i \<Longrightarrow> CHR ''_'' \<notin> set (int_to_string i) \<and> CHR ''v'' \<notin> set (int_to_string i)"
  using nat_to_string_digits [of _ "nat i"] by (fastforce simp: int_to_string_def)

subsection \<open>Searching a table\<close>

lemma find_in_set: "find P xs = Some x \<Longrightarrow> x \<in> set xs \<and> P x"
  by (auto simp: find_Some_iff)

end
