(* ===== verification/Country_Codes.thy ===== *)
theory Country_Codes
  imports Restock_Prelude
begin

text \<open>
  Country codes: \<^verbatim>\<open>core/countries.py\<close> (normalisation and the reportable codes),
  \<^verbatim>\<open>core/restock_regions.py\<close> (the restock whitelist) and \<^verbatim>\<open>core/country_mapping.py\<close>
  (merging EU members into \<open>EU\<close>, at synchronisation time and as a backfill over stored
  rows). A value that may be missing is a \<open>string option\<close>; \<^verbatim>\<open>str(value or "")\<close> is
  \<open>or_empty\<close>.
\<close>

definition or_empty :: "string option \<Rightarrow> string" where
  "or_empty v = (case v of None \<Rightarrow> [] | Some s \<Rightarrow> s)"

subsection \<open>core/countries.py\<close>

definition BUILTIN_COUNTRY_ORDER :: "country list" where
  "BUILTIN_COUNTRY_ORDER =
     [''EU'', ''ZZ'', ''CN'', ''US'', ''CA'', ''MX'', ''GB'', ''CZ'', ''DE'', ''FR'', ''IT'', ''ES'',
      ''IN'', ''JP'', ''AU'', ''AT'', ''CH'', ''CY'', ''DK'', ''EE'', ''FI'', ''LT'', ''LV'', ''MT'',
      ''SI'', ''AE'', ''TR'', ''SG'', ''BR'', ''NL'', ''RO'', ''SA'', ''SE'', ''PL'', ''BE'', ''IE'']"

definition NON_EU_MEMBER_CODES :: "country list" where
  "NON_EU_MEMBER_CODES = [''EU'', ''ZZ'']"

definition COUNTRY_CODE_ALIASES :: "(string, country) dict" where
  "COUNTRY_CODE_ALIASES = [(''UK'', ''GB'')]"

definition canonical_code :: "string \<Rightarrow> country" where
  "canonical_code code = dict_get_or COUNTRY_CODE_ALIASES code code"

definition is_valid_observed_country_code :: "string option \<Rightarrow> bool" where
  "is_valid_observed_country_code v =
     (let code = py_upper (py_strip (or_empty v)) in length code = 2 \<and> py_isalpha code)"

definition normalize_observed_country_code :: "string option \<Rightarrow> country option" where
  "normalize_observed_country_code v =
     (let code = py_upper (py_strip (or_empty v))
      in if \<not> is_valid_observed_country_code (Some code) then None else Some (canonical_code code))"

definition normalize_reportable_country_code :: "string option \<Rightarrow> country option" where
  "normalize_reportable_country_code v =
     (case normalize_observed_country_code v of
        None \<Rightarrow> None
      | Some code \<Rightarrow> if code = ''ZZ'' then None else Some code)"

definition is_reportable_country_code :: "string option \<Rightarrow> bool" where
  "is_reportable_country_code v \<longleftrightarrow> normalize_reportable_country_code v \<noteq> None"

abbreviation reportable :: "country \<Rightarrow> bool" where
  "reportable c \<equiv> is_reportable_country_code (Some c)"

definition normalize_source_country_or_unknown :: "string option \<Rightarrow> country" where
  "normalize_source_country_or_unknown v =
     (case normalize_observed_country_code v of Some code \<Rightarrow> code | None \<Rightarrow> ''ZZ'')"

text \<open>One pass of the loop; \<open>acc\<close> is \<^verbatim>\<open>normalized\<close>, whose elements are also \<^verbatim>\<open>seen\<close>.\<close>

fun eu_members_loop :: "country list \<Rightarrow> string option list \<Rightarrow> country list res" where
  "eu_members_loop acc [] = return acc"
| "eu_members_loop acc (item # items) =
     (let raw_code = py_upper (py_strip (or_empty item))
      in if raw_code = [] then eu_members_loop acc items
         else if length raw_code \<noteq> 2 \<or> \<not> py_isalpha raw_code then raise ValueError
         else let code = canonical_code raw_code
              in if code \<in> set NON_EU_MEMBER_CODES then raise ValueError
                 else if code \<in> set acc then eu_members_loop acc items
                 else eu_members_loop (acc @ [code]) items)"

definition normalize_country_list_for_eu_members :: "string option list option \<Rightarrow> country list res" where
  "normalize_country_list_for_eu_members v =
     (case v of None \<Rightarrow> return [] | Some items \<Rightarrow> eu_members_loop [] items)"

subsection \<open>core/restock\_regions.py\<close>

fun restock_regions_loop :: "country list \<Rightarrow> string option list \<Rightarrow> country list res" where
  "restock_regions_loop acc [] = return acc"
| "restock_regions_loop acc (item # items) =
     (let raw_code = py_upper (py_strip (or_empty item))
      in if raw_code = [] then restock_regions_loop acc items
         else (case normalize_observed_country_code (Some raw_code) of
                 None \<Rightarrow> raise ValueError
               | Some code \<Rightarrow>
                   if code \<in> set acc then restock_regions_loop acc items
                   else restock_regions_loop (acc @ [code]) items))"

definition normalize_restock_regions :: "string option list option \<Rightarrow> country list res" where
  "normalize_restock_regions v =
     (case v of None \<Rightarrow> return [] | Some items \<Rightarrow> restock_regions_loop [] items)"

definition resolve_allowed_restock_regions :: "string option list option \<Rightarrow> country list option res" where
  "resolve_allowed_restock_regions v =
     bind_res (normalize_restock_regions v)
       (\<lambda>normalized. return
          (if normalized = [] then None else Some (filter (\<lambda>c. is_reportable_country_code (Some c)) normalized)))"

subsection \<open>core/country\_mapping.py\<close>

definition load_eu_countries :: "string option list option \<Rightarrow> country list res" where
  "load_eu_countries config_eu_countries =
     (case config_eu_countries of
        None \<Rightarrow> return []
      | Some vs \<Rightarrow> normalize_country_list_for_eu_members (Some vs))"

definition apply_eu_mapping :: "country option \<Rightarrow> country list \<Rightarrow> country option" where
  "apply_eu_mapping c eu_countries =
     (case c of
        None \<Rightarrow> None
      | Some ctry \<Rightarrow>
          if ctry = ''EU'' then Some ''EU''
          else let normalized_country =
                     (case normalize_observed_country_code (Some ctry) of Some n \<Rightarrow> n | None \<Rightarrow> ctry)
               in if normalized_country \<in> set eu_countries then Some ''EU'' else Some normalized_country)"

text \<open>
  The backfill is one \<^verbatim>\<open>UPDATE\<close>; \<open>geo_row\<close> is a row's country column, its audit column
  and the extra columns that mirror the country (\<^verbatim>\<open>marketplace_id\<close> on orders, none
  elsewhere). SQL \<^verbatim>\<open>trim\<close> removes spaces only; \<^verbatim>\<open>IS DISTINCT FROM\<close> is inequality
  with \<^verbatim>\<open>NULL\<close> as a value.
\<close>

record geo_row =
  g_country :: "country option"
  g_original :: "country option"
  g_extra :: "country option list"

definition sql_trim :: "string \<Rightarrow> string" where
  "sql_trim s = strip_by (\<lambda>c. c = CHR '' '') s"

definition normalized_country_expr :: "string \<Rightarrow> country" where
  "normalized_country_expr s = canonical_code (py_upper (sql_trim s))"

definition geo_source :: "geo_row \<Rightarrow> country option" where
  "geo_source r = (case g_original r of Some c \<Rightarrow> Some c | None \<Rightarrow> g_country r)"

definition backfill_row :: "country list \<Rightarrow> geo_row \<Rightarrow> geo_row \<times> bool" where
  "backfill_row eu r =
     (case geo_source r of
        None \<Rightarrow> (r, False)
      | Some src \<Rightarrow>
          if src = [] then (r, False)
          else let n = normalized_country_expr src;
                   mapped_country = Some (if n \<in> set eu then ''EU'' else n);
                   mapped_original = (if n \<in> set eu then Some n else None)
               in if g_country r \<noteq> mapped_country \<or> g_original r \<noteq> mapped_original
                     \<or> list_ex (\<lambda>x. x \<noteq> mapped_country) (g_extra r)
                  then (r\<lparr>g_country := mapped_country, g_original := mapped_original,
                          g_extra := map (\<lambda>_. mapped_country) (g_extra r)\<rparr>, True)
                  else (r, False))"

definition backfill_eu_mapping_for_columns ::
  "string option list \<Rightarrow> geo_row list \<Rightarrow> (geo_row list \<times> nat) res" where
  "backfill_eu_mapping_for_columns eu_countries rows =
     bind_res (normalize_country_list_for_eu_members (Some eu_countries))
       (\<lambda>eu. let out = map (backfill_row eu) rows
             in return (map fst out, length (filter snd out)))"

section \<open>Lemmas\<close>

lemma canonical_code_eq: "canonical_code c = (if c = ''UK'' then ''GB'' else c)"
  by (simp add: canonical_code_def COUNTRY_CODE_ALIASES_def dict_get_or_def dict_get_def)

lemma canonical_code_idem [simp]: "canonical_code (canonical_code c) = canonical_code c"
  by (simp add: canonical_code_eq)

lemma or_empty_simps [simp]: "or_empty None = []" "or_empty (Some s) = s"
  by (simp_all add: or_empty_def)

lemma letter_not_space: "py_isalpha_char c \<Longrightarrow> \<not> py_isspace c"
  by (auto simp: py_isalpha_char_def py_isspace_def Let_def)

lemma py_strip_alpha: "py_isalpha s \<Longrightarrow> py_strip s = s"
  by (auto simp: py_strip_def py_isalpha_def list_all_iff letter_not_space intro!: strip_by_none)

lemma sql_trim_alpha: "py_isalpha s \<Longrightarrow> sql_trim s = s"
  by (force simp: sql_trim_def py_isalpha_def list_all_iff py_isalpha_char_def Let_def
      intro!: strip_by_none)

text \<open>A canonical code: two upper-case letters and not an alias.\<close>

definition wf_code :: "country \<Rightarrow> bool" where
  "wf_code c \<longleftrightarrow> length c = 2 \<and> py_isalpha c \<and> py_upper c = c \<and> c \<noteq> ''UK''"

lemma wf_code_canonical:
  "length c = 2 \<Longrightarrow> py_isalpha c \<Longrightarrow> py_upper c = c \<Longrightarrow> wf_code (canonical_code c)"
  by (auto simp: wf_code_def canonical_code_eq py_str)

lemma normalize_observed_wf:
  "normalize_observed_country_code v = Some c \<Longrightarrow> wf_code c"
  by (auto simp: normalize_observed_country_code_def is_valid_observed_country_code_def Let_def
      py_strip_upper intro!: wf_code_canonical split: if_splits)

lemma normalize_observed_fixed:
  "wf_code c \<Longrightarrow> normalize_observed_country_code (Some c) = Some c"
  by (auto simp: wf_code_def normalize_observed_country_code_def Let_def py_strip_alpha
      is_valid_observed_country_code_def canonical_code_eq)

lemma wf_code_alpha: "wf_code c \<Longrightarrow> py_isalpha c"
  by (simp add: wf_code_def)

lemma wf_code_nonempty: "wf_code c \<Longrightarrow> c \<noteq> []"
  by (auto simp: wf_code_def)

lemma reportable_iff:
  "is_reportable_country_code v \<longleftrightarrow> (\<exists>c. normalize_observed_country_code v = Some c \<and> c \<noteq> ''ZZ'')"
  by (auto simp: is_reportable_country_code_def normalize_reportable_country_code_def split: option.splits)

lemma wf_code_reportable: "wf_code c \<Longrightarrow> reportable c \<longleftrightarrow> c \<noteq> ''ZZ''"
  by (simp add: reportable_iff normalize_observed_fixed)

subsection \<open>Normalising lists of codes\<close>

lemma eu_members_loop_result:
  "eu_members_loop acc items = return out \<Longrightarrow> distinct acc \<Longrightarrow> list_all wf_code acc \<Longrightarrow>
   set acc \<inter> set NON_EU_MEMBER_CODES = {} \<Longrightarrow>
   distinct out \<and> list_all wf_code out \<and> set out \<inter> set NON_EU_MEMBER_CODES = {}"
proof (induction acc items rule: eu_members_loop.induct)
  case (2 acc item items)
  let ?raw = "py_upper (py_strip (or_empty item))"
  show ?case
  proof (cases "?raw = []")
    case True
    with 2 show ?thesis by (simp add: Let_def)
  next
    case False
    with 2(4) have ok: "length ?raw = 2" "py_isalpha ?raw"
      and nm: "canonical_code ?raw \<notin> set NON_EU_MEMBER_CODES"
      by (auto simp: Let_def split: if_splits)
    have "wf_code (canonical_code ?raw)" using ok by (intro wf_code_canonical) simp_all
    with False ok nm 2 show ?thesis by (auto simp: Let_def split: if_splits)
  qed
qed simp

lemma normalize_eu_members_wf:
  "normalize_country_list_for_eu_members v = return eu \<Longrightarrow>
   distinct eu \<and> list_all wf_code eu \<and> ''EU'' \<notin> set eu \<and> ''ZZ'' \<notin> set eu"
  using eu_members_loop_result [of "[]"]
  by (auto simp: normalize_country_list_for_eu_members_def NON_EU_MEMBER_CODES_def split: option.splits)

lemma restock_regions_loop_result:
  "restock_regions_loop acc items = return out \<Longrightarrow> distinct acc \<Longrightarrow> list_all wf_code acc \<Longrightarrow>
   distinct out \<and> list_all wf_code out"
  by (induction acc items rule: restock_regions_loop.induct)
     (auto simp: Let_def normalize_observed_wf split: if_splits option.splits)

lemma upper_strip_wf: "wf_code c \<Longrightarrow> py_upper (py_strip c) = c"
  by (simp add: wf_code_def py_strip_alpha)

lemma restock_regions_loop_fixed:
  "list_all wf_code cs \<Longrightarrow> distinct (acc @ cs) \<Longrightarrow>
   restock_regions_loop acc (map Some cs) = return (acc @ cs)"
  by (induction cs arbitrary: acc)
     (auto simp: Let_def upper_strip_wf normalize_observed_fixed wf_code_nonempty)

subsection \<open>EU mapping\<close>

lemma apply_eu_mapping_in_eu:
  "c \<in> set eu \<Longrightarrow> wf_code c \<Longrightarrow> apply_eu_mapping (Some c) eu = Some ''EU''"
  by (simp add: apply_eu_mapping_def normalize_observed_fixed)

lemma apply_eu_mapping_idem:
  assumes "''EU'' \<notin> set eu"
  shows "apply_eu_mapping (apply_eu_mapping c eu) eu = apply_eu_mapping c eu"
proof (cases c)
  case (Some ctry)
  show ?thesis
  proof (cases "normalize_observed_country_code (Some ctry)")
    case None
    then show ?thesis using Some by (simp add: apply_eu_mapping_def)
  next
    case (Some n)
    then show ?thesis using \<open>c = Some ctry\<close> normalize_observed_wf [OF Some]
      by (simp add: apply_eu_mapping_def normalize_observed_fixed)
  qed
qed (simp add: apply_eu_mapping_def)

lemma py_upper_space [simp]: "py_upper_char c = CHR '' '' \<longleftrightarrow> c = CHR '' ''"
  using of_char_less_256 [of c]
  by (auto simp: py_upper_char_def Let_def dest: arg_cong [where f = "of_char :: char \<Rightarrow> nat"])

lemma sql_trim_upper: "sql_trim (py_upper s) = py_upper (sql_trim s)"
  by (simp add: sql_trim_def py_upper_def strip_by_map comp_def)

lemma normalized_country_expr_idem [simp]:
  "normalized_country_expr (normalized_country_expr s) = normalized_country_expr s"
proof -
  let ?u = "py_upper (sql_trim s)"
  have u: "py_upper (sql_trim ?u) = ?u" by (simp add: sql_trim_upper) (simp add: sql_trim_def)
  show ?thesis
  proof (cases "?u = ''UK''")
    case True
    then show ?thesis
      by (simp add: normalized_country_expr_def canonical_code_eq sql_trim_def strip_by_def py_str)
  next
    case False
    then have "canonical_code ?u = ?u" by (simp add: canonical_code_eq)
    then show ?thesis using u by (simp add: normalized_country_expr_def)
  qed
qed

lemma normalized_country_expr_wf: "wf_code c \<Longrightarrow> normalized_country_expr c = c"
  by (simp add: normalized_country_expr_def wf_code_def sql_trim_alpha canonical_code_eq)

text \<open>What one backfilled row holds, when its source is not empty.\<close>

lemma backfill_row_some:
  assumes "geo_source r = Some src" "src \<noteq> []"
  shows "fst (backfill_row eu r) =
     (let n = normalized_country_expr src
      in r\<lparr>g_country := Some (if n \<in> set eu then ''EU'' else n),
           g_original := (if n \<in> set eu then Some n else None),
           g_extra := map (\<lambda>_. Some (if n \<in> set eu then ''EU'' else n)) (g_extra r)\<rparr>)"
proof -
  have id: "map (\<lambda>_. x) xs = xs" if "\<not> list_ex (\<lambda>y. y \<noteq> x) xs" for x and xs :: "country option list"
    using that by (induction xs) auto
  then show ?thesis using assms
    by (cases r) (auto simp: backfill_row_def Let_def)
qed

lemma backfill_row_none:
  "geo_source r = None \<or> geo_source r = Some [] \<Longrightarrow> backfill_row eu r = (r, False)"
  by (auto simp: backfill_row_def)

section \<open>Properties\<close>

text \<open>
  \<^verbatim>\<open>normalize_restock_regions\<close> yields the canonical form of the whitelist: no
  duplicates, every entry two upper-case letters with aliases resolved, and running it
  again on its own output changes nothing.
\<close>

theorem restock_regions_canonical:
  assumes "normalize_restock_regions v = return cs"
  shows "distinct cs \<and> list_all wf_code cs \<and> normalize_restock_regions (Some (map Some cs)) = return cs"
proof -
  from assms have "distinct cs \<and> list_all wf_code cs"
    using restock_regions_loop_result [of "[]"]
    by (auto simp: normalize_restock_regions_def split: option.splits)
  then show ?thesis
    using restock_regions_loop_fixed [of cs "[]"] by (simp add: normalize_restock_regions_def)
qed

theorem restock_regions_canonical_witness:
  "normalize_restock_regions (Some [Some '' uk'', Some ''us'', None, Some ''GB'']) = return [''GB'', ''US'']
   \<and> normalize_restock_regions (Some [Some ''GB'', Some ''US'']) = return [''GB'', ''US'']"
proof -
  have h: "normalize_restock_regions (Some [Some '' uk'', Some ''us'', None, Some ''GB'']) = return [''GB'', ''US'']"
    by code_simp
  show ?thesis using h restock_regions_canonical [OF h] by simp
qed

text \<open>
  Re-running the EU backfill after the member list changed gives what running it on the
  original data would have given: the stored row keeps enough (the audit column) to undo any
  earlier merge, so a backfill depends on the current member list only.
\<close>

theorem eu_backfill_forgets_history:
  assumes "normalize_country_list_for_eu_members v1 = return eu1"
    and "normalize_country_list_for_eu_members v2 = return eu2"
  shows "fst (backfill_row eu2 (fst (backfill_row eu1 r))) = fst (backfill_row eu2 r)"
proof (cases "geo_source r = None \<or> geo_source r = Some []")
  case True
  then show ?thesis by (simp add: backfill_row_none)
next
  case False
  then obtain src where src: "geo_source r = Some src" "src \<noteq> []" by (cases "geo_source r") auto
  let ?n = "normalized_country_expr src" and ?r1 = "fst (backfill_row eu1 r)"
  have r1: "geo_source ?r1 = Some ?n"
    using backfill_row_some [OF src, of eu1] by (auto simp: geo_source_def Let_def)
  show ?thesis
  proof (cases "?n = []")
    case True
    have "[] \<notin> set eu1" "[] \<notin> set eu2"
      using normalize_eu_members_wf [OF assms(1)] normalize_eu_members_wf [OF assms(2)]
      by (auto simp: list_all_iff wf_code_def)
    with True r1 backfill_row_some [OF src] show ?thesis by (simp add: backfill_row_none)
  next
    case False
    from backfill_row_some [OF r1 False, of eu2] backfill_row_some [OF src, of eu1]
      backfill_row_some [OF src, of eu2]
    show ?thesis by (cases r) (simp add: Let_def)
  qed
qed

theorem eu_backfill_forgets_history_witness:
  "let r = \<lparr>g_country = Some ''DE'', g_original = None, g_extra = [Some ''DE'']\<rparr>
   in normalize_country_list_for_eu_members (Some [Some ''de'', Some ''FR'']) = return [''DE'', ''FR'']
      \<and> fst (backfill_row [''DE'', ''FR''] r) = \<lparr>g_country = Some ''EU'', g_original = Some ''DE'', g_extra = [Some ''EU'']\<rparr>
      \<and> fst (backfill_row [''FR''] (fst (backfill_row [''DE'', ''FR''] r))) = r"
proof -
  let ?r = "\<lparr>g_country = Some ''DE'', g_original = None, g_extra = [Some ''DE'']\<rparr>"
  have h1: "normalize_country_list_for_eu_members (Some [Some ''de'', Some ''FR'']) = return [''DE'', ''FR'']"
    by code_simp
  have h2: "normalize_country_list_for_eu_members (Some [Some ''FR'']) = return [''FR'']" by code_simp
  have e: "fst (backfill_row [''DE'', ''FR''] ?r)
      = \<lparr>g_country = Some ''EU'', g_original = Some ''DE'', g_extra = [Some ''EU'']\<rparr>" by code_simp
  have "fst (backfill_row [''FR''] ?r) = ?r" by code_simp
  with eu_backfill_forgets_history [OF h1 h2, of ?r] have "fst (backfill_row [''FR''] (fst (backfill_row [''DE'', ''FR''] ?r))) = ?r"
    by simp
  with h1 e show ?thesis by (simp add: Let_def)
qed

text \<open>
  The two implementations of the EU merge agree: for every two-letter code, in either
  case and aliases included, what \<^verbatim>\<open>apply_eu_mapping\<close> writes at synchronisation time is
  what the backfill writes over a stored row, and applying the mapping twice is the same as
  once.
\<close>

theorem eu_mapping_sync_backfill_agree:
  assumes "normalize_country_list_for_eu_members v = return eu" "length c = 2" "py_isalpha c"
  shows "apply_eu_mapping (Some c) eu =
           g_country (fst (backfill_row eu \<lparr>g_country = Some c, g_original = None, g_extra = []\<rparr>))
       \<and> apply_eu_mapping (apply_eu_mapping (Some c) eu) eu = apply_eu_mapping (Some c) eu"
proof
  let ?r = "\<lparr>g_country = Some c, g_original = None, g_extra = []\<rparr>"
  have eu: "''EU'' \<notin> set eu" using normalize_eu_members_wf [OF assms(1)] by simp
  then show "apply_eu_mapping (apply_eu_mapping (Some c) eu) eu = apply_eu_mapping (Some c) eu"
    by (rule apply_eu_mapping_idem)
  have up: "py_isalpha (py_upper c)"
    using assms(3) by (auto simp: py_str list_all_iff Let_def)
  have n: "normalize_observed_country_code (Some c) = Some (canonical_code (py_upper c))"
    using assms up by (simp add: normalize_observed_country_code_def is_valid_observed_country_code_def
        Let_def py_strip_alpha)
  have m: "normalized_country_expr c = canonical_code (py_upper c)"
    using assms by (simp add: normalized_country_expr_def sql_trim_alpha)
  have "c \<noteq> []" using assms(2) by auto
  then show "apply_eu_mapping (Some c) eu = g_country (fst (backfill_row eu ?r))"
    using eu n m by (subst backfill_row_some [where src = c])
      (auto simp: apply_eu_mapping_def geo_source_def Let_def canonical_code_eq py_str)
qed

theorem eu_mapping_sync_backfill_agree_witness:
  "normalize_country_list_for_eu_members (Some [Some ''DE'']) = return [''DE''] \<and> py_isalpha ''de''
   \<and> apply_eu_mapping (Some ''de'') [''DE''] = Some ''EU''"
proof -
  have h: "normalize_country_list_for_eu_members (Some [Some ''DE'']) = return [''DE'']" by code_simp
  have a: "length ''de'' = 2" "py_isalpha ''de''" by code_simp+
  have "g_country (fst (backfill_row [''DE''] \<lparr>g_country = Some ''de'', g_original = None, g_extra = []\<rparr>)) = Some ''EU''"
    by code_simp
  then show ?thesis using h a eu_mapping_sync_backfill_agree [OF h a] by simp
qed

end
