(* ===== verification/Py_Float.thy ===== *)
theory Py_Float
  imports Restock_Prelude "HOL-Library.Log_Nat"
begin

text \<open>
  Python's \<^verbatim>\<open>float\<close> as the engine uses it: IEEE-754 binary64 with round-half-even. A
  finite double is the rational number it denotes; \<open>fl\<close> rounds an exact result to the
  nearest double, and each arithmetic operation of the source is its exact counterpart
  followed by \<open>fl\<close>. The exponent range is bounded below (gradual underflow at
  \<open>2 powi (- 1074)\<close>) and not above: an overflow to infinity would need magnitudes of
  \<open>2 ^ 1024\<close>, and the values come from 32-bit integer columns.

  The interface \<open>fp_rounding\<close> collects what the proofs use of rounding (monotone, exact
  on small integers, relative error \<open>2 powi (- 53)\<close>); its lemmas on sums and shares are
  proved once and reach the engine through the interpretation on \<open>fl\<close>.
\<close>

type_synonym pyfloat = rat

subsection \<open>Rounding to binary64\<close>

definition ilog2 :: "rat \<Rightarrow> int" where
  "ilog2 x = (let (n, d) = quotient_of x; k = bitlen n - bitlen d
              in if 2 powi k \<le> x then k else k - 1)"

definition round_half_even :: "rat \<Rightarrow> int" where
  "round_half_even y =
     (let f = \<lfloor>y\<rfloor>; r = y - of_int f
      in if r < 1/2 then f else if r > 1/2 then f + 1 else if even f then f else f + 1)"

definition ulp_exp :: "rat \<Rightarrow> int" where
  "ulp_exp x = max (ilog2 x - 52) (- 1074)"

definition fl_pos :: "rat \<Rightarrow> rat" where
  "fl_pos x = (let e = ulp_exp x in of_int (round_half_even (x / 2 powi e)) * 2 powi e)"

definition fl :: "rat \<Rightarrow> pyfloat" where
  "fl x = (if x = 0 then 0 else if x > 0 then fl_pos x else - fl_pos (- x))"

text \<open>The unit roundoff and the least normal double.\<close>

definition roundoff :: rat where
  "roundoff = 2 powi (- 53)"

definition min_normal :: rat where
  "min_normal = 2 powi (- 1022)"

subsection \<open>The operations of the source\<close>

definition float_of_int :: "int \<Rightarrow> pyfloat" where
  "float_of_int n = fl (of_int n)"

text \<open>\<^verbatim>\<open>a / b\<close> on two integers is correctly rounded; on floats every operation rounds once.\<close>

definition int_truediv :: "int \<Rightarrow> int \<Rightarrow> pyfloat" where
  "int_truediv a b = fl (of_int a / of_int b)"

definition fdiv :: "pyfloat \<Rightarrow> pyfloat \<Rightarrow> pyfloat" where
  "fdiv a b = fl (a / b)"

definition fmul :: "pyfloat \<Rightarrow> pyfloat \<Rightarrow> pyfloat" where
  "fmul a b = fl (a * b)"

definition fadd :: "pyfloat \<Rightarrow> pyfloat \<Rightarrow> pyfloat" where
  "fadd a b = fl (a + b)"

definition fsub :: "pyfloat \<Rightarrow> pyfloat \<Rightarrow> pyfloat" where
  "fsub a b = fl (a - b)"

text \<open>\<open>rel_within k x y\<close>: \<open>y\<close> is \<open>x\<close> up to \<open>k\<close> roundings.\<close>

definition rel_within :: "nat \<Rightarrow> rat \<Rightarrow> rat \<Rightarrow> bool" where
  "rel_within k x y \<longleftrightarrow> x * (1 - roundoff) ^ k \<le> y \<and> y \<le> x * (1 + roundoff) ^ k"

text \<open>\<^verbatim>\<open>sum(xs)\<close> of Python 3.11: left to right from 0, rounding after every addition.\<close>

definition fsum :: "pyfloat list \<Rightarrow> pyfloat" where
  "fsum xs = foldl fadd 0 xs"

section \<open>Lemmas\<close>

subsection \<open>Powers of two and the binary exponent\<close>

lemma powi2_pos [simp]: "(0::rat) < 2 powi e"
  by (simp add: zero_less_power_int)

lemma powi2_add: "(2::rat) powi (a + b) = 2 powi a * 2 powi b"
  by (simp add: power_int_add)

lemma powi2_mono: "a \<le> b \<Longrightarrow> (2::rat) powi a \<le> 2 powi b"
  by (simp add: power_int_increasing)

lemma powi2_less: "a < b \<Longrightarrow> (2::rat) powi a < 2 powi b"
  by (simp add: power_int_strict_increasing)

lemma powi2_le_iff: "(2::rat) powi a \<le> 2 powi b \<longleftrightarrow> a \<le> b"
  using powi2_mono powi2_less by (metis linorder_not_less)

lemma powi2_less_iff: "(2::rat) powi a < 2 powi b \<longleftrightarrow> a < b"
  using powi2_le_iff [of b a] by (simp add: linorder_not_le [symmetric])

lemma powi2_nat: "(2::rat) powi int n = 2 ^ n"
  by (simp add: power_int_of_nat)

lemma bitlen_powi_bounds:
  assumes "0 < n"
  shows "(2::rat) powi (bitlen n - 1) \<le> of_int n" "of_int n < (2::rat) powi bitlen n"
proof -
  have b: "2 ^ nat (bitlen n - 1) \<le> n \<and> n < 2 ^ nat (bitlen n)"
    using bitlen_bounds [OF assms] .
  have pos: "0 < bitlen n"
    using assms bitlen_nonneg [of n] bitlen_eq_zero_iff [of n] by (simp add: order_less_le)
  have "(2::rat) powi (bitlen n - 1) = of_int (2 ^ nat (bitlen n - 1))"
    using pos by (simp add: power_int_def)
  then show "(2::rat) powi (bitlen n - 1) \<le> of_int n"
    using b by (simp only: of_int_le_iff)
  have "(2::rat) powi bitlen n = of_int (2 ^ nat (bitlen n))"
    using pos by (simp add: power_int_def)
  then show "of_int n < (2::rat) powi bitlen n"
    using b by (simp only: of_int_less_iff)
qed

lemma ilog2_bounds:
  assumes "0 < x"
  shows "2 powi ilog2 x \<le> x" "x < 2 powi (ilog2 x + 1)"
proof -
  obtain n d where q: "quotient_of x = (n, d)" by (cases "quotient_of x")
  have d: "0 < d" using quotient_of_denom_pos [OF q] .
  have x: "x = of_int n / of_int d" using quotient_of_div [OF q] .
  have n: "0 < n" using assms x d by (simp add: zero_less_divide_iff)
  note bn = bitlen_powi_bounds [OF n] and bd = bitlen_powi_bounds [OF d]
  let ?k = "bitlen n - bitlen d"
  have up: "x < 2 powi (?k + 1)"
  proof -
    have "x * of_int d = of_int n" using x d by simp
    also have "\<dots> < 2 powi bitlen n" using bn(2) .
    also have "\<dots> = 2 powi (?k + 1) * 2 powi (bitlen d - 1)" by (simp flip: powi2_add)
    also have "\<dots> \<le> 2 powi (?k + 1) * of_int d" using bd(1) by (intro mult_left_mono) auto
    finally show ?thesis using d by simp
  qed
  have lo: "2 powi (?k - 1) \<le> x"
  proof -
    have "(2::rat) powi (?k - 1) * of_int d \<le> 2 powi (?k - 1) * 2 powi bitlen d"
      using bd(2) by (intro mult_left_mono) auto
    also have "\<dots> = 2 powi (bitlen n - 1)" by (simp flip: powi2_add)
    also have "\<dots> \<le> of_int n" using bn(1) .
    also have "\<dots> = x * of_int d" using x d by simp
    finally show ?thesis using d by simp
  qed
  show "2 powi ilog2 x \<le> x" "x < 2 powi (ilog2 x + 1)"
    using up lo q by (auto simp: ilog2_def Let_def not_le)
qed

lemma ilog2_unique:
  assumes "2 powi k \<le> x" "x < 2 powi (k + 1)"
  shows "ilog2 x = k"
proof -
  have "0 < x" using assms(1) powi2_pos [of k] by linarith
  note b = ilog2_bounds [OF this]
  have "2 powi k < (2::rat) powi (ilog2 x + 1)" using assms(1) b(2) by linarith
  moreover have "2 powi ilog2 x < (2::rat) powi (k + 1)" using assms(2) b(1) by linarith
  ultimately show ?thesis by (simp add: powi2_less_iff)
qed

lemma ilog2_mono:
  assumes "0 < x" "x \<le> y"
  shows "ilog2 x \<le> ilog2 y"
proof -
  have "2 powi ilog2 x < (2::rat) powi (ilog2 y + 1)"
    using ilog2_bounds [of x] ilog2_bounds [of y] assms by linarith
  then show ?thesis by (simp add: powi2_less_iff)
qed

subsection \<open>Rounding to the nearest integer\<close>

lemma round_half_even_of_int [simp]: "round_half_even (of_int n) = n"
  by (simp add: round_half_even_def)

lemma round_half_even_error: "\<bar>of_int (round_half_even y) - y\<bar> \<le> 1/2"
proof -
  have "of_int \<lfloor>y\<rfloor> \<le> y" "y < of_int \<lfloor>y\<rfloor> + 1" by linarith+
  then show ?thesis by (auto simp: round_half_even_def Let_def abs_le_iff)
qed

lemma round_half_even_mono:
  assumes "y \<le> z"
  shows "round_half_even y \<le> round_half_even z"
proof (rule ccontr)
  assume "\<not> ?thesis"
  then have "round_half_even z + 1 \<le> round_half_even y" by linarith
  then have "of_int (round_half_even z) + 1 \<le> (of_int (round_half_even y) :: rat)"
    by (metis of_int_1 of_int_add of_int_le_iff)
  then have "y = z"
    using assms round_half_even_error [of y] round_half_even_error [of z] by (simp add: abs_le_iff)
  with \<open>\<not> ?thesis\<close> show False by simp
qed

lemma round_half_even_ge: "of_int n \<le> y \<Longrightarrow> n \<le> round_half_even y"
  using round_half_even_mono [of "of_int n" y] by simp

lemma round_half_even_le: "y \<le> of_int n \<Longrightarrow> round_half_even y \<le> n"
  using round_half_even_mono [of y "of_int n"] by simp

subsection \<open>Rounding to a double\<close>

lemma fl_0 [simp]: "fl 0 = 0"
  by (simp add: fl_def)

lemma fl_minus: "fl (- x) = - fl x"
  by (simp add: fl_def)

lemma fl_pos_eq: "0 < x \<Longrightarrow> fl x = fl_pos x"
  by (simp add: fl_def)

lemma ulp_exp_mono: "0 < x \<Longrightarrow> x \<le> y \<Longrightarrow> ulp_exp x \<le> ulp_exp y"
  using ilog2_mono [of x y] by (auto simp: ulp_exp_def)

lemma scaled_less_2_53:
  assumes "0 < x"
  shows "x / 2 powi ulp_exp x < 2 ^ 53"
proof -
  have "x < 2 powi (ilog2 x + 1)" using ilog2_bounds(2) [OF assms] .
  also have "\<dots> \<le> 2 powi (53 + ulp_exp x)" by (rule powi2_mono) (simp add: ulp_exp_def)
  also have "\<dots> = 2 ^ 53 * 2 powi ulp_exp x" by (simp only: powi2_add) (simp flip: powi2_nat)
  finally show ?thesis by (simp add: divide_less_eq)
qed

lemma scaled_ge_2_52:
  assumes "0 < x" "- 1074 < ulp_exp x"
  shows "2 ^ 52 \<le> x / 2 powi ulp_exp x"
proof -
  have e: "ilog2 x = 52 + ulp_exp x" using assms(2) by (simp add: ulp_exp_def)
  have "2 ^ 52 * 2 powi ulp_exp x = (2::rat) powi ilog2 x"
    by (simp only: e powi2_add) (simp flip: powi2_nat)
  also have "\<dots> \<le> x" using ilog2_bounds(1) [OF assms(1)] .
  finally show ?thesis by (simp add: le_divide_eq)
qed

lemma fl_pos_nonneg: "0 < x \<Longrightarrow> 0 \<le> fl_pos x"
  using round_half_even_ge [of 0 "x / 2 powi ulp_exp x"]
  by (simp add: fl_pos_def Let_def)

lemma fl_pos_mono:
  assumes "0 < x" "x \<le> y"
  shows "fl_pos x \<le> fl_pos y"
proof (cases "ulp_exp x = ulp_exp y")
  case True
  have "round_half_even (x / 2 powi ulp_exp x) \<le> round_half_even (y / 2 powi ulp_exp x)"
    using assms by (intro round_half_even_mono divide_right_mono) auto
  then show ?thesis using True by (simp add: fl_pos_def Let_def)
next
  case False
  let ?ex = "ulp_exp x" and ?ey = "ulp_exp y"
  have lt: "?ex < ?ey" using False ulp_exp_mono [OF assms] by simp
  then have "- 1074 < ?ey" using ulp_exp_def [of x] by linarith
  with assms have y: "2 ^ 52 \<le> y / 2 powi ?ey" by (intro scaled_ge_2_52) auto
  have "x / 2 powi ?ex \<le> of_int (2 ^ 53)" using scaled_less_2_53 [OF assms(1)] by simp
  then have "round_half_even (x / 2 powi ?ex) \<le> 2 ^ 53" by (rule round_half_even_le)
  then have "of_int (round_half_even (x / 2 powi ?ex)) \<le> (of_int (2 ^ 53) :: rat)"
    by (simp only: of_int_le_iff)
  then have "fl_pos x \<le> 2 ^ 53 * 2 powi ?ex" by (simp add: fl_pos_def Let_def)
  also have "\<dots> = 2 powi (53 + ?ex)" by (simp only: powi2_add) (simp flip: powi2_nat)
  also have "\<dots> \<le> 2 powi (52 + ?ey)" using lt by (intro powi2_mono) simp
  also have "\<dots> = 2 ^ 52 * 2 powi ?ey" by (simp only: powi2_add) (simp flip: powi2_nat)
  also have "\<dots> \<le> fl_pos y"
  proof -
    have "2 ^ 52 \<le> round_half_even (y / 2 powi ?ey)"
      using y by (intro round_half_even_ge) simp
    then have "of_int (2 ^ 52) \<le> (of_int (round_half_even (y / 2 powi ?ey)) :: rat)"
      by (simp only: of_int_le_iff)
    then show ?thesis by (simp add: fl_pos_def Let_def)
  qed
  finally show ?thesis .
qed

lemma fl_nonneg: "0 \<le> x \<Longrightarrow> 0 \<le> fl x"
  using fl_pos_nonneg [of x] by (simp add: fl_def)

lemma fl_mono: "x \<le> y \<Longrightarrow> fl x \<le> fl y"
  using fl_pos_mono [of x y] fl_pos_mono [of "- y" "- x"] fl_pos_nonneg [of y] fl_pos_nonneg [of "- x"]
  by (auto simp: fl_def)

lemma fl_pos_exact:
  assumes "0 < x" "x = of_int m * 2 powi e" "ulp_exp x \<le> e"
  shows "fl_pos x = x"
proof -
  define u where "u = ulp_exp x"
  define k where "k = nat (e - u)"
  have "e = int k + u" using assms(3) by (simp add: u_def k_def)
  then have "(2::rat) powi e = 2 ^ k * 2 powi u" by (metis powi2_add powi2_nat)
  then have "x / 2 powi u = of_int (m * 2 ^ k)" by (simp add: assms(2))
  then have "of_int (round_half_even (x / 2 powi u)) = x / 2 powi u"
    by (metis round_half_even_of_int)
  then show ?thesis by (simp add: fl_pos_def Let_def u_def)
qed

text \<open>Every multiple of \<open>2 powi e\<close> with at most 53 significant bits is a double.\<close>

lemma fl_representable:
  assumes "\<bar>m\<bar> \<le> 2 ^ 53" "- 1074 \<le> e"
  shows "fl (of_int m * 2 powi e) = of_int m * 2 powi e"
proof -
  have pos: "fl_pos (of_int k * 2 powi e) = of_int k * 2 powi e" if k: "0 < k" "k \<le> 2 ^ 53" for k
  proof (cases "k = 2 ^ 53")
    case True
    let ?x = "of_int k * 2 powi e :: rat"
    have x: "?x = 2 powi (53 + e)" by (simp only: True powi2_add) (simp flip: powi2_nat)
    have "ilog2 ?x = 53 + e" unfolding x by (rule ilog2_unique) (simp_all add: powi2_less)
    then have u: "ulp_exp ?x \<le> 1 + e" using assms(2) by (simp add: ulp_exp_def)
    have "?x = of_int (2 ^ 52) * 2 powi (1 + e)" by (simp add: True powi2_add)
    then show ?thesis using u k by (intro fl_pos_exact) auto
  next
    case False
    let ?x = "of_int k * 2 powi e :: rat"
    have "k < 2 ^ 53" using False k by simp
    then have "of_int k < (of_int (2 ^ 53) :: rat)" by (simp only: of_int_less_iff)
    then have "?x < 2 ^ 53 * 2 powi e" by simp
    also have "\<dots> = 2 powi (53 + e)" by (simp only: powi2_add) (simp flip: powi2_nat)
    finally have "?x < 2 powi (53 + e)" .
    moreover have "2 powi ilog2 ?x \<le> ?x" using k by (intro ilog2_bounds) simp
    ultimately have "(2::rat) powi ilog2 ?x < 2 powi (53 + e)" by linarith
    then have "ilog2 ?x < 53 + e" by (simp only: powi2_less_iff)
    then have "ulp_exp ?x \<le> e" using assms(2) by (simp add: ulp_exp_def)
    then show ?thesis using k by (intro fl_pos_exact) auto
  qed
  consider "m = 0" | "0 < m" | "m < 0" by linarith
  then show ?thesis
  proof cases
    case 2 then show ?thesis using pos [of m] assms(1) by (simp add: fl_pos_eq)
  next
    case 3
    then have "fl (of_int (- m) * 2 powi e) = of_int (- m) * 2 powi e"
      using pos [of "- m"] assms(1) by (subst fl_pos_eq) (auto simp: mult_neg_pos)
    then show ?thesis by (simp add: fl_minus)
  qed simp
qed

lemma fl_of_int: "\<bar>n\<bar> \<le> 2 ^ 53 \<Longrightarrow> fl (of_int n) = of_int n"
  using fl_representable [of n 0] by simp

lemma fl_pos_error:
  assumes "0 < x"
  shows "\<bar>fl_pos x - x\<bar> \<le> 2 powi ulp_exp x / 2"
proof -
  let ?p = "2 powi ulp_exp x :: rat" and ?r = "of_int (round_half_even (x / 2 powi ulp_exp x)) :: rat"
  have "fl_pos x - x = (?r - x / ?p) * ?p" by (simp add: fl_pos_def Let_def algebra_simps)
  then have "\<bar>fl_pos x - x\<bar> = \<bar>?r - x / ?p\<bar> * ?p" by (simp add: abs_mult)
  also have "\<dots> \<le> 1/2 * ?p" using round_half_even_error by (intro mult_right_mono) auto
  finally show ?thesis by simp
qed

lemma roundoff_pos [simp]: "0 < roundoff" "0 \<le> roundoff"
  by (simp_all add: roundoff_def less_imp_le)

lemma roundoff_le_1 [simp]: "roundoff \<le> 1"
  by (simp add: roundoff_def power_int_minus)

lemma min_normal_pos [simp]: "0 < min_normal" "0 \<le> min_normal"
  by (simp_all add: min_normal_def less_imp_le)

lemma fl_rel_error:
  assumes "min_normal \<le> x"
  shows "\<bar>fl x - x\<bar> \<le> x * roundoff"
proof -
  have pos: "0 < x" using assms min_normal_pos by linarith
  have "2 powi (- 1022) < (2::rat) powi (ilog2 x + 1)"
    using assms ilog2_bounds(2) [OF pos] unfolding min_normal_def by linarith
  then have "- 1022 < ilog2 x + 1" by (simp only: powi2_less_iff)
  then have e: "ulp_exp x = ilog2 x + - 52" by (simp add: ulp_exp_def)
  have "\<bar>fl x - x\<bar> \<le> 2 powi ulp_exp x / 2" using fl_pos_error [OF pos] by (simp add: fl_pos_eq pos)
  also have "\<dots> = 2 powi ilog2 x * roundoff"
    by (simp only: e powi2_add roundoff_def) (simp add: power_int_minus)
  also have "\<dots> \<le> x * roundoff" using ilog2_bounds(1) [OF pos] by (intro mult_right_mono) auto
  finally show ?thesis .
qed

lemma roundoff_le_half: "roundoff \<le> 1/2"
  by (simp add: roundoff_def power_int_minus)

lemma fl_pos_ge_tiny:
  assumes "min_normal \<le> x"
  shows "0 < fl x"
proof -
  have pos: "0 < x" using assms min_normal_pos by linarith
  then have "x * roundoff \<le> x * (1/2)" using roundoff_le_half by (intro mult_left_mono) auto
  then have "x - fl x \<le> x / 2" using fl_rel_error [OF assms] unfolding abs_le_iff by linarith
  then show ?thesis using pos by linarith
qed

text \<open>
  Subtracting a stock count from a double: when \<open>0 \<le> s \<le> a \<le> 2 ^ 53\<close> the
  difference has no more significant bits than \<open>a\<close>, so the subtraction is exact.
\<close>

lemma fl_form:
  assumes "0 < x"
  obtains m e where "fl x = of_int m * 2 powi e" "0 \<le> m" "m \<le> 2 ^ 53" "- 1074 \<le> e"
proof
  let ?m = "round_half_even (x / 2 powi ulp_exp x)"
  show "fl x = of_int ?m * 2 powi ulp_exp x" by (simp add: fl_pos_eq assms fl_pos_def Let_def)
  show "0 \<le> ?m" using assms by (intro round_half_even_ge) simp
  show "?m \<le> 2 ^ 53" using scaled_less_2_53 [OF assms] by (intro round_half_even_le) simp
  show "- 1074 \<le> ulp_exp x" by (simp add: ulp_exp_def)
qed

lemma fl_diff_int:
  assumes "0 \<le> x" "0 \<le> s" "of_int s \<le> fl x" "fl x \<le> 2 ^ 53"
  shows "fl (fl x - of_int s) = fl x - of_int s"
proof (cases "x = 0")
  case True
  then show ?thesis using assms by simp
next
  case False
  then have "0 < x" using assms(1) by simp
  then obtain m e where f: "fl x = of_int m * 2 powi e" "0 \<le> m" "m \<le> 2 ^ 53" "- 1074 \<le> e"
    by (rule fl_form)
  show ?thesis
  proof (cases "0 \<le> e")
    case True
    then have "fl x = of_int (m * 2 ^ nat e)" by (simp add: f(1) power_int_def)
    then have d: "fl x - of_int s = of_int (m * 2 ^ nat e - s)" by simp
    have "of_int (m * 2 ^ nat e - s) \<le> (of_int (2 ^ 53) :: rat)"
      using assms(2,4) d by simp
    then have "m * 2 ^ nat e - s \<le> 2 ^ 53" by (simp only: of_int_le_iff)
    moreover have "0 \<le> m * 2 ^ nat e - s" using assms(3) d by (metis diff_ge_0_iff_ge of_int_0_le_iff)
    ultimately show ?thesis unfolding d by (intro fl_of_int) simp
  next
    case False
    define k where "k = nat (- e)"
    have "(2::rat) ^ k * 2 powi e = 1"
      using False by (simp add: k_def power_int_def power_mult_distrib [symmetric])
    then have "of_int s = of_int (s * 2 ^ k) * (2::rat) powi e" by (simp add: mult.assoc)
    then have d: "fl x - of_int s = of_int (m - s * 2 ^ k) * 2 powi e"
      by (simp add: f(1) left_diff_distrib)
    have "0 \<le> of_int (m - s * 2 ^ k) * (2::rat) powi e" using assms(3) d by simp
    then have "(0::rat) \<le> of_int (m - s * 2 ^ k)" by (simp only: zero_le_mult_iff) (use powi2_pos [of e] in auto)
    then have "0 \<le> m - s * 2 ^ k" by (simp only: of_int_0_le_iff)
    moreover have "0 \<le> s * 2 ^ k" using assms(2) by simp
    ultimately have "\<bar>m - s * 2 ^ k\<bar> \<le> 2 ^ 53" using f(3) by simp
    then show ?thesis unfolding d using f(4) by (rule fl_representable)
  qed
qed

text \<open>Bernoulli's inequality, and the two powers of the roundoff it bounds.\<close>

lemma bernoulli_rat: "u \<le> 1 \<Longrightarrow> 1 - of_nat n * u \<le> (1 - u :: rat) ^ n" if "0 \<le> u"
proof (induction n)
  case (Suc n)
  have "1 - of_nat (Suc n) * u \<le> (1 - of_nat n * u) * (1 - u)"
    using that by (simp add: algebra_simps)
  also have "\<dots> \<le> (1 - u) ^ n * (1 - u)" using Suc by (intro mult_right_mono) auto
  finally show ?case by (simp add: mult.commute)
qed simp

lemma roundoff_powers:
  assumes "of_nat n \<le> (2::rat) ^ 51"
  shows "1 - of_nat n * roundoff \<le> (1 - roundoff) ^ n"
    and "(1 + roundoff) ^ n * (1 - of_nat n * roundoff) \<le> 1"
    and "3/4 \<le> 1 - of_nat n * roundoff"
    and "(1 + roundoff) ^ n \<le> 2"
proof -
  show a: "1 - of_nat n * roundoff \<le> (1 - roundoff) ^ n" by (rule bernoulli_rat) simp_all
  have "(1 + roundoff) ^ n * (1 - of_nat n * roundoff) \<le> (1 + roundoff) ^ n * (1 - roundoff) ^ n"
    using a by (intro mult_left_mono) simp_all
  also have "\<dots> = (1 - roundoff * roundoff) ^ n" by (simp add: power_mult_distrib [symmetric] algebra_simps)
  also have "\<dots> \<le> 1" by (intro power_le_one) (simp_all add: mult_le_one)
  finally show b: "(1 + roundoff) ^ n * (1 - of_nat n * roundoff) \<le> 1" .
  have "of_nat n * roundoff \<le> 2 ^ 51 * roundoff" using assms by (intro mult_right_mono) simp_all
  also have "\<dots> = 1/4" by (simp add: roundoff_def power_int_minus)
  finally show c: "3/4 \<le> 1 - of_nat n * roundoff" by simp
  have "(1 + roundoff) ^ n * (3/4) \<le> (1 + roundoff) ^ n * (1 - of_nat n * roundoff)"
    using c by (intro mult_left_mono) simp_all
  then show "(1 + roundoff) ^ n \<le> 2" using b by simp
qed

subsection \<open>Accumulated relative error\<close>

lemma rel_within_refl: "rel_within 0 x x"
  by (simp add: rel_within_def)

lemma rel_within_zero: "rel_within k 0 y \<longleftrightarrow> y = 0"
  by (auto simp: rel_within_def)

lemma rel_within_nonneg:
  assumes "rel_within k x y" "0 \<le> x"
  shows "0 \<le> y"
proof -
  have "0 \<le> x * (1 - roundoff) ^ k" using assms(2) by simp
  then show ?thesis using assms(1) unfolding rel_within_def by linarith
qed

lemma rel_within_Suc:
  assumes "rel_within k x y" "0 \<le> x"
  shows "rel_within (Suc k) x y"
proof -
  have "x * (1 - roundoff) ^ Suc k \<le> x * (1 - roundoff) ^ k"
    using assms(2) by (intro mult_left_mono power_decreasing) simp_all
  moreover have "x * (1 + roundoff) ^ k \<le> x * (1 + roundoff) ^ Suc k"
    using assms(2) by (intro mult_left_mono power_increasing) simp_all
  ultimately show ?thesis using assms(1) unfolding rel_within_def by linarith
qed

lemma rel_within_add: "rel_within k x y \<Longrightarrow> rel_within k x' y' \<Longrightarrow> rel_within k (x + x') (y + y')"
  by (simp add: rel_within_def distrib_right add_mono)

lemma rel_within_mult:
  assumes "rel_within j x y" "rel_within k x' y'" "0 \<le> x" "0 \<le> x'"
  shows "rel_within (j + k) (x * x') (y * y')"
proof -
  have y: "0 \<le> y" "0 \<le> y'" using assms rel_within_nonneg by blast+
  have "x * (1 - roundoff) ^ j * (x' * (1 - roundoff) ^ k) \<le> y * y'"
    using assms y by (intro mult_mono) (auto simp: rel_within_def)
  moreover have "y * y' \<le> x * (1 + roundoff) ^ j * (x' * (1 + roundoff) ^ k)"
    using assms y by (intro mult_mono) (auto simp: rel_within_def)
  ultimately show ?thesis by (simp add: rel_within_def power_add mult_ac)
qed

lemma rel_within_normal:
  assumes "rel_within k x y" "2 ^ k * min_normal \<le> x"
  shows "min_normal \<le> y"
proof -
  have "(1/2) ^ k \<le> (1 - roundoff) ^ k" using roundoff_le_half by (intro power_mono) auto
  then have "2 ^ k * min_normal * (1/2) ^ k \<le> x * (1 - roundoff) ^ k"
    using assms(2) order_trans [OF _ assms(2), of 0] min_normal_pos
    by (intro mult_mono) (auto intro: less_imp_le)
  moreover have "2 ^ k * min_normal * (1/2) ^ k = min_normal"
    by (simp add: power_divide)
  ultimately show ?thesis using assms(1) by (simp add: rel_within_def)
qed

lemma min_normal_small: "2 ^ 10 * min_normal \<le> 1/1000"
  by (simp add: min_normal_def power_int_minus)

section \<open>The rounding interface\<close>

locale fp_rounding =
  fixes rnd :: "rat \<Rightarrow> rat"
  assumes rnd_mono: "x \<le> y \<Longrightarrow> rnd x \<le> rnd y"
    and rnd_int: "\<bar>n\<bar> \<le> 2 ^ 53 \<Longrightarrow> rnd (of_int n) = of_int n"
    and rnd_err: "min_normal \<le> x \<Longrightarrow> \<bar>rnd x - x\<bar> \<le> x * roundoff"
begin

lemma rnd_nonneg: "0 \<le> x \<Longrightarrow> 0 \<le> rnd x"
  using rnd_mono [of 0 x] rnd_int [of 0] by simp

lemma rnd_upper: "min_normal \<le> x \<Longrightarrow> rnd x \<le> x * (1 + roundoff)"
  using rnd_err [of x] by (simp add: abs_le_iff algebra_simps)

lemma rnd_lower: "min_normal \<le> x \<Longrightarrow> x * (1 - roundoff) \<le> rnd x"
  using rnd_err [of x] by (simp add: abs_le_iff algebra_simps)

lemma rel_within_rnd:
  assumes "rel_within k x y" "x = 0 \<or> 2 ^ k * min_normal \<le> x"
  shows "rel_within (Suc k) x (rnd y)"
proof (cases "x = 0")
  case True
  then show ?thesis using assms(1) rnd_int [of 0] by (simp add: rel_within_zero)
next
  case False
  then have n: "min_normal \<le> y" using rel_within_normal assms by blast
  have "x * (1 - roundoff) ^ k * (1 - roundoff) \<le> y * (1 - roundoff)"
    using assms(1) by (intro mult_right_mono) (simp_all add: rel_within_def)
  moreover have "y * (1 + roundoff) \<le> x * (1 + roundoff) ^ k * (1 + roundoff)"
    using assms(1) by (intro mult_right_mono) (simp_all add: rel_within_def)
  ultimately show ?thesis
    using rnd_lower [OF n] rnd_upper [OF n] by (simp add: rel_within_def mult_ac)
qed

lemma running_sum_bounds:
  assumes "0 \<le> a" "\<forall>w \<in> set ws. min_normal \<le> w"
  shows "(a + sum_list ws) * (1 - roundoff) ^ length ws \<le> foldl (\<lambda>s w. rnd (s + w)) a ws
       \<and> foldl (\<lambda>s w. rnd (s + w)) a ws \<le> (a + sum_list ws) * (1 + roundoff) ^ length ws"
  using assms
proof (induction ws arbitrary: a)
  case Nil
  then show ?case by simp
next
  case (Cons w ws)
  let ?lo = "1 - roundoff" and ?hi = "1 + roundoff"
  have big: "min_normal \<le> a + w" using Cons.prems by simp
  have S: "0 \<le> sum_list ws"
    using Cons.prems(2) less_le_trans [OF min_normal_pos(1)] by (intro sum_list_nonneg) (auto intro: less_imp_le)
  have a': "0 \<le> rnd (a + w)" using big min_normal_pos by (intro rnd_nonneg) linarith
  note IH = Cons.IH [OF a']
  have "(a + w + sum_list ws) * ?lo \<le> rnd (a + w) + sum_list ws"
    using rnd_lower [OF big] mult_right_le_one_le [OF S, of ?lo] by (simp add: distrib_right)
  then have l: "(a + w + sum_list ws) * ?lo * ?lo ^ length ws \<le> (rnd (a + w) + sum_list ws) * ?lo ^ length ws"
    by (intro mult_right_mono) simp_all
  have "rnd (a + w) + sum_list ws \<le> (a + w + sum_list ws) * ?hi"
    using rnd_upper [OF big] mult_left_mono [of 1 ?hi "sum_list ws"] S by (simp add: distrib_right)
  then have u: "(rnd (a + w) + sum_list ws) * ?hi ^ length ws \<le> (a + w + sum_list ws) * ?hi * ?hi ^ length ws"
    by (intro mult_right_mono) simp_all
  show ?case
  proof
    show "(a + sum_list (w # ws)) * ?lo ^ length (w # ws) \<le> foldl (\<lambda>s w. rnd (s + w)) a (w # ws)"
      using order_trans [OF l conjunct1 [OF IH]] Cons.prems by (simp add: mult.assoc add.assoc)
    show "foldl (\<lambda>s w. rnd (s + w)) a (w # ws) \<le> (a + sum_list (w # ws)) * ?hi ^ length (w # ws)"
      using order_trans [OF conjunct2 [OF IH] u] Cons.prems by (simp add: mult.assoc add.assoc)
  qed
qed

lemma share_bounds:
  assumes "1 \<le> t" "2 powi (- 100) \<le> w" "0 < W" "W \<le> 2 powi 152"
  shows "t * w / W * (1 - roundoff)\<^sup>2 \<le> rnd (rnd (t * w) / W)
       \<and> rnd (rnd (t * w) / W) \<le> t * w / W * (1 + roundoff)\<^sup>2"
proof -
  have w: "0 < w" using assms(2) powi2_pos [of "- 100"] by linarith
  then have "1 * w \<le> t * w" using assms(1) by (intro mult_right_mono) auto
  then have tw: "2 powi (- 100) \<le> t * w" using assms(2) by linarith
  have n1: "min_normal \<le> t * w"
    unfolding min_normal_def by (rule order_trans [OF powi2_mono tw]) simp
  have half: "1/2 \<le> 1 - roundoff" using roundoff_le_half by simp
  have "2 powi (- 100) * (1/2) \<le> t * w * (1 - roundoff)"
    using tw half by (intro mult_mono) (auto intro: less_imp_le order_trans [OF _ tw])
  then have x: "2 powi (- 101) \<le> rnd (t * w)"
    using rnd_lower [OF n1] by (simp add: power_int_minus)
  have "(2::rat) powi (- 1022) * W \<le> 2 powi (- 1022) * 2 powi 152"
    using assms(4) by (intro mult_left_mono) auto
  also have "\<dots> \<le> 2 powi (- 101)" by (simp only: powi2_add [symmetric]) (rule powi2_mono, simp)
  also have "\<dots> \<le> rnd (t * w)" using x .
  finally have n2: "min_normal \<le> rnd (t * w) / W" using assms(3) by (simp add: min_normal_def le_divide_eq)
  have "t * w * (1 - roundoff) / W \<le> rnd (t * w) / W"
    using rnd_lower [OF n1] assms(3) by (intro divide_right_mono) auto
  then have "t * w * (1 - roundoff) / W * (1 - roundoff) \<le> rnd (t * w) / W * (1 - roundoff)"
    by (intro mult_right_mono) simp_all
  then have l: "t * w / W * (1 - roundoff)\<^sup>2 \<le> rnd (rnd (t * w) / W)"
    using rnd_lower [OF n2] by (simp add: power2_eq_square mult.assoc)
  have "rnd (t * w) / W \<le> t * w * (1 + roundoff) / W"
    using rnd_upper [OF n1] assms(3) by (intro divide_right_mono) auto
  then have "rnd (t * w) / W * (1 + roundoff) \<le> t * w * (1 + roundoff) / W * (1 + roundoff)"
    by (intro mult_right_mono) simp_all
  then have "rnd (rnd (t * w) / W) \<le> t * w / W * (1 + roundoff)\<^sup>2"
    using rnd_upper [OF n2] by (simp add: power2_eq_square mult.assoc)
  with l show ?thesis ..
qed

lemma rounded_total:
  assumes "ws \<noteq> []" "\<forall>w \<in> set ws. 2 powi (- 100) \<le> w \<and> w \<le> 2 powi 100"
    and "of_nat (length ws) \<le> (2::rat) ^ 51"
  defines "W \<equiv> foldl (\<lambda>s w. rnd (s + w)) 0 ws"
  shows "0 < sum_list ws" "sum_list ws * (1 - of_nat (length ws) * roundoff) \<le> W"
    and "W * (1 - of_nat (length ws) * roundoff) \<le> sum_list ws" "0 < W" "W \<le> 2 powi 152"
proof -
  let ?n = "length ws" and ?S = "sum_list ws"
  note pw = roundoff_powers [OF assms(3)]
  have normal: "\<forall>w \<in> set ws. min_normal \<le> w"
    using assms(2) powi2_mono [of "- 1022" "- 100"] unfolding min_normal_def by fastforce
  have wpos: "\<forall>w \<in> set ws. 0 < w" using normal less_le_trans [OF min_normal_pos(1)] by blast
  then show S: "0 < ?S" using assms(1) by (cases ws) (force intro!: add_pos_nonneg sum_list_nonneg)+
  have W: "?S * (1 - roundoff) ^ ?n \<le> W" "W \<le> ?S * (1 + roundoff) ^ ?n"
    using running_sum_bounds [of 0 ws] normal by (simp_all add: W_def)
  have "?S * (1 - of_nat ?n * roundoff) \<le> ?S * (1 - roundoff) ^ ?n"
    using pw(1) S by (intro mult_left_mono) auto
  then show lo: "?S * (1 - of_nat ?n * roundoff) \<le> W" using W(1) by linarith
  have "W * (1 - of_nat ?n * roundoff) \<le> ?S * ((1 + roundoff) ^ ?n * (1 - of_nat ?n * roundoff))"
    using W(2) pw(3) by (simp only: mult.assoc [symmetric]) (intro mult_right_mono, auto)
  also have "\<dots> \<le> ?S * 1" using pw(2) S by (intro mult_left_mono) auto
  finally show "W * (1 - of_nat ?n * roundoff) \<le> ?S" by simp
  have "0 < ?S * (1 - of_nat ?n * roundoff)" using S pw(3) by (intro mult_pos_pos) auto
  then show "0 < W" using lo by linarith
  have "?S \<le> sum_list (map (\<lambda>_. 2 powi 100) ws)"
    using assms(2) sum_list_mono [of ws "\<lambda>w. w" "\<lambda>_. 2 powi 100"] by simp
  then have "?S \<le> 2 ^ 51 * 2 powi 100"
    using assms(3) mult_right_mono [OF assms(3), of "2 powi 100"]
    by (simp add: map_replicate_const sum_list_replicate)
  then have "?S * (1 + roundoff) ^ ?n \<le> 2 ^ 51 * 2 powi 100 * 2"
    using pw(4) S by (intro mult_mono) auto
  then show "W \<le> 2 powi 152" using W(2) by simp
qed

lemma shares_sum:
  assumes "ws \<noteq> []" "\<forall>w \<in> set ws. 2 powi (- 100) \<le> w \<and> w \<le> 2 powi 100"
    and "1 \<le> t" "t * of_nat (length ws + 3) \<le> 2 ^ 51"
  defines "W \<equiv> foldl (\<lambda>s w. rnd (s + w)) 0 ws"
  shows "\<bar>sum_list (map (\<lambda>w. rnd (rnd (t * w) / W)) ws) - t\<bar> \<le> 1/2"
proof -
  let ?n = "of_nat (length ws) :: rat" and ?S = "sum_list ws" and ?sh = "\<lambda>w. rnd (rnd (t * w) / W)"
  have "?n + 3 \<le> t * (?n + 3)" using mult_right_mono [OF assms(3), of "?n + 3"] by simp
  also have "\<dots> \<le> 2 ^ 51" using assms(4) by simp
  finally have n: "?n \<le> 2 ^ 51" by linarith
  note tot = rounded_total [OF assms(1,2) n, folded W_def]
  define nu where "nu = ?n * roundoff"
  have nu: "0 \<le> nu" "nu \<le> 1/4" using roundoff_powers(3) [OF n] by (simp_all add: nu_def)
  have "t * (?n + 3) * roundoff \<le> 2 ^ 51 * roundoff" using assms(4) by (intro mult_right_mono) simp_all
  then have small: "t * nu + 3 * t * roundoff \<le> 1/4"
    by (simp add: nu_def algebra_simps) (simp add: roundoff_def power_int_minus)
  have sumc: "sum_list (map (\<lambda>w. t * w / W * c) ws) = t * c * (?S / W)" for c
    by (induction ws) (simp_all add: add_divide_distrib algebra_simps)
  have each: "t * w / W * (1 - roundoff)\<^sup>2 \<le> ?sh w \<and> ?sh w \<le> t * w / W * (1 + roundoff)\<^sup>2"
    if "w \<in> set ws" for w
    using share_bounds [of t w W] that assms(2,3) tot(4,5) by simp
  have up: "sum_list (map ?sh ws) \<le> t * (1 + roundoff)\<^sup>2 * (?S / W)"
    unfolding sumc [symmetric] using each by (intro sum_list_mono) simp
  have lo: "t * (1 - roundoff)\<^sup>2 * (?S / W) \<le> sum_list (map ?sh ws)"
    unfolding sumc [symmetric] using each by (intro sum_list_mono) simp
  have q: "?S / W * (1 - nu) \<le> 1" "1 - nu \<le> ?S / W"
    using tot by (simp_all add: nu_def divide_le_eq le_divide_eq mult.commute)
  have sq: "(1 + roundoff)\<^sup>2 \<le> 1 + 3 * roundoff" "1 - 2 * roundoff \<le> (1 - roundoff)\<^sup>2"
    using mult_right_mono [of roundoff 1 roundoff] by (simp_all add: power2_eq_square algebra_simps)
  have "sum_list (map ?sh ws) * (1 - nu) \<le> t * (1 + roundoff)\<^sup>2 * (?S / W) * (1 - nu)"
    using up nu by (intro mult_right_mono) auto
  also have "\<dots> \<le> t * (1 + roundoff)\<^sup>2 * 1"
    using q(1) assms(3) by (simp only: mult.assoc) (intro mult_left_mono, auto)
  also have "\<dots> \<le> t * (1 + 3 * roundoff)" using sq(1) assms(3) by simp
  also have "\<dots> \<le> (t + 1/2) * (1 - nu)" using small nu by (simp add: algebra_simps)
  finally have A: "sum_list (map ?sh ws) \<le> t + 1/2" using nu by (simp add: mult_le_cancel_right)
  have "0 \<le> nu * t" "0 \<le> roundoff * t" using assms(3) nu by simp_all
  then have "t - 1/2 \<le> t * (1 - 2 * roundoff - nu)" using small by (simp add: algebra_simps)
  also have "\<dots> \<le> t * ((1 - 2 * roundoff) * (1 - nu))"
    using assms(3) nu by (intro mult_left_mono) (auto simp: algebra_simps)
  also have "\<dots> \<le> t * ((1 - roundoff)\<^sup>2 * (?S / W))"
    using sq(2) q(2) nu assms(3) tot(1,4) roundoff_le_half
    by (intro mult_left_mono mult_mono) auto
  also have "\<dots> \<le> sum_list (map ?sh ws)" using lo by (simp only: mult.assoc)
  finally show ?thesis using A unfolding abs_le_iff by linarith
qed

end

interpretation fp: fp_rounding fl
  by unfold_locales (auto intro: fl_mono fl_of_int fl_rel_error)

end
