(* ===== verification/Db_Schema.thy ===== *)
theory Db_Schema
  imports Restock_Prelude
begin

text \<open>
  The tables of \<^verbatim>\<open>backend/app/models\<close> that the calculation engine reads and writes, one
  record per ORM class with the columns the modelled code uses (creation and update
  timestamps maintained by the database are left out). A nullable column is an \<open>option\<close>.
  A table is the list of its rows; a query without \<^verbatim>\<open>ORDER BY\<close> returns them in the
  list's order, so a theorem over an arbitrary list holds for whatever order PostgreSQL
  chooses. Text constants outside ASCII are given by their UTF-8 bytes.
\<close>

subsection \<open>Orders\<close>

definition utf8 :: "nat list \<Rightarrow> string" where
  "utf8 bs = map char_of bs"

definition ORDER_SOURCE_AMAZON :: string where
  "ORDER_SOURCE_AMAZON = utf8 [228, 186, 154, 233, 169, 172, 233, 128, 138]"

definition ORDER_SOURCE_MULTIPLATFORM :: string where
  "ORDER_SOURCE_MULTIPLATFORM = utf8 [229, 164, 154, 229, 185, 179, 229, 143, 176]"

definition ORDER_SOURCE_PACKAGE :: string where
  "ORDER_SOURCE_PACKAGE = utf8 [232, 174, 162, 229, 141, 149, 229, 164, 132, 231, 144, 134]"

record order_header =
  oh_id :: int
  oh_shop_id :: string
  oh_amazon_order_id :: string
  oh_source :: string
  oh_order_platform :: string
  oh_package_sn :: string
  oh_package_status :: "string option"
  oh_postal_code :: "string option"
  oh_marketplace_id :: string
  oh_country_code :: country
  oh_original_country_code :: "country option"
  oh_order_status :: string
  oh_purchase_date :: instant
  oh_shop_name :: "string option"
  oh_last_update_date :: instant
  oh_is_buyer_requested_cancel :: bool
  oh_manual_edit_locked :: bool
  oh_manual_edited_at :: "instant option"
  oh_manual_edited_by :: "int option"
  oh_manual_edit_fields :: "string list"

record order_item =
  oi_order_id :: int
  oi_order_item_id :: string
  oi_commodity_sku :: sku
  oi_seller_sku :: "string option"
  oi_quantity_ordered :: int
  oi_quantity_shipped :: int
  oi_quantity_unfulfillable :: int
  oi_refund_num :: int

subsection \<open>Warehouses and stock\<close>

record warehouse =
  wh_id :: warehouse_id
  wh_name :: string
  wh_type :: int
  wh_country :: "country option"
  wh_replenish_site_raw :: "string option"

record inventory_snapshot_latest =
  inv_commodity_sku :: sku
  inv_warehouse_id :: warehouse_id
  inv_country :: "country option"
  inv_original_country :: "country option"
  inv_available :: int
  inv_reserved :: int

record third_party_warehouse =
  tpw_id :: int
  tpw_name :: string
  tpw_country :: "country option"

record third_party_inventory_current =
  tpi_id :: int
  tpi_warehouse_id :: int
  tpi_commodity_sku :: sku
  tpi_available :: int
  tpi_reserved :: int
  tpi_source_batch_id :: "int option"
  tpi_last_operation :: string

record in_transit_record =
  itr_saihu_out_record_id :: string
  itr_target_warehouse_id :: "warehouse_id option"
  itr_target_country :: "country option"
  itr_original_target_country :: "country option"
  itr_is_in_transit :: bool
  itr_last_seen_at :: instant
  itr_remark :: "string option"

record in_transit_item =
  iti_saihu_out_record_id :: string
  iti_commodity_sku :: sku
  iti_goods :: int

subsection \<open>SKU mapping, physical groups, configuration\<close>

record sku_mapping_component =
  smc_id :: int
  smc_rule_id :: int
  smc_group_no :: int
  smc_inventory_sku :: sku
  smc_quantity :: int

record sku_mapping_rule =
  smr_id :: int
  smr_commodity_sku :: sku
  smr_enabled :: bool
  smr_remark :: "string option"

record physical_item_group =
  pig_id :: int
  pig_name :: string
  pig_enabled :: bool
  pig_remark :: "string option"

record physical_item_sku_alias =
  pia_group_id :: int
  pia_sku :: sku

record sku_config =
  sc_commodity_sku :: sku
  sc_enabled :: bool
  sc_lead_time_days :: "int option"

record zipcode_rule =
  zr_id :: int
  zr_country :: country
  zr_prefix_length :: int
  zr_value_type :: string
  zr_operator :: string
  zr_compare_value :: string
  zr_warehouse_id :: warehouse_id
  zr_priority :: int

record global_config =
  gc_buffer_days :: int
  gc_target_days :: int
  gc_lead_time_days :: int
  gc_safety_stock_days :: int
  gc_restock_regions :: "string option list"
  gc_eu_countries :: "string option list"
  gc_sync_interval_minutes :: int
  gc_order_sync_interval_minutes :: int
  gc_scheduler_enabled :: bool
  gc_shop_sync_mode :: string
  gc_suggestion_generation_enabled :: bool
  gc_generation_toggle_updated_by :: "int option"
  gc_generation_toggle_updated_at :: "instant option"

text \<open>The tables one engine run reads.\<close>

record engine_db =
  t_order_header :: "order_header list"
  t_order_item :: "order_item list"
  t_warehouse :: "warehouse list"
  t_inventory_snapshot_latest :: "inventory_snapshot_latest list"
  t_third_party_warehouse :: "third_party_warehouse list"
  t_third_party_inventory_current :: "third_party_inventory_current list"
  t_in_transit_record :: "in_transit_record list"
  t_in_transit_item :: "in_transit_item list"
  t_sku_mapping_rule :: "sku_mapping_rule list"
  t_sku_mapping_component :: "sku_mapping_component list"
  t_physical_item_group :: "physical_item_group list"
  t_physical_item_sku_alias :: "physical_item_sku_alias list"
  t_sku_config :: "sku_config list"
  t_zipcode_rule :: "zipcode_rule list"
  t_global_config :: "global_config option"

definition LOCAL_WAREHOUSE_TYPES :: "int list" where
  "LOCAL_WAREHOUSE_TYPES = [0, 1]"

subsection \<open>Time in Beijing\<close>

text \<open>
  \<^verbatim>\<open>Asia/Shanghai\<close> is UTC+8 without daylight saving for every instant the system stores.
\<close>

definition day_micros :: int where
  "day_micros = 86400 * 1000000"

definition beijing_offset :: int where
  "beijing_offset = 28800 * 1000000"

definition beijing_date :: "instant \<Rightarrow> date" where
  "beijing_date t = (t + beijing_offset) div day_micros"

definition beijing_midnight :: "date \<Rightarrow> instant" where
  "beijing_midnight d = d * day_micros - beijing_offset"

text \<open>\<^verbatim>\<open>column IN (...)\<close> when a filter list is given, no restriction otherwise.\<close>

definition sql_in_opt :: "'a \<Rightarrow> 'a list option \<Rightarrow> bool" where
  "sql_in_opt x vs = (case vs of None \<Rightarrow> True | Some l \<Rightarrow> x \<in> set l)"

section \<open>Lemmas\<close>

lemma beijing_midnight_le_iff: "beijing_midnight d \<le> t \<longleftrightarrow> d \<le> beijing_date t"
proof -
  let ?u = "t + beijing_offset"
  have m: "?u = ?u div day_micros * day_micros + ?u mod day_micros" by simp
  have r: "0 \<le> ?u mod day_micros" "?u mod day_micros < day_micros" by (simp_all add: day_micros_def)
  have "d * day_micros \<le> ?u \<longleftrightarrow> d \<le> ?u div day_micros"
    using m r by (simp add: day_micros_def) linarith
  then show ?thesis by (auto simp: beijing_midnight_def beijing_date_def)
qed

lemma less_beijing_midnight_iff: "t < beijing_midnight d \<longleftrightarrow> beijing_date t < d"
  using beijing_midnight_le_iff [of d t] by linarith

end
