(* ===== verification/Step1_Velocity.thy ===== *)
theory Step1_Velocity
  imports Py_Float Country_Codes Db_Schema
begin

text \<open>
  \<^verbatim>\<open>engine/step1_velocity.py\<close>: the daily sales velocity of every SKU and country, a
  weighted moving average over the last 7, 14 and 30 days, from the orders in the database.
\<close>

type_synonym velocity_map = "(sku, (country, pyfloat) dict) dict"
type_synonym order_line = "sku \<times> country \<times> date \<times> int"

definition CANCELED_PACKAGE_STATUS :: string where
  "CANCELED_PACKAGE_STATUS = ''has_canceled''"

definition WINDOW_DAYS :: int where
  "WINDOW_DAYS = 30"

definition compute_velocity :: "int \<Rightarrow> int \<Rightarrow> int \<Rightarrow> pyfloat" where
  "compute_velocity day7_sum day14_sum day30_sum =
     fadd (fadd (fmul (int_truediv day7_sum 7) (fl (5/10)))
                (fmul (int_truediv day14_sum 14) (fl (3/10))))
          (fmul (int_truediv day30_sum 30) (fl (2/10)))"

definition is_in_window :: "date \<Rightarrow> date \<Rightarrow> int \<Rightarrow> bool" where
  "is_in_window order_date today days_ago =
     (let yesterday = today - 1; earliest = yesterday - (days_ago - 1)
      in earliest \<le> order_date \<and> order_date \<le> yesterday)"

text \<open>The first loop: \<open>daily\<close>, a dictionary from (SKU, country) to quantities per day.\<close>

definition daily_step ::
  "(sku \<times> country, (date, int) dict) dict \<Rightarrow> order_line \<Rightarrow> (sku \<times> country, (date, int) dict) dict" where
  "daily_step daily item =
     (case item of (s, c, d, ordered) \<Rightarrow>
        let eff = max ordered 0
        in if eff \<le> 0 then daily
           else dict_set (s, c) (dict_add d eff (dict_get_or daily (s, c) [])) daily)"

definition window_sum :: "(date, int) dict \<Rightarrow> date \<Rightarrow> int \<Rightarrow> int" where
  "window_sum date_map today days =
     sum_list (map snd (filter (\<lambda>(d, q). is_in_window d today days) date_map))"

definition velocity_step ::
  "date \<Rightarrow> velocity_map \<Rightarrow> (sku \<times> country) \<times> (date, int) dict \<Rightarrow> velocity_map" where
  "velocity_step today result entry =
     (case entry of ((s, c), date_map) \<Rightarrow>
        if \<not> reportable c then result
        else dict_set2 s c
               (compute_velocity (window_sum date_map today 7) (window_sum date_map today 14)
                  (window_sum date_map today 30)) result)"

definition aggregate_velocity_from_items :: "order_line list \<Rightarrow> date \<Rightarrow> velocity_map" where
  "aggregate_velocity_from_items items today =
     foldl (velocity_step today) [] (foldl daily_step [] items)"

text \<open>The query of Step 1: the join of items and headers with its \<^verbatim>\<open>WHERE\<close> clauses.\<close>

definition package_order_in_scope :: "date \<Rightarrow> order_header \<Rightarrow> bool" where
  "package_order_in_scope today h \<longleftrightarrow>
     oh_source h = ORDER_SOURCE_PACKAGE
     \<and> (case oh_package_status h of None \<Rightarrow> [] | Some st \<Rightarrow> st) \<noteq> CANCELED_PACKAGE_STATUS
     \<and> oh_country_code h \<noteq> ''ZZ''
     \<and> beijing_midnight (today - 1 - (WINDOW_DAYS - 1)) \<le> oh_purchase_date h
     \<and> oh_purchase_date h < beijing_midnight today"

definition load_velocity_inputs ::
  "engine_db \<Rightarrow> sku list option \<Rightarrow> date \<Rightarrow> country list option \<Rightarrow> order_line list" where
  "load_velocity_inputs db commodity_skus today allowed_countries =
     [(oi_commodity_sku i, oh_country_code h, beijing_date (oh_purchase_date h), oi_quantity_ordered i).
        i \<leftarrow> t_order_item db, h \<leftarrow> t_order_header db,
        oh_id h = oi_order_id i, package_order_in_scope today h,
        sql_in_opt (oi_commodity_sku i) commodity_skus,
        sql_in_opt (oh_country_code h) allowed_countries,
        reportable (oh_country_code h)]"

definition run_step1 ::
  "engine_db \<Rightarrow> sku list option \<Rightarrow> date \<Rightarrow> country list option \<Rightarrow> velocity_map" where
  "run_step1 db commodity_skus today allowed_countries =
     aggregate_velocity_from_items (load_velocity_inputs db commodity_skus today allowed_countries) today"

text \<open>The specification: the units of one SKU and country ordered in a window.\<close>

definition units_in_window :: "order_line list \<Rightarrow> date \<Rightarrow> sku \<Rightarrow> country \<Rightarrow> int \<Rightarrow> int" where
  "units_in_window items today s c days =
     sum_list (map (\<lambda>(s', c', d, q). max q 0)
       (filter (\<lambda>(s', c', d, q). s' = s \<and> c' = c \<and> is_in_window d today days) items))"

section \<open>Lemmas\<close>

subsection \<open>The weighted average\<close>

lemma fl_half: "fl (5/10) = 1/2"
  using fl_representable [of 1 "- 1"] by (simp add: power_int_minus)

lemma compute_velocity_nonneg:
  "0 \<le> d7 \<Longrightarrow> 0 \<le> d14 \<Longrightarrow> 0 \<le> d30 \<Longrightarrow> 0 \<le> compute_velocity d7 d14 d30"
  unfolding compute_velocity_def fadd_def fmul_def int_truediv_def
  by (intro fl_nonneg add_nonneg_nonneg mult_nonneg_nonneg) auto

lemma compute_velocity_mono:
  "d7 \<le> e7 \<Longrightarrow> d14 \<le> e14 \<Longrightarrow> d30 \<le> e30 \<Longrightarrow> compute_velocity d7 d14 d30 \<le> compute_velocity e7 e14 e30"
  unfolding compute_velocity_def fadd_def fmul_def int_truediv_def
  by (intro fl_mono add_mono mult_right_mono fl_nonneg) (auto intro: fl_mono)

lemma compute_velocity_zero [simp]: "compute_velocity 0 0 0 = 0"
  by (simp add: compute_velocity_def fadd_def fmul_def int_truediv_def)

lemma weighted_term_within:
  assumes "0 \<le> d" "0 < k" "k \<le> 30" "1/5 \<le> c" "c \<le> 1"
  shows "rel_within 3 (of_int d / of_int k * c) (fmul (int_truediv d k) (fl c))"
proof -
  let ?x = "of_int d / of_int k :: rat"
  have big: "?x = 0 \<or> 1/30 \<le> ?x"
  proof (cases "d = 0")
    case False
    with assms have "of_int k * 1 \<le> (30::rat) * of_int d" by (intro mult_mono) auto
    then show ?thesis using assms by (simp add: divide_le_eq le_divide_eq)
  qed simp
  have "rel_within 1 ?x (int_truediv d k)"
    unfolding int_truediv_def using big min_normal_small fp.rel_within_rnd [OF rel_within_refl, of ?x] by auto
  moreover have "rel_within 1 c (fl c)"
    using fp.rel_within_rnd [OF rel_within_refl, of c] min_normal_small assms(4) by auto
  ultimately have w: "rel_within 2 (?x * c) (int_truediv d k * fl c)"
    using rel_within_mult [of 1 ?x _ 1 c] assms by (simp add: numeral_2_eq_2)
  have "?x * c = 0 \<or> 1/150 \<le> ?x * c"
  proof (cases "?x = 0")
    case False
    then have "1/30 * (1/5) \<le> ?x * c" using big assms by (intro mult_mono) auto
    then show ?thesis by simp
  qed auto
  then have "?x * c = 0 \<or> 2 ^ 2 * min_normal \<le> ?x * c" using min_normal_small by auto
  from fp.rel_within_rnd [OF w this] show ?thesis by (simp add: fmul_def)
qed

text \<open>The exact value of the formula, without any rounding.\<close>

definition exact_velocity :: "int \<Rightarrow> int \<Rightarrow> int \<Rightarrow> rat" where
  "exact_velocity d7 d14 d30 = of_int d7 / 7 * (5/10) + of_int d14 / 14 * (3/10) + of_int d30 / 30 * (2/10)"

lemma compute_velocity_within:
  assumes "0 \<le> d7" "0 \<le> d14" "0 \<le> d30"
  shows "rel_within 5 (exact_velocity d7 d14 d30) (compute_velocity d7 d14 d30)"
proof -
  let ?a = "of_int d7 / 7 * (5/10) :: rat" and ?b = "of_int d14 / 14 * (3/10) :: rat"
    and ?c = "of_int d30 / 30 * (2/10) :: rat"
  have nn: "0 \<le> ?a" "0 \<le> ?b" "0 \<le> ?c" using assms by auto
  have grid: "x = 0 \<or> 2 ^ k * min_normal \<le> x" if "x = of_int n / 2100" "0 \<le> n" "k \<le> 8" for x :: rat and n k
  proof (cases "n = 0")
    case False
    have "2 ^ k * min_normal \<le> 2 ^ 8 * min_normal"
      using that(3) min_normal_pos by (intro mult_right_mono power_increasing) auto
    moreover have "1/2100 \<le> x" using that False by simp
    moreover have "2 ^ 8 * min_normal \<le> 1/2100" using min_normal_small by simp
    ultimately show ?thesis by linarith
  qed (use that in simp)
  have "rel_within 3 ?a (fmul (int_truediv d7 7) (fl (5/10)))"
    "rel_within 3 ?b (fmul (int_truediv d14 14) (fl (3/10)))"
    using weighted_term_within [of d7 7 "5/10"] weighted_term_within [of d14 14 "3/10"] assms by simp_all
  then have ab: "rel_within 3 (?a + ?b) (fmul (int_truediv d7 7) (fl (5/10)) + fmul (int_truediv d14 14) (fl (3/10)))"
    by (rule rel_within_add)
  have "?a + ?b = of_int (150 * d7 + 45 * d14) / 2100" by (simp add: field_simps)
  then have "?a + ?b = 0 \<or> 2 ^ 3 * min_normal \<le> ?a + ?b" by (rule grid) (use assms in simp_all)
  from fp.rel_within_rnd [OF ab this]
  have ab': "rel_within 4 (?a + ?b) (fadd (fmul (int_truediv d7 7) (fl (5/10))) (fmul (int_truediv d14 14) (fl (3/10))))"
    by (simp add: fadd_def)
  have "rel_within 4 ?c (fmul (int_truediv d30 30) (fl (2/10)))"
    using weighted_term_within [of d30 30 "2/10"] assms(3) nn(3) rel_within_Suc [of 3] by simp
  from rel_within_add [OF ab' this] have abc: "rel_within 4 (exact_velocity d7 d14 d30) (fadd (fmul (int_truediv d7 7) (fl (5/10)))
     (fmul (int_truediv d14 14) (fl (3/10))) + fmul (int_truediv d30 30) (fl (2/10)))"
    by (simp add: exact_velocity_def)
  have "exact_velocity d7 d14 d30 = of_int (150 * d7 + 45 * d14 + 14 * d30) / 2100"
    by (simp add: exact_velocity_def field_simps)
  then have "exact_velocity d7 d14 d30 = 0 \<or> 2 ^ 4 * min_normal \<le> exact_velocity d7 d14 d30"
    by (rule grid) (use assms in simp_all)
  from fp.rel_within_rnd [OF abc this] show ?thesis by (simp add: compute_velocity_def fadd_def)
qed

subsection \<open>The aggregation loop\<close>

lemma daily_step_cases:
  "daily_step daily (s, c, d, q) =
     (if q \<le> 0 then daily else dict_set (s, c) (dict_add d q (dict_get_or daily (s, c) [])) daily)"
  by (simp add: daily_step_def Let_def max_def)

lemma daily_filtered_sum:
  "sum_list (map snd (filter (\<lambda>(d, q). P d) (dict_get_or (foldl daily_step daily items) (s, c) []))) =
   sum_list (map snd (filter (\<lambda>(d, q). P d) (dict_get_or daily (s, c) []))) +
   sum_list (map (\<lambda>(s', c', d, q). max q 0) (filter (\<lambda>(s', c', d, q). s' = s \<and> c' = c \<and> P d) items))"
proof (induction items arbitrary: daily)
  case (Cons item items)
  obtain s' c' d q where "item = (s', c', d, q)" by (cases item) auto
  then show ?case
    by (simp add: Cons.IH daily_step_cases dict_get_or_set sum_filtered_dict_add max_def)
qed simp

lemma daily_window_sum:
  "window_sum (dict_get_or (foldl daily_step [] items) (s, c) []) today n = units_in_window items today s c n"
  using daily_filtered_sum [of "\<lambda>d. is_in_window d today n" "[]" items s c]
  by (simp add: window_sum_def units_in_window_def)

lemma daily_keys:
  "fst ` set (foldl daily_step daily items) = fst ` set daily \<union> {(s, c). \<exists>d q. (s, c, d, q) \<in> set items \<and> 0 < q}"
proof (induction items arbitrary: daily)
  case (Cons item items)
  obtain s c d q where "item = (s, c, d, q)" by (cases item) auto
  then show ?case by (cases "0 < q") (auto simp: Cons.IH daily_step_cases)
qed simp

lemma daily_wf: "wf_dict daily \<Longrightarrow> wf_dict (foldl daily_step daily items)"
proof (induction items arbitrary: daily)
  case (Cons item items)
  obtain s c d q where "item = (s, c, d, q)" by (cases item) auto
  then show ?case using Cons by (simp add: daily_step_cases)
qed simp

lemma velocity_steps_get:
  "wf_dict entries \<Longrightarrow>
   dict_get2 (foldl (velocity_step today) result entries) s c =
     (case dict_get entries (s, c) of
        Some dm \<Rightarrow> if reportable c
          then Some (compute_velocity (window_sum dm today 7) (window_sum dm today 14) (window_sum dm today 30))
          else dict_get2 result s c
      | None \<Rightarrow> dict_get2 result s c)"
proof (induction entries arbitrary: result)
  case (Cons e entries)
  obtain s' c' dm where e: "e = ((s', c'), dm)" by (cases e) auto
  have "dict_get entries (s', c') = None" using Cons.prems e by (auto simp: dict_get_None_iff)
  then show ?case using Cons e
    by (auto simp: velocity_step_def dict_get2_set2 dict_get_Cons split: option.splits)
qed simp

text \<open>What the aggregation returns for one SKU and country.\<close>

lemma aggregate_velocity_get:
  "dict_get2 (aggregate_velocity_from_items items today) s c =
     (if reportable c \<and> (\<exists>d q. (s, c, d, q) \<in> set items \<and> 0 < q)
      then Some (compute_velocity (units_in_window items today s c 7) (units_in_window items today s c 14)
                   (units_in_window items today s c 30))
      else None)"
proof -
  let ?daily = "foldl daily_step [] items"
  have wf: "wf_dict ?daily" by (simp add: daily_wf)
  have k: "dict_get ?daily (s, c) = None \<longleftrightarrow> \<not> (\<exists>d q. (s, c, d, q) \<in> set items \<and> 0 < q)"
    by (simp add: dict_get_None_iff daily_keys)
  show ?thesis
  proof (cases "dict_get ?daily (s, c)")
    case None
    then show ?thesis using k velocity_steps_get [OF wf, of today "[]" s c]
      by (auto simp: aggregate_velocity_from_items_def)
  next
    case (Some dm)
    then have "dict_get_or ?daily (s, c) [] = dm" by (simp add: dict_get_or_def)
    with daily_window_sum [of items s c today] have "window_sum dm today n = units_in_window items today s c n" for n
      by metis
    then show ?thesis using Some k velocity_steps_get [OF wf, of today "[]" s c]
      by (auto simp: aggregate_velocity_from_items_def)
  qed
qed

lemma units_in_window_nonneg: "0 \<le> units_in_window items today s c n"
  unfolding units_in_window_def by (intro sum_list_nonneg) auto

subsection \<open>The query\<close>

lemma load_velocity_inputs_in_window:
  assumes "(s, c, d, q) \<in> set (load_velocity_inputs db skus today allowed)"
  shows "is_in_window d today WINDOW_DAYS \<and> reportable c"
  using assms
  by (auto simp: load_velocity_inputs_def package_order_in_scope_def is_in_window_def
      beijing_midnight_le_iff less_beijing_midnight_iff)

lemma units_in_window_pos:
  assumes "(s, c, d, q) \<in> set items" "0 < q" "is_in_window d today n"
  shows "0 < units_in_window items today s c n"
proof -
  let ?xs = "map (\<lambda>(s', c', d, q). max q 0)
     (filter (\<lambda>(s', c', d, q). s' = s \<and> c' = c \<and> is_in_window d today n) items)"
  have "q \<in> set ?xs" using assms by (force simp: max_def)
  moreover have "\<forall>x \<in> set ?xs. 0 \<le> x" by auto
  ultimately have "q \<le> sum_list ?xs" using member_le_sum_list by fastforce
  then show ?thesis using assms(2) by (simp add: units_in_window_def)
qed

lemma compute_velocity_pos_iff:
  assumes "0 \<le> d7" "0 \<le> d14" "0 \<le> d30"
  shows "0 < compute_velocity d7 d14 d30 \<longleftrightarrow> 0 < d7 \<or> 0 < d14 \<or> 0 < d30"
proof
  assume "0 < compute_velocity d7 d14 d30"
  then show "0 < d7 \<or> 0 < d14 \<or> 0 < d30"
    using assms by (metis compute_velocity_zero less_irrefl order_le_less)
next
  assume "0 < d7 \<or> 0 < d14 \<or> 0 < d30"
  then have "0 < exact_velocity d7 d14 d30"
    using assms by (auto simp: exact_velocity_def add_pos_nonneg add_nonneg_pos)
  moreover have "roundoff < 1" using roundoff_le_half by simp
  ultimately have "0 < exact_velocity d7 d14 d30 * (1 - roundoff) ^ 5" by simp
  then show "0 < compute_velocity d7 d14 d30"
    using compute_velocity_within [OF assms] by (simp add: rel_within_def)
qed

section \<open>Properties\<close>

text \<open>
  C36: the weighted average computed in floating point is accurate: it differs from the exact
  rational formula by at most five roundings, it is monotone in every window, and it is
  positive exactly when some window has a sale.
\<close>

theorem compute_velocity_accurate:
  assumes "0 \<le> d7" "0 \<le> d14" "0 \<le> d30" "d7 \<le> e7" "d14 \<le> e14" "d30 \<le> e30"
  shows "rel_within 5 (exact_velocity d7 d14 d30) (compute_velocity d7 d14 d30)
       \<and> (0 < compute_velocity d7 d14 d30 \<longleftrightarrow> 0 < d7 \<or> 0 < d14 \<or> 0 < d30)
       \<and> compute_velocity d7 d14 d30 \<le> compute_velocity e7 e14 e30"
  using compute_velocity_within [OF assms(1-3)] compute_velocity_pos_iff [OF assms(1-3)]
    compute_velocity_mono [OF assms(4-6)] by blast

theorem compute_velocity_accurate_witness:
  "rel_within 5 (exact_velocity 7 14 30) (compute_velocity 7 14 30) \<and> 0 < compute_velocity 7 14 30
   \<and> exact_velocity 7 14 30 = 1 \<and> compute_velocity 7 14 30 \<le> compute_velocity 8 20 30"
  using compute_velocity_accurate [of 7 14 30 8 20 30] by (simp add: exact_velocity_def)


text \<open>
  Every velocity that Step 1 hands to the later steps is strictly positive and belongs
  to a reportable country, a requested SKU and an allowed country, so the divisions by
  velocity in Step 2 never divide by zero.
\<close>

theorem step1_velocity_positive:
  assumes "dict_get2 (run_step1 db skus today allowed) s c = Some v"
  shows "0 < v \<and> reportable c \<and> sql_in_opt s skus \<and> sql_in_opt c allowed"
proof -
  let ?items = "load_velocity_inputs db skus today allowed"
  obtain d q where i: "(s, c, d, q) \<in> set ?items" "0 < q" and r: "reportable c"
    and v: "v = compute_velocity (units_in_window ?items today s c 7) (units_in_window ?items today s c 14)
              (units_in_window ?items today s c 30)"
    using assms by (auto simp: run_step1_def aggregate_velocity_get split: if_splits)
  have "is_in_window d today 30"
    using load_velocity_inputs_in_window [OF i(1)] by (simp add: WINDOW_DAYS_def)
  then have "0 < units_in_window ?items today s c 30" using units_in_window_pos i by blast
  then have "0 < v" unfolding v by (simp add: compute_velocity_pos_iff units_in_window_nonneg)
  then show ?thesis using r i(1) by (auto simp: load_velocity_inputs_def split: if_splits)
qed

text \<open>A concrete database with one order line, used by the witnesses.\<close>

definition demo_header :: order_header where
  "demo_header = \<lparr>oh_id = 1, oh_shop_id = ''s'', oh_amazon_order_id = ''a'', oh_source = ORDER_SOURCE_PACKAGE,
     oh_order_platform = ORDER_SOURCE_AMAZON, oh_package_sn = ''p'', oh_package_status = None,
     oh_postal_code = Some ''90210'', oh_marketplace_id = ''US'', oh_country_code = ''US'',
     oh_original_country_code = None, oh_order_status = ''Shipped'',
     oh_purchase_date = beijing_midnight 99, oh_shop_name = None, oh_last_update_date = 0,
     oh_is_buyer_requested_cancel = False, oh_manual_edit_locked = False, oh_manual_edited_at = None,
     oh_manual_edited_by = None, oh_manual_edit_fields = []\<rparr>"

definition demo_item :: order_item where
  "demo_item = \<lparr>oi_order_id = 1, oi_order_item_id = ''1'', oi_commodity_sku = ''A'', oi_seller_sku = None,
     oi_quantity_ordered = 30, oi_quantity_shipped = 0, oi_quantity_unfulfillable = 0, oi_refund_num = 0\<rparr>"

definition demo_db :: engine_db where
  "demo_db = \<lparr>t_order_header = [demo_header], t_order_item = [demo_item], t_warehouse = [],
     t_inventory_snapshot_latest = [], t_third_party_warehouse = [], t_third_party_inventory_current = [],
     t_in_transit_record = [], t_in_transit_item = [], t_sku_mapping_rule = [], t_sku_mapping_component = [],
     t_physical_item_group = [], t_physical_item_sku_alias = [], t_sku_config = [], t_zipcode_rule = [],
     t_global_config = None\<rparr>"

theorem step1_velocity_positive_witness:
  "load_velocity_inputs demo_db None 100 None = [(''A'', ''US'', 99, 30)]
   \<and> dict_get2 (run_step1 demo_db None 100 None) ''A'' ''US'' = Some (compute_velocity 30 30 30)
   \<and> 0 < compute_velocity 30 30 30"
proof -
  have l: "load_velocity_inputs demo_db None 100 None = [(''A'', ''US'', 99, 30)]" by code_simp
  have r: "reportable ''US''" by code_simp
  have w: "units_in_window [(''A'', ''US'', 99, 30)] 100 ''A'' ''US'' n = 30" if "0 < n" for n
    using that by (simp add: units_in_window_def is_in_window_def)
  have v: "dict_get2 (run_step1 demo_db None 100 None) ''A'' ''US'' = Some (compute_velocity 30 30 30)"
    by (simp add: run_step1_def aggregate_velocity_get l r w)
  show ?thesis using l v step1_velocity_positive [OF v] by simp
qed

end
