(* ===== verification/Apportionment.thy ===== *)
theory Apportionment
  imports Complex_Main Restock_Prelude
begin

text \<open>
  The contract of an integer apportionment, which three routines of the engine provide and
  two clients rely on: splitting a total over recipients so that nothing is lost or
  invented. The facts shared by the largest-remainder implementations come first; the
  interface \<open>apportionment\<close> and what follows from it for any implementation come second.
\<close>

section \<open>Largest remainders\<close>

text \<open>Adding one to each of some keys of a dictionary.\<close>

lemma bump_total:
  "sum_list (map snd (foldl (\<lambda>d k. dict_add k (1::int) d) d ks)) = sum_list (map snd d) + int (length ks)"
  using foldl_dict_add_total [of "\<lambda>k. k" "\<lambda>_. 1::int" d ks] by (simp add: sum_list_triv)

lemma bump_keys:
  "set ks \<subseteq> fst ` set d \<Longrightarrow> fst ` set (foldl (\<lambda>d k. dict_add k (1::int) d) d ks) = fst ` set d"
  using foldl_dict_add_keys [of "\<lambda>k. k" "\<lambda>_. 1::int" d ks] by auto

lemma bump_wf: "wf_dict d \<Longrightarrow> wf_dict (foldl (\<lambda>d k. dict_add k (1::int) d) d ks)"
  using foldl_dict_add_wf [of d "\<lambda>k. k" "\<lambda>_. 1::int" ks] by simp

lemma bump_nonneg:
  "\<forall>v \<in> snd ` set d. 0 \<le> v \<Longrightarrow> \<forall>v \<in> snd ` set (foldl (\<lambda>d k. dict_add k (1::int) d) d ks). 0 \<le> v"
  by (rule nonneg_foldl_dict_add [where val = "\<lambda>_. 1" and key = "\<lambda>k. k"]) auto

lemma bump_get:
  assumes "distinct ks"
  shows "dict_get_or (foldl (\<lambda>d k. dict_add k (1::int) d) d ks) k 0 =
     dict_get_or d k 0 + (if k \<in> set ks then 1 else 0)"
proof -
  have "length (filter (\<lambda>r. r = k) ks) = (if k \<in> set ks then 1 else 0)"
    using assms by (induction ks) (auto simp: filter_empty_conv)
  then show ?thesis
    using foldl_dict_add_get [of "\<lambda>k. k" "\<lambda>_. 1::int" d ks k] by (simp add: sum_list_triv)
qed

text \<open>The floors of shares that sum to an integer leave between 0 and n units over.\<close>

lemma floor_sum_bounds:
  fixes xs :: "rat list"
  shows "of_int (sum_list (map floor xs)) \<le> sum_list xs \<and> sum_list xs \<le> of_int (sum_list (map floor xs)) + of_nat (length xs)"
proof (induction xs)
  case (Cons x xs)
  have "of_int \<lfloor>x\<rfloor> \<le> x" "x \<le> of_int \<lfloor>x\<rfloor> + 1" by linarith+
  with Cons show ?case unfolding list.map sum_list.Cons list.size of_int_add of_nat_add by linarith
qed simp

text \<open>Shares that total within less than one unit of \<open>t\<close>: the leftover is in \<open>0..n\<close>.\<close>

lemma leftover_bounds:
  fixes xs :: "rat list"
  assumes "\<bar>sum_list xs - of_int t\<bar> < 1"
  shows "0 \<le> t - sum_list (map floor xs) \<and> t - sum_list (map floor xs) \<le> int (length xs)"
proof -
  let ?F = "sum_list (map floor xs)"
  note b = floor_sum_bounds [of xs]
  have "of_int ?F < (of_int (t + 1) :: rat)" using b assms by (simp add: abs_less_iff)
  then have "?F < t + 1" by (simp only: of_int_less_iff)
  moreover have "of_int t < (of_int (?F + int (length xs) + 1) :: rat)" using b assms by (simp add: abs_less_iff)
  then have "t < ?F + int (length xs) + 1" by (simp only: of_int_less_iff)
  ultimately show ?thesis by linarith
qed

section \<open>The interface\<close>

locale apportionment =
  fixes alloc :: "int \<Rightarrow> 'r \<Rightarrow> ('k, int) dict"
    and recipients :: "'r \<Rightarrow> 'k list"
    and admissible :: "int \<Rightarrow> 'r \<Rightarrow> bool"
  assumes alloc_total: "admissible t r \<Longrightarrow> sum_list (map snd (alloc t r)) = t"
    and alloc_keys: "admissible t r \<Longrightarrow> fst ` set (alloc t r) \<subseteq> set (recipients r)"
    and alloc_wf: "admissible t r \<Longrightarrow> wf_dict (alloc t r)"
    and alloc_nonneg: "admissible t r \<Longrightarrow> \<forall>v \<in> snd ` set (alloc t r). 0 \<le> v"
begin

lemma share_nonneg: "admissible t r \<Longrightarrow> 0 \<le> dict_get_or (alloc t r) k 0"
  using dict_get_or_value [of "alloc t r" k 0] alloc_nonneg [of t r] by (metis insertE order_refl)

text \<open>The shares of the recipients add up to the total.\<close>

lemma shares_total:
  assumes "admissible t r"
  shows "sum_list (map (\<lambda>k. dict_get_or (alloc t r) k 0) (dedup (recipients r))) = t"
  using sum_list_get_or_keys [OF alloc_wf [OF assms] distinct_dedup] alloc_keys [OF assms]
    alloc_total [OF assms] by simp

text \<open>No recipient gets more than the total, and two recipients never more together.\<close>

lemma share_le_total:
  assumes "admissible t r"
  shows "dict_get_or (alloc t r) k 0 \<le> t"
proof (cases "k \<in> set (recipients r)")
  case True
  let ?f = "\<lambda>k. dict_get_or (alloc t r) k 0"
  have "?f k \<le> sum ?f (set (recipients r))"
    using True share_nonneg [OF assms] by (intro member_le_sum) auto
  also have "\<dots> = t"
    using shares_total [OF assms] sum_list_distinct_conv_sum_set [of "dedup (recipients r)" ?f] by simp
  finally show ?thesis .
next
  case False
  then have "dict_get (alloc t r) k = None" using alloc_keys [OF assms] by (auto simp: dict_get_None_iff)
  moreover have "0 \<le> t"
    using shares_total [OF assms] sum_list_nonneg [of "map (\<lambda>k. dict_get_or (alloc t r) k 0) (dedup (recipients r))"]
      share_nonneg [OF assms] by auto
  ultimately show ?thesis by (simp add: dict_get_or_def)
qed

text \<open>Adding an allocation on top of a dictionary adds its total.\<close>

lemma merge_total:
  assumes "admissible t r"
  shows "sum_list (map snd (foldl (\<lambda>d kv. dict_add (fst kv) (snd kv) d) d0 (alloc t r))) =
     sum_list (map snd d0) + t"
  using foldl_dict_add_total [of fst snd d0 "alloc t r"] alloc_total [OF assms] by simp

end

end
