(* ===== verification/Physical_Item.thy ===== *)
theory Physical_Item
  imports Db_Schema
begin

text \<open>
  \<^verbatim>\<open>services/physical_item.py\<close>: SKUs that name the same physical item share a group, and
  the engine resolves an inventory SKU to the key of its enabled group.
\<close>

definition normalize_sku :: "string \<Rightarrow> sku res" where
  "normalize_sku value =
     (let sku = py_strip value in if sku = [] then raise ValueError else return sku)"

fun normalize_sku_loop :: "sku list \<Rightarrow> sku list \<Rightarrow> string list \<Rightarrow> sku list res" where
  "normalize_sku_loop seen result [] = return result"
| "normalize_sku_loop seen result (value # values) =
     bind_res (normalize_sku value)
       (\<lambda>sku. if sku \<in> set seen then normalize_sku_loop seen result values
              else normalize_sku_loop (sku # seen) (result @ [sku]) values)"

definition normalize_sku_list :: "string list \<Rightarrow> sku list res" where
  "normalize_sku_list values = normalize_sku_loop [] [] values"

record physical_sku_resolver =
  sku_to_group_key :: "(sku, string) dict"
  members_by_group_key :: "(string, sku list) dict"

definition resolve_inventory_sku :: "physical_sku_resolver \<Rightarrow> sku \<Rightarrow> string" where
  "resolve_inventory_sku r sku = dict_get_or (sku_to_group_key r) sku sku"

definition expand_inventory_skus :: "physical_sku_resolver \<Rightarrow> sku list \<Rightarrow> sku list" where
  "expand_inventory_skus r skus =
     sorted_set (concat (map (\<lambda>sku.
       case dict_get (members_by_group_key r) (resolve_inventory_sku r sku) of
         None \<Rightarrow> [sku]
       | Some members \<Rightarrow> if members = [] then [sku] else members) skus))"

definition members_for_group_key :: "physical_sku_resolver \<Rightarrow> string \<Rightarrow> sku list" where
  "members_for_group_key r group_key = dict_get_or (members_by_group_key r) group_key [group_key]"

definition group_key_of :: "int \<Rightarrow> string" where
  "group_key_of group_id = ''physical-group:'' @ int_to_string group_id"

text \<open>
  The resolver's query; the column types exclude the rows its \<^verbatim>\<open>isinstance\<close> guard skips.
\<close>

definition alias_rows :: "engine_db \<Rightarrow> (sku \<times> int) list" where
  "alias_rows db =
     sort_key (\<lambda>(sku, gid). (gid, sku))
       [(pia_sku a, pig_id g). a \<leftarrow> t_physical_item_sku_alias db, g \<leftarrow> t_physical_item_group db,
          pig_id g = pia_group_id a, pig_enabled g]"

definition load_physical_sku_resolver :: "engine_db \<Rightarrow> physical_sku_resolver" where
  "load_physical_sku_resolver db =
     \<lparr>sku_to_group_key = foldl (\<lambda>d (sku, gid). dict_set sku (group_key_of gid) d) [] (alias_rows db),
      members_by_group_key =
        map (\<lambda>(k, members). (k, sorted_set members))
          (foldl (\<lambda>d (sku, gid). dict_set (group_key_of gid) (dict_get_or d (group_key_of gid) [] @ [sku]) d) []
             (alias_rows db))\<rparr>"

definition resolve_physical_skus :: "engine_db \<Rightarrow> sku list \<Rightarrow> (sku, string) dict" where
  "resolve_physical_skus db skus =
     foldl (\<lambda>d sku. dict_set sku (resolve_inventory_sku (load_physical_sku_resolver db) sku) d) [] skus"

section \<open>Lemmas\<close>

lemma foldl_dict_set_last:
  "dict_get (foldl (\<lambda>d (k, v). dict_set k (f v) d) d0 kvs) k =
     (case find (\<lambda>kv. fst kv = k) (rev kvs) of None \<Rightarrow> dict_get d0 k | Some kv \<Rightarrow> Some (f (snd kv)))"
proof (induction kvs arbitrary: d0 rule: rev_induct)
  case (snoc kv kvs)
  then show ?case by (cases kv) (auto simp: dict_get_set)
qed simp

lemma foldl_group_get:
  "dict_get_or (foldl (\<lambda>d (v, k). dict_set (f k) (dict_get_or d (f k) [] @ [v]) d) d0 kvs) k' [] =
     dict_get_or d0 k' [] @ map fst (filter (\<lambda>(v, k). f k = k') kvs)"
proof (induction kvs arbitrary: d0)
  case (Cons kv kvs)
  then show ?case by (cases kv) (auto simp: dict_get_or_set)
qed simp

lemma dict_get_foldl_functional:
  assumes "\<And>k v v'. (k, v) \<in> set kvs \<Longrightarrow> (k, v') \<in> set kvs \<Longrightarrow> v = v'"
  shows "dict_get (foldl (\<lambda>d (k, v). dict_set k (f v) d) [] kvs) k = Some y \<longleftrightarrow> (\<exists>v. (k, v) \<in> set kvs \<and> y = f v)"
proof (cases "find (\<lambda>kv. fst kv = k) (rev kvs)")
  case None
  then have "\<forall>v. (k, v) \<notin> set kvs" by (auto simp: find_None_iff)
  then show ?thesis unfolding foldl_dict_set_last None by simp
next
  case (Some kv)
  then have "kv \<in> set kvs" "fst kv = k" unfolding find_Some_iff by (metis nth_mem set_rev)+
  then have "(k, snd kv) \<in> set kvs" by auto
  then show ?thesis unfolding foldl_dict_set_last Some using assms by auto
qed

lemma alias_rows_iff:
  "(sku, gid) \<in> set (alias_rows db) \<longleftrightarrow>
   (\<exists>a \<in> set (t_physical_item_sku_alias db). \<exists>g \<in> set (t_physical_item_group db).
      pia_sku a = sku \<and> pig_id g = gid \<and> pia_group_id a = gid \<and> pig_enabled g)"
  by (fastforce simp: alias_rows_def)

lemma alias_rows_functional:
  assumes "distinct (map pia_sku (t_physical_item_sku_alias db))"
    "(sku, g) \<in> set (alias_rows db)" "(sku, g') \<in> set (alias_rows db)"
  shows "g = g'"
  using assms by (auto simp: alias_rows_iff distinct_map inj_on_def)

lemma sku_to_group_key_iff:
  assumes "distinct (map pia_sku (t_physical_item_sku_alias db))"
  shows "dict_get (sku_to_group_key (load_physical_sku_resolver db)) sku = Some k \<longleftrightarrow>
     (\<exists>g. (sku, g) \<in> set (alias_rows db) \<and> k = group_key_of g)"
  unfolding load_physical_sku_resolver_def physical_sku_resolver.simps
  by (rule dict_get_foldl_functional) (rule alias_rows_functional [OF assms])

lemma members_iff:
  "sku \<in> set (dict_get_or (members_by_group_key (load_physical_sku_resolver db)) k []) \<longleftrightarrow>
     (\<exists>g. (sku, g) \<in> set (alias_rows db) \<and> k = group_key_of g)"
proof -
  let ?d = "foldl (\<lambda>d (sku, gid). dict_set (group_key_of gid) (dict_get_or d (group_key_of gid) [] @ [sku]) d) []
     (alias_rows db)"
  have "set (dict_get_or (members_by_group_key (load_physical_sku_resolver db)) k []) = set (dict_get_or ?d k [])"
    by (simp add: load_physical_sku_resolver_def dict_get_or_def dict_get_map_value [where f = "\<lambda>_. sorted_set"] split: option.split)
  also have "\<dots> = fst ` set (filter (\<lambda>(v, g). group_key_of g = k) (alias_rows db))"
    unfolding foldl_group_get by simp
  finally show ?thesis by force
qed

section \<open>Properties\<close>

text \<open>
  With the alias table's unique SKU, the two maps of the resolver describe one partition:
  a SKU is listed as a member under a key exactly when it resolves to that key, and
  expanding aliased SKUs yields exactly the SKUs that share a group with one of them.
\<close>

theorem resolver_partition:
  assumes "distinct (map pia_sku (t_physical_item_sku_alias db))"
  defines "r \<equiv> load_physical_sku_resolver db"
  shows "(sku \<in> set (dict_get_or (members_by_group_key r) k []) \<longleftrightarrow> dict_get (sku_to_group_key r) sku = Some k)
    \<and> ((\<forall>s \<in> set skus. dict_mem s (sku_to_group_key r)) \<longrightarrow>
        set (expand_inventory_skus r skus) =
        {m. \<exists>s \<in> set skus. dict_get (sku_to_group_key r) m = dict_get (sku_to_group_key r) s})"
proof -
  have mem: "s \<in> set (dict_get_or (members_by_group_key r) k []) \<longleftrightarrow> dict_get (sku_to_group_key r) s = Some k" for s k
    unfolding r_def sku_to_group_key_iff [OF assms(1)] members_iff ..
  have ex: "set (case dict_get (members_by_group_key r) (resolve_inventory_sku r s) of
        None \<Rightarrow> [s] | Some members \<Rightarrow> if members = [] then [s] else members) =
      {m. dict_get (sku_to_group_key r) m = dict_get (sku_to_group_key r) s}"
    if grouped: "dict_mem s (sku_to_group_key r)" for s
  proof -
    obtain k where k: "dict_get (sku_to_group_key r) s = Some k"
      using grouped unfolding dict_mem_iff_get by blast
    then have "s \<in> set (dict_get_or (members_by_group_key r) k [])" by (simp add: mem)
    then obtain ms where ms: "dict_get (members_by_group_key r) k = Some ms" "ms \<noteq> []"
      by (cases "dict_get (members_by_group_key r) k") (auto simp: dict_get_or_def dest: length_pos_if_in_set)
    then have "set ms = {m. dict_get (sku_to_group_key r) m = Some k}"
      using mem [of _ k] by (auto simp: dict_get_or_def)
    then show ?thesis using ms k by (simp add: resolve_inventory_sku_def dict_get_or_def)
  qed
  show ?thesis using mem ex by (auto simp: expand_inventory_skus_def)
qed

definition demo_alias_db :: "physical_item_group list \<Rightarrow> physical_item_sku_alias list \<Rightarrow> engine_db" where
  "demo_alias_db gs as =
     \<lparr>t_order_header = [], t_order_item = [], t_warehouse = [], t_inventory_snapshot_latest = [],
      t_third_party_warehouse = [], t_third_party_inventory_current = [], t_in_transit_record = [],
      t_in_transit_item = [], t_sku_mapping_rule = [], t_sku_mapping_component = [],
      t_physical_item_group = gs, t_physical_item_sku_alias = as, t_sku_config = [], t_zipcode_rule = [],
      t_global_config = None\<rparr>"

theorem resolver_partition_witness:
  "''BOX-B'' \<in> set (dict_get_or (members_by_group_key (load_physical_sku_resolver
      (demo_alias_db [\<lparr>pig_id = 7, pig_name = ''Box'', pig_enabled = True, pig_remark = None\<rparr>]
        [\<lparr>pia_group_id = 7, pia_sku = ''BOX-A''\<rparr>, \<lparr>pia_group_id = 7, pia_sku = ''BOX-B''\<rparr>])))
      ''physical-group:7'' [])"
proof -
  let ?db = "demo_alias_db [\<lparr>pig_id = 7, pig_name = ''Box'', pig_enabled = True, pig_remark = None\<rparr>]
        [\<lparr>pia_group_id = 7, pia_sku = ''BOX-A''\<rparr>, \<lparr>pia_group_id = 7, pia_sku = ''BOX-B''\<rparr>]"
  have "dict_get (sku_to_group_key (load_physical_sku_resolver ?db)) ''BOX-B'' = Some ''physical-group:7''"
    by code_simp
  then show ?thesis
    using resolver_partition [of ?db "''BOX-B''" "''physical-group:7''" "[]"] by (simp add: demo_alias_db_def)
qed

end
