(* ===== verification/Sku_Mapping.thy ===== *)
theory Sku_Mapping
  imports Apportionment Py_Float Country_Codes Physical_Item
begin

text \<open>
  \<^verbatim>\<open>engine/sku_mapping.py\<close>: commodities assembled from components. A rule gives, per
  commodity, groups of components; the component stock of a warehouse is split among the
  commodities that use it in proportion to their sales (floating-point weights), and each
  group yields what its scarcest component allows.

  Where the source iterates over a \<^verbatim>\<open>set\<close> of warehouse ids, whose order is unspecified,
  the model takes the order of first occurrence; the theorems are about the values stored
  under the keys, which do not depend on it.
\<close>

record mapping_component =
  mc_inventory_sku :: sku
  mc_quantity :: int

type_synonym mapping_group = "mapping_component list"
type_synonym mapping_rules = "(sku, mapping_group list) dict"
type_synonym velocity_map = "(sku, (country, pyfloat) dict) dict"

record warehouse_stock =
  ws_country :: "country option"
  ws_total :: int

definition type_filter_values :: "int option \<Rightarrow> int list option \<Rightarrow> int list" where
  "type_filter_values single_type type_set =
     dedup ((case single_type of None \<Rightarrow> [] | Some t \<Rightarrow> [t]) @ (case type_set of None \<Rightarrow> [] | Some ts \<Rightarrow> ts))"

text \<open>All components of the rules, each with the commodity that uses it.\<close>

definition rule_components :: "mapping_rules \<Rightarrow> (sku \<times> mapping_component) list" where
  "rule_components rules =
     [(commodity_sku, component). (commodity_sku, groups) \<leftarrow> rules, components \<leftarrow> groups, component \<leftarrow> components]"

definition mapping_component_consumers :: "mapping_rules \<Rightarrow> (sku, sku list) dict" where
  "mapping_component_consumers rules =
     map (\<lambda>(inventory_sku, commodity_skus). (inventory_sku, sorted_set commodity_skus))
       (foldl (\<lambda>consumers (commodity_sku, component).
                 dict_set (mc_inventory_sku component)
                   (dict_get_or consumers (mc_inventory_sku component) [] @ [commodity_sku]) consumers)
          [] (rule_components rules))"

definition country_weights_by_sku :: "velocity_map \<Rightarrow> (country, (sku, pyfloat) dict) dict" where
  "country_weights_by_sku velocity =
     foldl (\<lambda>d (commodity_sku, c, weight). dict_set2 c commodity_sku weight d) []
       [(commodity_sku, c, weight). (commodity_sku, country_map) \<leftarrow> velocity, (c, weight) \<leftarrow> country_map]"

definition local_weights_by_sku :: "velocity_map \<Rightarrow> (country, (sku, pyfloat) dict) dict" where
  "local_weights_by_sku velocity =
     [([], map (\<lambda>(commodity_sku, country_map). (commodity_sku, fsum (dict_values country_map))) velocity)]"

subsection \<open>Loading the rules\<close>

text \<open>
  The inner loop adds a component to its group: an entry with the same normalised SKU keeps
  its place and takes the larger quantity.
\<close>

fun merge_component :: "sku \<Rightarrow> int \<Rightarrow> mapping_group \<Rightarrow> mapping_group" where
  "merge_component sku quantity [] = [\<lparr>mc_inventory_sku = sku, mc_quantity = quantity\<rparr>]"
| "merge_component sku quantity (existing # rest) =
     (if mc_inventory_sku existing = sku
      then \<lparr>mc_inventory_sku = mc_inventory_sku existing, mc_quantity = max (mc_quantity existing) quantity\<rparr> # rest
      else existing # merge_component sku quantity rest)"

definition add_rule_component ::
  "(sku, string) dict \<Rightarrow> (int, mapping_group) dict \<Rightarrow> sku_mapping_component \<Rightarrow> (int, mapping_group) dict" where
  "add_rule_component sku_groups groups component =
     (let normalized_inventory_sku = dict_get_or sku_groups (smc_inventory_sku component) (smc_inventory_sku component)
      in dict_set (smc_group_no component)
           (merge_component normalized_inventory_sku (smc_quantity component)
              (dict_get_or groups (smc_group_no component) [])) groups)"

definition group_signature :: "mapping_group \<Rightarrow> (sku \<times> int) list" where
  "group_signature components = map (\<lambda>component. (mc_inventory_sku component, mc_quantity component)) components"

definition add_rule_group ::
  "sku \<Rightarrow> (int, mapping_group) dict \<Rightarrow> mapping_rules \<times> (sku \<times> int) list list \<Rightarrow> int \<Rightarrow>
   mapping_rules \<times> (sku \<times> int) list list" where
  "add_rule_group commodity_sku groups st group_no =
     (case st of (rules, existing_signatures) \<Rightarrow>
        let components = sort_key mc_inventory_sku (dict_get_or groups group_no []);
            signature = group_signature components
        in if signature \<in> set existing_signatures then (rules, existing_signatures)
           else (dict_set commodity_sku (dict_get_or rules commodity_sku [] @ [components]) rules,
                 signature # existing_signatures))"

definition rule_component_rows :: "engine_db \<Rightarrow> sku_mapping_rule \<Rightarrow> sku_mapping_component list" where
  "rule_component_rows db rule =
     sort_key (\<lambda>component. (smc_group_no component, smc_id component))
       (filter (\<lambda>component. smc_rule_id component = smr_id rule) (t_sku_mapping_component db))"

definition add_mapping_rule ::
  "engine_db \<Rightarrow> (sku, string) dict \<Rightarrow> mapping_rules \<Rightarrow> sku_mapping_rule \<Rightarrow> mapping_rules" where
  "add_mapping_rule db sku_groups rules row =
     (let groups = foldl (add_rule_component sku_groups) [] (rule_component_rows db row)
      in if groups = [] then rules
         else let existing_signatures = map group_signature (dict_get_or rules (smr_commodity_sku row) [])
              in fst (foldl (add_rule_group (smr_commodity_sku row) groups) (rules, existing_signatures)
                        (sort (dict_keys groups))))"

definition load_active_mapping_rules ::
  "engine_db \<Rightarrow> sku list option \<Rightarrow> (sku, string) dict option \<Rightarrow> mapping_rules" where
  "load_active_mapping_rules db commodity_skus groups =
     (let sku_groups = (case groups of None \<Rightarrow> [] | Some d \<Rightarrow> d);
          rows = sort_key smr_commodity_sku
            (filter (\<lambda>row. smr_enabled row \<and> sql_in_opt (smr_commodity_sku row) commodity_skus) (t_sku_mapping_rule db))
      in foldl (add_mapping_rule db sku_groups) [] rows)"

definition component_skus_for_rules :: "mapping_rules \<Rightarrow> sku list" where
  "component_skus_for_rules rules = sorted_set (map (\<lambda>(c, component). mc_inventory_sku component) (rule_components rules))"

subsection \<open>Allocating component stock\<close>

definition raw_shares :: "int \<Rightarrow> pyfloat \<Rightarrow> pyfloat list \<Rightarrow> pyfloat list" where
  "raw_shares total_qty weight_sum weights =
     map (\<lambda>weight. fdiv (fmul (float_of_int total_qty) weight) weight_sum) weights"

definition fractional_order :: "pyfloat list \<Rightarrow> int list \<Rightarrow> sku list \<Rightarrow> nat list" where
  "fractional_order shares allocated consumers =
     sort_key (\<lambda>idx. (- fsub (shares ! idx) (float_of_int (allocated ! idx)), consumers ! idx)) [0..<length consumers]"

definition bump_indices :: "int list \<Rightarrow> nat list \<Rightarrow> int list" where
  "bump_indices allocated idxs = foldl (\<lambda>xs idx. xs[idx := xs ! idx + 1]) allocated idxs"

definition consumer_weights :: "sku list \<Rightarrow> (sku, pyfloat) dict \<Rightarrow> pyfloat list" where
  "consumer_weights consumers weights =
     (let positive_weights = map (\<lambda>consumer. dict_get_or weights consumer 0) consumers
      in if list_ex (\<lambda>weight. weight \<le> 0) positive_weights
         then replicate (length consumers) 1 else positive_weights)"

definition allocate_integer_quantity :: "int \<Rightarrow> sku list \<Rightarrow> (sku, pyfloat) dict \<Rightarrow> (sku, int) dict" where
  "allocate_integer_quantity total_qty consumers weights =
     (if total_qty \<le> 0 \<or> consumers = [] then map (\<lambda>c. (c, 0)) (dedup consumers)
      else if length consumers = 1 then [(consumers ! 0, total_qty)]
      else
        let positive_weights = consumer_weights consumers weights;
            weight_sum = fsum positive_weights;
            (positive_weights, weight_sum) =
              (if weight_sum \<le> 0 then (replicate (length consumers) 1, float_of_int (int (length consumers)))
               else (positive_weights, weight_sum));
            shares = raw_shares total_qty weight_sum positive_weights;
            allocated = map floor shares;
            remainder = total_qty - sum_list allocated;
            allocated = (if remainder > 0
                         then bump_indices allocated (py_slice_to (fractional_order shares allocated consumers) remainder)
                         else allocated)
        in foldl (\<lambda>d (consumer, qty). dict_set consumer qty d) [] (zip consumers allocated))"

definition allocation_weights ::
  "(country, (sku, pyfloat) dict) dict \<Rightarrow> string option \<Rightarrow> warehouse_stock \<Rightarrow> sku list \<Rightarrow> (sku, pyfloat) dict" where
  "allocation_weights weights_by_country fixed_weight_country stock consumers =
     (let weight_country = (case fixed_weight_country of Some c \<Rightarrow> c
                            | None \<Rightarrow> (case ws_country stock of None \<Rightarrow> [] | Some c \<Rightarrow> c));
          country_weights = dict_get_or weights_by_country weight_country []
      in foldl (\<lambda>d commodity_sku. dict_set commodity_sku (dict_get_or country_weights commodity_sku 0) d) [] consumers)"

definition allocate_component ::
  "(sku, sku list) dict \<Rightarrow> (country, (sku, pyfloat) dict) dict \<Rightarrow> string option \<Rightarrow>
   (sku \<times> sku \<times> warehouse_id, warehouse_stock) dict \<Rightarrow> (sku \<times> warehouse_id) \<times> warehouse_stock \<Rightarrow>
   (sku \<times> sku \<times> warehouse_id, warehouse_stock) dict" where
  "allocate_component consumers_by_component weights_by_country fixed_weight_country allocations entry =
     (case entry of ((component_sku, warehouse_id), stock) \<Rightarrow>
        let consumers = dict_get_or consumers_by_component component_sku []
        in if consumers = [] then allocations
           else foldl (\<lambda>d (commodity_sku, quantity).
                         dict_set (commodity_sku, component_sku, warehouse_id)
                           \<lparr>ws_country = ws_country stock, ws_total = quantity\<rparr> d)
                  allocations
                  (allocate_integer_quantity (ws_total stock) consumers
                     (allocation_weights weights_by_country fixed_weight_country stock consumers)))"

definition build_component_allocation ::
  "mapping_rules \<Rightarrow> (sku \<times> warehouse_id, warehouse_stock) dict \<Rightarrow> (country, (sku, pyfloat) dict) dict \<Rightarrow>
   string option \<Rightarrow> (sku \<times> sku \<times> warehouse_id, warehouse_stock) dict" where
  "build_component_allocation rules component_stock weights_by_country fixed_weight_country =
     foldl (allocate_component (mapping_component_consumers rules) weights_by_country fixed_weight_country) [] component_stock"

subsection \<open>Loading the stock\<close>

definition add_warehouse_stock ::
  "'k \<Rightarrow> warehouse_stock \<Rightarrow> ('k, warehouse_stock) dict \<Rightarrow> ('k, warehouse_stock) dict" where
  "add_warehouse_stock key stock result =
     (case dict_get result key of
        None \<Rightarrow> dict_set key stock result
      | Some current \<Rightarrow>
          dict_set key \<lparr>ws_country = str_or (ws_country current) (ws_country stock),
                        ws_total = ws_total current + ws_total stock\<rparr> result)"

definition warehouse_type_ok :: "int list \<Rightarrow> int list \<Rightarrow> warehouse \<Rightarrow> bool" where
  "warehouse_type_ok included_types excluded_types w \<longleftrightarrow>
     (included_types = [] \<or> wh_type w \<in> set included_types) \<and>
     (excluded_types = [] \<or> wh_type w \<notin> set excluded_types)"

definition load_inventory_totals_by_warehouse ::
  "engine_db \<Rightarrow> sku list \<Rightarrow> int option \<Rightarrow> int list option \<Rightarrow> int option \<Rightarrow> int list option \<Rightarrow>
   (sku, string) dict option \<Rightarrow> (sku \<times> warehouse_id, warehouse_stock) dict" where
  "load_inventory_totals_by_warehouse db inventory_skus warehouse_type warehouse_types
       exclude_warehouse_type exclude_warehouse_types groups =
     (if inventory_skus = [] then []
      else
        let included_types = type_filter_values warehouse_type warehouse_types;
            excluded_types = type_filter_values exclude_warehouse_type exclude_warehouse_types;
            rows = group_sum (\<lambda>i. (inv_commodity_sku i, inv_warehouse_id i, inv_country i))
              (\<lambda>i. inv_available i + inv_reserved i)
              [i. i \<leftarrow> t_inventory_snapshot_latest db, w \<leftarrow> t_warehouse db,
                 wh_id w = inv_warehouse_id i, inv_commodity_sku i \<in> set inventory_skus,
                 warehouse_type_ok included_types excluded_types w];
            sku_groups = (case groups of None \<Rightarrow> [] | Some d \<Rightarrow> d)
        in foldl (\<lambda>result ((sku, warehouse_id, c), total).
                    add_warehouse_stock (dict_get_or sku_groups sku sku, warehouse_id)
                      \<lparr>ws_country = c, ws_total = total\<rparr> result) [] rows)"

definition load_in_transit_totals_by_warehouse ::
  "engine_db \<Rightarrow> sku list \<Rightarrow> int option \<Rightarrow> int list option \<Rightarrow> int option \<Rightarrow> int list option \<Rightarrow>
   (sku, string) dict option \<Rightarrow> (sku \<times> warehouse_id, warehouse_stock) dict" where
  "load_in_transit_totals_by_warehouse db inventory_skus warehouse_type warehouse_types
       exclude_warehouse_type exclude_warehouse_types groups =
     (if inventory_skus = [] then []
      else
        let included_types = type_filter_values warehouse_type warehouse_types;
            excluded_types = type_filter_values exclude_warehouse_type exclude_warehouse_types;
            rows = group_sum (\<lambda>(i, wid, c). (iti_commodity_sku i, wid, c)) (\<lambda>(i, wid, c). iti_goods i)
              [(i, wh_id w, itr_target_country r).
                 i \<leftarrow> t_in_transit_item db, r \<leftarrow> t_in_transit_record db, w \<leftarrow> t_warehouse db,
                 itr_saihu_out_record_id r = iti_saihu_out_record_id i,
                 itr_target_warehouse_id r = Some (wh_id w),
                 itr_is_in_transit r, itr_target_country r \<noteq> None,
                 iti_commodity_sku i \<in> set inventory_skus,
                 warehouse_type_ok included_types excluded_types w];
            sku_groups = (case groups of None \<Rightarrow> [] | Some d \<Rightarrow> d)
        in foldl (\<lambda>result ((sku, warehouse_id, c), total).
                    add_warehouse_stock (dict_get_or sku_groups sku sku, warehouse_id)
                      \<lparr>ws_country = c, ws_total = total\<rparr> result) [] rows)"

definition merge_warehouse_stock ::
  "(sku \<times> warehouse_id, warehouse_stock) dict list \<Rightarrow> (sku \<times> warehouse_id, warehouse_stock) dict" where
  "merge_warehouse_stock stock_maps =
     foldl (\<lambda>merged stock_map.
              foldl (\<lambda>merged (key, stock). add_warehouse_stock key stock merged) merged stock_map) [] stock_maps"

definition load_in_transit_totals_by_country ::
  "engine_db \<Rightarrow> sku list \<Rightarrow> (sku, string) dict option \<Rightarrow> (sku \<times> country, int) dict" where
  "load_in_transit_totals_by_country db inventory_skus groups =
     (if inventory_skus = [] then []
      else
        let rows = group_sum (\<lambda>(i, c). (iti_commodity_sku i, c)) (\<lambda>(i, c). iti_goods i)
              [(i, c). i \<leftarrow> t_in_transit_item db, r \<leftarrow> t_in_transit_record db,
                 itr_saihu_out_record_id r = iti_saihu_out_record_id i,
                 itr_is_in_transit r, itr_target_warehouse_id r = None,
                 iti_commodity_sku i \<in> set inventory_skus,
                 c \<leftarrow> (case itr_target_country r of None \<Rightarrow> [] | Some c \<Rightarrow> [c])];
            sku_groups = (case groups of None \<Rightarrow> [] | Some d \<Rightarrow> d)
        in foldl (\<lambda>result ((sku, c), total).
                    if \<not> reportable c then result
                    else dict_add (dict_get_or sku_groups sku sku, c) total result) [] rows)"

definition country_level_warehouse_id :: "country \<Rightarrow> warehouse_id" where
  "country_level_warehouse_id c = ''__country_pool__:'' @ c"

text \<open>In the pooled stock the country of an entry is always the one its key was made from.\<close>

definition add_pooled_stock ::
  "sku \<Rightarrow> country \<Rightarrow> int \<Rightarrow> (sku \<times> warehouse_id, warehouse_stock) dict \<Rightarrow> (sku \<times> warehouse_id, warehouse_stock) dict" where
  "add_pooled_stock sku c total_qty result =
     (let key = (sku, country_level_warehouse_id c)
      in case dict_get result key of
           None \<Rightarrow> dict_set key \<lparr>ws_country = Some c, ws_total = total_qty\<rparr> result
         | Some current \<Rightarrow> dict_set key \<lparr>ws_country = Some c, ws_total = ws_total current + total_qty\<rparr> result)"

definition aggregate_component_stock_by_country ::
  "(sku \<times> warehouse_id, warehouse_stock) dict \<Rightarrow> (sku \<times> country, int) dict \<Rightarrow>
   (sku \<times> warehouse_id, warehouse_stock) dict" where
  "aggregate_component_stock_by_country warehouse_stock country_stock =
     (let pooled = foldl (\<lambda>result ((sku, wid), stock).
            case ws_country stock of
              None \<Rightarrow> result
            | Some c \<Rightarrow> if c = [] \<or> \<not> reportable c then result else add_pooled_stock sku c (ws_total stock) result)
          [] warehouse_stock
      in foldl (\<lambda>result ((sku, c), total).
            if \<not> reportable c then result else add_pooled_stock sku c total result) pooled country_stock)"

subsection \<open>Assembling\<close>

text \<open>
  The innermost loop, which both computations share: \<open>None\<close> for a group without components,
  0 as soon as a component has no allocation, and the least number of assemblies otherwise.
\<close>

fun buildable_loop ::
  "(sku \<times> sku \<times> warehouse_id, warehouse_stock) dict \<Rightarrow> sku \<Rightarrow> warehouse_id \<Rightarrow> int option \<Rightarrow>
   mapping_group \<Rightarrow> int option res" where
  "buildable_loop allocations commodity_sku warehouse_id buildable [] = return buildable"
| "buildable_loop allocations commodity_sku warehouse_id buildable (component # components) =
     (case dict_get allocations (commodity_sku, mc_inventory_sku component, warehouse_id) of
        None \<Rightarrow> return (Some 0)
      | Some allocated_stock \<Rightarrow>
          if mc_quantity component = 0 then raise ZeroDivisionError
          else let buildable_for_component = ws_total allocated_stock div mc_quantity component
               in buildable_loop allocations commodity_sku warehouse_id
                    (Some (case buildable of None \<Rightarrow> buildable_for_component
                           | Some b \<Rightarrow> min b buildable_for_component)) components)"

definition country_by_warehouse :: "(sku \<times> warehouse_id, warehouse_stock) dict \<Rightarrow> (warehouse_id, country) dict" where
  "country_by_warehouse component_stock =
     foldl (\<lambda>d ((component_sku, warehouse_id), stock).
              case ws_country stock of
                None \<Rightarrow> d
              | Some c \<Rightarrow> if c \<noteq> [] \<and> \<not> dict_mem warehouse_id d then dict_set warehouse_id c d else d)
       [] component_stock"

definition stock_warehouses :: "(sku \<times> warehouse_id, warehouse_stock) dict \<Rightarrow> warehouse_id list" where
  "stock_warehouses component_stock = dedup (map (\<lambda>((component_sku, warehouse_id), stock). warehouse_id) component_stock)"

text \<open>The body of the loop over the groups of a commodity in one warehouse.\<close>

definition add_country_buildable ::
  "(sku \<times> warehouse_id, warehouse_stock) dict \<Rightarrow> (sku \<times> sku \<times> warehouse_id, warehouse_stock) dict \<Rightarrow>
   (sku \<times> country, int) dict \<Rightarrow> sku \<times> warehouse_id \<times> mapping_group \<Rightarrow> (sku \<times> country, int) dict res" where
  "add_country_buildable component_stock allocations result step =
     (case step of (commodity_sku, warehouse_id, components) \<Rightarrow>
        case dict_get (country_by_warehouse component_stock) warehouse_id of
          None \<Rightarrow> return result
        | Some c \<Rightarrow>
            if c = [] \<or> \<not> reportable c then return result
            else if \<not> list_ex (\<lambda>component. dict_mem (mc_inventory_sku component, warehouse_id) component_stock) components
            then return result
            else bind_res (buildable_loop allocations commodity_sku warehouse_id None components)
              (\<lambda>buildable. case buildable of None \<Rightarrow> return result
                 | Some b \<Rightarrow> return (dict_add (commodity_sku, c) b result)))"

definition build_steps ::
  "mapping_rules \<Rightarrow> (sku \<times> warehouse_id, warehouse_stock) dict \<Rightarrow> (sku \<times> warehouse_id \<times> mapping_group) list" where
  "build_steps rules component_stock =
     [(commodity_sku, warehouse_id, components).
        (commodity_sku, groups) \<leftarrow> rules, warehouse_id \<leftarrow> stock_warehouses component_stock, components \<leftarrow> groups]"

definition compute_mapped_stock_by_country ::
  "mapping_rules \<Rightarrow> (sku \<times> warehouse_id, warehouse_stock) dict \<Rightarrow> velocity_map option \<Rightarrow> (sku \<times> country, int) dict res" where
  "compute_mapped_stock_by_country rules component_stock velocity =
     (if rules = [] \<or> component_stock = [] then return []
      else
        let allocations = build_component_allocation rules component_stock
              (case velocity of None \<Rightarrow> [] | Some v \<Rightarrow> country_weights_by_sku v) None
        in fold_res (add_country_buildable component_stock allocations) [] (build_steps rules component_stock))"

definition add_total_buildable ::
  "(sku \<times> sku \<times> warehouse_id, warehouse_stock) dict \<Rightarrow> (sku, int) dict \<Rightarrow> sku \<times> warehouse_id \<times> mapping_group \<Rightarrow>
   (sku, int) dict res" where
  "add_total_buildable allocations totals step =
     (case step of (commodity_sku, warehouse_id, components) \<Rightarrow>
        bind_res (buildable_loop allocations commodity_sku warehouse_id None components)
          (\<lambda>buildable. case buildable of None \<Rightarrow> return totals
             | Some b \<Rightarrow> return (if b > 0 then dict_add commodity_sku b totals else totals)))"

definition compute_mapped_stock_total_by_sku ::
  "mapping_rules \<Rightarrow> (sku \<times> warehouse_id, warehouse_stock) dict \<Rightarrow> velocity_map option \<Rightarrow> (sku, int) dict res" where
  "compute_mapped_stock_total_by_sku rules component_stock velocity =
     (if rules = [] \<or> component_stock = [] then return []
      else
        let allocations = build_component_allocation rules component_stock
              (case velocity of None \<Rightarrow> [] | Some v \<Rightarrow> local_weights_by_sku v) (Some [])
        in fold_res (add_total_buildable allocations) [] (build_steps rules component_stock))"

section \<open>Lemmas\<close>

subsection \<open>Allocating an integer quantity\<close>

text \<open>
  The floating-point weights for which the rounding of the shares is provably harmless. The
  velocities of step 1 lie far inside the range.
\<close>

definition weight_fits :: "pyfloat \<Rightarrow> bool" where
  "weight_fits w \<longleftrightarrow> w \<le> 0 \<or> (2 powi (- 100) \<le> w \<and> w \<le> 2 powi 100)"

definition shares_fit :: "int \<Rightarrow> nat \<Rightarrow> bool" where
  "shares_fit t n \<longleftrightarrow> t * (int n + 3) \<le> 2 ^ 51"

definition integer_ok :: "int \<Rightarrow> sku list \<times> (sku, pyfloat) dict \<Rightarrow> bool" where
  "integer_ok t r \<longleftrightarrow> 0 \<le> t \<and> fst r \<noteq> [] \<and> distinct (fst r) \<and> shares_fit t (length (fst r)) \<and>
     (\<forall>w \<in> snd ` set (snd r). weight_fits w)"

lemma length_consumer_weights [simp]: "length (consumer_weights cs ws) = length cs"
  by (simp add: consumer_weights_def Let_def)

lemma powi2_one_bounds: "(2::rat) powi (- 100) \<le> 1" "(1::rat) \<le> 2 powi 100"
  by (simp_all add: power_int_minus)

lemma consumer_weights_range:
  assumes "\<forall>w \<in> snd ` set ws. weight_fits w"
  shows "\<forall>w \<in> set (consumer_weights cs ws). 2 powi (- 100) \<le> w \<and> w \<le> 2 powi 100"
proof (cases "list_ex (\<lambda>w. w \<le> 0) (map (\<lambda>c. dict_get_or ws c 0) cs)")
  case True
  then show ?thesis using powi2_one_bounds by (auto simp: consumer_weights_def Let_def)
next
  case False
  show ?thesis
  proof
    fix w assume "w \<in> set (consumer_weights cs ws)"
    then obtain c where c: "c \<in> set cs" "w = dict_get_or ws c 0"
      using False by (auto simp: consumer_weights_def Let_def)
    then have "0 < w" using False by (auto simp: list_ex_iff)
    moreover have "weight_fits w"
      using dict_get_or_value [of ws c 0] assms c(2) by (auto simp: weight_fits_def)
    ultimately show "2 powi (- 100) \<le> w \<and> w \<le> 2 powi 100" by (simp add: weight_fits_def)
  qed
qed

lemma fsum_foldl: "fsum ws = foldl (\<lambda>s w. fl (s + w)) 0 ws"
  by (simp add: fsum_def fadd_def [abs_def])

lemma fit_bounds:
  assumes "shares_fit t n" "0 < t" "0 < n"
  shows "t \<le> 2 ^ 53" "of_nat n \<le> (2::rat) ^ 51" "of_int t * of_nat (n + 3) \<le> (2::rat) ^ 51"
proof -
  define K :: int where "K = 2 ^ 51"
  have K: "K \<le> 2 ^ 53" "of_int K = (2::rat) ^ 51" by (simp_all add: K_def)
  have a: "t * (int n + 3) \<le> K" using assms(1) by (simp add: shares_fit_def K_def)
  have "t * 1 \<le> t * (int n + 3)" using assms by (intro mult_left_mono) auto
  then show "t \<le> 2 ^ 53" using a K(1) by (metis mult.right_neutral order_trans)
  have "1 * (int n + 3) \<le> t * (int n + 3)" using assms by (intro mult_right_mono) auto
  then have "int n \<le> K" using a by (metis add_increasing2 le_add_same_cancel1 mult_1 order_trans zero_le_numeral)
  then show "of_nat n \<le> (2::rat) ^ 51" using K(2) by (metis of_int_le_iff of_int_of_nat_eq)
  have "of_int (t * (int n + 3)) \<le> (of_int K :: rat)" using a by (simp only: of_int_le_iff)
  then show "of_int t * of_nat (n + 3) \<le> (2::rat) ^ 51" unfolding K(2) by simp
qed

text \<open>What the multi-consumer branch computes, step by step.\<close>

lemma ifI2: "P x \<Longrightarrow> P y \<Longrightarrow> P (if b then x else y)"
  by simp

lemma bump_one:
  fixes xs :: "int list"
  assumes i: "i < length xs"
  shows "sum_list (xs[i := xs ! i + 1]) = sum_list xs + 1"
    and "set xs \<subseteq> {0..} \<Longrightarrow> set (xs[i := xs ! i + 1]) \<subseteq> {0..}"
proof -
  have "sum_list (xs[i := xs ! i + 1]) = sum_list (take i xs @ [xs ! i] @ drop (Suc i) xs) + 1"
    using i by (simp add: upd_conv_take_nth_drop)
  then show "sum_list (xs[i := xs ! i + 1]) = sum_list xs + 1" using id_take_nth_drop [OF i] by simp
  show "set (xs[i := xs ! i + 1]) \<subseteq> {0..}" if "set xs \<subseteq> {0..}"
    using that nth_mem [OF i] by (intro set_update_subsetI) (auto dest!: subsetD)
qed

lemma bump_indices_props:
  assumes "set idxs \<subseteq> {..<length xs}"
  shows "length (bump_indices xs idxs) = length xs"
    and "sum_list (bump_indices xs idxs) = sum_list xs + int (length idxs)"
    and "set xs \<subseteq> {0..} \<Longrightarrow> set (bump_indices xs idxs) \<subseteq> {0..}"
proof -
  have "length (bump_indices xs idxs) = length xs \<and>
    sum_list (bump_indices xs idxs) = sum_list xs + int (length idxs) \<and>
    (set xs \<subseteq> {0..} \<longrightarrow> set (bump_indices xs idxs) \<subseteq> {0..})"
    using assms
  proof (induction idxs arbitrary: xs)
    case (Cons i idxs)
    let ?ys = "xs[i := xs ! i + 1]"
    have i: "i < length xs" and rest: "set idxs \<subseteq> {..<length ?ys}" using Cons.prems by simp_all
    have "bump_indices xs (i # idxs) = bump_indices ?ys idxs" by (simp add: bump_indices_def)
    then show ?case using Cons.IH [OF rest] bump_one [OF i] by (simp only: length_list_update list.size) simp
  qed (simp add: bump_indices_def)
  then show "length (bump_indices xs idxs) = length xs"
    and "sum_list (bump_indices xs idxs) = sum_list xs + int (length idxs)"
    and "set xs \<subseteq> {0..} \<Longrightarrow> set (bump_indices xs idxs) \<subseteq> {0..}" by blast+
qed

lemma raw_shares_sum:
  assumes "integer_ok t (cs, ws)" "0 < t"
  defines "pw \<equiv> consumer_weights cs ws"
  shows "0 < fsum pw" "\<bar>sum_list (raw_shares t (fsum pw) pw) - of_int t\<bar> < 1"
    and "\<forall>x \<in> set (raw_shares t (fsum pw) pw). 0 \<le> x"
proof -
  have cs: "cs \<noteq> []" and fit: "shares_fit t (length cs)" and w: "\<forall>w \<in> snd ` set ws. weight_fits w"
    using assms(1) by (simp_all add: integer_ok_def)
  have n: "0 < length cs" using cs by simp
  note b = fit_bounds [OF fit assms(2) n]
  have len: "length pw = length cs" by (simp add: pw_def)
  then have ne: "pw \<noteq> []" using n by auto
  have range: "\<forall>w \<in> set pw. 2 powi (- 100) \<le> w \<and> w \<le> 2 powi 100"
    unfolding pw_def by (rule consumer_weights_range [OF w])
  show W: "0 < fsum pw" unfolding fsum_foldl using fp.rounded_total(4) [OF ne range] b(2) len by simp
  have t: "float_of_int t = of_int t" using assms(2) b(1) by (simp add: float_of_int_def fl_of_int)
  have sh: "raw_shares t (fsum pw) pw = map (\<lambda>w. fl (fl (of_int t * w) / fsum pw)) pw"
    by (simp add: raw_shares_def fdiv_def fmul_def t)
  have "\<bar>sum_list (raw_shares t (fsum pw) pw) - of_int t\<bar> \<le> 1/2"
    unfolding sh unfolding fsum_foldl using assms(2) b(3) len by (intro fp.shares_sum [OF ne range]) auto
  then show "\<bar>sum_list (raw_shares t (fsum pw) pw) - of_int t\<bar> < 1" by linarith
  have "0 \<le> w" if "w \<in> set pw" for w
    using range that powi2_pos [of "- 100"] by (meson less_le_trans less_imp_le)
  then show "\<forall>x \<in> set (raw_shares t (fsum pw) pw). 0 \<le> x"
    using assms(2) W unfolding sh by (auto intro!: fl_nonneg divide_nonneg_pos mult_nonneg_nonneg)
qed

lemma allocate_integer_quantity_many:
  assumes "integer_ok t (cs, ws)" "0 < t" "length cs \<noteq> 1"
  obtains qs where "allocate_integer_quantity t cs ws = zip cs qs" "length qs = length cs"
    "sum_list qs = t" "\<forall>q \<in> set qs. 0 \<le> q"
proof -
  define pw where "pw = consumer_weights cs ws"
  define sh where "sh = raw_shares t (fsum pw) pw"
  note r = raw_shares_sum [OF assms(1,2), folded pw_def, folded sh_def]
  have cs: "cs \<noteq> []" "distinct cs" using assms(1) by (simp_all add: integer_ok_def)
  let ?a = "map floor sh"
  let ?rest = "t - sum_list ?a"
  let ?idxs = "py_slice_to (fractional_order sh ?a cs) ?rest"
  have len: "length sh = length cs" by (simp add: sh_def raw_shares_def pw_def)
  have left: "0 \<le> ?rest" "?rest \<le> int (length cs)" using leftover_bounds [OF r(2)] len by auto
  have nn: "set ?a \<subseteq> {0..}" using r(3) by auto
  have "set (fractional_order sh ?a cs) = {..<length ?a}" by (auto simp: fractional_order_def len)
  then have sub: "set ?idxs \<subseteq> {..<length ?a}" using set_py_slice_to by metis
  have li: "int (length ?idxs) = ?rest" using left by (simp add: py_slice_to_nonneg fractional_order_def)
  define qs where "qs = (if ?rest > 0 then bump_indices ?a ?idxs else ?a)"
  have "allocate_integer_quantity t cs ws = foldl (\<lambda>d (k, v). dict_set k v d) [] (zip cs qs)"
    using assms(2,3) cs r(1) by (simp add: allocate_integer_quantity_def Let_def pw_def [symmetric] sh_def [symmetric] qs_def)
  moreover have lq: "length qs = length cs" using bump_indices_props(1) [OF sub] len by (simp add: qs_def)
  ultimately have eq: "allocate_integer_quantity t cs ws = zip cs qs"
    using cs by (simp add: foldl_dict_set_distinct)
  have "sum_list qs = t"
    using bump_indices_props(2) [OF sub] li left by (simp add: qs_def)
  moreover have "set qs \<subseteq> {0..}" using bump_indices_props(3) [OF sub nn] nn unfolding qs_def by (rule ifI2 [where P = "\<lambda>qs. set qs \<subseteq> {0..}"])
  then have "\<forall>q \<in> set qs. 0 \<le> q" by (meson atLeast_iff subsetD)
  ultimately show thesis by (rule that [OF eq lq])
qed

interpretation iq: apportionment "\<lambda>t r. allocate_integer_quantity t (fst r) (snd r)" fst integer_ok
proof
  fix t and r :: "sku list \<times> (sku, pyfloat) dict"
  obtain cs ws where [simp]: "r = (cs, ws)" by (cases r)
  assume ok: "integer_ok t r"
  then have cs: "cs \<noteq> []" "distinct cs" by (simp_all add: integer_ok_def)
  let ?A = "allocate_integer_quantity t cs ws"
  have "\<exists>qs. ?A = zip cs qs \<and> length qs = length cs \<and> sum_list qs = t \<and> (\<forall>q \<in> set qs. 0 \<le> q)"
  proof -
    consider "t = 0" | "0 < t" "length cs = 1" | "0 < t" "length cs \<noteq> 1" using ok by (force simp: integer_ok_def)
    then show ?thesis
    proof cases
      case 1
      have "map (\<lambda>c. (c, 0)) cs = zip cs (map (\<lambda>_. 0::int) cs)" by (induction cs) auto
      then show ?thesis using 1 cs
        by (intro exI [of _ "map (\<lambda>_. 0) cs"]) (auto simp: allocate_integer_quantity_def sum_list_triv)
    next
      case 2
      then show ?thesis using cs
        by (intro exI [of _ "[t]"]) (auto simp: allocate_integer_quantity_def length_Suc_conv)
    next
      case 3
      then show ?thesis using allocate_integer_quantity_many [of t cs ws] ok by (metis \<open>r = (cs, ws)\<close>)
    qed
  qed
  then obtain qs where qs: "?A = zip cs qs" "length qs = length cs" "sum_list qs = t" "\<forall>q \<in> set qs. 0 \<le> q" by blast
  show "sum_list (map snd (allocate_integer_quantity t (fst r) (snd r))) = t" using qs by simp
  show "fst ` set (allocate_integer_quantity t (fst r) (snd r)) \<subseteq> set (fst r)"
    using qs(1) by (auto dest: set_zip_leftD)
  show "wf_dict (allocate_integer_quantity t (fst r) (snd r))" using qs cs by simp
  show "\<forall>v \<in> snd ` set (allocate_integer_quantity t (fst r) (snd r)). 0 \<le> v"
    using qs(1,4) by (auto dest: set_zip_rightD)
qed

subsection \<open>The allocation of a component\<close>

lemma consumers_eq:
  "dict_get_or (mapping_component_consumers rules) p [] =
     sorted_set (map fst (filter (\<lambda>(c, m). mc_inventory_sku m = p) (rule_components rules)))"
proof -
  let ?d = "foldl (\<lambda>d (c, m). dict_set (mc_inventory_sku m) (dict_get_or d (mc_inventory_sku m) [] @ [c]) d) []
     (rule_components rules)"
  have "dict_get_or (mapping_component_consumers rules) p [] = sorted_set (dict_get_or ?d p [])"
    by (simp add: mapping_component_consumers_def dict_get_or_def sorted_set_def
        dict_get_map_value [where f = "\<lambda>_. sorted_set", unfolded sorted_set_def] split: option.split)
  then show ?thesis unfolding foldl_group_get by simp
qed

lemma rule_components_iff:
  "(c, m) \<in> set (rule_components rules) \<longleftrightarrow> (\<exists>groups. (c, groups) \<in> set rules \<and> m \<in> set (concat groups))"
  by (fastforce simp: rule_components_def)

lemma allocate_integer_quantity_wf: "wf_dict (allocate_integer_quantity t cs ws)"
proof -
  have w: "wf_dict d \<Longrightarrow> wf_dict (foldl (\<lambda>d (k, v). dict_set k v d) d kvs)" for d :: "(sku, int) dict" and kvs
    by (induction kvs arbitrary: d) auto
  show ?thesis
    by (auto simp: allocate_integer_quantity_def Let_def comp_def intro!: w split: if_splits)
qed

text \<open>The split of one stock entry, and what the finished table holds.\<close>

definition component_split ::
  "mapping_rules \<Rightarrow> (country, (sku, pyfloat) dict) dict \<Rightarrow> string option \<Rightarrow> sku \<Rightarrow> warehouse_stock \<Rightarrow> (sku, int) dict" where
  "component_split rules weights fixed p stock =
     (let cs = dict_get_or (mapping_component_consumers rules) p []
      in if cs = [] then [] else allocate_integer_quantity (ws_total stock) cs (allocation_weights weights fixed stock cs))"

lemma component_split_wf: "wf_dict (component_split rules weights fixed p stock)"
  by (simp add: component_split_def Let_def allocate_integer_quantity_wf)

lemma dict_get_foldl_split:
  assumes "wf_dict splits"
  shows "dict_get (foldl (\<lambda>d (c, q). dict_set (c, p, w) (mk q) d) A splits) (c', p', w') =
     (if p' = p \<and> w' = w then (case dict_get splits c' of None \<Rightarrow> dict_get A (c', p', w') | Some q \<Rightarrow> Some (mk q))
      else dict_get A (c', p', w'))"
  using assms
proof (induction splits arbitrary: A)
  case (Cons cq splits)
  obtain c q where cq: "cq = (c, q)" by (cases cq)
  have "dict_get splits c = None" using Cons.prems cq by (simp add: dict_get_None_iff)
  then show ?case using Cons cq by (auto simp: dict_get_set dict_get_Cons split: option.split)
qed simp

lemma allocate_component_eq:
  "allocate_component (mapping_component_consumers rules) weights fixed A ((p, w), stock) =
     foldl (\<lambda>d (c, q). dict_set (c, p, w) \<lparr>ws_country = ws_country stock, ws_total = q\<rparr> d) A
       (component_split rules weights fixed p stock)"
  by (simp add: allocate_component_def component_split_def Let_def)

lemma build_component_allocation_get:
  assumes "wf_dict component_stock"
  shows "dict_get (build_component_allocation rules component_stock weights fixed) (c, p, w) =
     (case dict_get component_stock (p, w) of None \<Rightarrow> None
      | Some stock \<Rightarrow> map_option (\<lambda>q. \<lparr>ws_country = ws_country stock, ws_total = q\<rparr>)
          (dict_get (component_split rules weights fixed p stock) c))"
proof -
  have "dict_get (foldl (allocate_component (mapping_component_consumers rules) weights fixed) A component_stock) (c, p, w) =
     (case dict_get component_stock (p, w) of None \<Rightarrow> dict_get A (c, p, w)
      | Some stock \<Rightarrow> (case dict_get (component_split rules weights fixed p stock) c of None \<Rightarrow> dict_get A (c, p, w)
           | Some q \<Rightarrow> Some \<lparr>ws_country = ws_country stock, ws_total = q\<rparr>))" for A
    using assms
  proof (induction component_stock arbitrary: A)
    case (Cons e component_stock)
    obtain p' w' stock where e: "e = ((p', w'), stock)" by (metis surj_pair)
    have "dict_get component_stock (p', w') = None" using Cons.prems e by (simp add: dict_get_None_iff)
    then show ?case
      using Cons.IH [of "allocate_component (mapping_component_consumers rules) weights fixed A e"] Cons.prems
      unfolding e allocate_component_eq foldl_Cons dict_get_foldl_split [OF component_split_wf]
      by (auto simp: dict_get_Cons split: option.splits)
  qed simp
  then show ?thesis
    by (auto simp: build_component_allocation_def split: option.splits)
qed

definition allocated_to ::
  "(sku \<times> sku \<times> warehouse_id, warehouse_stock) dict \<Rightarrow> sku \<Rightarrow> sku \<Rightarrow> warehouse_id \<Rightarrow> int" where
  "allocated_to A c p w = (case dict_get A (c, p, w) of None \<Rightarrow> 0 | Some st \<Rightarrow> ws_total st)"

definition stock_of :: "(sku \<times> warehouse_id, warehouse_stock) dict \<Rightarrow> sku \<Rightarrow> warehouse_id \<Rightarrow> int" where
  "stock_of component_stock p w = (case dict_get component_stock (p, w) of None \<Rightarrow> 0 | Some st \<Rightarrow> ws_total st)"

text \<open>
  The domain: distinct commodities and stock keys, weights in range, and totals small enough
  for the number of rules.
\<close>

definition allocation_fits ::
  "mapping_rules \<Rightarrow> (sku \<times> warehouse_id, warehouse_stock) dict \<Rightarrow> (country, (sku, pyfloat) dict) dict \<Rightarrow> bool" where
  "allocation_fits rules component_stock weights \<longleftrightarrow>
     wf_dict rules \<and> wf_dict component_stock \<and>
     (\<forall>st \<in> snd ` set component_stock. shares_fit (ws_total st) (length rules)) \<and>
     (\<forall>d \<in> snd ` set weights. \<forall>w \<in> snd ` set d. weight_fits w)"

lemma values_foldl_dict_set:
  "snd ` set (foldl (\<lambda>d c. dict_set c (f c) d) d cs) \<subseteq> snd ` set d \<union> f ` set cs"
proof (induction cs arbitrary: d)
  case (Cons c cs)
  show ?case using Cons.IH [of "dict_set c (f c) d"] values_dict_set [of c "f c" d] by auto
qed simp

lemma weight_fits_get:
  assumes "\<forall>w \<in> snd ` set d. weight_fits w"
  shows "weight_fits (dict_get_or d c 0)"
  using dict_get_or_value [of d c 0] assms by (auto simp: weight_fits_def)

lemma allocation_weights_fit:
  assumes "\<forall>d \<in> snd ` set weights. \<forall>w \<in> snd ` set d. weight_fits w"
  shows "\<forall>w \<in> snd ` set (allocation_weights weights fixed st cs). weight_fits w"
proof -
  define wc where "wc = (case fixed of Some c \<Rightarrow> c | None \<Rightarrow> (case ws_country st of None \<Rightarrow> [] | Some c \<Rightarrow> c))"
  have "\<forall>w \<in> snd ` set (dict_get_or weights wc []). weight_fits w"
    using dict_get_or_value [of weights wc "[]"] assms by fastforce
  then have "weight_fits (dict_get_or (dict_get_or weights wc []) c 0)" for c by (rule weight_fits_get)
  then show ?thesis
    using values_foldl_dict_set [of "\<lambda>c. dict_get_or (dict_get_or weights wc []) c 0" "[]" cs]
    by (auto simp: allocation_weights_def Let_def wc_def [symmetric])
qed

lemma length_consumers:
  assumes "wf_dict rules"
  shows "length (dict_get_or (mapping_component_consumers rules) p []) \<le> length rules"
proof -
  let ?cs = "dict_get_or (mapping_component_consumers rules) p []"
  have "distinct ?cs" unfolding consumers_eq by simp
  moreover have "set ?cs \<subseteq> fst ` set rules"
    unfolding consumers_eq by (force simp: rule_components_iff)
  ultimately have "length ?cs \<le> card (fst ` set rules)" by (metis List.finite_set card_mono distinct_card finite_imageI)
  also have "\<dots> \<le> length rules" by (metis card_length length_map set_map)
  finally show ?thesis .
qed

lemma component_split_ok:
  assumes "allocation_fits rules component_stock weights" "dict_get component_stock (p, w) = Some st"
    "dict_get_or (mapping_component_consumers rules) p [] \<noteq> []" "0 \<le> ws_total st"
  shows "integer_ok (ws_total st)
     (dict_get_or (mapping_component_consumers rules) p [],
      allocation_weights weights fixed st (dict_get_or (mapping_component_consumers rules) p []))"
proof -
  let ?cs = "dict_get_or (mapping_component_consumers rules) p []"
  have "((p, w), st) \<in> set component_stock" using assms(2) by (rule dict_get_in)
  then have "st \<in> snd ` set component_stock" by force
  then have "shares_fit (ws_total st) (length rules)" using assms(1) unfolding allocation_fits_def by blast
  moreover have "int (length ?cs) + 3 \<le> int (length rules) + 3"
    using length_consumers [of rules p] assms(1) by (simp add: allocation_fits_def)
  then have "ws_total st * (int (length ?cs) + 3) \<le> ws_total st * (int (length rules) + 3)"
    using assms(4) by (rule mult_left_mono)
  ultimately have "shares_fit (ws_total st) (length ?cs)" unfolding shares_fit_def by (rule order_trans [rotated])
  moreover have "distinct ?cs" unfolding consumers_eq by simp
  moreover have "\<forall>w \<in> snd ` set (allocation_weights weights fixed st ?cs). weight_fits w"
    using assms(1) unfolding allocation_fits_def by (intro allocation_weights_fit) blast
  ultimately show ?thesis using assms(3,4) unfolding integer_ok_def fst_conv snd_conv by blast
qed

text \<open>Whatever the weights, the commodities share at most what is there, and nobody gets less than nothing.\<close>

lemma allocated_to_eq:
  assumes "allocation_fits rules component_stock weights"
  shows "allocated_to (build_component_allocation rules component_stock weights fixed) c p w =
     (case dict_get component_stock (p, w) of None \<Rightarrow> 0
      | Some st \<Rightarrow> dict_get_or (component_split rules weights fixed p st) c 0)"
  using assms
  by (auto simp: allocated_to_def allocation_fits_def build_component_allocation_get dict_get_or_def split: option.splits)

lemma component_split_bounds:
  assumes fits: "allocation_fits rules component_stock weights" and st: "dict_get component_stock (p, w) = Some st"
  shows "0 \<le> dict_get_or (component_split rules weights fixed p st) c 0"
    and "distinct cs \<Longrightarrow>
      sum_list (map (\<lambda>c. dict_get_or (component_split rules weights fixed p st) c 0) cs) \<le> max 0 (ws_total st)"
proof -
  let ?S = "component_split rules weights fixed p st" and ?C = "dict_get_or (mapping_component_consumers rules) p []"
  have *: "sum_list (map snd ?S) \<le> max 0 (ws_total st) \<and> (\<forall>v \<in> snd ` set ?S. 0 \<le> v)"
  proof (cases "?C = []")
    case False
    show ?thesis
    proof (cases "0 \<le> ws_total st")
      case True
      note ok = component_split_ok [OF fits st False True, of fixed]
      show ?thesis using iq.alloc_total [OF ok] iq.alloc_nonneg [OF ok] False True
        by (simp add: component_split_def Let_def)
    next
      case neg: False
      then show ?thesis using False
        by (auto simp: component_split_def Let_def allocate_integer_quantity_def comp_def sum_list_triv)
    qed
  qed (simp add: component_split_def)
  then have nn: "0 \<le> dict_get_or ?S c 0" for c using dict_get_or_value [of ?S c 0] by (metis insertE order_refl)
  then show "0 \<le> dict_get_or ?S c 0" .
  show "sum_list (map (\<lambda>c. dict_get_or ?S c 0) cs) \<le> max 0 (ws_total st)" if "distinct cs"
  proof -
    let ?f = "\<lambda>c. dict_get_or ?S c 0" and ?U = "dedup (cs @ map fst ?S)"
    have "sum_list (map ?f cs) = sum ?f (set cs)" using that by (rule sum_list_distinct_conv_sum_set)
    also have "\<dots> \<le> sum ?f (set ?U)" using nn by (intro sum_mono2) auto
    also have "\<dots> = sum_list (map ?f ?U)" by (rule sum_list_distinct_conv_sum_set [symmetric]) simp
    also have "\<dots> = sum_list (map snd ?S)" by (rule sum_list_get_or_keys [OF component_split_wf]) auto
    finally show ?thesis using * by linarith
  qed
qed

lemma allocated_to_bounds:
  fixes fixed :: "string option"
  assumes "allocation_fits rules component_stock weights"
  defines "A \<equiv> build_component_allocation rules component_stock weights fixed"
  shows "0 \<le> allocated_to A c p w"
    and "distinct cs \<Longrightarrow> sum_list (map (\<lambda>c. allocated_to A c p w) cs) \<le> max 0 (stock_of component_stock p w)"
  unfolding A_def allocated_to_eq [OF assms(1)] stock_of_def
  using component_split_bounds [OF assms(1)] by (auto split: option.splits simp: sum_list_triv)

subsection \<open>Assembling\<close>

text \<open>The specification: a group yields what its scarcest component allows.\<close>

definition assemblies ::
  "(sku \<times> sku \<times> warehouse_id, warehouse_stock) dict \<Rightarrow> sku \<Rightarrow> warehouse_id \<Rightarrow> mapping_group \<Rightarrow> int" where
  "assemblies A c w components =
     (if components = [] then 0
      else Min ((\<lambda>m. allocated_to A c (mc_inventory_sku m) w div mc_quantity m) ` set components))"

definition quantities_positive :: "mapping_rules \<Rightarrow> bool" where
  "quantities_positive rules \<longleftrightarrow> (\<forall>(c, groups) \<in> set rules. \<forall>g \<in> set groups. \<forall>m \<in> set g. 0 < mc_quantity m)"

lemma buildable_loop_eq:
  assumes "\<forall>m \<in> set ms. 0 < mc_quantity m" "\<forall>p. 0 \<le> allocated_to A c p w" "\<forall>b. b0 = Some b \<longrightarrow> 0 \<le> b"
  shows "buildable_loop A c w b0 ms =
     Inr (if ms = [] then b0
          else Some (Min (set_option b0 \<union> (\<lambda>m. allocated_to A c (mc_inventory_sku m) w div mc_quantity m) ` set ms)))"
  using assms
proof (induction ms arbitrary: b0)
  case (Cons m ms)
  let ?f = "\<lambda>m. allocated_to A c (mc_inventory_sku m) w div mc_quantity m"
  have nn: "0 \<le> ?f x" if "x \<in> set (m # ms)" for x
    using Cons.prems(1,2) that by (auto simp: pos_imp_zdiv_nonneg_iff)
  show ?case
  proof (cases "dict_get A (c, mc_inventory_sku m, w)")
    case None
    then have zero: "?f m = 0" by (simp add: allocated_to_def)
    have ge: "0 \<le> x" if x: "x \<in> set_option b0 \<union> ?f ` set (m # ms)" for x
      using x
    proof
      assume "x \<in> set_option b0"
      then show ?thesis using Cons.prems(3) by (simp only: elem_set)
    next
      assume "x \<in> ?f ` set (m # ms)"
      then show ?thesis using nn by blast
    qed
    have "?f m \<in> set_option b0 \<union> ?f ` set (m # ms)" by simp
    then have "0 \<in> set_option b0 \<union> ?f ` set (m # ms)" unfolding zero .
    then have "Min (set_option b0 \<union> ?f ` set (m # ms)) = 0" by (rule Min_eqI [rotated 2]) (simp, rule ge)
    then show ?thesis using None by simp
  next
    case (Some st)
    then have f: "?f m = ws_total st div mc_quantity m" by (simp add: allocated_to_def)
    define b where "b = (case b0 of None \<Rightarrow> ?f m | Some x \<Rightarrow> min x (?f m))"
    have "0 \<le> b" using nn [of m] Cons.prems(3) by (auto simp: b_def split: option.split)
    then have "buildable_loop A c w (Some b) ms =
        Inr (if ms = [] then Some b else Some (Min (set_option (Some b) \<union> ?f ` set ms)))"
      using Cons.prems by (intro Cons.IH) auto
    moreover have "Min (insert b (?f ` set ms)) = Min (set_option b0 \<union> ?f ` set (m # ms))"
      by (cases b0; cases "ms = []") (auto simp: b_def min.assoc)
    ultimately show ?thesis
      using Some f Cons.prems(1) by (cases "ms = []") (auto simp: b_def Let_def split: option.splits)
  qed
qed simp

lemma buildable_loop_assemblies:
  assumes "\<forall>m \<in> set ms. 0 < mc_quantity m" "\<forall>p. 0 \<le> allocated_to A c p w"
  shows "buildable_loop A c w None ms = Inr (if ms = [] then None else Some (assemblies A c w ms))"
  using buildable_loop_eq [OF assms, of None] by (simp add: assemblies_def)

lemma assemblies_bounds:
  assumes "\<forall>m \<in> set ms. 0 < mc_quantity m" "\<forall>p. 0 \<le> allocated_to A c p w"
  shows "0 \<le> assemblies A c w ms"
    and "m \<in> set ms \<Longrightarrow> assemblies A c w ms * mc_quantity m \<le> allocated_to A c (mc_inventory_sku m) w"
proof -
  let ?f = "\<lambda>m. allocated_to A c (mc_inventory_sku m) w div mc_quantity m"
  show "0 \<le> assemblies A c w ms" using assms by (auto simp: assemblies_def pos_imp_zdiv_nonneg_iff)
  show "assemblies A c w ms * mc_quantity m \<le> allocated_to A c (mc_inventory_sku m) w" if m: "m \<in> set ms"
  proof -
    have "assemblies A c w ms \<le> ?f m" using m by (auto simp: assemblies_def intro!: Min_le)
    moreover have q: "0 < mc_quantity m" using assms(1) m by blast
    ultimately have "assemblies A c w ms * mc_quantity m \<le> ?f m * mc_quantity m" by (intro mult_right_mono) auto
    also have "\<dots> \<le> allocated_to A c (mc_inventory_sku m) w"
      using q by (metis div_mult_mod_eq le_add_same_cancel1 pos_mod_sign)
    finally show ?thesis .
  qed
qed

text \<open>No component of a commodity is shared between two of its groups.\<close>

definition groups_disjoint :: "mapping_rules \<Rightarrow> bool" where
  "groups_disjoint rules \<longleftrightarrow> (\<forall>(c, groups) \<in> set rules. distinct (map mc_inventory_sku (concat groups)))"

text \<open>The units of a component that the assemblies of some groups use up.\<close>

definition used_by_group :: "sku \<Rightarrow> mapping_group \<Rightarrow> int" where
  "used_by_group p g = sum_list (map mc_quantity (filter (\<lambda>m. mc_inventory_sku m = p) g))"

definition used_by_rule ::
  "(sku \<times> sku \<times> warehouse_id, warehouse_stock) dict \<Rightarrow> sku \<Rightarrow> warehouse_id \<Rightarrow> sku \<times> mapping_group list \<Rightarrow> int" where
  "used_by_rule A p w rule =
     (case rule of (c, groups) \<Rightarrow> sum_list (map (\<lambda>g. assemblies A c w g * used_by_group p g) groups))"

lemma used_by_group_none: "p \<notin> mc_inventory_sku ` set g \<Longrightarrow> used_by_group p g = 0"
proof -
  assume "p \<notin> mc_inventory_sku ` set g"
  then have "filter (\<lambda>m. mc_inventory_sku m = p) g = []" by (auto simp: filter_empty_conv)
  then show ?thesis by (simp add: used_by_group_def)
qed

lemma used_by_group_one:
  assumes "distinct (map mc_inventory_sku g)" "m \<in> set g"
  shows "used_by_group (mc_inventory_sku m) g = mc_quantity m"
  using assms
proof (induction g)
  case (Cons x g)
  show ?case
  proof (cases "x = m")
    case True
    then have "mc_inventory_sku m \<notin> mc_inventory_sku ` set g" using Cons.prems by simp
    then show ?thesis using True used_by_group_none [of "mc_inventory_sku m" g] by (simp add: used_by_group_def)
  next
    case False
    then have "mc_inventory_sku x \<noteq> mc_inventory_sku m" using Cons.prems by (auto simp: image_iff)
    then show ?thesis using Cons False by (simp add: used_by_group_def)
  qed
qed simp

lemma used_by_rule_le:
  assumes "distinct (map mc_inventory_sku (concat groups))"
    "\<forall>g \<in> set groups. \<forall>m \<in> set g. 0 < mc_quantity m" "\<forall>p. 0 \<le> allocated_to A c p w"
  shows "used_by_rule A p w (c, groups) \<le> allocated_to A c p w"
  using assms
proof (induction groups)
  case (Cons g groups)
  let ?rest = "used_by_rule A p w (c, groups)"
  have sum: "used_by_rule A p w (c, g # groups) = assemblies A c w g * used_by_group p g + ?rest"
    by (simp add: used_by_rule_def)
  show ?case
  proof (cases "p \<in> mc_inventory_sku ` set g")
    case True
    then obtain m where m: "m \<in> set g" "p = mc_inventory_sku m" by blast
    have "p \<notin> mc_inventory_sku ` set (concat groups)" using Cons.prems(1) True by auto
    then have "\<forall>g' \<in> set groups. used_by_group p g' = 0" by (auto intro!: used_by_group_none)
    then have "?rest = 0" by (simp add: used_by_rule_def sum_list_triv cong: map_cong)
    moreover have "used_by_group p g = mc_quantity m"
      using Cons.prems(1) m by (auto intro: used_by_group_one)
    ultimately show ?thesis
      using sum m assemblies_bounds(2) [of g A c w m] Cons.prems(2,3) by simp
  next
    case False
    then show ?thesis using sum used_by_group_none [OF False] Cons by simp
  qed
qed (simp add: used_by_rule_def)

lemma used_within_stock:
  fixes fixed :: "string option"
  assumes fits: "allocation_fits rules component_stock weights"
    and rules: "quantities_positive rules" "groups_disjoint rules"
  defines "A \<equiv> build_component_allocation rules component_stock weights fixed"
  shows "sum_list (map (used_by_rule A p w) rules) \<le> max 0 (stock_of component_stock p w)"
proof -
  note bounds = allocated_to_bounds [OF fits, where fixed = fixed, folded A_def]
  have "used_by_rule A p w rule \<le> allocated_to A (fst rule) p w" if "rule \<in> set rules" for rule
  proof -
    obtain c groups where rule: "rule = (c, groups)" by (cases rule)
    have "distinct (map mc_inventory_sku (concat groups))" "\<forall>g \<in> set groups. \<forall>m \<in> set g. 0 < mc_quantity m"
      using rules that unfolding rule groups_disjoint_def quantities_positive_def by fast+
    then show ?thesis unfolding rule fst_conv using bounds(1) by (intro used_by_rule_le) blast+
  qed
  then have "sum_list (map (used_by_rule A p w) rules) \<le> sum_list (map (\<lambda>c. allocated_to A c p w) (map fst rules))"
    unfolding map_map by (intro sum_list_mono) simp
  also have "\<dots> \<le> max 0 (stock_of component_stock p w)"
    using fits by (intro bounds(2)) (simp add: allocation_fits_def)
  finally show ?thesis .
qed

subsection \<open>The two totals\<close>

lemma assemblies_no_signal:
  assumes "allocation_fits rules component_stock weights"
    "\<not> list_ex (\<lambda>m. dict_mem (mc_inventory_sku m, w) component_stock) ms"
  shows "assemblies (build_component_allocation rules component_stock weights fixed) c w ms = 0"
proof -
  let ?A = "build_component_allocation rules component_stock weights fixed"
  have "allocated_to ?A c (mc_inventory_sku m) w = 0" if "m \<in> set ms" for m
    using that assms(2) by (simp add: allocated_to_eq [OF assms(1)] list_ex_iff dict_mem_iff_get)
  then have "(\<lambda>m. allocated_to ?A c (mc_inventory_sku m) w div mc_quantity m) ` set ms = (\<lambda>m. 0) ` set ms"
    by (intro image_cong) simp_all
  then show ?thesis by (simp add: assemblies_def)
qed

definition in_country :: "(sku \<times> warehouse_id, warehouse_stock) dict \<Rightarrow> warehouse_id \<Rightarrow> country \<Rightarrow> bool" where
  "in_country component_stock w k \<longleftrightarrow>
     dict_get (country_by_warehouse component_stock) w = Some k \<and> k \<noteq> [] \<and> reportable k"

lemma mapped_stock_by_country_steps:
  fixes weights :: "(country, (sku, pyfloat) dict) dict" and fixed :: "string option"
  assumes fits: "allocation_fits rules component_stock weights"
  defines "A \<equiv> build_component_allocation rules component_stock weights fixed"
  assumes pos: "\<forall>(c, w, g) \<in> set steps. \<forall>m \<in> set g. 0 < mc_quantity m"
  shows "\<exists>res. fold_res (add_country_buildable component_stock A) d0 steps = Inr res \<and>
     (\<forall>c k. dict_get_or res (c, k) 0 = dict_get_or d0 (c, k) 0 +
        sum_list (map (\<lambda>(c', w, g). if c' = c \<and> in_country component_stock w k then assemblies A c w g else 0) steps))"
  using pos
proof (induction steps arbitrary: d0)
  case (Cons st steps)
  obtain c' w g where st: "st = (c', w, g)" by (metis prod_cases3)
  let ?inc = "\<lambda>c k. if c' = c \<and> in_country component_stock w k then assemblies A c w g else 0"
  have "buildable_loop A c' w None g = Inr (if g = [] then None else Some (assemblies A c' w g))"
    using Cons.prems allocated_to_bounds(1) [OF fits, where fixed = fixed, folded A_def] st
    by (intro buildable_loop_assemblies) auto
  then have "\<exists>d1. add_country_buildable component_stock A d0 st = Inr d1 \<and>
      (\<forall>c k. dict_get_or d1 (c, k) 0 = dict_get_or d0 (c, k) 0 + ?inc c k)"
    using assemblies_no_signal [OF fits, where fixed = fixed, folded A_def, of w g]
    by (auto simp: add_country_buildable_def st in_country_def dict_get_or_add assemblies_def [of _ _ _ "[]"] split: option.split)
  then obtain d1 where d1: "add_country_buildable component_stock A d0 st = Inr d1"
    "\<forall>c k. dict_get_or d1 (c, k) 0 = dict_get_or d0 (c, k) 0 + ?inc c k" by blast
  obtain res where "fold_res (add_country_buildable component_stock A) d1 steps = Inr res"
    "\<forall>c k. dict_get_or res (c, k) 0 = dict_get_or d1 (c, k) 0 +
        sum_list (map (\<lambda>(c', w, g). if c' = c \<and> in_country component_stock w k then assemblies A c w g else 0) steps)"
    using Cons.IH [of d1] Cons.prems by auto
  then show ?case using d1 st by (simp add: add.assoc)
qed simp

lemma mapped_stock_total_steps:
  fixes weights :: "(country, (sku, pyfloat) dict) dict" and fixed :: "string option"
  assumes fits: "allocation_fits rules component_stock weights"
  defines "A \<equiv> build_component_allocation rules component_stock weights fixed"
  assumes pos: "\<forall>(c, w, g) \<in> set steps. \<forall>m \<in> set g. 0 < mc_quantity m"
  shows "\<exists>res. fold_res (add_total_buildable A) d0 steps = Inr res \<and>
     (\<forall>c. dict_get_or res c 0 = dict_get_or d0 c 0 +
        sum_list (map (\<lambda>(c', w, g). if c' = c then assemblies A c w g else 0) steps))"
  using pos
proof (induction steps arbitrary: d0)
  case (Cons st steps)
  obtain c' w g where st: "st = (c', w, g)" by (metis prod_cases3)
  have ok: "\<forall>m \<in> set g. 0 < mc_quantity m" "\<forall>p. 0 \<le> allocated_to A c' p w"
    using Cons.prems allocated_to_bounds(1) [OF fits, where fixed = fixed, folded A_def] st by auto
  have "\<exists>d1. add_total_buildable A d0 st = Inr d1 \<and>
      (\<forall>c. dict_get_or d1 c 0 = dict_get_or d0 c 0 + (if c' = c then assemblies A c w g else 0))"
    using assemblies_bounds(1) [OF ok]
    by (auto simp: add_total_buildable_def st buildable_loop_assemblies [OF ok] dict_get_or_add assemblies_def [of _ _ _ "[]"])
  then obtain d1 where d1: "add_total_buildable A d0 st = Inr d1"
    "\<forall>c. dict_get_or d1 c 0 = dict_get_or d0 c 0 + (if c' = c then assemblies A c w g else 0)" by blast
  obtain res where "fold_res (add_total_buildable A) d1 steps = Inr res"
    "\<forall>c. dict_get_or res c 0 = dict_get_or d1 c 0 +
        sum_list (map (\<lambda>(c', w, g). if c' = c then assemblies A c w g else 0) steps)"
    using Cons.IH [of d1] Cons.prems by auto
  then show ?case using d1 st by (simp add: add.assoc)
qed simp

lemma values_dict_set2:
  assumes "\<forall>d' \<in> snd ` set d. \<forall>v \<in> snd ` set d'. P v" "P x"
  shows "\<forall>d' \<in> snd ` set (dict_set2 j k x d). \<forall>v \<in> snd ` set d'. P v"
proof (intro ballI)
  fix d' v assume d': "d' \<in> snd ` set (dict_set2 j k x d)" and v: "v \<in> snd ` set d'"
  have "d' = dict_set k x (dict_get_or d j []) \<or> d' \<in> snd ` set d"
    using d' values_dict_set [of j _ d] unfolding dict_set2_def by blast
  then show "P v"
  proof
    assume "d' = dict_set k x (dict_get_or d j [])"
    then have "v = x \<or> v \<in> snd ` set (dict_get_or d j [])" using v values_dict_set [of k x] by blast
    moreover have "dict_get_or d j [] = [] \<or> dict_get_or d j [] \<in> snd ` set d"
      using dict_get_or_value [of d j "[]"] by blast
    ultimately show ?thesis using assms by force
  qed (use assms v in blast)
qed

lemma country_weights_fit:
  assumes "\<forall>(c, d) \<in> set velocity. \<forall>(k, v) \<in> set d. weight_fits v"
  shows "\<forall>d \<in> snd ` set (country_weights_by_sku velocity). \<forall>v \<in> snd ` set d. weight_fits v"
proof -
  have "\<forall>d \<in> snd ` set (foldl (\<lambda>d (s, c, v). dict_set2 c s v d) d0 rows). \<forall>v \<in> snd ` set d. weight_fits v"
    if "\<forall>d \<in> snd ` set d0. \<forall>v \<in> snd ` set d. weight_fits v" "\<forall>(s, c, v) \<in> set rows. weight_fits v"
    for d0 :: "(country, (sku, pyfloat) dict) dict" and rows
    using that
  proof (induction rows arbitrary: d0)
    case (Cons r rows)
    obtain s c v where r: "r = (s, c, v)" by (metis prod_cases3)
    have v: "weight_fits v" and rest: "\<forall>(s, c, v) \<in> set rows. weight_fits v"
      using Cons.prems(2) unfolding r by simp_all
    have "\<forall>d \<in> snd ` set (dict_set2 c s v d0). \<forall>v \<in> snd ` set d. weight_fits v"
      by (rule values_dict_set2 [OF Cons.prems(1) v])
    then show ?case unfolding r foldl_Cons prod.case using rest by (rule Cons.IH)
  qed (simp only: foldl_Nil)
  note all = this
  have "\<forall>(s, c, v) \<in> set [(s, c, v). (s, d) \<leftarrow> velocity, (c, v) \<leftarrow> d]. weight_fits v"
    using assms by fastforce
  then show ?thesis unfolding country_weights_by_sku_def by (intro all) simp
qed

lemma local_weights_fit:
  assumes "\<forall>(c, d) \<in> set velocity. weight_fits (fsum (map snd d))"
  shows "\<forall>d \<in> snd ` set (local_weights_by_sku velocity). \<forall>v \<in> snd ` set d. weight_fits v"
  using assms by (auto simp: local_weights_by_sku_def dict_values_def)

lemma build_steps_positive:
  "quantities_positive rules \<Longrightarrow> \<forall>(c, w, g) \<in> set (build_steps rules component_stock). \<forall>m \<in> set g. 0 < mc_quantity m"
  by (fastforce simp: build_steps_def quantities_positive_def)

section \<open>Properties\<close>

text \<open>
  Splitting a component's stock with floating-point weights loses and invents nothing:
  for totals and weights in the stated range the integer parts of the rounded shares leave a
  remainder that the largest fractions absorb exactly, so the parts are non-negative and sum
  to the total.
\<close>

theorem allocate_integer_quantity_conserves:
  assumes "0 \<le> t" "consumers \<noteq> []" "distinct consumers" "t * (int (length consumers) + 3) \<le> 2 ^ 51"
    "\<forall>w \<in> snd ` set weights. w \<le> 0 \<or> 2 powi (- 100) \<le> w \<and> w \<le> 2 powi 100"
  shows "sum_list (map (\<lambda>c. dict_get_or (allocate_integer_quantity t consumers weights) c 0) consumers) = t
    \<and> (\<forall>c \<in> set consumers. 0 \<le> dict_get_or (allocate_integer_quantity t consumers weights) c 0)
    \<and> fst ` set (allocate_integer_quantity t consumers weights) \<subseteq> set consumers"
proof -
  have ok: "integer_ok t (consumers, weights)"
    using assms unfolding integer_ok_def shares_fit_def weight_fits_def fst_conv snd_conv by blast
  show ?thesis
    using iq.shares_total [OF ok] iq.share_nonneg [OF ok] iq.alloc_keys [OF ok] assms(3) by simp
qed

theorem allocate_integer_quantity_conserves_witness:
  "sum_list (map (\<lambda>c. dict_get_or (allocate_integer_quantity 7 [''A'', ''B''] [(''A'', 1/2), (''B'', 1/4)]) c 0)
     [''A'', ''B'']) = 7"
proof -
  have b: "(2::rat) powi (- 100) \<le> 1/4" "(1/2::rat) \<le> 2 powi 100"
    by (simp_all add: power_int_minus)
  have "\<forall>w \<in> snd ` set [(''A'', 1/2), (''B'', 1/4 :: pyfloat)]. w \<le> 0 \<or> 2 powi (- 100) \<le> w \<and> w \<le> 2 powi 100"
    using b by (simp add: order_trans [of "2 powi (- 100)" "1/4" "1/2"] order_trans [of "1/4" "1/2" "2 powi 100"])
  then show ?thesis using allocate_integer_quantity_conserves [of 7 "[''A'', ''B'']" "[(''A'', 1/2), (''B'', 1/4)]"] by simp
qed


definition demo_rules :: mapping_rules where
  "demo_rules =
     [(''SET'', [[\<lparr>mc_inventory_sku = ''BOX'', mc_quantity = 2\<rparr>, \<lparr>mc_inventory_sku = ''LID'', mc_quantity = 1\<rparr>]]),
      (''SOLO'', [[\<lparr>mc_inventory_sku = ''BOX'', mc_quantity = 1\<rparr>]])]"

definition demo_component_stock :: "(sku \<times> warehouse_id, warehouse_stock) dict" where
  "demo_component_stock =
     [((''BOX'', ''W1''), \<lparr>ws_country = Some ''US'', ws_total = 11\<rparr>),
      ((''LID'', ''W1''), \<lparr>ws_country = Some ''US'', ws_total = 3\<rparr>)]"

lemmas demo_mapping_defs = demo_rules_def demo_component_stock_def quantities_positive_def groups_disjoint_def


text \<open>
  The same for the local stock that step 4 deducts from a purchase: the total per
  commodity is the sum over the local warehouses and groups of what the scarcest component
  allows, and no warehouse's components are used beyond their stock.
\<close>

theorem mapped_stock_total_sound:
  assumes "rules \<noteq> []" "component_stock \<noteq> []" "wf_dict rules" "wf_dict component_stock"
    "\<forall>st \<in> snd ` set component_stock. ws_total st * (int (length rules) + 3) \<le> 2 ^ 51"
    "\<forall>(c, d) \<in> set velocity. weight_fits (fsum (map snd d))"
    "quantities_positive rules"
  defines "A \<equiv> build_component_allocation rules component_stock (local_weights_by_sku velocity) (Some [])"
  shows "(\<exists>res. compute_mapped_stock_total_by_sku rules component_stock (Some velocity) = Inr res \<and>
      (\<forall>c. dict_get_or res c 0 =
         sum_list (map (\<lambda>(c', w, g). if c' = c then assemblies A c w g else 0) (build_steps rules component_stock))))
    \<and> (groups_disjoint rules \<longrightarrow>
        (\<forall>p w. sum_list (map (used_by_rule A p w) rules) \<le> max 0 (stock_of component_stock p w)))"
proof -
  have fits: "allocation_fits rules component_stock (local_weights_by_sku velocity)"
    unfolding allocation_fits_def shares_fit_def by (intro conjI local_weights_fit assms)
  show ?thesis
    using mapped_stock_total_steps [OF fits build_steps_positive [OF assms(7)], where fixed = "Some []" and ?d0.0 = "[]"]
      used_within_stock [OF fits assms(7), where fixed = "Some []"] assms(1,2)
    unfolding A_def compute_mapped_stock_total_by_sku_def by (simp add: Let_def)
qed

theorem mapped_stock_total_sound_witness:
  "\<forall>p w. sum_list (map (used_by_rule
      (build_component_allocation demo_rules demo_component_stock (local_weights_by_sku [(''SOLO'', [])]) (Some []))
      p w) demo_rules) \<le> max 0 (stock_of demo_component_stock p w)"
  using mapped_stock_total_sound [of demo_rules demo_component_stock "[(''SOLO'', [])]"]
  by (simp add: demo_mapping_defs weight_fits_def fsum_def)

text \<open>
  Without that proviso the same units are counted twice. Two SKUs of one physical group
  (\<^verbatim>\<open>KIT-A\<close> once, \<^verbatim>\<open>KIT-B\<close> twice) in two groups of a rule satisfy the table's unique
  constraint, but after normalisation both groups draw on the same pool: ten units on the
  shelf are reported as fifteen assembled commodities.
\<close>

definition double_count_db :: engine_db where
  "double_count_db = (demo_alias_db [\<lparr>pig_id = 1, pig_name = ''Kit'', pig_enabled = True, pig_remark = None\<rparr>]
       [\<lparr>pia_group_id = 1, pia_sku = ''KIT-A''\<rparr>, \<lparr>pia_group_id = 1, pia_sku = ''KIT-B''\<rparr>])
     \<lparr>t_sku_mapping_rule := [\<lparr>smr_id = 1, smr_commodity_sku = ''C'', smr_enabled = True, smr_remark = None\<rparr>],
      t_sku_mapping_component :=
        [\<lparr>smc_id = 1, smc_rule_id = 1, smc_group_no = 1, smc_inventory_sku = ''KIT-A'', smc_quantity = 1\<rparr>,
         \<lparr>smc_id = 2, smc_rule_id = 1, smc_group_no = 2, smc_inventory_sku = ''KIT-B'', smc_quantity = 2\<rparr>],
      t_warehouse := [\<lparr>wh_id = ''L'', wh_name = ''Local'', wh_type = 1, wh_country = None, wh_replenish_site_raw = None\<rparr>],
      t_inventory_snapshot_latest :=
        [\<lparr>inv_commodity_sku = ''KIT-A'', inv_warehouse_id = ''L'', inv_country = None, inv_original_country = None,
          inv_available = 10, inv_reserved = 0\<rparr>]\<rparr>"

theorem shared_component_counted_twice:
  "let groups = Some (sku_to_group_key (load_physical_sku_resolver double_count_db));
       rules = load_active_mapping_rules double_count_db None groups;
       stock = load_inventory_totals_by_warehouse double_count_db [''KIT-A'', ''KIT-B''] None (Some LOCAL_WAREHOUSE_TYPES)
         None None groups
   in map (ws_total \<circ> snd) stock = [10] \<and> compute_mapped_stock_total_by_sku rules stock None = Inr [(''C'', 15)]"
  by code_simp

end
