(* ===== verification/Engine_Context.thy ===== *)
theory Engine_Context
  imports Sku_Mapping
begin

text \<open>
  \<^verbatim>\<open>engine/context.py\<close>: the values the steps hand to each other, and the loop they share:
  over every commodity and country of the velocity map, storing a result or skipping.
\<close>

record inventory_stock =
  is_available :: int
  is_reserved :: int
  is_in_transit :: int

definition stock_total :: "inventory_stock \<Rightarrow> int" where
  "stock_total st = is_available st + is_reserved st + is_in_transit st"

type_synonym 'a country_map = "(sku, (country, 'a) dict) dict"
type_synonym inventory_map = "inventory_stock country_map"

record local_stock =
  ls_available :: int
  ls_reserved :: int

definition local_total :: "local_stock \<Rightarrow> int" where
  "local_total st = ls_available st + ls_reserved st"

record engine_context =
  ec_country_qty :: "int country_map"
  ec_velocity :: "pyfloat country_map"
  ec_local_stock :: "(sku, local_stock) dict"
  ec_buffer_days :: int
  ec_safety_stock_days :: int

text \<open>
  \<^verbatim>\<open>for sku, country_map in m.items(): for country, v in country_map.items():\<close> with a body
  that may \<^verbatim>\<open>continue\<close> (\<open>None\<close>) or store \<^verbatim>\<open>result[sku][country]\<close>.
\<close>

definition country_loop :: "(sku \<Rightarrow> country \<Rightarrow> 'a \<Rightarrow> 'b option) \<Rightarrow> 'a country_map \<Rightarrow> 'b country_map" where
  "country_loop body m =
     foldl (\<lambda>d (sku, c, v). case body sku c v of None \<Rightarrow> d | Some x \<Rightarrow> dict_set2 sku c x d) []
       [(sku, c, v). (sku, country_map) \<leftarrow> m, (c, v) \<leftarrow> country_map]"

definition wf_country_map :: "'a country_map \<Rightarrow> bool" where
  "wf_country_map m \<longleftrightarrow> wf_dict m \<and> (\<forall>(sku, d) \<in> set m. wf_dict d)"

section \<open>Lemmas\<close>

lemma dict_get2_iff:
  assumes "wf_country_map m"
  shows "dict_get2 m s c = Some v \<longleftrightarrow> (\<exists>d. (s, d) \<in> set m \<and> (c, v) \<in> set d)"
proof -
  have wf: "wf_dict m" using assms by (simp add: wf_country_map_def)
  show ?thesis
  proof
    assume "dict_get2 m s c = Some v"
    then show "\<exists>d. (s, d) \<in> set m \<and> (c, v) \<in> set d"
      by (cases "dict_get m s") (auto simp: dict_get2_def dict_get_or_def dest: dict_get_in)
  next
    assume "\<exists>d. (s, d) \<in> set m \<and> (c, v) \<in> set d"
    then obtain d where d: "(s, d) \<in> set m" "(c, v) \<in> set d" by blast
    then have "dict_get m s = Some d" "wf_dict d"
      using wf assms by (auto simp: dict_get_eq_Some_iff wf_country_map_def)
    then show "dict_get2 m s c = Some v" using d(2) by (simp add: dict_get2_def dict_get_or_def dict_get_eq_Some_iff)
  qed
qed

lemma country_loop_steps:
  assumes "\<And>v v'. (s, c, v) \<in> set rows \<Longrightarrow> (s, c, v') \<in> set rows \<Longrightarrow> v = v'"
  shows "dict_get2 (foldl (\<lambda>d (s, c, v). case body s c v of None \<Rightarrow> d | Some x \<Rightarrow> dict_set2 s c x d) d0 rows) s c = Some x
     \<longleftrightarrow> (\<exists>v. (s, c, v) \<in> set rows \<and> body s c v = Some x) \<or>
        ((\<forall>v. (s, c, v) \<in> set rows \<longrightarrow> body s c v = None) \<and> dict_get2 d0 s c = Some x)"
  using assms
proof (induction rows arbitrary: d0)
  case (Cons r rows)
  obtain s' c' v' where r: "r = (s', c', v')" by (metis prod_cases3)
  let ?d1 = "case body s' c' v' of None \<Rightarrow> d0 | Some x \<Rightarrow> dict_set2 s' c' x d0"
  note IH = Cons.IH [of ?d1, OF Cons.prems [OF list.set_intros(2) list.set_intros(2)]]
  show ?case
  proof (cases "s' = s \<and> c' = c")
    case True
    then have "v = v'" if "(s, c, v) \<in> set (r # rows)" for v using Cons.prems [OF that, of v'] r by simp
    then show ?thesis using IH True r by (auto simp: dict_get2_set2 split: option.splits)
  next
    case False
    then have "dict_get2 ?d1 s c = dict_get2 d0 s c" by (auto simp: dict_get2_set2 split: option.split)
    then show ?thesis using IH False r by auto
  qed
qed simp

lemma country_loop_get2:
  assumes "wf_country_map m"
  shows "dict_get2 (country_loop body m) s c =
     (case dict_get2 m s c of None \<Rightarrow> None | Some v \<Rightarrow> body s c v)"
proof -
  let ?rows = "[(sku, c, v). (sku, country_map) \<leftarrow> m, (c, v) \<leftarrow> country_map]"
  have mem: "(s, c, v) \<in> set ?rows \<longleftrightarrow> dict_get2 m s c = Some v" for v
    unfolding dict_get2_iff [OF assms] by auto
  have "dict_get2 (country_loop body m) s c = Some x \<longleftrightarrow>
      (\<exists>v. dict_get2 m s c = Some v \<and> body s c v = Some x)" for x
    unfolding country_loop_def using country_loop_steps [of s c ?rows body "[]" x] unfolding mem by simp
  note iff = this
  show ?thesis
  proof (cases "dict_get2 m s c")
    case None
    then show ?thesis using iff by (cases "dict_get2 (country_loop body m) s c") auto
  next
    case (Some v)
    then show ?thesis
      using iff by (cases "body s c v"; cases "dict_get2 (country_loop body m) s c") auto
  qed
qed

text \<open>The loop's own result is well formed whatever it ran over.\<close>

lemma wf_dict_set2:
  assumes "wf_country_map d"
  shows "wf_country_map (dict_set2 s c x d)"
proof -
  have wf: "wf_dict d" and inner: "\<And>s e. (s, e) \<in> set d \<Longrightarrow> wf_dict e" using assms by (auto simp: wf_country_map_def)
  have "wf_dict (dict_get_or d s [])"
    using inner by (auto simp: dict_get_or_def dest: dict_get_in split: option.split)
  then have x: "wf_dict (dict_set c x (dict_get_or d s []))" by (rule wf_dict_set)
  have "wf_dict e" if e: "(s', e) \<in> set (dict_set2 s c x d)" for s' e
  proof -
    have "e \<in> snd ` set (dict_set2 s c x d)" using e by force
    then have "e = dict_set c x (dict_get_or d s []) \<or> e \<in> snd ` set d"
      using values_dict_set [of s _ d] unfolding dict_set2_def by blast
    then show ?thesis using x inner by force
  qed
  then show ?thesis using wf by (auto simp: wf_country_map_def dict_set2_def)
qed

lemma wf_country_loop: "wf_country_map (country_loop body m)"
proof -
  have "wf_country_map (foldl (\<lambda>d (s, c, v). case body s c v of None \<Rightarrow> d | Some x \<Rightarrow> dict_set2 s c x d) d0 rows)"
    if "wf_country_map d0" for d0 rows
    using that
  proof (induction rows arbitrary: d0)
    case (Cons r rows)
    obtain s c v where r: "r = (s, c, v)" by (metis prod_cases3)
    show ?case using Cons.IH [of "case body s c v of None \<Rightarrow> d0 | Some x \<Rightarrow> dict_set2 s c x d0"] Cons.prems wf_dict_set2 [of d0]
      by (cases "body s c v") (simp_all add: r)
  qed simp
  moreover have "wf_country_map []" by (simp add: wf_country_map_def)
  ultimately show ?thesis unfolding country_loop_def by blast
qed

end
