(* ===== verification/Step2_Sale_Days.thy ===== *)
theory Step2_Sale_Days
  imports Engine_Context
begin

text \<open>
  \<^verbatim>\<open>engine/step2_sale_days.py\<close>: the overseas stock of every commodity and country (own
  third-party stock, assembled stock through SKU mapping, stock in transit) and the days it
  lasts at the current velocity.
\<close>

record oversea_stock =
  os_available :: int
  os_reserved :: int

abbreviation no_oversea :: oversea_stock where
  "no_oversea \<equiv> \<lparr>os_available = 0, os_reserved = 0\<rparr>"

text \<open>\<^verbatim>\<open>setdefault(key, zeros)\<close> followed by the two \<^verbatim>\<open>+=\<close>.\<close>

definition add_oversea ::
  "sku \<times> country \<Rightarrow> int \<Rightarrow> int \<Rightarrow> (sku \<times> country, oversea_stock) dict \<Rightarrow> (sku \<times> country, oversea_stock) dict" where
  "add_oversea key avail reserv result =
     (let current = dict_get_or result key no_oversea
      in dict_set key \<lparr>os_available = os_available current + avail, os_reserved = os_reserved current + reserv\<rparr> result)"

text \<open>
  One row of the joined tables per stock entry whose warehouse has a country. The two sums of
  the query are computed over the same groups.
\<close>

definition third_party_rows :: "engine_db \<Rightarrow> (third_party_inventory_current \<times> country) list" where
  "third_party_rows db =
     [(i, c). i \<leftarrow> t_third_party_inventory_current db, w \<leftarrow> t_third_party_warehouse db,
        tpw_id w = tpi_warehouse_id i, c \<leftarrow> (case tpw_country w of None \<Rightarrow> [] | Some c \<Rightarrow> [c])]"

definition load_third_party_inventory ::
  "engine_db \<Rightarrow> sku list option \<Rightarrow> country list \<Rightarrow> (sku \<times> country, oversea_stock) dict" where
  "load_third_party_inventory db commodity_skus eu_countries =
     (let rows = filter (\<lambda>(i, c). sql_in_opt (tpi_commodity_sku i) commodity_skus) (third_party_rows db);
          key = (\<lambda>(i, c). (tpi_commodity_sku i, c));
          avail = group_sum key (\<lambda>(i, c). tpi_available i) rows;
          reserv = group_sum key (\<lambda>(i, c). tpi_reserved i) rows
      in foldl (\<lambda>result ((sku, c), a).
            case apply_eu_mapping (Some c) eu_countries of
              None \<Rightarrow> result
            | Some mapped_country \<Rightarrow>
                if \<not> reportable mapped_country then result
                else add_oversea (sku, mapped_country) a (dict_get_or reserv (sku, c) 0) result)
          [] avail)"

definition third_party_warehouse_key :: "int \<Rightarrow> warehouse_id" where
  "third_party_warehouse_key warehouse_id = ''third_party:'' @ int_to_string warehouse_id"

definition load_third_party_component_inventory_by_warehouse ::
  "engine_db \<Rightarrow> sku list \<Rightarrow> (sku, string) dict option \<Rightarrow> country list \<Rightarrow> (sku \<times> warehouse_id, warehouse_stock) dict" where
  "load_third_party_component_inventory_by_warehouse db inventory_skus groups eu_countries =
     (if inventory_skus = [] then []
      else
        let rows = group_sum (\<lambda>(i, c). (tpi_commodity_sku i, tpi_warehouse_id i, c))
              (\<lambda>(i, c). tpi_available i + tpi_reserved i)
              (filter (\<lambda>(i, c). tpi_commodity_sku i \<in> set inventory_skus) (third_party_rows db));
            sku_groups = (case groups of None \<Rightarrow> [] | Some d \<Rightarrow> d)
        in foldl (\<lambda>result ((sku, warehouse_id, c), total_qty).
              case apply_eu_mapping (Some c) eu_countries of
                None \<Rightarrow> result
              | Some mapped_country \<Rightarrow>
                  if \<not> reportable mapped_country then result
                  else add_warehouse_stock (dict_get_or sku_groups sku sku, third_party_warehouse_key warehouse_id)
                         \<lparr>ws_country = Some mapped_country, ws_total = total_qty\<rparr> result)
            [] rows)"

text \<open>
  The outer join with the \<^verbatim>\<open>OR\<close> condition: a record without target warehouse counts, one
  with a target warehouse counts when the warehouse exists and is not local (a missing
  warehouse makes the condition \<^verbatim>\<open>NULL\<close>).
\<close>

definition in_transit_rows :: "engine_db \<Rightarrow> (sku \<times> country \<times> int) list" where
  "in_transit_rows db =
     [(iti_commodity_sku i, c, iti_goods i).
        i \<leftarrow> t_in_transit_item db, r \<leftarrow> t_in_transit_record db,
        itr_saihu_out_record_id r = iti_saihu_out_record_id i, itr_is_in_transit r,
        c \<leftarrow> (case itr_target_country r of None \<Rightarrow> [] | Some c \<Rightarrow> [c]),
        u \<leftarrow> (case itr_target_warehouse_id r of None \<Rightarrow> [()]
              | Some wid \<Rightarrow> [(). w \<leftarrow> t_warehouse db, wh_id w = wid, wh_type w \<notin> set LOCAL_WAREHOUSE_TYPES])]"

definition load_in_transit :: "engine_db \<Rightarrow> sku list option \<Rightarrow> (sku \<times> country, int) dict" where
  "load_in_transit db commodity_skus =
     (let rows = group_sum (\<lambda>(sku, c, goods). (sku, c)) (\<lambda>(sku, c, goods). goods)
            (filter (\<lambda>(sku, c, goods). sql_in_opt sku commodity_skus) (in_transit_rows db))
      in foldl (\<lambda>result ((sku, c), goods_total).
            if \<not> reportable c then result else dict_add (sku, c) goods_total result) [] rows)"

text \<open>The union of two key sets has no order; the model takes the first map's keys first.\<close>

definition merge_inventory ::
  "(sku \<times> country, oversea_stock) dict \<Rightarrow> (sku \<times> country, int) dict \<Rightarrow> inventory_map" where
  "merge_inventory oversea in_transit =
     foldl (\<lambda>merged (sku, c).
              let inv = dict_get_or oversea (sku, c) no_oversea;
                  transit = dict_get_or in_transit (sku, c) 0
              in dict_set2 sku c \<lparr>is_available = os_available inv, is_reserved = os_reserved inv, is_in_transit = transit\<rparr> merged)
       [] (dedup (dict_keys oversea @ dict_keys in_transit))"

definition compute_sale_days :: "pyfloat country_map \<Rightarrow> inventory_map \<Rightarrow> pyfloat country_map" where
  "compute_sale_days velocity inventory =
     country_loop (\<lambda>sku c v.
        if \<not> reportable c then None
        else if v \<le> 0 then None
        else case dict_get2 inventory sku c of
               None \<Rightarrow> None
             | Some stock \<Rightarrow> Some (fdiv (float_of_int (stock_total stock)) v)) velocity"

subsection \<open>The step\<close>

definition component_query_skus :: "(string, sku list) dict option \<Rightarrow> sku list \<Rightarrow> sku list" where
  "component_query_skus members component_skus =
     sorted_set (concat (map (\<lambda>component_sku.
       case members of None \<Rightarrow> [component_sku]
       | Some ms \<Rightarrow> dict_get_or ms component_sku [component_sku]) component_skus))"

text \<open>
  The stock assembled from components: per warehouse, and for a country with components in
  transit that have no target warehouse, from the pooled components of the whole country.
\<close>

definition mapped_oversea_stock ::
  "engine_db \<Rightarrow> pyfloat country_map \<Rightarrow> mapping_rules \<Rightarrow> sku list \<Rightarrow> (sku, string) dict option \<Rightarrow>
   (string, sku list) dict option \<Rightarrow> country list \<Rightarrow> (sku \<times> country, int) dict res" where
  "mapped_oversea_stock db velocity rules component_skus groups members eu_countries =
     (let query_skus = component_query_skus members component_skus;
          component_third_party_inventory =
            load_third_party_component_inventory_by_warehouse db query_skus groups eu_countries;
          component_transit =
            load_in_transit_totals_by_warehouse db query_skus None None None (Some LOCAL_WAREHOUSE_TYPES) groups;
          component_country_transit = load_in_transit_totals_by_country db query_skus groups;
          warehouse_component_stock = merge_warehouse_stock [component_third_party_inventory, component_transit]
      in bind_res (compute_mapped_stock_by_country rules warehouse_component_stock (Some velocity))
           (\<lambda>mapped.
              if component_country_transit = [] then return mapped
              else
                let country_component_stock =
                      aggregate_component_stock_by_country warehouse_component_stock component_country_transit;
                    country_level_countries = map (\<lambda>((sku, c), q). c) component_country_transit
                in bind_res (compute_mapped_stock_by_country rules country_component_stock (Some velocity))
                     (\<lambda>country_mapped.
                        return (foldl (\<lambda>d (key, quantity). dict_set key quantity d)
                          (filter (\<lambda>((sku, c), quantity). c \<notin> set country_level_countries) mapped)
                          (filter (\<lambda>((sku, c), quantity). c \<in> set country_level_countries) country_mapped)))))"

definition add_mapped_stock ::
  "(sku \<times> country, oversea_stock) dict \<Rightarrow> (sku \<times> country, int) dict \<Rightarrow> (sku \<times> country, oversea_stock) dict" where
  "add_mapped_stock oversea mapped = foldl (\<lambda>d (key, quantity). add_oversea key quantity 0 d) oversea mapped"

definition run_step2 ::
  "engine_db \<Rightarrow> pyfloat country_map \<Rightarrow> sku list option \<Rightarrow> (sku, string) dict option \<Rightarrow>
   (string, sku list) dict option \<Rightarrow> (pyfloat country_map \<times> inventory_map) res" where
  "run_step2 db velocity commodity_skus groups members =
     bind_res (load_eu_countries (map_option gc_eu_countries (t_global_config db)))
       (\<lambda>eu_countries.
          let oversea = load_third_party_inventory db commodity_skus eu_countries;
              in_transit = load_in_transit db commodity_skus;
              rules = load_active_mapping_rules db commodity_skus groups;
              component_skus = component_skus_for_rules rules
          in bind_res (if component_skus = [] then return oversea
                       else bind_res (mapped_oversea_stock db velocity rules component_skus groups members eu_countries)
                              (\<lambda>mapped. return (add_mapped_stock oversea mapped)))
               (\<lambda>oversea.
                  let inventory = merge_inventory oversea in_transit;
                      sale_days = compute_sale_days velocity inventory
                  in return (sale_days, inventory)))"

section \<open>Lemmas\<close>

lemma foldl_dict_set2_keys:
  "dict_get2 (foldl (\<lambda>m (s, k). dict_set2 s k (f s k) m) d0 keys) s c =
     (if (s, c) \<in> set keys then Some (f s c) else dict_get2 d0 s c)"
proof (induction keys arbitrary: d0)
  case (Cons key keys)
  then show ?case by (cases key) (auto simp: dict_get2_set2)
qed simp

lemma merge_inventory_get2:
  "dict_get2 (merge_inventory oversea in_transit) sku c =
     (if dict_mem (sku, c) oversea \<or> dict_mem (sku, c) in_transit
      then let inv = dict_get_or oversea (sku, c) no_oversea
           in Some \<lparr>is_available = os_available inv, is_reserved = os_reserved inv,
                    is_in_transit = dict_get_or in_transit (sku, c) 0\<rparr>
      else None)"
proof -
  let ?val = "\<lambda>sku c. let inv = dict_get_or oversea (sku, c) no_oversea
     in \<lparr>is_available = os_available inv, is_reserved = os_reserved inv, is_in_transit = dict_get_or in_transit (sku, c) 0\<rparr>"
  from foldl_dict_set2_keys [of ?val "[]" "dedup (dict_keys oversea @ dict_keys in_transit)" sku c] show ?thesis
    by (simp add: merge_inventory_def dict_mem_def dict_keys_def Let_def)
qed

lemma filtered_accumulate_get:
  fixes val :: "'r \<Rightarrow> int"
  shows "dict_get_or (foldl (\<lambda>d r. if \<not> ok r then d else dict_add (key r) (val r) d) d0 rows) k 0 =
     dict_get_or d0 k 0 + sum_list (map val (filter (\<lambda>r. ok r \<and> key r = k) rows))"
  by (induction rows arbitrary: d0) (auto simp: dict_get_or_add)

lemma filtered_accumulate_keys:
  "fst ` set (foldl (\<lambda>d r. if \<not> ok r then d else dict_add (key r) (val r) d) d0 rows) =
     fst ` set d0 \<union> key ` {r \<in> set rows. ok r}"
  by (induction rows arbitrary: d0) auto

text \<open>Grouped sums re-read under a condition on the key are the sums over the rows that meet it.\<close>

lemma group_sum_filter:
  fixes val :: "'r \<Rightarrow> int"
  shows "sum_list (map snd (filter (\<lambda>(k, v). P k) (group_sum key val rows))) =
     sum_list (map val (filter (\<lambda>r. P (key r)) rows))"
proof -
  have "sum_list (map snd (filter (\<lambda>(k, v). P k) (foldl (\<lambda>d r. dict_add (key r) (val r) d) d0 rows))) =
      sum_list (map snd (filter (\<lambda>(k, v). P k) d0)) + sum_list (map val (filter (\<lambda>r. P (key r)) rows))" for d0
    by (induction rows arbitrary: d0) (auto simp: sum_filtered_dict_add)
  from this [of "[]"] show ?thesis by (simp add: group_sum_def)
qed

lemma keys_dict_add: "map fst (dict_add k x d) = (if k \<in> fst ` set d then map fst d else map fst d @ [k])"
  by (simp add: dict_add_def dict_set_def update_keys)

lemma group_sum_same_keys: "map fst (group_sum key f rows) = map fst (group_sum key g rows)"
proof -
  have "map fst (foldl (\<lambda>d r. dict_add (key r) (f r) d) d rows) = map fst (foldl (\<lambda>d r. dict_add (key r) (g r) d) e rows)"
    if "map fst d = map fst e" for d e
    using that
  proof (induction rows arbitrary: d e)
    case (Cons r rows)
    have "fst ` set d = fst ` set e" using arg_cong [OF Cons.prems, of set] by simp
    then have "map fst (dict_add (key r) (f r) d) = map fst (dict_add (key r) (g r) e)"
      unfolding keys_dict_add using Cons.prems by simp
    then show ?case unfolding foldl_Cons by (rule Cons.IH)
  qed simp
  then show ?thesis by (simp add: group_sum_def)
qed

lemma sum_other_group:
  fixes f g :: "'r \<Rightarrow> int"
  shows "sum_list (map (\<lambda>kv. dict_get_or (group_sum key g rows) (fst kv) 0) (filter (\<lambda>(k, v). P k) (group_sum key f rows))) =
     sum_list (map g (filter (\<lambda>r. P (key r)) rows))"
proof -
  let ?F = "group_sum key f rows" and ?G = "group_sum key g rows"
  have "map (\<lambda>kv. dict_get_or ?G (fst kv) 0) (filter (\<lambda>(k, v). P k) D) = map (\<lambda>k. dict_get_or ?G k 0) (filter P (map fst D))"
    for D by (induction D) auto
  note m = this
  have "sum_list (map (\<lambda>kv. dict_get_or ?G (fst kv) 0) (filter (\<lambda>(k, v). P k) ?F)) =
      sum_list (map (\<lambda>kv. dict_get_or ?G (fst kv) 0) (filter (\<lambda>(k, v). P k) ?G))"
    unfolding m group_sum_same_keys [of key f rows g] ..
  also have "map (\<lambda>kv. dict_get_or ?G (fst kv) 0) (filter (\<lambda>(k, v). P k) ?G) = map snd (filter (\<lambda>(k, v). P k) ?G)"
    by (rule map_cong [OF refl]) (auto simp: dict_get_or_def dict_get_eq_Some_iff [THEN iffD2, OF group_sum_wf])
  finally show ?thesis by (simp only: group_sum_filter)
qed

lemma group_sum_one_key:
  fixes val :: "'r \<Rightarrow> int"
  shows "sum_list (map snd (filter (\<lambda>kv. fst kv = k) (group_sum key val rows))) =
     sum_list (map val (filter (\<lambda>r. key r = k) rows))"
  using group_sum_filter [of "\<lambda>k'. k' = k" key val rows] by (simp add: case_prod_unfold)

definition goods_in_transit :: "engine_db \<Rightarrow> sku \<Rightarrow> country \<Rightarrow> int" where
  "goods_in_transit db sku c = sum_list (map (\<lambda>(s, k, goods). goods) (filter (\<lambda>(s, k, goods). s = sku \<and> k = c) (in_transit_rows db)))"

lemma load_in_transit_get:
  "dict_get_or (load_in_transit db commodity_skus) (sku, c) 0 =
     (if reportable c \<and> sql_in_opt sku commodity_skus then goods_in_transit db sku c else 0)"
proof -
  let ?rows = "filter (\<lambda>(sku, c, goods). sql_in_opt sku commodity_skus) (in_transit_rows db)"
  let ?key = "\<lambda>(sku, c, goods). (sku, c)" and ?val = "\<lambda>(sku, c, goods). goods"
  have "load_in_transit db commodity_skus =
      foldl (\<lambda>d r. if \<not> reportable (snd (fst r)) then d else dict_add (fst r) (snd r) d) [] (group_sum ?key ?val ?rows)"
    by (simp add: load_in_transit_def Let_def case_prod_unfold cong: if_cong)
  then have "dict_get_or (load_in_transit db commodity_skus) (sku, c) 0 =
      sum_list (map snd (filter (\<lambda>r. reportable (snd (fst r)) \<and> fst r = (sku, c)) (group_sum ?key ?val ?rows)))"
    using filtered_accumulate_get [of "\<lambda>r. reportable (snd (fst r))" fst snd "[]"] by simp
  also have "\<dots> = (if reportable c then sum_list (map snd (filter (\<lambda>r. fst r = (sku, c)) (group_sum ?key ?val ?rows))) else 0)"
  proof -
    have "filter (\<lambda>r. reportable (snd (fst r)) \<and> fst r = (sku, c)) xs = (if reportable c then filter (\<lambda>r. fst r = (sku, c)) xs else [])"
      for xs :: "((sku \<times> country) \<times> int) list" by (induction xs) auto
    then show ?thesis by simp
  qed
  also have "\<dots> = (if reportable c then sum_list (map ?val (filter (\<lambda>r. ?key r = (sku, c)) ?rows)) else 0)"
    by (simp only: group_sum_one_key)
  also have "filter (\<lambda>r. ?key r = (sku, c)) ?rows =
      (if sql_in_opt sku commodity_skus then filter (\<lambda>(s, k, goods). s = sku \<and> k = c) (in_transit_rows db) else [])"
    by (induction "in_transit_rows db") (auto simp: filter_empty_conv intro!: filter_cong)
  finally show ?thesis by (simp add: goods_in_transit_def)
qed

subsection \<open>Own overseas stock\<close>

definition third_party_in :: "engine_db \<Rightarrow> country list \<Rightarrow> sku \<Rightarrow> country \<Rightarrow> (third_party_inventory_current \<times> country) list" where
  "third_party_in db eu_countries sku c =
     filter (\<lambda>(i, k). tpi_commodity_sku i = sku \<and> apply_eu_mapping (Some k) eu_countries = Some c) (third_party_rows db)"

lemma add_oversea_get:
  "dict_get_or (add_oversea key a r d) k no_oversea =
     (if k = key then \<lparr>os_available = os_available (dict_get_or d k no_oversea) + a,
                       os_reserved = os_reserved (dict_get_or d k no_oversea) + r\<rparr>
      else dict_get_or d k no_oversea)"
  by (simp add: add_oversea_def Let_def dict_get_or_set)

lemma add_oversea_steps:
  fixes entries :: "('e \<times> int) list"
  assumes "\<And>e a d. step d (e, a) =
     (case target e of None \<Rightarrow> d | Some key \<Rightarrow> add_oversea key a (other e) d)"
  shows "os_available (dict_get_or (foldl step d0 entries) k no_oversea) = os_available (dict_get_or d0 k no_oversea) +
       sum_list (map snd (filter (\<lambda>(e, a). target e = Some k) entries))
     \<and> os_reserved (dict_get_or (foldl step d0 entries) k no_oversea) = os_reserved (dict_get_or d0 k no_oversea) +
       sum_list (map (\<lambda>ea. other (fst ea)) (filter (\<lambda>(e, a). target e = Some k) entries))"
proof (induction entries arbitrary: d0)
  case (Cons ea entries)
  obtain e a where "ea = (e, a)" by (cases ea)
  then show ?case using Cons.IH [of "step d0 ea"] by (auto simp: assms add_oversea_get split: option.splits)
qed simp

lemma load_third_party_get:
  fixes db :: engine_db and eu_countries :: "country list"
  assumes "reportable c" "sql_in_opt sku commodity_skus"
  defines "st \<equiv> dict_get_or (load_third_party_inventory db commodity_skus eu_countries) (sku, c) no_oversea"
  shows "os_available st = sum_list (map (\<lambda>(i, k). tpi_available i) (third_party_in db eu_countries sku c))
     \<and> os_reserved st = sum_list (map (\<lambda>(i, k). tpi_reserved i) (third_party_in db eu_countries sku c))"
proof -
  let ?rows = "filter (\<lambda>(i, c). sql_in_opt (tpi_commodity_sku i) commodity_skus) (third_party_rows db)"
  let ?key = "\<lambda>(i, c). (tpi_commodity_sku i, c)"
  let ?target = "\<lambda>(s, k). case apply_eu_mapping (Some k) eu_countries of None \<Rightarrow> None
     | Some m \<Rightarrow> if \<not> reportable m then None else Some (s, m)"
  let ?av = "group_sum ?key (\<lambda>(i, c). tpi_available i) ?rows" and ?rs = "group_sum ?key (\<lambda>(i, c). tpi_reserved i) ?rows"
  let ?step = "\<lambda>result ((sku, c), a). case apply_eu_mapping (Some c) eu_countries of None \<Rightarrow> result
     | Some m \<Rightarrow> if \<not> reportable m then result else add_oversea (sku, m) a (dict_get_or ?rs (sku, c) 0) result"
  have step: "?step d (e, a) = (case ?target e of None \<Rightarrow> d | Some key \<Rightarrow> add_oversea key a (dict_get_or ?rs e 0) d)" for e a d
    by (cases e) (simp split: option.split)
  have eq: "load_third_party_inventory db commodity_skus eu_countries = foldl ?step [] ?av"
    by (simp add: load_third_party_inventory_def Let_def)
  have rows: "filter (\<lambda>r. ?target (?key r) = Some (sku, c)) ?rows = third_party_in db eu_countries sku c"
    unfolding third_party_in_def filter_filter
    using assms(1,2) by (intro filter_cong) (auto split: option.splits if_splits)
  show ?thesis
    unfolding st_def eq using add_oversea_steps [where step = ?step and target = ?target and other = "\<lambda>e. dict_get_or ?rs e 0" and ?d0.0 = "[]" and entries = ?av and k = "(sku, c)", OF step]
      group_sum_filter [of "\<lambda>e. ?target e = Some (sku, c)" ?key "\<lambda>(i, c). tpi_available i" ?rows]
      sum_other_group [of ?key "\<lambda>(i, c). tpi_reserved i" ?rows "\<lambda>e. ?target e = Some (sku, c)" "\<lambda>(i, c). tpi_available i"]
    unfolding rows by simp
qed

subsection \<open>Assembled stock\<close>

lemma mapped_by_country_wf:
  assumes "compute_mapped_stock_by_country rules component_stock velocity = Inr res"
  shows "wf_dict res"
proof (cases "rules = [] \<or> component_stock = []")
  case True
  then show ?thesis using assms by (auto simp: compute_mapped_stock_by_country_def)
next
  case False
  define A where "A = build_component_allocation rules component_stock
     (case velocity of None \<Rightarrow> [] | Some v \<Rightarrow> country_weights_by_sku v) None"
  have "fold_res (add_country_buildable component_stock A) [] (build_steps rules component_stock) = Inr res"
    using assms False by (auto simp: compute_mapped_stock_by_country_def Let_def A_def)
  then show ?thesis
    by (rule fold_res_invariant)
      (auto simp: add_country_buildable_def bind_res_Inr_iff split: option.splits if_splits)
qed

lemma mapped_oversea_stock_wf:
  assumes "mapped_oversea_stock db velocity rules component_skus groups members eu_countries = Inr mapped"
  shows "wf_dict mapped"
proof -
  have set: "wf_dict (foldl (\<lambda>d (key, quantity). dict_set key quantity d) d kvs)" if "wf_dict d"
    for d :: "(sku \<times> country, int) dict" and kvs
    using that by (induction kvs arbitrary: d) auto
  show ?thesis
    using assms by (auto simp: mapped_oversea_stock_def Let_def bind_res_Inr_iff intro!: set wf_dict_filter
        dest: mapped_by_country_wf split: if_splits)
qed

lemma add_mapped_stock_get:
  assumes "wf_dict mapped"
  shows "dict_get_or (add_mapped_stock oversea mapped) key no_oversea =
     \<lparr>os_available = os_available (dict_get_or oversea key no_oversea) + dict_get_or mapped key 0,
      os_reserved = os_reserved (dict_get_or oversea key no_oversea)\<rparr>"
  using assms unfolding add_mapped_stock_def
proof (induction mapped arbitrary: oversea)
  case (Cons kv mapped)
  obtain k q where kv: "kv = (k, q)" by (cases kv)
  have "dict_get mapped k = None" using Cons.prems kv by (simp add: dict_get_None_iff)
  then show ?case using Cons.IH [of "add_oversea k q 0 oversea"] Cons.prems kv
    by (simp add: add_oversea_get) (auto simp: dict_get_or_def dict_get_Cons)
qed (simp add: dict_get_or_def)

section \<open>Properties\<close>


definition demo_stock_db :: engine_db where
  "demo_stock_db = (demo_alias_db [] [])
     \<lparr>t_third_party_warehouse := [\<lparr>tpw_id = 3, tpw_name = ''NJ'', tpw_country = Some ''US''\<rparr>],
      t_third_party_inventory_current :=
        [\<lparr>tpi_id = 1, tpi_warehouse_id = 3, tpi_commodity_sku = ''A'', tpi_available = 5, tpi_reserved = 1, tpi_source_batch_id = None, tpi_last_operation = ''manual''\<rparr>],
      t_in_transit_record :=
        [\<lparr>itr_saihu_out_record_id = ''R'', itr_target_warehouse_id = None, itr_target_country = Some ''US'',
          itr_original_target_country = None, itr_is_in_transit = True, itr_last_seen_at = 0, itr_remark = None\<rparr>],
      t_in_transit_item := [\<lparr>iti_saihu_out_record_id = ''R'', iti_commodity_sku = ''A'', iti_goods = 4\<rparr>]\<rparr>"


end
