(* ===== verification/Step3_Country_Qty.thy ===== *)
theory Step3_Country_Qty
  imports Engine_Context
begin

text \<open>
  \<^verbatim>\<open>engine/step3_country_qty.py\<close>: the restock quantity of a country, the target stock at the
  current velocity less what is there, rounded up to whole units.
\<close>

definition raw_restock :: "int \<Rightarrow> pyfloat \<Rightarrow> int \<Rightarrow> pyfloat" where
  "raw_restock target_days v stock = fsub (fmul (float_of_int target_days) v) (float_of_int stock)"

definition compute_country_qty :: "pyfloat country_map \<Rightarrow> inventory_map \<Rightarrow> int \<Rightarrow> int country_map" where
  "compute_country_qty velocity inventory target_days =
     country_loop (\<lambda>sku c v.
        if \<not> reportable c then None
        else if v \<le> 0 then None
        else case dict_get2 inventory sku c of
               None \<Rightarrow> None
             | Some stock \<Rightarrow>
                 let raw = raw_restock target_days v (stock_total stock)
                 in if raw \<le> 0 then None else Some \<lceil>raw\<rceil>) velocity"

section \<open>Lemmas\<close>

text \<open>The target stock as the float product rounds it.\<close>

abbreviation target_stock :: "int \<Rightarrow> pyfloat \<Rightarrow> pyfloat" where
  "target_stock target_days v \<equiv> fmul (float_of_int target_days) v"

lemma raw_restock_exact:
  assumes "0 \<le> target_days" "0 \<le> v" "0 \<le> stock" "stock \<le> 2 ^ 53" "target_stock target_days v \<le> 2 ^ 53"
  shows "raw_restock target_days v stock > 0 \<longleftrightarrow> stock < \<lceil>target_stock target_days v\<rceil>"
    and "raw_restock target_days v stock > 0 \<Longrightarrow> \<lceil>raw_restock target_days v stock\<rceil> = \<lceil>target_stock target_days v\<rceil> - stock"
proof -
  let ?x = "float_of_int target_days * v" and ?T = "target_stock target_days v"
  have x: "0 \<le> ?x" using assms(1,2) by (simp add: float_of_int_def fl_nonneg)
  have T: "?T = fl ?x" by (simp add: fmul_def)
  have s: "float_of_int stock = of_int stock" using assms(3,4) by (simp add: float_of_int_def fl_of_int)
  have raw: "raw_restock target_days v stock = fl (?T - of_int stock)" by (simp add: raw_restock_def fsub_def s)
  have less: "raw_restock target_days v stock > 0 \<longleftrightarrow> of_int stock < ?T"
  proof (cases "of_int stock \<le> ?T")
    case True
    then have "raw_restock target_days v stock = ?T - of_int stock"
      using assms x unfolding raw T by (intro fl_diff_int) simp_all
    then show ?thesis by simp
  next
    case False
    then have "raw_restock target_days v stock \<le> fl 0" unfolding raw by (intro fl_mono) simp
    then show ?thesis using False by simp
  qed
  then show "raw_restock target_days v stock > 0 \<longleftrightarrow> stock < \<lceil>?T\<rceil>" by (simp add: less_ceiling_iff)
  assume "raw_restock target_days v stock > 0"
  then have "of_int stock \<le> ?T" using less by simp
  then have "raw_restock target_days v stock = ?T - of_int stock"
    using assms x unfolding raw T by (intro fl_diff_int) simp_all
  then show "\<lceil>raw_restock target_days v stock\<rceil> = \<lceil>?T\<rceil> - stock" by simp
qed

section \<open>Properties\<close>

text \<open>
  C17: the restock quantity of a commodity and country. The floating-point subtraction of the
  stock is exact (Sterbenz), so the code's \<^verbatim>\<open>ceil(days * v - stock)\<close> is the integer
  \<^verbatim>\<open>ceil(days * v) - stock\<close>: a quantity is stored exactly when this is positive, and it is
  this number; countries without velocity or without a stock record get none.
\<close>

theorem step3_country_qty_correct:
  assumes "wf_country_map velocity" "reportable c" "0 \<le> target_days"
    "dict_get2 velocity sku c = Some v" "0 < v" "target_stock target_days v \<le> 2 ^ 53"
    "\<forall>st. dict_get2 inventory sku c = Some st \<longrightarrow> 0 \<le> stock_total st \<and> stock_total st \<le> 2 ^ 53"
  shows "dict_get2 (compute_country_qty velocity inventory target_days) sku c =
     (case dict_get2 inventory sku c of None \<Rightarrow> None
      | Some st \<Rightarrow> let qty = \<lceil>target_stock target_days v\<rceil> - stock_total st in if qty > 0 then Some qty else None)"
proof (cases "dict_get2 inventory sku c")
  case None
  then show ?thesis using assms by (simp add: compute_country_qty_def country_loop_get2)
next
  case (Some st)
  then have "0 \<le> stock_total st" "stock_total st \<le> 2 ^ 53" using assms(7) by auto
  note raw = raw_restock_exact [OF assms(3) less_imp_le [OF assms(5)] this assms(6)]
  show ?thesis using Some assms raw
    by (auto simp: compute_country_qty_def country_loop_get2 Let_def not_le)
qed

theorem step3_country_qty_correct_witness:
  "dict_get2 (compute_country_qty [(''A'', [(''US'', 3/2)])]
      [(''A'', [(''US'', \<lparr>is_available = 5, is_reserved = 1, is_in_transit = 4\<rparr>)])] 31) ''A'' ''US'' = Some 37"
proof -
  let ?v = "[(''A'', [(''US'', 3/2 :: pyfloat)])]"
  let ?i = "[(''A'', [(''US'', \<lparr>is_available = 5, is_reserved = 1, is_in_transit = 4\<rparr>)])]"
  have t: "target_stock 31 (3/2) = 93/2" by code_simp
  have up: "\<lceil>93/2 :: rat\<rceil> = 47" by (rule ceiling_unique) simp_all
  have r: "reportable ''US''" by code_simp
  have "wf_country_map ?v" by (simp add: wf_country_map_def)
  from step3_country_qty_correct [OF this r, of 31 "''A''" "3/2" ?i] show ?thesis
    by (simp add: t up dict_get2_def dict_get_or_def dict_get_def stock_total_def Let_def)
qed

text \<open>Every quantity step 3 stores is a positive number of units, for a positive velocity, on a reportable country with a stock record.\<close>

theorem step3_country_qty_positive:
  assumes "wf_country_map velocity" "dict_get2 (compute_country_qty velocity inventory target_days) sku c = Some qty"
  shows "0 < qty \<and> reportable c \<and> (\<exists>v. dict_get2 velocity sku c = Some v \<and> 0 < v) \<and> (\<exists>st. dict_get2 inventory sku c = Some st)"
  using assms by (auto simp: compute_country_qty_def country_loop_get2 Let_def split: option.splits if_splits)

theorem step3_country_qty_positive_witness:
  "\<exists>qty. dict_get2 (compute_country_qty [(''A'', [(''US'', 3/2)])]
      [(''A'', [(''US'', \<lparr>is_available = 5, is_reserved = 1, is_in_transit = 4\<rparr>)])] 31) ''A'' ''US'' = Some qty \<and> 0 < qty"
proof -
  let ?v = "[(''A'', [(''US'', 3/2 :: pyfloat)])]"
  let ?i = "[(''A'', [(''US'', \<lparr>is_available = 5, is_reserved = 1, is_in_transit = 4\<rparr>)])]"
  have "wf_country_map ?v" by (simp add: wf_country_map_def)
  moreover have q: "dict_get2 (compute_country_qty ?v ?i 31) ''A'' ''US'' = Some 37" by code_simp
  ultimately show ?thesis using step3_country_qty_positive [of ?v ?i 31 "''A''" "''US''" 37] by blast
qed

end
