(* ===== verification/Step4_Total.thy ===== *)
theory Step4_Total
  imports Step2_Sale_Days
begin

text \<open>
  \<^verbatim>\<open>engine/step4_total.py\<close>: the stock of the local warehouses (own and assembled) and the
  quantity to purchase, what the countries need plus a safety stock less what is at home.
\<close>

definition add_local_stock :: "sku \<Rightarrow> int \<Rightarrow> int \<Rightarrow> (sku, local_stock) dict \<Rightarrow> (sku, local_stock) dict" where
  "add_local_stock sku available reserved result =
     (case dict_get result sku of
        None \<Rightarrow> dict_set sku \<lparr>ls_available = available, ls_reserved = reserved\<rparr> result
      | Some current \<Rightarrow>
          dict_set sku \<lparr>ls_available = ls_available current + available, ls_reserved = ls_reserved current + reserved\<rparr> result)"

definition local_rows :: "engine_db \<Rightarrow> sku list option \<Rightarrow> inventory_snapshot_latest list" where
  "local_rows db commodity_skus =
     [i. i \<leftarrow> t_inventory_snapshot_latest db, w \<leftarrow> t_warehouse db,
        wh_id w = inv_warehouse_id i, wh_type w \<in> set LOCAL_WAREHOUSE_TYPES,
        sql_in_opt (inv_commodity_sku i) commodity_skus]"

text \<open>The query groups by SKU, so both sums run over the same groups.\<close>

definition own_local_stock :: "engine_db \<Rightarrow> sku list option \<Rightarrow> (sku, local_stock) dict" where
  "own_local_stock db commodity_skus =
     (let rows = local_rows db commodity_skus;
          reserv = group_sum inv_commodity_sku inv_reserved rows
      in foldl (\<lambda>result (sku, available). add_local_stock sku available (dict_get_or reserv sku 0) result) []
           (group_sum inv_commodity_sku inv_available rows))"

definition load_local_inventory ::
  "engine_db \<Rightarrow> sku list option \<Rightarrow> pyfloat country_map option \<Rightarrow> (sku, string) dict option \<Rightarrow>
   (string, sku list) dict option \<Rightarrow> (sku, local_stock) dict res" where
  "load_local_inventory db commodity_skus velocity groups members =
     (let result = own_local_stock db commodity_skus;
          rules = load_active_mapping_rules db commodity_skus groups;
          component_skus = component_skus_for_rules rules
      in if component_skus = [] then return result
         else
           let query_skus = component_query_skus members component_skus;
               component_inventory =
                 load_inventory_totals_by_warehouse db query_skus None (Some LOCAL_WAREHOUSE_TYPES) None None groups
           in bind_res (compute_mapped_stock_total_by_sku rules component_inventory velocity)
                (\<lambda>mapped_totals. return
                   (foldl (\<lambda>result (sku, quantity). add_local_stock sku quantity 0 result) result mapped_totals)))"

definition compute_total ::
  "(country, int) dict \<Rightarrow> (country, pyfloat) dict \<Rightarrow> local_stock option \<Rightarrow> int \<Rightarrow> int \<Rightarrow> int" where
  "compute_total country_qty_for_sku velocity_for_sku local_stock_for_sku buffer_days safety_stock_days =
     (let sum_qty = sum_list (dict_values country_qty_for_sku);
          sum_velocity = fsum (dict_values velocity_for_sku);
          safety_qty = \<lceil>fmul sum_velocity (float_of_int safety_stock_days)\<rceil>;
          local_qty = (case local_stock_for_sku of None \<Rightarrow> 0 | Some st \<Rightarrow> local_total st);
          raw_purchase_qty = sum_qty - local_qty + safety_qty
      in max 0 raw_purchase_qty)"

definition step4_total :: "engine_context \<Rightarrow> (sku, int) dict" where
  "step4_total ctx =
     foldl (\<lambda>result sku. dict_set sku
         (compute_total (dict_get_or (ec_country_qty ctx) sku []) (dict_get_or (ec_velocity ctx) sku [])
            (dict_get (ec_local_stock ctx) sku) (ec_buffer_days ctx) (ec_safety_stock_days ctx)) result)
       [] (dedup (dict_keys (ec_country_qty ctx) @ dict_keys (ec_velocity ctx) @ dict_keys (ec_local_stock ctx)))"

section \<open>Lemmas\<close>

abbreviation no_local :: local_stock where
  "no_local \<equiv> \<lparr>ls_available = 0, ls_reserved = 0\<rparr>"

lemma add_local_stock_get:
  "dict_get_or (add_local_stock sku a r d) s no_local =
     (if s = sku then \<lparr>ls_available = ls_available (dict_get_or d s no_local) + a,
                       ls_reserved = ls_reserved (dict_get_or d s no_local) + r\<rparr>
      else dict_get_or d s no_local)"
  by (auto simp: add_local_stock_def dict_get_or_def dict_get_set split: option.split)

lemma add_local_steps:
  "ls_available (dict_get_or (foldl (\<lambda>d (k, a). add_local_stock k a (other k) d) d0 entries) s no_local) =
     ls_available (dict_get_or d0 s no_local) + sum_list (map snd (filter (\<lambda>(k, a). k = s) entries))
   \<and> ls_reserved (dict_get_or (foldl (\<lambda>d (k, a). add_local_stock k a (other k) d) d0 entries) s no_local) =
     ls_reserved (dict_get_or d0 s no_local) + sum_list (map (\<lambda>ka. other (fst ka)) (filter (\<lambda>(k, a). k = s) entries))"
proof (induction entries arbitrary: d0)
  case (Cons ka entries)
  obtain k a where "ka = (k, a)" by (cases ka)
  then show ?case using Cons.IH [of "add_local_stock k a (other k) d0"] by (auto simp: add_local_stock_get)
qed simp

definition local_units :: "engine_db \<Rightarrow> sku list option \<Rightarrow> (inventory_snapshot_latest \<Rightarrow> int) \<Rightarrow> sku \<Rightarrow> int" where
  "local_units db commodity_skus f sku =
     sum_list (map f (filter (\<lambda>i. inv_commodity_sku i = sku) (local_rows db commodity_skus)))"

lemma own_local_stock_get:
  "ls_available (dict_get_or (own_local_stock db skus) sku no_local) = local_units db skus inv_available sku"
  "ls_reserved (dict_get_or (own_local_stock db skus) sku no_local) = local_units db skus inv_reserved sku"
proof -
  let ?rows = "local_rows db skus"
  let ?rs = "group_sum inv_commodity_sku inv_reserved ?rows"
  note steps = add_local_steps [of "\<lambda>k. dict_get_or ?rs k 0" "[]" "group_sum inv_commodity_sku inv_available ?rows" sku]
  show "ls_available (dict_get_or (own_local_stock db skus) sku no_local) = local_units db skus inv_available sku"
    using steps group_sum_filter [of "\<lambda>k. k = sku" inv_commodity_sku inv_available ?rows]
    by (simp add: own_local_stock_def local_units_def Let_def)
  show "ls_reserved (dict_get_or (own_local_stock db skus) sku no_local) = local_units db skus inv_reserved sku"
    using steps sum_other_group [of inv_commodity_sku inv_reserved ?rows "\<lambda>k. k = sku" inv_available]
    by (simp add: own_local_stock_def local_units_def Let_def)
qed

lemma mapped_total_wf:
  assumes "compute_mapped_stock_total_by_sku rules component_stock velocity = Inr res"
  shows "wf_dict res"
proof (cases "rules = [] \<or> component_stock = []")
  case True
  then show ?thesis using assms by (auto simp: compute_mapped_stock_total_by_sku_def)
next
  case False
  define A where "A = build_component_allocation rules component_stock
     (case velocity of None \<Rightarrow> [] | Some v \<Rightarrow> local_weights_by_sku v) (Some [])"
  have "fold_res (add_total_buildable A) [] (build_steps rules component_stock) = Inr res"
    using assms False by (auto simp: compute_mapped_stock_total_by_sku_def Let_def A_def)
  then show ?thesis
  proof (rule fold_res_invariant)
    fix s st s' assume "wf_dict s" "add_total_buildable A s st = Inr s'"
    then show "wf_dict s'"
      by (cases st; cases "buildable_loop A (fst st) (fst (snd st)) None (snd (snd st))")
        (auto simp: add_total_buildable_def split: option.splits)
  qed simp
qed

lemma sum_one_key:
  fixes d :: "('k \<times> int) list"
  shows "wf_dict d \<Longrightarrow> sum_list (map snd (filter (\<lambda>(k, a). k = s) d)) = dict_get_or d s 0"
proof (induction d)
  case (Cons kv d)
  then have "filter (\<lambda>(k, a). k = s) d = []" if "fst kv = s"
    using that by (auto simp: filter_empty_conv image_iff)
  then show ?case using Cons by (cases kv) (auto simp: dict_get_or_def dict_get_Cons)
qed simp

section \<open>Properties\<close>

text \<open>
  The local stock handed to the purchase formula: available units are the local
  warehouses' available units of the SKU plus what can be assembled from local components,
  reserved units are the warehouses' reserved units, and the load returns whenever the
  assembly computation does.
\<close>

theorem local_inventory_correct:
  assumes "load_local_inventory db commodity_skus velocity groups members = Inr stock"
  shows "\<exists>mapped.
      (let rules = load_active_mapping_rules db commodity_skus groups; cs = component_skus_for_rules rules
       in if cs = [] then mapped = []
          else compute_mapped_stock_total_by_sku rules
                 (load_inventory_totals_by_warehouse db (component_query_skus members cs) None
                    (Some LOCAL_WAREHOUSE_TYPES) None None groups) velocity = Inr mapped)
    \<and> ls_available (dict_get_or stock sku no_local) = local_units db commodity_skus inv_available sku + dict_get_or mapped sku 0
    \<and> ls_reserved (dict_get_or stock sku no_local) = local_units db commodity_skus inv_reserved sku"
proof (cases "component_skus_for_rules (load_active_mapping_rules db commodity_skus groups) = []")
  case True
  then show ?thesis using assms own_local_stock_get [of db commodity_skus sku]
    by (auto simp: load_local_inventory_def Let_def intro!: exI [of _ "[]"])
next
  case False
  then obtain mapped where m: "compute_mapped_stock_total_by_sku (load_active_mapping_rules db commodity_skus groups)
      (load_inventory_totals_by_warehouse db (component_query_skus members
         (component_skus_for_rules (load_active_mapping_rules db commodity_skus groups))) None
         (Some LOCAL_WAREHOUSE_TYPES) None None groups) velocity = Inr mapped"
    and st: "stock = foldl (\<lambda>d (k, q). add_local_stock k q 0 d) (own_local_stock db commodity_skus) mapped"
    using assms by (auto simp: load_local_inventory_def Let_def bind_res_Inr_iff)
  have "ls_available (dict_get_or stock sku no_local) = local_units db commodity_skus inv_available sku + dict_get_or mapped sku 0
    \<and> ls_reserved (dict_get_or stock sku no_local) = local_units db commodity_skus inv_reserved sku"
    unfolding st using add_local_steps [of "\<lambda>_. 0" "own_local_stock db commodity_skus" mapped sku]
      sum_one_key [OF mapped_total_wf [OF m], of sku] own_local_stock_get [of db commodity_skus sku]
    by (simp add: sum_list_triv)
  then show ?thesis using m False by (auto simp: Let_def)
qed

definition demo_local_db :: engine_db where
  "demo_local_db = (demo_alias_db [] [])
     \<lparr>t_warehouse := [\<lparr>wh_id = ''L'', wh_name = ''Local'', wh_type = 1, wh_country = None, wh_replenish_site_raw = None\<rparr>],
      t_inventory_snapshot_latest :=
        [\<lparr>inv_commodity_sku = ''A'', inv_warehouse_id = ''L'', inv_country = None, inv_original_country = None,
          inv_available = 7, inv_reserved = 2\<rparr>]\<rparr>"

theorem local_inventory_correct_witness:
  "\<exists>stock. load_local_inventory demo_local_db None None None None = Inr stock
     \<and> ls_available (dict_get_or stock ''A'' no_local) = 7"
proof -
  have l: "load_local_inventory demo_local_db None None None None = Inr [(''A'', \<lparr>ls_available = 7, ls_reserved = 2\<rparr>)]"
    by code_simp
  have u: "local_units demo_local_db None inv_available ''A'' = 7" by code_simp
  have c: "component_skus_for_rules (load_active_mapping_rules demo_local_db None None) = []" by code_simp
  from local_inventory_correct [OF l, of "''A''"] have
    "ls_available (dict_get_or [(''A'', \<lparr>ls_available = 7, ls_reserved = 2\<rparr>)] ''A'' no_local) = 7"
    by (simp add: u c)
  with l show ?thesis by blast
qed

text \<open>
  The purchase quantity is the least number of units that, added to the local stock,
  covers the countries' restock quantities and the safety stock. It is never negative.
\<close>

theorem compute_total_least:
  "let need = sum_list (map snd country_qty) + \<lceil>fl (fsum (map snd velocity) * float_of_int safety_days)\<rceil>;
       have_qty = (case stock of None \<Rightarrow> 0 | Some st \<Rightarrow> local_total st);
       n = compute_total country_qty velocity stock buffer_days safety_days
   in 0 \<le> n \<and> need \<le> have_qty + n \<and> (n = 0 \<or> have_qty + n = need)"
  by (simp add: compute_total_def dict_values_def fmul_def Let_def max_def)

text \<open>Step 4 answers for every SKU with a signal, with the purchase quantity of that SKU's own data.\<close>

theorem step4_total_get:
  "dict_get (step4_total ctx) sku =
     (if dict_mem sku (ec_country_qty ctx) \<or> dict_mem sku (ec_velocity ctx) \<or> dict_mem sku (ec_local_stock ctx)
      then Some (compute_total (dict_get_or (ec_country_qty ctx) sku []) (dict_get_or (ec_velocity ctx) sku [])
         (dict_get (ec_local_stock ctx) sku) (ec_buffer_days ctx) (ec_safety_stock_days ctx))
      else None)"
proof -
  have "dict_get (foldl (\<lambda>d k. dict_set k (f k) d) d0 ks) s = (if s \<in> set ks then Some (f s) else dict_get d0 s)"
    for f :: "sku \<Rightarrow> int" and d0 ks s
    by (induction ks arbitrary: d0) (auto simp: dict_get_set)
  note get = this
  show ?thesis unfolding step4_total_def get by (simp add: dict_mem_def dict_keys_def disj_assoc)
qed

end
