(* ===== verification/Zipcode_Matcher.thy ===== *)
theory Zipcode_Matcher
  imports Py_Float Db_Schema
begin

text \<open>
  \<^verbatim>\<open>engine/zipcode_matcher.py\<close>: which warehouses a postal code belongs to, by the
  configured prefix rules. \<^verbatim>\<open>int(s)\<close> and \<^verbatim>\<open>float(s)\<close> are modelled on ASCII text with
  Python's grammar (surrounding white space, sign, underscores between digits, exponents,
  \<^verbatim>\<open>inf\<close> and \<^verbatim>\<open>nan\<close>); a comparison that raises is a value of the result type.
\<close>

subsection \<open>int() and float() on text\<close>

datatype pyf = Fin pyfloat | PosInf | NegInf | NaN

definition is_digit :: "char \<Rightarrow> bool" where
  "is_digit c \<longleftrightarrow> (let n = (of_char c :: nat) in 48 \<le> n \<and> n \<le> 57)"

definition digit_value :: "char \<Rightarrow> int" where
  "digit_value c = int (of_char c) - 48"

text \<open>Digits with single underscores between them.\<close>

fun valid_digits :: "string \<Rightarrow> bool" where
  "valid_digits [] = False"
| "valid_digits [c] = is_digit c"
| "valid_digits (c # d # s) =
     (is_digit c \<and> (if d = CHR ''_'' then valid_digits s else valid_digits (d # s)))"

definition digits_value :: "string \<Rightarrow> int" where
  "digits_value s = foldl (\<lambda>acc c. acc * 10 + digit_value c) 0 (filter is_digit s)"

definition digit_count :: "string \<Rightarrow> nat" where
  "digit_count s = length (filter is_digit s)"

definition split_sign :: "string \<Rightarrow> bool \<times> string" where
  "split_sign s =
     (case s of [] \<Rightarrow> (False, [])
      | c # r \<Rightarrow> if c = CHR ''-'' then (True, r) else if c = CHR ''+'' then (False, r) else (False, s))"

definition py_int :: "string \<Rightarrow> int option" where
  "py_int s =
     (let (neg, ds) = split_sign (py_strip s)
      in if valid_digits ds then Some (if neg then - digits_value ds else digits_value ds) else None)"

definition split_exponent :: "string \<Rightarrow> string \<times> string option" where
  "split_exponent s =
     (let m = takeWhile (\<lambda>c. c \<noteq> CHR ''e'' \<and> c \<noteq> CHR ''E'') s
      in if length m = length s then (s, None) else (m, Some (drop (Suc (length m)) s)))"

definition exponent_value :: "string option \<Rightarrow> int option" where
  "exponent_value e = (case e of None \<Rightarrow> Some 0 | Some t \<Rightarrow>
     let (neg, ds) = split_sign t
     in if valid_digits ds then Some (if neg then - digits_value ds else digits_value ds) else None)"

definition mantissa_value :: "string \<Rightarrow> rat option" where
  "mantissa_value m =
     (case py_split1 (CHR ''.'') m of
        [ip] \<Rightarrow> if valid_digits ip then Some (of_int (digits_value ip)) else None
      | [ip, fp] \<Rightarrow>
          if (ip = [] \<or> valid_digits ip) \<and> (fp = [] \<or> valid_digits fp) \<and> (ip \<noteq> [] \<or> fp \<noteq> [])
          then Some (of_int (digits_value ip) + of_int (digits_value fp) / 10 ^ digit_count fp)
          else None
      | _ \<Rightarrow> None)"

definition to_double :: "bool \<Rightarrow> rat \<Rightarrow> pyf" where
  "to_double neg x =
     (let y = fl x in if y \<ge> 2 ^ 1024 then (if neg then NegInf else PosInf) else Fin (if neg then - y else y))"

definition py_float :: "string \<Rightarrow> pyf option" where
  "py_float s =
     (let (neg, t) = split_sign (py_strip s); u = py_upper t
      in if u = ''INF'' \<or> u = ''INFINITY'' then Some (if neg then NegInf else PosInf)
         else if u = ''NAN'' then Some NaN
         else let (m, e) = split_exponent t
              in case (mantissa_value m, exponent_value e) of
                   (Some x, Some k) \<Rightarrow> Some (to_double neg (x * 10 powi k))
                 | _ \<Rightarrow> None)"

definition trunc_rat :: "rat \<Rightarrow> int" where
  "trunc_rat x = (if x \<ge> 0 then \<lfloor>x\<rfloor> else - \<lfloor>- x\<rfloor>)"

text \<open>\<^verbatim>\<open>int(x)\<close> on a float: infinities and nan raise.\<close>

fun int_of_float :: "pyf \<Rightarrow> int res" where
  "int_of_float (Fin x) = return (trunc_rat x)"
| "int_of_float PosInf = raise OverflowError"
| "int_of_float NegInf = raise OverflowError"
| "int_of_float NaN = raise ValueError"

fun float_less :: "pyf \<Rightarrow> pyf \<Rightarrow> bool" where
  "float_less (Fin x) (Fin y) = (x < y)"
| "float_less (Fin x) PosInf = True"
| "float_less NegInf (Fin x) = True"
| "float_less NegInf PosInf = True"
| "float_less _ _ = False"

fun float_le :: "pyf \<Rightarrow> pyf \<Rightarrow> bool" where
  "float_le (Fin x) (Fin y) = (x \<le> y)"
| "float_le NaN _ = False"
| "float_le _ NaN = False"
| "float_le _ PosInf = True"
| "float_le NegInf _ = True"
| "float_le _ _ = False"

subsection \<open>The matcher\<close>

definition OPERATORS :: "string list" where
  "OPERATORS = [''='', ''!='', ''>'', ''>='', ''<'', ''<='', ''contains'', ''not_contains'', ''between'']"

definition normalize_postal :: "string option \<Rightarrow> string" where
  "normalize_postal code =
     (case code of None \<Rightarrow> []
      | Some s \<Rightarrow> filter (\<lambda>c. c \<noteq> CHR '' '') (filter (\<lambda>c. c \<noteq> CHR ''-'') (py_strip s)))"

definition extract_prefix :: "string \<Rightarrow> int \<Rightarrow> string" where
  "extract_prefix normalized prefix_length = py_slice_to normalized prefix_length"

definition split_compare_values :: "string \<Rightarrow> string list" where
  "split_compare_values raw = filter (\<lambda>t. t \<noteq> []) (map py_strip (py_split (CHR '','') raw))"

fun between_loop :: "int \<Rightarrow> string list \<Rightarrow> bool" where
  "between_loop left_int [] = False"
| "between_loop left_int (chunk # chunks) =
     (let piece = py_strip chunk
      in if piece = [] then between_loop left_int chunks
         else (case py_split1 (CHR ''-'') piece of
                 [a, b] \<Rightarrow>
                   (case (py_int (py_strip a), py_int (py_strip b)) of
                      (Some lo, Some hi) \<Rightarrow>
                        if lo > hi then False
                        else if lo \<le> left_int \<and> left_int \<le> hi then True
                        else between_loop left_int chunks
                    | _ \<Rightarrow> False)
               | _ \<Rightarrow> False))"

definition compare_number :: "pyf \<Rightarrow> string \<Rightarrow> pyf \<Rightarrow> bool res" where
  "compare_number l op r =
     (if op = ''='' then bind_res (int_of_float l) (\<lambda>a. bind_res (int_of_float r) (\<lambda>b. return (a = b)))
      else if op = ''!='' then bind_res (int_of_float l) (\<lambda>a. bind_res (int_of_float r) (\<lambda>b. return (a \<noteq> b)))
      else if op = ''>'' then return (float_less r l)
      else if op = ''>='' then return (float_le r l)
      else if op = ''<'' then return (float_less l r)
      else if op = ''<='' then return (float_le l r)
      else return False)"

definition compare_string :: "string \<Rightarrow> string \<Rightarrow> string \<Rightarrow> bool" where
  "compare_string l op r =
     (let compare_values = split_compare_values r
      in if op = ''='' then l = r
         else if op = ''!='' then l \<noteq> r
         else if op = ''contains'' then compare_values \<noteq> [] \<and> list_ex (\<lambda>t. sublist t l) compare_values
         else if op = ''not_contains'' then compare_values \<noteq> [] \<and> list_all (\<lambda>t. \<not> sublist t l) compare_values
         else False)"

definition compare_values :: "string \<Rightarrow> string \<Rightarrow> string \<Rightarrow> string \<Rightarrow> bool res" where
  "compare_values left op right value_type =
     (if op \<notin> set OPERATORS then return False
      else if op = ''between'' then
        (case py_int left of None \<Rightarrow> return False
         | Some left_int \<Rightarrow> return (between_loop left_int (py_split (CHR '','') right)))
      else if value_type = ''number'' then
        (case (py_float left, py_float right) of
           (Some l, Some r) \<Rightarrow> compare_number l op r
         | _ \<Rightarrow> return False)
      else return (compare_string left op right))"

text \<open>Whether one rule matches the normalised code: the body of the loop up to \<^verbatim>\<open>_compare\<close>.\<close>

definition rule_matches :: "string \<Rightarrow> zipcode_rule \<Rightarrow> bool res" where
  "rule_matches normalized rule =
     (let prefix = extract_prefix normalized (zr_prefix_length rule)
      in if prefix = [] \<or> int (length prefix) < zr_prefix_length rule then return False
         else compare_values prefix (zr_operator rule) (zr_compare_value rule) (zr_value_type rule))"

fun match_loop ::
  "string \<Rightarrow> int option \<Rightarrow> warehouse_id list \<Rightarrow> zipcode_rule list \<Rightarrow> warehouse_id list res" where
  "match_loop normalized winning_priority winners [] = return winners"
| "match_loop normalized winning_priority winners (rule # rules) =
     (if (case winning_priority of None \<Rightarrow> False | Some p \<Rightarrow> zr_priority rule > p) then return winners
      else bind_res (rule_matches normalized rule)
        (\<lambda>hit.
           if hit then
             match_loop normalized
               (case winning_priority of None \<Rightarrow> Some (zr_priority rule) | Some p \<Rightarrow> Some p)
               (if zr_warehouse_id rule \<in> set winners then winners else winners @ [zr_warehouse_id rule]) rules
           else match_loop normalized winning_priority winners rules))"

definition country_rules :: "country \<Rightarrow> zipcode_rule list \<Rightarrow> zipcode_rule list" where
  "country_rules c rules =
     sort_key (\<lambda>r. (zr_priority r, zr_id r)) (filter (\<lambda>r. zr_country r = c) rules)"

definition match_warehouses :: "string option \<Rightarrow> country \<Rightarrow> zipcode_rule list \<Rightarrow> warehouse_id list res" where
  "match_warehouses postal_code c rules =
     (let normalized = normalize_postal postal_code
      in if normalized = [] then return []
         else match_loop normalized None [] (country_rules c rules))"

text \<open>
  The specification without the loop: among the rules that hit, those of the smallest
  priority; their warehouses, each once, in (priority, id) order.
\<close>

definition best_hits :: "string \<Rightarrow> zipcode_rule list \<Rightarrow> zipcode_rule list" where
  "best_hits normalized rules =
     (let hits = filter (\<lambda>r. rule_matches normalized r = return True) rules
      in case hits of [] \<Rightarrow> [] | h # _ \<Rightarrow> filter (\<lambda>r. zr_priority r = zr_priority h) hits)"

section \<open>Lemmas\<close>

lemma sorted_country_rules: "sorted (map (\<lambda>r. (zr_priority r, zr_id r)) (country_rules c rules))"
  by (simp add: country_rules_def)

lemma set_country_rules: "set (country_rules c rules) = {r \<in> set rules. zr_country r = c}"
  by (auto simp: country_rules_def)

lemma sorted_priority:
  "sorted (map (\<lambda>r. (zr_priority r, zr_id r)) rs) \<Longrightarrow> sorted (map zr_priority rs)"
  by (induction rs) (auto simp: less_eq_prod_def)

lemma rule_matches_cases:
  "rule_matches nz r \<noteq> return True \<Longrightarrow> \<forall>e. rule_matches nz r \<noteq> raise e \<Longrightarrow> rule_matches nz r = return False"
  by (cases "rule_matches nz r") auto

lemma dedup_append_from:
  "ws @ dedup_from (rev ws) (x # xs) =
     (if x \<in> set ws then ws else ws @ [x]) @ dedup_from (rev (if x \<in> set ws then ws else ws @ [x])) xs"
  by simp

text \<open>After the first hit the loop collects the hits of the winning priority and stops.\<close>

lemma match_loop_after_hit:
  assumes "sorted (map zr_priority rules)" "\<forall>r \<in> set rules. p \<le> zr_priority r"
    and "\<forall>r \<in> set rules. \<forall>e. rule_matches nz r \<noteq> raise e"
  shows "match_loop nz (Some p) ws rules =
     return (ws @ dedup_from (rev ws) (map zr_warehouse_id
       (filter (\<lambda>r. rule_matches nz r = return True \<and> zr_priority r = p) rules)))"
  using assms
proof (induction rules arbitrary: ws)
  case (Cons r rules)
  show ?case
  proof (cases "zr_priority r > p")
    case True
    then have "\<forall>r' \<in> set (r # rules). zr_priority r' \<noteq> p" using Cons.prems by fastforce
    then have "filter (\<lambda>r. rule_matches nz r = return True \<and> zr_priority r = p) (r # rules) = []"
      by (auto simp: filter_empty_conv)
    with True show ?thesis by simp
  next
    case False
    then have p: "zr_priority r = p" using Cons.prems by auto
    show ?thesis
    proof (cases "rule_matches nz r = return True")
      case True
      with p Cons show ?thesis by (simp add: dedup_append_from del: dedup_from.simps)
    next
      case False
      then have "rule_matches nz r = return False" using Cons.prems by (intro rule_matches_cases) auto
      with p Cons show ?thesis by simp
    qed
  qed
qed simp

lemma match_loop_correct:
  assumes "sorted (map zr_priority rules)" "\<forall>r \<in> set rules. \<forall>e. rule_matches nz r \<noteq> raise e"
  shows "match_loop nz None [] rules = return (dedup (map zr_warehouse_id (best_hits nz rules)))"
  using assms
proof (induction rules)
  case (Cons r rules)
  show ?case
  proof (cases "rule_matches nz r = return True")
    case True
    then show ?thesis using Cons match_loop_after_hit [of rules "zr_priority r" nz "[zr_warehouse_id r]"]
      by (simp add: best_hits_def dedup_def conj_commute)
  next
    case False
    then have "rule_matches nz r = return False" using Cons.prems by (intro rule_matches_cases) auto
    with Cons show ?thesis by (simp add: best_hits_def)
  qed
qed (simp add: best_hits_def)

lemma best_hits_set:
  assumes "sorted (map zr_priority rules)"
  shows "r \<in> set (best_hits nz rules) \<longleftrightarrow>
     r \<in> set rules \<and> rule_matches nz r = return True \<and>
     (\<forall>r' \<in> set rules. rule_matches nz r' = return True \<longrightarrow> zr_priority r \<le> zr_priority r')"
proof (cases "filter (\<lambda>r. rule_matches nz r = return True) rules")
  case Nil
  then show ?thesis by (auto simp: best_hits_def filter_empty_conv)
next
  case (Cons h hs)
  let ?hits = "filter (\<lambda>r. rule_matches nz r = return True) rules"
  have "sorted (map zr_priority ?hits)" using assms by (rule sorted_filter)
  then have min: "\<forall>r' \<in> set ?hits. zr_priority h \<le> zr_priority r'" using Cons by auto
  have h: "h \<in> set ?hits" using Cons by simp
  have "best_hits nz rules = filter (\<lambda>r. zr_priority r = zr_priority h) ?hits"
    unfolding best_hits_def Let_def Cons by simp
  then have "set (best_hits nz rules) = {r \<in> set ?hits. zr_priority r = zr_priority h}" by (simp only: set_filter)
  then show ?thesis using min h by (auto intro: antisym)
qed

lemma to_double_small: "0 \<le> n \<Longrightarrow> n \<le> 2 ^ 53 \<Longrightarrow> to_double neg (of_int n) = Fin (if neg then - of_int n else of_int n)"
proof -
  assume n: "0 \<le> n" "n \<le> 2 ^ 53"
  have "(of_int n :: rat) \<le> of_int (2 ^ 53)" using n(2) by (simp only: of_int_le_iff)
  also have "\<dots> < 2 ^ 1024" by simp
  finally show ?thesis using n fl_of_int [of n] by (simp add: to_double_def)
qed

fun is_finite :: "pyf \<Rightarrow> bool" where
  "is_finite (Fin x) = True"
| "is_finite _ = False"

lemma int_of_float_raises_iff: "(\<exists>e. int_of_float x = raise e) \<longleftrightarrow> \<not> is_finite x"
  by (cases x) auto

lemma compare_number_raises_iff:
  "(\<exists>e. compare_number l op r = raise e) \<longleftrightarrow> op \<in> {''='', ''!=''} \<and> (\<not> is_finite l \<or> \<not> is_finite r)"
  by (cases l; cases r) (auto simp: compare_number_def)

lemma py_float_902: "py_float ''902'' = Some (Fin 902)"
proof -
  have "mantissa_value ''902'' = Some 902" "exponent_value None = Some 0"
    "split_exponent ''902'' = (''902'', None)" "split_sign (py_strip ''902'') = (False, ''902'')"
    "py_upper ''902'' = ''902''" by code_simp+
  then show ?thesis using to_double_small [of 902 False] by (simp add: py_float_def)
qed

section \<open>Properties\<close>


definition demo_rule :: "int \<Rightarrow> string \<Rightarrow> string \<Rightarrow> string \<Rightarrow> warehouse_id \<Rightarrow> int \<Rightarrow> zipcode_rule" where
  "demo_rule i vt op v w p = \<lparr>zr_id = i, zr_country = ''US'', zr_prefix_length = 3, zr_value_type = vt,
     zr_operator = op, zr_compare_value = v, zr_warehouse_id = w, zr_priority = p\<rparr>"


text \<open>
  Exactly when a comparison raises: only a numeric rule with \<open>=\<close> or \<open>!=\<close>, when the
  prefix or the rule's value reads as an infinity or as \<^verbatim>\<open>nan\<close>. Every other operator, and
  every operator on text that is no number, answers without raising.
\<close>

theorem compare_raises_iff:
  "(\<exists>e. compare_values l op r vt = raise e) \<longleftrightarrow>
     vt = ''number'' \<and> op \<in> {''='', ''!=''} \<and>
     (\<exists>a b. py_float l = Some a \<and> py_float r = Some b \<and> \<not> (is_finite a \<and> is_finite b))"
proof (cases "op \<in> set OPERATORS \<and> op \<noteq> ''between'' \<and> vt = ''number''")
  case True
  then show ?thesis
    using compare_number_raises_iff
    by (auto simp: compare_values_def split: option.splits)
next
  case False
  then have "\<not> (\<exists>e. compare_values l op r vt = raise e)"
    by (auto simp: compare_values_def split: option.splits)
  moreover have "\<not> (vt = ''number'' \<and> op \<in> {''='', ''!=''})"
    using False by (auto simp: OPERATORS_def)
  ultimately show ?thesis by blast
qed

text \<open>
  The consequence for the engine: a numeric \<open>=\<close> rule makes \<^verbatim>\<open>match_warehouses\<close> raise
  on an order whose postal code starts with the letters \<open>NAN\<close>, and raise an overflow on one
  that starts with \<open>INF\<close>; nothing between here and the job handler catches it, so one such
  order fails the whole calculation.
\<close>

theorem postal_code_can_abort_matching:
  "match_warehouses (Some ''nan 42'') ''US'' [demo_rule 1 ''number'' ''='' ''902'' ''LA'' 10] = raise ValueError
   \<and> match_warehouses (Some ''inf 42'') ''US'' [demo_rule 1 ''number'' ''='' ''902'' ''LA'' 10] = raise OverflowError"
proof -
  let ?r = "demo_rule 1 ''number'' ''='' ''902'' ''LA'' 10"
  have n: "normalize_postal (Some ''nan 42'') = ''nan42''" "normalize_postal (Some ''inf 42'') = ''inf42''"
    by code_simp+
  have c: "country_rules ''US'' [?r] = [?r]" by (simp add: country_rules_def demo_rule_def)
  have f: "py_float ''nan'' = Some NaN" "py_float ''inf'' = Some PosInf" by code_simp+
  have p: "extract_prefix ''nan42'' 3 = ''nan''" "extract_prefix ''inf42'' 3 = ''inf''" by code_simp+
  have "rule_matches ''nan42'' ?r = raise ValueError" "rule_matches ''inf42'' ?r = raise OverflowError"
    using f p py_float_902
    by (simp_all add: rule_matches_def demo_rule_def compare_values_def compare_number_def OPERATORS_def)
  then show ?thesis by (simp add: match_warehouses_def n c)
qed

end
