(* ===== verification/Step5_Warehouse_Split.thy ===== *)
theory Step5_Warehouse_Split
  imports Apportionment Zipcode_Matcher Country_Codes Step1_Velocity
begin

text \<open>
  \<^verbatim>\<open>engine/step5_warehouse_split.py\<close>: splitting a country's restock quantity over its
  warehouses. Quantities are integers and weights exact fractions (\<^verbatim>\<open>fractions.Fraction\<close>),
  here rationals, so nothing rounds.
\<close>

record country_allocation_result =
  warehouse_breakdown :: "(warehouse_id, int) dict"
  allocation_mode :: string
  matched_order_qty :: int
  unknown_order_qty :: int
  eligible_warehouses :: "warehouse_id list"

type_synonym postal_order = "string option \<times> int"

subsection \<open>Loading\<close>

text \<open>
  \<^verbatim>\<open>ORDER BY\<close> on text columns follows the database collation; it is taken to be the
  code-point order.
\<close>

definition add_country_warehouse ::
  "(country, warehouse_id list) dict \<Rightarrow> country \<times> warehouse_id \<Rightarrow> (country, warehouse_id list) dict" where
  "add_country_warehouse result row =
     (case row of (c, wid) \<Rightarrow>
        if \<not> reportable c then result
        else let current = dict_get_or result c []
             in dict_set c (if wid \<in> set current then current else current @ [wid]) result)"

definition load_country_warehouses :: "engine_db \<Rightarrow> (country, warehouse_id list) dict" where
  "load_country_warehouses db =
     foldl add_country_warehouse []
       (sorted_set [(zr_country z, zr_warehouse_id z).
          z \<leftarrow> t_zipcode_rule db, w \<leftarrow> t_warehouse db,
          wh_id w = zr_warehouse_id z, wh_type w \<notin> set LOCAL_WAREHOUSE_TYPES,
          wh_country w = Some (zr_country z)])"

definition load_zipcode_rules :: "engine_db \<Rightarrow> zipcode_rule list" where
  "load_zipcode_rules db = t_zipcode_rule db"

definition add_sku_country_order ::
  "(sku \<times> country, postal_order list) dict \<Rightarrow> sku \<times> country \<times> string option \<times> int \<Rightarrow>
   (sku \<times> country, postal_order list) dict" where
  "add_sku_country_order grouped row =
     (case row of (s, c, postal, qty) \<Rightarrow>
        if \<not> reportable c then grouped
        else let effective_qty = max qty 0
             in if effective_qty \<le> 0 then grouped
                else dict_set (s, c) (dict_get_or grouped (s, c) [] @ [(postal, effective_qty)]) grouped)"

definition sku_country_order_rows ::
  "engine_db \<Rightarrow> sku list \<Rightarrow> date \<Rightarrow> country list option \<Rightarrow> (sku \<times> country \<times> string option \<times> int) list" where
  "sku_country_order_rows db commodity_skus today allowed_countries =
     [(oi_commodity_sku i, oh_country_code h, oh_postal_code h, oi_quantity_ordered i).
        i \<leftarrow> t_order_item db, h \<leftarrow> t_order_header db,
        oh_id h = oi_order_id i, oi_commodity_sku i \<in> set commodity_skus,
        beijing_midnight (today - WINDOW_DAYS) \<le> oh_purchase_date h,
        oh_purchase_date h < beijing_midnight today,
        oh_source h = ORDER_SOURCE_PACKAGE,
        (case oh_package_status h of None \<Rightarrow> [] | Some st \<Rightarrow> st) \<noteq> CANCELED_PACKAGE_STATUS,
        oh_country_code h \<noteq> ''ZZ'',
        sql_in_opt (oh_country_code h) allowed_countries]"

definition load_all_sku_country_orders ::
  "engine_db \<Rightarrow> sku list \<Rightarrow> date \<Rightarrow> country list option \<Rightarrow> (sku \<times> country, postal_order list) dict" where
  "load_all_sku_country_orders db commodity_skus today allowed_countries =
     (if commodity_skus = [] then []
      else foldl add_sku_country_order [] (sku_country_order_rows db commodity_skus today allowed_countries))"

subsection \<open>Apportioning\<close>

definition exact_share :: "int \<Rightarrow> rat \<Rightarrow> rat \<Rightarrow> rat" where
  "exact_share total_qty total_weight weight = of_int total_qty * weight / total_weight"

text \<open>
  The remainders of the loop: the fractional part, the position and the key of every entry,
  in input order.
\<close>

definition weight_remainders :: "int \<Rightarrow> rat \<Rightarrow> ('k \<times> rat) list \<Rightarrow> (rat \<times> nat \<times> 'k) list" where
  "weight_remainders total_qty total_weight ordered_weights =
     map (\<lambda>(order_index, (key, weight)).
            let exact = exact_share total_qty total_weight weight
            in (exact - of_int \<lfloor>exact\<rfloor>, order_index, key))
         (enumerate 0 ordered_weights)"

definition allocate_by_weights :: "int \<Rightarrow> ('k \<times> rat) list \<Rightarrow> ('k, int) dict" where
  "allocate_by_weights total_qty ordered_weights =
     (if total_qty \<le> 0 \<or> ordered_weights = [] then []
      else let total_weight = sum_list (map snd ordered_weights)
           in if total_weight \<le> 0 then []
              else
                let bases = map (\<lambda>(key, weight). (key, \<lfloor>exact_share total_qty total_weight weight\<rfloor>)) ordered_weights;
                    result = foldl (\<lambda>d (key, base). dict_set key base d) [] bases;
                    allocated = sum_list (map snd bases);
                    remainders = weight_remainders total_qty total_weight ordered_weights;
                    chosen = py_slice_to (sort_key (\<lambda>(r, i, k). (- r, i)) remainders) (total_qty - allocated);
                    result' = foldl (\<lambda>d key. dict_add key 1 d) result (map (\<lambda>(r, i, k). k) chosen)
                in filter (\<lambda>(key, qty). qty > 0) result')"

definition allocate_even :: "int \<Rightarrow> warehouse_id list \<Rightarrow> (warehouse_id, int) dict" where
  "allocate_even total_qty warehouses =
     (if total_qty \<le> 0 \<or> warehouses = [] then []
      else let base = total_qty div int (length warehouses);
               remainder = total_qty - base * int (length warehouses)
           in foldl (\<lambda>d (wid, qty). dict_set wid qty d) []
                (filter (\<lambda>(wid, qty). qty > 0)
                  (map (\<lambda>(i, wid). (wid, base + (if int i < remainder then 1 else 0))) (enumerate 0 warehouses))))"

subsection \<open>The split\<close>

record split_state =
  known_counts :: "(warehouse_id, rat) dict"
  ss_matched :: int
  ss_unknown :: int

fun count_orders ::
  "country \<Rightarrow> zipcode_rule list \<Rightarrow> warehouse_id list \<Rightarrow> split_state \<Rightarrow> postal_order list \<Rightarrow> split_state res" where
  "count_orders c rules eligible st [] = return st"
| "count_orders c rules eligible st ((postal_code, qty) # orders) =
     (if qty \<le> 0 then count_orders c rules eligible st orders
      else bind_res (match_warehouses postal_code c rules)
        (\<lambda>winners.
           let eligible_winners = filter (\<lambda>w. w \<in> set eligible) winners
           in if eligible_winners = []
              then count_orders c rules eligible (st\<lparr>ss_unknown := ss_unknown st + qty\<rparr>) orders
              else let share = of_int qty / of_nat (length eligible_winners)
                   in count_orders c rules eligible
                        (st\<lparr>known_counts := foldl (\<lambda>d wid. dict_add wid share d) (known_counts st) eligible_winners,
                            ss_matched := ss_matched st + qty\<rparr>) orders))"

datatype bucket = Known | Unknown

definition split_known :: "int \<Rightarrow> warehouse_id list \<Rightarrow> split_state \<Rightarrow> (warehouse_id, int) dict" where
  "split_known country_qty eligible st =
     (let bucket_allocations = allocate_by_weights country_qty
            [(Known, of_int (ss_matched st)), (Unknown, of_int (ss_unknown st))];
          known_qty = dict_get_or bucket_allocations Known 0;
          unknown_qty = dict_get_or bucket_allocations Unknown 0;
          ordered_counts = map (\<lambda>wid. (wid, dict_get_or (known_counts st) wid 0))
            (filter (\<lambda>wid. dict_mem wid (known_counts st)) eligible);
          result = allocate_by_weights known_qty ordered_counts
      in foldl (\<lambda>d (wid, qty). dict_add wid qty d) result (allocate_even unknown_qty eligible))"

definition explain_country_qty_split ::
  "country \<Rightarrow> int \<Rightarrow> postal_order list \<Rightarrow> zipcode_rule list \<Rightarrow> warehouse_id list \<Rightarrow> country_allocation_result res" where
  "explain_country_qty_split c country_qty orders rules country_warehouses =
     (let eligible = dedup country_warehouses
      in if country_qty \<le> 0 then
           return \<lparr>warehouse_breakdown = [], allocation_mode = ''zero_qty'', matched_order_qty = 0,
                   unknown_order_qty = 0, eligible_warehouses = eligible\<rparr>
         else bind_res (count_orders c rules eligible \<lparr>known_counts = [], ss_matched = 0, ss_unknown = 0\<rparr> orders)
           (\<lambda>st.
              if sum_list (map snd (known_counts st)) > 0 then
                return \<lparr>warehouse_breakdown = filter (\<lambda>(k, v). v > 0) (split_known country_qty eligible st),
                        allocation_mode = (if ss_unknown st > 0 then ''mixed_known_unknown'' else ''matched''),
                        matched_order_qty = ss_matched st, unknown_order_qty = ss_unknown st,
                        eligible_warehouses = eligible\<rparr>
              else if eligible = [] then
                return \<lparr>warehouse_breakdown = [], allocation_mode = ''no_warehouse'', matched_order_qty = 0,
                        unknown_order_qty = ss_unknown st, eligible_warehouses = []\<rparr>
              else
                return \<lparr>warehouse_breakdown = filter (\<lambda>(k, v). v > 0) (allocate_even country_qty eligible),
                        allocation_mode = ''fallback_even'', matched_order_qty = 0,
                        unknown_order_qty = ss_unknown st, eligible_warehouses = eligible\<rparr>))"

definition split_country_qty ::
  "country \<Rightarrow> int \<Rightarrow> postal_order list \<Rightarrow> zipcode_rule list \<Rightarrow> warehouse_id list \<Rightarrow> (warehouse_id, int) dict res" where
  "split_country_qty c country_qty orders rules country_warehouses =
     bind_res (explain_country_qty_split c country_qty orders rules country_warehouses)
       (\<lambda>r. return (warehouse_breakdown r))"

section \<open>Lemmas\<close>

subsection \<open>Apportioning by weights\<close>

definition weights_ok :: "int \<Rightarrow> ('k \<times> rat) list \<Rightarrow> bool" where
  "weights_ok t ws \<longleftrightarrow> 0 \<le> t \<and> (0 < t \<longrightarrow> 0 < sum_list (map snd ws)) \<and> wf_dict ws \<and> (\<forall>w \<in> snd ` set ws. 0 \<le> w)"

lemma sum_exact_shares:
  "tw \<noteq> 0 \<Longrightarrow> sum_list (map (\<lambda>w. exact_share t tw w) ws) = of_int t * sum_list ws / tw"
  by (induction ws) (simp_all add: exact_share_def add_divide_distrib algebra_simps)

lemma length_weight_remainders [simp]: "length (weight_remainders t tw ws) = length ws"
  by (simp add: weight_remainders_def)

lemma keys_weight_remainders: "map (\<lambda>(r, i, k). k) (weight_remainders t tw ws) = map fst ws"
proof -
  have "map (\<lambda>(r, i, k). k) (weight_remainders t tw ws) = map fst (map snd (enumerate 0 ws))"
    by (simp add: weight_remainders_def Let_def case_prod_unfold del: map_snd_enumerate)
  then show ?thesis by simp
qed

text \<open>The two stages of \<open>allocate_by_weights\<close> on an admissible input.\<close>

definition weight_bases :: "int \<Rightarrow> ('k \<times> rat) list \<Rightarrow> ('k, int) dict" where
  "weight_bases t ws = map (\<lambda>(k, w). (k, \<lfloor>exact_share t (sum_list (map snd ws)) w\<rfloor>)) ws"

definition weight_chosen :: "int \<Rightarrow> ('k \<times> rat) list \<Rightarrow> 'k list" where
  "weight_chosen t ws = map (\<lambda>(r, i, k). k)
     (take (nat (t - sum_list (map snd (weight_bases t ws))))
        (sort_key (\<lambda>(r, i, k). (- r, i)) (weight_remainders t (sum_list (map snd ws)) ws)))"

lemma weight_bases_keys: "map fst (weight_bases t ws) = map fst ws"
  by (simp add: weight_bases_def case_prod_unfold comp_def)

lemma weight_leftover:
  assumes "0 < sum_list (map snd ws)"
  shows "0 \<le> t - sum_list (map snd (weight_bases t ws))"
    and "t - sum_list (map snd (weight_bases t ws)) \<le> int (length ws)"
proof -
  let ?xs = "map (\<lambda>w. exact_share t (sum_list (map snd ws)) w) (map snd ws)"
  have b: "map snd (weight_bases t ws) = map floor ?xs" by (simp add: weight_bases_def case_prod_unfold comp_def)
  have "sum_list ?xs = of_int t" using assms by (subst sum_exact_shares) auto
  then show "0 \<le> t - sum_list (map snd (weight_bases t ws))"
    and "t - sum_list (map snd (weight_bases t ws)) \<le> int (length ws)"
    using leftover_bounds [of ?xs t] b by simp_all
qed

lemma length_weight_chosen:
  "0 < sum_list (map snd ws) \<Longrightarrow> int (length (weight_chosen t ws)) = t - sum_list (map snd (weight_bases t ws))"
  using weight_leftover [of ws t] by (simp add: weight_chosen_def)

lemma distinct_sort_keys:
  "distinct (map g xs) \<Longrightarrow> distinct (map g (take n (sort_key f xs)))"
proof -
  assume "distinct (map g xs)"
  then have "distinct xs" "inj_on g (set xs)" by (simp_all add: distinct_map)
  then have "distinct (map g (sort_key f xs))" by (simp add: distinct_map)
  then show ?thesis by (simp add: take_map [symmetric])
qed

lemma weight_chosen_keys:
  assumes "wf_dict ws"
  shows "set (weight_chosen t ws) \<subseteq> fst ` set ws" "distinct (weight_chosen t ws)"
proof -
  let ?rem = "weight_remainders t (sum_list (map snd ws)) ws" and ?g = "\<lambda>(r::rat, i::nat, k). k"
  have "?g ` set ?rem = fst ` set ws"
    using arg_cong [OF keys_weight_remainders [of t "sum_list (map snd ws)" ws], of set] by simp
  moreover have "set (weight_chosen t ws) \<subseteq> ?g ` set ?rem"
    unfolding weight_chosen_def set_map by (rule image_mono) (metis set_sort set_take_subset)
  ultimately show "set (weight_chosen t ws) \<subseteq> fst ` set ws" by simp
  have "distinct (map ?g ?rem)" using assms by (simp only: keys_weight_remainders)
  then show "distinct (weight_chosen t ws)" unfolding weight_chosen_def by (rule distinct_sort_keys)
qed

lemma allocate_by_weights_eq:
  assumes "0 < t" "0 < sum_list (map snd ws)" "wf_dict ws"
  shows "allocate_by_weights t ws =
     filter (\<lambda>(k, q). q > 0) (foldl (\<lambda>d k. dict_add k 1 d) (weight_bases t ws) (weight_chosen t ws))"
proof -
  have ne: "ws \<noteq> []" using assms(2) by auto
  have "foldl (\<lambda>d (k, b). dict_set k b d) [] (weight_bases t ws) = weight_bases t ws"
    using assms(3) by (intro foldl_dict_set_distinct) (simp add: weight_bases_keys)
  then show ?thesis
    using assms ne weight_leftover(1) [OF assms(2), of t]
    by (simp add: allocate_by_weights_def Let_def weight_bases_def [symmetric] weight_chosen_def py_slice_to_nonneg)
qed

lemma get_or_filter_pos:
  fixes d :: "('k \<times> int) list"
  assumes "wf_dict d" "\<forall>v \<in> snd ` set d. 0 \<le> v"
  shows "dict_get_or (filter (\<lambda>(k, v). v > 0) d) k 0 = dict_get_or d k 0"
  using assms
proof (induction d)
  case (Cons kv d)
  then have "k = fst kv \<Longrightarrow> dict_get (filter (\<lambda>(k, v). v > 0) d) k = None"
    by (auto simp: dict_get_None_iff)
  then show ?case using Cons by (cases kv) (auto simp: dict_get_or_def dict_get_Cons)
qed simp

lemma weight_bases_nonneg:
  assumes "weights_ok t ws" "0 < t"
  shows "\<forall>v \<in> snd ` set (weight_bases t ws). 0 \<le> v"
  using assms by (fastforce simp: weight_bases_def weights_ok_def exact_share_def)

text \<open>The result before the zero entries are dropped.\<close>

abbreviation bumped :: "int \<Rightarrow> ('k \<times> rat) list \<Rightarrow> ('k, int) dict" where
  "bumped t ws \<equiv> foldl (\<lambda>d k. dict_add k 1 d) (weight_bases t ws) (weight_chosen t ws)"

lemma bumped_wf: "wf_dict ws \<Longrightarrow> wf_dict (bumped t ws)"
  by (rule bump_wf) (simp add: weight_bases_keys)

lemma fst_weight_bases: "fst ` set (weight_bases t ws) = fst ` set ws"
  using arg_cong [OF weight_bases_keys [of t ws], of set] by simp

lemma bumped_nonneg:
  "weights_ok t ws \<Longrightarrow> 0 < t \<Longrightarrow> \<forall>v \<in> snd ` set (bumped t ws). 0 \<le> v"
  by (intro bump_nonneg weight_bases_nonneg)

lemma allocate_by_weights_ok:
  assumes "weights_ok t ws" "0 < t"
  shows "allocate_by_weights t ws = filter (\<lambda>(k, q). q > 0) (bumped t ws)"
  using assms by (intro allocate_by_weights_eq) (auto simp: weights_ok_def)

lemma allocate_by_weights_zero [simp]: "t \<le> 0 \<Longrightarrow> allocate_by_weights t ws = []"
  by (simp add: allocate_by_weights_def)

lemma weights_ok_cases:
  assumes "weights_ok t ws"
  obtains "t = 0" | "0 < t"
  using assms by (force simp: weights_ok_def)

interpretation wa: apportionment allocate_by_weights "map fst :: ('k \<times> rat) list \<Rightarrow> 'k list" weights_ok
proof
  fix t and ws :: "('k \<times> rat) list"
  assume ok: "weights_ok t ws"
  then have wf: "wf_dict ws" by (simp add: weights_ok_def)
  show "sum_list (map snd (allocate_by_weights t ws)) = t"
  proof (cases rule: weights_ok_cases [OF ok])
    case 2
    have p: "0 < sum_list (map snd ws)" using ok 2 by (simp add: weights_ok_def)
    have "sum_list (map snd (allocate_by_weights t ws)) = sum_list (map snd (bumped t ws))"
      unfolding allocate_by_weights_ok [OF ok 2] by (rule sum_list_filter_pos) (rule bumped_nonneg [OF ok 2])
    also have "\<dots> = sum_list (map snd (weight_bases t ws)) + int (length (weight_chosen t ws))"
      by (rule bump_total)
    finally show ?thesis by (simp add: length_weight_chosen [OF p])
  qed simp
  show "fst ` set (allocate_by_weights t ws) \<subseteq> set (map fst ws)"
  proof (cases rule: weights_ok_cases [OF ok])
    case 2
    have "fst ` set (bumped t ws) = fst ` set ws"
      using bump_keys [of "weight_chosen t ws" "weight_bases t ws"] weight_chosen_keys [OF wf, of t]
      by (simp add: fst_weight_bases)
    then show ?thesis by (simp add: allocate_by_weights_ok [OF ok 2] del: set_filter) (metis filter_is_subset image_mono)
  qed simp
  show "wf_dict (allocate_by_weights t ws)"
    using bumped_wf [OF wf, of t]
    by (cases rule: weights_ok_cases [OF ok]) (simp_all add: allocate_by_weights_ok [OF ok] distinct_map_filter)
  show "\<forall>v \<in> snd ` set (allocate_by_weights t ws). 0 \<le> v"
    by (cases rule: weights_ok_cases [OF ok]) (auto simp: allocate_by_weights_ok [OF ok])
qed

text \<open>The share of every key, and which keys get the extra unit.\<close>

lemma allocate_by_weights_get:
  assumes "weights_ok t ws" "0 < t" "(k, w) \<in> set ws"
  shows "dict_get_or (allocate_by_weights t ws) k 0 =
     \<lfloor>exact_share t (sum_list (map snd ws)) w\<rfloor> + (if k \<in> set (weight_chosen t ws) then 1 else 0)"
proof -
  have wf: "wf_dict ws" using assms by (simp add: weights_ok_def)
  have "dict_get (weight_bases t ws) k = map_option (\<lambda>w. \<lfloor>exact_share t (sum_list (map snd ws)) w\<rfloor>) (dict_get ws k)"
    unfolding weight_bases_def by (rule dict_get_map_value)
  moreover have "dict_get ws k = Some w" using wf assms(3) by (simp add: dict_get_eq_Some_iff)
  ultimately have "dict_get_or (weight_bases t ws) k 0 = \<lfloor>exact_share t (sum_list (map snd ws)) w\<rfloor>"
    by (simp add: dict_get_or_def)
  then show ?thesis
    unfolding allocate_by_weights_ok [OF assms(1,2)]
      get_or_filter_pos [OF bumped_wf [OF wf] bumped_nonneg [OF assms(1,2)]]
      bump_get [OF weight_chosen_keys(2) [OF wf]] by simp
qed

lemma take_sort_key_le:
  assumes "x \<in> set (take n (sort_key f xs))" "y \<in> set xs" "y \<notin> set (take n (sort_key f xs))"
  shows "f x \<le> f y"
proof -
  let ?s = "sort_key f xs"
  have "y \<in> set (take n ?s) \<union> set (drop n ?s)" using assms(2) by (metis append_take_drop_id set_append set_sort)
  then have "y \<in> set (drop n ?s)" using assms(3) by simp
  moreover have "sorted (map f (take n ?s) @ map f (drop n ?s))"
    by (simp flip: map_append)
  ultimately show ?thesis using assms(1) by (simp add: sorted_append)
qed

lemma weight_remainders_mem:
  assumes "(k, w) \<in> set ws"
  obtains i where "(frac (exact_share t tw w), i, k) \<in> set (weight_remainders t tw ws)"
proof -
  obtain i where "i < length ws" "ws ! i = (k, w)" using assms by (auto simp: in_set_conv_nth)
  then have "(i, k, w) \<in> set (enumerate 0 ws)" by (auto simp: in_set_enumerate_eq)
  then show thesis
    by (intro that [of i]) (force simp: weight_remainders_def frac_def Let_def)
qed

lemma weight_remainders_frac:
  assumes "wf_dict ws" "(k, w) \<in> set ws" "(r, i, k) \<in> set (weight_remainders t tw ws)"
  shows "r = frac (exact_share t tw w)"
proof -
  obtain w' where "(k, w') \<in> set ws" "r = frac (exact_share t tw w')"
    using assms(3) by (auto simp: weight_remainders_def frac_def Let_def in_set_enumerate_eq) (metis nth_mem)
  then show ?thesis using assms(1,2) by (metis eq_key_imp_eq_value)
qed

lemma weight_chosen_largest:
  assumes "wf_dict ws" "(k, w) \<in> set ws" "(k', w') \<in> set ws"
    "k \<in> set (weight_chosen t ws)" "k' \<notin> set (weight_chosen t ws)"
  shows "frac (exact_share t (sum_list (map snd ws)) w') \<le> frac (exact_share t (sum_list (map snd ws)) w)"
proof -
  let ?tw = "sum_list (map snd ws)"
  let ?rem = "weight_remainders t ?tw ws" and ?key = "\<lambda>(r :: rat, i :: nat, k). (- r, i)"
  let ?n = "nat (t - sum_list (map snd (weight_bases t ws)))"
  obtain r i where x: "(r, i, k) \<in> set (take ?n (sort_key ?key ?rem))"
    using assms(4) by (auto simp: weight_chosen_def)
  then have "(r, i, k) \<in> set ?rem" by (metis in_set_takeD set_sort)
  then have r: "r = frac (exact_share t ?tw w)" by (rule weight_remainders_frac [OF assms(1,2)])
  obtain i' where y: "(frac (exact_share t ?tw w'), i', k') \<in> set ?rem"
    using weight_remainders_mem [OF assms(3)] .
  have "(frac (exact_share t ?tw w'), i', k') \<notin> set (take ?n (sort_key ?key ?rem))"
    using assms(5) by (force simp: weight_chosen_def)
  from take_sort_key_le [OF x y this] show ?thesis by (auto simp: r less_eq_prod_def)
qed

subsection \<open>Splitting evenly\<close>

lemma sum_first_ones:
  "0 \<le> r \<Longrightarrow> r \<le> int n \<Longrightarrow> sum_list (map (\<lambda>i. if int i < r then 1 else 0) [0..<n]) = r"
proof (induction n arbitrary: r)
  case (Suc n)
  show ?case
  proof (cases "r \<le> int n")
    case True
    then show ?thesis using Suc.IH [of r] Suc.prems by simp
  next
    case False
    then have "r = int n + 1" using Suc.prems by simp
    have "map (\<lambda>i. if int i < r then 1 else 0) [0..<n] = map (\<lambda>_. 1::int) [0..<n]"
      by (rule map_cong) (auto simp: \<open>r = int n + 1\<close>)
    then have "sum_list (map (\<lambda>i. if int i < r then 1 else 0) [0..<n]) = int n" by (simp only: sum_list_triv) simp
    then show ?thesis using \<open>r = int n + 1\<close> unfolding upt_Suc by simp
  qed
qed simp

definition even_entries :: "int \<Rightarrow> 'k list \<Rightarrow> ('k, int) dict" where
  "even_entries t ws =
     (let base = t div int (length ws); rest = t - base * int (length ws)
      in map (\<lambda>(i, wid). (wid, base + (if int i < rest then 1 else 0))) (enumerate 0 ws))"

lemma even_entries_keys: "map fst (even_entries t ws) = ws"
proof -
  have "map fst (even_entries t ws) = map snd (enumerate 0 ws)"
    by (simp add: even_entries_def Let_def case_prod_unfold del: map_snd_enumerate)
  then show ?thesis by simp
qed

lemma even_rest: "ws \<noteq> [] \<Longrightarrow> t - t div int (length ws) * int (length ws) = t mod int (length ws)"
  by (simp add: minus_div_mult_eq_mod)

lemma even_entries_total:
  assumes "ws \<noteq> []"
  shows "sum_list (map snd (even_entries t ws)) = t"
proof -
  let ?n = "length ws" and ?b = "t div int (length ws)" and ?r = "t mod int (length ws)"
  have "map snd (even_entries t ws) = map (\<lambda>i. ?b + (if int i < ?r then 1 else 0)) (map fst (enumerate 0 ws))"
    by (simp add: even_entries_def Let_def even_rest [OF assms] case_prod_unfold del: map_fst_enumerate)
  then have "map snd (even_entries t ws) = map (\<lambda>i. ?b + (if int i < ?r then 1 else 0)) [0..<?n]"
    by simp
  moreover have "sum_list (map (\<lambda>i. ?b + (if int i < ?r then 1 else 0)) [0..<?n]) = int ?n * ?b + ?r"
    using assms sum_first_ones [of ?r ?n] by (simp add: sum_list_addf sum_list_triv less_imp_le)
  ultimately show ?thesis by simp
qed

lemma even_entries_values:
  "0 \<le> t \<Longrightarrow> \<forall>v \<in> snd ` set (even_entries t ws). t div int (length ws) \<le> v \<and> v \<le> t div int (length ws) + 1 \<and> 0 \<le> v"
  by (auto simp: even_entries_def Let_def pos_imp_zdiv_nonneg_iff div_int_pos_iff)

definition even_ok :: "int \<Rightarrow> warehouse_id list \<Rightarrow> bool" where
  "even_ok t ws \<longleftrightarrow> distinct ws \<and> (t = 0 \<or> 0 < t \<and> ws \<noteq> [])"

lemma allocate_even_ok:
  assumes "distinct ws" "0 < t" "ws \<noteq> []"
  shows "allocate_even t ws = filter (\<lambda>(k, q). q > 0) (even_entries t ws)"
proof -
  have "allocate_even t ws =
      foldl (\<lambda>d (wid, qty). dict_set wid qty d) [] (filter (\<lambda>(k, q). q > 0) (even_entries t ws))"
    using assms by (simp add: allocate_even_def even_entries_def Let_def)
  also have "\<dots> = filter (\<lambda>(k, q). q > 0) (even_entries t ws)"
    using assms(1) by (intro foldl_dict_set_distinct) (simp add: distinct_map_filter even_entries_keys)
  finally show ?thesis .
qed

lemma allocate_even_zero [simp]: "t \<le> 0 \<Longrightarrow> allocate_even t ws = []"
  by (simp add: allocate_even_def)

interpretation ev: apportionment allocate_even "\<lambda>ws. ws" even_ok
proof
  fix t ws assume ok: "even_ok t ws"
  then consider "t = 0" | "0 < t" "ws \<noteq> []" "distinct ws" by (auto simp: even_ok_def)
  note cs = this and val = even_entries_values [of t ws]
  show "sum_list (map snd (allocate_even t ws)) = t"
  proof (cases rule: cs)
    case 2
    have "\<forall>v \<in> snd ` set (even_entries t ws). 0 \<le> v" using val 2 by simp
    then show ?thesis
      using 2 by (simp add: allocate_even_ok sum_list_filter_pos even_entries_total)
  qed simp
  show "fst ` set (allocate_even t ws) \<subseteq> set ws"
  proof (cases rule: cs)
    case 2
    have "fst ` set (filter (\<lambda>(k, q). q > 0) (even_entries t ws)) \<subseteq> set (map fst (even_entries t ws))" by auto
    then show ?thesis unfolding allocate_even_ok [OF 2(3,1,2)] even_entries_keys .
  qed simp
  show "wf_dict (allocate_even t ws)"
    by (cases rule: cs) (simp_all add: allocate_even_ok distinct_map_filter even_entries_keys)
  show "\<forall>v \<in> snd ` set (allocate_even t ws). 0 \<le> v"
    by (cases rule: cs) (auto simp: allocate_even_ok)
qed

subsection \<open>Counting the orders\<close>

text \<open>
  What one order contributes to a warehouse: an equal part of its quantity when the warehouse
  is among the eligible winners of its postal code.
\<close>

definition order_winners :: "country \<Rightarrow> zipcode_rule list \<Rightarrow> warehouse_id list \<Rightarrow> string option \<Rightarrow> warehouse_id list" where
  "order_winners c rules eligible postal_code =
     filter (\<lambda>w. w \<in> set eligible)
       (case match_warehouses postal_code c rules of Inl _ \<Rightarrow> [] | Inr winners \<Rightarrow> winners)"

definition order_share ::
  "country \<Rightarrow> zipcode_rule list \<Rightarrow> warehouse_id list \<Rightarrow> warehouse_id \<Rightarrow> postal_order \<Rightarrow> rat" where
  "order_share c rules eligible wid ord =
     (case ord of (postal_code, qty) \<Rightarrow>
        let winners = order_winners c rules eligible postal_code
        in if qty \<le> 0 then 0
           else of_nat (length (filter (\<lambda>w. w = wid) winners)) * (of_int qty / of_nat (length winners)))"

definition ordered_qty :: "(string option \<Rightarrow> bool) \<Rightarrow> postal_order list \<Rightarrow> int" where
  "ordered_qty P orders = sum_list (map (\<lambda>(p, q). if P p then max q 0 else 0) orders)"

definition split_inv :: "warehouse_id list \<Rightarrow> split_state \<Rightarrow> bool" where
  "split_inv eligible st \<longleftrightarrow>
     wf_dict (known_counts st) \<and> fst ` set (known_counts st) \<subseteq> set eligible \<and>
     (\<forall>v \<in> snd ` set (known_counts st). 0 \<le> v) \<and>
     sum_list (map snd (known_counts st)) = of_int (ss_matched st) \<and> 0 \<le> ss_matched st \<and> 0 \<le> ss_unknown st"

lemma split_inv_match:
  assumes inv: "split_inv eligible st" and ws: "ws \<noteq> []" "set ws \<subseteq> set eligible" and q: "0 < q"
  shows "split_inv eligible
     (st\<lparr>known_counts := foldl (\<lambda>d wid. dict_add wid (of_int q / of_nat (length ws)) d) (known_counts st) ws,
         ss_matched := ss_matched st + q\<rparr>)"
proof -
  let ?sh = "of_int q / of_nat (length ws) :: rat"
  let ?d = "foldl (\<lambda>d wid. dict_add wid ?sh d) (known_counts st) ws"
  have "wf_dict ?d"
    using inv foldl_dict_add_wf [of "known_counts st" "\<lambda>w. w" "\<lambda>_. ?sh" ws] by (simp add: split_inv_def)
  moreover have "fst ` set ?d \<subseteq> set eligible"
    using inv ws foldl_dict_add_keys [of "\<lambda>w. w" "\<lambda>_. ?sh" "known_counts st" ws] by (simp add: split_inv_def)
  moreover have "\<forall>v \<in> snd ` set ?d. 0 \<le> v"
    using inv q by (intro nonneg_foldl_dict_add [where val = "\<lambda>_. ?sh" and key = "\<lambda>w. w"]) (simp_all add: split_inv_def)
  moreover have "sum_list (map snd ?d) = of_int (ss_matched st + q)"
    using inv ws(1) foldl_dict_add_total [of "\<lambda>w. w" "\<lambda>_. ?sh" "known_counts st" ws]
    by (simp add: split_inv_def sum_list_triv)
  ultimately show ?thesis using inv q by (simp only: split_inv_def split_state.simps) simp
qed

lemma count_orders_inv:
  assumes "count_orders c rules eligible st orders = Inr st'" "split_inv eligible st"
  shows "split_inv eligible st'"
  using assms
proof (induction c rules eligible st orders rule: count_orders.induct)
  case (2 c rules eligible st p q orders)
  show ?case
  proof (cases "q \<le> 0")
    case False
    then obtain winners where w: "match_warehouses p c rules = Inr winners"
      using "2.prems"(1) by (auto simp: bind_res_Inr_iff)
    show ?thesis
    proof (cases "filter (\<lambda>w. w \<in> set eligible) winners = []")
      case True
      have "split_inv eligible (st\<lparr>ss_unknown := ss_unknown st + q\<rparr>)"
        using "2.prems"(2) False by (simp add: split_inv_def)
      then show ?thesis using "2.IH"(2) [OF False refl True] "2.prems"(1) False w True by simp
    next
      case ne: False
      have "split_inv eligible (st\<lparr>known_counts := foldl (\<lambda>d wid. dict_add wid
          (of_int q / of_nat (length (filter (\<lambda>w. w \<in> set eligible) winners))) d) (known_counts st)
          (filter (\<lambda>w. w \<in> set eligible) winners), ss_matched := ss_matched st + q\<rparr>)"
        using "2.prems"(2) False by (intro split_inv_match ne) auto
      then show ?thesis using "2.IH"(3) [OF False refl ne refl] "2.prems"(1) False w ne by (simp add: Let_def)
    qed
  qed (use 2 in simp)
qed simp

text \<open>The accumulators are the sums over the orders, whichever way the run goes.\<close>

lemma count_orders_sums:
  assumes "count_orders c rules eligible st orders = Inr st'"
  shows "ss_matched st' = ss_matched st + ordered_qty (\<lambda>p. order_winners c rules eligible p \<noteq> []) orders"
    and "ss_unknown st' = ss_unknown st + ordered_qty (\<lambda>p. order_winners c rules eligible p = []) orders"
    and "dict_get_or (known_counts st') wid 0 =
      dict_get_or (known_counts st) wid 0 + sum_list (map (order_share c rules eligible wid) orders)"
proof -
  have "ss_matched st' = ss_matched st + ordered_qty (\<lambda>p. order_winners c rules eligible p \<noteq> []) orders \<and>
    ss_unknown st' = ss_unknown st + ordered_qty (\<lambda>p. order_winners c rules eligible p = []) orders \<and>
    dict_get_or (known_counts st') wid 0 =
      dict_get_or (known_counts st) wid 0 + sum_list (map (order_share c rules eligible wid) orders)"
    using assms
  proof (induction c rules eligible st orders rule: count_orders.induct)
    case (2 c rules eligible st p q orders)
    show ?case
    proof (cases "q \<le> 0")
      case True
      then show ?thesis using 2 by (simp add: ordered_qty_def order_share_def)
    next
      case False
      then obtain winners where w: "match_warehouses p c rules = Inr winners"
        using "2.prems"(1) by (auto simp: bind_res_Inr_iff)
      let ?ws = "filter (\<lambda>w. w \<in> set eligible) winners"
      have ow: "order_winners c rules eligible p = ?ws" by (simp add: order_winners_def w)
      show ?thesis
      proof (cases "?ws = []")
        case True
        then show ?thesis using "2.IH"(2) [OF False refl True] "2.prems"(1) False w ow
          by (simp add: ordered_qty_def order_share_def)
      next
        case ne: False
        let ?sh = "of_int q / of_nat (length ?ws) :: rat"
        have "dict_get_or (foldl (\<lambda>d wid. dict_add wid ?sh d) (known_counts st) ?ws) wid 0 =
            dict_get_or (known_counts st) wid 0 + order_share c rules eligible wid (p, q)"
          unfolding foldl_dict_add_get [of "\<lambda>w. w" "\<lambda>_. ?sh" "known_counts st" ?ws wid]
          using False by (simp add: order_share_def ow Let_def sum_list_triv)
        then show ?thesis using "2.IH"(3) [OF False refl ne refl] "2.prems"(1) False w ne ow
          by (simp add: ordered_qty_def Let_def)
      qed
    qed
  qed (simp add: ordered_qty_def)
  then show "ss_matched st' = ss_matched st + ordered_qty (\<lambda>p. order_winners c rules eligible p \<noteq> []) orders"
    and "ss_unknown st' = ss_unknown st + ordered_qty (\<lambda>p. order_winners c rules eligible p = []) orders"
    and "dict_get_or (known_counts st') wid 0 =
      dict_get_or (known_counts st) wid 0 + sum_list (map (order_share c rules eligible wid) orders)" by simp_all
qed

lemma count_orders_total:
  "\<forall>(p, q) \<in> set orders. 0 < q \<longrightarrow> (\<exists>ws. match_warehouses p c rules = Inr ws) \<Longrightarrow>
   \<exists>st'. count_orders c rules eligible st orders = Inr st'"
  by (induction orders arbitrary: st) (auto simp: Let_def)

subsection \<open>Conservation\<close>

definition filter_mem_counts :: "warehouse_id list \<Rightarrow> split_state \<Rightarrow> (warehouse_id \<times> rat) list" where
  "filter_mem_counts eligible st = map (\<lambda>wid. (wid, dict_get_or (known_counts st) wid 0))
     (filter (\<lambda>wid. dict_mem wid (known_counts st)) eligible)"

lemma sum_ordered_counts:
  assumes inv: "split_inv eligible st" and d: "distinct eligible"
  shows "sum_list (map snd (filter_mem_counts eligible st)) = of_int (ss_matched st)"
proof -
  let ?ks = "filter (\<lambda>wid. dict_mem wid (known_counts st)) eligible"
  have "map snd (filter_mem_counts eligible st) = map (\<lambda>k. dict_get_or (known_counts st) k 0) ?ks"
    by (simp add: filter_mem_counts_def)
  moreover have "sum_list (map (\<lambda>k. dict_get_or (known_counts st) k 0) ?ks) = sum_list (map snd (known_counts st))"
    using inv d by (intro sum_list_get_or_keys) (auto simp: split_inv_def dict_mem_def)
  ultimately show ?thesis using inv by (simp add: split_inv_def)
qed

lemma ordered_counts_ok:
  assumes inv: "split_inv eligible st" and d: "distinct eligible" and m: "0 < ss_matched st" and q: "0 \<le> q"
  shows "weights_ok q (filter_mem_counts eligible st)"
proof -
  let ?ks = "filter (\<lambda>wid. dict_mem wid (known_counts st)) eligible"
  have keys: "map fst (filter_mem_counts eligible st) = ?ks"
    by (simp add: filter_mem_counts_def comp_def)
  have "sum_list (map snd (filter_mem_counts eligible st)) = of_int (ss_matched st)"
    by (rule sum_ordered_counts [OF inv d])
  moreover have "0 \<le> dict_get_or (known_counts st) wid 0" for wid
    using dict_get_or_value [of "known_counts st" wid 0] inv by (auto simp: split_inv_def)
  then have "\<forall>w \<in> snd ` set (filter_mem_counts eligible st). 0 \<le> w"
    by (auto simp: filter_mem_counts_def)
  ultimately show ?thesis using keys d m q by (simp add: weights_ok_def)
qed

lemma single_bucket:
  assumes "0 < m" "0 < q"
  shows "allocate_by_weights q [(Known, of_int m), (Unknown, 0)] = [(Known, q)]"
  using assms
  by (simp add: allocate_by_weights_def exact_share_def weight_remainders_def py_slice_to_def dict_set_def)

lemma bucket_weights_ok:
  "0 < ss_matched st \<Longrightarrow> 0 \<le> ss_unknown st \<Longrightarrow> 0 \<le> q \<Longrightarrow>
   weights_ok q [(Known, of_int (ss_matched st)), (Unknown, of_int (ss_unknown st))]"
  by (simp add: weights_ok_def add_pos_nonneg)

lemma split_known_conserves:
  assumes inv: "split_inv eligible st" and d: "distinct eligible" and m: "0 < ss_matched st"
    and q: "0 < q" and ne: "eligible \<noteq> []"
  shows "sum_list (map snd (split_known q eligible st)) = q"
    and "fst ` set (split_known q eligible st) \<subseteq> set eligible"
    and "wf_dict (split_known q eligible st)"
    and "\<forall>v \<in> snd ` set (split_known q eligible st). 0 \<le> v"
proof -
  define bs where "bs = [(Known, of_int (ss_matched st) :: rat), (Unknown, of_int (ss_unknown st))]"
  define k where "k = dict_get_or (allocate_by_weights q bs) Known 0"
  define u where "u = dict_get_or (allocate_by_weights q bs) Unknown 0"
  let ?A = "allocate_by_weights k (filter_mem_counts eligible st)"
  have bok: "weights_ok q bs" unfolding bs_def using inv m q by (intro bucket_weights_ok) (auto simp: split_inv_def)
  have ku: "0 \<le> k" "0 \<le> u" unfolding k_def u_def by (intro wa.share_nonneg bok)+
  have "dedup (map fst bs) = [Known, Unknown]" by (simp add: bs_def)
  then have sum: "k + u = q" using wa.shares_total [OF bok] by (simp add: k_def u_def)
  have cok: "weights_ok k (filter_mem_counts eligible st)" by (rule ordered_counts_ok [OF inv d m ku(1)])
  have eok: "even_ok u eligible" using ku(2) d ne by (auto simp: even_ok_def)
  have eq: "split_known q eligible st = foldl (\<lambda>d kv. dict_add (fst kv) (snd kv) d) ?A (allocate_even u eligible)"
    by (simp add: split_known_def Let_def filter_mem_counts_def case_prod_unfold bs_def k_def u_def)
  show "sum_list (map snd (split_known q eligible st)) = q"
    unfolding eq ev.merge_total [OF eok] using wa.alloc_total [OF cok] sum by simp
  have "set (map fst (filter_mem_counts eligible st)) \<subseteq> set eligible" by (auto simp: filter_mem_counts_def)
  then show "fst ` set (split_known q eligible st) \<subseteq> set eligible"
    using wa.alloc_keys [OF cok] ev.alloc_keys [OF eok] unfolding eq foldl_dict_add_keys by blast
  show "wf_dict (split_known q eligible st)"
    unfolding eq by (intro foldl_dict_add_wf wa.alloc_wf [OF cok])
  show "\<forall>v \<in> snd ` set (split_known q eligible st). 0 \<le> v"
    unfolding eq by (intro nonneg_foldl_dict_add wa.alloc_nonneg [OF cok])
      (use ev.alloc_nonneg [OF eok] in blast)
qed

text \<open>The state the split starts from.\<close>

abbreviation split_start :: split_state where
  "split_start \<equiv> \<lparr>known_counts = [], ss_matched = 0, ss_unknown = 0\<rparr>"

lemma split_start_inv: "split_inv eligible split_start"
  by (simp add: split_inv_def)

lemma explain_cases:
  assumes "explain_country_qty_split c q orders rules whs = Inr r" "0 < q"
  obtains (known) st where "count_orders c rules (dedup whs) split_start orders = Inr st"
      "0 < ss_matched st" "dedup whs \<noteq> []"
      "r = \<lparr>warehouse_breakdown = filter (\<lambda>(k, v). v > 0) (split_known q (dedup whs) st),
            allocation_mode = (if ss_unknown st > 0 then ''mixed_known_unknown'' else ''matched''),
            matched_order_qty = ss_matched st, unknown_order_qty = ss_unknown st, eligible_warehouses = dedup whs\<rparr>"
  | (none) st where "count_orders c rules (dedup whs) split_start orders = Inr st" "ss_matched st = 0" "dedup whs = []"
      "r = \<lparr>warehouse_breakdown = [], allocation_mode = ''no_warehouse'', matched_order_qty = 0,
            unknown_order_qty = ss_unknown st, eligible_warehouses = []\<rparr>"
  | (even) st where "count_orders c rules (dedup whs) split_start orders = Inr st" "ss_matched st = 0" "dedup whs \<noteq> []"
      "r = \<lparr>warehouse_breakdown = filter (\<lambda>(k, v). v > 0) (allocate_even q (dedup whs)),
            allocation_mode = ''fallback_even'', matched_order_qty = 0,
            unknown_order_qty = ss_unknown st, eligible_warehouses = dedup whs\<rparr>"
proof -
  obtain st where st: "count_orders c rules (dedup whs) split_start orders = Inr st"
    using assms by (auto simp: explain_country_qty_split_def Let_def bind_res_Inr_iff)
  have inv: "split_inv (dedup whs) st" by (rule count_orders_inv [OF st split_start_inv])
  then have s: "sum_list (map snd (known_counts st)) = of_int (ss_matched st)" "0 \<le> ss_matched st"
    by (simp_all add: split_inv_def)
  show thesis
  proof (cases "0 < ss_matched st")
    case True
    then have "known_counts st \<noteq> []" using s by auto
    then have "dedup whs \<noteq> []" using inv by (auto simp: split_inv_def)
    then show thesis using known [OF st True] assms st s True by (simp add: explain_country_qty_split_def Let_def)
  next
    case False
    then have m: "ss_matched st = 0" using s by simp
    then show thesis
      using none [OF st m] even [OF st m] assms st s by (cases "dedup whs = []") (simp_all add: explain_country_qty_split_def Let_def)
  qed
qed

lemma explain_total:
  assumes "\<forall>(p, q) \<in> set orders. 0 < q \<longrightarrow> (\<exists>ws. match_warehouses p c rules = Inr ws)"
  shows "\<exists>r. explain_country_qty_split c country_qty orders rules country_warehouses = Inr r"
proof -
  obtain st where "count_orders c rules (dedup country_warehouses) split_start orders = Inr st"
    using count_orders_total [OF assms] by blast
  then show ?thesis by (simp add: explain_country_qty_split_def Let_def)
qed

lemma explain_conserves:
  assumes r: "explain_country_qty_split c country_qty orders rules country_warehouses = Inr r" and pos: "0 < country_qty"
  shows "eligible_warehouses r = dedup country_warehouses
    \<and> matched_order_qty r + unknown_order_qty r = sum_list (map (\<lambda>(p, q). max q 0) orders)
    \<and> (if country_warehouses = []
       then warehouse_breakdown r = [] \<and> allocation_mode r = ''no_warehouse''
       else sum_list (map snd (warehouse_breakdown r)) = country_qty
         \<and> wf_dict (warehouse_breakdown r)
         \<and> fst ` set (warehouse_breakdown r) \<subseteq> set country_warehouses
         \<and> (\<forall>v \<in> snd ` set (warehouse_breakdown r). 0 < v))"
proof -
  let ?E = "dedup country_warehouses"
  have tot: "ss_matched st + ss_unknown st = sum_list (map (\<lambda>(p, q). max q 0) orders)"
    if "count_orders c rules ?E split_start orders = Inr st" for st
    using count_orders_sums(1,2) [OF that]
    by (simp add: ordered_qty_def case_prod_unfold flip: sum_list_addf) (rule arg_cong [of _ _ sum_list], simp)
  from r pos show ?thesis
  proof (cases rule: explain_cases)
    case (known st)
    have inv: "split_inv ?E st" by (rule count_orders_inv [OF known(1) split_start_inv])
    note sk = split_known_conserves [OF inv distinct_dedup known(2) pos known(3)]
    have "fst ` set (warehouse_breakdown r) \<subseteq> set country_warehouses"
      using sk(2) known(4) by auto
    then show ?thesis using tot [OF known(1)] known sum_list_filter_pos [OF sk(4)] sk(1,3)
      by (auto simp: distinct_map_filter)
  next
    case (none st)
    then show ?thesis using tot [OF none(1)] by simp
  next
    case (even st)
    have ok: "even_ok country_qty ?E" using pos even(3) by (simp add: even_ok_def)
    have "fst ` set (warehouse_breakdown r) \<subseteq> set country_warehouses"
      using ev.alloc_keys [OF ok] even(4) by auto
    then show ?thesis
      using tot [OF even(1)] even sum_list_filter_pos [OF ev.alloc_nonneg [OF ok]] ev.alloc_wf [OF ok] ev.alloc_total [OF ok]
      by (auto simp: distinct_map_filter)
  qed
qed

section \<open>Properties\<close>

text \<open>
  C35: for positive quantities and non-negative weights with a positive sum,
  \<^verbatim>\<open>_allocate_by_weights\<close> is the largest-remainder method: the parts add up to the
  quantity exactly, every key gets the floor of its exact share or one more, and no key gets
  the extra unit while one with a strictly larger fractional part does not.
\<close>

theorem allocate_by_weights_largest_remainder:
  assumes "0 < t" "wf_dict ws" "0 < sum_list (map snd ws)" "\<forall>w \<in> snd ` set ws. 0 \<le> w"
  defines "share \<equiv> exact_share t (sum_list (map snd ws))"
    and "got \<equiv> \<lambda>k. dict_get_or (allocate_by_weights t ws) k 0"
  shows "sum_list (map (\<lambda>(k, w). got k) ws) = t
    \<and> (\<forall>(k, w) \<in> set ws. got k = \<lfloor>share w\<rfloor> \<or> got k = \<lfloor>share w\<rfloor> + 1)
    \<and> (\<forall>(k, w) \<in> set ws. \<forall>(k', w') \<in> set ws.
         got k = \<lfloor>share w\<rfloor> + 1 \<and> got k' = \<lfloor>share w'\<rfloor> \<longrightarrow> frac (share w') \<le> frac (share w))"
proof -
  have ok: "weights_ok t ws" using assms by (simp add: weights_ok_def)
  note get = allocate_by_weights_get [OF ok assms(1), folded share_def]
  have "map (\<lambda>(k, w). got k) ws = map got (dedup (map fst ws))"
    using assms(2) by (simp add: case_prod_unfold)
  then have "sum_list (map (\<lambda>(k, w). got k) ws) = t"
    using wa.shares_total [OF ok] by (simp only: got_def)
  moreover have "\<forall>(k, w) \<in> set ws. got k = \<lfloor>share w\<rfloor> \<or> got k = \<lfloor>share w\<rfloor> + 1"
    using get by (auto simp: got_def)
  moreover have "frac (share w') \<le> frac (share w)"
    if "(k, w) \<in> set ws" "(k', w') \<in> set ws" "got k = \<lfloor>share w\<rfloor> + 1" "got k' = \<lfloor>share w'\<rfloor>" for k w k' w'
    using weight_chosen_largest [OF assms(2) that(1,2), of t, folded share_def] get [OF that(1)] get [OF that(2)] that(3,4)
    by (auto simp: got_def split: if_splits)
  ultimately show ?thesis by blast
qed

theorem allocate_by_weights_largest_remainder_witness:
  "allocate_by_weights 10 [(''A'', 1), (''B'', 1), (''C'', 1 :: rat)] = [(''A'', 4), (''B'', 3), (''C'', 3)]
   \<and> sum_list (map (\<lambda>(k, w). dict_get_or (allocate_by_weights 10 [(''A'', 1), (''B'', 1), (''C'', 1 :: rat)]) k 0)
        [(''A'', 1), (''B'', 1), (''C'', 1 :: rat)]) = 10"
proof
  show "allocate_by_weights 10 [(''A'', 1), (''B'', 1), (''C'', 1 :: rat)] = [(''A'', 4), (''B'', 3), (''C'', 3)]"
    by code_simp
  show "sum_list (map (\<lambda>(k, w). dict_get_or (allocate_by_weights 10 [(''A'', 1), (''B'', 1), (''C'', 1 :: rat)]) k 0)
        [(''A'', 1), (''B'', 1), (''C'', 1 :: rat)]) = 10"
    using allocate_by_weights_largest_remainder [of 10 "[(''A'', 1), (''B'', 1), (''C'', 1 :: rat)]"] by simp
qed

text \<open>
  C14: whatever the orders and rules, the units of a country are neither lost nor invented on
  their way to its warehouses: when a split of a positive quantity returns and the country has
  a warehouse, the breakdown is a dictionary of strictly positive quantities on eligible
  warehouses that sums to the quantity; without a warehouse it is empty and says so. The two
  order counters add up to the positive ordered units. And the split does return whenever
  the matcher does on every postal code.
\<close>

theorem split_conserves_quantity:
  assumes "0 < country_qty" "\<forall>(p, q) \<in> set orders. 0 < q \<longrightarrow> (\<exists>ws. match_warehouses p c rules = Inr ws)"
  shows "\<exists>r. explain_country_qty_split c country_qty orders rules country_warehouses = Inr r
    \<and> eligible_warehouses r = dedup country_warehouses
    \<and> matched_order_qty r + unknown_order_qty r = sum_list (map (\<lambda>(p, q). max q 0) orders)
    \<and> (if country_warehouses = []
       then warehouse_breakdown r = [] \<and> allocation_mode r = ''no_warehouse''
       else sum_list (map snd (warehouse_breakdown r)) = country_qty
         \<and> wf_dict (warehouse_breakdown r)
         \<and> fst ` set (warehouse_breakdown r) \<subseteq> set country_warehouses
         \<and> (\<forall>v \<in> snd ` set (warehouse_breakdown r). 0 < v))"
proof -
  obtain r where "explain_country_qty_split c country_qty orders rules country_warehouses = Inr r"
    using explain_total [OF assms(2)] by blast
  with explain_conserves [OF this assms(1)] show ?thesis by blast
qed

definition demo_split_rules :: "zipcode_rule list" where
  "demo_split_rules =
     [\<lparr>zr_id = 1, zr_country = ''US'', zr_prefix_length = 1, zr_value_type = ''string'', zr_operator = ''='',
       zr_compare_value = ''1'', zr_warehouse_id = ''EAST'', zr_priority = 1\<rparr>,
      \<lparr>zr_id = 2, zr_country = ''US'', zr_prefix_length = 1, zr_value_type = ''string'', zr_operator = ''='',
       zr_compare_value = ''9'', zr_warehouse_id = ''WEST'', zr_priority = 1\<rparr>]"

definition demo_split_orders :: "postal_order list" where
  "demo_split_orders = [(Some ''10001'', 3), (Some ''90210'', 5), (None, 2)]"

lemma demo_split_eval:
  "map_res (\<lambda>(p, q). match_warehouses p ''US'' demo_split_rules) demo_split_orders = Inr [[''EAST''], [''WEST''], []]"
  by code_simp

theorem split_conserves_quantity_witness:
  "\<exists>r. explain_country_qty_split ''US'' 7 demo_split_orders demo_split_rules [''EAST'', ''WEST''] = Inr r
     \<and> sum_list (map snd (warehouse_breakdown r)) = 7"
proof -
  have "\<forall>(p, q) \<in> set demo_split_orders. 0 < q \<longrightarrow> (\<exists>ws. match_warehouses p ''US'' demo_split_rules = Inr ws)"
    using demo_split_eval by (auto simp: demo_split_orders_def bind_res_Inr_iff)
  from split_conserves_quantity [OF _ this, of 7 "[''EAST'', ''WEST'']"] show ?thesis by auto
qed

text \<open>
  The split follows the demand: when every counted order has a winner, each warehouse
  receives the floor of the proportional share of its demand, or one unit more, where the
  demand of a warehouse is the sum over the orders of an equal part of the ordered quantity
  for each winner of the postal code.
\<close>

theorem split_follows_demand:
  assumes "0 < country_qty" "explain_country_qty_split c country_qty orders rules country_warehouses = Inr r"
    "allocation_mode r = ''matched''" "wid \<in> set country_warehouses"
  defines "demand \<equiv> sum_list (map (order_share c rules (dedup country_warehouses) wid) orders)"
  shows "dict_get_or (warehouse_breakdown r) wid 0 - \<lfloor>of_int country_qty * demand / of_int (matched_order_qty r)\<rfloor> \<in> {0, 1}"
  using assms(2,1)
proof (cases rule: explain_cases)
  case (known st)
  let ?E = "dedup country_warehouses" and ?ws = "filter_mem_counts (dedup country_warehouses) st"
  have inv: "split_inv ?E st" by (rule count_orders_inv [OF known(1) split_start_inv])
  have u: "ss_unknown st = 0" using inv known(4) assms(3) by (auto simp: split_inv_def split: if_splits)
  have dm: "dict_get_or (known_counts st) wid 0 = demand"
    unfolding demand_def using count_orders_sums(3) [OF known(1), of wid] by simp
  have b: "allocate_by_weights country_qty [(Known, of_int (ss_matched st)), (Unknown, 0)] = [(Known, country_qty)]"
    by (rule single_bucket [OF known(2) assms(1)])
  have sk: "split_known country_qty ?E st = allocate_by_weights country_qty ?ws"
    using u b by (simp add: split_known_def Let_def filter_mem_counts_def dict_get_or_def dict_get_Cons)
  have ok: "weights_ok country_qty ?ws"
    using assms(1) by (intro ordered_counts_ok [OF inv distinct_dedup known(2)]) simp
  have get: "dict_get_or (warehouse_breakdown r) wid 0 = dict_get_or (allocate_by_weights country_qty ?ws) wid 0"
    using known(4) get_or_filter_pos [OF wa.alloc_wf [OF ok] wa.alloc_nonneg [OF ok]] by (simp add: sk)
  show ?thesis
  proof (cases "dict_mem wid (known_counts st)")
    case True
    then have "(wid, demand) \<in> set ?ws" using assms(4) by (simp add: filter_mem_counts_def dm [symmetric])
    from allocate_by_weights_get [OF ok assms(1) this] show ?thesis
      using get known(4) sum_ordered_counts [OF inv distinct_dedup] by (simp add: exact_share_def)
  next
    case False
    then have "demand = 0" using dm by (simp add: dict_get_or_def dict_mem_iff_get)
    moreover have "dict_get (allocate_by_weights country_qty ?ws) wid = None"
      using wa.alloc_keys [OF ok] False by (auto simp: dict_get_None_iff filter_mem_counts_def)
    ultimately show ?thesis using get by (simp add: dict_get_or_def)
  qed
qed (use assms(3) in simp_all)

theorem split_follows_demand_witness:
  "\<exists>r. explain_country_qty_split ''US'' 7 (take 2 demo_split_orders) demo_split_rules [''EAST'', ''WEST''] = Inr r
     \<and> dict_get_or (warehouse_breakdown r) ''WEST'' 0 \<in> {4, 5}"
proof -
  let ?r = "\<lparr>warehouse_breakdown = [(''EAST'', 3), (''WEST'', 4)], allocation_mode = ''matched'',
     matched_order_qty = 8, unknown_order_qty = 0, eligible_warehouses = [''EAST'', ''WEST'']\<rparr>"
  have r: "explain_country_qty_split ''US'' 7 (take 2 demo_split_orders) demo_split_rules [''EAST'', ''WEST''] = Inr ?r"
    by code_simp
  have d: "sum_list (map (order_share ''US'' demo_split_rules (dedup [''EAST'', ''WEST'']) ''WEST'') (take 2 demo_split_orders)) = 5"
    by code_simp
  have "dict_get_or (warehouse_breakdown ?r) ''WEST'' 0 - \<lfloor>of_int 7 * 5 / of_int (matched_order_qty ?r) :: rat\<rfloor> \<in> {0, 1}"
    using split_follows_demand [OF _ r, of "''WEST''"] d by simp
  then have "dict_get_or (warehouse_breakdown ?r) ''WEST'' 0 \<in> {4, 5}"
    by (simp add: floor_divide_of_int_eq [of 35 8, where 'a = rat, simplified])
  with r show ?thesis by blast
qed

end
