(* ===== verification/Step6_Timing.thy ===== *)
theory Step6_Timing
  imports Engine_Context
begin

text \<open>
  \<^verbatim>\<open>engine/step6_timing.py\<close>, \<^verbatim>\<open>engine/warnings.py\<close> and \<^verbatim>\<open>engine/restock_dates.py\<close>:
  whether a SKU is urgent, the diagnostics of an item and its restock dates.

  The sale days of a country are a JSON value when they are re-read from a stored item:
  a number, null, or something \<^verbatim>\<open>float()\<close> rejects with a type or value error. Text that
  holds a date in ISO form is represented by the date.
\<close>

datatype sale_value = SaleNumber pyfloat | SaleInvalid

type_synonym sale_days_dict = "(country, sale_value option) dict"

record urgency_result =
  ur_urgent :: bool

definition positive_qty_countries :: "(country, int) dict \<Rightarrow> country list" where
  "positive_qty_countries country_qty_for_sku = dedup [c. (c, qty) \<leftarrow> country_qty_for_sku, qty > 0]"

text \<open>The loop returns on the first urgent country; which one it is does not matter.\<close>

fun urgent_loop :: "sale_days_dict \<Rightarrow> int \<Rightarrow> country list \<Rightarrow> bool" where
  "urgent_loop sale_days lead_time_days [] = False"
| "urgent_loop sale_days lead_time_days (c # countries) =
     (case dict_get sale_days c of
        None \<Rightarrow> urgent_loop sale_days lead_time_days countries
      | Some None \<Rightarrow> urgent_loop sale_days lead_time_days countries
      | Some (Some SaleInvalid) \<Rightarrow> urgent_loop sale_days lead_time_days countries
      | Some (Some (SaleNumber days)) \<Rightarrow>
          if days \<le> of_int lead_time_days then True
          else urgent_loop sale_days lead_time_days countries)"

definition has_urgent_sale_days :: "sale_days_dict \<Rightarrow> int \<Rightarrow> country list option \<Rightarrow> bool" where
  "has_urgent_sale_days sale_days_by_country lead_time_days countries =
     urgent_loop sale_days_by_country lead_time_days
       (case countries of None \<Rightarrow> dedup (dict_keys sale_days_by_country) | Some cs \<Rightarrow> cs)"

definition compute_urgency_for_sku :: "sale_days_dict \<Rightarrow> (country, int) dict \<Rightarrow> int \<Rightarrow> urgency_result" where
  "compute_urgency_for_sku sale_days_for_sku country_qty_for_sku lead_time_days =
     \<lparr>ur_urgent = has_urgent_sale_days sale_days_for_sku lead_time_days
        (Some (positive_qty_countries country_qty_for_sku))\<rparr>"

definition step6_timing ::
  "(sku, sale_days_dict) dict \<Rightarrow> (sku, int) dict \<Rightarrow> int country_map option \<Rightarrow> (sku, urgency_result) dict" where
  "step6_timing sale_days_snapshot lead_time_by_sku country_qty =
     (let qty = (case country_qty of None \<Rightarrow> [] | Some d \<Rightarrow> d)
      in foldl (\<lambda>result sku. dict_set sku
            (compute_urgency_for_sku (dict_get_or sale_days_snapshot sku []) (dict_get_or qty sku [])
               (dict_get_or lead_time_by_sku sku 50)) result)
           [] (dedup (dict_keys sale_days_snapshot @ dict_keys lead_time_by_sku @ dict_keys qty)))"

subsection \<open>Warnings\<close>

record calculation_warning =
  cw_code :: string
  cw_country :: country
  cw_reason :: string
  cw_message :: string

definition WARNING_MESSAGES :: "(string, string) dict" where
  "WARNING_MESSAGES =
     [(''missing_inventory_record'',
        utf8 [230, 156, 137, 233, 148, 128, 233, 135, 143, 228, 189, 134, 231, 188, 186, 229, 176, 145, 229,
        186, 147, 229, 173, 152, 230, 136, 150, 229, 156, 168, 233, 128, 148, 232, 174, 176, 229, 189, 149,
        239, 188, 140, 230, 156, 170, 230, 138, 138, 230, 156, 170, 231, 159, 165, 229, 186, 147, 229, 173,
        152, 230, 140, 137, 32, 48, 32, 229, 143, 130, 228, 184, 142, 232, 161, 165, 232, 180, 167, 232,
        174, 161, 231, 174, 151]),
      (''country_added_after_generation'',
        utf8 [232, 175, 165, 229, 155, 189, 229, 174, 182, 230, 152, 175, 229, 156, 168, 229, 187, 186, 232,
        174, 174, 229, 141, 149, 231, 148, 159, 230, 136, 144, 229, 144, 142, 230, 137, 139, 229, 183, 165,
        230, 150, 176, 229, 162, 158, 239, 188, 140, 231, 188, 186, 229, 176, 145, 229, 142, 159, 229, 167,
        139, 229, 143, 175, 229, 148, 174, 229, 164, 169, 230, 149, 176]),
      (''missing_velocity'',
        utf8 [231, 188, 186, 229, 176, 145, 232, 175, 165, 229, 155, 189, 229, 174, 182, 231, 154, 132, 233,
        148, 128, 233, 135, 143, 233, 128, 159, 229, 186, 166, 239, 188, 140, 230, 151, 160, 230, 179, 149,
        232, 174, 161, 231, 174, 151, 229, 143, 175, 229, 148, 174, 229, 164, 169, 230, 149, 176]),
      (''invalid_sale_days'',
        utf8 [229, 143, 175, 229, 148, 174, 229, 164, 169, 230, 149, 176, 228, 184, 141, 230, 152, 175, 230,
        156, 137, 230, 149, 136, 230, 149, 176, 229, 128, 188, 239, 188, 140, 230, 151, 160, 230, 179, 149,
        232, 174, 161, 231, 174, 151, 231, 180, 167, 230, 128, 165, 231, 138, 182, 230, 128, 129, 229, 146,
        140, 232, 161, 165, 232, 180, 167, 230, 151, 165, 230, 156, 159]),
      (''non_reportable_country'',
        utf8 [232, 175, 165, 229, 155, 189, 229, 174, 182, 228, 184, 141, 229, 143, 175, 231, 148, 168, 228,
        186, 142, 230, 138, 165, 232, 161, 168, 230, 136, 150, 232, 161, 165, 232, 180, 167, 232, 174, 161,
        231, 174, 151])]"

definition warning_message :: "string \<Rightarrow> string" where
  "warning_message code = dict_get_or WARNING_MESSAGES code
     (utf8 [232, 175, 165, 230, 157, 161, 231, 155, 174, 229, 173, 152, 229, 156, 168, 230, 151, 160, 230,
     179, 149, 232, 135, 170, 229, 138, 168, 232, 167, 163, 233, 135, 138, 231, 154, 132, 232, 174, 161,
     231, 174, 151, 232, 175, 138, 230, 150, 173])"

definition make_warning :: "string \<Rightarrow> country \<Rightarrow> string option \<Rightarrow> calculation_warning" where
  "make_warning code c reason =
     \<lparr>cw_code = code, cw_country = c,
      cw_reason = (case reason of None \<Rightarrow> code | Some r \<Rightarrow> if r = [] then code else r),
      cw_message = warning_message code\<rparr>"

definition positive_int :: "int \<Rightarrow> bool" where
  "positive_int value \<longleftrightarrow> value > 0"

definition warning_code ::
  "sale_days_dict \<Rightarrow> (country, pyfloat) dict \<Rightarrow> country list \<Rightarrow> country list \<Rightarrow> country \<Rightarrow> string option" where
  "warning_code sale_days velocity added missing_inventory c =
     (if \<not> reportable c then Some ''non_reportable_country''
      else if c \<in> set missing_inventory then Some ''missing_inventory_record''
      else case dict_get sale_days c of
             None \<Rightarrow>
               if c \<in> set added then Some ''country_added_after_generation''
               else if velocity \<noteq> [] \<and> \<not> dict_mem c velocity then Some ''missing_velocity''
               else Some ''missing_velocity''
           | Some None \<Rightarrow> Some ''invalid_sale_days''
           | Some (Some SaleInvalid) \<Rightarrow> Some ''invalid_sale_days''
           | Some (Some (SaleNumber d)) \<Rightarrow> None)"

fun warnings_loop :: "(country \<Rightarrow> string option) \<Rightarrow> (string \<times> country) list \<Rightarrow> calculation_warning list \<Rightarrow>
    country list \<Rightarrow> calculation_warning list" where
  "warnings_loop code_of seen warnings [] = warnings"
| "warnings_loop code_of seen warnings (c # countries) =
     (case code_of c of
        None \<Rightarrow> warnings_loop code_of seen warnings countries
      | Some code \<Rightarrow>
          if (code, c) \<in> set seen then warnings_loop code_of seen warnings countries
          else warnings_loop code_of ((code, c) # seen) (warnings @ [make_warning code c None]) countries)"

definition build_calculation_warnings ::
  "(country, int) dict \<Rightarrow> sale_days_dict option \<Rightarrow> (country, pyfloat) dict option \<Rightarrow> country list option \<Rightarrow>
   country list option \<Rightarrow> calculation_warning list" where
  "build_calculation_warnings country_qty_for_sku sale_days_for_sku velocity_for_sku added_countries missing_inventory_countries =
     (let sale_days = (case sale_days_for_sku of None \<Rightarrow> [] | Some d \<Rightarrow> d);
          velocity = (case velocity_for_sku of None \<Rightarrow> [] | Some d \<Rightarrow> d);
          added = (case added_countries of None \<Rightarrow> [] | Some l \<Rightarrow> l);
          missing_inventory = (case missing_inventory_countries of None \<Rightarrow> [] | Some l \<Rightarrow> l);
          candidate_countries = [c. (c, qty) \<leftarrow> country_qty_for_sku, positive_int qty] @ missing_inventory
      in warnings_loop (warning_code sale_days velocity added missing_inventory) [] [] (sorted_set candidate_countries))"

subsection \<open>Restock dates\<close>

definition demand_restock_dates :: "(country, int) dict \<Rightarrow> date option \<Rightarrow> (country, date option) dict" where
  "demand_restock_dates country_qty_for_sku demand_date =
     foldl (\<lambda>d (c, qty). if qty > 0 then dict_set c demand_date d else d) [] country_qty_for_sku"

section \<open>Lemmas\<close>

lemma urgent_loop_iff:
  "urgent_loop sale_days lead_time_days countries \<longleftrightarrow>
     (\<exists>c \<in> set countries. \<exists>days. dict_get sale_days c = Some (Some (SaleNumber days)) \<and> days \<le> of_int lead_time_days)"
  by (induction countries) (auto split: option.splits sale_value.splits)

lemma warnings_loop_eq:
  "distinct countries \<Longrightarrow> (\<forall>c \<in> set countries. \<forall>code. (code, c) \<notin> set seen) \<Longrightarrow>
   warnings_loop code_of seen warnings countries =
     warnings @ [make_warning code c None. c \<leftarrow> countries, code \<leftarrow> (case code_of c of None \<Rightarrow> [] | Some code \<Rightarrow> [code])]"
proof (induction countries arbitrary: seen warnings)
  case (Cons c countries)
  show ?case
  proof (cases "code_of c")
    case None
    then show ?thesis using Cons by simp
  next
    case (Some code)
    have "\<forall>c' \<in> set countries. \<forall>code'. (code', c') \<notin> set ((code, c) # seen)" using Cons.prems by auto
    then show ?thesis using Cons.IH [of "(code, c) # seen"] Cons.prems Some by simp
  qed
qed simp

section \<open>Properties\<close>

text \<open>
  A SKU is urgent exactly when some country with a positive restock quantity has a
  numeric number of sale days at or below the lead time; countries without sale days, or
  with an unreadable value, never make it urgent.
\<close>

theorem urgency_iff:
  "ur_urgent (compute_urgency_for_sku sale_days country_qty lead_time_days) \<longleftrightarrow>
     (\<exists>c qty days. (c, qty) \<in> set country_qty \<and> 0 < qty \<and>
        dict_get sale_days c = Some (Some (SaleNumber days)) \<and> days \<le> of_int lead_time_days)"
  by (auto simp: compute_urgency_for_sku_def has_urgent_sale_days_def urgent_loop_iff positive_qty_countries_def)

text \<open>
  The diagnostics of an item: one warning per country that has a restock quantity or
  lacks a stock record, sorted by country, none twice, with the code the decision table
  gives; a country whose sale days are a number gets none.
\<close>

theorem warnings_one_per_country:
  "let ws = build_calculation_warnings country_qty sale_days velocity added missing;
       code_of = warning_code (case sale_days of None \<Rightarrow> [] | Some d \<Rightarrow> d) (case velocity of None \<Rightarrow> [] | Some d \<Rightarrow> d)
         (case added of None \<Rightarrow> [] | Some l \<Rightarrow> l) (case missing of None \<Rightarrow> [] | Some l \<Rightarrow> l)
   in sorted (map cw_country ws) \<and> distinct (map cw_country ws)
    \<and> set (map (\<lambda>w. (cw_country w, cw_code w)) ws) =
        {(c, code). ((\<exists>qty. (c, qty) \<in> set country_qty \<and> 0 < qty) \<or> c \<in> set (case missing of None \<Rightarrow> [] | Some l \<Rightarrow> l))
           \<and> code_of c = Some code}"
proof -
  define ms where "ms = (case missing of None \<Rightarrow> [] | Some l \<Rightarrow> l)"
  define code_of where "code_of = warning_code (case sale_days of None \<Rightarrow> [] | Some d \<Rightarrow> d)
    (case velocity of None \<Rightarrow> [] | Some d \<Rightarrow> d) (case added of None \<Rightarrow> [] | Some l \<Rightarrow> l) ms"
  define cs where "cs = sorted_set ([c. (c, qty) \<leftarrow> country_qty, positive_int qty] @ ms)"
  have ws: "build_calculation_warnings country_qty sale_days velocity added missing =
      [make_warning code c None. c \<leftarrow> cs, code \<leftarrow> (case code_of c of None \<Rightarrow> [] | Some code \<Rightarrow> [code])]"
    unfolding build_calculation_warnings_def Let_def ms_def [symmetric] code_of_def [symmetric] cs_def [symmetric]
    by (subst warnings_loop_eq) (simp_all add: cs_def)
  have countries: "map cw_country [make_warning code c None. c \<leftarrow> ks, code \<leftarrow> (case code_of c of None \<Rightarrow> [] | Some code \<Rightarrow> [code])] =
      filter (\<lambda>c. code_of c \<noteq> None) ks" for ks
    by (induction ks) (auto simp: make_warning_def split: option.split)
  have mem: "c \<in> set cs \<longleftrightarrow> (\<exists>qty. (c, qty) \<in> set country_qty \<and> 0 < qty) \<or> c \<in> set ms" for c
    by (auto simp: cs_def positive_int_def)
  have "set (map (\<lambda>w. (cw_country w, cw_code w)) (build_calculation_warnings country_qty sale_days velocity added missing)) =
      {(c, code). c \<in> set cs \<and> code_of c = Some code}"
    unfolding ws by (force simp: make_warning_def split: option.splits)
  moreover have "sorted (filter (\<lambda>c. code_of c \<noteq> None) cs)" "distinct (filter (\<lambda>c. code_of c \<noteq> None) cs)"
    using sorted_sorted_set distinct_sorted_set
    by (simp_all add: cs_def sorted_wrt_filter)
  ultimately show ?thesis unfolding Let_def code_of_def [symmetric] ms_def [symmetric] mem [symmetric]
    by (simp add: ws countries)
qed

end
