(* ===== verification/Suggestion_Store.thy ===== *)
theory Suggestion_Store
  imports Step6_Timing
begin

text \<open>
  The tables the engine writes and the suggestion and snapshot endpoints read and change:
  \<^verbatim>\<open>models/suggestion.py\<close>, \<^verbatim>\<open>models/suggestion_snapshot.py\<close> and
  \<^verbatim>\<open>models/excel_export_log.py\<close>. JSON columns are the values they hold; texts that hold a
  date or a time in ISO form are represented by the date or the instant. A sequence counter
  per table gives the identifiers.
\<close>

text \<open>\<^verbatim>\<open>global_config_snapshot\<close>.\<close>

record config_snapshot =
  cs_buffer_days :: int
  cs_target_days :: int
  cs_lead_time_days :: "int option"
  cs_safety_stock_days :: int
  cs_restock_regions :: "string option list"
  cs_eu_countries :: "string option list"
  cs_shop_sync_mode :: string
  cs_snapshot_at :: instant
  cs_demand_date :: "date option"

record suggestion =
  sg_id :: int
  sg_status :: string
  sg_global_config_snapshot :: config_snapshot
  sg_total_items :: int
  sg_procurement_item_count :: int
  sg_restock_item_count :: int
  sg_triggered_by :: string
  sg_archived_at :: "instant option"
  sg_archived_by :: "int option"
  sg_archived_trigger :: "string option"
  sg_created_at :: instant

text \<open>The per-country record of how a quantity was split, and the inputs of the calculation.\<close>

record allocation_entry =
  ae_allocation_mode :: string
  ae_matched_order_qty :: int
  ae_unknown_order_qty :: int
  ae_eligible_warehouses :: "warehouse_id list"

record restock_inputs =
  ri_effective_target_days :: int
  ri_daily_velocity :: pyfloat
  ri_overseas_available :: int
  ri_overseas_reserved :: int
  ri_in_transit :: int
  ri_overseas_stock_total :: int
  ri_target_stock_qty :: int
  ri_raw_restock_qty :: int
  ri_final_restock_qty :: int
  ri_sale_days :: "pyfloat option"
  ri_restock_date :: "date option"

record purchase_inputs =
  pi_country_restock_qty_total :: int
  pi_country_restock_qty_by_country :: "(country, int) dict"
  pi_daily_velocity_total :: pyfloat
  pi_daily_velocity_by_country :: "(country, pyfloat) dict"
  pi_safety_stock_qty :: int
  pi_local_stock_available :: int
  pi_local_stock_reserved :: int
  pi_local_stock_total :: int
  pi_raw_purchase_qty :: int
  pi_final_purchase_qty :: int

record calculation_inputs =
  ci_version :: int
  ci_generated_at :: instant
  ci_demand_date :: date
  ci_target_days :: int
  ci_demand_days :: int
  ci_effective_target_days :: int
  ci_safety_stock_days :: int
  ci_purchase :: purchase_inputs
  ci_restock :: "(country, restock_inputs) dict"

text \<open>The columns the engine computes; the row adds the keys and the export state.\<close>

record item_values =
  si_commodity_sku :: sku
  si_total_qty :: int
  si_country_breakdown :: "(country, int) dict"
  si_warehouse_breakdown :: "(country, (warehouse_id, int) dict) dict"
  si_allocation_snapshot :: "(country, allocation_entry) dict option"
  si_velocity_snapshot :: "(country, pyfloat) dict option"
  si_sale_days_snapshot :: "sale_days_dict option"
  si_calculation_warnings :: "calculation_warning list"
  si_calculation_inputs_snapshot :: "calculation_inputs option"
  si_urgent :: bool
  si_purchase_qty :: int
  si_restock_dates :: "(country, date option) dict"

record suggestion_item = item_values +
  si_id :: int
  si_suggestion_id :: int
  si_restock_export_status :: string
  si_restock_exported_snapshot_id :: "int option"
  si_restock_exported_at :: "instant option"
  si_procurement_export_status :: string
  si_procurement_exported_snapshot_id :: "int option"
  si_procurement_exported_at :: "instant option"

record suggestion_snapshot =
  sn_id :: int
  sn_suggestion_id :: int
  sn_snapshot_type :: string
  sn_version :: int
  sn_exported_by :: "int option"
  sn_exported_at :: instant
  sn_exported_from_ip :: "string option"
  sn_item_count :: int
  sn_note :: "string option"
  sn_global_config_snapshot :: config_snapshot
  sn_generation_status :: string
  sn_file_path :: "string option"
  sn_file_size_bytes :: "int option"
  sn_generation_error :: "string option"
  sn_download_count :: int
  sn_last_downloaded_at :: "instant option"

record snapshot_item =
  ni_snapshot_id :: int
  ni_commodity_sku :: sku
  ni_total_qty :: int
  ni_country_breakdown :: "(country, int) dict"
  ni_warehouse_breakdown :: "(country, (warehouse_id, int) dict) dict"
  ni_restock_dates :: "(country, date option) dict"
  ni_purchase_qty :: "int option"
  ni_urgent :: bool
  ni_velocity_snapshot :: "(country, pyfloat) dict option"
  ni_sale_days_snapshot :: "sale_days_dict option"
  ni_calculation_warnings :: "calculation_warning list"
  ni_commodity_name :: "string option"
  ni_main_image_url :: "string option"

record excel_export_log =
  el_snapshot_id :: int
  el_action :: string
  el_performed_by :: "int option"
  el_performed_at :: instant
  el_performed_from_ip :: "string option"
  el_user_agent :: "string option"
  el_file_purged_at :: "instant option"

record suggestion_store =
  st_suggestions :: "suggestion list"
  st_items :: "suggestion_item list"
  st_snapshots :: "suggestion_snapshot list"
  st_snapshot_items :: "snapshot_item list"
  st_export_log :: "excel_export_log list"
  st_next_suggestion_id :: int
  st_next_item_id :: int
  st_next_snapshot_id :: int

text \<open>\<^verbatim>\<open>UPDATE t SET ... WHERE p\<close>.\<close>

definition update_where :: "('r \<Rightarrow> bool) \<Rightarrow> ('r \<Rightarrow> 'r) \<Rightarrow> 'r list \<Rightarrow> 'r list" where
  "update_where p f rows = map (\<lambda>r. if p r then f r else r) rows"

definition find_suggestion :: "suggestion_store \<Rightarrow> int \<Rightarrow> suggestion option" where
  "find_suggestion st sid = find (\<lambda>s. sg_id s = sid) (st_suggestions st)"

definition find_item :: "suggestion_store \<Rightarrow> int \<Rightarrow> int \<Rightarrow> suggestion_item option" where
  "find_item st sid iid = find (\<lambda>i. si_id i = iid \<and> si_suggestion_id i = sid) (st_items st)"

definition find_snapshot :: "suggestion_store \<Rightarrow> int \<Rightarrow> suggestion_snapshot option" where
  "find_snapshot st nid = find (\<lambda>n. sn_id n = nid) (st_snapshots st)"

section \<open>Lemmas\<close>

lemma map_update_where:
  "(\<And>r. g (f r) = g r) \<Longrightarrow> map g (update_where p f rows) = map g rows"
  by (simp add: update_where_def)

lemma set_update_where: "set (update_where p f rows) = f ` {r \<in> set rows. p r} \<union> {r \<in> set rows. \<not> p r}"
  by (auto simp: update_where_def)

lemma find_suggestion_SomeD: "find_suggestion st sid = Some s \<Longrightarrow> s \<in> set (st_suggestions st) \<and> sg_id s = sid"
  unfolding find_suggestion_def by (rule find_in_set)

lemma find_item_SomeD:
  "find_item st sid iid = Some i \<Longrightarrow> i \<in> set (st_items st) \<and> si_id i = iid \<and> si_suggestion_id i = sid"
  unfolding find_item_def by (drule find_in_set) simp

lemma find_snapshot_SomeD: "find_snapshot st nid = Some n \<Longrightarrow> n \<in> set (st_snapshots st) \<and> sn_id n = nid"
  unfolding find_snapshot_def by (rule find_in_set)

end
