(* ===== verification/Engine_Runner.thy ===== *)
theory Engine_Runner
  imports Step1_Velocity Step2_Sale_Days Step3_Country_Qty Step4_Total Step5_Warehouse_Split Suggestion_Store
begin

text \<open>
  \<^verbatim>\<open>engine/runner.py\<close> and \<^verbatim>\<open>engine/calc_engine_job.py\<close>: one engine run under the advisory
  lock, from the configuration checks through the six steps to the stored suggestion, and the
  job that switches the generation off after a success. The clock is read once per run; the
  progress messages of the run carry no data and are left out.
\<close>

definition filter_reportable_country_map :: "'a country_map \<Rightarrow> 'a country_map" where
  "filter_reportable_country_map values_by_sku =
     map (\<lambda>(sku, country_map). (sku, filter (\<lambda>(c, value). reportable c) country_map)) values_by_sku"

definition filter_allowed_country_map :: "'a country_map \<Rightarrow> country list option \<Rightarrow> 'a country_map" where
  "filter_allowed_country_map values_by_sku allowed_countries =
     (let reportable_map = filter_reportable_country_map values_by_sku
      in case allowed_countries of
           None \<Rightarrow> reportable_map
         | Some allowed \<Rightarrow>
             map (\<lambda>(sku, country_map). (sku, filter (\<lambda>(c, value). c \<in> set allowed) country_map)) reportable_map)"

definition restock_entry ::
  "int \<Rightarrow> (country, pyfloat) dict \<Rightarrow> (country, inventory_stock) dict \<Rightarrow> (country, pyfloat) dict \<Rightarrow>
   (country, date option) dict \<Rightarrow> country \<Rightarrow> int \<Rightarrow> restock_inputs" where
  "restock_entry effective_target_days velocity_for_sku inventory_for_sku sale_days_for_sku restock_dates_for_sku c final_restock_qty =
     (let daily_velocity = dict_get_or velocity_for_sku c 0;
          stock = dict_get inventory_for_sku c;
          overseas_available = (case stock of None \<Rightarrow> 0 | Some st \<Rightarrow> is_available st);
          overseas_reserved = (case stock of None \<Rightarrow> 0 | Some st \<Rightarrow> is_reserved st);
          in_transit = (case stock of None \<Rightarrow> 0 | Some st \<Rightarrow> is_in_transit st);
          overseas_total = overseas_available + overseas_reserved + in_transit;
          target_stock_qty = \<lceil>fmul (float_of_int effective_target_days) daily_velocity\<rceil>
      in \<lparr>ri_effective_target_days = effective_target_days, ri_daily_velocity = daily_velocity,
          ri_overseas_available = overseas_available, ri_overseas_reserved = overseas_reserved,
          ri_in_transit = in_transit, ri_overseas_stock_total = overseas_total,
          ri_target_stock_qty = target_stock_qty, ri_raw_restock_qty = target_stock_qty - overseas_total,
          ri_final_restock_qty = final_restock_qty, ri_sale_days = dict_get sale_days_for_sku c,
          ri_restock_date = dict_get_or restock_dates_for_sku c None\<rparr>)"

definition build_calculation_inputs_snapshot ::
  "instant \<Rightarrow> date \<Rightarrow> int \<Rightarrow> int \<Rightarrow> int \<Rightarrow> int \<Rightarrow> (country, int) dict \<Rightarrow> (country, pyfloat) dict \<Rightarrow>
   (country, inventory_stock) dict \<Rightarrow> local_stock option \<Rightarrow> (country, pyfloat) dict \<Rightarrow> (country, date option) dict \<Rightarrow>
   int \<Rightarrow> calculation_inputs" where
  "build_calculation_inputs_snapshot generated_at demand_date target_days demand_days effective_target_days
       safety_stock_days country_qty_for_sku velocity_for_sku inventory_for_sku local_stock_for_sku
       sale_days_for_sku restock_dates_for_sku purchase_qty =
     (let country_restock_total = sum_list (dict_values country_qty_for_sku);
          velocity_total = fsum (dict_values velocity_for_sku);
          safety_stock_qty = \<lceil>fmul velocity_total (float_of_int safety_stock_days)\<rceil>;
          local_available = (case local_stock_for_sku of None \<Rightarrow> 0 | Some st \<Rightarrow> ls_available st);
          local_reserved = (case local_stock_for_sku of None \<Rightarrow> 0 | Some st \<Rightarrow> ls_reserved st);
          local_qty = local_available + local_reserved;
          raw_purchase_qty = country_restock_total - local_qty + safety_stock_qty;
          restock_countries =
            foldl (\<lambda>d (c, final_qty).
                     if final_qty \<le> 0 then d
                     else dict_set c (restock_entry effective_target_days velocity_for_sku inventory_for_sku
                            sale_days_for_sku restock_dates_for_sku c final_qty) d)
              [] (sort country_qty_for_sku)
      in \<lparr>ci_version = 1, ci_generated_at = generated_at, ci_demand_date = demand_date,
          ci_target_days = target_days, ci_demand_days = demand_days,
          ci_effective_target_days = effective_target_days, ci_safety_stock_days = safety_stock_days,
          ci_purchase =
            \<lparr>pi_country_restock_qty_total = country_restock_total,
             pi_country_restock_qty_by_country = sort country_qty_for_sku,
             pi_daily_velocity_total = velocity_total,
             pi_daily_velocity_by_country = sort velocity_for_sku,
             pi_safety_stock_qty = safety_stock_qty, pi_local_stock_available = local_available,
             pi_local_stock_reserved = local_reserved, pi_local_stock_total = local_qty,
             pi_raw_purchase_qty = raw_purchase_qty, pi_final_purchase_qty = purchase_qty\<rparr>,
          ci_restock = restock_countries\<rparr>)"

definition missing_inventory_countries_by_sku ::
  "pyfloat country_map \<Rightarrow> inventory_map \<Rightarrow> country list option \<Rightarrow> (sku, country list) dict" where
  "missing_inventory_countries_by_sku velocity inventory allowed_countries =
     foldl (\<lambda>result (sku, c, daily_rate).
              if daily_rate \<le> 0 then result
              else if \<not> reportable c then result
              else if \<not> sql_in_opt c allowed_countries then result
              else if dict_mem c (dict_get_or inventory sku []) then result
              else dict_set sku (dict_get_or result sku [] @ [c]) result)
       [] [(sku, c, v). (sku, country_map) \<leftarrow> velocity, (c, v) \<leftarrow> country_map]"

definition engine_config_snapshot :: "global_config \<Rightarrow> instant \<Rightarrow> date option \<Rightarrow> config_snapshot" where
  "engine_config_snapshot config now demand_date =
     \<lparr>cs_buffer_days = gc_buffer_days config, cs_target_days = gc_target_days config,
      cs_lead_time_days = Some (gc_lead_time_days config), cs_safety_stock_days = gc_safety_stock_days config,
      cs_restock_regions = gc_restock_regions config, cs_eu_countries = gc_eu_countries config,
      cs_shop_sync_mode = gc_shop_sync_mode config, cs_snapshot_at = now, cs_demand_date = demand_date\<rparr>"

subsection \<open>Persisting\<close>

definition archive_active :: "instant \<Rightarrow> suggestion_store \<Rightarrow> suggestion_store" where
  "archive_active now st =
     st\<lparr>st_suggestions := update_where (\<lambda>s. sg_status s = ''draft'')
           (\<lambda>s. s\<lparr>sg_status := ''archived'', sg_archived_at := Some now\<rparr>) (st_suggestions st)\<rparr>"

definition new_item :: "int \<Rightarrow> int \<Rightarrow> item_values \<Rightarrow> suggestion_item" where
  "new_item item_id suggestion_id v =
     item_values.extend v
       \<lparr>si_id = item_id, si_suggestion_id = suggestion_id,
        si_restock_export_status = ''pending'', si_restock_exported_snapshot_id = None, si_restock_exported_at = None,
        si_procurement_export_status = ''pending'', si_procurement_exported_snapshot_id = None,
        si_procurement_exported_at = None\<rparr>"

definition persist_suggestion ::
  "instant \<Rightarrow> config_snapshot \<Rightarrow> string \<Rightarrow> item_values list \<Rightarrow> suggestion_store \<Rightarrow> suggestion_store \<times> int" where
  "persist_suggestion now global_snapshot triggered_by items st =
     (let suggestion_id = st_next_suggestion_id st;
          sugg = \<lparr>sg_id = suggestion_id, sg_status = ''draft'', sg_global_config_snapshot = global_snapshot,
                  sg_total_items = int (length items),
                  sg_procurement_item_count = int (length (filter (\<lambda>i. si_purchase_qty i > 0) items)),
                  sg_restock_item_count = int (length (filter (\<lambda>i. si_total_qty i > 0) items)),
                  sg_triggered_by = triggered_by, sg_archived_at = None, sg_archived_by = None,
                  sg_archived_trigger = None, sg_created_at = now\<rparr>;
          rows = map (\<lambda>(n, v). new_item (st_next_item_id st + int n) suggestion_id v) (enumerate 0 items)
      in (st\<lparr>st_suggestions := st_suggestions st @ [sugg], st_items := st_items st @ rows,
             st_next_suggestion_id := suggestion_id + 1, st_next_item_id := st_next_item_id st + int (length items)\<rparr>,
          suggestion_id))"

subsection \<open>One item\<close>

text \<open>Everything the loop over the SKUs reads.\<close>

record run_data =
  rd_config :: global_config
  rd_demand_date :: date
  rd_demand_days :: int
  rd_effective_target_days :: int
  rd_generated_at :: instant
  rd_velocity :: "pyfloat country_map"
  rd_sale_days :: "pyfloat country_map"
  rd_inventory :: inventory_map
  rd_country_qty :: "int country_map"
  rd_missing_inventory :: "(sku, country list) dict"
  rd_local_stock :: "(sku, local_stock) dict"
  rd_country_warehouses :: "(country, warehouse_id list) dict"
  rd_zipcode_rules :: "zipcode_rule list"
  rd_all_orders :: "(sku \<times> country, postal_order list) dict"
  rd_sku_lead_time :: "(sku, int option) dict"

definition split_step ::
  "run_data \<Rightarrow> sku \<Rightarrow> (country, (warehouse_id, int) dict) dict \<times> (country, allocation_entry) dict \<Rightarrow> country \<times> int \<Rightarrow>
   ((country, (warehouse_id, int) dict) dict \<times> (country, allocation_entry) dict) res" where
  "split_step rd sku acc cq =
     (case (acc, cq) of ((breakdown, snapshot), (c, qty)) \<Rightarrow>
        if qty \<le> 0 then return (breakdown, snapshot)
        else bind_res (explain_country_qty_split c qty (dict_get_or (rd_all_orders rd) (sku, c) [])
                         (rd_zipcode_rules rd) (dict_get_or (rd_country_warehouses rd) c []))
          (\<lambda>allocation. return
             (if warehouse_breakdown allocation = [] then breakdown else dict_set c (warehouse_breakdown allocation) breakdown,
              dict_set c \<lparr>ae_allocation_mode = allocation_mode allocation,
                          ae_matched_order_qty = matched_order_qty allocation,
                          ae_unknown_order_qty = unknown_order_qty allocation,
                          ae_eligible_warehouses = eligible_warehouses allocation\<rparr> snapshot)))"

definition to_sale_days_dict :: "(country, pyfloat) dict \<Rightarrow> sale_days_dict" where
  "to_sale_days_dict d = map (\<lambda>(c, days). (c, Some (SaleNumber days))) d"

definition build_item :: "run_data \<Rightarrow> sku \<Rightarrow> item_values option res" where
  "build_item rd sku =
     (let sku_country_qty = dict_get_or (rd_country_qty rd) sku [];
          restock_total = sum_list (dict_values sku_country_qty);
          velocity_for_sku = dict_get_or (rd_velocity rd) sku [];
          sale_days_for_sku = dict_get_or (rd_sale_days rd) sku [];
          purchase_qty = compute_total sku_country_qty velocity_for_sku (dict_get (rd_local_stock rd) sku)
            (gc_buffer_days (rd_config rd)) (gc_safety_stock_days (rd_config rd))
      in if purchase_qty \<le> 0 \<and> restock_total \<le> 0 then return None
         else bind_res (fold_res (split_step rd sku) ([], []) sku_country_qty)
           (\<lambda>(breakdown, snapshot).
              let lead_time = (case dict_get_or (rd_sku_lead_time rd) sku None of
                                 Some d \<Rightarrow> d | None \<Rightarrow> gc_lead_time_days (rd_config rd));
                  timing = compute_urgency_for_sku (to_sale_days_dict sale_days_for_sku) sku_country_qty lead_time;
                  restock_dates = demand_restock_dates sku_country_qty (Some (rd_demand_date rd));
                  calculation_warnings = build_calculation_warnings sku_country_qty
                    (Some (to_sale_days_dict sale_days_for_sku)) (Some velocity_for_sku) None
                    (Some (dict_get_or (rd_missing_inventory rd) sku []));
                  calculation_inputs_snapshot = build_calculation_inputs_snapshot (rd_generated_at rd) (rd_demand_date rd)
                    (gc_target_days (rd_config rd)) (rd_demand_days rd) (rd_effective_target_days rd)
                    (gc_safety_stock_days (rd_config rd)) sku_country_qty velocity_for_sku
                    (dict_get_or (rd_inventory rd) sku []) (dict_get (rd_local_stock rd) sku)
                    sale_days_for_sku restock_dates purchase_qty
              in return (Some
                   \<lparr>si_commodity_sku = sku, si_total_qty = restock_total, si_country_breakdown = sku_country_qty,
                    si_warehouse_breakdown = breakdown, si_allocation_snapshot = Some snapshot,
                    si_velocity_snapshot = Some velocity_for_sku,
                    si_sale_days_snapshot = Some (to_sale_days_dict sale_days_for_sku),
                    si_calculation_warnings = calculation_warnings,
                    si_calculation_inputs_snapshot = Some calculation_inputs_snapshot,
                    si_urgent = ur_urgent timing, si_purchase_qty = purchase_qty, si_restock_dates = restock_dates\<rparr>)))"

fun build_items :: "run_data \<Rightarrow> sku list \<Rightarrow> item_values list res" where
  "build_items rd [] = return []"
| "build_items rd (sku # skus) =
     bind_res (build_item rd sku)
       (\<lambda>item. bind_res (build_items rd skus)
          (\<lambda>items. return (case item of None \<Rightarrow> items | Some i \<Rightarrow> i # items)))"

subsection \<open>The run\<close>

definition config_valid :: "global_config \<Rightarrow> bool" where
  "config_valid config \<longleftrightarrow>
     gc_target_days config > 0 \<and> gc_buffer_days config \<ge> 0 \<and> gc_lead_time_days config \<ge> 0 \<and>
     gc_safety_stock_days config \<ge> 0 \<and> gc_target_days config \<ge> gc_lead_time_days config"

definition enabled_skus :: "engine_db \<Rightarrow> (sku \<times> int option) list" where
  "enabled_skus db = [(sc_commodity_sku s, sc_lead_time_days s). s \<leftarrow> t_sku_config db, sc_enabled s]"

definition load_run_data ::
  "engine_db \<Rightarrow> global_config \<Rightarrow> instant \<Rightarrow> date \<Rightarrow> country list option \<Rightarrow> sku list \<Rightarrow> run_data res" where
  "load_run_data db config now demand_date allowed_countries sku_list =
     (let today = beijing_date now;
          demand_days = max (demand_date - today) 0;
          effective_target_days = gc_target_days config + demand_days;
          resolver = load_physical_sku_resolver db;
          groups = Some (sku_to_group_key resolver);
          members = Some (members_by_group_key resolver);
          velocity = filter_reportable_country_map (run_step1 db (Some sku_list) today None)
      in bind_res (run_step2 db velocity (Some sku_list) groups members)
           (\<lambda>(sale_days, inventory).
              let sale_days = filter_reportable_country_map sale_days;
                  inventory = filter_reportable_country_map inventory;
                  country_qty_all = compute_country_qty velocity inventory effective_target_days;
                  country_qty = filter_allowed_country_map country_qty_all allowed_countries
              in bind_res (load_local_inventory db (Some sku_list) (Some velocity) groups members)
                   (\<lambda>local_stk. return
                      \<lparr>rd_config = config, rd_demand_date = demand_date, rd_demand_days = demand_days,
                       rd_effective_target_days = effective_target_days, rd_generated_at = now,
                       rd_velocity = velocity, rd_sale_days = sale_days, rd_inventory = inventory,
                       rd_country_qty = country_qty,
                       rd_missing_inventory = missing_inventory_countries_by_sku velocity inventory allowed_countries,
                       rd_local_stock = local_stk,
                       rd_country_warehouses = load_country_warehouses db,
                       rd_zipcode_rules = load_zipcode_rules db,
                       rd_all_orders = load_all_sku_country_orders db sku_list today allowed_countries,
                       rd_sku_lead_time = foldl (\<lambda>d (s, l). dict_set s l d) [] (enabled_skus db)\<rparr>)))"

definition run_engine ::
  "engine_db \<Rightarrow> instant \<Rightarrow> date \<Rightarrow> string \<Rightarrow> suggestion_store \<Rightarrow> (suggestion_store \<times> int option) res" where
  "run_engine db now demand_date triggered_by st =
     (case t_global_config db of
        None \<Rightarrow> raise NoResultFound
      | Some config \<Rightarrow>
          if \<not> gc_suggestion_generation_enabled config then return (st, None)
          else bind_res (resolve_allowed_restock_regions (Some (gc_restock_regions config)))
            (\<lambda>allowed_countries.
               if \<not> config_valid config then raise ValueError
               else let sku_list = sorted_set (map fst (enabled_skus db))
                    in if sku_list = [] then return (st, None)
                       else bind_res (load_run_data db config now demand_date allowed_countries sku_list)
                         (\<lambda>rd. bind_res (build_items rd sku_list)
                            (\<lambda>items.
                               if items = [] then return (st, None)
                               else case persist_suggestion now (engine_config_snapshot config now (Some demand_date))
                                           triggered_by items (archive_active now st) of
                                      (st', suggestion_id) \<Rightarrow> return (st', Some suggestion_id)))))"

subsection \<open>The job\<close>

text \<open>
  The payload's \<^verbatim>\<open>demand_date\<close>: absent or not a text, a text \<^verbatim>\<open>date.fromisoformat\<close>
  rejects, or a date.
\<close>

datatype date_text = NotText | NotIso | IsoDate date

record calc_result =
  cr_generated :: bool
  cr_suggestion_id :: "int option"
  cr_demand_date :: date

text \<open>
  The suggestion is committed by the run; switching the generation off is a second
  transaction. The job's result is what it reports as \<^verbatim>\<open>result_summary\<close>.
\<close>

definition calc_engine_job ::
  "engine_db \<Rightarrow> instant \<Rightarrow> date_text \<Rightarrow> string \<Rightarrow> suggestion_store \<Rightarrow>
   (engine_db \<times> suggestion_store \<times> calc_result) res" where
  "calc_engine_job db now raw_demand_date triggered_by st =
     (case raw_demand_date of
        NotText \<Rightarrow> raise ValueError
      | NotIso \<Rightarrow> raise ValueError
      | IsoDate demand_date \<Rightarrow>
          bind_res (run_engine db now demand_date triggered_by st)
            (\<lambda>(st', suggestion_id).
               case suggestion_id of
                 None \<Rightarrow> return (db, st', \<lparr>cr_generated = False, cr_suggestion_id = None, cr_demand_date = demand_date\<rparr>)
               | Some sid \<Rightarrow>
                   (case t_global_config db of
                      None \<Rightarrow> raise NoResultFound
                    | Some config \<Rightarrow> return
                        (db\<lparr>t_global_config := Some (config\<lparr>gc_suggestion_generation_enabled := False,
                              gc_generation_toggle_updated_at := Some now, gc_generation_toggle_updated_by := None\<rparr>)\<rparr>,
                         st', \<lparr>cr_generated = True, cr_suggestion_id = Some sid, cr_demand_date = demand_date\<rparr>))))"

section \<open>Lemmas\<close>

subsection \<open>Filtered maps\<close>

lemma country_loop_entries:
  assumes "(s, d) \<in> set (country_loop body m)" "(c, x) \<in> set d"
  shows "\<exists>v. body s c v = Some x"
proof -
  have wf: "wf_country_map (country_loop body m)" by (rule wf_country_loop)
  have "dict_get2 (country_loop body m) s c = Some x"
    using dict_get2_iff [OF wf] assms by blast
  moreover have "dict_get2 (foldl (\<lambda>d (s, c, v). case body s c v of None \<Rightarrow> d | Some x \<Rightarrow> dict_set2 s c x d) d0 rows) s c = Some x \<Longrightarrow>
      (\<exists>v. body s c v = Some x) \<or> dict_get2 d0 s c = Some x" for d0 rows
  proof (induction rows arbitrary: d0)
    case (Cons r rows)
    obtain s' c' v' where r: "r = (s', c', v')" by (metis prod_cases3)
    show ?case using Cons.IH [of "case body s' c' v' of None \<Rightarrow> d0 | Some x \<Rightarrow> dict_set2 s' c' x d0"] Cons.prems
      by (cases "body s' c' v'") (auto simp: r dict_get2_set2 split: if_splits)
  qed simp
  ultimately show ?thesis unfolding country_loop_def by fastforce
qed

lemma filter_reportable_entries:
  "(s, d) \<in> set (filter_reportable_country_map m) \<longleftrightarrow> (\<exists>d'. (s, d') \<in> set m \<and> d = filter (\<lambda>(c, v). reportable c) d')"
  by (force simp: filter_reportable_country_map_def)

lemma filter_allowed_entries:
  "(s, d) \<in> set (filter_allowed_country_map m allowed) \<longleftrightarrow>
     (\<exists>d'. (s, d') \<in> set m \<and> d = filter (\<lambda>(c, v). reportable c \<and> sql_in_opt c allowed) d')"
proof -
  show ?thesis
  proof (cases allowed)
    case None
    then show ?thesis by (simp add: filter_allowed_country_map_def filter_reportable_entries sql_in_opt_def)
  next
    case (Some l)
    have "(s, d) \<in> set (filter_allowed_country_map m allowed) \<longleftrightarrow>
        (\<exists>d'. (s, d') \<in> set (filter_reportable_country_map m) \<and> d = filter (\<lambda>(c, v). c \<in> set l) d')"
      using Some by (force simp: filter_allowed_country_map_def Let_def)
    then show ?thesis unfolding filter_reportable_entries using Some by (auto simp: sql_in_opt_def case_prod_unfold)
  qed
qed

lemma wf_filter_reportable: "wf_country_map m \<Longrightarrow> wf_country_map (filter_reportable_country_map m)"
  by (auto simp: wf_country_map_def filter_reportable_country_map_def case_prod_unfold comp_def)

subsection \<open>Items\<close>

text \<open>What an item of the engine satisfies: the contract of the export and of the client.\<close>

definition breakdown_ok :: "(country, int) dict \<Rightarrow> (country, (warehouse_id, int) dict) dict \<Rightarrow> bool" where
  "breakdown_ok country_breakdown breakdown \<longleftrightarrow> wf_dict breakdown \<and>
     (\<forall>(c, wb) \<in> set breakdown. wf_dict wb \<and> (\<forall>(w, q) \<in> set wb. 0 < q) \<and>
        dict_get country_breakdown c = Some (sum_list (map snd wb)))"

definition item_ok :: "country list option \<Rightarrow> 'z item_values_scheme \<Rightarrow> bool" where
  "item_ok allowed i \<longleftrightarrow> wf_dict (si_country_breakdown i)
     \<and> (\<forall>(c, q) \<in> set (si_country_breakdown i). 0 < q \<and> reportable c \<and> sql_in_opt c allowed)
     \<and> si_total_qty i = sum_list (map snd (si_country_breakdown i))
     \<and> breakdown_ok (si_country_breakdown i) (si_warehouse_breakdown i)
     \<and> 0 \<le> si_purchase_qty i \<and> (0 < si_purchase_qty i \<or> 0 < si_total_qty i)"

lemma breakdown_ok_set:
  assumes "breakdown_ok cb breakdown" "wf_dict wb" "\<forall>(w, q) \<in> set wb. 0 < q" "dict_get cb c = Some (sum_list (map snd wb))"
  shows "breakdown_ok cb (dict_set c wb breakdown)"
proof -
  have "e = (c, wb) \<or> e \<in> set breakdown" if "e \<in> set (dict_set c wb breakdown)" for e
    using that unfolding dict_set_def by (induction breakdown) (auto split: if_splits)
  then show ?thesis using assms unfolding breakdown_ok_def by (intro conjI ballI wf_dict_set) blast+
qed

lemma split_step_ok:
  assumes "wf_dict cb" "fold_res (split_step rd sku) ([], []) cb = Inr (breakdown, snapshot)"
  shows "breakdown_ok cb breakdown"
proof -
  have "breakdown_ok cb (fst (breakdown, snapshot))"
  proof (rule fold_res_invariant [OF assms(2), where P = "\<lambda>acc. breakdown_ok cb (fst acc)"])
    show "breakdown_ok cb (fst ([], []))" by (simp add: breakdown_ok_def)
  next
    fix acc cq acc' assume cq: "cq \<in> set cb" and ok: "breakdown_ok cb (fst acc)" and step: "split_step rd sku acc cq = Inr acc'"
    obtain b s c q where [simp]: "acc = (b, s)" "cq = (c, q)" by (cases acc; cases cq)
    show "breakdown_ok cb (fst acc')"
    proof (cases "q \<le> 0")
      case False
      then obtain al where al: "explain_country_qty_split c q (dict_get_or (rd_all_orders rd) (sku, c) [])
          (rd_zipcode_rules rd) (dict_get_or (rd_country_warehouses rd) c []) = Inr al"
        "fst acc' = (if warehouse_breakdown al = [] then b else dict_set c (warehouse_breakdown al) b)"
        using step by (auto simp: split_step_def bind_res_Inr_iff)
      have get: "dict_get cb c = Some q" using assms(1) cq by (simp add: dict_get_eq_Some_iff)
      show ?thesis
      proof (cases "warehouse_breakdown al = []")
        case ne: False
        have "wf_dict (warehouse_breakdown al) \<and> (\<forall>(w, q) \<in> set (warehouse_breakdown al). 0 < q) \<and>
            sum_list (map snd (warehouse_breakdown al)) = q"
          using explain_conserves [OF al(1)] False ne by (auto split: if_splits)
        then show ?thesis using al(2) ne ok get by (auto intro!: breakdown_ok_set)
      qed (use al(2) ok in simp)
    qed (use step ok in \<open>simp add: split_step_def\<close>)
  qed
  then show ?thesis by simp
qed

definition run_data_ok :: "country list option \<Rightarrow> run_data \<Rightarrow> bool" where
  "run_data_ok allowed rd \<longleftrightarrow> (\<forall>(s, d) \<in> set (rd_country_qty rd). wf_dict d \<and>
     (\<forall>(c, q) \<in> set d. 0 < q \<and> reportable c \<and> sql_in_opt c allowed))"

lemma build_item_ok:
  assumes "run_data_ok allowed rd" "build_item rd sku = Inr (Some i)"
  shows "item_ok allowed i" "si_commodity_sku i = sku"
proof -
  define cb where "cb = dict_get_or (rd_country_qty rd) sku []"
  have cb: "wf_dict cb" "\<forall>(c, q) \<in> set cb. 0 < q \<and> reportable c \<and> sql_in_opt c allowed"
    using assms(1) dict_get_in [of "rd_country_qty rd" sku] unfolding run_data_ok_def cb_def dict_get_or_def
    by (cases "dict_get (rd_country_qty rd) sku"; fastforce)+
  obtain b s where b: "fold_res (split_step rd sku) ([], []) cb = Inr (b, s)"
    and i: "si_country_breakdown i = cb" "si_warehouse_breakdown i = b" "si_total_qty i = sum_list (map snd cb)"
      "si_commodity_sku i = sku" "0 \<le> si_purchase_qty i" "0 < si_purchase_qty i \<or> 0 < si_total_qty i"
    using assms(2) by (auto simp: build_item_def Let_def cb_def [symmetric] bind_res_Inr_iff dict_values_def compute_total_def
        split: if_splits)
  show "item_ok allowed i" using cb i split_step_ok [OF cb(1) b] by (simp add: item_ok_def)
  show "si_commodity_sku i = sku" by (rule i(4))
qed

lemma build_items_ok:
  assumes "run_data_ok allowed rd" "build_items rd skus = Inr items"
  shows "\<forall>i \<in> set items. item_ok allowed i" "subseq (map si_commodity_sku items) skus"
proof -
  have "(\<forall>i \<in> set items. item_ok allowed i) \<and> subseq (map si_commodity_sku items) skus"
    using assms(2)
  proof (induction skus arbitrary: items)
    case (Cons sku skus)
    then obtain oi rest where "build_item rd sku = Inr oi" "build_items rd skus = Inr rest"
      "items = (case oi of None \<Rightarrow> rest | Some i \<Rightarrow> i # rest)" by (auto simp: bind_res_Inr_iff)
    then show ?case using Cons.IH [of rest] build_item_ok [OF assms(1), of sku] by (cases oi) auto
  qed simp
  then show "\<forall>i \<in> set items. item_ok allowed i" "subseq (map si_commodity_sku items) skus" by simp_all
qed

lemma country_qty_positive:
  assumes "(s, d) \<in> set (compute_country_qty velocity inventory target_days)" "(c, q) \<in> set d"
  shows "0 < q"
  using country_loop_entries [OF assms(1)[unfolded compute_country_qty_def] assms(2)]
  by (auto simp: Let_def split: option.splits if_splits)

lemma load_run_data_ok:
  assumes "load_run_data db config now demand_date allowed sku_list = Inr rd"
  shows "run_data_ok allowed rd"
proof -
  obtain velocity inventory t where q: "rd_country_qty rd = filter_allowed_country_map (compute_country_qty velocity inventory t) allowed"
    using assms by (auto simp: load_run_data_def Let_def bind_res_Inr_iff)
  have "wf_dict d \<and> (\<forall>(c, n) \<in> set d. 0 < n \<and> reportable c \<and> sql_in_opt c allowed)" if m: "(s, d) \<in> set (rd_country_qty rd)" for s d
  proof -
    obtain d' where d': "(s, d') \<in> set (compute_country_qty velocity inventory t)"
      "d = filter (\<lambda>(c, v). reportable c \<and> sql_in_opt c allowed) d'"
      using m unfolding q filter_allowed_entries by blast
    have "wf_dict d'" using d'(1) wf_country_loop unfolding compute_country_qty_def wf_country_map_def by fast
    then show ?thesis using d' country_qty_positive [OF d'(1)] by (auto simp: distinct_map_filter)
  qed
  then show ?thesis unfolding run_data_ok_def by fast
qed

lemma run_engine_cases:
  assumes "run_engine db now demand_date triggered_by st = Inr (st', r)"
  obtains (nothing) "st' = st" "r = None"
  | (stored) config allowed rd items where "t_global_config db = Some config" "gc_suggestion_generation_enabled config"
      "config_valid config"
      "resolve_allowed_restock_regions (Some (gc_restock_regions config)) = Inr allowed"
      "load_run_data db config now demand_date allowed (sorted_set (map fst (enabled_skus db))) = Inr rd"
      "build_items rd (sorted_set (map fst (enabled_skus db))) = Inr items" "items \<noteq> []"
      "(st', the r) = persist_suggestion now (engine_config_snapshot config now (Some demand_date)) triggered_by items
         (archive_active now st)" "r = Some (st_next_suggestion_id st)"
  using assms
  by (auto simp: run_engine_def Let_def bind_res_Inr_iff persist_suggestion_def archive_active_def
      split: option.splits if_splits)

lemma subseq_facts: "subseq xs ys \<Longrightarrow> set xs \<subseteq> set ys \<and> (distinct ys \<longrightarrow> distinct xs)"
  by (induction rule: list_emb.induct) auto

lemma item_ok_new_item [simp]: "item_ok allowed (new_item iid sid v) = item_ok allowed v"
  by (simp add: item_ok_def new_item_def item_values.defs)

lemma new_item_keys [simp]:
  "si_id (new_item iid sid v) = iid" "si_suggestion_id (new_item iid sid v) = sid"
  "si_commodity_sku (new_item iid sid v) = si_commodity_sku v"
  "si_restock_export_status (new_item iid sid v) = ''pending''"
  "si_procurement_export_status (new_item iid sid v) = ''pending''"
  "si_restock_exported_snapshot_id (new_item iid sid v) = None"
  "si_procurement_exported_snapshot_id (new_item iid sid v) = None"
  by (simp_all add: new_item_def item_values.defs)

text \<open>The rows one suggestion inserts.\<close>

definition new_rows :: "suggestion_store \<Rightarrow> item_values list \<Rightarrow> suggestion_item list" where
  "new_rows st items =
     map (\<lambda>(n, v). new_item (st_next_item_id st + int n) (st_next_suggestion_id st) v) (enumerate 0 items)"

lemma set_new_rows:
  "set (new_rows st items) = {new_item (st_next_item_id st + int n) (st_next_suggestion_id st) (items ! n) | n. n < length items}"
  by (force simp: new_rows_def in_set_enumerate_eq)

lemma skus_new_rows: "map si_commodity_sku (new_rows st items) = map si_commodity_sku items"
proof -
  have "map si_commodity_sku (new_rows st items) = map si_commodity_sku (map snd (enumerate 0 items))"
    by (simp add: new_rows_def case_prod_unfold del: map_snd_enumerate)
  then show ?thesis by simp
qed

lemma length_new_rows: "length (new_rows st items) = length items"
  by (simp add: new_rows_def)

lemma run_engine_stored:
  assumes "run_engine db now demand_date triggered_by st = Inr (st', Some sid)"
  obtains config allowed items where "t_global_config db = Some config"
    "resolve_allowed_restock_regions (Some (gc_restock_regions config)) = Inr allowed"
    "items \<noteq> []" "\<forall>i \<in> set items. item_ok allowed i"
    "subseq (map si_commodity_sku items) (sorted_set (map fst (enabled_skus db)))"
    "st_items st' = st_items st @ new_rows st items" "sid = st_next_suggestion_id st"
    "(st', sid) = persist_suggestion now (engine_config_snapshot config now (Some demand_date)) triggered_by items
       (archive_active now st)"
  using assms
proof (cases rule: run_engine_cases)
  case (stored config allowed rd items)
  note ok = build_items_ok [OF load_run_data_ok [OF stored(5)] stored(6)]
  have "st_items st' = st_items st @ new_rows st items"
    using stored(8) by (auto simp: persist_suggestion_def archive_active_def new_rows_def Let_def)
  then show thesis using that [OF stored(1,4,7) ok] stored(8,9) by simp
qed simp

lemma persist_statuses:
  "map (\<lambda>s. (sg_id s, sg_status s)) (st_suggestions (fst (persist_suggestion now gs tb items (archive_active now st)))) =
     map (\<lambda>s. (sg_id s, if sg_status s = ''draft'' then ''archived'' else sg_status s)) (st_suggestions st)
     @ [(st_next_suggestion_id st, ''draft'')]"
  by (simp add: persist_suggestion_def archive_active_def update_where_def Let_def comp_def)

section \<open>Properties\<close>

text \<open>
  C1: what a successful run stores. The new items belong to the new suggestion and are
  pending; their SKUs are distinct enabled SKUs; and each item is consistent: its countries
  are reportable, inside the configured restock regions and have positive quantities, the
  total is their sum, each warehouse split has positive parts and sums to the country's
  quantity, the purchase quantity is not negative, and there is something to buy or restock.
\<close>

theorem engine_items_sound:
  assumes "run_engine db now demand_date triggered_by st = Inr (st', Some sid)"
  shows "\<exists>config allowed new_items. t_global_config db = Some config
    \<and> resolve_allowed_restock_regions (Some (gc_restock_regions config)) = Inr allowed
    \<and> st_items st' = st_items st @ new_items \<and> new_items \<noteq> []
    \<and> (\<forall>i \<in> set new_items. item_ok allowed i \<and> si_suggestion_id i = sid
        \<and> si_restock_export_status i = ''pending'' \<and> si_procurement_export_status i = ''pending'')
    \<and> distinct (map si_commodity_sku new_items)
    \<and> set (map si_commodity_sku new_items) \<subseteq> set (map fst (enabled_skus db))"
proof -
  from assms obtain config allowed items where c: "t_global_config db = Some config"
    "resolve_allowed_restock_regions (Some (gc_restock_regions config)) = Inr allowed"
    and ne: "items \<noteq> []" and ok: "\<forall>i \<in> set items. item_ok allowed i"
    and skus: "subseq (map si_commodity_sku items) (sorted_set (map fst (enabled_skus db)))"
    and st': "st_items st' = st_items st @ new_rows st items" "sid = st_next_suggestion_id st"
    by (rule run_engine_stored)
  have "new_rows st items \<noteq> []" using ne arg_cong [OF skus_new_rows [of st items], of length] by auto
  moreover have "\<forall>i \<in> set (new_rows st items). item_ok allowed i \<and> si_suggestion_id i = sid
      \<and> si_restock_export_status i = ''pending'' \<and> si_procurement_export_status i = ''pending''"
    using ok st'(2) by (auto simp: set_new_rows)
  moreover have "distinct (map si_commodity_sku (new_rows st items))"
    unfolding skus_new_rows using subseq_facts [OF skus] by simp
  moreover have "set (map si_commodity_sku (new_rows st items)) \<subseteq> set (map fst (enabled_skus db))"
    unfolding skus_new_rows using subseq_facts [OF skus] by simp
  ultimately show ?thesis using c st'(1) by blast
qed

text \<open>
  A run on a small database: one SKU that sold 75 units in the United States twenty days ago,
  with ten units in stock or on the way there. The pieces of the run are evaluated one by one.
\<close>

definition demo_engine_db :: engine_db where
  "demo_engine_db = demo_stock_db
     \<lparr>t_order_header := [\<lparr>oh_id = 1, oh_shop_id = ''S'', oh_amazon_order_id = ''O'', oh_source = ORDER_SOURCE_PACKAGE,
         oh_order_platform = ''P'', oh_package_sn = ''N'', oh_package_status = None, oh_postal_code = Some ''10001'',
         oh_marketplace_id = ''US'', oh_country_code = ''US'', oh_original_country_code = None,
         oh_order_status = ''Shipped'', oh_purchase_date = beijing_midnight 80, oh_shop_name = None, oh_last_update_date = 0,
     oh_is_buyer_requested_cancel = False, oh_manual_edit_locked = False, oh_manual_edited_at = None,
     oh_manual_edited_by = None, oh_manual_edit_fields = []\<rparr>],
      t_order_item := [\<lparr>oi_order_id = 1, oi_order_item_id = ''I'', oi_commodity_sku = ''A'', oi_seller_sku = None,
         oi_quantity_ordered = 75, oi_quantity_shipped = 0, oi_quantity_unfulfillable = 0, oi_refund_num = 0\<rparr>],
      t_sku_config := [\<lparr>sc_commodity_sku = ''A'', sc_enabled = True, sc_lead_time_days = None\<rparr>],
      t_global_config := Some \<lparr>gc_buffer_days = 30, gc_target_days = 60, gc_lead_time_days = 50, gc_safety_stock_days = 15,
         gc_restock_regions = [], gc_eu_countries = [], gc_sync_interval_minutes = 60,
         gc_order_sync_interval_minutes = 120, gc_scheduler_enabled = True, gc_shop_sync_mode = ''all'',
         gc_suggestion_generation_enabled = True, gc_generation_toggle_updated_by = None,
         gc_generation_toggle_updated_at = None\<rparr>\<rparr>"

definition empty_store :: suggestion_store where
  "empty_store = \<lparr>st_suggestions = [], st_items = [], st_snapshots = [], st_snapshot_items = [], st_export_log = [],
     st_next_suggestion_id = 1, st_next_item_id = 1, st_next_snapshot_id = 1\<rparr>"

definition demo_stock :: inventory_map where
  "demo_stock = [(''A'', [(''US'', \<lparr>is_available = 5, is_reserved = 1, is_in_transit = 4\<rparr>)])]"

definition demo_velocity :: "pyfloat country_map" where
  "demo_velocity = [(''A'', [(''US'', 1/2)])]"

definition demo_config :: global_config where
  "demo_config = the (t_global_config demo_engine_db)"

definition demo_run_data :: run_data where
  "demo_run_data =
     \<lparr>rd_config = demo_config, rd_demand_date = 110, rd_demand_days = 10, rd_effective_target_days = 70,
      rd_generated_at = beijing_midnight 100, rd_velocity = demo_velocity, rd_sale_days = [(''A'', [(''US'', 20)])],
      rd_inventory = demo_stock, rd_country_qty = [(''A'', [(''US'', 25)])], rd_missing_inventory = [],
      rd_local_stock = [], rd_country_warehouses = [], rd_zipcode_rules = [],
      rd_all_orders = [((''A'', ''US''), [(Some ''10001'', 75)])], rd_sku_lead_time = [(''A'', None)]\<rparr>"

lemma demo_reportable: "reportable ''US''"
  by code_simp

lemma demo_step1: "run_step1 demo_engine_db (Some [''A'']) 100 None = demo_velocity"
proof -
  have v: "compute_velocity 0 0 75 = 1/2" by code_simp
  have "load_velocity_inputs demo_engine_db (Some [''A'']) 100 None = [(''A'', ''US'', 80, 75)]" by code_simp
  then show ?thesis
    by (simp add: run_step1_def aggregate_velocity_from_items_def daily_step_def velocity_step_def window_sum_def
        is_in_window_def dict_set2_def dict_get_or_def dict_get_def dict_set_def dict_add_def demo_reportable v
        demo_velocity_def)
qed

lemma demo_resolver: "load_physical_sku_resolver demo_engine_db = \<lparr>sku_to_group_key = [], members_by_group_key = []\<rparr>"
  by code_simp

lemma demo_step2:
  "run_step2 demo_engine_db demo_velocity (Some [''A'']) (Some []) (Some []) =
     Inr (compute_sale_days demo_velocity demo_stock, demo_stock)"
  by code_simp

lemma demo_sale_days: "compute_sale_days demo_velocity demo_stock = [(''A'', [(''US'', 20)])]"
  by code_simp

lemma demo_local: "load_local_inventory demo_engine_db (Some [''A'']) (Some demo_velocity) (Some []) (Some []) = Inr []"
  by code_simp

lemma demo_country_qty: "compute_country_qty demo_velocity demo_stock 70 = [(''A'', [(''US'', 25)])]"
  by code_simp

lemma demo_orders:
  "load_all_sku_country_orders demo_engine_db [''A''] 100 None = [((''A'', ''US''), [(Some ''10001'', 75)])]"
  by code_simp

lemma demo_warehouses: "load_country_warehouses demo_engine_db = []" "load_zipcode_rules demo_engine_db = []"
  by code_simp+

lemma demo_missing: "missing_inventory_countries_by_sku demo_velocity demo_stock None = []"
  by code_simp

lemma demo_items: "case build_items demo_run_data [''A''] of Inl e \<Rightarrow> False | Inr items \<Rightarrow> map si_total_qty items = [25]"
  by code_simp

lemma demo_load: "load_run_data demo_engine_db demo_config (beijing_midnight 100) 110 None [''A''] = Inr demo_run_data"
proof -
  have d: "beijing_date (beijing_midnight 100) = 100" by (simp add: beijing_date_def beijing_midnight_def day_micros_def)
  have skus: "foldl (\<lambda>d (s, l). dict_set s l d) [] (enabled_skus demo_engine_db) = [(''A'', None)]" by code_simp
  have target: "gc_target_days demo_config = 60" by (simp add: demo_config_def demo_engine_db_def)
  have f: "filter_reportable_country_map demo_velocity = demo_velocity" "filter_reportable_country_map demo_stock = demo_stock"
    "filter_reportable_country_map [(''A'', [(''US'', v)])] = [(''A'', [(''US'', v)])]" for v :: 'v
    by (simp_all add: filter_reportable_country_map_def demo_reportable demo_velocity_def demo_stock_def)
  show ?thesis
    unfolding load_run_data_def Let_def d demo_step1 f demo_resolver
    by (simp add: f target skus demo_step2 demo_sale_days demo_country_qty demo_local demo_orders demo_warehouses
        demo_missing filter_allowed_country_map_def demo_run_data_def)
qed

lemma demo_run:
  "\<exists>st'. run_engine demo_engine_db (beijing_midnight 100) 110 ''manual'' empty_store = Inr (st', Some 1)
     \<and> map si_total_qty (st_items st') = [25]"
proof -
  obtain items where items: "build_items demo_run_data [''A''] = Inr items" "map si_total_qty items = [25]"
    using demo_items by (auto split: sum.splits)
  then obtain i where i: "items = [i]" "si_total_qty i = 25" by auto
  have c: "t_global_config demo_engine_db = Some demo_config" by (simp add: demo_config_def demo_engine_db_def)
  have ok: "gc_suggestion_generation_enabled demo_config" "config_valid demo_config"
    by (simp_all add: config_valid_def demo_config_def demo_engine_db_def)
  have a: "resolve_allowed_restock_regions (Some (gc_restock_regions demo_config)) = Inr None" by code_simp
  have s: "sorted_set (map fst (enabled_skus demo_engine_db)) = [''A'']" by code_simp
  show ?thesis
    using items(1) i by (simp add: run_engine_def c ok a s demo_load persist_suggestion_def archive_active_def empty_store_def
        new_item_def item_values.defs Let_def)
qed

theorem engine_items_sound_witness:
  "\<exists>st' i. run_engine demo_engine_db (beijing_midnight 100) 110 ''manual'' empty_store = Inr (st', Some 1)
     \<and> i \<in> set (st_items st') \<and> item_ok None i"
proof -
  obtain st' where st': "run_engine demo_engine_db (beijing_midnight 100) 110 ''manual'' empty_store = Inr (st', Some 1)"
    using demo_run by (elim exE conjE)
  have a: "resolve_allowed_restock_regions (Some (gc_restock_regions demo_config)) = Inr None" by code_simp
  have c: "t_global_config demo_engine_db = Some demo_config" by (simp add: demo_config_def demo_engine_db_def)
  from engine_items_sound [OF st'] a c obtain new_items where "st_items st' = st_items empty_store @ new_items"
    "new_items \<noteq> []" "\<forall>i \<in> set new_items. item_ok None i" by auto
  then have "hd new_items \<in> set (st_items st')" "item_ok None (hd new_items)" by simp_all
  then show ?thesis using st' by blast
qed

text \<open>
  C13: a run either changes nothing or replaces the current draft. With a result, the new
  suggestion is the only draft, every earlier draft is archived at the time of the run, no
  other suggestion changes its status, earlier items and all snapshots stay as they were, and
  the counters of the suggestion count the new items.
\<close>

theorem run_engine_replaces_draft:
  assumes "run_engine db now demand_date triggered_by st = Inr (st', r)"
  shows "(r = None \<and> st' = st) \<or>
    (\<exists>sid new_items. r = Some sid \<and> sid = st_next_suggestion_id st
      \<and> map sg_id (filter (\<lambda>s. sg_status s = ''draft'') (st_suggestions st')) = [sid]
      \<and> map (\<lambda>s. (sg_id s, sg_status s)) (st_suggestions st') =
          map (\<lambda>s. (sg_id s, if sg_status s = ''draft'' then ''archived'' else sg_status s)) (st_suggestions st)
          @ [(sid, ''draft'')]
      \<and> st_items st' = st_items st @ new_items \<and> st_snapshots st' = st_snapshots st
      \<and> st_snapshot_items st' = st_snapshot_items st
      \<and> sg_total_items (last (st_suggestions st')) = int (length new_items))"
proof (cases r)
  case None
  with assms show ?thesis by (cases rule: run_engine_cases) auto
next
  case (Some sid)
  with assms obtain config items where st': "st_items st' = st_items st @ new_rows st items" "sid = st_next_suggestion_id st"
    "(st', sid) = persist_suggestion now (engine_config_snapshot config now (Some demand_date)) triggered_by items
       (archive_active now st)"
    by (auto elim!: run_engine_stored)
  have eq: "st' = fst (persist_suggestion now (engine_config_snapshot config now (Some demand_date)) triggered_by items
       (archive_active now st))" using st'(3) by (metis fst_conv)
  have "filter (\<lambda>s. sg_status s = ''draft'') (st_suggestions (archive_active now st)) = []"
    by (auto simp: archive_active_def update_where_def filter_empty_conv)
  then have "map sg_id (filter (\<lambda>s. sg_status s = ''draft'') (st_suggestions st')) = [sid]"
    by (simp add: eq st'(2) persist_suggestion_def archive_active_def Let_def)
  moreover have "st_snapshots st' = st_snapshots st" "st_snapshot_items st' = st_snapshot_items st"
    "sg_total_items (last (st_suggestions st')) = int (length (new_rows st items))"
    by (simp_all add: eq persist_suggestion_def archive_active_def length_new_rows Let_def)
  moreover note persist_statuses [of now "engine_config_snapshot config now (Some demand_date)" triggered_by items st, folded eq, folded st'(2)]
  ultimately show ?thesis using Some st'(1,2) by (intro disjI2 exI [of _ sid] exI [of _ "new_rows st items"] conjI)
qed

theorem run_engine_replaces_draft_witness:
  "\<exists>st'. run_engine demo_engine_db (beijing_midnight 100) 110 ''manual'' empty_store = Inr (st', Some 1)
     \<and> map sg_id (filter (\<lambda>s. sg_status s = ''draft'') (st_suggestions st')) = [1]"
  using demo_run run_engine_replaces_draft by fastforce

text \<open>
  The job generates at most one suggestion per switch-on. A job that generated leaves the
  generation switched off, so every later job on that configuration, at any time and with any
  date, generates nothing and changes nothing; a job that generated nothing changed neither
  the configuration nor the store.
\<close>

theorem calc_engine_job_one_shot:
  assumes "calc_engine_job db now raw triggered_by st = Inr (db', st', res)"
  shows "if cr_generated res
     then cr_suggestion_id res = Some (st_next_suggestion_id st)
        \<and> calc_engine_job db' now' (IsoDate d) by st'' =
            Inr (db', st'', \<lparr>cr_generated = False, cr_suggestion_id = None, cr_demand_date = d\<rparr>)
     else db' = db \<and> st' = st \<and> cr_suggestion_id res = None"
proof -
  obtain dd st1 r where raw: "raw = IsoDate dd" and run: "run_engine db now dd triggered_by st = Inr (st1, r)"
    using assms by (auto simp: calc_engine_job_def bind_res_Inr_iff split: date_text.splits)
  show ?thesis
  proof (cases r)
    case None
    then show ?thesis using assms raw run by (auto simp: calc_engine_job_def elim: run_engine_cases)
  next
    case (Some sid)
    with run obtain config where "t_global_config db = Some config" "sid = st_next_suggestion_id st"
      by (auto elim: run_engine_stored)
    then show ?thesis using assms raw run Some
      by (auto simp: calc_engine_job_def run_engine_def)
  qed
qed

theorem calc_engine_job_one_shot_witness:
  "\<exists>db' st' res. calc_engine_job demo_engine_db (beijing_midnight 100) (IsoDate 110) ''manual'' empty_store = Inr (db', st', res)
     \<and> cr_generated res \<and> cr_suggestion_id res = Some 1
     \<and> calc_engine_job db' 0 (IsoDate 120) ''manual'' st' =
         Inr (db', st', \<lparr>cr_generated = False, cr_suggestion_id = None, cr_demand_date = 120\<rparr>)"
proof -
  obtain st' where run: "run_engine demo_engine_db (beijing_midnight 100) 110 ''manual'' empty_store = Inr (st', Some 1)"
    using demo_run by (elim exE conjE)
  have c: "t_global_config demo_engine_db = Some demo_config" by (simp add: demo_config_def demo_engine_db_def)
  obtain db' res where job: "calc_engine_job demo_engine_db (beijing_midnight 100) (IsoDate 110) ''manual'' empty_store = Inr (db', st', res)"
    "cr_generated res" by (simp add: calc_engine_job_def run c)
  then show ?thesis using calc_engine_job_one_shot [OF job(1), of 0 120 "''manual''" st'] by (auto simp: empty_store_def)
qed

end
