(* ===== verification/Task_Queue.thy ===== *)
theory Task_Queue
  imports Db_Schema
begin

text \<open>
  The task queue: \<^verbatim>\<open>models/task_run.py\<close>, \<^verbatim>\<open>tasks/queue.py\<close>, \<^verbatim>\<open>tasks/worker.py\<close>,
  \<^verbatim>\<open>tasks/reaper.py\<close>, the cancellation of \<^verbatim>\<open>api/task.py\<close> and the purge of
  \<^verbatim>\<open>tasks/jobs/retention.py\<close>. Every SQL statement is one atomic step on the table; a
  function that issues several of them takes what other transactions commit in between as an
  argument. Times are microseconds; the database clock and the process clock are both passed
  in. JSON payloads are their text.
\<close>

record task_run =
  tr_id :: int
  tr_job_name :: string
  tr_dedupe_key :: string
  tr_status :: string
  tr_trigger_source :: string
  tr_priority :: int
  tr_payload :: string
  tr_current_step :: "string option"
  tr_step_detail :: "string option"
  tr_total_steps :: "int option"
  tr_attempt_count :: int
  tr_error_msg :: "string option"
  tr_result_summary :: "string option"
  tr_result_payload :: "string option"
  tr_worker_id :: "string option"
  tr_heartbeat_at :: "instant option"
  tr_lease_expires_at :: "instant option"
  tr_started_at :: "instant option"
  tr_finished_at :: "instant option"
  tr_created_at :: instant

text \<open>The table with its sequence, and the cancellations that passed their check but not yet their update.\<close>

record task_table =
  q_tasks :: "task_run list"
  q_next_id :: int
  q_cancels :: "int list"

definition active_status :: "string \<Rightarrow> bool" where
  "active_status s \<longleftrightarrow> s = ''pending'' \<or> s = ''running''"

abbreviation active :: "task_run \<Rightarrow> bool" where
  "active t \<equiv> active_status (tr_status t)"

text \<open>\<^verbatim>\<open>UPDATE task_run SET ... WHERE p\<close>.\<close>

definition update_tasks :: "(task_run \<Rightarrow> bool) \<Rightarrow> (task_run \<Rightarrow> task_run) \<Rightarrow> task_table \<Rightarrow> task_table" where
  "update_tasks p f q = q\<lparr>q_tasks := map (\<lambda>t. if p t then f t else t) (q_tasks q)\<rparr>"

subsection \<open>Enqueueing\<close>

definition new_task :: "int \<Rightarrow> string \<Rightarrow> string \<Rightarrow> string \<Rightarrow> string \<Rightarrow> int \<Rightarrow> string \<Rightarrow> string option \<Rightarrow> instant \<Rightarrow> task_run" where
  "new_task tid job_name dedupe_key status trigger_source priority payload error_msg now =
     \<lparr>tr_id = tid, tr_job_name = job_name, tr_dedupe_key = dedupe_key, tr_status = status,
      tr_trigger_source = trigger_source, tr_priority = priority, tr_payload = payload,
      tr_current_step = None, tr_step_detail = None, tr_total_steps = None, tr_attempt_count = 0,
      tr_error_msg = error_msg, tr_result_summary = None, tr_result_payload = None, tr_worker_id = None,
      tr_heartbeat_at = None, tr_lease_expires_at = None, tr_started_at = None, tr_finished_at = None,
      tr_created_at = now\<rparr>"

text \<open>The \<^verbatim>\<open>INSERT\<close> under the partial unique index: \<open>None\<close> is the unique violation.\<close>

definition insert_task ::
  "string \<Rightarrow> string \<Rightarrow> string \<Rightarrow> string \<Rightarrow> int \<Rightarrow> string \<Rightarrow> string option \<Rightarrow> instant \<Rightarrow> task_table \<Rightarrow> (task_table \<times> int) option" where
  "insert_task job_name dedupe_key status trigger_source priority payload error_msg now q =
     (if active_status status \<and> (\<exists>t \<in> set (q_tasks q). active t \<and> tr_dedupe_key t = dedupe_key) then None
      else Some (q\<lparr>q_tasks := q_tasks q @ [new_task (q_next_id q) job_name dedupe_key status trigger_source priority payload error_msg now],
                   q_next_id := q_next_id q + 1\<rparr>, q_next_id q))"

text \<open>\<^verbatim>\<open>ORDER BY id DESC LIMIT 1\<close> among the active tasks of the key.\<close>

definition find_active :: "string \<Rightarrow> task_table \<Rightarrow> int option" where
  "find_active dedupe_key q =
     (case sort [tr_id t. t \<leftarrow> q_tasks q, active t, tr_dedupe_key t = dedupe_key] of
        [] \<Rightarrow> None | x # xs \<Rightarrow> Some (last (x # xs)))"

definition skipped_key :: "string \<Rightarrow> int \<Rightarrow> string" where
  "skipped_key dedupe_key existing_id = dedupe_key @ ''#skipped#'' @ int_to_string existing_id"

text \<open>
  \<open>others k\<close> is what other transactions commit before the \<open>k\<close>-th statement. The rowid
  sequence also advances on a failed insert; identifiers stay unique either way.
\<close>

function enqueue_task ::
  "(nat \<Rightarrow> task_table \<Rightarrow> task_table) \<Rightarrow> instant \<Rightarrow> string \<Rightarrow> string \<Rightarrow> string option \<Rightarrow> string \<Rightarrow> int \<Rightarrow> nat \<Rightarrow>
   task_table \<Rightarrow> (task_table \<times> int \<times> bool) res" where
  "enqueue_task others now job_name trigger_source dedupe_key payload priority retry_depth q =
     (if trigger_source \<noteq> ''scheduler'' \<and> trigger_source \<noteq> ''manual'' then raise ValueError
      else let key = (case dedupe_key of None \<Rightarrow> job_name | Some k \<Rightarrow> if k = [] then job_name else k);
               q0 = others (3 * retry_depth) q
           in case insert_task job_name key ''pending'' trigger_source priority payload None now q0 of
                Some (q1, task_id) \<Rightarrow> return (q1, task_id, False)
              | None \<Rightarrow>
                  let q1 = others (3 * retry_depth + 1) q0
                  in case find_active key q1 of
                       None \<Rightarrow>
                         if retry_depth \<ge> 2 then raise RuntimeError
                         else enqueue_task others now job_name trigger_source (Some key) payload priority (retry_depth + 1) q1
                     | Some existing_id \<Rightarrow>
                         let q2 = others (3 * retry_depth + 2) q1
                         in if trigger_source = ''scheduler'' then
                              (case insert_task job_name (skipped_key key existing_id) ''skipped'' ''scheduler'' priority payload
                                      (Some (''Active task already exists: '' @ int_to_string existing_id)) now q2 of
                                 Some (q3, _) \<Rightarrow> return (q3, existing_id, True)
                               | None \<Rightarrow> raise RuntimeError)
                            else return (q2, existing_id, True))"
  by auto
termination by (relation "measure (\<lambda>(_, _, _, _, _, _, _, retry_depth, _). 3 - retry_depth)") auto

declare enqueue_task.simps [simp del]

subsection \<open>The worker\<close>

record claimed_task =
  cl_id :: int
  cl_job_name :: string
  cl_payload :: string
  cl_attempt_count :: int

text \<open>\<open>locked\<close>: the rows other transactions hold, which \<^verbatim>\<open>SKIP LOCKED\<close> passes over.\<close>

definition next_pending :: "int list \<Rightarrow> task_table \<Rightarrow> task_run option" where
  "next_pending locked q =
     (case sort_key (\<lambda>t. (tr_priority t, tr_created_at t))
             (filter (\<lambda>t. tr_status t = ''pending'' \<and> tr_id t \<notin> set locked) (q_tasks q)) of
        [] \<Rightarrow> None | t # _ \<Rightarrow> Some t)"

definition claim_row :: "instant \<Rightarrow> int \<Rightarrow> string \<Rightarrow> task_run \<Rightarrow> task_run" where
  "claim_row now lease_seconds worker t =
     t\<lparr>tr_status := ''running'', tr_worker_id := Some worker, tr_started_at := Some now, tr_heartbeat_at := Some now,
       tr_lease_expires_at := Some (now + lease_seconds * 1000000), tr_attempt_count := tr_attempt_count t + 1\<rparr>"

definition claim_one :: "instant \<Rightarrow> int \<Rightarrow> string \<Rightarrow> int list \<Rightarrow> task_table \<Rightarrow> task_table \<times> claimed_task option" where
  "claim_one now lease_seconds worker locked q =
     (case next_pending locked q of
        None \<Rightarrow> (q, None)
      | Some t \<Rightarrow> (update_tasks (\<lambda>r. tr_id r = tr_id t) (claim_row now lease_seconds worker) q,
                   Some \<lparr>cl_id = tr_id t, cl_job_name = tr_job_name t, cl_payload = tr_payload t,
                         cl_attempt_count = tr_attempt_count t + 1\<rparr>))"

text \<open>The guard of every write-back: the row is still running and still this worker's.\<close>

definition holds_lease :: "int \<Rightarrow> string \<Rightarrow> task_run \<Rightarrow> bool" where
  "holds_lease tid worker t \<longleftrightarrow> tr_id t = tid \<and> tr_status t = ''running'' \<and> tr_worker_id t = Some worker"

definition heartbeat :: "instant \<Rightarrow> int \<Rightarrow> int \<Rightarrow> string \<Rightarrow> task_table \<Rightarrow> task_table \<times> bool" where
  "heartbeat now lease_seconds tid worker q =
     (update_tasks (holds_lease tid worker)
        (\<lambda>t. t\<lparr>tr_heartbeat_at := Some now, tr_lease_expires_at := Some (now + lease_seconds * 1000000)\<rparr>) q,
      list_ex (holds_lease tid worker) (q_tasks q))"

record progress_values =
  pv_current_step :: "string option"
  pv_step_detail :: "string option"
  pv_total_steps :: "int option"
  pv_result_summary :: "string option"
  pv_result_payload :: "string option"

definition set_some :: "'a option \<Rightarrow> 'a option \<Rightarrow> 'a option" where
  "set_some v old = (case v of None \<Rightarrow> old | Some x \<Rightarrow> Some x)"

definition no_progress :: progress_values where
  "no_progress = \<lparr>pv_current_step = None, pv_step_detail = None, pv_total_steps = None, pv_result_summary = None, pv_result_payload = None\<rparr>"

text \<open>The progress setter: the flag says that the lease is lost, as its exception does.\<close>

definition set_progress :: "bool \<Rightarrow> progress_values \<Rightarrow> int \<Rightarrow> string \<Rightarrow> task_table \<Rightarrow> task_table \<times> bool" where
  "set_progress lease_lost v tid worker q =
     (if lease_lost then (q, True)
      else if v = no_progress then (q, False)
      else (update_tasks (holds_lease tid worker)
              (\<lambda>t. t\<lparr>tr_current_step := set_some (pv_current_step v) (tr_current_step t),
                     tr_step_detail := set_some (pv_step_detail v) (tr_step_detail t),
                     tr_total_steps := set_some (pv_total_steps v) (tr_total_steps t),
                     tr_result_summary := set_some (pv_result_summary v) (tr_result_summary t),
                     tr_result_payload := set_some (pv_result_payload v) (tr_result_payload t)\<rparr>) q,
            \<not> list_ex (holds_lease tid worker) (q_tasks q)))"

definition mark_success :: "instant \<Rightarrow> int \<Rightarrow> string \<Rightarrow> task_table \<Rightarrow> task_table" where
  "mark_success now tid worker q =
     update_tasks (holds_lease tid worker) (\<lambda>t. t\<lparr>tr_status := ''success'', tr_finished_at := Some now\<rparr>) q"

definition mark_failed :: "instant \<Rightarrow> int \<Rightarrow> string \<Rightarrow> string \<Rightarrow> task_table \<Rightarrow> task_table" where
  "mark_failed now tid worker error q =
     update_tasks (holds_lease tid worker)
       (\<lambda>t. t\<lparr>tr_status := ''failed'', tr_error_msg := Some (take 5000 error), tr_finished_at := Some now\<rparr>) q"

text \<open>How a handler ends: normally, with the lease lost, or with another exception.\<close>

datatype job_outcome = JobDone | JobLeaseLost | JobRaised string

definition unregistered_text :: "string \<Rightarrow> string" where
  "unregistered_text job_name = utf8 [230, 156, 170, 230, 179, 168, 229, 134, 140, 231, 154, 132, 32] @ ''job_name: '' @ job_name"

text \<open>
  \<^verbatim>\<open>JobContext.progress\<close>: all a job does to the table is report progress through the setter,
  and the first lost lease ends it. A job body is its reports and how it ends after them.
\<close>

fun run_reports :: "string \<Rightarrow> int \<Rightarrow> progress_values list \<Rightarrow> task_table \<Rightarrow> task_table \<times> bool" where
  "run_reports worker tid [] q = (q, False)"
| "run_reports worker tid (v # vs) q =
     (case set_progress False v tid worker q of (q1, lost) \<Rightarrow>
        if lost then (q1, True) else run_reports worker tid vs q1)"

definition job_handler ::
  "string \<Rightarrow> (claimed_task \<Rightarrow> progress_values list \<times> job_outcome) \<Rightarrow> claimed_task \<Rightarrow> task_table \<Rightarrow> task_table \<times> job_outcome" where
  "job_handler worker body claimed q =
     (case body claimed of (reports, outcome) \<Rightarrow>
        case run_reports worker (cl_id claimed) reports q of (q1, lost) \<Rightarrow>
          (q1, if lost then JobLeaseLost else outcome))"

text \<open>The job the registry itself contains.\<close>

definition echo_body :: "claimed_task \<Rightarrow> progress_values list \<times> job_outcome" where
  "echo_body claimed = ([no_progress\<lparr>pv_current_step := Some ''echo'', pv_step_detail := Some (cl_payload claimed),
     pv_total_steps := Some 1\<rparr>], JobDone)"

definition echo_registry :: "string \<Rightarrow> string \<Rightarrow> (claimed_task \<Rightarrow> task_table \<Rightarrow> task_table \<times> job_outcome) option" where
  "echo_registry worker job_name = (if job_name = ''echo'' then Some (job_handler worker echo_body) else None)"

text \<open>\<open>handler\<close> is what the registered job does to the table and how it ends.\<close>

definition execute_task ::
  "(string \<Rightarrow> (claimed_task \<Rightarrow> task_table \<Rightarrow> task_table \<times> job_outcome) option) \<Rightarrow> instant \<Rightarrow> string \<Rightarrow> claimed_task \<Rightarrow>
   task_table \<Rightarrow> task_table" where
  "execute_task job_registry now worker claimed q =
     (case job_registry (cl_job_name claimed) of
        None \<Rightarrow> mark_failed now (cl_id claimed) worker (unregistered_text (cl_job_name claimed)) q
      | Some handler \<Rightarrow>
          (case handler claimed q of
             (q1, JobDone) \<Rightarrow> mark_success now (cl_id claimed) worker q1
           | (q1, JobLeaseLost) \<Rightarrow> q1
           | (q1, JobRaised error) \<Rightarrow> mark_failed now (cl_id claimed) worker error q1))"

text \<open>\<open>k\<close> rounds of the worker's loop without other workers; a round without a task sleeps.\<close>

fun worker_rounds ::
  "(string \<Rightarrow> (claimed_task \<Rightarrow> task_table \<Rightarrow> task_table \<times> job_outcome) option) \<Rightarrow> instant \<Rightarrow> int \<Rightarrow> string \<Rightarrow> nat \<Rightarrow>
   task_table \<Rightarrow> task_table" where
  "worker_rounds job_registry now lease_seconds worker 0 q = q"
| "worker_rounds job_registry now lease_seconds worker (Suc k) q =
     (case claim_one now lease_seconds worker [] q of
        (q1, None) \<Rightarrow> worker_rounds job_registry now lease_seconds worker k q1
      | (q1, Some claimed) \<Rightarrow>
          worker_rounds job_registry now lease_seconds worker k (execute_task job_registry now worker claimed q1))"

text \<open>The check of \<^verbatim>\<open>Worker.start\<close>.\<close>

definition worker_start :: "int \<Rightarrow> int \<Rightarrow> unit res" where
  "worker_start lease_minutes heartbeat_seconds =
     (if heartbeat_seconds * 2 \<ge> lease_minutes * 60 then raise RuntimeError else return ())"

subsection \<open>Reaping, cancelling, purging\<close>

definition lease_expired :: "instant \<Rightarrow> task_run \<Rightarrow> bool" where
  "lease_expired now t \<longleftrightarrow> tr_status t = ''running'' \<and> (case tr_lease_expires_at t of None \<Rightarrow> False | Some e \<Rightarrow> e < now)"

definition reap_once :: "instant \<Rightarrow> task_table \<Rightarrow> task_table" where
  "reap_once now q =
     update_tasks (lease_expired now)
       (\<lambda>t. t\<lparr>tr_status := ''failed'', tr_error_msg := Some ''Lease expired, worker presumed dead'',
              tr_finished_at := Some now\<rparr>) q"

text \<open>
  \<^verbatim>\<open>cancel_task\<close> reads the row and then updates it by its id alone: two steps. The access
  check is an argument.
\<close>

definition cancel_check :: "(string \<Rightarrow> bool) \<Rightarrow> int \<Rightarrow> task_table \<Rightarrow> task_table res" where
  "cancel_check may_manage tid q =
     (case find (\<lambda>t. tr_id t = tid) (q_tasks q) of
        None \<Rightarrow> raise NotFound
      | Some t \<Rightarrow>
          if \<not> may_manage (tr_job_name t) then raise Forbidden
          else if tr_status t \<noteq> ''pending'' then raise ConflictError
          else return (q\<lparr>q_cancels := tid # q_cancels q\<rparr>))"

definition cancel_update :: "int \<Rightarrow> task_table \<Rightarrow> task_table" where
  "cancel_update tid q =
     (update_tasks (\<lambda>t. tr_id t = tid) (\<lambda>t. t\<lparr>tr_status := ''cancelled''\<rparr>) q)\<lparr>q_cancels := remove1 tid (q_cancels q)\<rparr>"

definition terminal_status :: "string \<Rightarrow> bool" where
  "terminal_status s \<longleftrightarrow> s \<in> {''success'', ''failed'', ''skipped'', ''cancelled''}"

definition purge_task_run :: "instant \<Rightarrow> int \<Rightarrow> task_table \<Rightarrow> task_table \<times> int" where
  "purge_task_run now days q =
     (if days \<le> 0 then (q, 0)
      else let cutoff = now - days * day_micros;
               purged = (\<lambda>t. terminal_status (tr_status t) \<and> tr_created_at t < cutoff)
           in (q\<lparr>q_tasks := filter (\<lambda>t. \<not> purged t) (q_tasks q)\<rparr>, int (length (filter purged (q_tasks q)))))"

subsection \<open>Interleavings\<close>

text \<open>One statement of any of the processes that share the table.\<close>

inductive task_step :: "task_table \<Rightarrow> task_table \<Rightarrow> bool" where
  enqueue: "insert_task job_name key ''pending'' source priority payload None now q = Some (q', tid) \<Longrightarrow> task_step q q'"
| skip: "insert_task job_name key ''skipped'' source priority payload msg now q = Some (q', tid) \<Longrightarrow> task_step q q'"
| claim: "claim_one now lease_seconds worker locked q = (q', c) \<Longrightarrow> task_step q q'"
| renew: "heartbeat now lease_seconds tid worker q = (q', ok) \<Longrightarrow> task_step q q'"
| report: "set_progress lost v tid worker q = (q', lost') \<Longrightarrow> task_step q q'"
| success: "task_step q (mark_success now tid worker q)"
| failure: "task_step q (mark_failed now tid worker error q)"
| reap: "task_step q (reap_once now q)"
| cancel_check: "cancel_check may_manage tid q = Inr q' \<Longrightarrow> task_step q q'"
| cancel_update: "tid \<in> set (q_cancels q) \<Longrightarrow> task_step q (cancel_update tid q)"
| purge: "purge_task_run now days q = (q', n) \<Longrightarrow> task_step q q'"

definition empty_queue :: task_table where
  "empty_queue = \<lparr>q_tasks = [], q_next_id = 1, q_cancels = []\<rparr>"

definition queue_reachable :: "task_table \<Rightarrow> bool" where
  "queue_reachable q \<longleftrightarrow> task_step\<^sup>*\<^sup>* empty_queue q"

section \<open>Lemmas\<close>

text \<open>What each row satisfies at all times.\<close>

definition task_ok :: "task_run \<Rightarrow> bool" where
  "task_ok t \<longleftrightarrow>
     (tr_status t = ''pending'' \<longrightarrow> tr_attempt_count t = 0 \<and> tr_worker_id t = None \<and> tr_finished_at t = None)
   \<and> (tr_status t = ''running'' \<longrightarrow> tr_attempt_count t = 1 \<and> tr_worker_id t \<noteq> None \<and> tr_lease_expires_at t \<noteq> None \<and> tr_finished_at t = None)
   \<and> (tr_status t \<in> {''success'', ''failed''} \<longrightarrow> tr_attempt_count t = 1 \<and> tr_worker_id t \<noteq> None \<and> tr_finished_at t \<noteq> None)
   \<and> (tr_status t = ''skipped'' \<longrightarrow> tr_attempt_count t = 0)
   \<and> tr_attempt_count t \<in> {0, 1} \<and> (active t \<or> terminal_status (tr_status t))"

definition queue_inv :: "task_table \<Rightarrow> bool" where
  "queue_inv q \<longleftrightarrow> distinct (map tr_id (q_tasks q)) \<and> distinct (map tr_dedupe_key (filter active (q_tasks q)))
     \<and> (\<forall>t \<in> set (q_tasks q). tr_id t < q_next_id q \<and> task_ok t)"

lemma active_statuses [simp]:
  "active_status ''pending''" "active_status ''running''" "\<not> active_status ''success''" "\<not> active_status ''failed''"
  "\<not> active_status ''skipped''" "\<not> active_status ''cancelled''"
  by (simp_all add: active_status_def)

lemma update_tasks_simps [simp]:
  "q_tasks (update_tasks p f q) = map (\<lambda>t. if p t then f t else t) (q_tasks q)"
  "q_next_id (update_tasks p f q) = q_next_id q" "q_cancels (update_tasks p f q) = q_cancels q"
  by (simp_all add: update_tasks_def)

text \<open>An update that keeps identity and key and activates nothing keeps the unique index.\<close>

lemma distinct_active_update:
  assumes "distinct (map tr_dedupe_key (filter active ts))"
    "\<And>t. t \<in> set ts \<Longrightarrow> tr_dedupe_key (g t) = tr_dedupe_key t \<and> (active (g t) \<longrightarrow> active t)"
  shows "distinct (map tr_dedupe_key (filter active (map g ts)))"
  using assms
proof (induction ts)
  case (Cons t ts)
  have "tr_dedupe_key ` set (filter active (map g ts)) \<subseteq> tr_dedupe_key ` set (filter active ts)"
    using Cons.prems(2) by auto
  then show ?case using Cons by (auto split: if_splits)
qed simp

lemma queue_inv_update:
  assumes "queue_inv q"
    "\<And>t. t \<in> set (q_tasks q) \<Longrightarrow> p t \<Longrightarrow> tr_id (f t) = tr_id t \<and> tr_dedupe_key (f t) = tr_dedupe_key t \<and> (active (f t) \<longrightarrow> active t)"
    "\<And>t. t \<in> set (q_tasks q) \<Longrightarrow> p t \<Longrightarrow> task_ok t \<Longrightarrow> task_ok (f t)"
  shows "queue_inv (update_tasks p f q)"
proof -
  let ?g = "\<lambda>t. if p t then f t else t"
  have "map tr_id (map ?g (q_tasks q)) = map tr_id (q_tasks q)" using assms(2) by auto
  then have "distinct (map tr_id (map ?g (q_tasks q)))" using assms(1) by (simp only: queue_inv_def)
  moreover have "distinct (map tr_dedupe_key (filter active (map ?g (q_tasks q))))"
    using assms(1,2) by (intro distinct_active_update) (auto simp: queue_inv_def)
  moreover have "\<forall>t \<in> set (map ?g (q_tasks q)). tr_id t < q_next_id q \<and> task_ok t"
    using assms unfolding queue_inv_def by fastforce
  ultimately show ?thesis unfolding queue_inv_def update_tasks_simps by blast
qed

lemma queue_inv_insert:
  assumes "queue_inv q" "insert_task job_name key status source priority payload msg now q = Some (q', tid)"
    "status = ''pending'' \<or> status = ''skipped''"
  shows "queue_inv q'"
proof -
  let ?t = "new_task (q_next_id q) job_name key status source priority payload msg now"
  have q': "q' = q\<lparr>q_tasks := q_tasks q @ [?t], q_next_id := q_next_id q + 1\<rparr>"
    and free: "active_status status \<Longrightarrow> \<forall>t \<in> set (q_tasks q). active t \<longrightarrow> tr_dedupe_key t \<noteq> key"
    using assms(2) by (auto simp: insert_task_def split: if_splits)
  have "task_ok ?t" using assms(3) by (elim disjE) (simp_all add: task_ok_def new_task_def terminal_status_def)
  moreover have "tr_id ?t = q_next_id q" "tr_dedupe_key ?t = key" "active ?t = active_status status"
    by (simp_all add: new_task_def)
  moreover have "q_next_id q \<notin> tr_id ` set (q_tasks q)" using assms(1) by (auto simp: queue_inv_def)
  moreover have "key \<notin> tr_dedupe_key ` set (filter active (q_tasks q))" if "active_status status"
    using free [OF that] by auto
  ultimately show ?thesis using assms(1) unfolding queue_inv_def q' by (auto simp del: set_filter simp: less_Suc_eq)
qed

lemma next_pending_Some:
  assumes "next_pending locked q = Some t"
  shows "t \<in> set (q_tasks q)" "tr_status t = ''pending''" "tr_id t \<notin> set locked"
    "\<And>u. u \<in> set (q_tasks q) \<Longrightarrow> tr_status u = ''pending'' \<Longrightarrow> tr_id u \<notin> set locked \<Longrightarrow>
       (tr_priority t, tr_created_at t) \<le> (tr_priority u, tr_created_at u)"
proof -
  let ?f = "\<lambda>t. (tr_priority t, tr_created_at t)"
  let ?rows = "filter (\<lambda>t. tr_status t = ''pending'' \<and> tr_id t \<notin> set locked) (q_tasks q)"
  obtain rest where s: "sort_key ?f ?rows = t # rest"
    using assms unfolding next_pending_def by (cases "sort_key ?f ?rows") simp_all
  have set_eq: "set (t # rest) = set ?rows" by (simp only: s [symmetric] set_sort)
  have "t \<in> set ?rows" unfolding set_eq [symmetric] by simp
  then show "t \<in> set (q_tasks q)" "tr_status t = ''pending''" "tr_id t \<notin> set locked" by simp_all
  have sorted: "sorted (map ?f (t # rest))" by (simp only: s [symmetric] sorted_sort_key)
  show "?f t \<le> ?f u" if "u \<in> set (q_tasks q)" "tr_status u = ''pending''" "tr_id u \<notin> set locked" for u
  proof -
    have "u \<in> set (t # rest)" unfolding set_eq using that by simp
    then show ?thesis using sorted by (cases "u = t") (simp_all del: less_eq_prod_simp)
  qed
qed

lemma next_pending_None: "next_pending locked q = None \<longleftrightarrow> filter (\<lambda>t. tr_status t = ''pending'' \<and> tr_id t \<notin> set locked) (q_tasks q) = []"
proof -
  have first: "(case ys of [] \<Rightarrow> None | t # _ \<Rightarrow> Some t) = None \<longleftrightarrow> ys = []" for ys :: "task_run list" by (cases ys) simp_all
  have empty: "sort_key f xs = [] \<longleftrightarrow> xs = []" for f :: "task_run \<Rightarrow> int \<times> int" and xs by (metis set_empty set_sort)
  show ?thesis unfolding next_pending_def first empty ..
qed

lemma same_id_same_row: "queue_inv q \<Longrightarrow> t \<in> set (q_tasks q) \<Longrightarrow> u \<in> set (q_tasks q) \<Longrightarrow> tr_id t = tr_id u \<Longrightarrow> t = u"
  unfolding queue_inv_def by (meson distinct_map inj_onD)

lemma queue_inv_claim:
  assumes "queue_inv q" "claim_one now lease_seconds worker locked q = (q', c)"
  shows "queue_inv q'"
proof (cases "next_pending locked q")
  case (Some t)
  note t = next_pending_Some [OF Some]
  have "tr_status u = ''pending''" if "u \<in> set (q_tasks q)" "tr_id u = tr_id t" for u
    using same_id_same_row [OF assms(1) that(1) t(1) that(2)] t(2) by simp
  then have "queue_inv (update_tasks (\<lambda>r. tr_id r = tr_id t) (claim_row now lease_seconds worker) q)"
    using t(2) by (intro queue_inv_update [OF assms(1)]) (auto simp: claim_row_def task_ok_def terminal_status_def)
  then show ?thesis using assms(2) Some by (simp add: claim_one_def)
qed (use assms in \<open>simp add: claim_one_def\<close>)

lemmas queue_updates = heartbeat_def set_progress_def mark_success_def mark_failed_def reap_once_def

lemma queue_inv_step: "task_step q q' \<Longrightarrow> queue_inv q \<Longrightarrow> queue_inv q'"
proof (induction rule: task_step.induct)
  case (enqueue job_name key source priority payload now q q' tid)
  then show ?case using queue_inv_insert by blast
next
  case (skip job_name key source priority payload msg now q q' tid)
  then show ?case using queue_inv_insert by blast
next
  case (claim now lease_seconds worker locked q q' c)
  then show ?case using queue_inv_claim by blast
next
  case (cancel_check may_manage tid q q')
  then show ?case by (auto simp: cancel_check_def queue_inv_def split: option.splits if_splits)
next
  case (cancel_update tid q)
  have "queue_inv (update_tasks (\<lambda>t. tr_id t = tid) (\<lambda>t. t\<lparr>tr_status := ''cancelled''\<rparr>) q)"
    by (rule queue_inv_update [OF cancel_update(2)]) (auto simp: task_ok_def terminal_status_def)
  then show ?case by (simp add: cancel_update_def queue_inv_def)
next
  case (purge now days q q' n)
  have "filter active (filter P ts) = filter P (filter active ts)" for P and ts :: "task_run list" by (simp add: conj_commute)
  then show ?case using purge
    by (auto simp: purge_task_run_def queue_inv_def Let_def distinct_map_filter simp del: filter_filter split: if_splits)
qed (auto simp: queue_updates holds_lease_def lease_expired_def task_ok_def terminal_status_def
      intro!: queue_inv_update split: if_splits)

lemma queue_reachable_inv: "queue_reachable q \<Longrightarrow> queue_inv q"
  unfolding queue_reachable_def
proof (induction rule: rtranclp_induct)
  case base
  then show ?case by (simp add: queue_inv_def empty_queue_def)
qed (rule queue_inv_step)

subsection \<open>A lock service\<close>

text \<open>
  The contract of the queue towards the jobs: a table of locks, one holder per key. Taking a
  lock needs the key to be free; any number of locks may be given up at once.
\<close>

inductive lock_step :: "('k \<times> 'i) set \<Rightarrow> ('k \<times> 'i) set \<Rightarrow> bool" where
  acquire: "k \<notin> fst ` L \<Longrightarrow> lock_step L (insert (k, i) L)"
| release: "L' \<subseteq> L \<Longrightarrow> lock_step L L'"

lemma lock_step_refl [intro!]: "lock_step L L"
  by (rule lock_step.release) simp

locale keyed_lock =
  fixes init :: 's and step :: "'s \<Rightarrow> 's \<Rightarrow> bool" and inv :: "'s \<Rightarrow> bool" and held :: "'s \<Rightarrow> ('k \<times> 'i) set"
  assumes inv_init: "inv init"
    and inv_step: "step s s' \<Longrightarrow> inv s \<Longrightarrow> inv s'"
    and init_free: "held init = {}"
    and simulates: "inv s \<Longrightarrow> step s s' \<Longrightarrow> lock_step (held s) (held s')"
begin

lemma reachable_inv: "step\<^sup>*\<^sup>* init s \<Longrightarrow> inv s"
  by (induction rule: rtranclp_induct) (auto intro: inv_init inv_step)

lemma reachable_simulated: "step\<^sup>*\<^sup>* init s \<Longrightarrow> lock_step\<^sup>*\<^sup>* {} (held s)"
proof (induction rule: rtranclp_induct)
  case base
  then show ?case by (simp add: init_free)
next
  case (step s s')
  then show ?case using simulates [OF reachable_inv] by (meson rtranclp.rtrancl_into_rtrancl)
qed

lemma mutual_exclusion: "step\<^sup>*\<^sup>* init s \<Longrightarrow> (k, i) \<in> held s \<Longrightarrow> (k, j) \<in> held s \<Longrightarrow> i = j"
proof -
  have "single_valued L" if "lock_step\<^sup>*\<^sup>* {} L" for L :: "('k \<times> 'i) set"
    using that
  proof (induction rule: rtranclp_induct)
    case (step L L')
    from step(2) show ?case
    proof cases
      case (acquire k i)
      then have "(k, j) \<notin> L" for j by force
      then show ?thesis using step(3) acquire(1) unfolding single_valued_def by blast
    qed (use step(3) in \<open>blast intro: single_valued_subset\<close>)
  qed simp
  then show "step\<^sup>*\<^sup>* init s \<Longrightarrow> (k, i) \<in> held s \<Longrightarrow> (k, j) \<in> held s \<Longrightarrow> i = j"
    using reachable_simulated by (meson single_valuedD)
qed

end

definition held_keys :: "task_table \<Rightarrow> (string \<times> int) set" where
  "held_keys q = (\<lambda>t. (tr_dedupe_key t, tr_id t)) ` set (filter active (q_tasks q))"

lemma held_update:
  assumes "\<And>t. t \<in> set (q_tasks q) \<Longrightarrow> p t \<Longrightarrow> tr_id (f t) = tr_id t \<and> tr_dedupe_key (f t) = tr_dedupe_key t \<and> (active (f t) \<longrightarrow> active t)"
  shows "held_keys (update_tasks p f q) \<subseteq> held_keys q"
proof
  fix x assume "x \<in> held_keys (update_tasks p f q)"
  then obtain t where t: "t \<in> set (q_tasks q)" "active (if p t then f t else t)"
    and x: "x = (tr_dedupe_key (if p t then f t else t), tr_id (if p t then f t else t))"
    unfolding held_keys_def update_tasks_simps set_filter set_map by blast
  then show "x \<in> held_keys q" using assms [OF t(1)] unfolding held_keys_def by (cases "p t") auto
qed

lemma held_insert:
  assumes "insert_task job_name key status source priority payload msg now q = Some (q', tid)"
  shows "held_keys q' = (if active_status status then insert (key, tid) (held_keys q) else held_keys q)"
    "active_status status \<Longrightarrow> key \<notin> fst ` held_keys q"
proof -
  let ?t = "new_task (q_next_id q) job_name key status source priority payload msg now"
  have t: "tr_dedupe_key ?t = key" "tr_id ?t = q_next_id q" "active ?t = active_status status" by (simp_all add: new_task_def)
  have q': "q_tasks q' = q_tasks q @ [?t]" "tid = q_next_id q"
    and free: "active_status status \<Longrightarrow> \<forall>t \<in> set (q_tasks q). active t \<longrightarrow> tr_dedupe_key t \<noteq> key"
    using assms by (auto simp: insert_task_def split: if_splits)
  show "held_keys q' = (if active_status status then insert (key, tid) (held_keys q) else held_keys q)"
    unfolding held_keys_def q' filter_append using t by simp
  show "active_status status \<Longrightarrow> key \<notin> fst ` held_keys q" using free by (auto simp: held_keys_def)
qed

lemma task_step_simulates: "queue_inv q \<Longrightarrow> task_step q q' \<Longrightarrow> lock_step (held_keys q) (held_keys q')"
proof -
  assume inv: "queue_inv q"
  have upd: "lock_step (held_keys q) (held_keys (update_tasks p f q))"
    if "\<And>t. t \<in> set (q_tasks q) \<Longrightarrow> p t \<Longrightarrow> tr_id (f t) = tr_id t \<and> tr_dedupe_key (f t) = tr_dedupe_key t \<and> (active (f t) \<longrightarrow> active t)" for p f
    using held_update [OF that] by (rule lock_step.release)
  have same: "lock_step (held_keys q) (held_keys q)" ..
  assume "task_step q q'"
  then show "lock_step (held_keys q) (held_keys q')"
  proof cases
    case (enqueue job_name key source priority payload now tid)
    then show ?thesis using held_insert [OF enqueue] by (simp add: lock_step.acquire)
  next
    case (skip job_name key source priority payload msg now tid)
    then show ?thesis using held_insert(1) [OF skip] same by simp
  next
    case (claim now lease_seconds worker locked c)
    show ?thesis
    proof (cases "next_pending locked q")
      case (Some t)
      note t = next_pending_Some [OF Some]
      have "tr_status u = ''pending''" if "u \<in> set (q_tasks q)" "tr_id u = tr_id t" for u
        using same_id_same_row [OF inv that(1) t(1) that(2)] t(2) by simp
      then have "lock_step (held_keys q) (held_keys (update_tasks (\<lambda>r. tr_id r = tr_id t) (claim_row now lease_seconds worker) q))"
        by (intro upd) (auto simp: claim_row_def)
      then show ?thesis using claim Some by (simp add: claim_one_def)
    qed (use claim same in \<open>simp add: claim_one_def\<close>)
  next
    case (cancel_check may_manage tid)
    then have "held_keys q' = held_keys q"
      by (auto simp: cancel_check_def held_keys_def split: option.splits if_splits)
    then show ?thesis using same by simp
  next
    case (cancel_update tid)
    have "held_keys q' = held_keys (update_tasks (\<lambda>t. tr_id t = tid) (\<lambda>t. t\<lparr>tr_status := ''cancelled''\<rparr>) q)"
      by (simp add: cancel_update cancel_update_def held_keys_def)
    then show ?thesis using upd by simp
  next
    case (purge now days n)
    then have "held_keys q' \<subseteq> held_keys q"
      by (auto simp: purge_task_run_def held_keys_def Let_def split: if_splits)
    then show ?thesis by (rule lock_step.release)
  qed (auto simp: queue_updates holds_lease_def lease_expired_def intro!: upd split: if_splits)
qed

interpretation task_lock: keyed_lock empty_queue task_step queue_inv held_keys
proof
  show "queue_inv empty_queue" by (simp add: queue_inv_def empty_queue_def)
  show "held_keys empty_queue = {}" by (simp add: held_keys_def empty_queue_def)
qed (blast intro: queue_inv_step task_step_simulates)+

subsection \<open>Single statements\<close>

lemma find_active_Some:
  assumes "find_active key q = Some tid"
  shows "\<exists>t \<in> set (q_tasks q). tr_id t = tid \<and> active t \<and> tr_dedupe_key t = key"
proof -
  let ?ids = "[tr_id t. t \<leftarrow> q_tasks q, active t, tr_dedupe_key t = key]"
  obtain x xs where s: "sort ?ids = x # xs" and tid: "tid = last (x # xs)"
    using assms unfolding find_active_def by (cases "sort ?ids") auto
  have "last (x # xs) \<in> set (sort ?ids)" unfolding s by (rule last_in_set) simp
  then show ?thesis unfolding tid by auto
qed

lemma find_active_None: "find_active key q = None \<longleftrightarrow> (\<forall>t \<in> set (q_tasks q). \<not> (active t \<and> tr_dedupe_key t = key))"
proof -
  let ?ids = "[tr_id t. t \<leftarrow> q_tasks q, active t, tr_dedupe_key t = key]"
  have "find_active key q = None \<longleftrightarrow> set (sort ?ids) = {}"
    unfolding find_active_def by (cases "sort ?ids") auto
  then show ?thesis by auto
qed

lemma insert_skipped: "\<exists>q' tid. insert_task job_name key ''skipped'' source priority payload msg now q = Some (q', tid)
    \<and> filter active (q_tasks q') = filter active (q_tasks q) \<and> set (q_tasks q) \<subseteq> set (q_tasks q')"
  by (auto simp: insert_task_def new_task_def)

lemma purge_tasks: "purge_task_run now days q = (q', n) \<Longrightarrow> \<exists>P. q_tasks q' = filter P (q_tasks q)"
  by (cases "days \<le> 0") (auto simp: purge_task_run_def Let_def intro: exI [of _ "\<lambda>_. True"])

section \<open>Properties\<close>

text \<open>
  C2: the invariant of the queue. In every reachable state, under any interleaving of
  enqueueing, claiming, renewing, reporting, finishing, reaping, cancelling and purging, no two
  pending or running tasks share a deduplication key, identifiers are unique, a running task
  has a worker and a lease, a finished one a finishing time, and no task was ever claimed twice.
\<close>

theorem queue_invariant:
  assumes "queue_reachable q"
  shows "distinct (map tr_dedupe_key (filter active (q_tasks q))) \<and> distinct (map tr_id (q_tasks q))
    \<and> (\<forall>t \<in> set (q_tasks q). tr_attempt_count t \<le> 1
        \<and> (tr_status t = ''pending'' \<longrightarrow> tr_attempt_count t = 0 \<and> tr_worker_id t = None)
        \<and> (tr_status t = ''running'' \<longrightarrow> tr_worker_id t \<noteq> None \<and> tr_lease_expires_at t \<noteq> None)
        \<and> (tr_status t \<in> {''success'', ''failed''} \<longrightarrow> tr_finished_at t \<noteq> None))"
proof -
  have ok: "task_ok t" if "t \<in> set (q_tasks q)" for t using queue_reachable_inv [OF assms] that by (simp add: queue_inv_def)
  have one: "tr_attempt_count t \<le> 1" if "task_ok t" for t using that by (auto simp: task_ok_def)
  have "distinct (map tr_dedupe_key (filter active (q_tasks q)))" "distinct (map tr_id (q_tasks q))"
    using queue_reachable_inv [OF assms] by (simp_all add: queue_inv_def)
  moreover note one [OF ok]
  moreover have "tr_attempt_count t = 0 \<and> tr_worker_id t = None" if "t \<in> set (q_tasks q)" "tr_status t = ''pending''" for t
    using ok [OF that(1)] that(2) unfolding task_ok_def by blast
  moreover have "tr_worker_id t \<noteq> None \<and> tr_lease_expires_at t \<noteq> None" if "t \<in> set (q_tasks q)" "tr_status t = ''running''" for t
    using ok [OF that(1)] that(2) unfolding task_ok_def by blast
  moreover have "tr_finished_at t \<noteq> None" if "t \<in> set (q_tasks q)" "tr_status t \<in> {''success'', ''failed''}" for t
    using ok [OF that(1)] that(2) unfolding task_ok_def by blast
  ultimately show ?thesis by blast
qed

text \<open>
  C26: the queue refines a lock table with one holder per key: each statement takes a free lock,
  gives locks up or leaves them, so two holders of a key are the same task.
\<close>

theorem queue_refines_locks:
  assumes "queue_reachable q" "task_step q q'"
  shows "lock_step (held_keys q) (held_keys q') \<and> lock_step\<^sup>*\<^sup>* {} (held_keys q)
    \<and> (\<forall>k i j. (k, i) \<in> held_keys q \<and> (k, j) \<in> held_keys q \<longrightarrow> i = j)"
  using task_step_simulates [OF queue_reachable_inv [OF assms(1)] assms(2)] assms(1)
    task_lock.reachable_simulated task_lock.mutual_exclusion unfolding queue_reachable_def by blast


text \<open>
  Finished tasks stay as they are. A step leaves the row of a terminal task untouched or
  purges it; the one exception is a cancellation whose check passed while the task was still
  pending, which overwrites whatever the status has become.
\<close>

theorem terminal_kept:
  assumes "queue_reachable q" "task_step q q'" "t \<in> set (q_tasks q)" "terminal_status (tr_status t)"
  shows "t \<in> set (q_tasks q') \<or> (\<forall>u \<in> set (q_tasks q'). tr_id u \<noteq> tr_id t)
    \<or> tr_id t \<in> set (q_cancels q) \<and> t\<lparr>tr_status := ''cancelled''\<rparr> \<in> set (q_tasks q')"
proof -
  have upd: "t \<in> set (q_tasks (update_tasks p f q))" if "\<not> p t" for p f using assms(3) that by force
  have st: "tr_status t \<noteq> ''running''" "tr_status t \<noteq> ''pending''" using assms(4) by (auto simp: terminal_status_def)
  from assms(2) show ?thesis
  proof cases
    case (claim now lease_seconds worker locked c)
    show ?thesis
    proof (cases "next_pending locked q")
      case (Some u)
      have "tr_id t \<noteq> tr_id u" using next_pending_Some(1,2) [OF Some] same_id_same_row [OF queue_reachable_inv [OF assms(1)]] assms(3) st by blast
      then show ?thesis using claim Some upd by (auto simp: claim_one_def)
    qed (use claim assms(3) in \<open>simp add: claim_one_def\<close>)
  next
    case (cancel_update tid)
    then show ?thesis using assms(3) by (cases "tr_id t = tid") (force simp: cancel_update_def)+
  next
    case (purge now days n)
    have "t = u" if "u \<in> set (q_tasks q)" "tr_id u = tr_id t" for u
      using same_id_same_row [OF queue_reachable_inv [OF assms(1)] that(1) assms(3) that(2)] by simp
    note same = this
    obtain P where q': "q_tasks q' = filter P (q_tasks q)"
      using purge purge_tasks by blast
    show ?thesis
    proof (cases "P t")
      case False
      then have "\<forall>u \<in> set (q_tasks q'). tr_id u \<noteq> tr_id t" unfolding q' using same by auto
      then show ?thesis by blast
    qed (use assms(3) q' in simp)
  qed (use assms(3) st upd in \<open>auto simp: insert_task_def cancel_check_def queue_updates holds_lease_def lease_expired_def
      simp del: update_tasks_simps split: if_splits option.splits\<close>)
qed

subsection \<open>Witnesses\<close>

text \<open>One task enqueued, its cancellation checked, then claimed by a worker, then cancelled.\<close>

abbreviation demo_task :: task_run where
  "demo_task \<equiv> new_task 1 ''echo'' ''echo'' ''pending'' ''manual'' 100 [] None 0"

definition demo_pending :: task_table where
  "demo_pending = \<lparr>q_tasks = [demo_task], q_next_id = 2, q_cancels = []\<rparr>"

definition demo_checked :: task_table where
  "demo_checked = demo_pending\<lparr>q_cancels := [1]\<rparr>"

definition demo_running :: task_table where
  "demo_running = \<lparr>q_tasks = [claim_row 10 120 ''w'' demo_task], q_next_id = 2, q_cancels = [1]\<rparr>"

lemma demo_fields [simp]: "tr_id demo_task = 1" "tr_status demo_task = ''pending''" "tr_dedupe_key demo_task = ''echo''" "tr_job_name demo_task = ''echo''"
  by (simp_all add: new_task_def)

lemma demo_steps: "task_step empty_queue demo_pending" "task_step demo_pending demo_checked" "task_step demo_checked demo_running"
proof -
  have "insert_task ''echo'' ''echo'' ''pending'' ''manual'' 100 [] None 0 empty_queue = Some (demo_pending, 1)"
    by (simp add: insert_task_def empty_queue_def demo_pending_def)
  then show "task_step empty_queue demo_pending" by (rule task_step.enqueue)
  have "cancel_check (\<lambda>_. True) 1 demo_pending = Inr demo_checked"
    by (simp add: cancel_check_def demo_checked_def demo_pending_def)
  then show "task_step demo_pending demo_checked" by (rule task_step.cancel_check)
  have "fst (claim_one 10 120 ''w'' [] demo_checked) = demo_running"
    by (simp add: claim_one_def next_pending_def demo_checked_def demo_pending_def demo_running_def update_tasks_def)
  then show "task_step demo_checked demo_running" by (metis prod.collapse task_step.claim)
qed

lemma demo_reachable: "queue_reachable demo_pending" "queue_reachable demo_checked" "queue_reachable demo_running"
proof -
  have "task_step\<^sup>*\<^sup>* empty_queue demo_pending" using demo_steps(1) by (rule r_into_rtranclp)
  moreover from this have "task_step\<^sup>*\<^sup>* empty_queue demo_checked" using demo_steps(2) by (rule rtranclp.rtrancl_into_rtrancl)
  moreover from this have "task_step\<^sup>*\<^sup>* empty_queue demo_running" using demo_steps(3) by (rule rtranclp.rtrancl_into_rtrancl)
  ultimately show "queue_reachable demo_pending" "queue_reachable demo_checked" "queue_reachable demo_running"
    by (simp_all only: queue_reachable_def)
qed

theorem queue_invariant_witness:
  "queue_reachable demo_running \<and> distinct (map tr_dedupe_key (filter active (q_tasks demo_running)))"
  using queue_invariant [OF demo_reachable(3)] demo_reachable(3) by blast

theorem queue_refines_locks_witness:
  "lock_step (held_keys demo_checked) (held_keys demo_running) \<and> held_keys demo_checked = {(''echo'', 1)}"
  using queue_refines_locks [OF demo_reachable(2) demo_steps(3)] by (simp add: held_keys_def demo_checked_def demo_pending_def)


theorem terminal_kept_witness:
  "\<exists>t q'. queue_reachable (mark_success 20 1 ''w'' demo_running) \<and> tr_status t = ''success''
     \<and> t \<in> set (q_tasks (mark_success 20 1 ''w'' demo_running))
     \<and> q' = reap_once 999 (mark_success 20 1 ''w'' demo_running) \<and> t \<in> set (q_tasks q')"
proof -
  let ?q = "mark_success 20 1 ''w'' demo_running"
  let ?t = "(claim_row 10 120 ''w'' demo_task)\<lparr>tr_status := ''success'', tr_finished_at := Some 20\<rparr>"
  have q: "q_tasks ?q = [?t]" by (simp add: mark_success_def demo_running_def holds_lease_def claim_row_def)
  have reach: "queue_reachable ?q"
    using demo_reachable(3) task_step.success unfolding queue_reachable_def by (meson rtranclp.rtrancl_into_rtrancl)
  have r: "q_tasks (reap_once 999 ?q) = [?t]" by (simp add: reap_once_def q lease_expired_def)
  have "?t \<in> set (q_tasks (reap_once 999 ?q))"
    using terminal_kept [OF reach task_step.reap, of ?t 999] by (simp add: q r terminal_status_def)
  then show ?thesis using reach q by (intro exI [of _ ?t] exI [of _ "reap_once 999 ?q"]) simp
qed

text \<open>
  The cancellation is not atomic. A task that a worker has claimed between the check and
  the update is set to cancelled while the worker runs it.
\<close>

theorem cancel_can_hit_running:
  "\<exists>q q' t. queue_reachable q \<and> task_step q q' \<and> t \<in> set (q_tasks q) \<and> tr_status t = ''running'' \<and> tr_worker_id t \<noteq> None
     \<and> q_tasks q' = map (\<lambda>u. u\<lparr>tr_status := ''cancelled''\<rparr>) (q_tasks q)"
proof -
  have "task_step demo_running (cancel_update 1 demo_running)"
    by (rule task_step.cancel_update) (simp add: demo_running_def)
  moreover have "q_tasks (cancel_update 1 demo_running) = map (\<lambda>u. u\<lparr>tr_status := ''cancelled''\<rparr>) (q_tasks demo_running)"
    by (simp add: cancel_update_def demo_running_def claim_row_def)
  moreover have "claim_row 10 120 ''w'' demo_task \<in> set (q_tasks demo_running)" "tr_status (claim_row 10 120 ''w'' demo_task) = ''running''"
    "tr_worker_id (claim_row 10 120 ''w'' demo_task) \<noteq> None"
    by (simp_all add: demo_running_def claim_row_def)
  ultimately show ?thesis using demo_reachable(3) by blast
qed

end
