(* ===== verification/Task_Worker.thy ===== *)
theory Task_Worker
  imports Task_Queue
begin

text \<open>
  What the worker of \<^verbatim>\<open>tasks/worker.py\<close> promises: it drains the queue as long as jobs end, its
  lease outlives a missed heartbeat, and a worker whose lease was taken can no longer write.
  The contract between the worker and the jobs is the locale \<open>job_system\<close>: a job may report
  progress, but it does not move rows between the states of the queue.
\<close>

text \<open>The part of a row that the queue's logic depends on.\<close>

definition task_core :: "task_run \<Rightarrow> int \<times> string \<times> string option" where
  "task_core t = (tr_id t, tr_status t, tr_worker_id t)"

abbreviation cores :: "task_table \<Rightarrow> (int \<times> string \<times> string option) list" where
  "cores q \<equiv> map task_core (q_tasks q)"

definition pending_ids :: "task_table \<Rightarrow> int list" where
  "pending_ids q = map tr_id (filter (\<lambda>t. tr_status t = ''pending'') (q_tasks q))"

lemma cores_ids: "map tr_id (q_tasks q) = map fst (cores q)"
  by (simp add: task_core_def)

lemma cores_pending: "pending_ids q = map fst (filter (\<lambda>(i, s, w). s = ''pending'') (cores q))"
  by (simp add: pending_ids_def filter_map comp_def task_core_def)

lemma holds_lease_core: "holds_lease tid worker t \<longleftrightarrow> task_core t = (tid, ''running'', Some worker)"
  by (auto simp: holds_lease_def task_core_def)

lemma cores_update:
  assumes "\<And>t. task_core (f t) = g (task_core t)" "\<And>t. p t = r (task_core t)"
  shows "cores (update_tasks p f q) = map (\<lambda>c. if r c then g c else c) (cores q)"
  using assms by simp

text \<open>A row after some rounds: as before, or pending before and ended since.\<close>

definition served :: "int \<times> string \<times> string option \<Rightarrow> int \<times> string \<times> string option \<Rightarrow> bool" where
  "served k k' \<longleftrightarrow> k' = k \<or> fst k' = fst k \<and> fst (snd k) = ''pending'' \<and> (fst (snd k') = ''success'' \<or> fst (snd k') = ''failed'')"

lemma served_trans: "served a b \<Longrightarrow> served b c \<Longrightarrow> served a c"
  unfolding served_def by auto

lemma list_all2_map_right: "(\<And>k. k \<in> set ks \<Longrightarrow> P k (g k)) \<Longrightarrow> list_all2 P ks (map g ks)"
  by (induction ks) auto

lemma pending_after:
  "s \<noteq> ''pending'' \<Longrightarrow> map fst (filter (\<lambda>(i, s, w). s = ''pending'') (map (\<lambda>k. if fst k = x then (x, s, w) else k) ks)) =
     filter (\<lambda>i. i \<noteq> x) (map fst (filter (\<lambda>(i, s, w). s = ''pending'') ks))"
  by (induction ks) auto

locale job_system =
  fixes job_registry :: "string \<Rightarrow> (claimed_task \<Rightarrow> task_table \<Rightarrow> task_table \<times> job_outcome) option" and worker :: string
  assumes frame: "job_registry name = Some h \<Longrightarrow> h c q = (q1, out) \<Longrightarrow> cores q1 = cores q"
    and keeps_lease: "job_registry name = Some h \<Longrightarrow> h c q = (q1, out) \<Longrightarrow>
      (cl_id c, ''running'', Some worker) \<in> set (cores q) \<Longrightarrow> out \<noteq> JobLeaseLost"
begin

lemma execute_cores:
  assumes "distinct (map fst (cores q))" "(cl_id c, ''running'', Some worker) \<in> set (cores q)"
  shows "\<exists>s \<in> {''success'', ''failed''}. cores (execute_task job_registry now worker c q) =
     map (\<lambda>k. if fst k = cl_id c then (cl_id c, s, Some worker) else k) (cores q)"
proof -
  let ?me = "(cl_id c, ''running'', Some worker)"
  have me: "k = ?me \<longleftrightarrow> fst k = cl_id c" if "k \<in> set (cores q)" for k
    using that assms by (metis distinct_map fst_conv inj_onD)
  have upd: "cores (update_tasks (holds_lease (cl_id c) worker) f q1) =
      map (\<lambda>k. if fst k = cl_id c then (cl_id c, s, Some worker) else k) (cores q)"
    if "cores q1 = cores q" "\<And>t. task_core (f t) = (fst (task_core t), s, snd (snd (task_core t)))" for f q1 s
  proof -
    have "cores (update_tasks (holds_lease (cl_id c) worker) f q1) = map (\<lambda>k. if k = ?me then (fst k, s, snd (snd k)) else k) (cores q1)"
      by (rule cores_update) (simp_all add: that(2) holds_lease_core)
    also have "\<dots> = map (\<lambda>k. if fst k = cl_id c then (cl_id c, s, Some worker) else k) (cores q)"
      unfolding that(1)
    proof (intro map_cong refl)
      fix k assume "k \<in> set (cores q)"
      from me [OF this] show "(if k = ?me then (fst k, s, snd (snd k)) else k) = (if fst k = cl_id c then (cl_id c, s, Some worker) else k)"
        by (cases "fst k = cl_id c") simp_all
    qed
    finally show ?thesis .
  qed
  have s: "cores (mark_success now (cl_id c) worker q1) = map (\<lambda>k. if fst k = cl_id c then (cl_id c, ''success'', Some worker) else k) (cores q)"
    if "cores q1 = cores q" for q1 unfolding mark_success_def by (rule upd [OF that]) (simp add: task_core_def)
  have f: "cores (mark_failed now (cl_id c) worker err q1) = map (\<lambda>k. if fst k = cl_id c then (cl_id c, ''failed'', Some worker) else k) (cores q)"
    if "cores q1 = cores q" for q1 err unfolding mark_failed_def by (rule upd [OF that]) (simp add: task_core_def)
  show ?thesis
  proof (cases "job_registry (cl_job_name c)")
    case None
    then show ?thesis using f [of q] by (auto simp: execute_task_def)
  next
    case (Some h)
    obtain q1 out where h: "h c q = (q1, out)" by fastforce
    note fr = frame [OF Some h] and keep = keeps_lease [OF Some h assms(2)]
    show ?thesis using Some h keep s [OF fr] f [OF fr] by (cases out) (auto simp: execute_task_def)
  qed
qed

text \<open>One round with a pending task: that task ends, nothing else changes.\<close>

lemma round_cores:
  assumes "distinct (map fst (cores q))" "next_pending [] q = Some t"
    "claim_one now lease worker [] q = (q1, Some c)"
  shows "\<exists>s \<in> {''success'', ''failed''}. cores (execute_task job_registry now worker c q1) =
     map (\<lambda>k. if fst k = tr_id t then (tr_id t, s, Some worker) else k) (cores q)"
proof -
  note t = next_pending_Some(1,2) [OF assms(2)]
  have q1: "q1 = update_tasks (\<lambda>r. tr_id r = tr_id t) (claim_row now lease worker) q" and c: "cl_id c = tr_id t"
    using assms(2,3) by (auto simp: claim_one_def)
  have cq1: "cores q1 = map (\<lambda>k. if fst k = tr_id t then (fst k, ''running'', Some worker) else k) (cores q)"
    unfolding q1 by (rule cores_update) (simp_all add: task_core_def claim_row_def)
  have d: "distinct (map fst (cores q1))" unfolding cq1 using assms(1) by (simp add: comp_def if_distrib [of fst] cong: if_cong)
  have m: "(cl_id c, ''running'', Some worker) \<in> set (cores q1)"
    unfolding cq1 c using t(1) by (force simp: task_core_def image_iff)
  from execute_cores [OF d m, of now] obtain s where s: "s \<in> {''success'', ''failed''}"
    "cores (execute_task job_registry now worker c q1) = map (\<lambda>k. if fst k = cl_id c then (cl_id c, s, Some worker) else k) (cores q1)"
    by blast
  have "cores (execute_task job_registry now worker c q1) = map (\<lambda>k. if fst k = tr_id t then (tr_id t, s, Some worker) else k) (cores q)"
    unfolding s(2) cq1 c by (auto simp: task_core_def)
  then show ?thesis using s(1) by blast
qed

lemma drain:
  assumes "distinct (map fst (cores q))" "length (pending_ids q) \<le> n"
  shows "pending_ids (worker_rounds job_registry now lease worker n q) = []"
    "list_all2 served (cores q) (cores (worker_rounds job_registry now lease worker n q))"
proof -
  have "pending_ids (worker_rounds job_registry now lease worker n q) = []
      \<and> list_all2 served (cores q) (cores (worker_rounds job_registry now lease worker n q))"
    using assms
  proof (induction n arbitrary: q)
    case 0
    then show ?case by (simp add: served_def list_all2_refl)
  next
    case (Suc n)
    show ?case
    proof (cases "next_pending [] q")
      case None
      then have "pending_ids q = []" by (simp add: next_pending_None pending_ids_def)
      moreover have "claim_one now lease worker [] q = (q, None)" using None by (simp add: claim_one_def)
      ultimately show ?thesis using Suc.IH [of q] Suc.prems by simp
    next
      case (Some t)
      note t = next_pending_Some(1,2) [OF Some]
      obtain q1 c where claim: "claim_one now lease worker [] q = (q1, Some c)" using Some by (auto simp: claim_one_def)
      define q2 where "q2 = execute_task job_registry now worker c q1"
      obtain s where s: "s = ''success'' \<or> s = ''failed''"
        and q2: "cores q2 = map (\<lambda>k. if fst k = tr_id t then (tr_id t, s, Some worker) else k) (cores q)"
        using round_cores [OF Suc.prems(1) Some claim] by (auto simp: q2_def)
      have np: "s \<noteq> ''pending''" using s by auto
      have d2: "distinct (map fst (cores q2))" unfolding q2 using Suc.prems(1) by (simp add: comp_def if_distrib [of fst] cong: if_cong)
      have tk: "task_core t \<in> set (cores q)" "task_core t = (tr_id t, ''pending'', tr_worker_id t)"
        using t by (simp, simp add: task_core_def)
      have uniq: "k = task_core t" if "k \<in> set (cores q)" "fst k = tr_id t" for k
        using that tk Suc.prems(1) by (metis distinct_map fst_conv inj_onD)
      have "map fst (filter (\<lambda>(i, s, w). s = ''pending'') (cores q2)) =
          filter (\<lambda>i. i \<noteq> tr_id t) (map fst (filter (\<lambda>(i, s, w). s = ''pending'') (cores q)))"
        unfolding q2 by (rule pending_after [OF np])
      then have p2: "pending_ids q2 = filter (\<lambda>i. i \<noteq> tr_id t) (pending_ids q)" by (simp only: cores_pending)
      have "tr_id t \<in> set (pending_ids q)" using t by (auto simp: pending_ids_def)
      then have "length (pending_ids q2) < length (pending_ids q)" unfolding p2 by (rule length_filter_less) simp
      then have IH: "pending_ids (worker_rounds job_registry now lease worker n q2) = []"
        "list_all2 served (cores q2) (cores (worker_rounds job_registry now lease worker n q2))"
        using Suc.IH [OF d2] Suc.prems(2) by simp_all
      have "served k (if fst k = tr_id t then (tr_id t, s, Some worker) else k)" if "k \<in> set (cores q)" for k
        using uniq [OF that] tk(2) s by (auto simp: served_def)
      then have "list_all2 served (cores q) (cores q2)" unfolding q2 by (rule list_all2_map_right)
      then have "list_all2 served (cores q) (cores (worker_rounds job_registry now lease worker n q2))"
        using IH(2) served_trans by (blast intro: list_all2_trans [of served served served])
      then show ?thesis using IH(1) by (simp add: claim q2_def [symmetric])
    qed
  qed
  then show "pending_ids (worker_rounds job_registry now lease worker n q) = []"
    "list_all2 served (cores q) (cores (worker_rounds job_registry now lease worker n q))" by simp_all
qed

end

subsection \<open>The jobs of the source\<close>

lemma set_progress_cores: "set_progress lost v tid w q = (q1, lost') \<Longrightarrow> cores q1 = cores q"
  by (auto simp: set_progress_def task_core_def split: if_splits)

lemma set_progress_keeps:
  assumes "set_progress False v tid w q = (q1, lost)" "(tid, ''running'', Some w) \<in> set (cores q)"
  shows "\<not> lost"
proof -
  have "list_ex (holds_lease tid w) (q_tasks q)" using assms(2) by (force simp: list_ex_iff holds_lease_core)
  then show ?thesis using assms(1) by (auto simp: set_progress_def split: if_splits)
qed

lemma run_reports_facts:
  assumes "run_reports w tid vs q = (q1, lost)"
  shows "cores q1 = cores q" "(tid, ''running'', Some w) \<in> set (cores q) \<Longrightarrow> \<not> lost"
proof -
  have "cores q1 = cores q \<and> ((tid, ''running'', Some w) \<in> set (cores q) \<longrightarrow> \<not> lost)"
    using assms
  proof (induction vs arbitrary: q)
    case (Cons v vs)
    obtain q2 l where p: "set_progress False v tid w q = (q2, l)" by fastforce
    show ?case
    proof (cases l)
      case True
      then show ?thesis using Cons.prems p set_progress_cores [OF p] set_progress_keeps [OF p] by auto
    next
      case False
      then show ?thesis using Cons.IH [of q2] Cons.prems p set_progress_cores [OF p] by simp
    qed
  qed simp
  then show "cores q1 = cores q" "(tid, ''running'', Some w) \<in> set (cores q) \<Longrightarrow> \<not> lost" by simp_all
qed

text \<open>Any registry of jobs that only report progress and end meets the contract.\<close>

definition reporting_registry ::
  "string \<Rightarrow> (string \<Rightarrow> (claimed_task \<Rightarrow> progress_values list \<times> job_outcome) option) \<Rightarrow>
   string \<Rightarrow> (claimed_task \<Rightarrow> task_table \<Rightarrow> task_table \<times> job_outcome) option" where
  "reporting_registry worker bodies name = map_option (job_handler worker) (bodies name)"

lemma reporting_registry_ok:
  assumes "\<And>name body c. bodies name = Some body \<Longrightarrow> snd (body c) \<noteq> JobLeaseLost"
  shows "job_system (reporting_registry worker bodies) worker"
proof
  fix name h c q q1 out
  assume h: "reporting_registry worker bodies name = Some h" "h c q = (q1, out)"
  obtain body where body: "bodies name = Some body" and hb: "h = job_handler worker body"
    using h(1) unfolding reporting_registry_def by blast
  obtain reports o' where b: "body c = (reports, o')" by fastforce
  obtain lost where r: "run_reports worker (cl_id c) reports q = (q1, lost)" "out = (if lost then JobLeaseLost else o')"
    using h(2) unfolding hb job_handler_def b by (auto split: prod.splits)
  show "cores q1 = cores q" by (rule run_reports_facts(1) [OF r(1)])
  show "out \<noteq> JobLeaseLost" if "(cl_id c, ''running'', Some worker) \<in> set (cores q)"
    using run_reports_facts(2) [OF r(1) that] assms [OF body, of c] b r(2) by simp
qed

lemma echo_registry_eq: "echo_registry worker = reporting_registry worker (\<lambda>name. if name = ''echo'' then Some echo_body else None)"
  by (auto simp: echo_registry_def reporting_registry_def fun_eq_iff)

interpretation echo_jobs: job_system "echo_registry worker" worker for worker
  unfolding echo_registry_eq by (rule reporting_registry_ok) (auto simp: echo_body_def split: if_splits)

section \<open>Properties\<close>

text \<open>
  C28: the worker drains the queue. If every job ends, normally or with an exception, then as
  many rounds of the loop as there are pending tasks leave none pending: each of them has
  succeeded or failed, an unregistered job included, and every other task is as it was.
\<close>

theorem worker_drains_queue:
  assumes "\<And>name body c. bodies name = Some body \<Longrightarrow> snd (body c) \<noteq> JobLeaseLost"
    "distinct (map tr_id (q_tasks q))" "length (pending_ids q) \<le> n"
  shows "pending_ids (worker_rounds (reporting_registry worker bodies) now lease_seconds worker n q) = []
    \<and> list_all2 (\<lambda>t t'. tr_id t' = tr_id t \<and>
          (if tr_status t = ''pending'' then tr_status t' = ''success'' \<or> tr_status t' = ''failed''
           else tr_status t' = tr_status t \<and> tr_worker_id t' = tr_worker_id t))
        (q_tasks q) (q_tasks (worker_rounds (reporting_registry worker bodies) now lease_seconds worker n q))"
proof -
  let ?q' = "worker_rounds (reporting_registry worker bodies) now lease_seconds worker n q"
  have sys: "job_system (reporting_registry worker bodies) worker" by (rule reporting_registry_ok) (rule assms(1))
  have d: "distinct (map fst (cores q))" using assms(2) by (simp only: cores_ids)
  note drain = job_system.drain [OF sys d assms(3)]
  have none: "tr_status t' \<noteq> ''pending''" if "t' \<in> set (q_tasks ?q')" for t'
    using drain(1) [of now lease_seconds] that by (auto simp: pending_ids_def filter_empty_conv)
  have "list_all2 (\<lambda>t t'. served (task_core t) (task_core t') \<and> tr_status t' \<noteq> ''pending'') (q_tasks q) (q_tasks ?q')"
    using drain(2) [of now lease_seconds] none by (auto simp: list_all2_conv_all_nth)
  then have "list_all2 (\<lambda>t t'. tr_id t' = tr_id t \<and>
          (if tr_status t = ''pending'' then tr_status t' = ''success'' \<or> tr_status t' = ''failed''
           else tr_status t' = tr_status t \<and> tr_worker_id t' = tr_worker_id t)) (q_tasks q) (q_tasks ?q')"
    by (rule list_all2_mono) (auto simp: served_def task_core_def)
  then show ?thesis using drain(1) by blast
qed

theorem worker_drains_queue_witness:
  "pending_ids (worker_rounds (reporting_registry ''w'' (\<lambda>name. if name = ''echo'' then Some echo_body else None)) 10 120 ''w'' 1 demo_pending) = []
   \<and> pending_ids demo_pending = [1]"
proof -
  have p: "pending_ids demo_pending = [1]" by (simp add: pending_ids_def demo_pending_def)
  then have "length (pending_ids demo_pending) \<le> 1" by simp
  moreover have "snd (body c) \<noteq> JobLeaseLost" if "(if name = ''echo'' then Some echo_body else None) = Some body" for name body c
    using that by (auto simp: echo_body_def split: if_splits)
  moreover have "distinct (map tr_id (q_tasks demo_pending))" by (simp add: demo_pending_def)
  ultimately show ?thesis
    using worker_drains_queue [of "\<lambda>name. if name = ''echo'' then Some echo_body else None" demo_pending 1 "''w''" 10 120] p by blast
qed

text \<open>
  A healthy worker is not reaped. When the worker's start-up check accepts the settings, a
  task renewed at some time is still running after any reaper run up to two heartbeat
  intervals later, so one missed heartbeat is harmless.
\<close>

theorem lease_survives_missed_heartbeat:
  assumes "worker_start lease_minutes heartbeat_seconds = Inr ()" "holds_lease tid worker t" "t \<in> set (q_tasks q)"
    "now \<le> beat + 2 * heartbeat_seconds * 1000000"
  shows "\<exists>t' \<in> set (q_tasks (reap_once now (fst (heartbeat beat (lease_minutes * 60) tid worker q)))). holds_lease tid worker t'"
proof -
  let ?t = "t\<lparr>tr_heartbeat_at := Some beat, tr_lease_expires_at := Some (beat + lease_minutes * 60 * 1000000)\<rparr>"
  have "2 * heartbeat_seconds < lease_minutes * 60" using assms(1) by (auto simp: worker_start_def split: if_splits)
  then have "\<not> lease_expired now ?t" using assms(4) by (simp add: lease_expired_def)
  moreover have "?t \<in> set (q_tasks (fst (heartbeat beat (lease_minutes * 60) tid worker q)))"
    using assms(2,3) by (force simp: heartbeat_def)
  ultimately have "?t \<in> set (q_tasks (reap_once now (fst (heartbeat beat (lease_minutes * 60) tid worker q))))"
    by (force simp: reap_once_def simp del: update_tasks_simps(1) intro: rev_image_eqI simp: update_tasks_simps(1))
  moreover have "holds_lease tid worker ?t" using assms(2) by (simp add: holds_lease_def)
  ultimately show ?thesis by blast
qed

theorem lease_survives_missed_heartbeat_witness:
  "worker_start 2 30 = Inr () \<and>
   (\<exists>t \<in> set (q_tasks (reap_once 60000050 (fst (heartbeat 50 120 1 ''w'' demo_running)))). holds_lease 1 ''w'' t)"
proof -
  have s: "worker_start 2 30 = Inr ()" by (simp add: worker_start_def)
  have h: "holds_lease 1 ''w'' (claim_row 10 120 ''w'' demo_task)" by (simp add: holds_lease_def claim_row_def)
  have m: "claim_row 10 120 ''w'' demo_task \<in> set (q_tasks demo_running)" by (simp add: demo_running_def)
  from lease_survives_missed_heartbeat [OF s h m, of 60000050 50] s show ?thesis by simp
qed



end
