(* ===== verification/Sql_Like.thy ===== *)
theory Sql_Like
  imports Restock_Prelude
begin

text \<open>
  \<^verbatim>\<open>core/query.py\<close> and the SQL operator it prepares input for: PostgreSQL's \<^verbatim>\<open>LIKE\<close> and
  \<^verbatim>\<open>ILIKE ... ESCAPE '\'\<close>. Case folding is on ASCII letters.
\<close>

text \<open>\<^verbatim>\<open>str.replace\<close> of one character.\<close>

definition py_replace_char :: "char \<Rightarrow> string \<Rightarrow> string \<Rightarrow> string" where
  "py_replace_char old new s = concat (map (\<lambda>x. if x = old then new else [x]) s)"

definition backslash :: char where
  "backslash = CHR 0x5C"

definition escape_like :: "string \<Rightarrow> string" where
  "escape_like value =
     py_replace_char (CHR ''_'') [backslash, CHR ''_'']
       (py_replace_char (CHR ''%'') [backslash, CHR ''%'']
          (py_replace_char backslash [backslash, backslash] value))"

text \<open>
  Matching with the backslash as escape character. A pattern that ends in a lone escape is an
  error in PostgreSQL; here it matches nothing.
\<close>

fun sql_like :: "string \<Rightarrow> string \<Rightarrow> bool" where
  "sql_like [] subj = (subj = [])"
| "sql_like (p # ps) subj =
     (if p = backslash then
        (case ps of [] \<Rightarrow> False
         | q # qs \<Rightarrow> (case subj of [] \<Rightarrow> False | x # xs \<Rightarrow> x = q \<and> sql_like qs xs))
      else if p = CHR ''%'' then
        sql_like ps subj \<or> (case subj of [] \<Rightarrow> False | x # xs \<Rightarrow> sql_like (p # ps) xs)
      else case subj of [] \<Rightarrow> False | x # xs \<Rightarrow> (p = CHR ''_'' \<or> x = p) \<and> sql_like ps xs)"

definition lower_char :: "char \<Rightarrow> char" where
  "lower_char c = (let n = (of_char c :: nat) in if 65 \<le> n \<and> n \<le> 90 then char_of (n + 32) else c)"

definition sql_ilike :: "string \<Rightarrow> string \<Rightarrow> bool" where
  "sql_ilike subj pattern = sql_like (map lower_char pattern) (map lower_char subj)"

text \<open>The pattern the list endpoints build from a search text.\<close>

definition contains_pattern :: "string \<Rightarrow> string" where
  "contains_pattern value = CHR ''%'' # escape_like value @ ''%''"

section \<open>Lemmas\<close>

text \<open>The three replacements act on each character separately.\<close>

definition escape_char :: "char \<Rightarrow> string" where
  "escape_char x = (if x \<in> {backslash, CHR ''%'', CHR ''_''} then [backslash, x] else [x])"

lemma escape_like_chars: "escape_like value = concat (map escape_char value)"
  by (induction "value") (auto simp: escape_like_def py_replace_char_def escape_char_def backslash_def)

lemma lower_char_special: "lower_char c = d \<longleftrightarrow> c = d" if "d \<in> {backslash, CHR ''%'', CHR ''_''}"
proof -
  let ?n = "of_char c :: nat"
  have "?n + 32 \<noteq> of_char d \<and> \<not> (65 \<le> (of_char d :: nat) \<and> (of_char d :: nat) \<le> 90)" if "65 \<le> ?n" "?n \<le> 90"
    using that \<open>d \<in> _\<close> by (auto simp: backslash_def)
  moreover have "of_char (char_of (?n + 32)) = ?n + 32" if "?n \<le> 90" using that by simp
  ultimately show ?thesis unfolding lower_char_def Let_def by (metis of_char_eq_iff)
qed

lemma escape_char_lower: "map lower_char (escape_char c) = escape_char (lower_char c)"
  using lower_char_special [of backslash backslash] lower_char_special [of backslash c] lower_char_special [of "CHR ''%''" c] lower_char_special [of "CHR ''_''" c]
  by (auto simp: escape_char_def)

lemma sql_like_escape_char: "sql_like (escape_char c @ ps) subj \<longleftrightarrow> (\<exists>xs. subj = c # xs \<and> sql_like ps xs)"
  by (cases subj) (auto simp: escape_char_def)

lemma sql_like_escaped:
  "sql_like (concat (map escape_char value) @ ps) subj \<longleftrightarrow> (\<exists>rest. subj = value @ rest \<and> sql_like ps rest)"
  by (induction "value" arbitrary: subj) (auto simp: sql_like_escape_char)

lemma sql_like_percent: "sql_like (CHR ''%'' # ps) subj \<longleftrightarrow> (\<exists>a b. subj = a @ b \<and> sql_like ps b)"
proof (induction subj)
  case (Cons x xs)
  have "sql_like (CHR ''%'' # ps) (x # xs) \<longleftrightarrow> sql_like ps (x # xs) \<or> sql_like (CHR ''%'' # ps) xs"
    by (simp add: backslash_def)
  then show ?case unfolding Cons.IH by (auto simp: Cons_eq_append_conv)
qed (simp add: backslash_def)

section \<open>Properties\<close>

text \<open>
  A search text is matched literally. Whatever wildcards and backslashes it contains, the
  \<^verbatim>\<open>ILIKE\<close> pattern built around its escaped form matches exactly the values that contain it
  as a substring, up to case.
\<close>

theorem escape_like_literal:
  "sql_ilike subj (contains_pattern value) \<longleftrightarrow> sublist (map lower_char value) (map lower_char subj)"
proof -
  have p: "map lower_char (contains_pattern value) =
      CHR ''%'' # concat (map escape_char (map lower_char value)) @ ''%''"
    using lower_char_special [of "CHR ''%''" "CHR ''%''"]
    by (simp add: contains_pattern_def escape_like_chars map_concat comp_def escape_char_lower)
  have any: "sql_like ''%'' xs" for xs using sql_like_percent [of "[]" xs] by auto
  show ?thesis unfolding sql_ilike_def p unfolding sql_like_percent sql_like_escaped using any by (auto simp: sublist_def)
qed

end
