(* ===== verification/Suggestion_Api.thy ===== *)
theory Suggestion_Api
  imports Engine_Runner Sql_Like "HOL-Library.Multiset"
begin

text \<open>
  \<^verbatim>\<open>api/suggestion.py\<close> and \<^verbatim>\<open>schemas/suggestion.py\<close>: the endpoints on suggestions. Each
  handler is one transaction, a function from the store to the new store and the response, or
  an error that rolls everything back. Permission checks are dependencies of the router and
  are modelled with the roles, not here. A response carries the row it was built from; the
  text order of the database is taken to be the order by code point.
\<close>

text \<open>The columns of \<^verbatim>\<open>product_listing\<close> that the endpoints read.\<close>

record product_listing =
  pl_commodity_sku :: "sku option"
  pl_commodity_name :: "string option"
  pl_main_image :: "string option"

record suggestion_item_out =
  io_item :: suggestion_item
  io_commodity_name :: "string option"
  io_main_image :: "string option"

record suggestion_out =
  so_suggestion :: suggestion
  so_procurement_snapshot_count :: int
  so_restock_snapshot_count :: int
  so_procurement_display_status :: string
  so_restock_display_status :: string
  so_procurement_display_status_code :: string
  so_restock_display_status_code :: string

record suggestion_list_out =
  lo_items :: "suggestion_out list"
  lo_total :: int
  lo_page :: int
  lo_page_size :: int

subsection \<open>Listing\<close>

definition SUGGESTION_STATUS_SORT_ORDER :: "(string, int) dict" where
  "SUGGESTION_STATUS_SORT_ORDER = [(''draft'', 0), (''archived'', 1), (''error'', 2)]"

definition suggestion_status_sort_expr :: "suggestion \<Rightarrow> int" where
  "suggestion_status_sort_expr s =
     dict_get_or SUGGESTION_STATUS_SORT_ORDER (sg_status s) (int (length SUGGESTION_STATUS_SORT_ORDER))"

text \<open>\<^verbatim>\<open>ORDER BY f ASC\<close> or \<^verbatim>\<open>DESC\<close>, keeping the given order among equals.\<close>

definition order_by :: "bool \<Rightarrow> ('a \<Rightarrow> 'k::linorder) \<Rightarrow> 'a list \<Rightarrow> 'a list" where
  "order_by ascending f rows = (if ascending then sort_key f rows else rev (sort_key f (rev rows)))"

definition apply_suggestion_sort :: "suggestion list \<Rightarrow> string option \<Rightarrow> string \<Rightarrow> suggestion list" where
  "apply_suggestion_sort rows sort_by sort_order =
     (let tie_broken = order_by False (\<lambda>s. (sg_created_at s, sg_id s)) rows;
          ascending = (sort_order = ''asc'')
      in if sort_by = Some ''id'' then order_by ascending sg_id tie_broken
         else if sort_by = Some ''triggered_by'' then order_by ascending sg_triggered_by tie_broken
         else if sort_by = Some ''status'' then order_by ascending suggestion_status_sort_expr tie_broken
         else if sort_by = Some ''total_items'' then order_by ascending sg_total_items tie_broken
         else order_by ascending sg_created_at tie_broken)"

definition snapshot_count :: "suggestion_store \<Rightarrow> string \<Rightarrow> int \<Rightarrow> int" where
  "snapshot_count st snapshot_type sid =
     int (length (filter (\<lambda>n. sn_suggestion_id n = sid \<and> sn_snapshot_type n = snapshot_type) (st_snapshots st)))"

definition label_archived :: string where
  "label_archived = utf8 [229, 183, 178, 229, 189, 146, 230, 161, 163]"

definition label_exported :: string where
  "label_exported = utf8 [229, 183, 178, 229, 175, 188, 229, 135, 186]"

definition label_pending :: string where
  "label_pending = utf8 [230, 156, 170, 229, 175, 188, 229, 135, 186]"

definition derive_display_status :: "suggestion \<Rightarrow> int \<Rightarrow> string \<times> string" where
  "derive_display_status s snapshots =
     (if sg_status s = ''archived'' then (label_archived, ''archived'')
      else let label = (if snapshots > 0 then label_exported else label_pending)
           in if sg_status s = ''error'' then (label, ''error'')
              else (label, if snapshots > 0 then ''exported'' else ''pending''))"

definition to_suggestion_out :: "suggestion_store \<Rightarrow> suggestion \<Rightarrow> suggestion_out" where
  "to_suggestion_out st s =
     (let proc_count = snapshot_count st ''procurement'' (sg_id s);
          restock_count = snapshot_count st ''restock'' (sg_id s)
      in \<lparr>so_suggestion = s, so_procurement_snapshot_count = proc_count, so_restock_snapshot_count = restock_count,
          so_procurement_display_status = fst (derive_display_status s proc_count),
          so_restock_display_status = fst (derive_display_status s restock_count),
          so_procurement_display_status_code = snd (derive_display_status s proc_count),
          so_restock_display_status_code = snd (derive_display_status s restock_count)\<rparr>)"

record list_query =
  lq_status :: "string option"
  lq_display_status :: "string option"
  lq_date_from :: "date option"
  lq_date_to :: "date option"
  lq_sku :: "string option"
  lq_page :: int
  lq_page_size :: int
  lq_sort_by :: "string option"
  lq_sort_order :: string

definition list_filter :: "suggestion_store \<Rightarrow> list_query \<Rightarrow> suggestion \<Rightarrow> bool" where
  "list_filter st q s \<longleftrightarrow>
     (let total_snapshot_count = snapshot_count st ''procurement'' (sg_id s) + snapshot_count st ''restock'' (sg_id s)
      in (if lq_display_status q = Some ''pending'' then sg_status s = ''draft'' \<and> total_snapshot_count = 0
          else if lq_display_status q = Some ''exported'' then sg_status s = ''draft'' \<and> total_snapshot_count > 0
          else if lq_display_status q = Some ''archived'' then sg_status s = ''archived''
          else if lq_display_status q = Some ''error'' then sg_status s = ''error''
          else case lq_status q of None \<Rightarrow> True | Some t \<Rightarrow> t = [] \<or> sg_status s = t)
       \<and> (case lq_date_from q of None \<Rightarrow> True | Some d \<Rightarrow> sg_created_at s \<ge> beijing_midnight d)
       \<and> (case lq_date_to q of None \<Rightarrow> True | Some d \<Rightarrow> sg_created_at s < beijing_midnight (d + 1))
       \<and> (case lq_sku q of None \<Rightarrow> True
          | Some t \<Rightarrow> t = [] \<or> sg_id s \<in> set [si_suggestion_id i. i \<leftarrow> st_items st, sql_ilike (si_commodity_sku i) (contains_pattern t)]))"

definition list_suggestions :: "suggestion_store \<Rightarrow> list_query \<Rightarrow> suggestion_list_out" where
  "list_suggestions st q =
     (let base = apply_suggestion_sort (filter (list_filter st q) (st_suggestions st)) (lq_sort_by q) (lq_sort_order q);
          rows = take (nat (lq_page_size q)) (drop (nat ((lq_page q - 1) * lq_page_size q)) base)
      in \<lparr>lo_items = map (to_suggestion_out st) rows, lo_total = int (length base),
          lo_page = lq_page q, lo_page_size = lq_page_size q\<rparr>)"

subsection \<open>Reading one suggestion\<close>

definition snapshot_counts_for_suggestion :: "suggestion_store \<Rightarrow> int \<Rightarrow> int \<times> int" where
  "snapshot_counts_for_suggestion st sid =
     (let rows = filter (\<lambda>n. sn_suggestion_id n = sid) (st_snapshots st)
      in (sum_list (map (\<lambda>n. if sn_snapshot_type n = ''procurement'' then 1 else 0) rows),
          sum_list (map (\<lambda>n. if sn_snapshot_type n = ''restock'' then 1 else 0) rows)))"

text \<open>The first listing of a SKU gives its name and picture.\<close>

definition listing_name_map :: "product_listing list \<Rightarrow> sku list \<Rightarrow> (sku, string option \<times> string option) dict" where
  "listing_name_map listings sku_codes =
     foldl (\<lambda>d (s, v). if dict_mem s d then d else dict_set s v d) []
       [(s, pl_commodity_name l, pl_main_image l). l \<leftarrow> listings, s \<leftarrow> (case pl_commodity_sku l of None \<Rightarrow> [] | Some s \<Rightarrow> [s]),
          s \<in> set sku_codes]"

definition suggestion_items :: "suggestion_store \<Rightarrow> int \<Rightarrow> suggestion_item list" where
  "suggestion_items st sid =
     sort_key (\<lambda>i. (\<not> si_urgent i, si_id i)) (filter (\<lambda>i. si_suggestion_id i = sid) (st_items st))"

definition build_detail :: "suggestion_store \<Rightarrow> product_listing list \<Rightarrow> suggestion \<Rightarrow> suggestion_out \<times> suggestion_item_out list" where
  "build_detail st listings s =
     (let items = suggestion_items st (sg_id s);
          name_map = listing_name_map listings (map si_commodity_sku items);
          (proc_count, restock_count) = snapshot_counts_for_suggestion st (sg_id s)
      in (\<lparr>so_suggestion = s, so_procurement_snapshot_count = proc_count, so_restock_snapshot_count = restock_count,
           so_procurement_display_status = fst (derive_display_status s proc_count),
           so_restock_display_status = fst (derive_display_status s restock_count),
           so_procurement_display_status_code = snd (derive_display_status s proc_count),
           so_restock_display_status_code = snd (derive_display_status s restock_count)\<rparr>,
          map (\<lambda>i. \<lparr>io_item = i,
                    io_commodity_name = fst (dict_get_or name_map (si_commodity_sku i) (None, None)),
                    io_main_image = snd (dict_get_or name_map (si_commodity_sku i) (None, None))\<rparr>) items))"

definition get_current_suggestion ::
  "suggestion_store \<Rightarrow> product_listing list \<Rightarrow> (suggestion_out \<times> suggestion_item_out list) res" where
  "get_current_suggestion st listings =
     (case order_by False sg_created_at (filter (\<lambda>s. sg_status s = ''draft'') (st_suggestions st)) of
        [] \<Rightarrow> raise NotFound
      | s # _ \<Rightarrow> return (build_detail st listings s))"

definition get_suggestion ::
  "suggestion_store \<Rightarrow> product_listing list \<Rightarrow> int \<Rightarrow> (suggestion_out \<times> suggestion_item_out list) res" where
  "get_suggestion st listings sid =
     (case find_suggestion st sid of
        None \<Rightarrow> raise NotFound
      | Some s \<Rightarrow> return (build_detail st listings s))"

definition enrich_item :: "product_listing list \<Rightarrow> suggestion_item \<Rightarrow> suggestion_item_out" where
  "enrich_item listings item =
     (let row = find (\<lambda>l. pl_commodity_sku l = Some (si_commodity_sku item)) listings
      in \<lparr>io_item = item,
          io_commodity_name = (case row of None \<Rightarrow> None | Some l \<Rightarrow> pl_commodity_name l),
          io_main_image = (case row of None \<Rightarrow> None | Some l \<Rightarrow> pl_main_image l)\<rparr>)"

subsection \<open>Editing an item\<close>

record item_patch =
  ip_total_qty :: "int option"
  ip_purchase_qty :: "int option"
  ip_country_breakdown :: "(country, int) dict option"
  ip_warehouse_breakdown :: "(country, (warehouse_id, int) dict) dict option"

text \<open>The validation of the request body, before the handler runs.\<close>

definition patch_values_non_negative :: "item_patch \<Rightarrow> bool" where
  "patch_values_non_negative p \<longleftrightarrow>
     (case ip_total_qty p of None \<Rightarrow> True | Some n \<Rightarrow> n \<ge> 0)
   \<and> (case ip_purchase_qty p of None \<Rightarrow> True | Some n \<Rightarrow> n \<ge> 0)
   \<and> (case ip_country_breakdown p of None \<Rightarrow> True | Some d \<Rightarrow> \<forall>(c, q) \<in> set d. q \<ge> 0)
   \<and> (case ip_warehouse_breakdown p of None \<Rightarrow> True | Some d \<Rightarrow> \<forall>(c, wm) \<in> set d. \<forall>(w, q) \<in> set wm. q \<ge> 0)"

definition resolve_effective_lead_time_days :: "engine_db \<Rightarrow> suggestion \<Rightarrow> suggestion_item \<Rightarrow> int" where
  "resolve_effective_lead_time_days db s item =
     (let row = find (\<lambda>c. sc_commodity_sku c = si_commodity_sku item) (t_sku_config db);
          sku_lead_time = (case row of None \<Rightarrow> None | Some c \<Rightarrow> sc_lead_time_days c)
      in case sku_lead_time of
           Some d \<Rightarrow> d
         | None \<Rightarrow> (case cs_lead_time_days (sg_global_config_snapshot s) of Some d \<Rightarrow> d | None \<Rightarrow> 50))"

definition suggestion_demand_date :: "suggestion \<Rightarrow> date option" where
  "suggestion_demand_date s = cs_demand_date (sg_global_config_snapshot s)"

definition split_mismatch ::
  "(country, int) dict \<Rightarrow> (country, (warehouse_id, int) dict) dict \<Rightarrow> country \<Rightarrow> bool" where
  "split_mismatch effective_cb effective_wb c \<longleftrightarrow>
     (let warehouse_values = dict_values (dict_get_or effective_wb c [])
      in warehouse_values \<noteq> [] \<and> sum_list warehouse_values \<noteq> dict_get_or effective_cb c 0)"

definition patched_item :: "engine_db \<Rightarrow> suggestion \<Rightarrow> item_patch \<Rightarrow> suggestion_item \<Rightarrow> suggestion_item" where
  "patched_item db parent patch item =
     (let i1 = (case ip_total_qty patch of None \<Rightarrow> item | Some n \<Rightarrow> item\<lparr>si_total_qty := n\<rparr>);
          i2 = (case ip_purchase_qty patch of None \<Rightarrow> i1 | Some n \<Rightarrow> i1\<lparr>si_purchase_qty := n\<rparr>);
          i3 = (case ip_country_breakdown patch of None \<Rightarrow> i2
                | Some cb \<Rightarrow> i2\<lparr>si_country_breakdown := cb, si_total_qty := sum_list (dict_values cb)\<rparr>);
          i4 = (case ip_warehouse_breakdown patch of None \<Rightarrow> i3 | Some wb \<Rightarrow> i3\<lparr>si_warehouse_breakdown := wb\<rparr>);
          i5 = (if ip_country_breakdown patch \<noteq> None \<or> ip_warehouse_breakdown patch \<noteq> None
                then i4\<lparr>si_allocation_snapshot := None\<rparr> else i4);
          sale_days = (case si_sale_days_snapshot item of None \<Rightarrow> [] | Some d \<Rightarrow> d);
          velocity = (case si_velocity_snapshot item of None \<Rightarrow> [] | Some d \<Rightarrow> d)
      in case ip_country_breakdown patch of
           None \<Rightarrow> i5
         | Some cb \<Rightarrow>
             let lead_time_days = resolve_effective_lead_time_days db parent item;
                 added_countries = [c. (c, qty) \<leftarrow> cb, qty > 0, dict_get_or (si_country_breakdown item) c 0 \<le> 0]
             in i5\<lparr>si_urgent := has_urgent_sale_days sale_days lead_time_days (Some (positive_qty_countries cb)),
                   si_restock_dates := demand_restock_dates cb (suggestion_demand_date parent),
                   si_calculation_warnings := build_calculation_warnings cb (Some sale_days) (Some velocity)
                     (Some added_countries) None\<rparr>)"

definition update_item :: "int \<Rightarrow> (suggestion_item \<Rightarrow> suggestion_item) \<Rightarrow> suggestion_store \<Rightarrow> suggestion_store" where
  "update_item iid f st = st\<lparr>st_items := update_where (\<lambda>i. si_id i = iid) f (st_items st)\<rparr>"

definition patch_item ::
  "engine_db \<Rightarrow> product_listing list \<Rightarrow> item_patch \<Rightarrow> int \<Rightarrow> int \<Rightarrow> suggestion_store \<Rightarrow>
   (suggestion_store \<times> suggestion_item_out) res" where
  "patch_item db listings patch sid iid st =
     (if \<not> patch_values_non_negative patch then raise (HTTPException 422)
      else case find_suggestion st sid of
        None \<Rightarrow> raise NotFound
      | Some parent \<Rightarrow>
          if sg_status parent = ''archived'' then raise ValidationFailed
          else case find_item st sid iid of
                 None \<Rightarrow> raise NotFound
               | Some item \<Rightarrow>
                   let effective_cb = (case ip_country_breakdown patch of Some d \<Rightarrow> d | None \<Rightarrow> si_country_breakdown item);
                       effective_wb = (case ip_warehouse_breakdown patch of Some d \<Rightarrow> d | None \<Rightarrow> si_warehouse_breakdown item)
                   in if list_ex (split_mismatch effective_cb effective_wb) (positive_qty_countries effective_cb)
                      then raise ValidationFailed
                      else let new_item = patched_item db parent patch item
                           in return (update_item iid (\<lambda>_. new_item) st, enrich_item listings new_item))"

subsection \<open>Recalculating an item\<close>

definition recalculated_item ::
  "engine_db \<Rightarrow> suggestion \<Rightarrow> suggestion_item \<Rightarrow> pyfloat country_map \<Rightarrow> inventory_map \<Rightarrow> suggestion_item" where
  "recalculated_item db parent item sale_days inventory =
     (let velocity_for_sku = (case si_velocity_snapshot item of None \<Rightarrow> [] | Some d \<Rightarrow> d);
          recalculated_sale_days = to_sale_days_dict (dict_get_or sale_days (si_commodity_sku item) []);
          missing_inventory = [c. (c, v) \<leftarrow> velocity_for_sku, v > 0,
                                 \<not> dict_mem c (dict_get_or inventory (si_commodity_sku item) [])];
          lead_time_days = resolve_effective_lead_time_days db parent item;
          country_breakdown = si_country_breakdown item
      in item\<lparr>si_sale_days_snapshot := Some recalculated_sale_days,
              si_urgent := has_urgent_sale_days recalculated_sale_days lead_time_days
                 (Some (positive_qty_countries country_breakdown)),
              si_restock_dates := demand_restock_dates country_breakdown (suggestion_demand_date parent),
              si_calculation_warnings := build_calculation_warnings country_breakdown (Some recalculated_sale_days)
                 (Some velocity_for_sku) None (Some missing_inventory)\<rparr>)"

definition recalculate_item ::
  "engine_db \<Rightarrow> product_listing list \<Rightarrow> int \<Rightarrow> int \<Rightarrow> suggestion_store \<Rightarrow>
   (suggestion_store \<times> suggestion_item_out) res" where
  "recalculate_item db listings sid iid st =
     (case find_suggestion st sid of
        None \<Rightarrow> raise NotFound
      | Some parent \<Rightarrow>
          if sg_status parent \<noteq> ''draft'' then raise ValidationFailed
          else case find_item st sid iid of
                 None \<Rightarrow> raise NotFound
               | Some item \<Rightarrow>
                   let resolver = load_physical_sku_resolver db;
                       velocity_for_sku = (case si_velocity_snapshot item of None \<Rightarrow> [] | Some d \<Rightarrow> d)
                   in bind_res (run_step2 db [(si_commodity_sku item, velocity_for_sku)] (Some [si_commodity_sku item])
                                 (Some (sku_to_group_key resolver)) (Some (members_by_group_key resolver)))
                        (\<lambda>(sale_days, inventory).
                           let new_item = recalculated_item db parent item sale_days inventory
                           in return (update_item iid (\<lambda>_. new_item) st, enrich_item listings new_item)))"

subsection \<open>Archiving and deleting\<close>

definition archive_suggestion :: "instant \<Rightarrow> int \<Rightarrow> suggestion_store \<Rightarrow> suggestion_store res" where
  "archive_suggestion now sid st =
     (case find_suggestion st sid of
        None \<Rightarrow> raise NotFound
      | Some s \<Rightarrow>
          if sg_status s = ''archived'' then raise ConflictError
          else return (st\<lparr>st_suggestions := update_where (\<lambda>s. sg_id s = sid)
                 (\<lambda>s. s\<lparr>sg_status := ''archived'', sg_archived_at := Some now\<rparr>) (st_suggestions st)\<rparr>))"

text \<open>Deleting a suggestion removes its items with it (\<^verbatim>\<open>ON DELETE CASCADE\<close>); it has no snapshots.\<close>

definition delete_suggestion :: "int \<Rightarrow> suggestion_store \<Rightarrow> suggestion_store res" where
  "delete_suggestion sid st =
     (case find_suggestion st sid of
        None \<Rightarrow> raise NotFound
      | Some s \<Rightarrow>
          if length (filter (\<lambda>n. sn_suggestion_id n = sid) (st_snapshots st)) > 0 then raise ConflictError
          else return (st\<lparr>st_suggestions := filter (\<lambda>s. sg_id s \<noteq> sid) (st_suggestions st),
                         st_items := filter (\<lambda>i. si_suggestion_id i \<noteq> sid) (st_items st)\<rparr>))"

section \<open>Lemmas\<close>

lemma set_order_by [simp]: "set (order_by asc f rows) = set rows"
  by (simp add: order_by_def)

lemma mset_order_by [simp]: "mset (order_by asc f rows) = mset rows"
  by (simp add: order_by_def)

lemma mset_apply_suggestion_sort [simp]: "mset (apply_suggestion_sort rows sort_by sort_order) = mset rows"
  by (simp add: apply_suggestion_sort_def Let_def)

text \<open>Consecutive slices of a list put together are a prefix of it.\<close>

lemma concat_slices: "concat (map (\<lambda>k. take n (drop (k * n) xs)) [0..<m]) = take (m * n) xs"
proof (induction m)
  case (Suc m)
  have "take (m * n) xs @ take n (drop (m * n) xs) = take (m * n + n) xs" by (simp add: take_add)
  then show ?case using Suc by (simp add: add.commute)
qed simp

lemma list_filter_page [simp]: "list_filter st (q\<lparr>lq_page := p\<rparr>) = list_filter st q"
  by (simp add: list_filter_def fun_eq_iff)

lemma find_item_update_same:
  assumes "find_item st sid iid = Some item" "si_id new = iid" "si_suggestion_id new = sid"
  shows "find_item (update_item iid (\<lambda>_. new) st) sid iid = Some new"
proof -
  have "find (\<lambda>i. si_id i = iid \<and> si_suggestion_id i = sid) (map (\<lambda>i. if si_id i = iid then new else i) rows) = Some new"
    if "item \<in> set rows" "si_id item = iid" for rows
    using that assms(2,3) by (induction rows) auto
  from this [of "st_items st"] find_item_SomeD [OF assms(1)] show ?thesis
    by (simp add: find_item_def update_item_def update_where_def)
qed

lemma find_item_update_other: "iid' \<noteq> iid \<Longrightarrow> si_id new = iid \<Longrightarrow> find_item (update_item iid (\<lambda>_. new) st) sid iid' = find_item st sid iid'"
proof -
  assume "iid' \<noteq> iid" "si_id new = iid"
  then have "find (\<lambda>i. si_id i = iid' \<and> si_suggestion_id i = sid) (map (\<lambda>i. if si_id i = iid then new else i) rows)
      = find (\<lambda>i. si_id i = iid' \<and> si_suggestion_id i = sid) rows" for rows
    by (induction rows) auto
  then show ?thesis by (simp add: find_item_def update_item_def update_where_def)
qed

text \<open>What editing and recalculating never touch: the keys, the SKU, the export state and the velocity.\<close>

definition same_identity :: "suggestion_item \<Rightarrow> suggestion_item \<Rightarrow> bool" where
  "same_identity i j \<longleftrightarrow> si_id i = si_id j \<and> si_suggestion_id i = si_suggestion_id j \<and> si_commodity_sku i = si_commodity_sku j
     \<and> si_velocity_snapshot i = si_velocity_snapshot j \<and> si_calculation_inputs_snapshot i = si_calculation_inputs_snapshot j
     \<and> si_restock_export_status i = si_restock_export_status j
     \<and> si_restock_exported_snapshot_id i = si_restock_exported_snapshot_id j
     \<and> si_procurement_export_status i = si_procurement_export_status j
     \<and> si_procurement_exported_snapshot_id i = si_procurement_exported_snapshot_id j"

lemma same_identity_refl [simp]: "same_identity i i"
  by (simp add: same_identity_def)

lemma patched_item_identity: "same_identity (patched_item db parent patch item) item"
  by (auto simp: patched_item_def same_identity_def Let_def split: option.split)

lemma recalculated_item_identity: "same_identity (recalculated_item db parent item sale_days inventory) item"
  by (simp add: recalculated_item_def same_identity_def Let_def)

lemma patch_item_cases:
  assumes "patch_item db listings patch sid iid st = Inr (st', out)"
  obtains parent item where "patch_values_non_negative patch" "find_suggestion st sid = Some parent" "sg_status parent \<noteq> ''archived''"
    "find_item st sid iid = Some item"
    "\<And>c. c \<in> set (positive_qty_countries (case ip_country_breakdown patch of Some d \<Rightarrow> d | None \<Rightarrow> si_country_breakdown item)) \<Longrightarrow>
       \<not> split_mismatch (case ip_country_breakdown patch of Some d \<Rightarrow> d | None \<Rightarrow> si_country_breakdown item)
           (case ip_warehouse_breakdown patch of Some d \<Rightarrow> d | None \<Rightarrow> si_warehouse_breakdown item) c"
    "st' = update_item iid (\<lambda>_. patched_item db parent patch item) st"
    "out = enrich_item listings (patched_item db parent patch item)"
  using assms unfolding patch_item_def Let_def
  by (auto split: if_splits option.splits simp: list_ex_iff)

lemma recalculate_item_cases:
  assumes "recalculate_item db listings sid iid st = Inr (st', out)"
  obtains parent item sale_days inventory where "find_suggestion st sid = Some parent" "sg_status parent = ''draft''"
    "find_item st sid iid = Some item"
    "st' = update_item iid (\<lambda>_. recalculated_item db parent item sale_days inventory) st"
    "out = enrich_item listings (recalculated_item db parent item sale_days inventory)"
  using assms unfolding recalculate_item_def Let_def bind_res_def
  by (auto split: if_splits option.splits sum.splits)

lemma patched_breakdowns:
  "si_country_breakdown (patched_item db parent patch item) =
     (case ip_country_breakdown patch of Some d \<Rightarrow> d | None \<Rightarrow> si_country_breakdown item)"
  "si_warehouse_breakdown (patched_item db parent patch item) =
     (case ip_warehouse_breakdown patch of Some d \<Rightarrow> d | None \<Rightarrow> si_warehouse_breakdown item)"
  "si_total_qty (patched_item db parent patch item) =
     (case ip_country_breakdown patch of Some d \<Rightarrow> sum_list (map snd d)
      | None \<Rightarrow> (case ip_total_qty patch of Some n \<Rightarrow> n | None \<Rightarrow> si_total_qty item))"
  "si_purchase_qty (patched_item db parent patch item) =
     (case ip_purchase_qty patch of Some n \<Rightarrow> n | None \<Rightarrow> si_purchase_qty item)"
  by (auto simp: patched_item_def Let_def dict_values_def split: option.split)

lemma positive_qty_countries_get: "0 < dict_get_or cb c 0 \<Longrightarrow> c \<in> set (positive_qty_countries cb)"
  using dict_get_in [of cb c] by (auto simp: positive_qty_countries_def dict_get_or_def split: option.splits)

section \<open>Properties\<close>

text \<open>
  Pagination of the list endpoint. For any filter and sort order, the pages 1 to n
  together show every matching suggestion exactly once, in the sort order, as soon as n pages
  hold the reported total.
\<close>

theorem list_pages_complete:
  assumes "0 < lq_page_size q" "lo_total (list_suggestions st q) \<le> int n * lq_page_size q"
  shows "let shown = concat (map (\<lambda>k. lo_items (list_suggestions st (q\<lparr>lq_page := int k + 1\<rparr>))) [0..<n])
     in map so_suggestion shown =
          apply_suggestion_sort (filter (list_filter st q) (st_suggestions st)) (lq_sort_by q) (lq_sort_order q)
      \<and> mset (map so_suggestion shown) = mset (filter (list_filter st q) (st_suggestions st))"
proof -
  define base where "base = apply_suggestion_sort (filter (list_filter st q) (st_suggestions st)) (lq_sort_by q) (lq_sort_order q)"
  define size where "size = nat (lq_page_size q)"
  have page: "lo_items (list_suggestions st (q\<lparr>lq_page := int k + 1\<rparr>)) = map (to_suggestion_out st) (take size (drop (k * size) base))" for k
  proof -
    have "nat (int k * lq_page_size q) = k * size" using assms(1) by (simp add: size_def nat_mult_distrib)
    then show ?thesis by (simp add: list_suggestions_def base_def size_def Let_def)
  qed
  have id: "so_suggestion \<circ> to_suggestion_out st = (\<lambda>s. s)" by (simp add: fun_eq_iff to_suggestion_out_def Let_def)
  have "length base \<le> n * size"
  proof -
    have "int (length base) \<le> int n * lq_page_size q" using assms(2) by (simp add: list_suggestions_def base_def Let_def)
    then show ?thesis using assms(1) by (simp add: size_def nat_le_iff [symmetric] nat_mult_distrib)
       (metis int_nat_eq less_le_not_le nat_int nat_le_linear nat_less_le nat_mono of_nat_mult)
  qed
  then have e: "map so_suggestion (concat (map (\<lambda>k. lo_items (list_suggestions st (q\<lparr>lq_page := int k + 1\<rparr>))) [0..<n])) = base"
    unfolding page map_concat map_map comp_def [of "map so_suggestion"] id
    using concat_slices [of size base n] by (simp add: id take_map [symmetric] comp_def)
  show ?thesis unfolding Let_def e by (simp add: base_def)
qed


text \<open>A store with one draft of one item, used by the witnesses.\<close>

definition demo_snapshot_config :: config_snapshot where
  "demo_snapshot_config = \<lparr>cs_buffer_days = 30, cs_target_days = 60, cs_lead_time_days = Some 50, cs_safety_stock_days = 15,
     cs_restock_regions = [], cs_eu_countries = [], cs_shop_sync_mode = ''all'', cs_snapshot_at = 0, cs_demand_date = Some 110\<rparr>"

definition demo_suggestion :: suggestion where
  "demo_suggestion = \<lparr>sg_id = 1, sg_status = ''draft'', sg_global_config_snapshot = demo_snapshot_config, sg_total_items = 1,
     sg_procurement_item_count = 1, sg_restock_item_count = 1, sg_triggered_by = ''manual'', sg_archived_at = None,
     sg_archived_by = None, sg_archived_trigger = None, sg_created_at = 0\<rparr>"

definition demo_suggestion_item :: suggestion_item where
  "demo_suggestion_item = \<lparr>si_commodity_sku = ''A'', si_total_qty = 25, si_country_breakdown = [(''US'', 25)],
     si_warehouse_breakdown = [(''US'', [(''W'', 25)])], si_allocation_snapshot = None,
     si_velocity_snapshot = Some [(''US'', 1/2)], si_sale_days_snapshot = Some [(''US'', Some (SaleNumber 20))],
     si_calculation_warnings = [], si_calculation_inputs_snapshot = None, si_urgent = True, si_purchase_qty = 33,
     si_restock_dates = [(''US'', Some 110)], si_id = 1, si_suggestion_id = 1, si_restock_export_status = ''pending'',
     si_restock_exported_snapshot_id = None, si_restock_exported_at = None, si_procurement_export_status = ''pending'',
     si_procurement_exported_snapshot_id = None, si_procurement_exported_at = None\<rparr>"

definition demo_store :: suggestion_store where
  "demo_store = empty_store\<lparr>st_suggestions := [demo_suggestion], st_items := [demo_suggestion_item],
     st_next_suggestion_id := 2, st_next_item_id := 2\<rparr>"

definition demo_query :: list_query where
  "demo_query = \<lparr>lq_status = None, lq_display_status = None, lq_date_from = None, lq_date_to = None, lq_sku = None,
     lq_page = 1, lq_page_size = 20, lq_sort_by = None, lq_sort_order = ''desc''\<rparr>"

lemma demo_store_finds:
  "find_suggestion demo_store 1 = Some demo_suggestion" "find_item demo_store 1 1 = Some demo_suggestion_item"
  by (simp_all add: demo_store_def find_suggestion_def find_item_def demo_suggestion_def demo_suggestion_item_def)

theorem list_pages_complete_witness:
  "map so_suggestion (lo_items (list_suggestions demo_store demo_query)) = [demo_suggestion]"
proof -
  have q: "demo_query\<lparr>lq_page := 1\<rparr> = demo_query" by (simp add: demo_query_def)
  have f: "filter (list_filter demo_store demo_query) (st_suggestions demo_store) = [demo_suggestion]"
    by (simp add: list_filter_def demo_query_def demo_store_def Let_def)
  have s: "apply_suggestion_sort [demo_suggestion] sort_by dir = [demo_suggestion]" for sort_by dir
    by (simp add: apply_suggestion_sort_def order_by_def Let_def)
  have size: "lq_page_size demo_query = 20" by (simp add: demo_query_def)
  have "lo_total (list_suggestions demo_store demo_query) \<le> int 1 * lq_page_size demo_query" "0 < lq_page_size demo_query"
    by (simp_all add: list_suggestions_def f s size Let_def)
  from list_pages_complete [OF this(2,1)] show ?thesis by (simp add: q f s Let_def)
qed


text \<open>
  An edit that sends only a total is taken as it is: the stored total then need not be the sum
  of the country quantities.
\<close>

lemma patch_total_only:
  assumes "0 \<le> n"
  shows "\<exists>st' out. patch_item db [] \<lparr>ip_total_qty = Some n, ip_purchase_qty = None, ip_country_breakdown = None,
       ip_warehouse_breakdown = None\<rparr> 1 1 demo_store = Inr (st', out)
     \<and> si_total_qty (io_item out) = n \<and> si_country_breakdown (io_item out) = [(''US'', 25)]"
proof -
  have u: "positive_qty_countries [(''US'', 25)] = [''US'']" by (simp add: positive_qty_countries_def dedup_def)
  show ?thesis using assms
    by (simp add: patch_item_def patch_values_non_negative_def demo_store_finds demo_suggestion_def demo_suggestion_item_def u
        split_mismatch_def dict_values_def dict_get_or_def dict_get_def patched_item_def enrich_item_def Let_def)
qed

end
