(* ===== verification/Excel_Export.thy ===== *)
theory Excel_Export
  imports Suggestion_Store
begin

text \<open>
  \<^verbatim>\<open>services/excel_export.py\<close>: the workbooks of the two kinds of snapshot, as the rows of
  their sheets, and the name of the exported file. Fonts, fills and column widths carry no
  data and are left out; writing the file is openpyxl's. The calendar functions behind
  \<^verbatim>\<open>strftime\<close> are written out.
\<close>

datatype cell = CEmpty | CText string | CInt int | CNum pyfloat | CDate date

type_synonym sheet = "string \<times> cell list list"
type_synonym workbook = "sheet list"

text \<open>One entry of \<^verbatim>\<open>export_items\<close>: a dictionary, \<^verbatim>\<open>local_stock\<close> being a key it may lack.\<close>

record export_item =
  xi_commodity_sku :: sku
  xi_commodity_name :: "string option"
  xi_main_image_url :: "string option"
  xi_total_qty :: int
  xi_country_breakdown :: "(country, int) dict"
  xi_warehouse_breakdown :: "(country, (warehouse_id, int) dict) dict"
  xi_restock_dates :: "(country, date option) dict"
  xi_purchase_qty :: int
  xi_urgent :: bool
  xi_velocity_snapshot :: "(country, pyfloat) dict option"
  xi_sale_days_snapshot :: "sale_days_dict option"
  xi_calculation_warnings :: "calculation_warning list"
  xi_local_stock :: "local_stock option"

record snapshot_export_context =
  xc_suggestion_id :: int
  xc_snapshot_type :: string
  xc_version :: int
  xc_exported_at :: instant
  xc_exported_by_name :: "string option"
  xc_note :: "string option"
  xc_global_config :: config_snapshot
  xc_items :: "export_item list"

subsection \<open>Dates and times as text\<close>

text \<open>Year, month and day of a day number, in the proleptic Gregorian calendar.\<close>

definition civil_date :: "date \<Rightarrow> int \<times> int \<times> int" where
  "civil_date d =
     (let z = d + 719468;
          era = z div 146097;
          doe = z mod 146097;
          yoe = (doe - doe div 1460 + doe div 36524 - doe div 146096) div 365;
          doy = doe - (365 * yoe + yoe div 4 - yoe div 100);
          mp = (5 * doy + 2) div 153;
          dd = doy - (153 * mp + 2) div 5 + 1;
          mm = (if mp < 10 then mp + 3 else mp - 9);
          y = yoe + era * 400
      in (if mm \<le> 2 then y + 1 else y, mm, dd))"

text \<open>\<^verbatim>\<open>%m\<close>, \<^verbatim>\<open>%d\<close>, \<^verbatim>\<open>%H\<close>, ... pad to two digits.\<close>

definition two_digits :: "int \<Rightarrow> string" where
  "two_digits n = (if n < 10 then ''0'' @ int_to_string n else int_to_string n)"

definition seconds_of_day :: "instant \<Rightarrow> int" where
  "seconds_of_day t = (t + beijing_offset) mod day_micros div 1000000"

definition strftime_compact :: "instant \<Rightarrow> string" where
  "strftime_compact t =
     (let (y, m, d) = civil_date (beijing_date t); s = seconds_of_day t
      in int_to_string y @ two_digits m @ two_digits d
         @ two_digits (s div 3600) @ two_digits (s mod 3600 div 60) @ two_digits (s mod 60))"

definition strftime_text :: "instant \<Rightarrow> string" where
  "strftime_text t =
     (let (y, m, d) = civil_date (beijing_date t); s = seconds_of_day t
      in int_to_string y @ ''-'' @ two_digits m @ ''-'' @ two_digits d @ '' ''
         @ two_digits (s div 3600) @ '':'' @ two_digits (s mod 3600 div 60) @ '':'' @ two_digits (s mod 60))"

definition strftime_month :: "instant \<Rightarrow> string" where
  "strftime_month t =
     (let (y, m, d) = civil_date (beijing_date t) in int_to_string y @ ''/'' @ two_digits m)"

definition build_filename :: "int \<Rightarrow> int \<Rightarrow> instant \<Rightarrow> string \<Rightarrow> string" where
  "build_filename suggestion_id version exported_at snapshot_type =
     snapshot_type @ ''_'' @ int_to_string suggestion_id @ ''_v'' @ int_to_string version @ ''_''
       @ strftime_compact exported_at @ ''.xlsx''"

subsection \<open>Sheets\<close>

text \<open>The Chinese labels of the sheets, by their UTF-8 bytes.\<close>

definition label_main :: string where
  "label_main = utf8 [228, 184, 187, 230, 149, 176, 230, 141, 174]"

definition label_sugid :: string where
  "label_sugid = utf8 [229, 187, 186, 232, 174, 174, 229, 141, 149, 32, 73, 68]"

definition label_snaptype :: string where
  "label_snaptype = utf8 [229, 191, 171, 231, 133, 167, 231, 177, 187, 229, 158, 139]"

definition label_version :: string where
  "label_version = utf8 [231, 137, 136, 230, 156, 172]"

definition label_exptime :: string where
  "label_exptime = utf8 [229, 175, 188, 229, 135, 186, 230, 151, 182, 233, 151, 180]"

definition label_expby :: string where
  "label_expby = utf8 [229, 175, 188, 229, 135, 186, 228, 186, 186]"

definition label_system :: string where
  "label_system = utf8 [231, 179, 187, 231, 187, 159]"

definition label_note :: string where
  "label_note = utf8 [229, 164, 135, 230, 179, 168]"

definition label_rdate :: string where
  "label_rdate = utf8 [232, 161, 165, 232, 180, 167, 230, 151, 165, 230, 156, 159]"

definition label_semi :: string where
  "label_semi = utf8 [239, 188, 155]"

definition label_proc :: string where
  "label_proc = utf8 [233, 135, 135, 232, 180, 173, 230, 152, 142, 231, 187, 134]"

definition label_name :: string where
  "label_name = utf8 [229, 149, 134, 229, 147, 129, 229, 144, 141]"

definition label_img :: string where
  "label_img = utf8 [229, 155, 190, 231, 137, 135, 32, 85, 82, 76]"

definition label_pqty :: string where
  "label_pqty = utf8 [233, 135, 135, 232, 180, 173, 233, 135, 143]"

definition label_vsum :: string where
  "label_vsum = utf8 [229, 144, 132, 229, 155, 189, 229, 138, 168, 233, 148, 128, 229, 144, 136, 232, 174, 161]"

definition label_local :: string where
  "label_local = utf8 [230, 156, 172, 229, 156, 176, 229, 186, 147, 229, 173, 152, 229, 143, 175, 231, 148, 168, 43, 229, 141, 160, 231, 148, 168]"

definition label_safety :: string where
  "label_safety = utf8 [229, 174, 137, 229, 133, 168, 229, 186, 147, 229, 173, 152, 229, 164, 169, 230, 149, 176]"

definition label_skusum :: string where
  "label_skusum = utf8 [83, 75, 85, 230, 177, 135, 230, 128, 187]"

definition label_rtotal :: string where
  "label_rtotal = utf8 [232, 161, 165, 232, 180, 167, 230, 128, 187, 233, 135, 143]"

definition label_urgent :: string where
  "label_urgent = utf8 [231, 180, 167, 230, 128, 165]"

definition label_diag :: string where
  "label_diag = utf8 [232, 174, 161, 231, 174, 151, 232, 175, 138, 230, 150, 173]"

definition label_yes :: string where
  "label_yes = utf8 [230, 152, 175]"

definition label_skuc :: string where
  "label_skuc = utf8 [83, 75, 85, 195, 151, 229, 155, 189, 229, 174, 182]"

definition label_country :: string where
  "label_country = utf8 [229, 155, 189, 229, 174, 182]"

definition label_rqty :: string where
  "label_rqty = utf8 [232, 161, 165, 232, 180, 167, 233, 135, 143]"

definition label_skucw :: string where
  "label_skucw = utf8 [83, 75, 85, 195, 151, 229, 155, 189, 229, 174, 182, 195, 151, 228, 187, 147, 229, 186, 147]"

definition label_wh :: string where
  "label_wh = utf8 [228, 187, 147, 229, 186, 147]"

text \<open>\<^verbatim>\<open>', '.join(xs)\<close>, and with a null among the texts a \<^verbatim>\<open>TypeError\<close>.\<close>

definition join_texts :: "string option list \<Rightarrow> string res" where
  "join_texts xs = (if None \<in> set xs then raise TypeError else return (py_join '', '' (map the xs)))"

definition opt_int_cell :: "int option \<Rightarrow> cell" where
  "opt_int_cell v = (case v of None \<Rightarrow> CEmpty | Some n \<Rightarrow> CInt n)"

definition opt_date_cell :: "date option \<Rightarrow> cell" where
  "opt_date_cell v = (case v of None \<Rightarrow> CEmpty | Some d \<Rightarrow> CDate d)"

definition text_or :: "string option \<Rightarrow> string \<Rightarrow> string" where
  "text_or v dflt = (case v of None \<Rightarrow> dflt | Some s \<Rightarrow> if s = [] then dflt else s)"

definition build_meta_sheet :: "snapshot_export_context \<Rightarrow> sheet res" where
  "build_meta_sheet ctx =
     (let config = xc_global_config ctx
      in bind_res (join_texts (cs_restock_regions config))
           (\<lambda>regions. bind_res (join_texts (cs_eu_countries config))
              (\<lambda>eu. return (label_main,
                 [[CText label_sugid, CInt (xc_suggestion_id ctx)],
                  [CText label_snaptype, CText (xc_snapshot_type ctx)],
                  [CText label_version, CText (''v'' @ int_to_string (xc_version ctx))],
                  [CText label_exptime, CText (strftime_text (xc_exported_at ctx))],
                  [CText label_expby, CText (text_or (xc_exported_by_name ctx) label_system)],
                  [CText label_note, CText (text_or (xc_note ctx) [])],
                  [CText label_rdate, opt_date_cell (cs_demand_date config)],
                  [CText ''buffer_days'', CInt (cs_buffer_days config)],
                  [CText ''target_days'', CInt (cs_target_days config)],
                  [CText ''lead_time_days'', opt_int_cell (cs_lead_time_days config)],
                  [CText ''safety_stock_days'', CInt (cs_safety_stock_days config)],
                  [CText ''restock_regions'', CText regions],
                  [CText ''eu_countries'', CText eu]]))))"

definition ctx_restock_date :: "snapshot_export_context \<Rightarrow> cell" where
  "ctx_restock_date ctx =
     (case cs_demand_date (xc_global_config ctx) of None \<Rightarrow> CText [] | Some d \<Rightarrow> CDate d)"

definition format_warnings :: "calculation_warning list \<Rightarrow> country option \<Rightarrow> string" where
  "format_warnings warnings only =
     py_join label_semi
       (concat (map (\<lambda>w.
          if (case only of None \<Rightarrow> False | Some c \<Rightarrow> cw_country w \<noteq> c) then []
          else let message = py_strip (if cw_message w = [] then cw_code w else cw_message w);
                   warning_country = py_strip (cw_country w)
               in if message = [] then []
                  else [if warning_country = [] then message else warning_country @ '': '' @ message]) warnings))"

definition procurement_row :: "snapshot_export_context \<Rightarrow> export_item \<Rightarrow> cell list" where
  "procurement_row ctx item =
     [CText (xi_commodity_sku item), CText (text_or (xi_commodity_name item) []),
      CText (text_or (xi_main_image_url item) []), CInt (xi_purchase_qty item),
      CNum (fsum (dict_values (case xi_velocity_snapshot item of None \<Rightarrow> [] | Some d \<Rightarrow> d))),
      CInt (case xi_local_stock item of None \<Rightarrow> 0 | Some st \<Rightarrow> ls_available st + ls_reserved st),
      CInt (cs_safety_stock_days (xc_global_config ctx))]"

definition build_procurement_workbook :: "snapshot_export_context \<Rightarrow> workbook res" where
  "build_procurement_workbook ctx =
     bind_res (build_meta_sheet ctx)
       (\<lambda>meta. return [meta, (label_proc,
          map CText [''SKU'', label_name, label_img, label_pqty, label_vsum, label_local, label_safety]
          # map (procurement_row ctx) (xc_items ctx))])"

definition build_restock_workbook :: "snapshot_export_context \<Rightarrow> workbook res" where
  "build_restock_workbook ctx =
     bind_res (build_meta_sheet ctx)
       (\<lambda>meta.
          let restock_date = ctx_restock_date ctx
          in return
           [meta,
            (label_skusum,
             map CText [''SKU'', label_name, label_rtotal, label_urgent, label_diag]
             # map (\<lambda>item. [CText (xi_commodity_sku item), CText (text_or (xi_commodity_name item) []),
                             CInt (xi_total_qty item), CText (if xi_urgent item then label_yes else []),
                             CText (format_warnings (xi_calculation_warnings item) None)]) (xc_items ctx)),
            (label_skuc,
             map CText [''SKU'', label_country, label_rqty, label_rdate, label_diag]
             # [[CText (xi_commodity_sku item), CText c, CInt qty, restock_date,
                  CText (format_warnings (xi_calculation_warnings item) (Some c))].
                  item \<leftarrow> xc_items ctx, (c, qty) \<leftarrow> xi_country_breakdown item]),
            (label_skucw,
             map CText [''SKU'', label_country, label_wh, label_rqty, label_rdate, label_diag]
             # [[CText (xi_commodity_sku item), CText c, CText w, CInt qty, restock_date,
                  CText (format_warnings (xi_calculation_warnings item) (Some c))].
                  item \<leftarrow> xc_items ctx, (c, wm) \<leftarrow> xi_warehouse_breakdown item, (w, qty) \<leftarrow> wm])])"

section \<open>Lemmas\<close>

text \<open>A part without the separator is read back up to it.\<close>

lemma separated_inj: "x @ c # y = x' @ c # y' \<Longrightarrow> c \<notin> set x \<Longrightarrow> c \<notin> set x' \<Longrightarrow> x = x' \<and> y = y'"
  by (induction x arbitrary: x') (auto simp: Cons_eq_append_conv)

lemma build_filename_inj:
  assumes "build_filename sid v t ty = build_filename sid' v' t' ty'"
    "CHR ''_'' \<notin> set ty" "CHR ''_'' \<notin> set ty'" "0 \<le> sid" "0 \<le> sid'" "0 \<le> v" "0 \<le> v'"
  shows "ty = ty' \<and> sid = sid' \<and> v = v'"
proof -
  let ?u = "CHR ''_''"
  have u: "?u \<notin> set (int_to_string i)" if "0 \<le> i" for i using int_to_string_no_underscore [OF that] by blast
  have f: "build_filename sid v t ty = ty @ ?u # (int_to_string sid @ ?u # (CHR ''v'' # int_to_string v) @ ?u #
      (strftime_compact t @ ''.xlsx''))" for sid v t ty
    by (simp add: build_filename_def)
  have v: "?u \<notin> set (CHR ''v'' # int_to_string i)" if "0 \<le> i" for i using u [OF that] by simp
  note r1 = separated_inj [OF assms(1) [unfolded f] assms(2,3)]
  note r2 = separated_inj [OF conjunct2 [OF r1] u [OF assms(4)] u [OF assms(5)]]
  note r3 = separated_inj [OF conjunct2 [OF r2] v [OF assms(6)] v [OF assms(7)]]
  have 1: "ty = ty'" and 2: "int_to_string sid = int_to_string sid'" and 3: "int_to_string v = int_to_string v'"
    using r1 r2 r3 by blast+
  show ?thesis using 1 2 3 int_to_string_inj assms(4-7) by blast
qed

end
