(* ===== verification/Snapshot_Api.thy ===== *)
theory Snapshot_Api
  imports Suggestion_Api Excel_Export
begin

text \<open>
  \<^verbatim>\<open>api/snapshot.py\<close>: exporting a suggestion. Creating a snapshot is two transactions with
  the file written between them: \<open>prepare_snapshot\<close> commits the immutable rows,
  \<open>finish_snapshot\<close> records the outcome of the export. What the first hands to the second is
  an \<open>export_job\<close>; other requests may run in between. Paths are lists of components; the
  storage directory is resolved and has no symbolic links below it.
\<close>

record request_info =
  rq_user_id :: int
  rq_username :: string
  rq_display_name :: string
  rq_client_host :: "string option"
  rq_user_agent :: "string option"

record export_job =
  ej_snapshot_id :: int
  ej_item_ids :: "int list"
  ej_context :: snapshot_export_context
  ej_relative_path :: string
  ej_request :: request_info

subsection \<open>Validation\<close>

definition is_positive_int :: "int \<Rightarrow> bool" where
  "is_positive_int value \<longleftrightarrow> value > 0"

text \<open>The messages of the validation, by what they say.\<close>

datatype item_error =
    CountryNotReportable int country
  | CountryQtyNotPositive int country
  | NothingToRestock int
  | SplitWithoutCountry int country
  | SplitQtyNotPositive int country warehouse_id
  | SplitTotalDiffers int country

definition country_errors :: "int \<Rightarrow> (country, int) dict \<Rightarrow> item_error list" where
  "country_errors iid country_breakdown =
     concat (map (\<lambda>(c, qty). if \<not> reportable c then [CountryNotReportable iid c]
                              else if \<not> is_positive_int qty then [CountryQtyNotPositive iid c] else []) country_breakdown)"

definition positive_total :: "(country, int) dict \<Rightarrow> int" where
  "positive_total country_breakdown =
     sum_list [qty. (c, qty) \<leftarrow> country_breakdown, reportable c, is_positive_int qty]"

definition split_errors :: "int \<Rightarrow> (country, int) dict \<Rightarrow> country \<times> (warehouse_id, int) dict \<Rightarrow> item_error list" where
  "split_errors iid country_breakdown entry =
     (case entry of (c, warehouse_map) \<Rightarrow>
        if \<not> dict_mem c country_breakdown then [SplitWithoutCountry iid c]
        else if warehouse_map = [] then []
        else [SplitQtyNotPositive iid c w. (w, qty) \<leftarrow> warehouse_map, \<not> is_positive_int qty]
             @ (if sum_list [qty. (w, qty) \<leftarrow> warehouse_map, is_positive_int qty] \<noteq> dict_get_or country_breakdown c 0
                then [SplitTotalDiffers iid c] else []))"

definition restock_item_errors :: "suggestion_item \<Rightarrow> item_error list" where
  "restock_item_errors item =
     country_errors (si_id item) (si_country_breakdown item)
     @ (if positive_total (si_country_breakdown item) \<le> 0 then [NothingToRestock (si_id item)] else [])
     @ concat (map (split_errors (si_id item) (si_country_breakdown item)) (si_warehouse_breakdown item))"

definition validate_restock_snapshot_items :: "suggestion_item list \<Rightarrow> item_error list" where
  "validate_restock_snapshot_items items = concat (map restock_item_errors items)"

subsection \<open>Creating a snapshot: the first transaction\<close>

definition selected_items :: "suggestion_store \<Rightarrow> int \<Rightarrow> int list \<Rightarrow> suggestion_item list" where
  "selected_items st sid item_ids =
     sort_key si_id (filter (\<lambda>i. si_id i \<in> set item_ids \<and> si_suggestion_id i = sid) (st_items st))"

definition next_version :: "suggestion_store \<Rightarrow> int \<Rightarrow> string \<Rightarrow> int" where
  "next_version st sid snapshot_type =
     foldl max 0 [sn_version n. n \<leftarrow> st_snapshots st, sn_suggestion_id n = sid, sn_snapshot_type n = snapshot_type] + 1"

definition to_snapshot_item ::
  "int \<Rightarrow> string \<Rightarrow> suggestion \<Rightarrow> (sku, string option \<times> string option) dict \<Rightarrow> suggestion_item \<Rightarrow> snapshot_item" where
  "to_snapshot_item snapshot_id snapshot_type s product_map item =
     (let (commodity_name, main_image_url) = dict_get_or product_map (si_commodity_sku item) (None, None)
      in \<lparr>ni_snapshot_id = snapshot_id, ni_commodity_sku = si_commodity_sku item, ni_total_qty = si_total_qty item,
          ni_country_breakdown = si_country_breakdown item, ni_warehouse_breakdown = si_warehouse_breakdown item,
          ni_restock_dates = demand_restock_dates (si_country_breakdown item) (cs_demand_date (sg_global_config_snapshot s)),
          ni_purchase_qty = (if snapshot_type = ''procurement'' then Some (si_purchase_qty item) else None),
          ni_urgent = si_urgent item, ni_velocity_snapshot = si_velocity_snapshot item,
          ni_sale_days_snapshot = si_sale_days_snapshot item, ni_calculation_warnings = si_calculation_warnings item,
          ni_commodity_name = commodity_name, ni_main_image_url = main_image_url\<rparr>)"

definition to_export_item ::
  "suggestion \<Rightarrow> (sku, string option \<times> string option) dict \<Rightarrow> suggestion_item \<Rightarrow> export_item" where
  "to_export_item s product_map item =
     (let (commodity_name, main_image_url) = dict_get_or product_map (si_commodity_sku item) (None, None)
      in \<lparr>xi_commodity_sku = si_commodity_sku item, xi_commodity_name = commodity_name, xi_main_image_url = main_image_url,
          xi_total_qty = si_total_qty item, xi_country_breakdown = si_country_breakdown item,
          xi_warehouse_breakdown = si_warehouse_breakdown item,
          xi_restock_dates = demand_restock_dates (si_country_breakdown item) (cs_demand_date (sg_global_config_snapshot s)),
          xi_purchase_qty = si_purchase_qty item, xi_urgent = si_urgent item,
          xi_velocity_snapshot = si_velocity_snapshot item, xi_sale_days_snapshot = si_sale_days_snapshot item,
          xi_calculation_warnings = si_calculation_warnings item, xi_local_stock = None\<rparr>)"

text \<open>
  \<^verbatim>\<open>tx_now\<close> is the database's \<^verbatim>\<open>now()\<close>, \<^verbatim>\<open>now\<close> the later reading of the clock in the
  handler. The request body is validated first: at least one item and a note of at most 200
  characters.
\<close>

definition prepare_snapshot ::
  "product_listing list \<Rightarrow> instant \<Rightarrow> instant \<Rightarrow> request_info \<Rightarrow> int \<Rightarrow> int list \<Rightarrow> string option \<Rightarrow> string \<Rightarrow>
   suggestion_store \<Rightarrow> (suggestion_store \<times> export_job) res" where
  "prepare_snapshot listings tx_now now req sid item_ids note snapshot_type st =
     (if item_ids = [] \<or> (case note of None \<Rightarrow> False | Some s \<Rightarrow> length s > 200) then raise (HTTPException 422)
      else case find_suggestion st sid of
        None \<Rightarrow> raise (HTTPException 404)
      | Some sugg \<Rightarrow>
          if sg_status sugg \<noteq> ''draft'' then raise (HTTPException 409)
          else let items = selected_items st sid item_ids
               in if length items \<noteq> length item_ids then raise (HTTPException 422)
                  else if snapshot_type = ''procurement'' \<and> (\<exists>i \<in> set items. si_purchase_qty i \<le> 0) then raise (HTTPException 422)
                  else if snapshot_type \<noteq> ''procurement'' \<and> validate_restock_snapshot_items items \<noteq> [] then raise (HTTPException 422)
                  else let version = next_version st sid snapshot_type;
                           snapshot_id = st_next_snapshot_id st;
                           snapshot = \<lparr>sn_id = snapshot_id, sn_suggestion_id = sid, sn_snapshot_type = snapshot_type,
                              sn_version = version, sn_exported_by = Some (rq_user_id req), sn_exported_at = tx_now,
                              sn_exported_from_ip = rq_client_host req, sn_item_count = int (length items), sn_note = note,
                              sn_global_config_snapshot = sg_global_config_snapshot sugg,
                              sn_generation_status = ''generating'', sn_file_path = None, sn_file_size_bytes = None,
                              sn_generation_error = None, sn_download_count = 0, sn_last_downloaded_at = None\<rparr>;
                           product_map = listing_name_map listings (map si_commodity_sku items);
                           ctx = \<lparr>xc_suggestion_id = sid, xc_snapshot_type = snapshot_type, xc_version = version,
                              xc_exported_at = now,
                              xc_exported_by_name = str_or (Some (rq_display_name req)) (Some (rq_username req)),
                              xc_note = note, xc_global_config = sg_global_config_snapshot sugg,
                              xc_items = map (to_export_item sugg product_map) items\<rparr>;
                           filename = build_filename sid version now snapshot_type
                       in return
                         (st\<lparr>st_snapshots := st_snapshots st @ [snapshot],
                             st_snapshot_items := st_snapshot_items st
                               @ map (to_snapshot_item snapshot_id snapshot_type sugg product_map) items,
                             st_next_snapshot_id := snapshot_id + 1\<rparr>,
                          \<lparr>ej_snapshot_id = snapshot_id, ej_item_ids = item_ids, ej_context = ctx,
                           ej_relative_path = strftime_month now @ ''/'' @ filename, ej_request = req\<rparr>))"

subsection \<open>The file and the second transaction\<close>

text \<open>
  What the file system does: creating the directory may fail, which is outside the handler's
  \<^verbatim>\<open>try\<close>; saving may fail with a message; or the file is there with its size.
\<close>

datatype io_outcome = MkdirFails | SaveFails string | Saved int

definition build_workbook :: "snapshot_export_context \<Rightarrow> workbook res" where
  "build_workbook ctx =
     (if xc_snapshot_type ctx = ''procurement'' then build_procurement_workbook ctx else build_restock_workbook ctx)"

definition update_snapshot :: "int \<Rightarrow> (suggestion_snapshot \<Rightarrow> suggestion_snapshot) \<Rightarrow> suggestion_store \<Rightarrow> suggestion_store" where
  "update_snapshot nid f st = st\<lparr>st_snapshots := update_where (\<lambda>n. sn_id n = nid) f (st_snapshots st)\<rparr>"

definition mark_exported :: "string \<Rightarrow> int \<Rightarrow> instant \<Rightarrow> suggestion_item \<Rightarrow> suggestion_item" where
  "mark_exported snapshot_type nid now item =
     (if snapshot_type = ''procurement''
      then item\<lparr>si_procurement_export_status := ''exported'', si_procurement_exported_snapshot_id := Some nid,
                si_procurement_exported_at := Some now\<rparr>
      else item\<lparr>si_restock_export_status := ''exported'', si_restock_exported_snapshot_id := Some nid,
                si_restock_exported_at := Some now\<rparr>)"

definition export_log_entry :: "int \<Rightarrow> string \<Rightarrow> instant \<Rightarrow> request_info \<Rightarrow> excel_export_log" where
  "export_log_entry nid action tx_now req =
     \<lparr>el_snapshot_id = nid, el_action = action, el_performed_by = Some (rq_user_id req), el_performed_at = tx_now,
      el_performed_from_ip = rq_client_host req,
      el_user_agent = (let agent = take 500 (case rq_user_agent req of None \<Rightarrow> [] | Some s \<Rightarrow> s)
                       in if agent = [] then None else Some agent),
      el_file_purged_at = None\<rparr>"

definition fail_snapshot :: "int \<Rightarrow> string \<Rightarrow> suggestion_store \<Rightarrow> suggestion_store" where
  "fail_snapshot nid message st =
     update_snapshot nid (\<lambda>n. n\<lparr>sn_generation_status := ''failed'', sn_generation_error := Some message\<rparr>) st"

definition complete_snapshot :: "instant \<Rightarrow> export_job \<Rightarrow> int \<Rightarrow> suggestion_store \<Rightarrow> suggestion_store" where
  "complete_snapshot tx_now job file_size_bytes st =
     (let nid = ej_snapshot_id job;
          st1 = update_snapshot nid (\<lambda>n. n\<lparr>sn_generation_status := ''ready'', sn_generation_error := None,
                   sn_file_path := Some (ej_relative_path job), sn_file_size_bytes := Some file_size_bytes\<rparr>) st
      in st1\<lparr>st_items := update_where (\<lambda>i. si_id i \<in> set (ej_item_ids job))
                (mark_exported (xc_snapshot_type (ej_context job)) nid (xc_exported_at (ej_context job))) (st_items st1),
             st_export_log := st_export_log st1 @ [export_log_entry nid ''generate'' tx_now (ej_request job)]\<rparr>)"

text \<open>The text of the exception the workbook builder raises: \<^verbatim>\<open>str.join\<close> on a null.\<close>

definition join_error_text :: "string option list \<Rightarrow> string" where
  "join_error_text xs =
     ''sequence item '' @ int_to_string (int (length (takeWhile (\<lambda>x. x \<noteq> None) xs))) @ '': expected str instance, NoneType found''"

definition workbook_error_text :: "snapshot_export_context \<Rightarrow> string" where
  "workbook_error_text ctx =
     (let regions = cs_restock_regions (xc_global_config ctx)
      in if None \<in> set regions then join_error_text regions
         else join_error_text (cs_eu_countries (xc_global_config ctx)))"

definition finish_snapshot ::
  "instant \<Rightarrow> io_outcome \<Rightarrow> export_job \<Rightarrow> suggestion_store \<Rightarrow> suggestion_store \<times> suggestion_snapshot option res" where
  "finish_snapshot tx_now outcome job st =
     (let nid = ej_snapshot_id job
      in case outcome of
           MkdirFails \<Rightarrow> (st, raise OSError)
         | SaveFails message \<Rightarrow>
             (fail_snapshot nid (case build_workbook (ej_context job) of
                 Inl e \<Rightarrow> workbook_error_text (ej_context job) | Inr wb \<Rightarrow> message) st, raise (HTTPException 500))
         | Saved bytes \<Rightarrow>
             (case build_workbook (ej_context job) of
                Inl e \<Rightarrow> (fail_snapshot nid (workbook_error_text (ej_context job)) st, raise (HTTPException 500))
              | Inr wb \<Rightarrow> (let st' = complete_snapshot tx_now job bytes st in (st', return (find_snapshot st' nid)))))"

subsection \<open>Reading snapshots\<close>

definition list_snapshots :: "suggestion_store \<Rightarrow> int \<Rightarrow> string option \<Rightarrow> suggestion_snapshot list" where
  "list_snapshots st sid snapshot_type =
     order_by False sn_version
       (filter (\<lambda>n. sn_suggestion_id n = sid \<and> (case snapshot_type of None \<Rightarrow> True | Some t \<Rightarrow> t = [] \<or> sn_snapshot_type n = t))
          (st_snapshots st))"

definition get_snapshot_detail :: "suggestion_store \<Rightarrow> int \<Rightarrow> (suggestion_snapshot \<times> snapshot_item list) res" where
  "get_snapshot_detail st nid =
     (case find_snapshot st nid of
        None \<Rightarrow> raise (HTTPException 404)
      | Some n \<Rightarrow> return (n, filter (\<lambda>i. ni_snapshot_id i = nid) (st_snapshot_items st)))"

subsection \<open>Downloading\<close>

type_synonym path = "string list"

text \<open>\<^verbatim>\<open>(root / s).resolve()\<close>: an absolute text replaces the root, dots are resolved.\<close>

definition path_parts :: "string \<Rightarrow> path" where
  "path_parts s = filter (\<lambda>p. p \<noteq> [] \<and> p \<noteq> ''.'') (py_split (CHR ''/'') s)"

definition path_join :: "path \<Rightarrow> string \<Rightarrow> path" where
  "path_join base s = (case s of [] \<Rightarrow> base | x # _ \<Rightarrow> if x = CHR ''/'' then path_parts s else base @ path_parts s)"

definition resolve_path :: "path \<Rightarrow> path" where
  "resolve_path parts = foldl (\<lambda>acc p. if p = ''..'' then butlast acc else acc @ [p]) [] parts"

definition resolve_snapshot_file_path :: "path \<Rightarrow> string option \<Rightarrow> path option" where
  "resolve_snapshot_file_path storage_root file_path =
     (case file_path of
        None \<Rightarrow> None
      | Some s \<Rightarrow>
          if s = [] then None
          else let file_abs = resolve_path (path_join storage_root s)
               in if prefix storage_root file_abs then Some file_abs else None)"

text \<open>\<open>files\<close> are the files that exist. Both losses are answered by 410, the log only decides the text.\<close>

definition download_snapshot ::
  "path \<Rightarrow> path list \<Rightarrow> instant \<Rightarrow> instant \<Rightarrow> request_info \<Rightarrow> int \<Rightarrow> suggestion_store \<Rightarrow> (suggestion_store \<times> path) res" where
  "download_snapshot storage_root files tx_now now req nid st =
     (case find_snapshot st nid of
        None \<Rightarrow> raise (HTTPException 404)
      | Some snapshot \<Rightarrow>
          if sn_generation_status snapshot \<noteq> ''ready'' then raise (HTTPException 409)
          else case resolve_snapshot_file_path storage_root (sn_file_path snapshot) of
                 None \<Rightarrow> raise (HTTPException 410)
               | Some file_abs \<Rightarrow>
                   if file_abs \<notin> set files then raise (HTTPException 410)
                   else let st1 = update_snapshot nid (\<lambda>n. n\<lparr>sn_download_count := sn_download_count n + 1,
                                    sn_last_downloaded_at := Some now\<rparr>) st
                        in return (st1\<lparr>st_export_log := st_export_log st1 @ [export_log_entry nid ''download'' tx_now req]\<rparr>, file_abs))"

section \<open>Lemmas\<close>

subsection \<open>Validation\<close>

lemma country_errors_Nil:
  "country_errors iid cb = [] \<longleftrightarrow> (\<forall>(c, q) \<in> set cb. reportable c \<and> 0 < q)"
  by (induction cb) (auto simp: country_errors_def is_positive_int_def split: if_splits)

lemma positive_total_all:
  assumes "\<forall>(c, q) \<in> set cb. reportable c \<and> 0 < q"
  shows "positive_total cb = sum_list (map snd cb)" "0 < sum_list (map snd cb) \<longleftrightarrow> cb \<noteq> []"
proof -
  show "positive_total cb = sum_list (map snd cb)"
    using assms by (induction cb) (auto simp: positive_total_def is_positive_int_def)
  have "0 \<le> sum_list (map snd cb)" if "\<forall>(c, q) \<in> set cb. reportable c \<and> 0 < q" for cb :: "(country, int) dict"
    using that by (induction cb) auto
  then show "0 < sum_list (map snd cb) \<longleftrightarrow> cb \<noteq> []"
    using assms by (cases cb) (auto intro!: add_pos_nonneg)
qed

lemma split_errors_Nil:
  assumes "wf_dict cb"
  shows "split_errors iid cb (c, wm) = [] \<longleftrightarrow>
    (\<exists>q. (c, q) \<in> set cb \<and> (wm = [] \<or> (\<forall>(w, n) \<in> set wm. 0 < n) \<and> sum_list (map snd wm) = q))"
proof -
  have pos: "sum_list [n. (w, n) \<leftarrow> wm, is_positive_int n] = sum_list (map snd wm)" if "\<forall>(w, n) \<in> set wm. 0 < n"
    using that by (induction wm) (auto simp: is_positive_int_def)
  have none: "[SplitQtyNotPositive iid c w. (w, n) \<leftarrow> wm, \<not> is_positive_int n] = [] \<longleftrightarrow> (\<forall>(w, n) \<in> set wm. 0 < n)"
    by (induction wm) (auto simp: is_positive_int_def split: if_splits)
  have get: "dict_get_or cb c 0 = q" if "(c, q) \<in> set cb" for q
    using assms that by (simp add: dict_get_or_def dict_get_def)
  show ?thesis
  proof (cases "dict_mem c cb")
    case True
    then obtain q where q: "(c, q) \<in> set cb" by (auto simp: dict_mem_def)
    have "(c, q') \<in> set cb \<longleftrightarrow> q' = q" for q' using q assms by (metis eq_key_imp_eq_value)
    then show ?thesis using True get [OF q] none pos by (auto simp: split_errors_def)
  qed (force simp: split_errors_def dict_mem_def)
qed

text \<open>What the validation of a restock export demands of an item.\<close>

definition exportable :: "suggestion_item \<Rightarrow> bool" where
  "exportable item \<longleftrightarrow> si_country_breakdown item \<noteq> []
     \<and> (\<forall>(c, q) \<in> set (si_country_breakdown item). reportable c \<and> 0 < q)
     \<and> (\<forall>(c, wm) \<in> set (si_warehouse_breakdown item). \<exists>q. (c, q) \<in> set (si_country_breakdown item) \<and>
          (wm = [] \<or> (\<forall>(w, n) \<in> set wm. 0 < n) \<and> sum_list (map snd wm) = q))"

lemma restock_item_errors_Nil:
  assumes "wf_dict (si_country_breakdown item)"
  shows "restock_item_errors item = [] \<longleftrightarrow> exportable item"
proof (cases "\<forall>(c, q) \<in> set (si_country_breakdown item). reportable c \<and> 0 < q")
  case True
  have "concat (map (split_errors (si_id item) (si_country_breakdown item)) (si_warehouse_breakdown item)) = [] \<longleftrightarrow>
      (\<forall>(c, wm) \<in> set (si_warehouse_breakdown item). split_errors (si_id item) (si_country_breakdown item) (c, wm) = [])"
    by auto
  then show ?thesis
    using True positive_total_all [OF True] country_errors_Nil [of "si_id item" "si_country_breakdown item"]
    unfolding restock_item_errors_def exportable_def split_errors_Nil [OF assms] by (auto simp: not_le)
next
  case False
  then show ?thesis using country_errors_Nil [of "si_id item" "si_country_breakdown item"]
    by (auto simp: restock_item_errors_def exportable_def)
qed

lemma item_ok_exportable:
  assumes "item_ok allowed item" "0 < si_total_qty item"
  shows "restock_item_errors item = []"
proof -
  have wf: "wf_dict (si_country_breakdown item)" using assms(1) by (simp add: item_ok_def)
  have "si_country_breakdown item \<noteq> []" using assms by (auto simp: item_ok_def)
  moreover have "\<forall>(c, q) \<in> set (si_country_breakdown item). reportable c \<and> 0 < q"
    using assms(1) unfolding item_ok_def by blast
  moreover have "\<exists>q. (c, q) \<in> set (si_country_breakdown item) \<and> (\<forall>(w, n) \<in> set wm. 0 < n) \<and> sum_list (map snd wm) = q"
    if "(c, wm) \<in> set (si_warehouse_breakdown item)" for c wm
    using assms(1) that wf unfolding item_ok_def breakdown_ok_def by (fastforce simp: dict_get_eq_Some_iff)
  ultimately show ?thesis unfolding restock_item_errors_Nil [OF wf] exportable_def by blast
qed

subsection \<open>Paths\<close>

lemma py_split_no_sep: "c \<notin> set s \<Longrightarrow> py_split c s = [s]"
  by (induction s) auto

lemma py_split_sep: "c \<notin> set s \<Longrightarrow> py_split c (s @ c # t) = s # py_split c t"
  by (induction s) auto

lemma int_to_string_chars: "c \<in> set (int_to_string i) \<Longrightarrow> c = CHR ''-'' \<or> 48 \<le> (of_char c :: nat) \<and> (of_char c :: nat) \<le> 57"
  using nat_to_string_digits by (auto simp: int_to_string_def split: if_splits)

lemma int_to_string_ne: "int_to_string i \<noteq> []"
  using nat_to_string_ne by (simp add: int_to_string_def)

lemma int_to_string_plain: "CHR ''/'' \<notin> set (int_to_string i)" "CHR ''.'' \<notin> set (int_to_string i)"
  using int_to_string_chars [of "CHR ''/''" i] int_to_string_chars [of "CHR ''.''" i] by auto

lemma two_digits_plain: "CHR ''/'' \<notin> set (two_digits i)" "CHR ''.'' \<notin> set (two_digits i)" "two_digits i \<noteq> []"
  using int_to_string_plain int_to_string_ne by (simp_all add: two_digits_def)

lemma strftime_compact_plain: "CHR ''/'' \<notin> set (strftime_compact t)"
  by (simp add: strftime_compact_def int_to_string_plain two_digits_plain Let_def case_prod_unfold)

lemma build_filename_plain:
  assumes "CHR ''/'' \<notin> set ty"
  shows "CHR ''/'' \<notin> set (build_filename sid v t ty)" "2 < length (build_filename sid v t ty)"
  using assms by (simp_all add: build_filename_def int_to_string_plain strftime_compact_plain)

lemma resolve_path_plain: "''..'' \<notin> set parts \<Longrightarrow> resolve_path parts = parts"
proof -
  have "foldl (\<lambda>acc p. if p = ''..'' then butlast acc else acc @ [p]) acc parts = acc @ parts" if "''..'' \<notin> set parts" for acc
    using that by (induction parts arbitrary: acc) auto
  then show "''..'' \<notin> set parts \<Longrightarrow> resolve_path parts = parts" by (simp add: resolve_path_def)
qed

text \<open>Where the export of a snapshot is written.\<close>

definition export_target :: "path \<Rightarrow> int \<Rightarrow> int \<Rightarrow> instant \<Rightarrow> string \<Rightarrow> path" where
  "export_target storage_root sid version now snapshot_type =
     storage_root @ [int_to_string (fst (civil_date (beijing_date now))),
       two_digits (fst (snd (civil_date (beijing_date now)))), build_filename sid version now snapshot_type]"

lemma export_path_parts:
  assumes "CHR ''/'' \<notin> set ty"
  shows "path_parts (strftime_month now @ ''/'' @ build_filename sid v now ty) =
     [int_to_string (fst (civil_date (beijing_date now))), two_digits (fst (snd (civil_date (beijing_date now)))),
      build_filename sid v now ty]"
proof -
  have ne: "build_filename sid v now ty \<noteq> []" "build_filename sid v now ty \<noteq> ''.''"
    using build_filename_plain(2) [OF assms, of sid v now] by (auto dest: arg_cong [of _ _ length])
  have dot: "s \<noteq> ''.''" if "CHR ''.'' \<notin> set s" for s :: string using that by auto
  show ?thesis
    by (simp add: path_parts_def strftime_month_def Let_def case_prod_unfold py_split_sep py_split_no_sep int_to_string_plain
        two_digits_plain int_to_string_ne build_filename_plain(1) [OF assms] ne dot)
qed

section \<open>Properties\<close>

text \<open>
  Round trip of the export path. The text stored with a snapshot resolves, under the
  resolved storage directory, to the very file the export wrote.
\<close>

theorem export_path_roundtrip:
  assumes "''..'' \<notin> set storage_root" "snapshot_type \<in> {''procurement'', ''restock''}"
  shows "resolve_snapshot_file_path storage_root (Some (strftime_month now @ ''/'' @ build_filename sid version now snapshot_type))
     = Some (export_target storage_root sid version now snapshot_type)"
proof -
  let ?s = "strftime_month now @ ''/'' @ build_filename sid version now snapshot_type"
  have slash: "CHR ''/'' \<notin> set snapshot_type" using assms(2) by auto
  have plain: "CHR ''/'' \<notin> set (int_to_string y)" "int_to_string y \<noteq> []" for y
    using int_to_string_plain int_to_string_ne by simp_all
  have "hd ?s \<noteq> CHR ''/''"
    using plain [of "fst (civil_date (beijing_date now))"]
    by (cases "int_to_string (fst (civil_date (beijing_date now)))") (auto simp: strftime_month_def Let_def case_prod_unfold)
  then have join: "path_join storage_root ?s = storage_root @ path_parts ?s"
    by (cases ?s) (auto simp: path_join_def path_parts_def)
  have dots: "s \<noteq> ''..''" if "CHR ''.'' \<notin> set s" for s :: string using that by auto
  have "build_filename sid version now snapshot_type \<noteq> ''..''"
    using build_filename_plain(2) [OF slash, of sid version now] by (auto dest: arg_cong [of _ _ length])
  then have "''..'' \<notin> set (export_target storage_root sid version now snapshot_type)"
    using assms(1) dots [OF int_to_string_plain(2)] dots [OF two_digits_plain(2)]
    by (auto simp: export_target_def eq_commute [of "''..''"])
  then have "resolve_path (path_join storage_root ?s) = export_target storage_root sid version now snapshot_type"
    unfolding join export_path_parts [OF slash] export_target_def [symmetric] by (rule resolve_path_plain)
  moreover have "?s \<noteq> []" by simp
  ultimately show ?thesis by (simp add: resolve_snapshot_file_path_def export_target_def)
qed

theorem export_path_roundtrip_witness:
  "resolve_snapshot_file_path [''app'', ''exports''] (Some (strftime_month 0 @ ''/'' @ build_filename 7 2 0 ''restock''))
     = Some (export_target [''app'', ''exports''] 7 2 0 ''restock'')"
  by (rule export_path_roundtrip) simp_all


text \<open>
  The validation of a restock export accepts exactly the items that can be exported:
  some country, all of them reportable with a positive quantity, and every non-empty
  warehouse split positive, for a listed country and summing to its quantity.
\<close>

theorem validate_restock_iff:
  assumes "\<forall>i \<in> set items. wf_dict (si_country_breakdown i)"
  shows "validate_restock_snapshot_items items = [] \<longleftrightarrow> (\<forall>i \<in> set items. exportable i)"
  using assms restock_item_errors_Nil by (auto simp: validate_restock_snapshot_items_def)

text \<open>
  C29: what the engine generates can be exported as it is: every new item with something to
  restock passes the validation of the restock export.
\<close>

theorem engine_items_exportable:
  assumes "run_engine db now demand_date triggered_by st = Inr (st', Some sid)"
    "item \<in> set (drop (length (st_items st)) (st_items st'))" "0 < si_total_qty item"
  shows "restock_item_errors item = []"
proof -
  from assms(1) obtain allowed items where ok: "\<forall>i \<in> set items. item_ok allowed i"
    and st': "st_items st' = st_items st @ new_rows st items"
    by (rule run_engine_stored)
  have "item_ok allowed item" using assms(2) ok unfolding st' by (auto simp: set_new_rows)
  then show ?thesis using assms(3) by (rule item_ok_exportable)
qed

subsection \<open>Witnesses\<close>

definition demo_request :: request_info where
  "demo_request = \<lparr>rq_user_id = 1, rq_username = ''admin'', rq_display_name = ''Admin'', rq_client_host = None, rq_user_agent = None\<rparr>"

definition demo_snapshot :: suggestion_snapshot where
  "demo_snapshot = \<lparr>sn_id = 1, sn_suggestion_id = 1, sn_snapshot_type = ''restock'', sn_version = 1, sn_exported_by = Some 1,
     sn_exported_at = 0, sn_exported_from_ip = None, sn_item_count = 1, sn_note = None,
     sn_global_config_snapshot = demo_snapshot_config, sn_generation_status = ''ready'', sn_file_path = Some ''2026/04/a.xlsx'',
     sn_file_size_bytes = Some 10, sn_generation_error = None, sn_download_count = 0, sn_last_downloaded_at = None\<rparr>"


theorem validate_restock_iff_witness:
  "validate_restock_snapshot_items [demo_suggestion_item] = [] \<and> exportable demo_suggestion_item"
proof -
  have "exportable demo_suggestion_item"
    using demo_reportable by (simp add: exportable_def demo_suggestion_item_def)
  then show ?thesis using validate_restock_iff [of "[demo_suggestion_item]"] by (simp add: demo_suggestion_item_def)
qed

theorem engine_items_exportable_witness:
  "\<exists>st' item. run_engine demo_engine_db (beijing_midnight 100) 110 ''manual'' empty_store = Inr (st', Some 1)
     \<and> item \<in> set (st_items st') \<and> si_total_qty item = 25 \<and> restock_item_errors item = []"
proof -
  obtain st' where run: "run_engine demo_engine_db (beijing_midnight 100) 110 ''manual'' empty_store = Inr (st', Some 1)"
    and q: "map si_total_qty (st_items st') = [25]" using demo_run by (elim exE conjE)
  obtain i where i: "st_items st' = [i]" "si_total_qty i = 25" using q by auto
  then have "i \<in> set (drop (length (st_items empty_store)) (st_items st'))" by (simp add: empty_store_def)
  from engine_items_exportable [OF run this] have "restock_item_errors i = []" using i(2) by simp
  with run i show ?thesis by (intro exI [of _ st'] exI [of _ i] conjI) simp_all
qed

end
