(* ===== verification/Generation_Toggle.thy ===== *)
theory Generation_Toggle
  imports Snapshot_Api
begin

text \<open>
  The generation switch of \<^verbatim>\<open>api/config.py\<close>: \<^verbatim>\<open>_compute_can_enable\<close>, the read endpoint and
  \<^verbatim>\<open>patch_generation_toggle\<close>, which starts a new cycle by archiving the current draft. The
  name of the last editor comes from the user table and is a parameter.
\<close>

record generation_toggle_out =
  gt_enabled :: bool
  gt_updated_by :: "int option"
  gt_updated_by_name :: "string option"
  gt_updated_at :: "instant option"
  gt_can_enable :: bool
  gt_can_enable_reason :: "string option"

definition reason_procurement :: string where
  "reason_procurement = utf8 [233, 135, 135, 232, 180, 173, 229, 187, 186, 232, 174, 174, 229, 176, 154, 230, 156, 170, 229, 175, 188, 229, 135, 186, 228, 187, 187, 228, 189, 149, 229, 191, 171, 231, 133, 167]"

definition reason_restock :: string where
  "reason_restock = utf8 [232, 161, 165, 232, 180, 167, 229, 187, 186, 232, 174, 174, 229, 176, 154, 230, 156, 170, 229, 175, 188, 229, 135, 186, 228, 187, 187, 228, 189, 149, 229, 191, 171, 231, 133, 167]"

definition compute_can_enable :: "suggestion_store \<Rightarrow> bool \<times> string option" where
  "compute_can_enable st =
     (case order_by False sg_created_at (filter (\<lambda>s. sg_status s = ''draft'') (st_suggestions st)) of
        [] \<Rightarrow> (True, None)
      | draft # _ \<Rightarrow>
          if sg_procurement_item_count draft > 0 \<and> snapshot_count st ''procurement'' (sg_id draft) = 0
          then (False, Some reason_procurement)
          else if sg_restock_item_count draft > 0 \<and> snapshot_count st ''restock'' (sg_id draft) = 0
          then (False, Some reason_restock)
          else (True, None))"

definition load_generation_toggle :: "(int \<Rightarrow> string option) \<Rightarrow> engine_db \<Rightarrow> suggestion_store \<Rightarrow> generation_toggle_out res" where
  "load_generation_toggle display_name db st =
     (case t_global_config db of
        None \<Rightarrow> raise NoResultFound
      | Some config \<Rightarrow>
          let (can_enable, can_enable_reason) = compute_can_enable st
          in return \<lparr>gt_enabled = gc_suggestion_generation_enabled config,
                     gt_updated_by = gc_generation_toggle_updated_by config,
                     gt_updated_by_name = Option.bind (gc_generation_toggle_updated_by config) display_name,
                     gt_updated_at = gc_generation_toggle_updated_at config,
                     gt_can_enable = can_enable, gt_can_enable_reason = can_enable_reason\<rparr>)"

definition patch_generation_toggle ::
  "(int \<Rightarrow> string option) \<Rightarrow> instant \<Rightarrow> int \<Rightarrow> bool \<Rightarrow> engine_db \<Rightarrow> suggestion_store \<Rightarrow>
   (engine_db \<times> suggestion_store \<times> generation_toggle_out) res" where
  "patch_generation_toggle display_name now user_id enabled db st =
     (case t_global_config db of
        None \<Rightarrow> raise NoResultFound
      | Some config \<Rightarrow>
          if enabled \<and> \<not> fst (compute_can_enable st) then raise UnprocessableError
          else let st' = (if enabled
                          then st\<lparr>st_suggestions := update_where (\<lambda>s. sg_status s = ''draft'')
                                 (\<lambda>s. s\<lparr>sg_status := ''archived'', sg_archived_at := Some now, sg_archived_by := Some user_id,
                                        sg_archived_trigger := Some ''admin_toggle''\<rparr>) (st_suggestions st)\<rparr>
                          else st);
                   db' = db\<lparr>t_global_config := Some (config\<lparr>gc_suggestion_generation_enabled := enabled,
                            gc_generation_toggle_updated_by := Some user_id,
                            gc_generation_toggle_updated_at := Some now\<rparr>)\<rparr>
               in bind_res (load_generation_toggle display_name db' st') (\<lambda>out. return (db', st', out)))"

section \<open>Lemmas\<close>

lemma order_by_Nil: "order_by asc f rows = [] \<longleftrightarrow> rows = []"
  by (metis set_empty set_order_by)

lemma order_by_single: "order_by asc f [x] = [x]"
  by (simp add: order_by_def)

lemma patch_toggle_result:
  assumes "patch_generation_toggle display_name now user_id enabled db st = Inr (db', st', out)"
  shows "st' = (if enabled
      then st\<lparr>st_suggestions := update_where (\<lambda>s. sg_status s = ''draft'')
             (\<lambda>s. s\<lparr>sg_status := ''archived'', sg_archived_at := Some now, sg_archived_by := Some user_id,
                    sg_archived_trigger := Some ''admin_toggle''\<rparr>) (st_suggestions st)\<rparr>
      else st)"
    "enabled \<Longrightarrow> fst (compute_can_enable st)"
    "\<exists>config'. t_global_config db' = Some config' \<and> gc_suggestion_generation_enabled config' = enabled"
  using assms by (auto simp: patch_generation_toggle_def bind_res_Inr_iff Let_def split: option.splits if_splits)

lemma can_enable_no_draft: "filter (\<lambda>s. sg_status s = ''draft'') (st_suggestions st) = [] \<Longrightarrow> compute_can_enable st = (True, None)"
  by (simp add: compute_can_enable_def order_by_def)

lemma archived_drafts:
  "filter (\<lambda>s. sg_status s = ''draft'') (update_where (\<lambda>s. sg_status s = ''draft'')
     (\<lambda>s. s\<lparr>sg_status := ''archived'', sg_archived_at := a, sg_archived_by := b, sg_archived_trigger := c\<rparr>) rows) = []"
  by (auto simp: update_where_def filter_empty_conv)

section \<open>Properties\<close>

text \<open>
  C32: starting a new cycle. With a single draft, the switch can be turned on exactly when every
  kind of item the draft counts has a snapshot of its kind; afterwards generation is on and no
  draft is left, and a refused request is an error that changes nothing.
\<close>

theorem toggle_requires_exports:
  assumes "filter (\<lambda>s. sg_status s = ''draft'') (st_suggestions st) = [draft]" "t_global_config db = Some config"
  shows "(case patch_generation_toggle display_name now user_id True db st of
      Inl e \<Rightarrow> e = UnprocessableError
        \<and> (sg_procurement_item_count draft > 0 \<and> snapshot_count st ''procurement'' (sg_id draft) = 0
           \<or> sg_restock_item_count draft > 0 \<and> snapshot_count st ''restock'' (sg_id draft) = 0)
    | Inr (db', st', out) \<Rightarrow> gt_enabled out \<and> gt_can_enable out
        \<and> filter (\<lambda>s. sg_status s = ''draft'') (st_suggestions st') = []
        \<and> (sg_procurement_item_count draft > 0 \<longrightarrow> snapshot_count st ''procurement'' (sg_id draft) > 0)
        \<and> (sg_restock_item_count draft > 0 \<longrightarrow> snapshot_count st ''restock'' (sg_id draft) > 0))"
proof -
  have pos: "0 < snapshot_count st ty sid \<longleftrightarrow> snapshot_count st ty sid \<noteq> 0" for ty sid by (simp add: snapshot_count_def)
  have can: "fst (compute_can_enable st) \<longleftrightarrow>
      \<not> (sg_procurement_item_count draft > 0 \<and> snapshot_count st ''procurement'' (sg_id draft) = 0)
    \<and> \<not> (sg_restock_item_count draft > 0 \<and> snapshot_count st ''restock'' (sg_id draft) = 0)"
    by (simp add: compute_can_enable_def assms(1) order_by_single)
  show ?thesis
  proof (cases "fst (compute_can_enable st)")
    case True
    then show ?thesis using can
      by (simp add: patch_generation_toggle_def load_generation_toggle_def assms(2) can_enable_no_draft archived_drafts pos Let_def)
  qed (use can in \<open>auto simp: patch_generation_toggle_def assms(2)\<close>)
qed

theorem toggle_requires_exports_witness:
  "patch_generation_toggle (\<lambda>_. None) 5 1 True demo_engine_db demo_store = Inl UnprocessableError"
proof -
  have d: "filter (\<lambda>s. sg_status s = ''draft'') (st_suggestions demo_store) = [demo_suggestion]"
    by (simp add: demo_store_def demo_suggestion_def)
  have c: "t_global_config demo_engine_db = Some demo_config" by (simp add: demo_config_def demo_engine_db_def)
  have n: "snapshot_count demo_store ty sid = 0" for ty sid
    by (simp add: snapshot_count_def demo_store_def empty_store_def)
  show ?thesis using toggle_requires_exports [OF d c, of "\<lambda>_. None" 5 1]
    by (auto simp: n demo_suggestion_def split: sum.splits)
qed

end
