(* ===== verification/Retention.thy ===== *)
theory Retention
  imports Snapshot_Api Task_Queue
begin

text \<open>
  \<^verbatim>\<open>tasks/jobs/daily_archive.py\<close> and \<^verbatim>\<open>tasks/jobs/retention.py\<close>: the nightly archive of the
  stock and the purges. The jobs read the clock once here; the source reads it once per purge.
  Deleting a file may fail, which \<open>can_unlink\<close> says. The purge of \<^verbatim>\<open>task_run\<close> is with the queue.
\<close>

record inventory_history =
  ih_commodity_sku :: sku
  ih_warehouse_id :: warehouse_id
  ih_country :: "country option"
  ih_available :: int
  ih_reserved :: int
  ih_snapshot_date :: date

record import_file =
  if_filename :: string
  if_task_id :: "int option"
  if_consumed_at :: "instant option"
  if_expires_at :: instant

definition history_key :: "inventory_history \<Rightarrow> sku \<times> warehouse_id \<times> date" where
  "history_key h = (ih_commodity_sku h, ih_warehouse_id h, ih_snapshot_date h)"

subsection \<open>The daily archive\<close>

definition RETENTION_DAYS :: int where
  "RETENTION_DAYS = 90"

definition archive_row :: "date \<Rightarrow> inventory_snapshot_latest \<Rightarrow> inventory_history" where
  "archive_row today r = \<lparr>ih_commodity_sku = inv_commodity_sku r, ih_warehouse_id = inv_warehouse_id r, ih_country = inv_country r,
     ih_available = inv_available r, ih_reserved = inv_reserved r, ih_snapshot_date = today\<rparr>"

text \<open>\<^verbatim>\<open>INSERT ... SELECT ... ON CONFLICT DO NOTHING\<close>, row by row.\<close>

definition insert_history :: "inventory_history list \<Rightarrow> inventory_history \<Rightarrow> inventory_history list" where
  "insert_history history h = (if history_key h \<in> history_key ` set history then history else history @ [h])"

definition daily_archive_job :: "instant \<Rightarrow> inventory_snapshot_latest list \<Rightarrow> inventory_history list \<Rightarrow> inventory_history list" where
  "daily_archive_job now latest history =
     (let today = beijing_date now;
          archived = foldl insert_history history (map (archive_row today) latest);
          cutoff = today - RETENTION_DAYS
      in filter (\<lambda>h. \<not> ih_snapshot_date h < cutoff) archived)"

subsection \<open>The purges\<close>

definition purge_inventory_history :: "instant \<Rightarrow> int \<Rightarrow> inventory_history list \<Rightarrow> inventory_history list \<times> int" where
  "purge_inventory_history now days history =
     (if days \<le> 0 then (history, 0)
      else let cutoff_date = beijing_date (now - days * day_micros)
           in (filter (\<lambda>h. \<not> ih_snapshot_date h < cutoff_date) history,
               int (length (filter (\<lambda>h. ih_snapshot_date h < cutoff_date) history))))"

definition expired_exports :: "instant \<Rightarrow> suggestion_store \<Rightarrow> int list" where
  "expired_exports cutoff st =
     dedup [el_snapshot_id l. l \<leftarrow> st_export_log st,
        el_action l = ''generate'', el_performed_at l < cutoff, el_file_purged_at l = None]"

definition mark_purged :: "instant \<Rightarrow> int \<Rightarrow> suggestion_store \<Rightarrow> suggestion_store" where
  "mark_purged now nid st =
     st\<lparr>st_export_log := update_where (\<lambda>l. el_snapshot_id l = nid \<and> el_action l = ''generate'' \<and> el_file_purged_at l = None)
          (\<lambda>l. l\<lparr>el_file_purged_at := Some now\<rparr>) (st_export_log st)\<rparr>"

definition purge_export ::
  "path \<Rightarrow> (path \<Rightarrow> bool) \<Rightarrow> instant \<Rightarrow> suggestion_store \<times> path list \<times> int \<Rightarrow> int \<times> string option \<Rightarrow> suggestion_store \<times> path list \<times> int" where
  "purge_export storage_root can_unlink now acc row =
     (case (acc, row) of ((st, files, purged_count), (nid, file_path)) \<Rightarrow>
        case file_path of
          None \<Rightarrow> (mark_purged now nid st, files, purged_count + 1)
        | Some s \<Rightarrow>
            if s = [] then (mark_purged now nid st, files, purged_count + 1)
            else let file_abs = resolve_path (path_join storage_root s)
                 in if \<not> prefix storage_root file_abs then (st, files, purged_count)
                    else if file_abs \<in> set files \<and> \<not> can_unlink file_abs then (st, files, purged_count)
                    else (mark_purged now nid st, filter (\<lambda>p. p \<noteq> file_abs) files, purged_count + 1))"

definition purge_exports ::
  "path \<Rightarrow> (path \<Rightarrow> bool) \<Rightarrow> instant \<Rightarrow> int \<Rightarrow> suggestion_store \<times> path list \<Rightarrow> (suggestion_store \<times> path list) \<times> int" where
  "purge_exports storage_root can_unlink now days w =
     (case w of (st, files) \<Rightarrow>
        if days \<le> 0 then ((st, files), 0)
        else let snapshot_ids = expired_exports (now - days * day_micros) st
             in if snapshot_ids = [] then ((st, files), 0)
                else case foldl (purge_export storage_root can_unlink now) (st, files, 0)
                            [(sn_id n, sn_file_path n). n \<leftarrow> st_snapshots st, sn_id n \<in> set snapshot_ids] of
                       (st', files', n) \<Rightarrow> ((st', files'), n))"

definition stuck_text :: "int \<Rightarrow> string" where
  "stuck_text hours = ''stuck in generating > '' @ int_to_string hours @ ''h, cleaned by retention''"

definition stuck_generating :: "instant \<Rightarrow> int \<Rightarrow> suggestion_snapshot \<Rightarrow> bool" where
  "stuck_generating now hours n \<longleftrightarrow> sn_generation_status n = ''generating'' \<and> sn_exported_at n < now - hours * 3600 * 1000000"

definition purge_stuck_generating :: "instant \<Rightarrow> int \<Rightarrow> suggestion_store \<Rightarrow> suggestion_store \<times> int" where
  "purge_stuck_generating now hours st =
     (if hours \<le> 0 then (st, 0)
      else (st\<lparr>st_snapshots := update_where (stuck_generating now hours)
                 (\<lambda>n. n\<lparr>sn_generation_status := ''failed'', sn_generation_error := Some (stuck_text hours)\<rparr>) (st_snapshots st)\<rparr>,
            int (length (filter (stuck_generating now hours) (st_snapshots st)))))"

definition purge_order_info_match_import_files :: "instant \<Rightarrow> import_file list \<Rightarrow> import_file list \<times> int" where
  "purge_order_info_match_import_files now imports =
     (let gone = (\<lambda>f. if_expires_at f < now \<or> if_consumed_at f \<noteq> None)
      in (filter (\<lambda>f. \<not> gone f) imports, int (length (filter gone imports))))"

record retention_settings =
  rs_task_run_days :: int
  rs_inventory_history_days :: int
  rs_exports_days :: int
  rs_stuck_generating_hours :: int

record retention_state =
  rt_queue :: task_table
  rt_history :: "inventory_history list"
  rt_store :: suggestion_store
  rt_files :: "path list"
  rt_imports :: "import_file list"

text \<open>The five purges, each in a transaction of its own, in the order of the job.\<close>

definition retention_purge_job :: "retention_settings \<Rightarrow> path \<Rightarrow> (path \<Rightarrow> bool) \<Rightarrow> instant \<Rightarrow> retention_state \<Rightarrow> retention_state" where
  "retention_purge_job settings storage_root can_unlink now s =
     (let s1 = s\<lparr>rt_queue := fst (purge_task_run now (rs_task_run_days settings) (rt_queue s))\<rparr>;
          s2 = s1\<lparr>rt_history := fst (purge_inventory_history now (rs_inventory_history_days settings) (rt_history s1))\<rparr>;
          (st, files) = fst (purge_exports storage_root can_unlink now (rs_exports_days settings) (rt_store s2, rt_files s2));
          s3 = s2\<lparr>rt_store := st, rt_files := files\<rparr>;
          s4 = s3\<lparr>rt_store := fst (purge_stuck_generating now (rs_stuck_generating_hours settings) (rt_store s3))\<rparr>
      in s4\<lparr>rt_imports := fst (purge_order_info_match_import_files now (rt_imports s4))\<rparr>)"

section \<open>Lemmas\<close>

lemma beijing_date_minus_days: "beijing_date (now - days * day_micros) = beijing_date now - days"
proof -
  have "now - days * day_micros + beijing_offset = (now + beijing_offset) + (- days) * day_micros" by simp
  then show ?thesis unfolding beijing_date_def by (simp only: div_mult_self1 [of day_micros]) (simp add: day_micros_def)
qed

lemma insert_history_key: "history_key ` set (insert_history history h) = insert (history_key h) (history_key ` set history)"
  by (auto simp: insert_history_def)

lemma archive_keys: "history_key ` set (foldl insert_history history rows) = history_key ` set history \<union> history_key ` set rows"
  by (induction rows arbitrary: history) (simp_all add: insert_history_key)

lemma archive_distinct: "distinct (map history_key history) \<Longrightarrow> distinct (map history_key (foldl insert_history history rows))"
  by (induction rows arbitrary: history) (simp_all add: insert_history_def)

lemma archive_keeps: "h \<in> set history \<Longrightarrow> h \<in> set (foldl insert_history history rows)"
  by (induction rows arbitrary: history) (simp_all add: insert_history_def)

lemma archive_rows_from: "set (foldl insert_history history rows) \<subseteq> set history \<union> set rows"
  by (induction rows arbitrary: history) (force simp: insert_history_def split: if_splits)+

lemma purge_export_files:
  "fst (snd (purge_export storage_root can_unlink now (st, files, n) row)) =
     filter (\<lambda>p. \<not> (\<exists>s. snd row = Some s \<and> s \<noteq> [] \<and> p = resolve_path (path_join storage_root s) \<and> prefix storage_root p
        \<and> (p \<in> set files \<longrightarrow> can_unlink p))) files"
  by (auto simp: purge_export_def Let_def intro!: filter_cong filter_True [symmetric] split: prod.splits option.splits)

lemma mark_purged_frame:
  "st_suggestions (mark_purged now nid st) = st_suggestions st" "st_items (mark_purged now nid st) = st_items st"
  "st_snapshots (mark_purged now nid st) = st_snapshots st" "st_snapshot_items (mark_purged now nid st) = st_snapshot_items st"
  "st_next_suggestion_id (mark_purged now nid st) = st_next_suggestion_id st" "st_next_item_id (mark_purged now nid st) = st_next_item_id st"
  "st_next_snapshot_id (mark_purged now nid st) = st_next_snapshot_id st"
  by (simp_all add: mark_purged_def)

text \<open>The tables a purge of exports leaves alone.\<close>

definition same_rows :: "suggestion_store \<Rightarrow> suggestion_store \<Rightarrow> bool" where
  "same_rows st st' \<longleftrightarrow> st_suggestions st' = st_suggestions st \<and> st_items st' = st_items st \<and> st_snapshots st' = st_snapshots st
     \<and> st_snapshot_items st' = st_snapshot_items st \<and> st_next_suggestion_id st' = st_next_suggestion_id st
     \<and> st_next_item_id st' = st_next_item_id st \<and> st_next_snapshot_id st' = st_next_snapshot_id st"

lemma purge_export_step:
  "same_rows st (fst (purge_export storage_root can_unlink now (st, files, n) row))
   \<and> set (fst (snd (purge_export storage_root can_unlink now (st, files, n) row))) \<subseteq> set files
   \<and> (\<forall>p \<in> set files - set (fst (snd (purge_export storage_root can_unlink now (st, files, n) row))). prefix storage_root p)"
  unfolding purge_export_files
  by (cases row) (auto simp: purge_export_def same_rows_def mark_purged_frame Let_def split: option.split)

lemma purge_exports_frame:
  assumes "purge_exports storage_root can_unlink now days (st, files) = ((st', files'), n)"
  shows "same_rows st st' \<and> set files' \<subseteq> set files \<and> (\<forall>p \<in> set files - set files'. prefix storage_root p)"
proof -
  have fold: "same_rows st (fst (foldl (purge_export storage_root can_unlink now) (st, files, k) rows))
     \<and> set (fst (snd (foldl (purge_export storage_root can_unlink now) (st, files, k) rows))) \<subseteq> set files
     \<and> (\<forall>p \<in> set files - set (fst (snd (foldl (purge_export storage_root can_unlink now) (st, files, k) rows))). prefix storage_root p)" for st files k rows
  proof (induction rows arbitrary: st files k)
    case (Cons r rows)
    obtain st1 files1 k1 where r: "purge_export storage_root can_unlink now (st, files, k) r = (st1, files1, k1)" by (metis prod_cases3)
    have "same_rows st st1 \<and> set files1 \<subseteq> set files \<and> (\<forall>p \<in> set files - set files1. prefix storage_root p)"
      using purge_export_step [of st storage_root can_unlink now files k r] by (simp add: r)
    then show ?case using Cons.IH [of st1 files1 k1] by (auto simp: r same_rows_def)
  qed (simp add: same_rows_def)
  show ?thesis
  proof (cases "days \<le> 0 \<or> expired_exports (now - days * day_micros) st = []")
    case True
    then show ?thesis using assms by (auto simp: purge_exports_def same_rows_def Let_def split: if_splits)
  next
    case False
    let ?r = "foldl (purge_export storage_root can_unlink now) (st, files, 0)
       [(sn_id n, sn_file_path n). n \<leftarrow> st_snapshots st, sn_id n \<in> set (expired_exports (now - days * day_micros) st)]"
    have "st' = fst ?r" "files' = fst (snd ?r)" using assms False by (auto simp: purge_exports_def Let_def split: prod.splits)
    then show ?thesis using fold by blast
  qed
qed

section \<open>Properties\<close>

text \<open>
  The daily archive. It may be repeated: however often it ran that day, the history has at
  most one row per SKU, warehouse and day, a row of today for every row of the stock table, and
  an earlier row of the same day is not overwritten; only rows older than ninety days go.
\<close>

theorem daily_archive_correct:
  assumes "distinct (map history_key history)"
  shows "let history' = daily_archive_job now latest history; today = beijing_date now
     in distinct (map history_key history')
      \<and> (\<forall>r \<in> set latest. \<exists>h \<in> set history'. history_key h = (inv_commodity_sku r, inv_warehouse_id r, today))
      \<and> (\<forall>h \<in> set history. (h \<in> set history') = (today - 90 \<le> ih_snapshot_date h))
      \<and> daily_archive_job now latest history' = history'"
proof -
  define today where "today = beijing_date now"
  define rows where "rows = map (archive_row today) latest"
  define arch where "arch = foldl insert_history history rows"
  define hist where "hist = filter (\<lambda>h. \<not> ih_snapshot_date h < today - RETENTION_DAYS) arch"
  have job: "daily_archive_job now latest history = hist" by (simp add: daily_archive_job_def hist_def arch_def rows_def today_def Let_def)
  have d: "distinct (map history_key hist)" unfolding hist_def arch_def by (intro distinct_map_filter archive_distinct assms)
  have key: "history_key ` set rows \<subseteq> history_key ` set hist"
  proof
    fix k assume k: "k \<in> history_key ` set rows"
    then have "k \<in> history_key ` set arch" unfolding arch_def archive_keys by blast
    then obtain h where h: "h \<in> set arch" "history_key h = k" by blast
    have "ih_snapshot_date h = today" using k h(2) by (auto simp: rows_def history_key_def archive_row_def)
    then show "k \<in> history_key ` set hist" using h by (auto simp: hist_def RETENTION_DAYS_def)
  qed
  have again: "foldl insert_history hist rows = hist"
    using key by (induction rows) (simp_all add: insert_history_def)
  have "daily_archive_job now latest hist = hist"
    unfolding daily_archive_job_def Let_def today_def [symmetric] rows_def [symmetric] again by (simp add: hist_def)
  moreover have "\<exists>h \<in> set hist. history_key h = (inv_commodity_sku r, inv_warehouse_id r, today)" if "r \<in> set latest" for r
  proof -
    have "history_key (archive_row today r) \<in> history_key ` set hist" using key that unfolding rows_def by auto
    then show ?thesis by (auto simp: archive_row_def history_key_def)
  qed
  moreover have "(h \<in> set hist) = (today - 90 \<le> ih_snapshot_date h)" if "h \<in> set history" for h
    using archive_keeps [OF that, of rows] by (auto simp: hist_def arch_def RETENTION_DAYS_def)
  ultimately show ?thesis unfolding Let_def job today_def [symmetric] using d by blast
qed

theorem daily_archive_correct_witness:
  "let h = \<lparr>ih_commodity_sku = ''A'', ih_warehouse_id = ''W'', ih_country = None, ih_available = 1, ih_reserved = 0, ih_snapshot_date = 9\<rparr>
   in h \<notin> set (daily_archive_job (beijing_midnight 100) [] [h])"
proof -
  let ?h = "\<lparr>ih_commodity_sku = ''A'', ih_warehouse_id = ''W'', ih_country = None, ih_available = 1, ih_reserved = 0, ih_snapshot_date = 9\<rparr>"
  have "beijing_date (beijing_midnight 100) = 100" by (simp add: beijing_date_def beijing_midnight_def day_micros_def)
  then show ?thesis using daily_archive_correct [of "[?h]" "beijing_midnight 100" "[]"] by (simp add: Let_def)
qed

text \<open>
  The configured retention of the stock history has no effect from ninety days on: on the day
  of an archive run the purge with any such setting, the default of 180 days included, deletes
  nothing, because the archive has already deleted everything older than ninety days.
\<close>

theorem history_retention_ineffective:
  assumes "90 \<le> days" "beijing_date later = beijing_date now"
  shows "purge_inventory_history later days (daily_archive_job now latest history) = (daily_archive_job now latest history, 0)"
proof -
  have "\<not> ih_snapshot_date h < beijing_date (later - days * day_micros)" if "h \<in> set (daily_archive_job now latest history)" for h
    using that assms unfolding beijing_date_minus_days by (auto simp: daily_archive_job_def RETENTION_DAYS_def Let_def)
  then show ?thesis using assms(1)
    by (simp add: purge_inventory_history_def filter_empty_conv Let_def filter_True cong: filter_cong)
qed

theorem history_retention_ineffective_witness:
  "purge_inventory_history (beijing_midnight 100 + 7200000000) 180
      (daily_archive_job (beijing_midnight 100) (t_inventory_snapshot_latest demo_engine_db) [])
     = (daily_archive_job (beijing_midnight 100) (t_inventory_snapshot_latest demo_engine_db) [], 0)"
  by (rule history_retention_ineffective) (simp_all add: beijing_date_def beijing_midnight_def day_micros_def)

text \<open>
  The purge of old exports deletes no file outside the storage directory, whatever paths
  the database holds, creates none, and changes nothing but the purge marks of the log.
\<close>

theorem purge_exports_contained:
  assumes "purge_exports storage_root can_unlink now days (st, files) = ((st', files'), n)"
  shows "set files' \<subseteq> set files \<and> (\<forall>p \<in> set files - set files'. prefix storage_root p)
    \<and> st_suggestions st' = st_suggestions st \<and> st_items st' = st_items st \<and> st_snapshots st' = st_snapshots st
    \<and> st_snapshot_items st' = st_snapshot_items st"
  using purge_exports_frame [OF assms] by (simp add: same_rows_def)

theorem purge_exports_contained_witness:
  "\<exists>st' n. purge_exports [''exports''] (\<lambda>_. True) (100 * day_micros) 60
       (demo_store\<lparr>st_snapshots := [demo_snapshot], st_export_log := [export_log_entry 1 ''generate'' 0 demo_request]\<rparr>,
        [[''exports'', ''2026'', ''04'', ''a.xlsx''], [''etc'', ''passwd'']]) = ((st', [[''etc'', ''passwd'']]), n)
     \<and> st_items st' = [demo_suggestion_item]"
proof -
  let ?st = "demo_store\<lparr>st_snapshots := [demo_snapshot], st_export_log := [export_log_entry 1 ''generate'' 0 demo_request]\<rparr>"
  have e: "expired_exports (100 * day_micros - 60 * day_micros) ?st = [1]"
    by (simp add: expired_exports_def export_log_entry_def day_micros_def dedup_def)
  have p: "resolve_path (path_join [''exports''] ''2026/04/a.xlsx'') = [''exports'', ''2026'', ''04'', ''a.xlsx'']"
    by (simp add: path_join_def path_parts_def resolve_path_def)
  obtain st' n where r: "purge_exports [''exports''] (\<lambda>_. True) (100 * day_micros) 60
       (?st, [[''exports'', ''2026'', ''04'', ''a.xlsx''], [''etc'', ''passwd'']]) = ((st', [[''etc'', ''passwd'']]), n)"
    using e by (simp add: purge_exports_def purge_export_def demo_snapshot_def p Let_def)
  then show ?thesis using purge_exports_contained [OF r] by (auto simp: demo_store_def)
qed

end
