(* ===== verification/Export_Lifecycle.thy ===== *)
theory Export_Lifecycle
  imports Generation_Toggle Retention
begin

text \<open>
  The life of suggestions, items and snapshots under all operations that touch them, in any
  interleaving: engine runs, edits, recalculations, archiving, deleting, the generation switch,
  the two transactions of an export with the file written between them (or lost with the
  process), downloads and the purges. Everything else in the database may change between steps.
\<close>

record world =
  w_db :: engine_db
  w_store :: suggestion_store
  w_jobs :: "export_job list"
  w_files :: "path list"

inductive life_step :: "path \<Rightarrow> world \<Rightarrow> world \<Rightarrow> bool" for storage_root where
  environment: "life_step storage_root w (w\<lparr>w_db := db\<rparr>)"
| run: "run_engine (w_db w) now demand_date triggered_by (w_store w) = Inr (st, r) \<Longrightarrow>
    life_step storage_root w (w\<lparr>w_store := st\<rparr>)"
| patch: "patch_item (w_db w) listings p sid iid (w_store w) = Inr (st, out) \<Longrightarrow>
    life_step storage_root w (w\<lparr>w_store := st\<rparr>)"
| recalculate: "recalculate_item (w_db w) listings sid iid (w_store w) = Inr (st, out) \<Longrightarrow>
    life_step storage_root w (w\<lparr>w_store := st\<rparr>)"
| archive: "archive_suggestion now sid (w_store w) = Inr st \<Longrightarrow> life_step storage_root w (w\<lparr>w_store := st\<rparr>)"
| delete: "delete_suggestion sid (w_store w) = Inr st \<Longrightarrow> life_step storage_root w (w\<lparr>w_store := st\<rparr>)"
| toggle: "patch_generation_toggle names now user_id enabled (w_db w) (w_store w) = Inr (db, st, tout) \<Longrightarrow>
    life_step storage_root w (w\<lparr>w_db := db, w_store := st\<rparr>)"
| prepare: "prepare_snapshot listings tx_now now req sid item_ids note snapshot_type (w_store w) = Inr (st, job) \<Longrightarrow>
    snapshot_type \<in> {''procurement'', ''restock''} \<Longrightarrow>
    life_step storage_root w (w\<lparr>w_store := st, w_jobs := job # w_jobs w\<rparr>)"
| finish: "job \<in> set (w_jobs w) \<Longrightarrow> finish_snapshot tx_now outcome job (w_store w) = (st, result) \<Longrightarrow>
    (case result of Inl e \<Rightarrow> files = w_files w
     | Inr _ \<Rightarrow> files = resolve_path (path_join storage_root (ej_relative_path job)) # w_files w) \<Longrightarrow>
    life_step storage_root w (w\<lparr>w_store := st, w_jobs := remove1 job (w_jobs w), w_files := files\<rparr>)"
| crash: "life_step storage_root w (w\<lparr>w_jobs := remove1 job (w_jobs w)\<rparr>)"
| download: "download_snapshot storage_root (w_files w) tx_now now req nid (w_store w) = Inr (st, file_abs) \<Longrightarrow>
    life_step storage_root w (w\<lparr>w_store := st\<rparr>)"
| purge_files: "purge_exports storage_root can_unlink now days (w_store w, w_files w) = ((st, files), n) \<Longrightarrow>
    life_step storage_root w (w\<lparr>w_store := st, w_files := files\<rparr>)"
| purge_stuck: "purge_stuck_generating now hours (w_store w) = (st, n) \<Longrightarrow> life_step storage_root w (w\<lparr>w_store := st\<rparr>)"

definition initial_world :: "engine_db \<Rightarrow> world" where
  "initial_world db = \<lparr>w_db = db, w_store = empty_store, w_jobs = [], w_files = []\<rparr>"

definition life_reachable :: "path \<Rightarrow> engine_db \<Rightarrow> world \<Rightarrow> bool" where
  "life_reachable storage_root db w \<longleftrightarrow> (life_step storage_root)\<^sup>*\<^sup>* (initial_world db) w"

section \<open>Lemmas\<close>

subsection \<open>The invariant\<close>

abbreviation drafts :: "suggestion list \<Rightarrow> suggestion list" where
  "drafts rows \<equiv> filter (\<lambda>s. sg_status s = ''draft'') rows"

text \<open>What identifies a snapshot and never changes.\<close>

definition snapshot_key :: "suggestion_snapshot \<Rightarrow> int \<times> int \<times> string \<times> int \<times> int \<times> config_snapshot" where
  "snapshot_key n = (sn_id n, sn_suggestion_id n, sn_snapshot_type n, sn_version n, sn_item_count n, sn_global_config_snapshot n)"

definition item_key :: "suggestion_item \<Rightarrow> int \<times> int" where
  "item_key i = (si_id i, si_suggestion_id i)"

definition versions_of :: "suggestion_snapshot list \<Rightarrow> int \<Rightarrow> string \<Rightarrow> int list" where
  "versions_of rows sid ty = map sn_version (filter (\<lambda>n. sn_suggestion_id n = sid \<and> sn_snapshot_type n = ty) rows)"

definition keys_ok :: "suggestion_store \<Rightarrow> bool" where
  "keys_ok st \<longleftrightarrow>
     distinct (map sg_id (st_suggestions st)) \<and> 0 \<le> st_next_suggestion_id st
   \<and> (\<forall>s \<in> set (st_suggestions st). 0 \<le> sg_id s \<and> sg_id s < st_next_suggestion_id st)
   \<and> distinct (map si_id (st_items st)) \<and> (\<forall>i \<in> set (st_items st). si_id i < st_next_item_id st)
   \<and> distinct (map sn_id (st_snapshots st)) \<and> (\<forall>n \<in> set (st_snapshots st). sn_id n < st_next_snapshot_id st)"

definition refs_ok :: "suggestion_store \<Rightarrow> bool" where
  "refs_ok st \<longleftrightarrow>
     (\<forall>i \<in> set (st_items st). si_suggestion_id i \<in> sg_id ` set (st_suggestions st))
   \<and> (\<forall>n \<in> set (st_snapshots st). sn_suggestion_id n \<in> sg_id ` set (st_suggestions st)
        \<and> sn_snapshot_type n \<in> {''procurement'', ''restock''})"

definition versions_ok :: "suggestion_store \<Rightarrow> bool" where
  "versions_ok st \<longleftrightarrow> (\<forall>sid ty. versions_of (st_snapshots st) sid ty = map int [1..<Suc (length (versions_of (st_snapshots st) sid ty))])"

definition contents_ok :: "suggestion_store \<Rightarrow> bool" where
  "contents_ok st \<longleftrightarrow>
     (\<forall>n \<in> set (st_snapshots st). sn_item_count n = int (length (filter (\<lambda>i. ni_snapshot_id i = sn_id n) (st_snapshot_items st))))
   \<and> (\<forall>i \<in> set (st_snapshot_items st). ni_snapshot_id i < st_next_snapshot_id st)"

definition ready_snapshot :: "suggestion_store \<Rightarrow> int \<Rightarrow> int \<Rightarrow> string \<Rightarrow> bool" where
  "ready_snapshot st nid sid ty \<longleftrightarrow> (\<exists>n \<in> set (st_snapshots st). sn_id n = nid \<and> sn_suggestion_id n = sid \<and> sn_snapshot_type n = ty
     \<and> sn_generation_status n = ''ready'')"

definition exported_ok :: "suggestion_store \<Rightarrow> suggestion_item \<Rightarrow> bool" where
  "exported_ok st i \<longleftrightarrow>
     (si_restock_export_status i = ''exported'') = (si_restock_exported_snapshot_id i \<noteq> None)
   \<and> (si_procurement_export_status i = ''exported'') = (si_procurement_exported_snapshot_id i \<noteq> None)
   \<and> (\<forall>nid. si_restock_exported_snapshot_id i = Some nid \<longrightarrow> ready_snapshot st nid (si_suggestion_id i) ''restock'')
   \<and> (\<forall>nid. si_procurement_exported_snapshot_id i = Some nid \<longrightarrow> ready_snapshot st nid (si_suggestion_id i) ''procurement'')"

definition export_path :: "int \<Rightarrow> int \<Rightarrow> string \<Rightarrow> instant \<Rightarrow> string" where
  "export_path sid version ty t = strftime_month t @ ''/'' @ build_filename sid version t ty"

definition paths_ok :: "suggestion_store \<Rightarrow> bool" where
  "paths_ok st \<longleftrightarrow> (\<forall>n \<in> set (st_snapshots st).
     (sn_generation_status n = ''ready'') = (sn_file_path n \<noteq> None)
   \<and> (\<forall>p. sn_file_path n = Some p \<longrightarrow> (\<exists>t. p = export_path (sn_suggestion_id n) (sn_version n) (sn_snapshot_type n) t)))"

text \<open>An export under way belongs to a snapshot that is not ready yet, and to items of its suggestion.\<close>

definition job_snapshot_ok :: "suggestion_store \<Rightarrow> export_job \<Rightarrow> bool" where
  "job_snapshot_ok st j \<longleftrightarrow> (\<exists>n \<in> set (st_snapshots st). sn_id n = ej_snapshot_id j \<and> sn_generation_status n \<noteq> ''ready''
     \<and> sn_suggestion_id n = xc_suggestion_id (ej_context j) \<and> sn_snapshot_type n = xc_snapshot_type (ej_context j)
     \<and> ej_relative_path j = export_path (sn_suggestion_id n) (sn_version n) (sn_snapshot_type n) (xc_exported_at (ej_context j)))"

definition job_items_ok :: "suggestion_store \<Rightarrow> export_job \<Rightarrow> bool" where
  "job_items_ok st j \<longleftrightarrow> (\<forall>iid \<in> set (ej_item_ids j). iid < st_next_item_id st)
   \<and> (\<forall>i \<in> set (st_items st). si_id i \<in> set (ej_item_ids j) \<longrightarrow> si_suggestion_id i = xc_suggestion_id (ej_context j))"

definition job_ok :: "suggestion_store \<Rightarrow> export_job \<Rightarrow> bool" where
  "job_ok st j \<longleftrightarrow> job_snapshot_ok st j \<and> job_items_ok st j"

definition jobs_ok :: "suggestion_store \<Rightarrow> export_job list \<Rightarrow> bool" where
  "jobs_ok st jobs \<longleftrightarrow> distinct (map ej_snapshot_id jobs) \<and> (\<forall>j \<in> set jobs. job_ok st j)"

definition life_inv :: "world \<Rightarrow> bool" where
  "life_inv w \<longleftrightarrow> (let st = w_store w in
     keys_ok st \<and> refs_ok st \<and> length (drafts (st_suggestions st)) \<le> 1 \<and> versions_ok st \<and> contents_ok st
   \<and> (\<forall>i \<in> set (st_items st). exported_ok st i) \<and> paths_ok st \<and> jobs_ok st (w_jobs w))"

subsection \<open>The keys of the tables\<close>

text \<open>What the structural part of the invariant depends on: most operations leave it alone.\<close>

definition store_keys ::
  "suggestion_store \<Rightarrow> int list \<times> (int \<times> int) list \<times> (int \<times> int \<times> string \<times> int \<times> int \<times> config_snapshot) list
     \<times> snapshot_item list \<times> int \<times> int \<times> int" where
  "store_keys st = (map sg_id (st_suggestions st), map item_key (st_items st), map snapshot_key (st_snapshots st),
     st_snapshot_items st, st_next_suggestion_id st, st_next_item_id st, st_next_snapshot_id st)"

definition structure_ok :: "suggestion_store \<Rightarrow> bool" where
  "structure_ok st \<longleftrightarrow> keys_ok st \<and> refs_ok st \<and> versions_ok st \<and> contents_ok st"

lemma map_key_projections:
  "map si_id rows = map fst (map item_key rows)" "map sn_id snaps = map fst (map snapshot_key snaps)"
  by (simp_all add: item_key_def snapshot_key_def comp_def)

lemma keys_ok_keys:
  "keys_ok st \<longleftrightarrow> (case store_keys st of (sgs, its, sns, nis, a, b, c) \<Rightarrow>
     distinct sgs \<and> 0 \<le> a \<and> (\<forall>s \<in> set sgs. 0 \<le> s \<and> s < a) \<and> distinct (map fst its) \<and> (\<forall>(i, s) \<in> set its. i < b)
   \<and> distinct (map fst sns) \<and> (\<forall>(n, r) \<in> set sns. n < c))"
  unfolding keys_ok_def store_keys_def map_key_projections by (auto simp: item_key_def snapshot_key_def)

lemma refs_ok_keys:
  "refs_ok st \<longleftrightarrow> (case store_keys st of (sgs, its, sns, nis, a, b, c) \<Rightarrow>
     (\<forall>(i, s) \<in> set its. s \<in> set sgs) \<and> (\<forall>(n, s, ty, r) \<in> set sns. s \<in> set sgs \<and> ty \<in> {''procurement'', ''restock''}))"
  by (auto simp: refs_ok_def store_keys_def item_key_def snapshot_key_def)

lemma versions_of_keys:
  "versions_of rows sid ty = map (\<lambda>(n, s, t, v, r). v) (filter (\<lambda>(n, s, t, v, r). s = sid \<and> t = ty) (map snapshot_key rows))"
  by (simp add: versions_of_def snapshot_key_def filter_map comp_def)

lemma versions_ok_keys:
  "map snapshot_key (st_snapshots st') = map snapshot_key (st_snapshots st) \<Longrightarrow> versions_ok st' = versions_ok st"
  by (simp add: versions_ok_def versions_of_keys)

lemma contents_ok_keys:
  "contents_ok st \<longleftrightarrow> (case store_keys st of (sgs, its, sns, nis, a, b, c) \<Rightarrow>
     (\<forall>(n, s, t, v, k, r) \<in> set sns. k = int (length (filter (\<lambda>i. ni_snapshot_id i = n) nis)))
   \<and> (\<forall>i \<in> set nis. ni_snapshot_id i < c))"
  by (auto simp: contents_ok_def store_keys_def snapshot_key_def)

lemma structure_ok_keys: "store_keys st' = store_keys st \<Longrightarrow> structure_ok st' = structure_ok st"
  unfolding structure_ok_def keys_ok_keys refs_ok_keys contents_ok_keys
  using versions_ok_keys [of st' st] by (simp add: store_keys_def)

lemma life_inv_iff:
  "life_inv w \<longleftrightarrow> structure_ok (w_store w) \<and> length (drafts (st_suggestions (w_store w))) \<le> 1
     \<and> (\<forall>i \<in> set (st_items (w_store w)). exported_ok (w_store w) i) \<and> paths_ok (w_store w) \<and> jobs_ok (w_store w) (w_jobs w)"
  by (auto simp: life_inv_def structure_ok_def Let_def)

subsection \<open>Operations that keep the keys\<close>

text \<open>Snapshots may change, but a ready one stays ready under its key.\<close>

definition ready_kept :: "suggestion_store \<Rightarrow> suggestion_store \<Rightarrow> bool" where
  "ready_kept st st' \<longleftrightarrow> (\<forall>n \<in> set (st_snapshots st). sn_generation_status n = ''ready'' \<longrightarrow>
     (\<exists>n' \<in> set (st_snapshots st'). snapshot_key n' = snapshot_key n \<and> sn_generation_status n' = ''ready''
        \<and> sn_file_path n' = sn_file_path n))"

lemma ready_kept_mono: "ready_kept st st' \<Longrightarrow> ready_snapshot st nid sid ty \<Longrightarrow> ready_snapshot st' nid sid ty"
  unfolding ready_kept_def ready_snapshot_def snapshot_key_def by fastforce

lemma ready_kept_trans: "ready_kept st st1 \<Longrightarrow> ready_kept st1 st2 \<Longrightarrow> ready_kept st st2"
  unfolding ready_kept_def by metis

lemma ready_kept_same: "st_snapshots st' = st_snapshots st \<Longrightarrow> ready_kept st st'"
  unfolding ready_kept_def by auto

lemma exported_ok_identity:
  assumes "ready_kept st st'" "same_identity i' i" "exported_ok st i"
  shows "exported_ok st' i'"
  using assms(2,3) ready_kept_mono [OF assms(1)] by (simp add: exported_ok_def same_identity_def)

text \<open>An update of items that keeps their identity.\<close>

lemma update_items_keys:
  assumes "\<And>i. i \<in> set rows \<Longrightarrow> p i \<Longrightarrow> same_identity (f i) i"
  shows "map item_key (update_where p f rows) = map item_key rows"
  using assms by (simp add: update_where_def item_key_def same_identity_def)

text \<open>Items known to a job keep their suggestion, and items that come later are not among the job's.\<close>

lemma job_items_kept:
  assumes "job_items_ok st j" "st_next_item_id st \<le> st_next_item_id st'"
    "\<And>k. k \<in> set (map item_key (st_items st')) \<Longrightarrow> k \<in> set (map item_key (st_items st)) \<or> st_next_item_id st \<le> fst k"
  shows "job_items_ok st' j"
proof -
  have "si_suggestion_id i = xc_suggestion_id (ej_context j)" if i: "i \<in> set (st_items st')" "si_id i \<in> set (ej_item_ids j)" for i
  proof -
    have "item_key i \<in> set (map item_key (st_items st)) \<or> st_next_item_id st \<le> fst (item_key i)"
      using i(1) by (intro assms(3)) simp
    then show ?thesis using assms(1) i(2) by (auto simp: job_items_ok_def item_key_def)
  qed
  then show ?thesis using assms(1,2) by (fastforce simp: job_items_ok_def)
qed

text \<open>The snapshot of a job is not made ready by anyone else.\<close>

definition pending_kept :: "suggestion_store \<Rightarrow> suggestion_store \<Rightarrow> int \<Rightarrow> bool" where
  "pending_kept st st' nid \<longleftrightarrow> (\<forall>n \<in> set (st_snapshots st). sn_id n = nid \<and> sn_generation_status n \<noteq> ''ready'' \<longrightarrow>
     (\<exists>n' \<in> set (st_snapshots st'). snapshot_key n' = snapshot_key n \<and> sn_generation_status n' \<noteq> ''ready''))"

lemma job_snapshot_kept: "job_snapshot_ok st j \<Longrightarrow> pending_kept st st' (ej_snapshot_id j) \<Longrightarrow> job_snapshot_ok st' j"
  unfolding job_snapshot_ok_def pending_kept_def snapshot_key_def by fastforce

lemma pending_kept_same: "set (st_snapshots st) \<subseteq> set (st_snapshots st') \<Longrightarrow> pending_kept st st' nid"
  unfolding pending_kept_def by auto

lemma jobs_ok_kept:
  assumes "jobs_ok st jobs" "st_next_item_id st \<le> st_next_item_id st'"
    "\<And>k. k \<in> set (map item_key (st_items st')) \<Longrightarrow> k \<in> set (map item_key (st_items st)) \<or> st_next_item_id st \<le> fst k"
    "\<And>j. j \<in> set jobs \<Longrightarrow> pending_kept st st' (ej_snapshot_id j)"
  shows "jobs_ok st' jobs"
  using assms(1) job_snapshot_kept [OF _ assms(4)] job_items_kept [OF _ assms(2,3)]
  by (simp add: jobs_ok_def job_ok_def)

text \<open>
  One rule for the operations that keep the keys: no new draft, items keep their identity,
  ready snapshots stay ready, and the paths are right.
\<close>

lemma life_inv_kept:
  assumes "life_inv w" "store_keys st' = store_keys (w_store w)"
    "length (drafts (st_suggestions st')) \<le> length (drafts (st_suggestions (w_store w)))"
    "\<And>i'. i' \<in> set (st_items st') \<Longrightarrow> \<exists>i \<in> set (st_items (w_store w)). same_identity i' i"
    "ready_kept (w_store w) st'" "paths_ok st'" "\<And>j. j \<in> set (w_jobs w) \<Longrightarrow> pending_kept (w_store w) st' (ej_snapshot_id j)"
  shows "life_inv (w\<lparr>w_store := st'\<rparr>)"
proof -
  have "jobs_ok st' (w_jobs w)"
    using assms(1,2) by (intro jobs_ok_kept [OF _ _ _ assms(7)]) (auto simp: life_inv_iff store_keys_def)
  moreover have "\<forall>i' \<in> set (st_items st'). exported_ok st' i'"
    using assms(1,4) exported_ok_identity [OF assms(5)] by (fastforce simp: life_inv_iff)
  ultimately show ?thesis using assms(1,3,6) structure_ok_keys [OF assms(2)] by (simp add: life_inv_iff)
qed

lemma life_inv_suggestions:
  assumes "life_inv w" "map sg_id rows = map sg_id (st_suggestions (w_store w))"
    "length (drafts rows) \<le> length (drafts (st_suggestions (w_store w)))"
  shows "life_inv (w\<lparr>w_store := (w_store w)\<lparr>st_suggestions := rows\<rparr>\<rparr>)"
  using assms by (intro life_inv_kept)
    (auto simp: store_keys_def life_inv_iff paths_ok_def intro: ready_kept_same pending_kept_same same_identity_refl)

lemma life_inv_items:
  assumes "life_inv w" "\<And>i. i \<in> set (st_items (w_store w)) \<Longrightarrow> p i \<Longrightarrow> same_identity (f i) i"
  shows "life_inv (w\<lparr>w_store := (w_store w)\<lparr>st_items := update_where p f (st_items (w_store w))\<rparr>\<rparr>)"
  using assms by (intro life_inv_kept)
    (auto simp: store_keys_def update_items_keys set_update_where life_inv_iff paths_ok_def
      intro: ready_kept_same pending_kept_same same_identity_refl)

text \<open>Updates of snapshots that leave the key, the path and readiness alone.\<close>

definition soft_update :: "(suggestion_snapshot \<Rightarrow> suggestion_snapshot) \<Rightarrow> suggestion_snapshot \<Rightarrow> bool" where
  "soft_update f n \<longleftrightarrow> snapshot_key (f n) = snapshot_key n \<and> sn_file_path (f n) = sn_file_path n
     \<and> (sn_generation_status (f n) = ''ready'' \<longleftrightarrow> sn_generation_status n = ''ready'')"

lemma soft_map:
  assumes "\<And>n. n \<in> set (st_snapshots st) \<Longrightarrow> soft_update g n" "st_snapshots st' = map g (st_snapshots st)"
  shows "map snapshot_key (st_snapshots st') = map snapshot_key (st_snapshots st)" "ready_kept st st'" "pending_kept st st' nid"
    "paths_ok st \<Longrightarrow> paths_ok st'"
proof -
  show "map snapshot_key (st_snapshots st') = map snapshot_key (st_snapshots st)" "ready_kept st st'" "pending_kept st st' nid"
    using assms by (auto simp: soft_update_def ready_kept_def pending_kept_def)
  show "paths_ok st'" if "paths_ok st"
    using assms that by (force simp: soft_update_def paths_ok_def snapshot_key_def)
qed

lemma life_inv_snapshots:
  assumes "life_inv w" "\<And>n. n \<in> set (st_snapshots (w_store w)) \<Longrightarrow> p n \<Longrightarrow> soft_update f n"
  shows "life_inv (w\<lparr>w_store := (w_store w)\<lparr>st_snapshots := update_where p f (st_snapshots (w_store w)), st_export_log := el\<rparr>\<rparr>)"
proof -
  let ?st' = "(w_store w)\<lparr>st_snapshots := update_where p f (st_snapshots (w_store w)), st_export_log := el\<rparr>"
  have "soft_update (\<lambda>n. if p n then f n else n) n" if "n \<in> set (st_snapshots (w_store w))" for n
    using assms(2) that by (simp add: soft_update_def)
  note soft = soft_map [OF this, of "w_store w" ?st']
  show ?thesis
    using assms(1) soft by (intro life_inv_kept) (auto simp: update_where_def store_keys_def life_inv_iff intro: same_identity_refl)
qed

subsection \<open>Editing, archiving, downloading, purging\<close>

lemma drafts_archived: "(\<And>s. sg_status (f s) = ''archived'') \<Longrightarrow> length (drafts (update_where p f rows)) \<le> length (drafts rows)"
  by (induction rows) (auto simp: update_where_def)

lemma update_item_store: "update_item iid f st = st\<lparr>st_items := update_where (\<lambda>i. si_id i = iid) f (st_items st)\<rparr>"
  by (simp add: update_item_def)

lemma found_item_unique:
  assumes "life_inv w" "find_item (w_store w) sid iid = Some item" "i \<in> set (st_items (w_store w))" "si_id i = iid"
  shows "i = item"
  using assms find_item_SomeD [OF assms(2)] by (auto simp: life_inv_iff structure_ok_def keys_ok_def distinct_map inj_on_def)

lemma life_inv_patch:
  assumes "life_inv w" "patch_item db listings p sid iid (w_store w) = Inr (st, out)"
  shows "life_inv (w\<lparr>w_store := st\<rparr>)"
  using assms(2)
proof (cases rule: patch_item_cases)
  case (1 parent item)
  show ?thesis unfolding 1(6) update_item_store
    using found_item_unique [OF assms(1) 1(4)] patched_item_identity by (intro life_inv_items [OF assms(1)]) metis
qed

lemma life_inv_recalculate:
  assumes "life_inv w" "recalculate_item db listings sid iid (w_store w) = Inr (st, out)"
  shows "life_inv (w\<lparr>w_store := st\<rparr>)"
  using assms(2)
proof (cases rule: recalculate_item_cases)
  case (1 parent item sale_days inventory)
  show ?thesis unfolding 1(4) update_item_store
    using found_item_unique [OF assms(1) 1(3)] recalculated_item_identity by (intro life_inv_items [OF assms(1)]) metis
qed

lemma life_inv_archive:
  assumes "life_inv w" "archive_suggestion now sid (w_store w) = Inr st"
  shows "life_inv (w\<lparr>w_store := st\<rparr>)"
proof -
  have "st = (w_store w)\<lparr>st_suggestions := update_where (\<lambda>s. sg_id s = sid)
      (\<lambda>s. s\<lparr>sg_status := ''archived'', sg_archived_at := Some now\<rparr>) (st_suggestions (w_store w))\<rparr>"
    using assms(2) by (auto simp: archive_suggestion_def split: option.splits if_splits)
  then show ?thesis using life_inv_suggestions [OF assms(1)] by (simp add: map_update_where drafts_archived)
qed

lemma life_inv_toggle:
  assumes "life_inv w" "patch_generation_toggle names now user_id enabled (w_db w) (w_store w) = Inr (db, st, tout)"
  shows "life_inv (w\<lparr>w_store := st\<rparr>)"
proof (cases enabled)
  case True
  then show ?thesis
    using patch_toggle_result(1) [OF assms(2)] life_inv_suggestions [OF assms(1)] by (simp add: map_update_where drafts_archived)
next
  case False
  then show ?thesis using patch_toggle_result(1) [OF assms(2)] assms(1) by simp
qed

lemma download_store:
  assumes "download_snapshot storage_root files tx_now now req nid st = Inr (st', p)"
  obtains el where "st' = st\<lparr>st_snapshots := update_where (\<lambda>n. sn_id n = nid) (\<lambda>n. n\<lparr>sn_download_count := sn_download_count n + 1,
      sn_last_downloaded_at := Some now\<rparr>) (st_snapshots st), st_export_log := el\<rparr>"
  using assms by (auto simp: download_snapshot_def update_snapshot_def Let_def split: option.splits if_splits)

lemma life_inv_download:
  assumes "life_inv w" "download_snapshot storage_root files tx_now now req nid (w_store w) = Inr (st, p)"
  shows "life_inv (w\<lparr>w_store := st\<rparr>)"
  by (rule download_store [OF assms(2)]) (simp add: life_inv_snapshots [OF assms(1)] soft_update_def snapshot_key_def)

lemma life_inv_log: "life_inv w \<Longrightarrow> same_rows (w_store w) st \<Longrightarrow> life_inv (w\<lparr>w_store := st\<rparr>)"
  by (rule life_inv_kept)
    (auto simp: same_rows_def store_keys_def life_inv_iff paths_ok_def intro: ready_kept_same pending_kept_same same_identity_refl)

lemma stuck_store:
  assumes "purge_stuck_generating now hours st = (st', k)"
  shows "st' = st \<or> st' = st\<lparr>st_snapshots := update_where (stuck_generating now hours)
     (\<lambda>n. n\<lparr>sn_generation_status := ''failed'', sn_generation_error := Some (stuck_text hours)\<rparr>) (st_snapshots st),
     st_export_log := st_export_log st\<rparr>"
  using assms by (auto simp: purge_stuck_generating_def intro!: suggestion_store.equality split: if_splits)

lemma life_inv_stuck:
  assumes "life_inv w" "purge_stuck_generating now hours (w_store w) = (st, n)"
  shows "life_inv (w\<lparr>w_store := st\<rparr>)"
  using stuck_store [OF assms(2)]
proof
  assume "st = w_store w"
  then show ?thesis using assms(1) by (simp add: life_inv_iff)
next
  assume st: "st = (w_store w)\<lparr>st_snapshots := update_where (stuck_generating now hours)
     (\<lambda>n. n\<lparr>sn_generation_status := ''failed'', sn_generation_error := Some (stuck_text hours)\<rparr>) (st_snapshots (w_store w)),
     st_export_log := st_export_log (w_store w)\<rparr>"
  show ?thesis unfolding st
    by (rule life_inv_snapshots [OF assms(1)]) (simp add: soft_update_def snapshot_key_def stuck_generating_def)
qed

subsection \<open>Deleting and running\<close>

lemma versions_filtered: "versions_of (rows @ [n]) sid ty =
   versions_of rows sid ty @ (if sn_suggestion_id n = sid \<and> sn_snapshot_type n = ty then [sn_version n] else [])"
  by (simp add: versions_of_def)

lemma life_inv_delete:
  assumes "life_inv w" "delete_suggestion sid (w_store w) = Inr st"
  shows "life_inv (w\<lparr>w_store := st\<rparr>)"
proof -
  have inv: "structure_ok (w_store w)" "jobs_ok (w_store w) (w_jobs w)" "paths_ok (w_store w)"
    "length (drafts (st_suggestions (w_store w))) \<le> 1" "\<forall>i \<in> set (st_items (w_store w)). exported_ok (w_store w) i"
    using assms(1) by (simp_all add: life_inv_iff)
  have none: "\<forall>n \<in> set (st_snapshots (w_store w)). sn_suggestion_id n \<noteq> sid"
    and st: "st = (w_store w)\<lparr>st_suggestions := filter (\<lambda>s. sg_id s \<noteq> sid) (st_suggestions (w_store w)),
                st_items := filter (\<lambda>i. si_suggestion_id i \<noteq> sid) (st_items (w_store w))\<rparr>"
    using assms(2) by (auto simp: delete_suggestion_def filter_empty_conv split: option.splits if_splits)
  have ids: "sg_id ` {s \<in> set rows. sg_id s \<noteq> sid} = sg_id ` set rows - {sid}" for rows by auto
  have "structure_ok st"
    using inv(1) none
    by (auto simp: st structure_ok_def keys_ok_def refs_ok_def versions_ok_def contents_ok_def distinct_map_filter ids)
  moreover have "length (drafts (st_suggestions st)) \<le> 1"
    using inv(4) length_filter_le [of "\<lambda>s. sg_id s \<noteq> sid" "drafts (st_suggestions (w_store w))"] by (simp add: st conj_commute)
  moreover have "\<forall>i \<in> set (st_items st). exported_ok st i"
    using inv(5) exported_ok_identity [OF ready_kept_same same_identity_refl] by (simp add: st)
  moreover have "paths_ok st" using inv(3) by (simp add: st paths_ok_def)
  moreover have "jobs_ok st (w_jobs w)"
    by (rule jobs_ok_kept [OF inv(2)]) (auto simp: st intro: pending_kept_same)
  ultimately show ?thesis by (simp add: life_inv_iff)
qed

lemma new_rows_keys: "map si_id (new_rows st items) = map (\<lambda>n. st_next_item_id st + int n) [0..<length items]"
  by (rule nth_equalityI) (simp_all add: new_rows_def nth_enumerate_eq case_prod_unfold)

lemma length_drafts:
  "length (filter (\<lambda>p. snd p = ''draft'') (map (\<lambda>s. (sg_id s, sg_status s)) rows)) = length (drafts rows)"
  by (induction rows) simp_all

lemma life_inv_run:
  assumes "life_inv w" "run_engine db now demand_date triggered_by (w_store w) = Inr (st, r)"
  shows "life_inv (w\<lparr>w_store := st\<rparr>)"
  using assms(2)
proof (cases rule: run_engine_cases)
  case nothing
  then show ?thesis using life_inv_log [OF assms(1), of st] by (simp add: same_rows_def)
next
  case (stored config allowed rd items)
  let ?st = "w_store w" and ?rows = "new_rows (w_store w) items"
  let ?sid = "st_next_suggestion_id (w_store w)"
  have inv: "structure_ok ?st" "jobs_ok ?st (w_jobs w)" "paths_ok ?st" "\<forall>i \<in> set (st_items ?st). exported_ok ?st i"
    using assms(1) by (simp_all add: life_inv_iff)
  have st: "st_items st = st_items ?st @ ?rows" "st_snapshots st = st_snapshots ?st" "st_snapshot_items st = st_snapshot_items ?st"
    "st_next_suggestion_id st = ?sid + 1" "st_next_item_id st = st_next_item_id ?st + int (length items)"
    "st_next_snapshot_id st = st_next_snapshot_id ?st"
    using stored(8) by (simp_all add: persist_suggestion_def archive_active_def new_rows_def Let_def)
  have "st = fst (persist_suggestion now (engine_config_snapshot config now (Some demand_date)) triggered_by items (archive_active now ?st))"
    using arg_cong [OF stored(8), of fst] by simp
  note pairs = persist_statuses [of now "engine_config_snapshot config now (Some demand_date)" triggered_by items ?st, folded this]
  have ids: "map sg_id (st_suggestions st) = map sg_id (st_suggestions ?st) @ [?sid]"
    using arg_cong [OF pairs, of "map fst"] by (simp add: comp_def)
  have sgs: "sg_id ` set (st_suggestions st) = insert ?sid (sg_id ` set (st_suggestions ?st))"
    using arg_cong [OF ids, of set] by simp
  have "filter (\<lambda>p. snd p = ''draft'') (map (\<lambda>s. (sg_id s, sg_status s)) (st_suggestions st)) = [(?sid, ''draft'')]"
    unfolding pairs by (simp add: filter_empty_conv)
  then have "length (drafts (st_suggestions st)) = 1" using length_drafts [of "st_suggestions st"] by simp
  moreover have "structure_ok st"
  proof -
    have new: "i \<in> set ?rows \<Longrightarrow> si_suggestion_id i = ?sid \<and> st_next_item_id ?st \<le> si_id i
        \<and> si_id i < st_next_item_id ?st + int (length items)" for i
      by (auto simp: set_new_rows)
    have k: "keys_ok ?st" using inv(1) by (simp add: structure_ok_def)
    have "si_id ` set (st_items ?st) \<inter> si_id ` set ?rows = {}" using k new by (fastforce simp: keys_ok_def)
    moreover have "distinct (map si_id ?rows)" unfolding new_rows_keys by (simp add: distinct_map inj_on_def)
    moreover have "?sid \<notin> sg_id ` set (st_suggestions ?st)" using k by (auto simp: keys_ok_def)
    moreover have "\<forall>s \<in> sg_id ` set (st_suggestions st). 0 \<le> s \<and> s < ?sid + 1" unfolding sgs using k by (auto simp: keys_ok_def)
    moreover have "\<forall>i \<in> set (st_items st). si_id i < st_next_item_id st" unfolding st using k new by (auto simp: keys_ok_def)
    ultimately have "keys_ok st" using k unfolding keys_ok_def ids by (simp add: st)
    then show ?thesis using inv(1) new by (auto simp: structure_ok_def refs_ok_def st sgs versions_ok_def contents_ok_def)
  qed
  moreover have "\<forall>i \<in> set (st_items st). exported_ok st i"
    using inv(4) exported_ok_identity [OF ready_kept_same [OF st(2)] same_identity_refl]
    by (auto simp: st(1) set_new_rows exported_ok_def)
  moreover have "paths_ok st" using inv(3) by (simp add: paths_ok_def st)
  moreover have "jobs_ok st (w_jobs w)"
    by (rule jobs_ok_kept [OF inv(2)]) (auto simp: st item_key_def set_new_rows intro: pending_kept_same)
  ultimately show ?thesis by (simp add: life_inv_iff)
qed

subsection \<open>Preparing an export\<close>

lemma prepare_cases:
  assumes "prepare_snapshot listings tx_now now req sid item_ids note ty st = Inr (st', job)"
  obtains sugg n rows where "find_suggestion st sid = Some sugg" "sg_status sugg = ''draft''"
    "length (selected_items st sid item_ids) = length item_ids"
    "st' = st\<lparr>st_snapshots := st_snapshots st @ [n], st_snapshot_items := st_snapshot_items st @ rows,
             st_next_snapshot_id := st_next_snapshot_id st + 1\<rparr>"
    "snapshot_key n = (st_next_snapshot_id st, sid, ty, next_version st sid ty, int (length item_ids), sg_global_config_snapshot sugg)"
    "sn_generation_status n = ''generating''" "sn_file_path n = None"
    "map ni_snapshot_id rows = replicate (length item_ids) (st_next_snapshot_id st)"
    "ej_snapshot_id job = st_next_snapshot_id st" "ej_item_ids job = item_ids" "xc_suggestion_id (ej_context job) = sid"
    "xc_snapshot_type (ej_context job) = ty"
    "ej_relative_path job = export_path sid (next_version st sid ty) ty (xc_exported_at (ej_context job))"
proof -
  obtain sugg where s: "find_suggestion st sid = Some sugg" "sg_status sugg = ''draft''"
    "length (selected_items st sid item_ids) = length item_ids"
    using assms by (auto simp: prepare_snapshot_def Let_def split: option.splits if_splits)
  have ids: "map ni_snapshot_id (map (to_snapshot_item nid ty sugg pm) items) = replicate (length items) nid" for nid pm items
    by (induction items) (simp_all add: to_snapshot_item_def Let_def case_prod_unfold)
  let ?n = "last (st_snapshots st')" and ?rows = "drop (length (st_snapshot_items st)) (st_snapshot_items st')"
  let ?pm = "listing_name_map listings (map si_commodity_sku (selected_items st sid item_ids))"
  show thesis
    using assms ids [of "st_next_snapshot_id st" ?pm "selected_items st sid item_ids"]
    by (intro that [OF s, where n = ?n and rows = ?rows])
      (auto simp: prepare_snapshot_def Let_def s snapshot_key_def export_path_def split: if_splits)
qed

text \<open>The count check of the handler: every requested item exists and belongs to the suggestion.\<close>

lemma selected_all:
  assumes "distinct (map si_id (st_items st))" "length (selected_items st sid item_ids) = length item_ids" "iid \<in> set item_ids"
  shows "\<exists>i \<in> set (st_items st). si_id i = iid \<and> si_suggestion_id i = sid"
proof -
  let ?F = "filter (\<lambda>i. si_id i \<in> set item_ids \<and> si_suggestion_id i = sid) (st_items st)"
  have "distinct (map si_id ?F)" using assms(1) by (rule distinct_map_filter)
  then have "card (set (map si_id ?F)) = length ?F" using distinct_card [of "map si_id ?F"] by simp
  moreover have "length ?F = length item_ids" using assms(2) by (simp add: selected_items_def)
  ultimately have "card (set item_ids) \<le> card (set (map si_id ?F))" using card_length [of item_ids] by simp
  then have "set (map si_id ?F) = set item_ids" by (intro card_seteq) auto
  then have "iid \<in> set (map si_id ?F)" using assms(3) by (simp only:)
  then show ?thesis by auto
qed

lemma next_version_eq:
  assumes "versions_ok st"
  shows "next_version st sid ty = int (length (versions_of (st_snapshots st) sid ty)) + 1"
proof -
  have list: "[sn_version n. n \<leftarrow> rows, sn_suggestion_id n = sid, sn_snapshot_type n = ty] = versions_of rows sid ty" for rows
    by (induction rows) (simp_all add: versions_of_def)
  have top: "foldl max 0 (map int [1..<Suc m]) = int m" for m
    by (induction m) auto
  show ?thesis unfolding next_version_def list using assms top by (metis versions_ok_def)
qed

lemma gap_free_snoc:
  "xs = map int [1..<Suc (length xs)] \<Longrightarrow> xs @ [int (length xs) + 1] = map int [1..<Suc (Suc (length xs))]"
  by simp

lemma life_inv_prepare:
  assumes "life_inv w" "prepare_snapshot listings tx_now now req sid item_ids note ty (w_store w) = Inr (st, job)"
    "ty \<in> {''procurement'', ''restock''}"
  shows "life_inv (w\<lparr>w_store := st, w_jobs := job # w_jobs w\<rparr>)"
  using assms(2)
proof (cases rule: prepare_cases)
  case (1 sugg n rows)
  let ?st = "w_store w" and ?nid = "st_next_snapshot_id (w_store w)"
  have inv: "keys_ok ?st" "refs_ok ?st" "versions_ok ?st" "contents_ok ?st" "jobs_ok ?st (w_jobs w)" "paths_ok ?st"
    "length (drafts (st_suggestions ?st)) \<le> 1" "\<forall>i \<in> set (st_items ?st). exported_ok ?st i"
    using assms(1) by (simp_all add: life_inv_iff structure_ok_def)
  have n: "sn_id n = ?nid" "sn_suggestion_id n = sid" "sn_snapshot_type n = ty" "sn_version n = next_version ?st sid ty"
    "sn_item_count n = int (length item_ids)" using 1(5) by (simp_all add: snapshot_key_def)
  have snaps: "st_snapshots st = st_snapshots ?st @ [n]" and rest: "st_items st = st_items ?st"
    "st_suggestions st = st_suggestions ?st" "st_next_item_id st = st_next_item_id ?st" unfolding 1(4) by simp_all
  have kept: "ready_kept ?st st" by (auto simp: ready_kept_def snaps)
  have "keys_ok st" using inv(1) by (auto simp: keys_ok_def 1(4) n)
  moreover have "refs_ok st"
    using inv(2) find_suggestion_SomeD [OF 1(1)] assms(3) by (auto simp: refs_ok_def 1(4) n)
  moreover have "versions_ok st"
    using inv(3) gap_free_snoc unfolding versions_ok_def snaps versions_filtered n next_version_eq [OF inv(3)]
    by (simp del: upt_Suc)
  moreover have "contents_ok st"
  proof -
    have own: "length (filter (\<lambda>i. ni_snapshot_id i = m) rows) = (if m = ?nid then length item_ids else 0)" for m
      using arg_cong [OF 1(8), of "\<lambda>xs. length (filter (\<lambda>x. x = m) xs)"] by (simp add: filter_map comp_def filter_replicate)
    have old: "filter (\<lambda>i. ni_snapshot_id i = ?nid) (st_snapshot_items ?st) = []"
      using inv(4) by (auto simp: contents_ok_def filter_empty_conv)
    have "ni_snapshot_id i = ?nid" if "i \<in> set rows" for i
      using arg_cong [OF 1(8), of set] that by (auto split: if_splits)
    then show ?thesis using inv(1,4) own old by (fastforce simp: contents_ok_def keys_ok_def 1(4) n)
  qed
  moreover have "\<forall>i \<in> set (st_items st). exported_ok st i"
    using inv(8) exported_ok_identity [OF kept same_identity_refl] by (simp add: rest)
  moreover have "paths_ok st" using inv(6) 1(6,7) by (auto simp: paths_ok_def snaps)
  moreover have "jobs_ok st (job # w_jobs w)"
  proof -
    have "jobs_ok st (w_jobs w)" by (rule jobs_ok_kept [OF inv(5)]) (auto simp: rest snaps intro: pending_kept_same)
    moreover have "?nid \<notin> ej_snapshot_id ` set (w_jobs w)"
      using inv(1,5) by (force simp: jobs_ok_def job_ok_def job_snapshot_ok_def keys_ok_def)
    moreover have "job_snapshot_ok st job" using 1(6,9-13) by (auto simp: job_snapshot_ok_def snaps n)
    moreover have "job_items_ok st job"
    proof -
      have d: "distinct (map si_id (st_items ?st))" using inv(1) by (simp add: keys_ok_def)
      then have "si_suggestion_id i = sid" if "i \<in> set (st_items ?st)" "si_id i \<in> set item_ids" for i
        using selected_all [OF d 1(3) that(2)] that(1) by (auto simp: distinct_map inj_on_def)
      moreover have "iid < st_next_item_id ?st" if "iid \<in> set item_ids" for iid
        using selected_all [OF d 1(3) that] inv(1) by (auto simp: keys_ok_def)
      ultimately show ?thesis by (simp add: job_items_ok_def rest 1(10,11))
    qed
    ultimately show ?thesis by (auto simp: jobs_ok_def job_ok_def 1(9))
  qed
  ultimately show ?thesis using inv(7) by (simp add: life_inv_iff structure_ok_def rest)
qed

subsection \<open>Finishing an export\<close>

lemma finish_cases:
  assumes "finish_snapshot tx_now outcome job st = (st', result)"
  obtains (unchanged) "st' = st" "\<exists>e. result = Inl e"
  | (failed) message where "st' = fail_snapshot (ej_snapshot_id job) message st" "\<exists>e. result = Inl e"
  | (saved) bytes where "st' = complete_snapshot tx_now job bytes st" "result = return (find_snapshot st' (ej_snapshot_id job))"
  using assms by (auto simp: finish_snapshot_def Let_def split: io_outcome.splits sum.splits)

lemma mark_exported_keys [simp]:
  "si_id (mark_exported ty nid now i) = si_id i" "si_suggestion_id (mark_exported ty nid now i) = si_suggestion_id i"
  by (simp_all add: mark_exported_def)

lemma jobs_ok_remove: "jobs_ok st jobs \<Longrightarrow> jobs_ok st (remove1 j jobs)"
  unfolding jobs_ok_def using notin_set_remove1 by (force simp: distinct_map dest: inj_on_subset [OF _ set_remove1_subset])

lemma jobs_apart: "jobs_ok st jobs \<Longrightarrow> job \<in> set jobs \<Longrightarrow> j \<in> set (remove1 job jobs) \<Longrightarrow> ej_snapshot_id j \<noteq> ej_snapshot_id job"
  unfolding jobs_ok_def by (auto simp: distinct_map inj_on_def)

lemma job_snapshot_found:
  assumes "life_inv w" "job \<in> set (w_jobs w)" "n \<in> set (st_snapshots (w_store w))" "sn_id n = ej_snapshot_id job"
  shows "sn_generation_status n \<noteq> ''ready''" "sn_suggestion_id n = xc_suggestion_id (ej_context job)"
    "sn_snapshot_type n = xc_snapshot_type (ej_context job)"
    "ej_relative_path job = export_path (sn_suggestion_id n) (sn_version n) (sn_snapshot_type n) (xc_exported_at (ej_context job))"
proof -
  obtain m where m: "m \<in> set (st_snapshots (w_store w))" "sn_id m = ej_snapshot_id job" "sn_generation_status m \<noteq> ''ready''"
    "sn_suggestion_id m = xc_suggestion_id (ej_context job)" "sn_snapshot_type m = xc_snapshot_type (ej_context job)"
    "ej_relative_path job = export_path (sn_suggestion_id m) (sn_version m) (sn_snapshot_type m) (xc_exported_at (ej_context job))"
    using assms(1,2) by (auto simp: life_inv_iff jobs_ok_def job_ok_def job_snapshot_ok_def)
  have "inj_on sn_id (set (st_snapshots (w_store w)))"
    using assms(1) by (simp add: life_inv_iff structure_ok_def keys_ok_def distinct_map)
  from inj_onD [OF this _ assms(3) m(1)] assms(4) m(2) have "n = m" by simp
  then show "sn_generation_status n \<noteq> ''ready''" "sn_suggestion_id n = xc_suggestion_id (ej_context job)"
    "sn_snapshot_type n = xc_snapshot_type (ej_context job)"
    "ej_relative_path job = export_path (sn_suggestion_id n) (sn_version n) (sn_snapshot_type n) (xc_exported_at (ej_context job))"
    using m by simp_all
qed

lemma fail_store:
  "fail_snapshot nid message st = st\<lparr>st_snapshots := update_where (\<lambda>n. sn_id n = nid)
     (\<lambda>n. n\<lparr>sn_generation_status := ''failed'', sn_generation_error := Some message\<rparr>) (st_snapshots st),
     st_export_log := st_export_log st\<rparr>"
  by (simp add: fail_snapshot_def update_snapshot_def)

lemma life_inv_fail:
  assumes "life_inv w" "job \<in> set (w_jobs w)"
  shows "life_inv (w\<lparr>w_store := fail_snapshot (ej_snapshot_id job) message (w_store w)\<rparr>)"
  unfolding fail_store using job_snapshot_found(1) [OF assms]
  by (intro life_inv_snapshots [OF assms(1)]) (simp add: soft_update_def snapshot_key_def)

lemma complete_ready_kept:
  assumes "life_inv w" "job \<in> set (w_jobs w)"
  shows "ready_kept (w_store w) (complete_snapshot tx_now job bytes (w_store w))"
proof -
  have "n \<in> set (st_snapshots (complete_snapshot tx_now job bytes (w_store w)))"
    if "n \<in> set (st_snapshots (w_store w))" "sn_generation_status n = ''ready''" for n
    using job_snapshot_found(1) [OF assms that(1)] that
    by (auto simp: complete_snapshot_def update_snapshot_def set_update_where Let_def)
  then show ?thesis unfolding ready_kept_def by blast
qed

lemma life_inv_complete:
  assumes "life_inv w" "job \<in> set (w_jobs w)"
  shows "life_inv (w\<lparr>w_store := complete_snapshot tx_now job bytes (w_store w), w_jobs := remove1 job (w_jobs w)\<rparr>)"
proof -
  let ?st = "w_store w" and ?st' = "complete_snapshot tx_now job bytes (w_store w)" and ?nid = "ej_snapshot_id job"
  let ?ty = "xc_snapshot_type (ej_context job)"
  define f where "f n = n\<lparr>sn_generation_status := ''ready'', sn_generation_error := None,
      sn_file_path := Some (ej_relative_path job), sn_file_size_bytes := Some bytes\<rparr>" for n :: suggestion_snapshot
  define g where "g n = (if sn_id n = ?nid then f n else n)" for n
  define m where "m i = (if si_id i \<in> set (ej_item_ids job)
      then mark_exported ?ty ?nid (xc_exported_at (ej_context job)) i else i)" for i
  have snaps: "st_snapshots ?st' = map g (st_snapshots ?st)" and items: "st_items ?st' = map m (st_items ?st)"
    and rest: "st_suggestions ?st' = st_suggestions ?st" "st_next_item_id ?st' = st_next_item_id ?st"
      "st_snapshot_items ?st' = st_snapshot_items ?st" "st_next_suggestion_id ?st' = st_next_suggestion_id ?st"
      "st_next_snapshot_id ?st' = st_next_snapshot_id ?st"
    by (simp_all add: complete_snapshot_def update_snapshot_def update_where_def g_def f_def m_def Let_def)
  have key: "snapshot_key (g n) = snapshot_key n" for n by (simp add: g_def f_def snapshot_key_def)
  have ikey: "item_key (m i) = item_key i" for i by (simp add: m_def item_key_def)
  have keys: "store_keys ?st' = store_keys ?st"
    by (simp add: store_keys_def snaps items key ikey rest)
  have inv: "structure_ok ?st" "jobs_ok ?st (w_jobs w)" "paths_ok ?st" "length (drafts (st_suggestions ?st)) \<le> 1"
    "\<forall>i \<in> set (st_items ?st). exported_ok ?st i" "refs_ok ?st"
    using assms(1) by (simp_all add: life_inv_iff structure_ok_def)
  note found = job_snapshot_found [OF assms]
  obtain n0 where n0: "n0 \<in> set (st_snapshots ?st)" "sn_id n0 = ?nid"
    using inv(2) assms(2) by (auto simp: jobs_ok_def job_ok_def job_snapshot_ok_def)
  have ready: "ready_snapshot ?st' ?nid (xc_suggestion_id (ej_context job)) ?ty"
    unfolding ready_snapshot_def snaps using n0 found [OF n0] by (intro bexI [of _ "g n0"]) (simp_all add: g_def f_def)
  note kept = complete_ready_kept [OF assms, of tx_now bytes]
  have ty: "?ty \<in> {''procurement'', ''restock''}" using inv(6) n0 found(3) [OF n0] by (auto simp: refs_ok_def)
  have owner: "si_suggestion_id i = xc_suggestion_id (ej_context job)" if "i \<in> set (st_items ?st)" "si_id i \<in> set (ej_item_ids job)" for i
    using inv(2) assms(2) that by (auto simp: jobs_ok_def job_ok_def job_items_ok_def)
  have "exported_ok ?st' (m i)" if "i \<in> set (st_items ?st)" for i
  proof -
    have i: "exported_ok ?st' i" using inv(5) exported_ok_identity [OF kept same_identity_refl] that by simp
    show ?thesis
    proof (cases "si_id i \<in> set (ej_item_ids job)")
      case True
      then show ?thesis using i ready owner [OF that True] ty by (auto simp: m_def mark_exported_def exported_ok_def)
    qed (simp add: m_def i)
  qed
  then have "\<forall>i \<in> set (st_items ?st'). exported_ok ?st' i" by (simp add: items)
  moreover have "paths_ok ?st'"
  proof -
    have "(sn_generation_status (g n) = ''ready'') = (sn_file_path (g n) \<noteq> None) \<and> (\<forall>p. sn_file_path (g n) = Some p \<longrightarrow>
        (\<exists>t. p = export_path (sn_suggestion_id (g n)) (sn_version (g n)) (sn_snapshot_type (g n)) t))"
      if n: "n \<in> set (st_snapshots ?st)" for n
    proof (cases "sn_id n = ?nid")
      case True
      then show ?thesis using found(4) [OF n True] by (auto simp: g_def f_def)
    next
      case False
      then show ?thesis using inv(3) n by (simp add: paths_ok_def g_def)
    qed
    then show ?thesis unfolding paths_ok_def snaps by simp
  qed
  moreover have "jobs_ok ?st' (remove1 job (w_jobs w))"
  proof (rule jobs_ok_kept [OF jobs_ok_remove [OF inv(2)]])
    fix j assume "j \<in> set (remove1 job (w_jobs w))"
    from jobs_apart [OF inv(2) assms(2) this] show "pending_kept ?st ?st' (ej_snapshot_id j)"
      unfolding pending_kept_def snaps by (auto simp: g_def)
  qed (simp_all add: rest items ikey)
  moreover have "structure_ok ?st'" using structure_ok_keys [OF keys] inv(1) by simp
  ultimately show ?thesis using inv(4) by (simp add: life_inv_iff rest)
qed

subsection \<open>All steps\<close>

lemma life_inv_world: "life_inv w \<Longrightarrow> life_inv (w\<lparr>w_db := db, w_files := files\<rparr>)"
  by (simp add: life_inv_iff)

lemma life_inv_jobs: "life_inv w \<Longrightarrow> life_inv (w\<lparr>w_jobs := remove1 j (w_jobs w)\<rparr>)"
  by (simp add: life_inv_iff jobs_ok_remove)

lemma life_inv_finish:
  assumes "life_inv w" "job \<in> set (w_jobs w)" "finish_snapshot tx_now outcome job (w_store w) = (st, result)"
  shows "life_inv (w\<lparr>w_store := st, w_jobs := remove1 job (w_jobs w)\<rparr>)"
  using assms(3)
proof (cases rule: finish_cases)
  case unchanged
  then show ?thesis using life_inv_jobs [OF assms(1), of job] by (simp add: life_inv_iff)
next
  case (failed message)
  then show ?thesis using life_inv_jobs [OF life_inv_fail [OF assms(1,2), of message], of job] by simp
next
  case (saved bytes)
  then show ?thesis using life_inv_complete [OF assms(1,2)] by simp
qed

lemma life_inv_step: "life_step storage_root w w' \<Longrightarrow> life_inv w \<Longrightarrow> life_inv w'"
proof (induction rule: life_step.induct)
  case (environment w db)
  then show ?case by (simp add: life_inv_iff)
next
  case (run w now demand_date triggered_by st r)
  then show ?case using life_inv_run by blast
next
  case (patch w listings p sid iid st out)
  then show ?case using life_inv_patch by blast
next
  case (recalculate w listings sid iid st out)
  then show ?case using life_inv_recalculate by blast
next
  case (archive now sid w st)
  then show ?case using life_inv_archive by blast
next
  case (delete sid w st)
  then show ?case using life_inv_delete by blast
next
  case (toggle names now user_id enabled w db st tout)
  then show ?case using life_inv_toggle [OF toggle(2,1)] by (simp add: life_inv_iff)
next
  case (prepare listings tx_now now req sid item_ids nt ty w st job)
  then show ?case using life_inv_prepare by blast
next
  case (finish job w tx_now outcome st result files)
  then show ?case using life_inv_finish [OF finish(4,1,2)] by (simp add: life_inv_iff)
next
  case (crash w job)
  then show ?case by (rule life_inv_jobs)
next
  case (download w tx_now now req nid st file_abs)
  then show ?case using life_inv_download by blast
next
  case (purge_files can_unlink now days w st files n)
  then show ?case using life_inv_log [OF purge_files(2)] purge_exports_frame [OF purge_files(1)] by (simp add: life_inv_iff)
next
  case (purge_stuck now hours w st n)
  then show ?case using life_inv_stuck by blast
qed

lemma life_inv_initial: "life_inv (initial_world db)"
  by (simp add: initial_world_def life_inv_iff empty_store_def structure_ok_def keys_ok_def refs_ok_def versions_ok_def
      versions_of_def contents_ok_def paths_ok_def jobs_ok_def)

lemma life_inv_steps: "(life_step storage_root)\<^sup>*\<^sup>* w w' \<Longrightarrow> life_inv w \<Longrightarrow> life_inv w'"
  by (induction rule: rtranclp_induct) (auto intro: life_inv_step)

lemma life_inv_reachable: "life_reachable storage_root db w \<Longrightarrow> life_inv w"
  unfolding life_reachable_def by (rule life_inv_steps [OF _ life_inv_initial])

subsection \<open>Exports only accumulate\<close>

definition exports_kept :: "suggestion_store \<Rightarrow> suggestion_store \<Rightarrow> bool" where
  "exports_kept st st' \<longleftrightarrow> prefix (map snapshot_key (st_snapshots st)) (map snapshot_key (st_snapshots st'))
     \<and> prefix (st_snapshot_items st) (st_snapshot_items st') \<and> ready_kept st st'"

lemma exports_kept_refl [simp]: "exports_kept st st"
  by (simp add: exports_kept_def ready_kept_same)

lemma exports_kept_trans: "exports_kept st st1 \<Longrightarrow> exports_kept st1 st2 \<Longrightarrow> exports_kept st st2"
  unfolding exports_kept_def by (elim conjE, intro conjI) (erule (1) prefix_order.trans ready_kept_trans)+

lemma exports_kept_same:
  "st_snapshots st' = st_snapshots st \<Longrightarrow> st_snapshot_items st' = st_snapshot_items st \<Longrightarrow> exports_kept st st'"
  by (simp add: exports_kept_def ready_kept_same)

lemma exports_kept_soft:
  assumes "\<And>n. n \<in> set (st_snapshots st) \<Longrightarrow> p n \<Longrightarrow> soft_update f n"
  shows "exports_kept st (st\<lparr>st_snapshots := update_where p f (st_snapshots st), st_export_log := el\<rparr>)"
proof -
  let ?g = "\<lambda>n. if p n then f n else n"
  let ?st' = "st\<lparr>st_snapshots := update_where p f (st_snapshots st), st_export_log := el\<rparr>"
  have g: "soft_update ?g n" if "n \<in> set (st_snapshots st)" for n
    using assms that by (simp add: soft_update_def)
  have st': "st_snapshots ?st' = map ?g (st_snapshots st)" by (simp add: update_where_def)
  have "map snapshot_key (st_snapshots ?st') = map snapshot_key (st_snapshots st)" by (rule soft_map(1) [OF g st'])
  moreover have "ready_kept st ?st'" by (rule soft_map(2) [OF g st'])
  ultimately show ?thesis unfolding exports_kept_def by (simp only: prefix_order.refl) simp
qed

lemma exports_kept_finish:
  assumes "life_inv w" "job \<in> set (w_jobs w)" "finish_snapshot tx_now outcome job (w_store w) = (st, result)"
  shows "exports_kept (w_store w) st"
  using assms(3)
proof (cases rule: finish_cases)
  case (failed message)
  show ?thesis
    unfolding failed(1) fail_store using job_snapshot_found(1) [OF assms(1,2)]
    by (intro exports_kept_soft) (simp add: soft_update_def snapshot_key_def)
next
  case (saved bytes)
  have "map snapshot_key (st_snapshots st) = map snapshot_key (st_snapshots (w_store w))"
    unfolding saved complete_snapshot_def update_snapshot_def Let_def by (simp add: map_update_where snapshot_key_def)
  then show ?thesis
    using complete_ready_kept [OF assms(1,2), of tx_now bytes]
    by (simp add: exports_kept_def saved(1)) (simp add: complete_snapshot_def update_snapshot_def Let_def)
qed simp

lemma exports_kept_step: "life_step storage_root w w' \<Longrightarrow> life_inv w \<Longrightarrow> exports_kept (w_store w) (w_store w')"
proof (induction rule: life_step.induct)
  case (run w now demand_date triggered_by st r)
  from run(1) show ?case
    by (cases rule: run_engine_cases)
      (auto simp: persist_suggestion_def archive_active_def Let_def intro!: exports_kept_same)
next
  case (patch w listings p sid iid st out)
  from patch(1) show ?case by (cases rule: patch_item_cases) (simp add: update_item_def exports_kept_same)
next
  case (recalculate w listings sid iid st out)
  from recalculate(1) show ?case by (cases rule: recalculate_item_cases) (simp add: update_item_def exports_kept_same)
next
  case (archive now sid w st)
  then show ?case by (auto simp: archive_suggestion_def exports_kept_same split: option.splits if_splits)
next
  case (delete sid w st)
  then show ?case by (auto simp: delete_suggestion_def exports_kept_same split: option.splits if_splits)
next
  case (toggle names now user_id enabled w db st tout)
  then show ?case using patch_toggle_result(1) [OF toggle(1)] by (simp add: exports_kept_same)
next
  case (prepare listings tx_now now req sid item_ids nt ty w st job)
  from prepare(1) show ?case by (cases rule: prepare_cases) (auto simp: exports_kept_def ready_kept_def)
next
  case (finish job w tx_now outcome st result files)
  then show ?case using exports_kept_finish by simp
next
  case (download w tx_now now req nid st file_abs)
  show ?case
    by (rule download_store [OF download(1)]) (simp add: exports_kept_soft soft_update_def snapshot_key_def)
next
  case (purge_files can_unlink now days w st files k)
  then show ?case using purge_exports_frame [OF purge_files(1)] by (simp add: same_rows_def exports_kept_same)
next
  case (purge_stuck now hours w st k)
  have "exports_kept (w_store w) ((w_store w)\<lparr>st_snapshots := update_where (stuck_generating now hours)
     (\<lambda>n. n\<lparr>sn_generation_status := ''failed'', sn_generation_error := Some (stuck_text hours)\<rparr>) (st_snapshots (w_store w)),
     st_export_log := st_export_log (w_store w)\<rparr>)"
    by (rule exports_kept_soft) (simp add: stuck_generating_def soft_update_def snapshot_key_def)
  then show ?case using stuck_store [OF purge_stuck(1)] by auto
qed simp_all

lemma exports_kept_steps:
  assumes "(life_step storage_root)\<^sup>*\<^sup>* w w'" "life_inv w"
  shows "exports_kept (w_store w) (w_store w')"
  using assms(1)
proof (induction rule: rtranclp_induct)
  case (step y z)
  from exports_kept_trans [OF step.IH exports_kept_step [OF step.hyps(2) life_inv_steps [OF step.hyps(1) assms(2)]]]
  show ?case .
qed simp

subsection \<open>Export files\<close>

lemma snapshot_version:
  assumes "versions_ok st" "n \<in> set (st_snapshots st)"
  shows "1 \<le> sn_version n"
    "n' \<in> set (st_snapshots st) \<Longrightarrow> sn_suggestion_id n' = sn_suggestion_id n \<Longrightarrow> sn_snapshot_type n' = sn_snapshot_type n \<Longrightarrow>
       sn_version n' = sn_version n \<Longrightarrow> n' = n"
proof -
  let ?F = "filter (\<lambda>m. sn_suggestion_id m = sn_suggestion_id n \<and> sn_snapshot_type m = sn_snapshot_type n) (st_snapshots st)"
  let ?k = "length (versions_of (st_snapshots st) (sn_suggestion_id n) (sn_snapshot_type n))"
  have vs: "map sn_version ?F = map int [1..<Suc ?k]"
    using assms(1) unfolding versions_ok_def versions_of_def by (simp del: upt_Suc)
  have n: "n \<in> set ?F" using assms(2) by simp
  then have "sn_version n \<in> set (map sn_version ?F)" by (simp only: set_map) (rule imageI)
  then have "sn_version n \<in> set (map int [1..<Suc ?k])" by (simp only: vs)
  then show "1 \<le> sn_version n" by auto
  have "distinct (map sn_version ?F)" unfolding vs by (simp add: distinct_map del: upt_Suc)
  then have inj: "inj_on sn_version (set ?F)" by (simp add: distinct_map)
  show "n' = n" if "n' \<in> set (st_snapshots st)" "sn_suggestion_id n' = sn_suggestion_id n"
    "sn_snapshot_type n' = sn_snapshot_type n" "sn_version n' = sn_version n"
    using that n by (intro inj_onD [OF inj]) simp_all
qed

lemma export_path_inj:
  assumes "export_path sid v ty t = export_path sid' v' ty' t'" "ty \<in> {''procurement'', ''restock''}" "ty' \<in> {''procurement'', ''restock''}"
    "0 \<le> sid" "0 \<le> sid'" "0 \<le> v" "0 \<le> v'"
  shows "ty = ty' \<and> sid = sid' \<and> v = v'"
proof -
  have plain: "CHR ''/'' \<notin> set ty" "CHR ''/'' \<notin> set ty'" "CHR ''_'' \<notin> set ty" "CHR ''_'' \<notin> set ty'" using assms(2,3) by auto
  have "last (path_parts (export_path sid v ty t)) = last (path_parts (export_path sid' v' ty' t'))" by (simp only: assms(1))
  then have "build_filename sid v t ty = build_filename sid' v' t' ty'"
    by (simp only: export_path_def export_path_parts [OF plain(1)] export_path_parts [OF plain(2)] last.simps list.simps if_False if_True simp_thms)
  from build_filename_inj [OF this plain(3,4) assms(4-7)] show ?thesis .
qed

subsection \<open>A world with an export\<close>

lemma demo_prepared:
  "\<exists>st st' job. run_engine demo_engine_db (beijing_midnight 100) 110 ''manual'' empty_store = Inr (st, Some 1)
     \<and> prepare_snapshot [] 0 0 demo_request 1 [1] None ''restock'' st = Inr (st', job)
     \<and> map si_id (st_items st') = [1] \<and> st_snapshots st = []
     \<and> cs_restock_regions (xc_global_config (ej_context job)) = [] \<and> cs_eu_countries (xc_global_config (ej_context job)) = []"
proof -
  obtain st where run: "run_engine demo_engine_db (beijing_midnight 100) 110 ''manual'' empty_store = Inr (st, Some 1)"
    and q: "map si_total_qty (st_items st) = [25]" using demo_run by (elim exE conjE)
  from run obtain config allowed items where c: "t_global_config demo_engine_db = Some config"
    and ok: "\<forall>i \<in> set items. item_ok allowed i" and rows: "st_items st = st_items empty_store @ new_rows empty_store items"
    and p: "(st, 1) = persist_suggestion (beijing_midnight 100) (engine_config_snapshot config (beijing_midnight 100) (Some 110)) ''manual''
       items (archive_active (beijing_midnight 100) empty_store)"
    by (rule run_engine_stored)
  have "length items = 1" using q arg_cong [OF rows, of length] length_new_rows [of empty_store items]
    by (auto simp: empty_store_def dest: arg_cong [of _ _ length])
  then obtain v where v: "items = [v]" by (cases items) auto
  have item: "st_items st = [new_item 1 1 v]" unfolding rows v by (simp add: new_rows_def empty_store_def)
  then have "0 < si_total_qty (new_item 1 1 v)" using q by simp
  moreover have "item_ok allowed (new_item 1 1 v)" using ok v by simp
  ultimately have valid: "restock_item_errors (new_item 1 1 v) = []" using item_ok_exportable by blast
  obtain sugg where sugg: "st_suggestions st = [sugg]" "sg_id sugg = 1" "sg_status sugg = ''draft''"
    "sg_global_config_snapshot sugg = engine_config_snapshot config (beijing_midnight 100) (Some 110)"
    using p by (auto simp: persist_suggestion_def archive_active_def empty_store_def update_where_def Let_def)
  have cfg: "gc_restock_regions config = []" "gc_eu_countries config = []" using c by (auto simp: demo_engine_db_def)
  have snaps: "st_snapshots st = []" using p by (auto simp: persist_suggestion_def archive_active_def empty_store_def Let_def)
  have sel: "selected_items st 1 [1] = [new_item 1 1 v]" by (simp add: selected_items_def item)
  have "find_suggestion st 1 = Some sugg" using sugg by (simp add: find_suggestion_def)
  then have "\<exists>st' job. prepare_snapshot [] 0 0 demo_request 1 [1] None ''restock'' st = Inr (st', job)
      \<and> map si_id (st_items st') = [1]
      \<and> cs_restock_regions (xc_global_config (ej_context job)) = [] \<and> cs_eu_countries (xc_global_config (ej_context job)) = []"
    by (simp add: prepare_snapshot_def sugg sel validate_restock_snapshot_items_def valid Let_def engine_config_snapshot_def cfg item)
  then show ?thesis using run snaps by (elim exE conjE) (intro exI conjI)
qed

lemma demo_exported:
  "\<exists>w n. life_reachable [''exports''] demo_engine_db w \<and> st_snapshots (w_store w) = [n] \<and> sn_generation_status n = ''ready''
     \<and> map si_restock_export_status (st_items (w_store w)) = [''exported''] \<and> w_jobs w = [] \<and> length (w_files w) = 1"
proof -
  let ?r = "[''exports'']" and ?w0 = "initial_world demo_engine_db"
  obtain st st' job where run: "run_engine demo_engine_db (beijing_midnight 100) 110 ''manual'' empty_store = Inr (st, Some 1)"
    and prep: "prepare_snapshot [] 0 0 demo_request 1 [1] None ''restock'' st = Inr (st', job)"
    and ids: "map si_id (st_items st') = [1]" and snaps: "st_snapshots st = []"
    and cfg: "cs_restock_regions (xc_global_config (ej_context job)) = []" "cs_eu_countries (xc_global_config (ej_context job)) = []"
    using demo_prepared by (elim exE conjE)
  let ?w1 = "?w0\<lparr>w_store := st\<rparr>" let ?w2 = "?w1\<lparr>w_store := st', w_jobs := [job]\<rparr>"
  have s1: "life_step ?r ?w0 ?w1" using run by (intro life_step.run) (simp add: initial_world_def)
  have s2: "life_step ?r ?w1 ?w2"
    using life_step.prepare [of "[]" 0 0 demo_request 1 "[1]" None "''restock''" ?w1 st' job ?r] prep
    by (simp add: initial_world_def)
  from prep obtain n where st': "st_snapshots st' = [n]" "sn_id n = ej_snapshot_id job" "ej_item_ids job = [1]"
    "xc_snapshot_type (ej_context job) = ''restock''"
    by (cases rule: prepare_cases) (auto simp: snaps snapshot_key_def)
  have wb: "\<exists>wb. build_workbook (ej_context job) = Inr wb"
    by (simp add: build_workbook_def st' build_restock_workbook_def build_meta_sheet_def cfg join_texts_def Let_def)
  then obtain result where fin: "finish_snapshot 0 (Saved 10) job st' = (complete_snapshot 0 job 10 st', Inr result)"
    by (auto simp: finish_snapshot_def Let_def)
  let ?f = "resolve_path (path_join ?r (ej_relative_path job))"
  let ?w3 = "?w2\<lparr>w_store := complete_snapshot 0 job 10 st', w_jobs := [], w_files := [?f]\<rparr>"
  have s3: "life_step ?r ?w2 ?w3"
    using life_step.finish [of job ?w2 0 "Saved 10" "complete_snapshot 0 job 10 st'" "Inr result" "[?f]" ?r] fin
    by (simp add: initial_world_def)
  have "(life_step ?r)\<^sup>*\<^sup>* ?w0 ?w3"
    by (rule rtranclp.rtrancl_into_rtrancl [of "life_step ?r", OF rtranclp.rtrancl_into_rtrancl [of "life_step ?r",
        OF r_into_rtranclp [of "life_step ?r", OF s1] s2] s3])
  then have "life_reachable ?r demo_engine_db ?w3" unfolding life_reachable_def .
  moreover obtain i where i: "st_items st' = [i]" "si_id i = 1" using ids by auto
  have "map si_restock_export_status (st_items (w_store ?w3)) = [''exported'']"
    by (simp add: complete_snapshot_def update_snapshot_def update_where_def i st' mark_exported_def Let_def)
  moreover have "\<exists>n'. st_snapshots (w_store ?w3) = [n'] \<and> sn_generation_status n' = ''ready''"
    by (simp add: complete_snapshot_def update_snapshot_def update_where_def st' Let_def)
  moreover have "w_jobs ?w3 = []" "length (w_files ?w3) = 1" by simp_all
  ultimately show ?thesis by (elim exE conjE) (intro exI conjI)
qed

section \<open>Properties\<close>

text \<open>
  C3: whatever the order in which engine runs, edits, exports, archiving, deleting, switch
  changes, crashes and purges interleave: there is at most one draft; the versions of the
  exports of a suggestion are 1, 2, 3, ... per kind; an item marked as exported refers to a
  ready export of its own suggestion and of that kind; and the count stored with an export is
  the number of its frozen rows.
\<close>

theorem lifecycle_invariant:
  assumes "life_reachable storage_root db w"
  defines "st \<equiv> w_store w"
  shows "length (filter (\<lambda>s. sg_status s = ''draft'') (st_suggestions st)) \<le> 1
    \<and> (\<forall>sid ty. let vs = map sn_version (filter (\<lambda>n. sn_suggestion_id n = sid \<and> sn_snapshot_type n = ty) (st_snapshots st))
         in vs = map int [1..<Suc (length vs)])
    \<and> (\<forall>i \<in> set (st_items st). si_restock_export_status i = ''exported'' \<longrightarrow>
         (\<exists>n \<in> set (st_snapshots st). si_restock_exported_snapshot_id i = Some (sn_id n) \<and> sn_suggestion_id n = si_suggestion_id i
            \<and> sn_snapshot_type n = ''restock'' \<and> sn_generation_status n = ''ready''))
    \<and> (\<forall>i \<in> set (st_items st). si_procurement_export_status i = ''exported'' \<longrightarrow>
         (\<exists>n \<in> set (st_snapshots st). si_procurement_exported_snapshot_id i = Some (sn_id n) \<and> sn_suggestion_id n = si_suggestion_id i
            \<and> sn_snapshot_type n = ''procurement'' \<and> sn_generation_status n = ''ready''))
    \<and> (\<forall>n \<in> set (st_snapshots st). sn_item_count n = int (length (filter (\<lambda>i. ni_snapshot_id i = sn_id n) (st_snapshot_items st))))"
proof -
  have inv: "length (drafts (st_suggestions st)) \<le> 1" "versions_ok st" "contents_ok st" "\<forall>i \<in> set (st_items st). exported_ok st i"
    using life_inv_reachable [OF assms(1)] by (simp_all add: life_inv_iff structure_ok_def st_def)
  show ?thesis
    using inv unfolding versions_ok_def versions_of_def contents_ok_def exported_ok_def ready_snapshot_def Let_def
    by (intro conjI) (blast | force)+
qed

theorem lifecycle_invariant_witness:
  "\<exists>w i n. life_reachable [''exports''] demo_engine_db w \<and> i \<in> set (st_items (w_store w)) \<and> n \<in> set (st_snapshots (w_store w))
     \<and> si_restock_exported_snapshot_id i = Some (sn_id n) \<and> sn_generation_status n = ''ready''"
proof -
  obtain w n where w: "life_reachable [''exports''] demo_engine_db w"
    and e: "map si_restock_export_status (st_items (w_store w)) = [''exported'']"
    using demo_exported by (elim exE conjE)
  then obtain i where i: "i \<in> set (st_items (w_store w))" "si_restock_export_status i = ''exported''" by auto
  from lifecycle_invariant [OF w] i obtain n where "n \<in> set (st_snapshots (w_store w))"
    "si_restock_exported_snapshot_id i = Some (sn_id n)" "sn_generation_status n = ''ready''" by (elim conjE) blast
  then show ?thesis using w i(1) by (intro exI conjI)
qed

text \<open>
  C4: what was exported stays. From any reachable state, whatever happens later, the frozen
  rows of earlier exports and the identity, version, item count and configuration of every
  snapshot are kept, in order; a ready export stays ready and keeps its file path.
\<close>

theorem exports_immutable:
  assumes "life_reachable storage_root db w" "(life_step storage_root)\<^sup>*\<^sup>* w w'"
  shows "prefix (st_snapshot_items (w_store w)) (st_snapshot_items (w_store w'))
    \<and> prefix (map snapshot_key (st_snapshots (w_store w))) (map snapshot_key (st_snapshots (w_store w')))
    \<and> (\<forall>n \<in> set (st_snapshots (w_store w)). sn_generation_status n = ''ready'' \<longrightarrow>
         (\<exists>n' \<in> set (st_snapshots (w_store w')). snapshot_key n' = snapshot_key n \<and> sn_generation_status n' = ''ready''
            \<and> sn_file_path n' = sn_file_path n))"
  using exports_kept_steps [OF assms(2) life_inv_reachable [OF assms(1)]] by (simp add: exports_kept_def ready_kept_def)

theorem exports_immutable_witness:
  "\<exists>w st k n'. life_reachable [''exports''] demo_engine_db w \<and> length (st_snapshots (w_store w)) = 1
     \<and> purge_stuck_generating (beijing_midnight 200) 1 (w_store w) = (st, k)
     \<and> n' \<in> set (st_snapshots st) \<and> sn_generation_status n' = ''ready''"
proof -
  obtain w n where w: "life_reachable [''exports''] demo_engine_db w" and n: "st_snapshots (w_store w) = [n]"
    "sn_generation_status n = ''ready''" using demo_exported by (elim exE conjE)
  obtain st k where p: "purge_stuck_generating (beijing_midnight 200) 1 (w_store w) = (st, k)" by (rule prod.exhaust)
  have "(life_step [''exports''])\<^sup>*\<^sup>* w (w\<lparr>w_store := st\<rparr>)"
    by (rule r_into_rtranclp [of "life_step [''exports'']", OF life_step.purge_stuck [OF p]])
  from exports_immutable [OF w this] n obtain n' where "n' \<in> set (st_snapshots st)" "sn_generation_status n' = ''ready''" by auto
  then show ?thesis using w n p by (intro exI conjI) simp_all
qed

text \<open>
  Two ready exports never share a file: equal stored paths belong to the same snapshot,
  even when the exports ran in the same second.
\<close>

theorem export_files_distinct:
  assumes "life_reachable storage_root db w" "n \<in> set (st_snapshots (w_store w))" "n' \<in> set (st_snapshots (w_store w))"
    "sn_file_path n = Some p" "sn_file_path n' = Some p"
  shows "n = n'"
proof -
  let ?st = "w_store w"
  have inv: "keys_ok ?st" "refs_ok ?st" "versions_ok ?st" "paths_ok ?st"
    using life_inv_reachable [OF assms(1)] by (simp_all add: life_inv_iff structure_ok_def)
  have ok: "0 \<le> sn_suggestion_id m \<and> sn_snapshot_type m \<in> {''procurement'', ''restock''} \<and> 0 \<le> sn_version m"
    if "m \<in> set (st_snapshots ?st)" for m
    using that inv(1,2) snapshot_version(1) [OF inv(3) that] by (force simp: keys_ok_def refs_ok_def)
  have path: "\<exists>t. p = export_path (sn_suggestion_id m) (sn_version m) (sn_snapshot_type m) t"
    if "m \<in> set (st_snapshots ?st)" "sn_file_path m = Some p" for m
    using inv(4) that by (simp add: paths_ok_def)
  obtain t t' where p: "p = export_path (sn_suggestion_id n) (sn_version n) (sn_snapshot_type n) t"
    "p = export_path (sn_suggestion_id n') (sn_version n') (sn_snapshot_type n') t'"
    using path [OF assms(2,4)] path [OF assms(3,5)] by (elim exE)
  have "sn_snapshot_type n = sn_snapshot_type n' \<and> sn_suggestion_id n = sn_suggestion_id n' \<and> sn_version n = sn_version n'"
    using ok [OF assms(2)] ok [OF assms(3)] by (intro export_path_inj [OF trans [OF p(1) [symmetric] p(2)]]) simp_all
  then show ?thesis using snapshot_version(2) [OF inv(3) assms(3,2)] by simp
qed

theorem export_files_distinct_witness:
  "\<exists>w n p. life_reachable [''exports''] demo_engine_db w \<and> n \<in> set (st_snapshots (w_store w)) \<and> sn_file_path n = Some p
     \<and> {m \<in> set (st_snapshots (w_store w)). sn_file_path m = Some p} = {n}"
proof -
  obtain w n where w: "life_reachable [''exports''] demo_engine_db w" and n: "st_snapshots (w_store w) = [n]"
    "sn_generation_status n = ''ready''" using demo_exported by (elim exE conjE)
  have "sn_file_path n \<noteq> None" using life_inv_reachable [OF w] n by (simp add: life_inv_iff paths_ok_def)
  then obtain p where p: "sn_file_path n = Some p" by auto
  have mem: "n \<in> set (st_snapshots (w_store w))" using n by simp
  have "m = n" if "m \<in> set (st_snapshots (w_store w))" "sn_file_path m = Some p" for m
    using export_files_distinct [OF w that(1) mem that(2) p] .
  then have "{m \<in> set (st_snapshots (w_store w)). sn_file_path m = Some p} = {n}" using mem p by blast
  then show ?thesis using w mem p by (intro exI conjI)
qed

end
