(* ===== verification/Mapping_Config.thy ===== *)
theory Mapping_Config
  imports Sku_Mapping Sql_Like Zipcode_Matcher
begin

text \<open>
  The part of \<^verbatim>\<open>api/config.py\<close> and \<^verbatim>\<open>schemas/config.py\<close> that maintains what the SKU
  mapping of the engine reads: mapping rules with their components, and the groups of SKUs
  that share stock. A request is one transaction, so an error leaves the state as it was; a
  body its schema rejects is answered by 422. Identifiers come from a sequence per table.
\<close>

record config_state =
  cf_db :: engine_db
  cf_next_rule_id :: int
  cf_next_component_id :: int
  cf_next_group_id :: int
  cf_next_zipcode_rule_id :: int

subsection \<open>Request bodies of mapping rules\<close>

record component_in =
  mi_group_no :: int
  mi_inventory_sku :: string
  mi_quantity :: int

record rule_in =
  rb_commodity_sku :: string
  rb_enabled :: bool
  rb_remark :: "string option"
  rb_components :: "component_in list"

text \<open>A text field with length bounds whose validator strips it and refuses the empty text.\<close>

definition sku_field :: "string \<Rightarrow> string option" where
  "sku_field value =
     (if value = [] \<or> length value > 100 then None
      else let text = py_strip value in if text = [] then None else Some text)"

definition remark_field :: "string option \<Rightarrow> string option option" where
  "remark_field value =
     (case value of None \<Rightarrow> Some None
      | Some s \<Rightarrow> if length s > 1000 then None else Some (str_or (Some (py_strip s)) None))"

definition component_schema :: "component_in \<Rightarrow> component_in option" where
  "component_schema c =
     (if 1 \<le> mi_group_no c \<and> mi_group_no c \<le> 999999 \<and> 1 \<le> mi_quantity c \<and> mi_quantity c \<le> 999999
      then map_option (\<lambda>sku. c\<lparr>mi_inventory_sku := sku\<rparr>) (sku_field (mi_inventory_sku c)) else None)"

fun component_list_schema :: "component_in list \<Rightarrow> component_in list option" where
  "component_list_schema [] = Some []"
| "component_list_schema (c # cs) =
     (case (component_schema c, component_list_schema cs) of (Some d, Some ds) \<Rightarrow> Some (d # ds) | _ \<Rightarrow> None)"

definition validate_components :: "component_in list \<Rightarrow> bool" where
  "validate_components cs \<longleftrightarrow> distinct (map mi_inventory_sku cs)"

definition components_field :: "component_in list \<Rightarrow> component_in list option" where
  "components_field cs =
     (if cs = [] then None
      else case component_list_schema cs of None \<Rightarrow> None
           | Some ds \<Rightarrow> if validate_components ds then Some ds else None)"

definition rule_schema :: "rule_in \<Rightarrow> rule_in option" where
  "rule_schema body =
     (case (sku_field (rb_commodity_sku body), remark_field (rb_remark body), components_field (rb_components body)) of
        (Some sku, Some remark, Some cs) \<Rightarrow>
          Some \<lparr>rb_commodity_sku = sku, rb_enabled = rb_enabled body, rb_remark = remark, rb_components = cs\<rparr>
      | _ \<Rightarrow> None)"

text \<open>A patch: a missing field is \<open>None\<close>; \<open>pb_remark_set\<close> is \<^verbatim>\<open>"remark" in model_fields_set\<close>.\<close>

record rule_patch =
  pb_commodity_sku :: "string option"
  pb_enabled :: "bool option"
  pb_remark_set :: bool
  pb_remark :: "string option"
  pb_components :: "component_in list option"

definition optional_field :: "('a \<Rightarrow> 'b option) \<Rightarrow> 'a option \<Rightarrow> 'b option option" where
  "optional_field f value = (case value of None \<Rightarrow> Some None | Some x \<Rightarrow> map_option Some (f x))"

definition rule_patch_schema :: "rule_patch \<Rightarrow> rule_patch option" where
  "rule_patch_schema p =
     (case (optional_field sku_field (pb_commodity_sku p), remark_field (pb_remark p),
            optional_field components_field (pb_components p)) of
        (Some sku, Some remark, Some cs) \<Rightarrow> Some (p\<lparr>pb_commodity_sku := sku, pb_remark := remark, pb_components := cs\<rparr>)
      | _ \<Rightarrow> None)"

subsection \<open>Mapping rules\<close>

definition formula_or :: string where
  "formula_or = utf8 [32, 230, 136, 150, 32]"

definition mapping_formula :: "engine_db \<Rightarrow> sku_mapping_rule \<Rightarrow> string" where
  "mapping_formula db rule =
     (let components = rule_component_rows db rule;
          groups = foldl (\<lambda>d c. dict_set (smc_group_no c) (dict_get_or d (smc_group_no c) [] @ [c]) d) [] components;
          group_parts = map (\<lambda>group_no. py_join ''+'' (map (\<lambda>c. int_to_string (smc_quantity c) @ ''*'' @ smc_inventory_sku c)
             (dict_get_or groups group_no []))) (sort (dict_keys groups))
      in smr_commodity_sku rule @ ''='' @ py_join formula_or group_parts)"

record rule_out =
  mo_rule :: sku_mapping_rule
  mo_components :: "sku_mapping_component list"
  mo_formula_preview :: string
  mo_component_count :: int

definition mapping_rule_out :: "engine_db \<Rightarrow> sku_mapping_rule \<Rightarrow> rule_out" where
  "mapping_rule_out db rule =
     \<lparr>mo_rule = rule, mo_components = rule_component_rows db rule, mo_formula_preview = mapping_formula db rule,
      mo_component_count = int (length (rule_component_rows db rule))\<rparr>"

definition validate_mapping_unique :: "engine_db \<Rightarrow> sku \<Rightarrow> int option \<Rightarrow> unit res" where
  "validate_mapping_unique db commodity_sku current_rule_id =
     (case find (\<lambda>r. smr_commodity_sku r = commodity_sku) (t_sku_mapping_rule db) of
        None \<Rightarrow> return ()
      | Some existing_rule \<Rightarrow> if Some (smr_id existing_rule) \<noteq> current_rule_id then raise ConflictError else return ())"

text \<open>The check of \<^verbatim>\<open>_replace_mapping_components\<close>: no two components of a group share stock.\<close>

fun components_apart :: "physical_sku_resolver \<Rightarrow> (int, string list) dict \<Rightarrow> component_in list \<Rightarrow> bool" where
  "components_apart resolver seen_by_group [] = True"
| "components_apart resolver seen_by_group (c # cs) =
     (let normalized_sku = resolve_inventory_sku resolver (mi_inventory_sku c);
          group_seen = dict_get_or seen_by_group (mi_group_no c) []
      in normalized_sku \<notin> set group_seen
         \<and> components_apart resolver (dict_set (mi_group_no c) (normalized_sku # group_seen) seen_by_group) cs)"

definition new_components :: "int \<Rightarrow> int \<Rightarrow> component_in list \<Rightarrow> sku_mapping_component list" where
  "new_components next_id rule_id cs =
     map (\<lambda>(n, c). \<lparr>smc_id = next_id + int n, smc_rule_id = rule_id, smc_group_no = mi_group_no c,
                     smc_inventory_sku = mi_inventory_sku c, smc_quantity = mi_quantity c\<rparr>) (enumerate 0 cs)"

definition replace_mapping_components :: "int \<Rightarrow> component_in list \<Rightarrow> config_state \<Rightarrow> config_state res" where
  "replace_mapping_components rule_id components cf =
     (let db = cf_db cf
      in if \<not> components_apart (load_physical_sku_resolver db) [] components then raise ValidationFailed
         else return (cf\<lparr>cf_db := db\<lparr>t_sku_mapping_component :=
                  filter (\<lambda>c. smc_rule_id c \<noteq> rule_id) (t_sku_mapping_component db)
                  @ new_components (cf_next_component_id cf) rule_id components\<rparr>,
                cf_next_component_id := cf_next_component_id cf + int (length components)\<rparr>))"

definition insert_mapping_rule :: "rule_in \<Rightarrow> config_state \<Rightarrow> config_state" where
  "insert_mapping_rule body cf =
     cf\<lparr>cf_db := (cf_db cf)\<lparr>t_sku_mapping_rule := t_sku_mapping_rule (cf_db cf) @
           [\<lparr>smr_id = cf_next_rule_id cf, smr_commodity_sku = rb_commodity_sku body, smr_enabled = rb_enabled body,
             smr_remark = rb_remark body\<rparr>]\<rparr>,
        cf_next_rule_id := cf_next_rule_id cf + 1\<rparr>"

definition update_mapping_rule :: "int \<Rightarrow> (sku_mapping_rule \<Rightarrow> sku_mapping_rule) \<Rightarrow> config_state \<Rightarrow> config_state" where
  "update_mapping_rule rule_id f cf =
     cf\<lparr>cf_db := (cf_db cf)\<lparr>t_sku_mapping_rule :=
        map (\<lambda>r. if smr_id r = rule_id then f r else r) (t_sku_mapping_rule (cf_db cf))\<rparr>\<rparr>"

definition rule_result :: "int \<Rightarrow> config_state \<Rightarrow> (config_state \<times> rule_out) res" where
  "rule_result rule_id cf =
     (case find (\<lambda>r. smr_id r = rule_id) (t_sku_mapping_rule (cf_db cf)) of
        None \<Rightarrow> raise NoResultFound
      | Some rule \<Rightarrow> return (cf, mapping_rule_out (cf_db cf) rule))"

definition create_sku_mapping_rule :: "rule_in \<Rightarrow> config_state \<Rightarrow> (config_state \<times> rule_out) res" where
  "create_sku_mapping_rule body0 cf =
     (case rule_schema body0 of
        None \<Rightarrow> raise (HTTPException 422)
      | Some body \<Rightarrow>
          bind_res (validate_mapping_unique (cf_db cf) (rb_commodity_sku body) None)
            (\<lambda>_. let rule_id = cf_next_rule_id cf
                  in bind_res (replace_mapping_components rule_id (rb_components body) (insert_mapping_rule body cf))
                       (rule_result rule_id)))"

definition patch_sku_mapping_rule :: "rule_patch \<Rightarrow> int \<Rightarrow> config_state \<Rightarrow> (config_state \<times> rule_out) res" where
  "patch_sku_mapping_rule patch0 rule_id cf =
     (case rule_patch_schema patch0 of
        None \<Rightarrow> raise (HTTPException 422)
      | Some p \<Rightarrow>
          if rule_id < 1 then raise (HTTPException 422)
          else case find (\<lambda>r. smr_id r = rule_id) (t_sku_mapping_rule (cf_db cf)) of
            None \<Rightarrow> raise NotFound
          | Some rule \<Rightarrow>
              let new_commodity_sku = (case pb_commodity_sku p of None \<Rightarrow> smr_commodity_sku rule | Some s \<Rightarrow> s)
              in bind_res (validate_mapping_unique (cf_db cf) new_commodity_sku (Some rule_id))
                (\<lambda>_. let cf1 = update_mapping_rule rule_id (\<lambda>r. r\<lparr>smr_commodity_sku := new_commodity_sku,
                            smr_enabled := (case pb_enabled p of None \<Rightarrow> smr_enabled r | Some b \<Rightarrow> b),
                            smr_remark := (if pb_remark_set p then pb_remark p else smr_remark r)\<rparr>) cf
                      in case pb_components p of
                           None \<Rightarrow> rule_result rule_id cf1
                         | Some cs \<Rightarrow> bind_res (replace_mapping_components rule_id cs cf1) (rule_result rule_id)))"

text \<open>Deleting a rule deletes its components with it (\<^verbatim>\<open>ON DELETE CASCADE\<close>).\<close>

definition delete_sku_mapping_rule :: "int \<Rightarrow> config_state \<Rightarrow> config_state res" where
  "delete_sku_mapping_rule rule_id cf =
     (let db = cf_db cf
      in if rule_id < 1 then raise (HTTPException 422)
         else if filter (\<lambda>r. smr_id r = rule_id) (t_sku_mapping_rule db) = [] then raise NotFound
         else return (cf\<lparr>cf_db := db\<lparr>t_sku_mapping_rule := filter (\<lambda>r. smr_id r \<noteq> rule_id) (t_sku_mapping_rule db),
                t_sku_mapping_component := filter (\<lambda>c. smc_rule_id c \<noteq> rule_id) (t_sku_mapping_component db)\<rparr>\<rparr>))"

text \<open>
  The list endpoint. With a search text the query joins the components and pages over the
  joined rows; \<^verbatim>\<open>unique()\<close> removes the repetitions afterwards, and the total counts rules.
\<close>

definition rule_keyword_rows :: "engine_db \<Rightarrow> string \<Rightarrow> sku_mapping_rule \<Rightarrow> sku_mapping_rule list" where
  "rule_keyword_rows db keyword rule =
     (let components = filter (\<lambda>c. smc_rule_id c = smr_id rule) (t_sku_mapping_component db);
          like = contains_pattern keyword;
          hits = (\<lambda>c. sql_ilike (smr_commodity_sku rule) like \<or> sql_ilike (smc_inventory_sku c) like)
      in if components = [] then (if sql_ilike (smr_commodity_sku rule) like then [rule] else [])
         else map (\<lambda>_. rule) (filter hits components))"

definition list_sku_mapping_rules ::
  "engine_db \<Rightarrow> bool option \<Rightarrow> string option \<Rightarrow> int \<Rightarrow> int \<Rightarrow> rule_out list \<times> int" where
  "list_sku_mapping_rules db enabled keyword page page_size =
     (let rows = filter (\<lambda>r. case enabled of None \<Rightarrow> True | Some b \<Rightarrow> smr_enabled r = b) (t_sku_mapping_rule db);
          joined = (case keyword of None \<Rightarrow> rows
                    | Some k \<Rightarrow> if k = [] then rows else concat (map (rule_keyword_rows db k) rows));
          base = sort_key smr_commodity_sku joined;
          paged = take (nat page_size) (drop (nat ((page - 1) * page_size)) base)
      in (map (mapping_rule_out db) (dedup paged), int (length (dedup (map smr_id joined)))))"

subsection \<open>Export and import of mapping rules\<close>

text \<open>
  A cell of a sheet or of a CSV row: nothing, a whole number, a text, or a truth value. The
  file formats themselves (\<^verbatim>\<open>openpyxl\<close>, \<^verbatim>\<open>csv\<close>) are outside the repository.
\<close>

datatype cell = NullCell | IntCell int | TextCell string | BoolCell bool

definition HDR_COMMODITY :: string where
  "HDR_COMMODITY = utf8 [229, 149, 134, 229, 147, 129, 83, 75, 85]"

definition HDR_GROUP :: string where
  "HDR_GROUP = utf8 [231, 187, 132, 229, 144, 136, 231, 188, 150, 229, 143, 183]"

definition HDR_INVENTORY :: string where
  "HDR_INVENTORY = utf8 [229, 186, 147, 229, 173, 152, 83, 75, 85]"

definition HDR_QUANTITY :: string where
  "HDR_QUANTITY = utf8 [231, 187, 132, 228, 187, 182, 230, 149, 176, 233, 135, 143]"

definition HDR_ENABLED :: string where
  "HDR_ENABLED = utf8 [229, 144, 175, 231, 148, 168]"

definition HDR_REMARK :: string where
  "HDR_REMARK = utf8 [229, 164, 135, 230, 179, 168]"

definition TEXT_YES :: string where
  "TEXT_YES = utf8 [230, 152, 175]"

definition TEXT_NO :: string where
  "TEXT_NO = utf8 [229, 144, 166]"

definition TEXT_OFF :: string where
  "TEXT_OFF = utf8 [229, 129, 156, 231, 148, 168]"

definition rule_export_rows :: "engine_db \<Rightarrow> sku_mapping_rule \<Rightarrow> cell list list" where
  "rule_export_rows db rule =
     map (\<lambda>c. [TextCell (smr_commodity_sku rule), IntCell (smc_group_no c), TextCell (smc_inventory_sku c),
                IntCell (smc_quantity c), TextCell (if smr_enabled rule then TEXT_YES else TEXT_NO),
                TextCell (case smr_remark rule of None \<Rightarrow> [] | Some r \<Rightarrow> r)]) (rule_component_rows db rule)"

definition export_sku_mapping_rules :: "engine_db \<Rightarrow> cell list list" where
  "export_sku_mapping_rules db =
     map TextCell [HDR_COMMODITY, HDR_GROUP, HDR_INVENTORY, HDR_QUANTITY, HDR_ENABLED, HDR_REMARK]
     # concat (map (rule_export_rows db) (sort_key smr_commodity_sku (t_sku_mapping_rule db)))"

text \<open>\<^verbatim>\<open>str(x)\<close> of a cell that is not null, and \<^verbatim>\<open>str(x or "").strip()\<close>.\<close>

fun cell_str :: "cell \<Rightarrow> string" where
  "cell_str NullCell = []"
| "cell_str (IntCell n) = int_to_string n"
| "cell_str (TextCell s) = s"
| "cell_str (BoolCell b) = (if b then ''True'' else ''False'')"

definition cell_text :: "cell \<Rightarrow> string" where
  "cell_text c = (if c = IntCell 0 \<or> c = BoolCell False then [] else py_strip (cell_str c))"

fun cell_int :: "cell \<Rightarrow> int option" where
  "cell_int NullCell = None"
| "cell_int (IntCell n) = Some n"
| "cell_int (TextCell s) = py_int s"
| "cell_int (BoolCell b) = Some (if b then 1 else 0)"

type_synonym import_row = "(string, cell) dict"

definition sheet_row :: "string list \<Rightarrow> cell list \<Rightarrow> import_row" where
  "sheet_row headers row =
     foldl (\<lambda>d (i, h). dict_set h (if i < length row then row ! i else NullCell) d) [] (enumerate 0 headers)"

definition read_sheet_rows :: "cell list list \<Rightarrow> import_row list" where
  "read_sheet_rows rows =
     (case rows of [] \<Rightarrow> [] | header # body \<Rightarrow> map (sheet_row (map cell_text header)) body)"

definition parse_enabled :: "cell \<Rightarrow> bool option" where
  "parse_enabled c =
     (let text = map lower_char (py_strip (cell_str c))
      in if text \<in> set [[], ''1'', ''true'', ''yes'', ''y'', TEXT_YES, HDR_ENABLED] then Some True
         else if text \<in> set [''0'', ''false'', ''no'', ''n'', TEXT_NO, TEXT_OFF] then Some False
         else None)"

datatype import_error =
    MissingColumns "string list"
  | EnabledUnreadable
  | CommodityEmpty
  | InventoryEmpty
  | GroupNotPositive
  | QuantityNotPositive
  | InventoryRepeated nat
  | EnabledDiffers
  | RemarkDiffers

record import_state =
  is_errors :: "(nat \<times> import_error) list"
  is_grouped :: "(sku, rule_in) dict"
  is_seen_inventory :: "(sku, (sku, nat) dict) dict"

definition required_headers :: "string list" where
  "required_headers = [HDR_COMMODITY, HDR_INVENTORY, HDR_QUANTITY, HDR_ENABLED, HDR_REMARK]"

definition add_errors :: "nat \<Rightarrow> import_error list \<Rightarrow> import_state \<Rightarrow> import_state" where
  "add_errors idx es s = s\<lparr>is_errors := is_errors s @ map (\<lambda>e. (idx, e)) es\<rparr>"

text \<open>The four checks of the values and the check for a repeated inventory SKU.\<close>

definition value_errors :: "string \<Rightarrow> string \<Rightarrow> int \<Rightarrow> int \<Rightarrow> import_error list" where
  "value_errors commodity_sku inventory_sku group_no quantity =
     (if commodity_sku = [] then [CommodityEmpty] else []) @ (if inventory_sku = [] then [InventoryEmpty] else [])
     @ (if group_no \<le> 0 then [GroupNotPositive] else []) @ (if quantity \<le> 0 then [QuantityNotPositive] else [])"

definition note_inventory :: "nat \<Rightarrow> string \<Rightarrow> string \<Rightarrow> import_state \<Rightarrow> import_state" where
  "note_inventory idx commodity_sku inventory_sku s =
     (if inventory_sku = [] \<or> commodity_sku = [] then s
      else let seen = dict_get_or (is_seen_inventory s) commodity_sku [];
               s1 = (case dict_get seen inventory_sku of None \<Rightarrow> s | Some previous \<Rightarrow> add_errors idx [InventoryRepeated previous] s)
           in s1\<lparr>is_seen_inventory := dict_set commodity_sku (dict_set inventory_sku idx seen) (is_seen_inventory s1)\<rparr>)"

definition group_row :: "nat \<Rightarrow> sku \<Rightarrow> bool \<Rightarrow> string option \<Rightarrow> component_in \<Rightarrow> import_state \<Rightarrow> import_state" where
  "group_row idx commodity_sku enabled remark component s =
     (let entry = dict_get_or (is_grouped s) commodity_sku
            \<lparr>rb_commodity_sku = commodity_sku, rb_enabled = enabled, rb_remark = remark, rb_components = []\<rparr>;
          s1 = add_errors idx ((if rb_enabled entry \<noteq> enabled then [EnabledDiffers] else [])
                               @ (if rb_remark entry \<noteq> remark then [RemarkDiffers] else [])) s
      in s1\<lparr>is_grouped := dict_set commodity_sku (entry\<lparr>rb_components := rb_components entry @ [component]\<rparr>) (is_grouped s1)\<rparr>)"

definition import_step :: "import_state \<Rightarrow> nat \<times> import_row \<Rightarrow> import_state" where
  "import_step s numbered =
     (case numbered of (idx, raw) \<Rightarrow>
        if list_all (\<lambda>v. cell_text v = []) (dict_values raw) then s
        else let missing = filter (\<lambda>h. \<not> dict_mem h raw) required_headers
             in if missing \<noteq> [] then add_errors idx [MissingColumns (sort missing)] s
                else let cell = (\<lambda>h. dict_get_or raw h NullCell);
                         commodity_sku = cell_text (cell HDR_COMMODITY);
                         inventory_sku = cell_text (cell HDR_INVENTORY);
                         group_no_text = cell_text (cell HDR_GROUP);
                         group_no = (if group_no_text = [] then 1
                                     else case py_int group_no_text of None \<Rightarrow> 0 | Some n \<Rightarrow> n);
                         quantity = (case cell_int (cell HDR_QUANTITY) of None \<Rightarrow> 0 | Some n \<Rightarrow> n)
                     in case parse_enabled (cell HDR_ENABLED) of
                          None \<Rightarrow> add_errors idx [EnabledUnreadable] s
                        | Some enabled \<Rightarrow>
                            let remark = str_or (Some (cell_text (cell HDR_REMARK))) None;
                                s1 = note_inventory idx commodity_sku inventory_sku
                                       (add_errors idx (value_errors commodity_sku inventory_sku group_no quantity) s)
                            in if value_errors commodity_sku inventory_sku group_no quantity \<noteq> [] then s1
                               else group_row idx commodity_sku enabled remark
                                      \<lparr>mi_group_no = group_no, mi_inventory_sku = inventory_sku, mi_quantity = quantity\<rparr> s1)"

definition normalize_import_state :: "import_row list \<Rightarrow> import_state" where
  "normalize_import_state raw_rows =
     foldl import_step \<lparr>is_errors = [], is_grouped = [], is_seen_inventory = []\<rparr> (enumerate 2 raw_rows)"

text \<open>The schema is applied outside any handler here: a violation is an unhandled error.\<close>

fun schema_all :: "(sku, rule_in) dict \<Rightarrow> (sku, rule_in) dict res" where
  "schema_all [] = return []"
| "schema_all ((k, entry) # rest) =
     (case rule_schema entry of None \<Rightarrow> raise ValueError
      | Some body \<Rightarrow> bind_res (schema_all rest) (\<lambda>bodies. return ((k, body) # bodies)))"

definition normalize_import_rows :: "import_row list \<Rightarrow> (sku, rule_in) dict res" where
  "normalize_import_rows raw_rows =
     (let s = normalize_import_state raw_rows
      in if is_errors s \<noteq> [] then raise ValidationFailed else schema_all (is_grouped s))"

record import_out =
  io_created :: int
  io_updated :: int
  io_total_components :: int

definition import_rule ::
  "engine_db \<Rightarrow> config_state \<times> int \<times> int \<Rightarrow> sku \<times> rule_in \<Rightarrow> (config_state \<times> int \<times> int) res" where
  "import_rule db0 acc entry =
     (case (acc, entry) of ((cf, created, updated), (commodity_sku, body)) \<Rightarrow>
        case find (\<lambda>r. smr_commodity_sku r = commodity_sku) (t_sku_mapping_rule db0) of
          None \<Rightarrow> bind_res (replace_mapping_components (cf_next_rule_id cf) (rb_components body) (insert_mapping_rule body cf))
                    (\<lambda>cf'. return (cf', created + 1, updated))
        | Some rule \<Rightarrow>
            bind_res (replace_mapping_components (smr_id rule) (rb_components body)
                (update_mapping_rule (smr_id rule) (\<lambda>r. r\<lparr>smr_enabled := rb_enabled body, smr_remark := rb_remark body\<rparr>) cf))
              (\<lambda>cf'. return (cf', created, updated + 1)))"

definition import_sku_mapping_rules :: "import_row list option \<Rightarrow> config_state \<Rightarrow> (config_state \<times> import_out) res" where
  "import_sku_mapping_rules upload cf =
     (case upload of None \<Rightarrow> raise ValidationFailed
      | Some raw_rows \<Rightarrow>
          bind_res (normalize_import_rows raw_rows)
            (\<lambda>rules. if rules = [] then raise ValidationFailed
              else bind_res (fold_res (import_rule (cf_db cf)) (cf, 0, 0) rules)
                (\<lambda>(cf', created, updated). return (cf',
                   \<lparr>io_created = created, io_updated = updated,
                    io_total_components = int (length (concat (map (rb_components \<circ> snd) rules)))\<rparr>))))"

subsection \<open>Physical item groups\<close>

record group_in =
  gi_name :: string
  gi_members :: "string list"
  gi_enabled :: bool
  gi_remark :: "string option"

fun normalize_members :: "sku list \<Rightarrow> string list \<Rightarrow> sku list option" where
  "normalize_members seen [] = Some []"
| "normalize_members seen (v # vs) =
     (let sku = py_strip v
      in if sku = [] \<or> sku \<in> set seen then None else map_option (\<lambda>rest. sku # rest) (normalize_members (sku # seen) vs))"

definition members_field :: "string list \<Rightarrow> sku list option" where
  "members_field values = (if values = [] then None else normalize_members [] values)"

definition group_schema :: "group_in \<Rightarrow> group_in option" where
  "group_schema body =
     (case (sku_field (gi_name body), members_field (gi_members body), remark_field (gi_remark body)) of
        (Some name, Some members, Some remark) \<Rightarrow>
          Some \<lparr>gi_name = name, gi_members = members, gi_enabled = gi_enabled body, gi_remark = remark\<rparr>
      | _ \<Rightarrow> None)"

record group_patch =
  gp_name :: "string option"
  gp_members :: "string list option"
  gp_enabled :: "bool option"
  gp_remark_set :: bool
  gp_remark :: "string option"

definition group_patch_schema :: "group_patch \<Rightarrow> group_patch option" where
  "group_patch_schema p =
     (case (optional_field sku_field (gp_name p), optional_field members_field (gp_members p), remark_field (gp_remark p)) of
        (Some name, Some members, Some remark) \<Rightarrow> Some (p\<lparr>gp_name := name, gp_members := members, gp_remark := remark\<rparr>)
      | _ \<Rightarrow> None)"

definition group_aliases :: "engine_db \<Rightarrow> int \<Rightarrow> sku list" where
  "group_aliases db group_id =
     sort (map pia_sku (filter (\<lambda>a. pia_group_id a = group_id) (t_physical_item_sku_alias db)))"

record group_out =
  go_group :: physical_item_group
  go_members :: "sku list"
  go_member_count :: int

definition physical_group_out :: "engine_db \<Rightarrow> physical_item_group \<Rightarrow> group_out" where
  "physical_group_out db g =
     \<lparr>go_group = g, go_members = group_aliases db (pig_id g), go_member_count = int (length (group_aliases db (pig_id g)))\<rparr>"

definition validate_physical_group_unique :: "engine_db \<Rightarrow> string \<Rightarrow> sku list \<Rightarrow> int option \<Rightarrow> unit res" where
  "validate_physical_group_unique db name members current_group_id =
     (if (case find (\<lambda>g. pig_name g = name) (t_physical_item_group db) of
            None \<Rightarrow> False | Some g \<Rightarrow> Some (pig_id g) \<noteq> current_group_id) then raise ConflictError
      else if list_ex (\<lambda>a. pia_sku a \<in> set members \<and> Some (pia_group_id a) \<noteq> current_group_id) (t_physical_item_sku_alias db)
      then raise ConflictError else return ())"

text \<open>A member longer than the column is refused by the database, which no handler expects.\<close>

definition replace_physical_members :: "int \<Rightarrow> sku list \<Rightarrow> config_state \<Rightarrow> config_state res" where
  "replace_physical_members group_id members cf =
     (if list_ex (\<lambda>m. length m > 100) members then raise (HTTPException 500)
      else return (cf\<lparr>cf_db := (cf_db cf)\<lparr>t_physical_item_sku_alias :=
             filter (\<lambda>a. pia_group_id a \<noteq> group_id) (t_physical_item_sku_alias (cf_db cf))
             @ map (\<lambda>sku. \<lparr>pia_group_id = group_id, pia_sku = sku\<rparr>) members\<rparr>\<rparr>))"

definition group_result :: "int \<Rightarrow> config_state \<Rightarrow> (config_state \<times> group_out) res" where
  "group_result group_id cf =
     (case find (\<lambda>g. pig_id g = group_id) (t_physical_item_group (cf_db cf)) of
        None \<Rightarrow> raise NoResultFound
      | Some g \<Rightarrow> return (cf, physical_group_out (cf_db cf) g))"

definition create_physical_item_group :: "group_in \<Rightarrow> config_state \<Rightarrow> (config_state \<times> group_out) res" where
  "create_physical_item_group body0 cf =
     (case group_schema body0 of
        None \<Rightarrow> raise (HTTPException 422)
      | Some body \<Rightarrow>
          bind_res (validate_physical_group_unique (cf_db cf) (gi_name body) (gi_members body) None)
            (\<lambda>_. let group_id = cf_next_group_id cf;
                      cf1 = cf\<lparr>cf_db := (cf_db cf)\<lparr>t_physical_item_group := t_physical_item_group (cf_db cf) @
                               [\<lparr>pig_id = group_id, pig_name = gi_name body, pig_enabled = gi_enabled body, pig_remark = gi_remark body\<rparr>]\<rparr>,
                              cf_next_group_id := group_id + 1\<rparr>
                  in bind_res (replace_physical_members group_id (gi_members body) cf1) (group_result group_id)))"

definition patch_physical_item_group :: "group_patch \<Rightarrow> int \<Rightarrow> config_state \<Rightarrow> (config_state \<times> group_out) res" where
  "patch_physical_item_group patch0 group_id cf =
     (case group_patch_schema patch0 of
        None \<Rightarrow> raise (HTTPException 422)
      | Some p \<Rightarrow>
          if group_id < 1 then raise (HTTPException 422)
          else case find (\<lambda>g. pig_id g = group_id) (t_physical_item_group (cf_db cf)) of
            None \<Rightarrow> raise NotFound
          | Some g \<Rightarrow>
              let new_name = (case gp_name p of None \<Rightarrow> pig_name g | Some n \<Rightarrow> n);
                  new_members = (case gp_members p of None \<Rightarrow> group_aliases (cf_db cf) group_id | Some ms \<Rightarrow> ms)
              in bind_res (validate_physical_group_unique (cf_db cf) new_name new_members (Some group_id))
                (\<lambda>_. let cf1 = cf\<lparr>cf_db := (cf_db cf)\<lparr>t_physical_item_group :=
                          map (\<lambda>g. if pig_id g = group_id
                                    then g\<lparr>pig_name := new_name,
                                           pig_enabled := (case gp_enabled p of None \<Rightarrow> pig_enabled g | Some b \<Rightarrow> b),
                                           pig_remark := (if gp_remark_set p then gp_remark p else pig_remark g)\<rparr>
                                    else g) (t_physical_item_group (cf_db cf))\<rparr>\<rparr>
                      in case gp_members p of
                           None \<Rightarrow> group_result group_id cf1
                         | Some ms \<Rightarrow> bind_res (replace_physical_members group_id ms cf1) (group_result group_id)))"

definition delete_physical_item_group :: "int \<Rightarrow> config_state \<Rightarrow> config_state res" where
  "delete_physical_item_group group_id cf =
     (let db = cf_db cf
      in if group_id < 1 then raise (HTTPException 422)
         else if filter (\<lambda>g. pig_id g = group_id) (t_physical_item_group db) = [] then raise NotFound
         else return (cf\<lparr>cf_db := db\<lparr>t_physical_item_group := filter (\<lambda>g. pig_id g \<noteq> group_id) (t_physical_item_group db),
                t_physical_item_sku_alias := filter (\<lambda>a. pia_group_id a \<noteq> group_id) (t_physical_item_sku_alias db)\<rparr>\<rparr>))"

definition group_keyword_rows :: "engine_db \<Rightarrow> string \<Rightarrow> physical_item_group \<Rightarrow> physical_item_group list" where
  "group_keyword_rows db keyword g =
     (let aliases = filter (\<lambda>a. pia_group_id a = pig_id g) (t_physical_item_sku_alias db);
          like = contains_pattern keyword;
          hits = (\<lambda>a. sql_ilike (pig_name g) like \<or> sql_ilike (pia_sku a) like)
      in if aliases = [] then (if sql_ilike (pig_name g) like then [g] else [])
         else map (\<lambda>_. g) (filter hits aliases))"

definition list_physical_item_groups ::
  "engine_db \<Rightarrow> bool option \<Rightarrow> string option \<Rightarrow> int \<Rightarrow> int \<Rightarrow> group_out list \<times> int" where
  "list_physical_item_groups db enabled keyword page page_size =
     (let rows = filter (\<lambda>g. case enabled of None \<Rightarrow> True | Some b \<Rightarrow> pig_enabled g = b) (t_physical_item_group db);
          joined = (case keyword of None \<Rightarrow> rows
                    | Some k \<Rightarrow> if k = [] then rows else concat (map (group_keyword_rows db k) rows));
          base = sort_key pig_name joined;
          paged = take (nat page_size) (drop (nat ((page - 1) * page_size)) base)
      in (map (physical_group_out db) (dedup paged), int (length (dedup (map pig_id joined)))))"

section \<open>Lemmas\<close>

subsection \<open>The invariant\<close>

definition good_text :: "nat \<Rightarrow> string \<Rightarrow> bool" where
  "good_text n t \<longleftrightarrow> t \<noteq> [] \<and> py_strip t = t \<and> length t \<le> n"

definition good_component :: "component_in \<Rightarrow> bool" where
  "good_component c \<longleftrightarrow> 1 \<le> mi_group_no c \<and> mi_group_no c \<le> 999999 \<and> 1 \<le> mi_quantity c \<and> mi_quantity c \<le> 999999
     \<and> good_text 100 (mi_inventory_sku c)"

definition good_components :: "component_in list \<Rightarrow> bool" where
  "good_components cs \<longleftrightarrow> cs \<noteq> [] \<and> distinct (map mi_inventory_sku cs) \<and> (\<forall>c \<in> set cs. good_component c)"

definition good_remark :: "string option \<Rightarrow> bool" where
  "good_remark t \<longleftrightarrow> (case t of None \<Rightarrow> True | Some s \<Rightarrow> good_text 1000 s)"

definition component_of :: "sku_mapping_component \<Rightarrow> component_in" where
  "component_of c = \<lparr>mi_group_no = smc_group_no c, mi_inventory_sku = smc_inventory_sku c, mi_quantity = smc_quantity c\<rparr>"

text \<open>
  What the tables satisfy as long as only these operations change them: the shape of the rows,
  and that every rule has a component.
\<close>

definition rules_shape :: "config_state \<Rightarrow> bool" where
  "rules_shape cf \<longleftrightarrow> (let rules = t_sku_mapping_rule (cf_db cf); comps = t_sku_mapping_component (cf_db cf) in
     distinct (map smr_id rules) \<and> (\<forall>r \<in> set rules. 1 \<le> smr_id r \<and> smr_id r < cf_next_rule_id cf) \<and> 1 \<le> cf_next_rule_id cf
   \<and> distinct (map smr_commodity_sku rules) \<and> (\<forall>r \<in> set rules. good_text 100 (smr_commodity_sku r) \<and> good_remark (smr_remark r))
   \<and> distinct (map smc_id comps) \<and> (\<forall>c \<in> set comps. smc_id c < cf_next_component_id cf)
   \<and> (\<forall>c \<in> set comps. smc_rule_id c \<in> smr_id ` set rules \<and> good_component (component_of c))
   \<and> distinct (map (\<lambda>c. (smc_rule_id c, smc_inventory_sku c)) comps))"

definition rules_inv :: "config_state \<Rightarrow> bool" where
  "rules_inv cf \<longleftrightarrow> rules_shape cf \<and>
     smr_id ` set (t_sku_mapping_rule (cf_db cf)) \<subseteq> smc_rule_id ` set (t_sku_mapping_component (cf_db cf))"

text \<open>The shape of the group tables, and that every group has a member.\<close>

definition groups_shape :: "config_state \<Rightarrow> bool" where
  "groups_shape cf \<longleftrightarrow> (let grps = t_physical_item_group (cf_db cf); aliases = t_physical_item_sku_alias (cf_db cf) in
     distinct (map pig_id grps) \<and> (\<forall>g \<in> set grps. 1 \<le> pig_id g \<and> pig_id g < cf_next_group_id cf) \<and> 1 \<le> cf_next_group_id cf
   \<and> distinct (map pig_name grps) \<and> distinct (map pia_sku aliases)
   \<and> (\<forall>a \<in> set aliases. pia_group_id a \<in> pig_id ` set grps \<and> pia_sku a \<noteq> []))"

definition groups_inv :: "config_state \<Rightarrow> bool" where
  "groups_inv cf \<longleftrightarrow> groups_shape cf \<and>
     pig_id ` set (t_physical_item_group (cf_db cf)) \<subseteq> pia_group_id ` set (t_physical_item_sku_alias (cf_db cf))"

subsection \<open>What the schemas accept\<close>

lemma py_strip_length: "length (py_strip s) \<le> length s"
proof -
  have "length (dropWhile P xs) \<le> length xs" for P and xs :: string by (rule length_dropWhile_le)
  from order_trans [OF this this] show ?thesis by (simp add: py_strip_def strip_by_def length_dropWhile_le order_trans [OF length_dropWhile_le])
qed

lemma sku_field_good: "sku_field v = Some t \<Longrightarrow> good_text 100 t"
  using py_strip_length [of v] by (auto simp: sku_field_def good_text_def Let_def py_strip_idem split: if_splits)

lemma remark_field_good: "remark_field v = Some t \<Longrightarrow> good_remark t"
  using py_strip_length [of "the v"]
  by (cases v) (auto simp: remark_field_def good_remark_def good_text_def str_or_def py_strip_idem split: if_splits)

lemma component_schema_good: "component_schema c = Some d \<Longrightarrow> good_component d"
  using sku_field_good by (auto simp: component_schema_def good_component_def split: if_splits)

lemma component_list_schema_good: "component_list_schema cs = Some ds \<Longrightarrow> \<forall>d \<in> set ds. good_component d"
  using component_schema_good by (induction cs arbitrary: ds) (auto split: option.splits)

lemma component_list_schema_Nil: "component_list_schema cs = Some ds \<Longrightarrow> ds = [] \<longleftrightarrow> cs = []"
  by (cases cs) (auto split: option.splits)

lemma components_field_good: "components_field cs = Some ds \<Longrightarrow> good_components ds"
  using component_list_schema_good component_list_schema_Nil
  by (auto simp: components_field_def good_components_def validate_components_def split: if_splits option.splits)

lemma rule_schema_good:
  assumes "rule_schema body = Some b"
  shows "good_text 100 (rb_commodity_sku b)" "good_remark (rb_remark b)" "good_components (rb_components b)"
  using assms sku_field_good remark_field_good components_field_good by (auto simp: rule_schema_def split: option.splits)

lemma rule_patch_schema_good:
  assumes "rule_patch_schema p = Some q"
  shows "pb_commodity_sku q = Some t \<Longrightarrow> good_text 100 t" "good_remark (pb_remark q)"
    "pb_components q = Some cs \<Longrightarrow> good_components cs"
  using assms sku_field_good remark_field_good components_field_good
  by (auto simp: rule_patch_schema_def optional_field_def split: option.splits)

subsection \<open>Mapping rules keep the invariant\<close>

lemma new_components_facts:
  "map smc_id (new_components k rid cs) = map (\<lambda>n. k + int n) [0..<length cs]"
  "map smc_rule_id (new_components k rid cs) = replicate (length cs) rid"
  "map component_of (new_components k rid cs) = cs"
proof -
  show "map smc_id (new_components k rid cs) = map (\<lambda>n. k + int n) [0..<length cs]"
    by (rule nth_equalityI) (simp_all add: new_components_def nth_enumerate_eq case_prod_unfold)
  show "map smc_rule_id (new_components k rid cs) = replicate (length cs) rid"
    by (rule nth_equalityI) (simp_all add: new_components_def nth_enumerate_eq case_prod_unfold)
  show "map component_of (new_components k rid cs) = cs"
    by (rule nth_equalityI) (simp_all add: new_components_def component_of_def nth_enumerate_eq case_prod_unfold)
qed

lemma set_new_components:
  assumes "c \<in> set (new_components k rid cs)"
  shows "k \<le> smc_id c" "smc_id c < k + int (length cs)" "smc_rule_id c = rid" "component_of c \<in> set cs"
proof -
  have "smc_id c \<in> set (map smc_id (new_components k rid cs))" "smc_rule_id c \<in> set (map smc_rule_id (new_components k rid cs))"
    "component_of c \<in> set (map component_of (new_components k rid cs))" using assms by simp_all
  then show "k \<le> smc_id c" "smc_id c < k + int (length cs)" "smc_rule_id c = rid" "component_of c \<in> set cs"
    unfolding new_components_facts by (auto split: if_splits)
qed

lemma replace_components_result:
  assumes "replace_mapping_components rid cs cf = Inr cf'"
  shows "cf' = cf\<lparr>cf_db := (cf_db cf)\<lparr>t_sku_mapping_component := filter (\<lambda>c. smc_rule_id c \<noteq> rid) (t_sku_mapping_component (cf_db cf))
      @ new_components (cf_next_component_id cf) rid cs\<rparr>, cf_next_component_id := cf_next_component_id cf + int (length cs)\<rparr>"
  using assms by (auto simp: replace_mapping_components_def Let_def split: if_splits)

lemma replace_components_inv:
  assumes "rules_shape cf" "good_components cs" "rid \<in> smr_id ` set (t_sku_mapping_rule (cf_db cf))"
    "smr_id ` set (t_sku_mapping_rule (cf_db cf)) - {rid} \<subseteq> smc_rule_id ` set (t_sku_mapping_component (cf_db cf))"
    "replace_mapping_components rid cs cf = Inr cf'"
  shows "rules_inv cf'"
proof -
  let ?old = "filter (\<lambda>c. smc_rule_id c \<noteq> rid) (t_sku_mapping_component (cf_db cf))"
  let ?new = "new_components (cf_next_component_id cf) rid cs"
  note cf' = replace_components_result [OF assms(5)]
  note new = set_new_components [of _ "cf_next_component_id cf" rid cs]
  have old: "c \<in> set ?old \<Longrightarrow> smc_id c < cf_next_component_id cf \<and> smc_rule_id c \<noteq> rid" for c
    using assms(1) by (auto simp: rules_shape_def Let_def)
  have "distinct (map smc_id (?old @ ?new))"
  proof -
    have "distinct (map smc_id ?new)" unfolding new_components_facts by (simp add: distinct_map inj_on_def)
    moreover have "distinct (map smc_id ?old)" using assms(1) by (simp add: rules_shape_def Let_def distinct_map_filter)
    moreover have "smc_id ` set ?old \<inter> smc_id ` set ?new = {}" using old new(1) by fastforce
    ultimately show ?thesis by simp
  qed
  moreover have "distinct (map (\<lambda>c. (smc_rule_id c, smc_inventory_sku c)) (?old @ ?new))"
  proof -
    have "map smc_inventory_sku ?new = map mi_inventory_sku (map component_of ?new)" by (simp add: component_of_def)
    then have "distinct (map smc_inventory_sku ?new)" unfolding new_components_facts using assms(2) by (simp add: good_components_def)
    then have "distinct (map (\<lambda>c. (smc_rule_id c, smc_inventory_sku c)) ?new)" by (auto simp: distinct_map inj_on_def)
    moreover have "distinct (map (\<lambda>c. (smc_rule_id c, smc_inventory_sku c)) ?old)"
      using assms(1) by (simp add: rules_shape_def Let_def distinct_map_filter)
    moreover have "(\<lambda>c. (smc_rule_id c, smc_inventory_sku c)) ` set ?old \<inter> (\<lambda>c. (smc_rule_id c, smc_inventory_sku c)) ` set ?new = {}"
      using old new(3) by fastforce
    ultimately show ?thesis by simp
  qed
  moreover have "good_component (component_of c) \<and> smc_rule_id c \<in> smr_id ` set (t_sku_mapping_rule (cf_db cf))
      \<and> smc_id c < cf_next_component_id cf + int (length cs)" if "c \<in> set (?old @ ?new)" for c
  proof (cases "c \<in> set ?new")
    case True
    then show ?thesis using new assms(2,3) by (simp add: good_components_def)
  next
    case False
    then have c: "c \<in> set (t_sku_mapping_component (cf_db cf))" using that by auto
    moreover have "smc_id c < cf_next_component_id cf + int (length cs)"
      using c assms(1) by (fastforce simp: rules_shape_def Let_def)
    ultimately show ?thesis using assms(1) by (simp add: rules_shape_def Let_def)
  qed
  ultimately have "rules_shape cf'"
    using assms(1) unfolding cf' rules_shape_def Let_def by simp
  moreover have "smc_rule_id ` set (?old @ ?new) \<supseteq> insert rid (smc_rule_id ` set (t_sku_mapping_component (cf_db cf)))"
  proof -
    have "rid \<in> set (map smc_rule_id ?new)" using assms(2) unfolding new_components_facts by (simp add: good_components_def)
    then show ?thesis by auto
  qed
  ultimately show ?thesis using assms(4) unfolding cf' rules_inv_def by auto
qed

lemma validate_unique_iff:
  assumes "validate_mapping_unique db sku cur = Inr u" "distinct (map smr_commodity_sku (t_sku_mapping_rule db))"
    "r \<in> set (t_sku_mapping_rule db)" "smr_commodity_sku r = sku"
  shows "cur = Some (smr_id r)"
proof -
  obtain q where q: "find (\<lambda>r. smr_commodity_sku r = sku) (t_sku_mapping_rule db) = Some q"
    using assms(3,4) by (cases "find (\<lambda>r. smr_commodity_sku r = sku) (t_sku_mapping_rule db)") (auto simp: find_None_iff)
  have "q = r" using find_in_set [OF q] assms(2-4) by (auto simp: distinct_map inj_on_def)
  then show ?thesis using assms(1) q by (auto simp: validate_mapping_unique_def split: if_splits)
qed

lemma insert_rule_shape:
  assumes "rules_shape cf" "good_text 100 (rb_commodity_sku body)" "good_remark (rb_remark body)"
    "rb_commodity_sku body \<notin> smr_commodity_sku ` set (t_sku_mapping_rule (cf_db cf))"
  shows "rules_shape (insert_mapping_rule body cf)"
  using assms by (fastforce simp: rules_shape_def insert_mapping_rule_def Let_def)

lemma update_rule_shape:
  assumes "rules_shape cf" "\<And>r. smr_id (f r) = smr_id r"
    "\<And>r. r \<in> set (t_sku_mapping_rule (cf_db cf)) \<Longrightarrow> smr_id r = rid \<Longrightarrow> good_text 100 (smr_commodity_sku (f r)) \<and> good_remark (smr_remark (f r))"
    "\<And>r q. r \<in> set (t_sku_mapping_rule (cf_db cf)) \<Longrightarrow> q \<in> set (t_sku_mapping_rule (cf_db cf)) \<Longrightarrow>
       smr_id r = rid \<Longrightarrow> smr_id q \<noteq> rid \<Longrightarrow> smr_commodity_sku (f r) \<noteq> smr_commodity_sku q"
  shows "rules_shape (update_mapping_rule rid f cf)"
    "smr_id ` set (t_sku_mapping_rule (cf_db (update_mapping_rule rid f cf))) = smr_id ` set (t_sku_mapping_rule (cf_db cf))"
proof -
  let ?rules = "t_sku_mapping_rule (cf_db cf)" and ?f = "\<lambda>r. if smr_id r = rid then f r else r"
  have ids: "map smr_id (map ?f ?rules) = map smr_id ?rules" using assms(2) by simp
  have tbl: "t_sku_mapping_rule (cf_db (update_mapping_rule rid f cf)) = map ?f ?rules" by (simp add: update_mapping_rule_def)
  show img: "smr_id ` set (t_sku_mapping_rule (cf_db (update_mapping_rule rid f cf))) = smr_id ` set ?rules"
    unfolding tbl using arg_cong [OF ids, of set] by (simp only: set_map)
  have inj: "inj_on smr_id (set ?rules)" "inj_on smr_commodity_sku (set ?rules)" "distinct ?rules"
    using assms(1) by (simp_all add: rules_shape_def Let_def distinct_map)
  have "inj_on (\<lambda>r. smr_commodity_sku (?f r)) (set ?rules)"
  proof (rule inj_onI)
    fix r q assume rq: "r \<in> set ?rules" "q \<in> set ?rules" "smr_commodity_sku (?f r) = smr_commodity_sku (?f q)"
    consider "smr_id r = smr_id q" | "smr_id r \<noteq> rid" "smr_id q \<noteq> rid" | "smr_id r = rid" "smr_id q \<noteq> rid" | "smr_id r \<noteq> rid" "smr_id q = rid"
      by (cases "smr_id r = rid"; cases "smr_id q = rid") auto
    then show "r = q"
    proof cases
      case 1
      then show ?thesis using inj_onD [OF inj(1)] rq(1,2) by simp
    next
      case 2
      then show ?thesis using inj_onD [OF inj(2)] rq by simp
    next
      case 3
      then show ?thesis using assms(4) [OF rq(1,2)] rq(3) by simp
    next
      case 4
      then show ?thesis using assms(4) [OF rq(2,1)] rq(3) by simp
    qed
  qed
  then have "distinct (map smr_commodity_sku (map ?f ?rules))" using inj(3) by (simp add: distinct_map comp_def)
  moreover have "\<forall>r \<in> set (map ?f ?rules). 1 \<le> smr_id r \<and> smr_id r < cf_next_rule_id cf
      \<and> good_text 100 (smr_commodity_sku r) \<and> good_remark (smr_remark r)"
    using assms(1-3) by (auto simp: rules_shape_def Let_def)
  ultimately show "rules_shape (update_mapping_rule rid f cf)"
    using assms(1) ids img unfolding rules_shape_def Let_def tbl
    by (simp add: update_mapping_rule_def del: map_map set_map)
qed

lemma rule_result_state: "rule_result rid cf = Inr (cf', out) \<Longrightarrow> cf' = cf"
  by (auto simp: rule_result_def split: option.splits)

lemma create_rule_inv:
  assumes "rules_inv cf" "create_sku_mapping_rule body0 cf = Inr (cf', out)"
  shows "rules_inv cf'"
proof -
  from assms(2) obtain body where b: "rule_schema body0 = Some body"
    "validate_mapping_unique (cf_db cf) (rb_commodity_sku body) None = Inr ()"
    "replace_mapping_components (cf_next_rule_id cf) (rb_components body) (insert_mapping_rule body cf) = Inr cf'"
    by (auto simp: create_sku_mapping_rule_def bind_res_Inr_iff Let_def dest!: rule_result_state split: option.splits)
  have d: "distinct (map smr_commodity_sku (t_sku_mapping_rule (cf_db cf)))"
    using assms(1) by (simp add: rules_inv_def rules_shape_def Let_def)
  have "rb_commodity_sku body \<notin> smr_commodity_sku ` set (t_sku_mapping_rule (cf_db cf))"
    using validate_unique_iff [OF b(2) d] by fastforce
  then have "rules_shape (insert_mapping_rule body cf)"
    using assms(1) rule_schema_good [OF b(1)] by (intro insert_rule_shape) (simp_all add: rules_inv_def)
  then show ?thesis
    using assms(1) rule_schema_good(3) [OF b(1)] b(3)
    by (intro replace_components_inv) (auto simp: insert_mapping_rule_def rules_inv_def)
qed

lemma patch_rule_inv:
  assumes "rules_inv cf" "patch_sku_mapping_rule patch0 rid cf = Inr (cf', out)"
  shows "rules_inv cf'"
proof -
  let ?rules = "t_sku_mapping_rule (cf_db cf)"
  have shape: "rules_shape cf" using assms(1) by (simp add: rules_inv_def)
  have d: "distinct (map smr_commodity_sku ?rules)" using shape by (simp add: rules_shape_def Let_def)
  from assms(2) obtain p rule where p: "rule_patch_schema patch0 = Some p" "find (\<lambda>r. smr_id r = rid) ?rules = Some rule"
    by (auto simp: patch_sku_mapping_rule_def Let_def split: option.splits if_splits)
  define sku where "sku = (case pb_commodity_sku p of None \<Rightarrow> smr_commodity_sku rule | Some s \<Rightarrow> s)"
  define f where "f r = r\<lparr>smr_commodity_sku := sku, smr_enabled := (case pb_enabled p of None \<Rightarrow> smr_enabled r | Some b \<Rightarrow> b),
      smr_remark := (if pb_remark_set p then pb_remark p else smr_remark r)\<rparr>" for r :: sku_mapping_rule
  from assms(2) have uniq: "validate_mapping_unique (cf_db cf) sku (Some rid) = Inr ()"
    and cf': "case pb_components p of None \<Rightarrow> cf' = update_mapping_rule rid f cf
      | Some cs \<Rightarrow> replace_mapping_components rid cs (update_mapping_rule rid f cf) = Inr cf'"
    using p by (auto simp: patch_sku_mapping_rule_def Let_def bind_res_Inr_iff sku_def f_def [abs_def] split: option.splits if_splits
        dest!: rule_result_state)
  have rule: "rule \<in> set ?rules" "smr_id rule = rid" using find_in_set [OF p(2)] by auto
  have good: "good_text 100 sku" using shape rule(1) rule_patch_schema_good(1) [OF p(1)]
    by (auto simp: sku_def rules_shape_def Let_def split: option.splits)
  have upd: "rules_shape (update_mapping_rule rid f cf)"
    "smr_id ` set (t_sku_mapping_rule (cf_db (update_mapping_rule rid f cf))) = smr_id ` set ?rules"
  proof -
    have fr: "smr_id (f r) = smr_id r" "smr_commodity_sku (f r) = sku" "good_remark (smr_remark r) \<Longrightarrow> good_remark (smr_remark (f r))" for r
      using rule_patch_schema_good(2) [OF p(1)] by (auto simp: f_def)
    have apart: "sku \<noteq> smr_commodity_sku q" if "q \<in> set ?rules" "smr_id q \<noteq> rid" for q
      using validate_unique_iff [OF uniq d that(1)] that(2) by fastforce
    have ok: "good_text 100 (smr_commodity_sku (f r)) \<and> good_remark (smr_remark (f r))" if "r \<in> set ?rules" "smr_id r = rid" for r
      using that(1) shape good fr(2,3) [of r] by (simp add: rules_shape_def Let_def)
    have apart': "smr_commodity_sku (f r) \<noteq> smr_commodity_sku q"
      if "r \<in> set ?rules" "q \<in> set ?rules" "smr_id r = rid" "smr_id q \<noteq> rid" for r q
      using apart [OF that(2,4)] by (simp add: fr(2))
    show "rules_shape (update_mapping_rule rid f cf)" by (rule update_rule_shape(1) [OF shape fr(1) ok apart'])
    show "smr_id ` set (t_sku_mapping_rule (cf_db (update_mapping_rule rid f cf))) = smr_id ` set ?rules"
      by (rule update_rule_shape(2) [OF shape fr(1) ok apart'])
  qed
  show ?thesis
  proof (cases "pb_components p")
    case None
    then show ?thesis using cf' upd assms(1) by (simp add: rules_inv_def) (simp add: update_mapping_rule_def)
  next
    case (Some cs)
    have comps: "t_sku_mapping_component (cf_db (update_mapping_rule rid f cf)) = t_sku_mapping_component (cf_db cf)"
      by (simp add: update_mapping_rule_def)
    show ?thesis
      using cf' Some rule_patch_schema_good(3) [OF p(1) Some] rule upd assms(1)
      by (intro replace_components_inv [OF upd(1)]) (auto simp: comps rules_inv_def)
  qed
qed

lemma delete_rule_inv:
  assumes "rules_inv cf" "delete_sku_mapping_rule rid cf = Inr cf'"
  shows "rules_inv cf'"
proof -
  have cf': "cf' = cf\<lparr>cf_db := (cf_db cf)\<lparr>t_sku_mapping_rule := filter (\<lambda>r. smr_id r \<noteq> rid) (t_sku_mapping_rule (cf_db cf)),
      t_sku_mapping_component := filter (\<lambda>c. smc_rule_id c \<noteq> rid) (t_sku_mapping_component (cf_db cf))\<rparr>\<rparr>"
    using assms(2) by (auto simp: delete_sku_mapping_rule_def Let_def split: if_splits)
  show ?thesis
    using assms(1) unfolding cf' rules_inv_def rules_shape_def Let_def
    by (auto simp: distinct_map_filter)
qed

subsection \<open>The import keeps the invariant\<close>

definition grouped_ok :: "(sku, rule_in) dict \<Rightarrow> bool" where
  "grouped_ok d \<longleftrightarrow> wf_dict d \<and> (\<forall>(k, e) \<in> set d. rb_commodity_sku e = k \<and> py_strip k = k)"

lemma dict_set_entries: "set (dict_set k v d) \<subseteq> insert (k, v) (set d)"
  unfolding dict_set_def by (induction d) auto

lemma grouped_ok_set:
  assumes "grouped_ok d" "rb_commodity_sku e = k" "py_strip k = k"
  shows "grouped_ok (dict_set k e d)"
  using assms dict_set_entries [of k e d] by (fastforce simp: grouped_ok_def)

lemma add_errors_grouped [simp]: "is_grouped (add_errors idx es s) = is_grouped s"
  by (simp add: add_errors_def)

lemma note_inventory_grouped [simp]: "is_grouped (note_inventory idx c i s) = is_grouped s"
  by (simp add: note_inventory_def Let_def split: option.split)

lemma cell_text_strip [simp]: "py_strip (cell_text c) = cell_text c"
  by (simp add: cell_text_def) (simp add: py_strip_def strip_by_def)

lemma group_row_ok:
  assumes "grouped_ok (is_grouped s)" "py_strip sku = sku"
  shows "grouped_ok (is_grouped (group_row idx sku enabled remark c s))"
proof -
  let ?e = "dict_get_or (is_grouped s) sku \<lparr>rb_commodity_sku = sku, rb_enabled = enabled, rb_remark = remark, rb_components = []\<rparr>"
  have "rb_commodity_sku ?e = sku"
    using assms(1) dict_get_in [of "is_grouped s" sku] by (fastforce simp: dict_get_or_def grouped_ok_def split: option.split)
  then show ?thesis unfolding group_row_def Let_def using assms by (simp add: grouped_ok_set)
qed

lemma import_step_ok: "grouped_ok (is_grouped s) \<Longrightarrow> grouped_ok (is_grouped (import_step s r))"
  by (auto simp: import_step_def Let_def group_row_ok split: prod.split option.split)

lemma import_state_ok: "grouped_ok (is_grouped (normalize_import_state rows))"
proof -
  have fold: "grouped_ok (is_grouped s) \<Longrightarrow> grouped_ok (is_grouped (foldl import_step s xs))" for s xs
    by (induction xs arbitrary: s) (simp_all add: import_step_ok)
  show ?thesis unfolding normalize_import_state_def by (rule fold) (simp add: grouped_ok_def)
qed

lemma schema_all_ok:
  assumes "schema_all d = Inr rules" "grouped_ok d"
  shows "map fst rules = map fst d" "\<forall>(k, b) \<in> set rules. rb_commodity_sku b = k \<and> good_text 100 k
     \<and> good_remark (rb_remark b) \<and> good_components (rb_components b)"
proof -
  have "map fst rules = map fst d \<and> (\<forall>(k, b) \<in> set rules. rb_commodity_sku b = k \<and> good_text 100 k
     \<and> good_remark (rb_remark b) \<and> good_components (rb_components b))"
    using assms
  proof (induction d arbitrary: rules)
    case (Cons x d)
    obtain k e where x: "x = (k, e)" by (cases x)
    from Cons.prems(1) obtain b rest where b: "rule_schema e = Some b" "schema_all d = Inr rest" "rules = (k, b) # rest"
      by (auto simp: x bind_res_Inr_iff split: option.splits)
    have k: "rb_commodity_sku e = k" "py_strip k = k" "grouped_ok d" using Cons.prems(2) by (auto simp: x grouped_ok_def)
    have "rb_commodity_sku b = k" using b(1) k(1,2) by (auto simp: rule_schema_def sku_field_def Let_def split: option.splits if_splits)
    then show ?case using Cons.IH [OF b(2) k(3)] rule_schema_good [OF b(1)] by (simp add: b(3) x)
  qed simp
  then show "map fst rules = map fst d" "\<forall>(k, b) \<in> set rules. rb_commodity_sku b = k \<and> good_text 100 k
     \<and> good_remark (rb_remark b) \<and> good_components (rb_components b)" by blast+
qed

lemma normalize_import_ok:
  assumes "normalize_import_rows rows = Inr rules"
  shows "wf_dict rules" "\<forall>(k, b) \<in> set rules. rb_commodity_sku b = k \<and> good_text 100 k
     \<and> good_remark (rb_remark b) \<and> good_components (rb_components b)"
proof -
  have d: "schema_all (is_grouped (normalize_import_state rows)) = Inr rules"
    using assms by (auto simp: normalize_import_rows_def Let_def split: if_splits)
  show "wf_dict rules" using schema_all_ok(1) [OF d import_state_ok] import_state_ok [of rows] by (simp add: grouped_ok_def)
  show "\<forall>(k, b) \<in> set rules. rb_commodity_sku b = k \<and> good_text 100 k \<and> good_remark (rb_remark b) \<and> good_components (rb_components b)"
    by (rule schema_all_ok(2) [OF d import_state_ok])
qed

text \<open>The rules known before the import, by commodity SKU, stay where they are during it.\<close>

definition import_link :: "engine_db \<Rightarrow> config_state \<Rightarrow> sku list \<Rightarrow> bool" where
  "import_link db0 cf keys \<longleftrightarrow> (\<forall>k \<in> set keys. case find (\<lambda>r. smr_commodity_sku r = k) (t_sku_mapping_rule db0) of
     None \<Rightarrow> k \<notin> smr_commodity_sku ` set (t_sku_mapping_rule (cf_db cf))
   | Some r \<Rightarrow> smr_id r \<in> smr_id ` set (t_sku_mapping_rule (cf_db cf)))"

lemma import_rule_inv:
  assumes "rules_inv cf" "import_link db0 cf (k # ks)" "k \<notin> set ks" "rb_commodity_sku b = k" "good_text 100 k"
    "good_remark (rb_remark b)" "good_components (rb_components b)" "import_rule db0 (cf, x, y) (k, b) = Inr (cf', x', y')"
  shows "rules_inv cf' \<and> import_link db0 cf' ks"
proof (cases "find (\<lambda>r. smr_commodity_sku r = k) (t_sku_mapping_rule db0)")
  case None
  then have new: "k \<notin> smr_commodity_sku ` set (t_sku_mapping_rule (cf_db cf))" using assms(2) by (simp add: import_link_def)
  have r: "replace_mapping_components (cf_next_rule_id cf) (rb_components b) (insert_mapping_rule b cf) = Inr cf'"
    using assms(8) None by (auto simp: import_rule_def bind_res_Inr_iff)
  have "rules_shape (insert_mapping_rule b cf)"
    using assms(1,4-6) new by (intro insert_rule_shape) (simp_all add: rules_inv_def)
  then have "rules_inv cf'"
    using assms(1,7) r by (intro replace_components_inv) (auto simp: insert_mapping_rule_def rules_inv_def)
  moreover have "import_link db0 cf' ks"
    using assms(2,3,4) unfolding replace_components_result [OF r] import_link_def insert_mapping_rule_def
    by (auto split: option.splits)
  ultimately show ?thesis by blast
next
  case (Some rule)
  define f where "f r = r\<lparr>smr_enabled := rb_enabled b, smr_remark := rb_remark b\<rparr>" for r :: sku_mapping_rule
  have fr: "smr_id (f r) = smr_id r" "smr_commodity_sku (f r) = smr_commodity_sku r" "smr_remark (f r) = rb_remark b" for r
    by (simp_all add: f_def)
  have mem: "smr_id rule \<in> smr_id ` set (t_sku_mapping_rule (cf_db cf))" using assms(2) Some by (simp add: import_link_def)
  have r: "replace_mapping_components (smr_id rule) (rb_components b) (update_mapping_rule (smr_id rule) f cf) = Inr cf'"
    using assms(8) Some by (auto simp: import_rule_def bind_res_Inr_iff f_def [abs_def])
  have shape: "rules_shape cf" using assms(1) by (simp add: rules_inv_def)
  have ok: "good_text 100 (smr_commodity_sku (f q)) \<and> good_remark (smr_remark (f q))" if "q \<in> set (t_sku_mapping_rule (cf_db cf))" "smr_id q = smr_id rule" for q
    using that(1) shape assms(6) by (simp add: rules_shape_def Let_def fr)
  have apart: "smr_commodity_sku (f q) \<noteq> smr_commodity_sku q'"
    if "q \<in> set (t_sku_mapping_rule (cf_db cf))" "q' \<in> set (t_sku_mapping_rule (cf_db cf))" "smr_id q = smr_id rule" "smr_id q' \<noteq> smr_id rule" for q q'
  proof -
    have "inj_on smr_commodity_sku (set (t_sku_mapping_rule (cf_db cf)))" using shape by (simp add: rules_shape_def Let_def distinct_map)
    from inj_onD [OF this _ that(1,2)] that(3,4) show ?thesis by (auto simp: fr)
  qed
  have upd: "rules_shape (update_mapping_rule (smr_id rule) f cf)"
    "smr_id ` set (t_sku_mapping_rule (cf_db (update_mapping_rule (smr_id rule) f cf))) = smr_id ` set (t_sku_mapping_rule (cf_db cf))"
    by (rule update_rule_shape [OF shape fr(1) ok apart]; assumption)+
  have skus: "map smr_commodity_sku (t_sku_mapping_rule (cf_db (update_mapping_rule (smr_id rule) f cf))) = map smr_commodity_sku (t_sku_mapping_rule (cf_db cf))"
    by (simp add: update_mapping_rule_def fr)
  have comps: "t_sku_mapping_component (cf_db (update_mapping_rule (smr_id rule) f cf)) = t_sku_mapping_component (cf_db cf)"
    by (simp add: update_mapping_rule_def)
  have "rules_inv cf'"
  proof (rule replace_components_inv [OF upd(1) assms(7) _ _ r])
    show "smr_id rule \<in> smr_id ` set (t_sku_mapping_rule (cf_db (update_mapping_rule (smr_id rule) f cf)))"
      unfolding upd(2) by (rule mem)
    show "smr_id ` set (t_sku_mapping_rule (cf_db (update_mapping_rule (smr_id rule) f cf))) - {smr_id rule}
        \<subseteq> smc_rule_id ` set (t_sku_mapping_component (cf_db (update_mapping_rule (smr_id rule) f cf)))"
      unfolding upd(2) comps using assms(1) by (auto simp: rules_inv_def)
  qed
  moreover have "import_link db0 cf' ks"
  proof -
    have tbl: "t_sku_mapping_rule (cf_db cf') = t_sku_mapping_rule (cf_db (update_mapping_rule (smr_id rule) f cf))"
      using replace_components_result [OF r] by simp
    have sk: "smr_commodity_sku ` set (t_sku_mapping_rule (cf_db cf')) = smr_commodity_sku ` set (t_sku_mapping_rule (cf_db cf))"
      unfolding tbl using arg_cong [OF skus, of set] by simp
    have "import_link db0 cf' ks = import_link db0 cf ks" unfolding import_link_def sk unfolding tbl upd(2) ..
    then show ?thesis using assms(2) by (simp add: import_link_def)
  qed
  ultimately show ?thesis by blast
qed

lemma import_fold_inv:
  assumes "rules_inv cf" "import_link db0 cf (map fst rules)" "wf_dict rules"
    "\<forall>(k, b) \<in> set rules. rb_commodity_sku b = k \<and> good_text 100 k \<and> good_remark (rb_remark b) \<and> good_components (rb_components b)"
    "fold_res (import_rule db0) (cf, x, y) rules = Inr (cf', x', y')"
  shows "rules_inv cf'"
  using assms
proof (induction rules arbitrary: cf x y)
  case (Cons e rules)
  obtain k b where e: "e = (k, b)" by (cases e)
  from Cons.prems(5) obtain cf1 x1 y1 where step: "import_rule db0 (cf, x, y) (k, b) = Inr (cf1, x1, y1)"
    and rest: "fold_res (import_rule db0) (cf1, x1, y1) rules = Inr (cf', x', y')"
    by (auto simp: e bind_res_Inr_iff)
  have "rules_inv cf1 \<and> import_link db0 cf1 (map fst rules)"
    using Cons.prems(1-4) by (intro import_rule_inv [OF _ _ _ _ _ _ _ step]) (simp_all add: e)
  then show ?case using Cons.prems(3,4) by (intro Cons.IH [OF _ _ _ _ rest]) (simp_all add: e)
qed simp

lemma import_inv:
  assumes "rules_inv cf" "import_sku_mapping_rules upload cf = Inr (cf', out)"
  shows "rules_inv cf'"
proof -
  from assms(2) obtain rows rules x y where n: "normalize_import_rows rows = Inr rules"
    and f: "fold_res (import_rule (cf_db cf)) (cf, 0, 0) rules = Inr (cf', x, y)"
    by (auto simp: import_sku_mapping_rules_def bind_res_Inr_iff split: option.splits if_splits)
  have "import_link (cf_db cf) cf (map fst rules)"
    unfolding import_link_def by (auto simp: find_None_iff dest!: find_in_set split: option.split)
  then show ?thesis by (rule import_fold_inv [OF assms(1) _ normalize_import_ok [OF n] f])
qed

subsection \<open>Groups keep the invariant\<close>

lemma normalize_members_good:
  "normalize_members seen vs = Some ms \<Longrightarrow> distinct ms \<and> set ms \<inter> set seen = {} \<and> [] \<notin> set ms \<and> (ms = [] \<longleftrightarrow> vs = [])"
  by (induction vs arbitrary: seen ms) (fastforce simp: Let_def split: if_splits)+

lemma members_field_good: "members_field vs = Some ms \<Longrightarrow> distinct ms \<and> [] \<notin> set ms \<and> ms \<noteq> []"
  using normalize_members_good by (auto simp: members_field_def split: if_splits)

lemma group_result_state: "group_result gid cf = Inr (cf', out) \<Longrightarrow> cf' = cf"
  by (auto simp: group_result_def split: option.splits)

lemma replace_members_inv:
  assumes "groups_shape cf" "distinct ms" "[] \<notin> set ms" "ms \<noteq> []" "gid \<in> pig_id ` set (t_physical_item_group (cf_db cf))"
    "pig_id ` set (t_physical_item_group (cf_db cf)) - {gid} \<subseteq> pia_group_id ` set (t_physical_item_sku_alias (cf_db cf))"
    "\<forall>a \<in> set (t_physical_item_sku_alias (cf_db cf)). pia_sku a \<in> set ms \<longrightarrow> pia_group_id a = gid"
    "replace_physical_members gid ms cf = Inr cf'"
  shows "groups_inv cf'"
proof -
  let ?old = "filter (\<lambda>a. pia_group_id a \<noteq> gid) (t_physical_item_sku_alias (cf_db cf))"
  let ?new = "map (\<lambda>sku. \<lparr>pia_group_id = gid, pia_sku = sku\<rparr>) ms"
  have cf': "cf' = cf\<lparr>cf_db := (cf_db cf)\<lparr>t_physical_item_sku_alias := ?old @ ?new\<rparr>\<rparr>"
    using assms(8) by (auto simp: replace_physical_members_def split: if_splits)
  have "distinct (map pia_sku (?old @ ?new))"
    using assms(1,2,7) by (auto simp: groups_shape_def Let_def distinct_map_filter comp_def)
  moreover have "pia_group_id a \<in> pig_id ` set (t_physical_item_group (cf_db cf)) \<and> pia_sku a \<noteq> []" if "a \<in> set (?old @ ?new)" for a
    using that assms(1,3,5) by (auto simp: groups_shape_def Let_def)
  ultimately have "groups_shape cf'" using assms(1) unfolding cf' groups_shape_def Let_def by simp
  moreover have "insert gid (pia_group_id ` set (t_physical_item_sku_alias (cf_db cf))) \<subseteq> pia_group_id ` set (?old @ ?new)"
    using assms(4) by (cases ms) auto
  ultimately show ?thesis using assms(6) unfolding cf' groups_inv_def by auto
qed

lemma validate_group_result:
  assumes "validate_physical_group_unique db name ms cur = Inr u" "distinct (map pig_name (t_physical_item_group db))"
  shows "g \<in> set (t_physical_item_group db) \<Longrightarrow> pig_name g = name \<Longrightarrow> cur = Some (pig_id g)"
    "a \<in> set (t_physical_item_sku_alias db) \<Longrightarrow> pia_sku a \<in> set ms \<Longrightarrow> cur = Some (pia_group_id a)"
proof -
  show "cur = Some (pia_group_id a)" if "a \<in> set (t_physical_item_sku_alias db)" "pia_sku a \<in> set ms"
    using assms(1) that by (auto simp: validate_physical_group_unique_def list_ex_iff split: if_splits)
  assume g: "g \<in> set (t_physical_item_group db)" "pig_name g = name"
  obtain q where q: "find (\<lambda>g. pig_name g = name) (t_physical_item_group db) = Some q"
    using g by (cases "find (\<lambda>g. pig_name g = name) (t_physical_item_group db)") (auto simp: find_None_iff)
  have "q = g" using find_in_set [OF q] assms(2) g by (auto simp: distinct_map inj_on_def)
  then show "cur = Some (pig_id g)" using assms(1) q by (auto simp: validate_physical_group_unique_def split: if_splits)
qed

lemma create_group_inv:
  assumes "groups_inv cf" "create_physical_item_group body0 cf = Inr (cf', out)"
  shows "groups_inv cf'"
proof -
  define ins where "ins body = cf\<lparr>cf_db := (cf_db cf)\<lparr>t_physical_item_group := t_physical_item_group (cf_db cf) @
      [\<lparr>pig_id = cf_next_group_id cf, pig_name = gi_name body, pig_enabled = gi_enabled body, pig_remark = gi_remark body\<rparr>]\<rparr>,
      cf_next_group_id := cf_next_group_id cf + 1\<rparr>" for body :: group_in
  from assms(2) obtain body where b: "group_schema body0 = Some body"
    "validate_physical_group_unique (cf_db cf) (gi_name body) (gi_members body) None = Inr ()"
    "replace_physical_members (cf_next_group_id cf) (gi_members body) (ins body) = Inr cf'"
    by (auto simp: create_physical_item_group_def bind_res_Inr_iff Let_def ins_def dest!: group_result_state split: option.splits)
  have ms: "distinct (gi_members body) \<and> [] \<notin> set (gi_members body) \<and> gi_members body \<noteq> []"
    using b(1) members_field_good by (auto simp: group_schema_def split: option.splits)
  have shape: "groups_shape cf" using assms(1) by (simp add: groups_inv_def)
  then have d: "distinct (map pig_name (t_physical_item_group (cf_db cf)))" by (simp add: groups_shape_def Let_def)
  note v = validate_group_result [OF b(2) d]
  have name: "gi_name body \<notin> pig_name ` set (t_physical_item_group (cf_db cf))" using v(1) by fastforce
  have "groups_shape (ins body)" using shape name by (fastforce simp: groups_shape_def Let_def ins_def)
  then show ?thesis
    using ms v(2) assms(1) b(3) by (intro replace_members_inv [where gid = "cf_next_group_id cf"]) (auto simp: ins_def groups_inv_def)
qed

lemma patch_group_inv:
  assumes "groups_inv cf" "patch_physical_item_group patch0 gid cf = Inr (cf', out)"
  shows "groups_inv cf'"
proof -
  let ?grps = "t_physical_item_group (cf_db cf)"
  from assms(2) obtain p g where p: "group_patch_schema patch0 = Some p" "find (\<lambda>g. pig_id g = gid) ?grps = Some g"
    by (auto simp: patch_physical_item_group_def Let_def split: option.splits if_splits)
  define name where "name = (case gp_name p of None \<Rightarrow> pig_name g | Some n \<Rightarrow> n)"
  define ms where "ms = (case gp_members p of None \<Rightarrow> group_aliases (cf_db cf) gid | Some ms \<Rightarrow> ms)"
  define f where "f g = (if pig_id g = gid then g\<lparr>pig_name := name, pig_enabled := (case gp_enabled p of None \<Rightarrow> pig_enabled g | Some b \<Rightarrow> b),
      pig_remark := (if gp_remark_set p then gp_remark p else pig_remark g)\<rparr> else g)" for g :: physical_item_group
  define cf1 where "cf1 = cf\<lparr>cf_db := (cf_db cf)\<lparr>t_physical_item_group := map f ?grps\<rparr>\<rparr>"
  from assms(2) have u: "validate_physical_group_unique (cf_db cf) name ms (Some gid) = Inr ()"
    and cf': "case gp_members p of None \<Rightarrow> cf' = cf1 | Some ms \<Rightarrow> replace_physical_members gid ms cf1 = Inr cf'"
    using p unfolding patch_physical_item_group_def Let_def cf1_def f_def [abs_def] name_def ms_def
    by (auto simp: bind_res_Inr_iff split: option.splits if_splits dest!: group_result_state)
  have shape: "groups_shape cf" using assms(1) by (simp add: groups_inv_def)
  then have d: "distinct (map pig_name ?grps)" "inj_on pig_id (set ?grps)" "distinct ?grps" "inj_on pig_name (set ?grps)"
    by (simp_all add: groups_shape_def Let_def distinct_map)
  note v = validate_group_result [OF u d(1)]
  have ids: "pig_id (f g) = pig_id g" for g by (simp add: f_def)
  have "inj_on (\<lambda>g. pig_name (f g)) (set ?grps)"
  proof (rule inj_onI)
    fix a b assume ab: "a \<in> set ?grps" "b \<in> set ?grps" "pig_name (f a) = pig_name (f b)"
    have "pig_id a = pig_id b \<or> pig_name a = pig_name b"
      using v(1) [OF ab(1)] v(1) [OF ab(2)] ab(3) by (auto simp: f_def split: if_splits)
    then show "a = b" using inj_onD [OF d(2)] inj_onD [OF d(4)] ab(1,2) by blast
  qed
  then have "distinct (map pig_name (map f ?grps))" using d(3) by (simp add: distinct_map comp_def)
  then have shape1: "groups_shape cf1"
    using shape unfolding groups_shape_def Let_def cf1_def by (simp add: ids comp_def image_image)
  have img: "pig_id ` set (t_physical_item_group (cf_db cf1)) = pig_id ` set ?grps" "t_physical_item_sku_alias (cf_db cf1) = t_physical_item_sku_alias (cf_db cf)"
    by (simp_all add: cf1_def image_image ids)
  show ?thesis
  proof (cases "gp_members p")
    case None
    then show ?thesis using cf' shape1 img assms(1) by (simp add: groups_inv_def)
  next
    case (Some new)
    have good: "distinct new \<and> [] \<notin> set new \<and> new \<noteq> []"
    proof -
      obtain vs where "members_field vs = Some new"
        using p(1) Some by (auto simp: group_patch_schema_def optional_field_def split: option.splits)
      then show ?thesis by (rule members_field_good)
    qed
    have "gid \<in> pig_id ` set ?grps" using find_in_set [OF p(2)] by auto
    then show ?thesis
      using cf' Some good v(2) assms(1) by (intro replace_members_inv [OF shape1]) (auto simp: img ms_def groups_inv_def)
  qed
qed

lemma delete_group_inv:
  assumes "groups_inv cf" "delete_physical_item_group gid cf = Inr cf'"
  shows "groups_inv cf'"
proof -
  have cf': "cf' = cf\<lparr>cf_db := (cf_db cf)\<lparr>t_physical_item_group := filter (\<lambda>g. pig_id g \<noteq> gid) (t_physical_item_group (cf_db cf)),
      t_physical_item_sku_alias := filter (\<lambda>a. pia_group_id a \<noteq> gid) (t_physical_item_sku_alias (cf_db cf))\<rparr>\<rparr>"
    using assms(2) by (auto simp: delete_physical_item_group_def Let_def split: if_splits)
  show ?thesis
    using assms(1) unfolding cf' groups_inv_def groups_shape_def Let_def by (auto simp: distinct_map_filter)
qed

subsection \<open>Everything that happens to these tables\<close>

text \<open>The operations in any order, and between them any change of the other tables.\<close>

inductive config_step :: "config_state \<Rightarrow> config_state \<Rightarrow> bool" where
  create_rule: "create_sku_mapping_rule rbody cf = Inr (cf', rout) \<Longrightarrow> config_step cf cf'"
| patch_rule: "patch_sku_mapping_rule rpatch rid cf = Inr (cf', rout) \<Longrightarrow> config_step cf cf'"
| delete_rule: "delete_sku_mapping_rule rid cf = Inr cf' \<Longrightarrow> config_step cf cf'"
| import_rules: "import_sku_mapping_rules upload cf = Inr (cf', iout) \<Longrightarrow> config_step cf cf'"
| create_grp: "create_physical_item_group gbody cf = Inr (cf', gout) \<Longrightarrow> config_step cf cf'"
| patch_grp: "patch_physical_item_group gpatch gid cf = Inr (cf', gout) \<Longrightarrow> config_step cf cf'"
| delete_grp: "delete_physical_item_group gid cf = Inr cf' \<Longrightarrow> config_step cf cf'"
| elsewhere: "t_sku_mapping_rule db = t_sku_mapping_rule (cf_db cf) \<Longrightarrow> t_sku_mapping_component db = t_sku_mapping_component (cf_db cf) \<Longrightarrow>
    t_physical_item_group db = t_physical_item_group (cf_db cf) \<Longrightarrow> t_physical_item_sku_alias db = t_physical_item_sku_alias (cf_db cf) \<Longrightarrow>
    config_step cf (cf\<lparr>cf_db := db\<rparr>)"

definition initial_config :: "engine_db \<Rightarrow> config_state" where
  "initial_config db =
     \<lparr>cf_db = db\<lparr>t_sku_mapping_rule := [], t_sku_mapping_component := [], t_physical_item_group := [], t_physical_item_sku_alias := []\<rparr>,
      cf_next_rule_id = 1, cf_next_component_id = 1, cf_next_group_id = 1, cf_next_zipcode_rule_id = 1\<rparr>"

definition config_reachable :: "config_state \<Rightarrow> bool" where
  "config_reachable cf \<longleftrightarrow> (\<exists>db. config_step\<^sup>*\<^sup>* (initial_config db) cf)"

text \<open>The two halves do not touch each other's tables.\<close>

definition same_groups :: "config_state \<Rightarrow> config_state \<Rightarrow> bool" where
  "same_groups cf cf' \<longleftrightarrow> t_physical_item_group (cf_db cf') = t_physical_item_group (cf_db cf)
     \<and> t_physical_item_sku_alias (cf_db cf') = t_physical_item_sku_alias (cf_db cf) \<and> cf_next_group_id cf' = cf_next_group_id cf"

definition same_rules :: "config_state \<Rightarrow> config_state \<Rightarrow> bool" where
  "same_rules cf cf' \<longleftrightarrow> t_sku_mapping_rule (cf_db cf') = t_sku_mapping_rule (cf_db cf)
     \<and> t_sku_mapping_component (cf_db cf') = t_sku_mapping_component (cf_db cf) \<and> cf_next_rule_id cf' = cf_next_rule_id cf
     \<and> cf_next_component_id cf' = cf_next_component_id cf"

lemma same_groups_inv: "same_groups cf cf' \<Longrightarrow> groups_inv cf' = groups_inv cf"
  by (simp add: same_groups_def groups_inv_def groups_shape_def)

lemma same_rules_inv: "same_rules cf cf' \<Longrightarrow> rules_inv cf' = rules_inv cf"
  by (simp add: same_rules_def rules_inv_def rules_shape_def)

lemma replace_same_groups: "replace_mapping_components rid cs cf = Inr cf' \<Longrightarrow> same_groups cf cf'"
  by (drule replace_components_result) (simp add: same_groups_def)

lemma same_groups_trans: "same_groups cf cf1 \<Longrightarrow> same_groups cf1 cf2 \<Longrightarrow> same_groups cf cf2"
  by (simp add: same_groups_def)

lemma insert_update_same_groups: "same_groups cf (insert_mapping_rule b cf)" "same_groups cf (update_mapping_rule rid f cf)"
  by (simp_all add: same_groups_def insert_mapping_rule_def update_mapping_rule_def)

lemma import_same_groups: "import_rule db0 (cf, x, y) e = Inr (cf', x', y') \<Longrightarrow> same_groups cf cf'"
  by (cases e) (auto simp: import_rule_def bind_res_Inr_iff split: option.splits
      dest!: replace_same_groups intro: same_groups_trans [OF insert_update_same_groups(1)] same_groups_trans [OF insert_update_same_groups(2)])

lemma import_fold_same_groups: "fold_res (import_rule db0) (cf, x, y) rules = Inr (cf', x', y') \<Longrightarrow> same_groups cf cf'"
proof (induction rules arbitrary: cf x y)
  case (Cons e rules)
  then show ?case by (auto simp: bind_res_Inr_iff dest!: import_same_groups intro: same_groups_trans)
qed (simp add: same_groups_def)

lemma rule_ops_same_groups:
  "create_sku_mapping_rule rbody cf = Inr (cf', rout) \<Longrightarrow> same_groups cf cf'"
  "patch_sku_mapping_rule rpatch rid cf = Inr (cf', rout) \<Longrightarrow> same_groups cf cf'"
  "delete_sku_mapping_rule rid cf = Inr cf' \<Longrightarrow> same_groups cf cf'"
  "import_sku_mapping_rules upload cf = Inr (cf', iout) \<Longrightarrow> same_groups cf cf'"
proof -
  show "create_sku_mapping_rule rbody cf = Inr (cf', rout) \<Longrightarrow> same_groups cf cf'"
    by (auto simp: create_sku_mapping_rule_def bind_res_Inr_iff Let_def split: option.splits
        dest!: rule_result_state replace_same_groups intro: same_groups_trans [OF insert_update_same_groups(1)])
  show "patch_sku_mapping_rule rpatch rid cf = Inr (cf', rout) \<Longrightarrow> same_groups cf cf'"
    by (auto simp: patch_sku_mapping_rule_def bind_res_Inr_iff Let_def split: option.splits if_splits
        dest!: rule_result_state replace_same_groups intro: insert_update_same_groups same_groups_trans [OF insert_update_same_groups(2)])
  show "delete_sku_mapping_rule rid cf = Inr cf' \<Longrightarrow> same_groups cf cf'"
    by (auto simp: delete_sku_mapping_rule_def same_groups_def Let_def split: if_splits)
  show "import_sku_mapping_rules upload cf = Inr (cf', iout) \<Longrightarrow> same_groups cf cf'"
    by (auto simp: import_sku_mapping_rules_def bind_res_Inr_iff split: option.splits if_splits dest: import_fold_same_groups)
qed

lemma group_ops_same_rules:
  "create_physical_item_group gbody cf = Inr (cf', gout) \<Longrightarrow> same_rules cf cf'"
  "patch_physical_item_group gpatch gid cf = Inr (cf', gout) \<Longrightarrow> same_rules cf cf'"
  "delete_physical_item_group gid cf = Inr cf' \<Longrightarrow> same_rules cf cf'"
  by (auto simp: create_physical_item_group_def patch_physical_item_group_def delete_physical_item_group_def
      replace_physical_members_def bind_res_Inr_iff Let_def same_rules_def
      split: option.splits if_splits dest!: group_result_state)

lemma config_inv_step: "config_step cf cf' \<Longrightarrow> rules_inv cf \<and> groups_inv cf \<Longrightarrow> rules_inv cf' \<and> groups_inv cf'"
proof (induction rule: config_step.induct)
  case (create_rule rbody cf cf' rout)
  then show ?case using create_rule_inv same_groups_inv [OF rule_ops_same_groups(1)] by blast
next
  case (patch_rule rpatch rid cf cf' rout)
  then show ?case using patch_rule_inv same_groups_inv [OF rule_ops_same_groups(2)] by blast
next
  case (delete_rule rid cf cf')
  then show ?case using delete_rule_inv same_groups_inv [OF rule_ops_same_groups(3)] by blast
next
  case (import_rules upload cf cf' iout)
  then show ?case using import_inv same_groups_inv [OF rule_ops_same_groups(4)] by blast
next
  case (create_grp gbody cf cf' gout)
  then show ?case using create_group_inv same_rules_inv [OF group_ops_same_rules(1)] by blast
next
  case (patch_grp gpatch gid cf cf' gout)
  then show ?case using patch_group_inv same_rules_inv [OF group_ops_same_rules(2)] by blast
next
  case (delete_grp gid cf cf')
  then show ?case using delete_group_inv same_rules_inv [OF group_ops_same_rules(3)] by blast
next
  case (elsewhere db cf)
  then show ?case by (simp add: rules_inv_def rules_shape_def groups_inv_def groups_shape_def)
qed

lemma config_inv_reachable: "config_reachable cf \<Longrightarrow> rules_inv cf \<and> groups_inv cf"
proof -
  assume "config_reachable cf"
  then obtain db where "config_step\<^sup>*\<^sup>* (initial_config db) cf" by (auto simp: config_reachable_def)
  then show ?thesis
  proof (induction rule: rtranclp_induct)
    case base
    show ?case by (simp add: initial_config_def rules_inv_def rules_shape_def groups_inv_def groups_shape_def)
  next
    case (step y z)
    then show ?case using config_inv_step by blast
  qed
qed

subsection \<open>What the engine reads\<close>

definition groups_positive :: "(int, mapping_group) dict \<Rightarrow> bool" where
  "groups_positive d \<longleftrightarrow> (\<forall>(n, g) \<in> set d. \<forall>m \<in> set g. 0 < mc_quantity m)"

lemma merge_component_positive:
  "0 < quantity \<Longrightarrow> \<forall>m \<in> set g. 0 < mc_quantity m \<Longrightarrow> \<forall>m \<in> set (merge_component sku quantity g). 0 < mc_quantity m"
  by (induction g) auto

lemma dict_get_or_in: "dict_get_or d k x = x \<or> (k, dict_get_or d k x) \<in> set d"
  using dict_get_in [of d k] by (auto simp: dict_get_or_def split: option.split)

lemma add_rule_component_positive:
  assumes "groups_positive d" "0 < smc_quantity c"
  shows "groups_positive (add_rule_component sku_groups d c)"
proof -
  have "\<forall>m \<in> set (dict_get_or d (smc_group_no c) []). 0 < mc_quantity m"
    using assms(1) dict_get_or_in [of d "smc_group_no c" "[]"] by (auto simp: groups_positive_def)
  note pos = merge_component_positive [OF assms(2) this]
  show ?thesis
    using assms(1) pos subsetD [OF dict_set_entries] unfolding groups_positive_def add_rule_component_def Let_def by fastforce
qed

lemma add_mapping_rule_positive:
  assumes "quantities_positive rules \<and> wf_dict rules" "\<forall>c \<in> set (t_sku_mapping_component db). 0 < smc_quantity c"
  shows "quantities_positive (add_mapping_rule db sku_groups rules row) \<and> wf_dict (add_mapping_rule db sku_groups rules row)"
proof -
  let ?g = "foldl (add_rule_component sku_groups) [] (rule_component_rows db row)" and ?sku = "smr_commodity_sku row"
  have fold: "groups_positive d \<Longrightarrow> \<forall>c \<in> set cs. 0 < smc_quantity c \<Longrightarrow> groups_positive (foldl (add_rule_component sku_groups) d cs)" for d cs
    by (induction cs arbitrary: d) (simp_all add: add_rule_component_positive)
  have g: "groups_positive ?g" by (rule fold) (use assms(2) in \<open>simp_all add: groups_positive_def rule_component_rows_def\<close>)
  have comps: "\<forall>m \<in> set (dict_get_or ?g n []). 0 < mc_quantity m" for n
    using g dict_get_or_in [of ?g n "[]"] by (auto simp: groups_positive_def)
  have step: "quantities_positive (fst (add_rule_group ?sku ?g st n)) \<and> wf_dict (fst (add_rule_group ?sku ?g st n))"
    if "quantities_positive (fst st) \<and> wf_dict (fst st)" for st n
  proof -
    have old: "\<forall>g \<in> set (dict_get_or (fst st) ?sku []). \<forall>m \<in> set g. 0 < mc_quantity m"
      using that dict_get_or_in [of "fst st" ?sku "[]"] by (auto simp: quantities_positive_def)
    have "quantities_positive (dict_set ?sku (dict_get_or (fst st) ?sku [] @ [sort_key mc_inventory_sku (dict_get_or ?g n [])]) (fst st))"
      using that old comps [of n] subsetD [OF dict_set_entries] unfolding quantities_positive_def by fastforce
    then show ?thesis using that by (cases st) (simp add: add_rule_group_def Let_def)
  qed
  have "quantities_positive (fst st) \<and> wf_dict (fst st) \<Longrightarrow> quantities_positive (fst (foldl (add_rule_group ?sku ?g) st ns))
      \<and> wf_dict (fst (foldl (add_rule_group ?sku ?g) st ns))" for st ns
    by (induction ns arbitrary: st) (simp_all add: step)
  then show ?thesis using assms(1) unfolding add_mapping_rule_def Let_def by (simp add: assms(1))
qed

lemma load_rules_positive:
  assumes "\<forall>c \<in> set (t_sku_mapping_component db). 0 < smc_quantity c"
  shows "quantities_positive (load_active_mapping_rules db skus groups) \<and> wf_dict (load_active_mapping_rules db skus groups)"
proof -
  have fold: "quantities_positive r \<and> wf_dict r \<Longrightarrow> quantities_positive (foldl (add_mapping_rule db g) r rows) \<and> wf_dict (foldl (add_mapping_rule db g) r rows)" for r g rows
    by (induction rows arbitrary: r) (simp_all add: add_mapping_rule_positive assms)
  show ?thesis unfolding load_active_mapping_rules_def Let_def by (rule fold) (simp add: quantities_positive_def)
qed

lemma rules_inv_components:
  assumes "rules_inv cf" "r \<in> set (t_sku_mapping_rule (cf_db cf))"
  shows "good_components (map component_of (rule_component_rows (cf_db cf) r))"
proof -
  let ?comps = "t_sku_mapping_component (cf_db cf)" and ?rows = "rule_component_rows (cf_db cf) r"
  have rows: "set ?rows = {c \<in> set ?comps. smc_rule_id c = smr_id r}" by (simp add: rule_component_rows_def)
  have "smr_id r \<in> smc_rule_id ` set ?comps" using assms by (auto simp: rules_inv_def)
  then have "?rows \<noteq> []" using rows by force
  moreover have "distinct (map smc_inventory_sku ?rows)"
  proof -
    have "distinct (map (\<lambda>c. (smc_rule_id c, smc_inventory_sku c)) ?comps)"
      using assms(1) by (simp add: rules_inv_def rules_shape_def Let_def)
    then have "inj_on (\<lambda>c. (smc_rule_id c, smc_inventory_sku c)) (set ?comps)" "distinct ?comps" by (simp_all add: distinct_map)
    then have "inj_on smc_inventory_sku (set ?rows)" "distinct ?rows"
      by (auto simp: inj_on_def rows) (simp add: rule_component_rows_def)
    then show ?thesis by (simp add: distinct_map)
  qed
  moreover have "\<forall>c \<in> set ?rows. good_component (component_of c)"
    using assms(1) rows by (auto simp: rules_inv_def rules_shape_def Let_def)
  ultimately show ?thesis by (simp add: good_components_def component_of_def comp_def)
qed

section \<open>Properties\<close>

text \<open>
  C5: the endpoints establish what the calculation assumes. However rules and groups were
  created, edited, imported and deleted: a commodity has at most one rule, every rule has at
  least one component, no rule names an inventory SKU twice, quantities are between 1 and
  999999, an inventory SKU belongs to at most one stock-sharing group; and the rules the
  engine loads have one entry per commodity and only positive quantities.
\<close>

theorem config_establishes_engine_rules:
  assumes "config_reachable cf"
  shows "distinct (map smr_commodity_sku (t_sku_mapping_rule (cf_db cf)))
    \<and> (\<forall>r \<in> set (t_sku_mapping_rule (cf_db cf)). rule_component_rows (cf_db cf) r \<noteq> []
         \<and> distinct (map smc_inventory_sku (rule_component_rows (cf_db cf) r))
         \<and> (\<forall>c \<in> set (rule_component_rows (cf_db cf) r). 1 \<le> smc_quantity c \<and> smc_quantity c \<le> 999999))
    \<and> distinct (map pia_sku (t_physical_item_sku_alias (cf_db cf)))
    \<and> quantities_positive (load_active_mapping_rules (cf_db cf) skus groups)
    \<and> wf_dict (load_active_mapping_rules (cf_db cf) skus groups)"
proof -
  let ?db = "cf_db cf"
  have inv: "rules_inv cf" "groups_inv cf" using config_inv_reachable [OF assms] by blast+
  have comps: "rule_component_rows ?db r \<noteq> [] \<and> distinct (map smc_inventory_sku (rule_component_rows ?db r))
      \<and> (\<forall>c \<in> set (rule_component_rows ?db r). 1 \<le> smc_quantity c \<and> smc_quantity c \<le> 999999)"
    if "r \<in> set (t_sku_mapping_rule ?db)" for r
    using rules_inv_components [OF inv(1) that] by (simp add: good_components_def good_component_def component_of_def comp_def)
  have "\<forall>c \<in> set (t_sku_mapping_component ?db). 0 < smc_quantity c"
    using inv(1) by (fastforce simp: rules_inv_def rules_shape_def Let_def good_component_def component_of_def)
  from load_rules_positive [OF this] have
    "quantities_positive (load_active_mapping_rules ?db skus groups) \<and> wf_dict (load_active_mapping_rules ?db skus groups)" .
  then show ?thesis
    using inv comps by (simp add: rules_inv_def groups_inv_def rules_shape_def groups_shape_def Let_def)
qed

text \<open>
  A table with one rule, created through the endpoint.
\<close>

definition demo_rule_body :: rule_in where
  "demo_rule_body = \<lparr>rb_commodity_sku = ''KIT'', rb_enabled = True, rb_remark = None,
     rb_components = [\<lparr>mi_group_no = 1, mi_inventory_sku = ''A'', mi_quantity = 2\<rparr>, \<lparr>mi_group_no = 1, mi_inventory_sku = ''B'', mi_quantity = 1\<rparr>]\<rparr>"

definition demo_config_state :: config_state where
  "demo_config_state = initial_config (demo_alias_db [] [])"

lemma demo_create:
  "case create_sku_mapping_rule demo_rule_body demo_config_state of Inl e \<Rightarrow> False
   | Inr (cf, out) \<Rightarrow> map smr_commodity_sku (t_sku_mapping_rule (cf_db cf)) = [''KIT'']
       \<and> map smc_inventory_sku (t_sku_mapping_component (cf_db cf)) = [''A'', ''B'']
       \<and> map smr_remark (t_sku_mapping_rule (cf_db cf)) = [None] \<and> mo_formula_preview out = ''KIT=2*A+1*B''"
  by code_simp

lemma demo_config_reached:
  "\<exists>cf. config_reachable cf \<and> map smr_commodity_sku (t_sku_mapping_rule (cf_db cf)) = [''KIT'']
     \<and> map smc_inventory_sku (t_sku_mapping_component (cf_db cf)) = [''A'', ''B''] \<and> map smr_remark (t_sku_mapping_rule (cf_db cf)) = [None]"
proof -
  obtain cf out where c: "create_sku_mapping_rule demo_rule_body demo_config_state = Inr (cf, out)"
    "map smr_commodity_sku (t_sku_mapping_rule (cf_db cf)) = [''KIT'']" "map smc_inventory_sku (t_sku_mapping_component (cf_db cf)) = [''A'', ''B'']"
    "map smr_remark (t_sku_mapping_rule (cf_db cf)) = [None]"
    using demo_create by (auto split: sum.splits)
  have "config_step\<^sup>*\<^sup>* (initial_config (demo_alias_db [] [])) cf"
    using config_step.create_rule [OF c(1)] unfolding demo_config_state_def by (rule r_into_rtranclp)
  then have "config_reachable cf" unfolding config_reachable_def by (rule exI)
  then show ?thesis using c(2-4) by (intro exI [of _ cf] conjI)
qed

theorem config_establishes_engine_rules_witness:
  "\<exists>cf :: config_state. map smr_commodity_sku (t_sku_mapping_rule (cf_db cf)) = [''KIT'']
     \<and> quantities_positive (load_active_mapping_rules (cf_db cf) None None)"
proof -
  obtain cf where cf: "config_reachable cf" "map smr_commodity_sku (t_sku_mapping_rule (cf_db cf)) = [''KIT'']"
    using demo_config_reached by (elim exE conjE)
  from config_establishes_engine_rules [OF cf(1), of None None] have "quantities_positive (load_active_mapping_rules (cf_db cf) None None)"
    by (elim conjE)
  then show ?thesis using cf(2) by (intro exI [of _ cf] conjI)
qed

end
