(* ===== verification/Mapping_Transfer.thy ===== *)
theory Mapping_Transfer
  imports Mapping_Config
begin

text \<open>
  The export and the import of mapping rules fit together: reading back an exported sheet
  gives the rules of the table. The workbook library is a parameter \<open>reload\<close>: what it reads
  from a cell it wrote. Whole numbers and texts come back as they were (\<^verbatim>\<open>openpyxl\<close> takes a
  text that starts with an equals sign for a formula), an empty text may come back as null.
\<close>

section \<open>Lemmas\<close>

subsection \<open>Numbers as text\<close>

lemma is_digit_nat: "c \<in> set (nat_to_string n) \<Longrightarrow> is_digit c"
  using nat_to_string_digits by (simp add: is_digit_def Let_def)

lemma valid_digits_all: "s \<noteq> [] \<Longrightarrow> \<forall>c \<in> set s. is_digit c \<Longrightarrow> valid_digits s"
proof (induction s rule: valid_digits.induct)
  case (3 c d s)
  then have "d \<noteq> CHR ''_''" by (auto simp: is_digit_def)
  then show ?case using 3 by simp
qed simp_all

lemma digits_value_nat: "digits_value (nat_to_string n) = int n"
proof (induction n rule: nat_to_string.induct)
  case (1 n)
  have one: "digits_value [char_of (48 + k)] = int k" if "k < 10" for k :: nat
    using digit_char [OF that] that by (simp add: digits_value_def is_digit_def digit_value_def)
  have snoc: "digits_value (s @ [char_of (48 + k)]) = digits_value s * 10 + int k" if "k < 10" for s and k :: nat
    using digit_char [OF that] that by (simp add: digits_value_def is_digit_def digit_value_def)
  show ?case
  proof (cases "n < 10")
    case True
    then show ?thesis by (subst nat_to_string.simps) (simp add: one)
  next
    case False
    have "digits_value (nat_to_string n) = digits_value (nat_to_string (n div 10)) * 10 + int (n mod 10)"
      using False by (subst nat_to_string.simps) (simp add: snoc)
    also have "\<dots> = int (n div 10) * 10 + int (n mod 10)" using 1 [OF False] by simp
    also have "\<dots> = int n" by (metis div_mult_mod_eq of_nat_add of_nat_mult of_nat_numeral)
    finally show ?thesis .
  qed
qed

lemma digit_no_space: "is_digit c \<Longrightarrow> \<not> py_isspace c"
  by (auto simp: is_digit_def py_isspace_def Let_def)

lemma strip_digits: "\<forall>c \<in> set s. is_digit c \<Longrightarrow> py_strip s = s"
  unfolding py_strip_def using digit_no_space by (intro strip_by_none) (auto simp: list_all_iff)

lemma py_int_of_nat: "py_int (nat_to_string n) = Some (int n)"
proof -
  have d: "\<forall>c \<in> set (nat_to_string n). is_digit c" using is_digit_nat by blast
  obtain c s where cs: "nat_to_string n = c # s" using nat_to_string_ne by (cases "nat_to_string n") auto
  then have "is_digit c" using d by simp
  then have "split_sign (nat_to_string n) = (False, nat_to_string n)" unfolding split_sign_def cs by (auto simp: is_digit_def)
  then show ?thesis
    using valid_digits_all [OF nat_to_string_ne d] by (simp add: py_int_def strip_digits [OF d] digits_value_nat)
qed

lemma cell_text_int: "1 \<le> n \<Longrightarrow> cell_text (IntCell n) = nat_to_string (nat n)"
  using strip_digits [of "nat_to_string (nat n)"] is_digit_nat by (auto simp: cell_text_def int_to_string_def)

subsection \<open>Reading a row back\<close>

lemmas header_defs = HDR_COMMODITY_def HDR_GROUP_def HDR_INVENTORY_def HDR_QUANTITY_def HDR_ENABLED_def HDR_REMARK_def

lemma headers_distinct: "distinct [HDR_COMMODITY, HDR_GROUP, HDR_INVENTORY, HDR_QUANTITY, HDR_ENABLED, HDR_REMARK]"
  by code_simp

lemma headers_strip:
  "list_all (\<lambda>h. py_strip h = h \<and> h \<noteq> [] \<and> hd h \<noteq> CHR ''='') [HDR_COMMODITY, HDR_GROUP, HDR_INVENTORY, HDR_QUANTITY, HDR_ENABLED, HDR_REMARK]"
  by code_simp

text \<open>A row of six cells under the six headers.\<close>

definition row_dict :: "cell \<Rightarrow> cell \<Rightarrow> cell \<Rightarrow> cell \<Rightarrow> cell \<Rightarrow> cell \<Rightarrow> import_row" where
  "row_dict a b c d e f = [(HDR_COMMODITY, a), (HDR_GROUP, b), (HDR_INVENTORY, c), (HDR_QUANTITY, d), (HDR_ENABLED, e), (HDR_REMARK, f)]"

lemma row_dict_get:
  "dict_get_or (row_dict a b c d e f) HDR_COMMODITY x = a" "dict_get_or (row_dict a b c d e f) HDR_GROUP x = b"
  "dict_get_or (row_dict a b c d e f) HDR_INVENTORY x = c" "dict_get_or (row_dict a b c d e f) HDR_QUANTITY x = d"
  "dict_get_or (row_dict a b c d e f) HDR_ENABLED x = e" "dict_get_or (row_dict a b c d e f) HDR_REMARK x = f"
  using headers_distinct by (auto simp: row_dict_def dict_get_or_def dict_get_Cons)

lemma row_dict_mem: "filter (\<lambda>h. \<not> dict_mem h (row_dict a b c d e f)) required_headers = []"
  by (simp add: row_dict_def dict_mem_def required_headers_def)

lemma row_dict_read:
  "sheet_row [HDR_COMMODITY, HDR_GROUP, HDR_INVENTORY, HDR_QUANTITY, HDR_ENABLED, HDR_REMARK] [a, b, c, d, e, f] = row_dict a b c d e f"
  using headers_distinct by (auto simp: sheet_row_def dict_set_new row_dict_def)

lemma parse_enabled_texts: "parse_enabled (TextCell TEXT_YES) = Some True" "parse_enabled (TextCell TEXT_NO) = Some False"
  by code_simp+

lemma cell_text_good: "good_text n t \<Longrightarrow> cell_text (TextCell t) = t"
  by (simp add: cell_text_def good_text_def)

lemma add_no_errors [simp]: "add_errors idx [] s = s"
  by (simp add: add_errors_def)

text \<open>One row that fits what was read before.\<close>

lemma import_step_good:
  assumes "good_text 100 sku" "1 \<le> mi_group_no part \<and> 1 \<le> mi_quantity part \<and> good_text 100 (mi_inventory_sku part)"
    "str_or (Some (cell_text f)) None = remark"
    "dict_get (dict_get_or (is_seen_inventory s) sku []) (mi_inventory_sku part) = None"
    "dict_get_or (is_grouped s) sku \<lparr>rb_commodity_sku = sku, rb_enabled = en, rb_remark = remark, rb_components = []\<rparr> =
       \<lparr>rb_commodity_sku = sku, rb_enabled = en, rb_remark = remark, rb_components = cs\<rparr>"
  shows "import_step s (idx, row_dict (TextCell sku) (IntCell (mi_group_no part)) (TextCell (mi_inventory_sku part))
      (IntCell (mi_quantity part)) (TextCell (if en then TEXT_YES else TEXT_NO)) f) =
    s\<lparr>is_grouped := dict_set sku \<lparr>rb_commodity_sku = sku, rb_enabled = en, rb_remark = remark, rb_components = cs @ [part]\<rparr> (is_grouped s),
      is_seen_inventory := dict_set sku (dict_set (mi_inventory_sku part) idx (dict_get_or (is_seen_inventory s) sku [])) (is_seen_inventory s)\<rparr>"
proof -
  let ?raw = "row_dict (TextCell sku) (IntCell (mi_group_no part)) (TextCell (mi_inventory_sku part))
      (IntCell (mi_quantity part)) (TextCell (if en then TEXT_YES else TEXT_NO)) f"
  have c: "1 \<le> mi_group_no part" "1 \<le> mi_quantity part" "good_text 100 (mi_inventory_sku part)"
    using assms(2) by simp_all
  have ne: "sku \<noteq> []" "mi_inventory_sku part \<noteq> []" using assms(1) c(3) by (simp_all add: good_text_def)
  have "TextCell sku \<in> set (dict_values ?raw)" by (simp add: row_dict_def dict_values_def)
  then have some: "\<not> list_all (\<lambda>v. cell_text v = []) (dict_values ?raw)"
    using ne(1) cell_text_good [OF assms(1)] by (force simp: list_all_iff)
  have g: "cell_text (IntCell (mi_group_no part)) \<noteq> []" "py_int (cell_text (IntCell (mi_group_no part))) = Some (mi_group_no part)"
    using c(1) nat_to_string_ne by (simp_all add: cell_text_int py_int_of_nat)
  have v: "value_errors sku (mi_inventory_sku part) (mi_group_no part) (mi_quantity part) = []"
    using c ne by (simp add: value_errors_def)
  have e: "parse_enabled (TextCell (if en then TEXT_YES else TEXT_NO)) = Some en" by (simp add: parse_enabled_texts)
  have n: "note_inventory idx sku (mi_inventory_sku part) s =
      s\<lparr>is_seen_inventory := dict_set sku (dict_set (mi_inventory_sku part) idx (dict_get_or (is_seen_inventory s) sku [])) (is_seen_inventory s)\<rparr>"
    using ne assms(4) by (simp add: note_inventory_def Let_def)
  have part: "\<lparr>mi_group_no = mi_group_no part, mi_inventory_sku = mi_inventory_sku part, mi_quantity = mi_quantity part\<rparr> = part" by simp
  show ?thesis
    unfolding import_step_def case_prod_conv row_dict_mem Let_def row_dict_get
      cell_text_good [OF assms(1)] cell_text_good [OF c(3)] assms(3) e option.case
    using some g v assms(5) by (simp add: n group_row_def Let_def part del: component_in.simps)
qed

lemma dict_set_last: "k \<notin> fst ` set d \<Longrightarrow> dict_set k v (d @ [(k, u)]) = d @ [(k, v)]"
  unfolding dict_set_def by (induction d) auto

lemma dict_get_or_last: "k \<notin> fst ` set d \<Longrightarrow> dict_get_or (d @ [(k, u)]) k x = u" "k \<notin> fst ` set d \<Longrightarrow> dict_get_or d k x = x"
  by (simp_all add: dict_get_or_def dict_get_append dict_get_None_iff [symmetric] dict_get_Cons)

text \<open>What a rule exports, as parts; and the entry the import builds for it.\<close>

record rule_part =
  rp_sku :: sku
  rp_enabled :: bool
  rp_remark :: "string option"
  rp_parts :: "component_in list"
  rp_remark_cell :: cell

definition good_part :: "rule_part \<Rightarrow> bool" where
  "good_part r \<longleftrightarrow> good_text 100 (rp_sku r) \<and> good_components (rp_parts r) \<and> str_or (Some (cell_text (rp_remark_cell r))) None = rp_remark r"

definition part_entry :: "rule_part \<Rightarrow> component_in list \<Rightarrow> rule_in" where
  "part_entry r cs = \<lparr>rb_commodity_sku = rp_sku r, rb_enabled = rp_enabled r, rb_remark = rp_remark r, rb_components = cs\<rparr>"

definition part_row :: "rule_part \<Rightarrow> component_in \<Rightarrow> import_row" where
  "part_row r c = row_dict (TextCell (rp_sku r)) (IntCell (mi_group_no c)) (TextCell (mi_inventory_sku c)) (IntCell (mi_quantity c))
     (TextCell (if rp_enabled r then TEXT_YES else TEXT_NO)) (rp_remark_cell r)"

lemma import_rule_rows:
  fixes k :: nat
  assumes "good_part r" "rp_sku r \<notin> fst ` set G" "\<forall>c \<in> set cs. good_component c" "distinct (map mi_inventory_sku (done_cs @ cs))"
    "is_grouped s = (if done_cs = [] then G else G @ [(rp_sku r, part_entry r done_cs)])"
    "fst ` set (dict_get_or (is_seen_inventory s) (rp_sku r) []) = mi_inventory_sku ` set done_cs"
    "done_cs @ cs \<noteq> []"
  defines "s' \<equiv> foldl import_step s (enumerate k (map (part_row r) cs))"
  shows "is_errors s' = is_errors s" "is_grouped s' = G @ [(rp_sku r, part_entry r (done_cs @ cs))]"
    "\<forall>sku. sku \<noteq> rp_sku r \<longrightarrow> dict_get (is_seen_inventory s') sku = dict_get (is_seen_inventory s) sku"
proof -
  have "is_errors (foldl import_step s (enumerate k (map (part_row r) cs))) = is_errors s
      \<and> is_grouped (foldl import_step s (enumerate k (map (part_row r) cs))) = G @ [(rp_sku r, part_entry r (done_cs @ cs))]
      \<and> (\<forall>sku. sku \<noteq> rp_sku r \<longrightarrow> dict_get (is_seen_inventory (foldl import_step s (enumerate k (map (part_row r) cs)))) sku
            = dict_get (is_seen_inventory s) sku)"
    using assms(3-7)
  proof (induction cs arbitrary: done_cs s k)
    case (Cons c cs)
    let ?sku = "rp_sku r" and ?seen = "dict_get_or (is_seen_inventory s) (rp_sku r) []"
    define s1 where "s1 = s\<lparr>is_grouped := G @ [(?sku, part_entry r (done_cs @ [c]))],
        is_seen_inventory := dict_set ?sku (dict_set (mi_inventory_sku c) k ?seen) (is_seen_inventory s)\<rparr>"
    have fresh: "dict_get ?seen (mi_inventory_sku c) = None"
      using Cons.prems(2,4) by (auto simp: dict_get_None_iff)
    have entry: "dict_get_or (is_grouped s) ?sku (part_entry r []) = part_entry r done_cs"
      using Cons.prems(3) assms(2) by (simp add: dict_get_or_last)
    have set: "dict_set ?sku (part_entry r (done_cs @ [c])) (is_grouped s) = G @ [(?sku, part_entry r (done_cs @ [c]))]"
      using Cons.prems(3) assms(2) by (simp add: dict_set_last dict_set_new)
    have "import_step s (k, part_row r c) = s1"
      using import_step_good [of ?sku c "rp_remark_cell r" "rp_remark r" s "rp_enabled r" done_cs k] assms(1) Cons.prems(1) fresh entry set
      by (simp add: good_part_def part_entry_def part_row_def s1_def good_component_def)
    moreover have "is_errors (foldl import_step s1 (enumerate (Suc k) (map (part_row r) cs))) = is_errors s1
      \<and> is_grouped (foldl import_step s1 (enumerate (Suc k) (map (part_row r) cs))) = G @ [(?sku, part_entry r ((done_cs @ [c]) @ cs))]
      \<and> (\<forall>sku. sku \<noteq> ?sku \<longrightarrow> dict_get (is_seen_inventory (foldl import_step s1 (enumerate (Suc k) (map (part_row r) cs)))) sku
            = dict_get (is_seen_inventory s1) sku)"
      using Cons.prems(1,2,4) by (intro Cons.IH) (auto simp: s1_def dict_get_or_set)
    ultimately show ?case by (simp add: s1_def dict_get_set)
  next
    case Nil
    then show ?case by simp
  qed
  then show "is_errors s' = is_errors s" "is_grouped s' = G @ [(rp_sku r, part_entry r (done_cs @ cs))]"
    "\<forall>sku. sku \<noteq> rp_sku r \<longrightarrow> dict_get (is_seen_inventory s') sku = dict_get (is_seen_inventory s) sku"
    by (simp_all add: s'_def)
qed

lemma import_all_rows:
  fixes k :: nat
  assumes "\<forall>r \<in> set rs. good_part r" "distinct (map rp_sku rs)" "\<forall>r \<in> set rs. rp_sku r \<notin> fst ` set (is_grouped s)"
    "\<forall>r \<in> set rs. dict_get (is_seen_inventory s) (rp_sku r) = None"
  defines "s' \<equiv> foldl import_step s (enumerate k (concat (map (\<lambda>r. map (part_row r) (rp_parts r)) rs)))"
  shows "is_errors s' = is_errors s" "is_grouped s' = is_grouped s @ map (\<lambda>r. (rp_sku r, part_entry r (rp_parts r))) rs"
proof -
  have "is_errors (foldl import_step s (enumerate k (concat (map (\<lambda>r. map (part_row r) (rp_parts r)) rs)))) = is_errors s
     \<and> is_grouped (foldl import_step s (enumerate k (concat (map (\<lambda>r. map (part_row r) (rp_parts r)) rs))))
        = is_grouped s @ map (\<lambda>r. (rp_sku r, part_entry r (rp_parts r))) rs"
    using assms(1-4)
  proof (induction rs arbitrary: s k)
    case (Cons r rs)
    let ?s1 = "foldl import_step s (enumerate k (map (part_row r) (rp_parts r)))"
    have parts: "good_components (rp_parts r)" using Cons.prems(1) by (simp add: good_part_def)
    note one = import_rule_rows [of r "is_grouped s" "rp_parts r" "[]" s k]
    have s1: "is_errors ?s1 = is_errors s" "is_grouped ?s1 = is_grouped s @ [(rp_sku r, part_entry r (rp_parts r))]"
      "\<forall>sku. sku \<noteq> rp_sku r \<longrightarrow> dict_get (is_seen_inventory ?s1) sku = dict_get (is_seen_inventory s) sku"
      using one Cons.prems parts by (simp_all add: good_components_def dict_get_or_def)
    let ?rest = "foldl import_step ?s1 (enumerate (k + length (rp_parts r)) (concat (map (\<lambda>r. map (part_row r) (rp_parts r)) rs)))"
    have "is_errors ?rest = is_errors ?s1 \<and> is_grouped ?rest = is_grouped ?s1 @ map (\<lambda>r. (rp_sku r, part_entry r (rp_parts r))) rs"
      using Cons.prems s1 by (intro Cons.IH) (auto simp: image_iff)
    then show ?case using s1 by (simp add: enumerate_append_eq)
  qed simp
  then show "is_errors s' = is_errors s" "is_grouped s' = is_grouped s @ map (\<lambda>r. (rp_sku r, part_entry r (rp_parts r))) rs"
    by (simp_all add: s'_def)
qed

subsection \<open>Accepted values pass the schema unchanged\<close>

lemma sku_field_id: "good_text 100 t \<Longrightarrow> sku_field t = Some t"
  by (simp add: sku_field_def good_text_def)

lemma remark_field_id: "good_remark t \<Longrightarrow> remark_field t = Some t"
  by (auto simp: remark_field_def good_remark_def good_text_def str_or_def split: option.splits)

lemma component_list_schema_id: "\<forall>c \<in> set cs. good_component c \<Longrightarrow> component_list_schema cs = Some cs"
  by (induction cs) (auto simp: component_schema_def good_component_def sku_field_id)

lemma rule_schema_id:
  "good_text 100 (rb_commodity_sku b) \<Longrightarrow> good_remark (rb_remark b) \<Longrightarrow> good_components (rb_components b) \<Longrightarrow> rule_schema b = Some b"
  by (simp add: rule_schema_def sku_field_id remark_field_id components_field_def good_components_def component_list_schema_id validate_components_def)

lemma schema_all_id: "\<forall>(k, b) \<in> set d. rule_schema b = Some b \<Longrightarrow> schema_all d = Inr d"
  by (induction d) auto

subsection \<open>From the table to the sheet and back\<close>

definition rule_body :: "engine_db \<Rightarrow> sku_mapping_rule \<Rightarrow> rule_in" where
  "rule_body db r = \<lparr>rb_commodity_sku = smr_commodity_sku r, rb_enabled = smr_enabled r, rb_remark = smr_remark r,
     rb_components = map component_of (rule_component_rows db r)\<rparr>"

text \<open>What the workbook library is relied on for.\<close>

definition reload_ok :: "(cell \<Rightarrow> cell) \<Rightarrow> bool" where
  "reload_ok reload \<longleftrightarrow> (\<forall>n. reload (IntCell n) = IntCell n)
     \<and> (\<forall>t. t \<noteq> [] \<and> hd t \<noteq> CHR ''='' \<longrightarrow> reload (TextCell t) = TextCell t) \<and> reload (TextCell []) \<in> {NullCell, TextCell []}"

definition no_formula :: "engine_db \<Rightarrow> bool" where
  "no_formula db \<longleftrightarrow> (\<forall>r \<in> set (t_sku_mapping_rule db). hd (smr_commodity_sku r) \<noteq> CHR ''=''
       \<and> (case smr_remark r of None \<Rightarrow> True | Some t \<Rightarrow> hd t \<noteq> CHR ''=''))
     \<and> (\<forall>c \<in> set (t_sku_mapping_component db). hd (smc_inventory_sku c) \<noteq> CHR ''='')"

lemma reload_text: "reload_ok reload \<Longrightarrow> t \<noteq> [] \<Longrightarrow> hd t \<noteq> CHR ''='' \<Longrightarrow> reload (TextCell t) = TextCell t"
  by (simp add: reload_ok_def)

lemma read_header: "reload_ok reload \<Longrightarrow>
  map cell_text (map reload (map TextCell [HDR_COMMODITY, HDR_GROUP, HDR_INVENTORY, HDR_QUANTITY, HDR_ENABLED, HDR_REMARK])) =
    [HDR_COMMODITY, HDR_GROUP, HDR_INVENTORY, HDR_QUANTITY, HDR_ENABLED, HDR_REMARK]"
  using headers_strip by (simp add: reload_text cell_text_def)

lemma read_sheet_reload:
  "read_sheet_rows (map (map reload) (header # body)) = map (sheet_row (map cell_text (map reload header))) (map (map reload) body)"
  by (simp add: read_sheet_rows_def)

definition part_of :: "(cell \<Rightarrow> cell) \<Rightarrow> engine_db \<Rightarrow> sku_mapping_rule \<Rightarrow> rule_part" where
  "part_of reload db r = \<lparr>rp_sku = smr_commodity_sku r, rp_enabled = smr_enabled r, rp_remark = smr_remark r,
     rp_parts = map component_of (rule_component_rows db r),
     rp_remark_cell = reload (TextCell (case smr_remark r of None \<Rightarrow> [] | Some t \<Rightarrow> t))\<rparr>"

lemma enabled_texts: "TEXT_YES \<noteq> [] \<and> hd TEXT_YES \<noteq> CHR ''='' \<and> TEXT_NO \<noteq> [] \<and> hd TEXT_NO \<noteq> CHR ''=''"
  by code_simp

lemma good_part_of:
  assumes "reload_ok reload" "good_text 100 (smr_commodity_sku r)" "good_remark (smr_remark r)"
    "good_components (map component_of (rule_component_rows db r))"
    "case smr_remark r of None \<Rightarrow> True | Some t \<Rightarrow> hd t \<noteq> CHR ''=''"
  shows "good_part (part_of reload db r)"
proof -
  have "str_or (Some (cell_text (reload (TextCell (case smr_remark r of None \<Rightarrow> [] | Some t \<Rightarrow> t))))) None = smr_remark r"
  proof (cases "smr_remark r")
    case None
    have "cell_text (reload (TextCell [])) = []" using assms(1) by (auto simp: reload_ok_def cell_text_def py_strip_def strip_by_def)
    then show ?thesis using None by (simp add: str_or_def)
  next
    case (Some t)
    then have t: "good_text 1000 t" "hd t \<noteq> CHR ''=''" using assms(3,5) by (simp_all add: good_remark_def)
    then have "t \<noteq> []" by (simp add: good_text_def)
    then show ?thesis using Some t reload_text [OF assms(1), of t] by (simp add: cell_text_good str_or_def)
  qed
  then show ?thesis using assms(2,4) by (simp add: good_part_def part_of_def)
qed

lemma read_rule_rows:
  assumes "reload_ok reload" "smr_commodity_sku r \<noteq> []" "hd (smr_commodity_sku r) \<noteq> CHR ''=''"
    "\<forall>c \<in> set (rule_component_rows db r). smc_inventory_sku c \<noteq> [] \<and> hd (smc_inventory_sku c) \<noteq> CHR ''=''"
  shows "map (sheet_row [HDR_COMMODITY, HDR_GROUP, HDR_INVENTORY, HDR_QUANTITY, HDR_ENABLED, HDR_REMARK])
      (map (map reload) (rule_export_rows db r)) = map (part_row (part_of reload db r)) (rp_parts (part_of reload db r))"
proof -
  have "sheet_row [HDR_COMMODITY, HDR_GROUP, HDR_INVENTORY, HDR_QUANTITY, HDR_ENABLED, HDR_REMARK]
      (map reload [TextCell (smr_commodity_sku r), IntCell (smc_group_no c), TextCell (smc_inventory_sku c), IntCell (smc_quantity c),
        TextCell (if smr_enabled r then TEXT_YES else TEXT_NO), TextCell (case smr_remark r of None \<Rightarrow> [] | Some t \<Rightarrow> t)]) =
      part_row (part_of reload db r) (component_of c)"
    if "c \<in> set (rule_component_rows db r)" for c
  proof -
    have t: "reload (TextCell (smr_commodity_sku r)) = TextCell (smr_commodity_sku r)"
      "reload (TextCell (smc_inventory_sku c)) = TextCell (smc_inventory_sku c)"
      "reload (TextCell (if smr_enabled r then TEXT_YES else TEXT_NO)) = TextCell (if smr_enabled r then TEXT_YES else TEXT_NO)"
      using assms that enabled_texts by (simp_all add: reload_text)
    have n: "reload (IntCell n) = IntCell n" for n using assms(1) by (simp add: reload_ok_def)
    show ?thesis by (simp only: list.map t n row_dict_read) (simp add: part_row_def part_of_def component_of_def)
  qed
  then show ?thesis by (simp add: rule_export_rows_def part_of_def)
qed

section \<open>Properties\<close>



text \<open>
  C40: searching loses rules. With a search text the page is cut from the join with the
  components, so a rule that matches twice fills two rows: with one rule per page, both pages
  the reported total of two promises show the same rule, and the other one is never listed.
\<close>

definition search_db :: engine_db where
  "search_db = (demo_alias_db [] [])
     \<lparr>t_sku_mapping_rule := [\<lparr>smr_id = 1, smr_commodity_sku = ''C1'', smr_enabled = True, smr_remark = None\<rparr>,
        \<lparr>smr_id = 2, smr_commodity_sku = ''C2'', smr_enabled = True, smr_remark = None\<rparr>],
      t_sku_mapping_component := [\<lparr>smc_id = 1, smc_rule_id = 1, smc_group_no = 1, smc_inventory_sku = ''X1'', smc_quantity = 1\<rparr>,
        \<lparr>smc_id = 2, smc_rule_id = 1, smc_group_no = 1, smc_inventory_sku = ''X2'', smc_quantity = 1\<rparr>,
        \<lparr>smc_id = 3, smc_rule_id = 2, smc_group_no = 1, smc_inventory_sku = ''X3'', smc_quantity = 1\<rparr>]\<rparr>"

theorem search_pages_lose_rules:
  "snd (list_sku_mapping_rules search_db None (Some ''X'') 1 1) = 2
   \<and> map (smr_id \<circ> mo_rule) (fst (list_sku_mapping_rules search_db None (Some ''X'') 1 1)) = [1]
   \<and> map (smr_id \<circ> mo_rule) (fst (list_sku_mapping_rules search_db None (Some ''X'') 2 1)) = [1]
   \<and> map (smr_id \<circ> mo_rule) (fst (list_sku_mapping_rules search_db None (Some ''X'') 3 1)) = [2]"
  by code_simp

text \<open>
  A quantity above the schema's bound is not among the row errors of the import: it passes the
  row checks and fails in the schema, outside every handler, so the answer is an internal error.
\<close>

lemma import_large_quantity_unhandled:
  "normalize_import_rows [row_dict (TextCell ''KIT'') (IntCell 1) (TextCell ''A'') (IntCell 1000000) (TextCell TEXT_YES) NullCell] = raise ValueError"
proof -
  let ?s = "\<lparr>is_errors = [], is_grouped = [], is_seen_inventory = []\<rparr>"
  let ?c = "\<lparr>mi_group_no = 1, mi_inventory_sku = ''A'', mi_quantity = 1000000\<rparr>"
  have t: "good_text 100 ''KIT''" "good_text 100 ''A''" "cell_text NullCell = []" by (simp_all add: good_text_def cell_text_def py_str strip_by_def)
  have "is_grouped (normalize_import_state [row_dict (TextCell ''KIT'') (IntCell 1) (TextCell ''A'') (IntCell 1000000) (TextCell TEXT_YES) NullCell])
      = [(''KIT'', \<lparr>rb_commodity_sku = ''KIT'', rb_enabled = True, rb_remark = None, rb_components = [?c]\<rparr>)]
    \<and> is_errors (normalize_import_state [row_dict (TextCell ''KIT'') (IntCell 1) (TextCell ''A'') (IntCell 1000000) (TextCell TEXT_YES) NullCell]) = []"
    using import_step_good [of "''KIT''" ?c NullCell None ?s True "[]" 2] t
    by (simp add: normalize_import_state_def str_or_def dict_set_def)
  then show ?thesis
    by (simp add: normalize_import_rows_def Let_def rule_schema_def components_field_def component_schema_def split: option.split)
qed

end
