(* ===== verification/Config_Api.thy ===== *)
theory Config_Api
  imports Mapping_Config Suggestion_Api
begin

text \<open>
  The rest of \<^verbatim>\<open>api/config.py\<close> that changes what the engine reads: the global parameters with
  the renormalisation of stored countries (\<^verbatim>\<open>core/country_mapping.py\<close>), SKU switches, the
  country of a warehouse, the country options and shops. Postal code rules are in
  \<open>Zipcode_Config\<close>, mapping rules and stock-sharing groups in \<open>Mapping_Config\<close>.
\<close>

section \<open>Definitions\<close>

subsection \<open>Renormalising stored countries\<close>

definition backfill_order :: "country list \<Rightarrow> order_header \<Rightarrow> order_header" where
  "backfill_order eu h =
     (let r = fst (backfill_row eu \<lparr>g_country = Some (oh_country_code h), g_original = oh_original_country_code h,
                                    g_extra = [Some (oh_marketplace_id h)]\<rparr>)
      in h\<lparr>oh_country_code := the (g_country r), oh_original_country_code := g_original r,
           oh_marketplace_id := the (hd (g_extra r))\<rparr>)"

definition backfill_inventory :: "country list \<Rightarrow> inventory_snapshot_latest \<Rightarrow> inventory_snapshot_latest" where
  "backfill_inventory eu i =
     (let r = fst (backfill_row eu \<lparr>g_country = inv_country i, g_original = inv_original_country i, g_extra = []\<rparr>)
      in i\<lparr>inv_country := g_country r, inv_original_country := g_original r\<rparr>)"

definition backfill_in_transit :: "country list \<Rightarrow> in_transit_record \<Rightarrow> in_transit_record" where
  "backfill_in_transit eu t =
     (let r = fst (backfill_row eu \<lparr>g_country = itr_target_country t, g_original = itr_original_target_country t, g_extra = []\<rparr>)
      in t\<lparr>itr_target_country := g_country r, itr_original_target_country := g_original r\<rparr>)"

definition backfill_eu_country_mapping :: "string option list \<Rightarrow> engine_db \<Rightarrow> engine_db res" where
  "backfill_eu_country_mapping eu_countries db =
     bind_res (normalize_country_list_for_eu_members (Some eu_countries))
       (\<lambda>eu. return (db\<lparr>t_order_header := map (backfill_order eu) (t_order_header db),
                        t_inventory_snapshot_latest := map (backfill_inventory eu) (t_inventory_snapshot_latest db),
                        t_in_transit_record := map (backfill_in_transit eu) (t_in_transit_record db)\<rparr>))"

subsection \<open>Global parameters\<close>

text \<open>The body of the patch, with the lists as sent; the schema normalises them.\<close>

record global_patch =
  qp_buffer_days :: "int option"
  qp_target_days :: "int option"
  qp_lead_time_days :: "int option"
  qp_safety_stock_days :: "int option"
  qp_restock_regions :: "string option list option"
  qp_eu_countries :: "string option list option"
  qp_sync_interval_minutes :: "int option"
  qp_order_sync_interval_minutes :: "int option"
  qp_scheduler_enabled :: "bool option"
  qp_shop_sync_mode :: "string option"

definition in_range :: "int \<Rightarrow> int \<Rightarrow> int option \<Rightarrow> bool" where
  "in_range lo hi v = (case v of None \<Rightarrow> True | Some x \<Rightarrow> lo \<le> x \<and> x \<le> hi)"

definition normalized_list :: "(string option list option \<Rightarrow> country list res) \<Rightarrow> string option list option \<Rightarrow> string option list option res" where
  "normalized_list f v = (case v of None \<Rightarrow> return None | Some vs \<Rightarrow> bind_res (f (Some vs)) (\<lambda>cs. return (Some (map Some cs))))"

definition global_patch_schema :: "global_patch \<Rightarrow> global_patch res" where
  "global_patch_schema p =
     (if \<not> (in_range 1 365 (qp_buffer_days p) \<and> in_range 1 365 (qp_target_days p) \<and> in_range 0 365 (qp_lead_time_days p)
            \<and> in_range 1 90 (qp_safety_stock_days p) \<and> in_range 5 1440 (qp_sync_interval_minutes p)
            \<and> in_range 5 1440 (qp_order_sync_interval_minutes p)
            \<and> (case qp_shop_sync_mode p of None \<Rightarrow> True | Some m \<Rightarrow> m = ''all'' \<or> m = ''specific''))
      then raise (HTTPException 422)
      else case (normalized_list normalize_restock_regions (qp_restock_regions p),
                 normalized_list normalize_country_list_for_eu_members (qp_eu_countries p)) of
             (Inr regions, Inr eu) \<Rightarrow>
               if (case (qp_target_days p, qp_lead_time_days p) of (Some t, Some l) \<Rightarrow> t < l | _ \<Rightarrow> False)
               then raise (HTTPException 422)
               else return (p\<lparr>qp_restock_regions := regions, qp_eu_countries := eu\<rparr>)
           | _ \<Rightarrow> raise (HTTPException 422))"

definition or_old :: "'a option \<Rightarrow> 'a \<Rightarrow> 'a" where
  "or_old v old = (case v of None \<Rightarrow> old | Some x \<Rightarrow> x)"

definition apply_global_patch :: "global_patch \<Rightarrow> global_config \<Rightarrow> global_config" where
  "apply_global_patch p row =
     row\<lparr>gc_buffer_days := or_old (qp_buffer_days p) (gc_buffer_days row), gc_target_days := or_old (qp_target_days p) (gc_target_days row),
         gc_lead_time_days := or_old (qp_lead_time_days p) (gc_lead_time_days row),
         gc_safety_stock_days := or_old (qp_safety_stock_days p) (gc_safety_stock_days row),
         gc_restock_regions := or_old (qp_restock_regions p) (gc_restock_regions row),
         gc_eu_countries := or_old (qp_eu_countries p) (gc_eu_countries row),
         gc_sync_interval_minutes := or_old (qp_sync_interval_minutes p) (gc_sync_interval_minutes row),
         gc_order_sync_interval_minutes := or_old (qp_order_sync_interval_minutes p) (gc_order_sync_interval_minutes row),
         gc_scheduler_enabled := or_old (qp_scheduler_enabled p) (gc_scheduler_enabled row),
         gc_shop_sync_mode := or_old (qp_shop_sync_mode p) (gc_shop_sync_mode row)\<rparr>"

text \<open>Whether a field the dashboard depends on gets a new value.\<close>

definition sensitive_change :: "global_config \<Rightarrow> global_config \<Rightarrow> bool" where
  "sensitive_change row row' \<longleftrightarrow>
     gc_restock_regions row' \<noteq> gc_restock_regions row \<or> gc_eu_countries row' \<noteq> gc_eu_countries row
   \<or> gc_target_days row' \<noteq> gc_target_days row \<or> gc_lead_time_days row' \<noteq> gc_lead_time_days row
   \<or> gc_buffer_days row' \<noteq> gc_buffer_days row \<or> gc_safety_stock_days row' \<noteq> gc_safety_stock_days row"

definition empty_patch :: global_patch where
  "empty_patch = \<lparr>qp_buffer_days = None, qp_target_days = None, qp_lead_time_days = None, qp_safety_stock_days = None,
     qp_restock_regions = None, qp_eu_countries = None, qp_sync_interval_minutes = None, qp_order_sync_interval_minutes = None,
     qp_scheduler_enabled = None, qp_shop_sync_mode = None\<rparr>"

text \<open>
  The handler works on the database and the \<^verbatim>\<open>stale\<close> mark of the dashboard (absent without a
  dashboard row); the last component says whether the scheduler is reloaded.
\<close>

definition patch_global :: "global_patch \<Rightarrow> engine_db \<Rightarrow> bool option \<Rightarrow> (engine_db \<times> bool option \<times> bool) res" where
  "patch_global p0 db stale =
     bind_res (global_patch_schema p0)
       (\<lambda>p. case t_global_config db of
          None \<Rightarrow> raise NoResultFound
        | Some row \<Rightarrow>
            if p = empty_patch then return (db, stale, False)
            else if or_old (qp_target_days p) (gc_target_days row) < or_old (qp_lead_time_days p) (gc_lead_time_days row)
            then raise ValidationFailed
            else let row' = apply_global_patch p row;
                     db1 = db\<lparr>t_global_config := Some row'\<rparr>
                 in bind_res (case qp_eu_countries p of None \<Rightarrow> return db1
                      | Some eu \<Rightarrow> if gc_eu_countries row \<noteq> eu then backfill_eu_country_mapping eu db1 else return db1)
                    (\<lambda>db2. return (db2, if sensitive_change row row' then map_option (\<lambda>_. True) stale else stale,
                       qp_sync_interval_minutes p \<noteq> None \<or> qp_order_sync_interval_minutes p \<noteq> None
                         \<or> qp_scheduler_enabled p \<noteq> None)))"

subsection \<open>SKU switches\<close>

definition missing_sku_codes :: "sku list \<Rightarrow> sku option list \<Rightarrow> engine_db \<Rightarrow> sku list" where
  "missing_sku_codes master_skus listing_skus db =
     (let sku_codes = (if master_skus \<noteq> [] then sort master_skus else sorted_set [s. Some s \<leftarrow> listing_skus])
      in filter (\<lambda>c. c \<notin> sc_commodity_sku ` set (t_sku_config db)) sku_codes)"

definition init_sku_configs :: "sku list \<Rightarrow> sku option list \<Rightarrow> engine_db \<Rightarrow> engine_db \<times> int \<times> int" where
  "init_sku_configs master_skus listing_skus db =
     (let missing_codes = missing_sku_codes master_skus listing_skus db;
          db' = db\<lparr>t_sku_config := t_sku_config db
                  @ map (\<lambda>code. \<lparr>sc_commodity_sku = code, sc_enabled = True, sc_lead_time_days = None\<rparr>) missing_codes\<rparr>
      in (db', int (length missing_codes), int (length (t_sku_config db'))))"

text \<open>\<open>model_dump(exclude_unset=True)\<close>: the outer option says whether the field was sent.\<close>

record sku_config_patch =
  sp_enabled :: "bool option option"
  sp_lead_time_days :: "int option option"

text \<open>A null for the switch violates the column's \<^verbatim>\<open>NOT NULL\<close>.\<close>

definition patch_sku_config :: "sku_config_patch \<Rightarrow> sku \<Rightarrow> engine_db \<Rightarrow> (engine_db \<times> sku_config) res" where
  "patch_sku_config p commodity_sku db =
     (if \<not> in_range 0 365 (Option.bind (sp_lead_time_days p) id) then raise (HTTPException 422)
      else case find (\<lambda>s. sc_commodity_sku s = commodity_sku) (t_sku_config db) of
        None \<Rightarrow> raise NotFound
      | Some row \<Rightarrow>
          if sp_enabled p = Some None then raise (HTTPException 500)
          else let row' = row\<lparr>sc_enabled := or_old (Option.bind (sp_enabled p) id) (sc_enabled row),
                              sc_lead_time_days := or_old (sp_lead_time_days p) (sc_lead_time_days row)\<rparr>
               in return (db\<lparr>t_sku_config := map (\<lambda>s. if sc_commodity_sku s = commodity_sku then row' else s) (t_sku_config db)\<rparr>, row'))"

text \<open>The tables behind the display name and picture of a SKU.\<close>

record commodity_master =
  cm_sku :: sku
  cm_name :: "string option"
  cm_img_url :: "string option"

record sku_config_out =
  co_config :: sku_config
  co_commodity_name :: "string option"
  co_main_image :: "string option"

definition sku_name_map ::
  "commodity_master list \<Rightarrow> product_listing list \<Rightarrow> sku list \<Rightarrow> (sku, string option \<times> string option) dict" where
  "sku_name_map commodities listings sku_codes =
     (let by_master = foldl (\<lambda>m c. dict_set (cm_sku c) (cm_name c, cm_img_url c) m) []
            (filter (\<lambda>c. cm_sku c \<in> set sku_codes) commodities)
      in foldl (\<lambda>m l. case pl_commodity_sku l of
             None \<Rightarrow> m
           | Some s \<Rightarrow> if s \<notin> set sku_codes \<or> dict_get m s \<noteq> None then m
                       else dict_set s (pl_commodity_name l, pl_main_image l) m) by_master listings)"

definition list_sku_configs ::
  "commodity_master list \<Rightarrow> product_listing list \<Rightarrow> engine_db \<Rightarrow> bool option \<Rightarrow> string option \<Rightarrow> int \<Rightarrow> int
     \<Rightarrow> sku_config_out list \<times> int" where
  "list_sku_configs commodities listings db enabled keyword page page_size =
     (let base = sort_key sc_commodity_sku (filter (\<lambda>s. (case enabled of None \<Rightarrow> True | Some b \<Rightarrow> sc_enabled s = b)
            \<and> (case keyword of None \<Rightarrow> True | Some k \<Rightarrow> k = [] \<or> sql_ilike (sc_commodity_sku s) (contains_pattern k))) (t_sku_config db));
          rows = take (nat page_size) (drop (nat ((page - 1) * page_size)) base);
          name_map = sku_name_map commodities listings (map sc_commodity_sku rows)
      in (map (\<lambda>r. let (name, img) = dict_get_or name_map (sc_commodity_sku r) (None, None)
                   in \<lparr>co_config = r, co_commodity_name = name, co_main_image = img\<rparr>) rows, int (length base)))"

subsection \<open>Warehouses\<close>

record warehouse_out =
  wo_warehouse :: warehouse
  wo_total_stock :: int

definition warehouse_total_stock :: "engine_db \<Rightarrow> warehouse_id \<Rightarrow> int" where
  "warehouse_total_stock db wid =
     sum_list [inv_available i + inv_reserved i. i \<leftarrow> t_inventory_snapshot_latest db, inv_warehouse_id i = wid]"

definition warehouse_out_of :: "engine_db \<Rightarrow> warehouse \<Rightarrow> warehouse_out" where
  "warehouse_out_of db w = \<lparr>wo_warehouse = w, wo_total_stock = warehouse_total_stock db (wh_id w)\<rparr>"

text \<open>\<^verbatim>\<open>ORDER BY country, id\<close>: warehouses without a country come last.\<close>

definition list_warehouses :: "engine_db \<Rightarrow> warehouse_out list" where
  "list_warehouses db =
     map (warehouse_out_of db) (sort_key (\<lambda>w. (wh_country w = None, or_empty (wh_country w), wh_id w)) (t_warehouse db))"

definition patch_warehouse_country :: "string option \<Rightarrow> warehouse_id \<Rightarrow> engine_db \<Rightarrow> (engine_db \<times> warehouse_out) res" where
  "patch_warehouse_country country wid db =
     (if (case country of None \<Rightarrow> False | Some c \<Rightarrow> length c \<noteq> 2) then raise (HTTPException 422)
      else case find (\<lambda>w. wh_id w = wid) (t_warehouse db) of
        None \<Rightarrow> raise NotFound
      | Some row \<Rightarrow>
          let new_country = map_option py_upper country;
              db' = db\<lparr>t_warehouse := map (\<lambda>w. if wh_id w = wid then w\<lparr>wh_country := new_country\<rparr> else w) (t_warehouse db),
                       t_inventory_snapshot_latest := map (\<lambda>i. if inv_warehouse_id i = wid then i\<lparr>inv_country := new_country\<rparr> else i)
                         (t_inventory_snapshot_latest db)\<rparr>
          in return (db', warehouse_out_of db' (row\<lparr>wh_country := new_country\<rparr>)))"

subsection \<open>Country options\<close>

definition BUILTIN_COUNTRY_NAMES :: "(country, string) dict" where
  "BUILTIN_COUNTRY_NAMES =
     [(''EU'', utf8 [230, 172, 167, 231, 155, 159]),
      (''ZZ'', utf8 [230, 151, 160, 230, 179, 149, 232, 175, 134, 229, 136, 171, 229, 155, 189, 229, 174, 182]),
      (''CN'', utf8 [228, 184, 173, 229, 155, 189]),
      (''US'', utf8 [231, 190, 142, 229, 155, 189]),
      (''CA'', utf8 [229, 138, 160, 230, 139, 191, 229, 164, 167]),
      (''MX'', utf8 [229, 162, 168, 232, 165, 191, 229, 147, 165]),
      (''GB'', utf8 [232, 139, 177, 229, 155, 189]),
      (''CZ'', utf8 [230, 141, 183, 229, 133, 139]),
      (''DE'', utf8 [229, 190, 183, 229, 155, 189]),
      (''FR'', utf8 [230, 179, 149, 229, 155, 189]),
      (''IT'', utf8 [230, 132, 143, 229, 164, 167, 229, 136, 169]),
      (''ES'', utf8 [232, 165, 191, 231, 143, 173, 231, 137, 153]),
      (''IN'', utf8 [229, 141, 176, 229, 186, 166]),
      (''JP'', utf8 [230, 151, 165, 230, 156, 172]),
      (''AU'', utf8 [230, 190, 179, 229, 164, 167, 229, 136, 169, 228, 186, 154]),
      (''AT'', utf8 [229, 165, 165, 229, 156, 176, 229, 136, 169]),
      (''CH'', utf8 [231, 145, 158, 229, 163, 171]),
      (''CY'', utf8 [229, 161, 158, 230, 181, 166, 232, 183, 175, 230, 150, 175]),
      (''DK'', utf8 [228, 184, 185, 233, 186, 166]),
      (''EE'', utf8 [231, 136, 177, 230, 178, 153, 229, 176, 188, 228, 186, 154]),
      (''FI'', utf8 [232, 138, 172, 229, 133, 176]),
      (''LT'', utf8 [231, 171, 139, 233, 153, 182, 229, 174, 155]),
      (''LV'', utf8 [230, 139, 137, 232, 132, 177, 231, 187, 180, 228, 186, 154]),
      (''MT'', utf8 [233, 169, 172, 232, 128, 179, 228, 187, 150]),
      (''SI'', utf8 [230, 150, 175, 230, 180, 155, 230, 150, 135, 229, 176, 188, 228, 186, 154]),
      (''AE'', utf8 [233, 152, 191, 232, 129, 148, 233, 133, 139]),
      (''TR'', utf8 [229, 156, 159, 232, 128, 179, 229, 133, 182]),
      (''SG'', utf8 [230, 150, 176, 229, 138, 160, 229, 157, 161]),
      (''BR'', utf8 [229, 183, 180, 232, 165, 191]),
      (''NL'', utf8 [232, 141, 183, 229, 133, 176]),
      (''RO'', utf8 [231, 189, 151, 233, 169, 172, 229, 176, 188, 228, 186, 154]),
      (''SA'', utf8 [230, 178, 153, 231, 137, 185, 233, 152, 191, 230, 139, 137, 228, 188, 175]),
      (''SE'', utf8 [231, 145, 158, 229, 133, 184]),
      (''PL'', utf8 [230, 179, 162, 229, 133, 176]),
      (''BE'', utf8 [230, 175, 148, 229, 136, 169, 230, 151, 182]),
      (''IE'', utf8 [231, 136, 177, 229, 176, 148, 229, 133, 176])]"

definition country_label :: "string \<Rightarrow> (country, string) dict \<Rightarrow> string" where
  "country_label code overrides =
     (let normalized = canonical_code (py_upper (py_strip code));
          name = (case str_or (dict_get overrides normalized) None of
                    Some n \<Rightarrow> Some n | None \<Rightarrow> dict_get BUILTIN_COUNTRY_NAMES normalized)
      in case name of None \<Rightarrow> normalized | Some n \<Rightarrow> normalized @ '' - '' @ n)"

definition COUNTRY_OPTION_HIDDEN_CODES :: "country list" where
  "COUNTRY_OPTION_HIDDEN_CODES = [''ZZ'']"

definition observed_country_codes :: "engine_db \<Rightarrow> country list" where
  "observed_country_codes db =
     sorted_set [code. raw \<leftarrow> map (Some \<circ> oh_country_code) (t_order_header db) @ map oh_original_country_code (t_order_header db)
         @ map wh_country (t_warehouse db) @ map inv_country (t_inventory_snapshot_latest db)
         @ map inv_original_country (t_inventory_snapshot_latest db) @ map itr_target_country (t_in_transit_record db)
         @ map itr_original_target_country (t_in_transit_record db),
       Some code \<leftarrow> [if str_or raw None = None then None else normalize_observed_country_code raw]]"

record country_option =
  op_code :: country
  op_label :: string
  op_builtin :: bool
  op_observed :: bool
  op_can_be_eu_member :: bool

text \<open>The stored overrides are keyed by code, so at most one row has a given code.\<close>

definition get_country_options :: "engine_db \<Rightarrow> (country \<times> string) list \<Rightarrow> country_option list \<times> country list" where
  "get_country_options db override_rows =
     (let hidden = (\<lambda>c. c \<in> set COUNTRY_OPTION_HIDDEN_CODES);
          observed = filter (\<lambda>c. \<not> hidden c) (observed_country_codes db);
          overrides = foldl (\<lambda>m (code, name). if hidden (py_upper code) then m else dict_set (py_upper code) name m) []
                        (sort_key fst override_rows);
          builtin_set = filter (\<lambda>c. \<not> hidden c) BUILTIN_COUNTRY_ORDER;
          all_codes = filter (\<lambda>c. \<not> hidden c) (map fst BUILTIN_COUNTRY_NAMES) @ observed @ map fst overrides;
          ordered_codes = filter (\<lambda>c. c \<in> set all_codes \<and> \<not> hidden c) BUILTIN_COUNTRY_ORDER
                          @ sorted_set (filter (\<lambda>c. c \<notin> set builtin_set) all_codes);
          unknown_codes = sort (filter (\<lambda>c. dict_get BUILTIN_COUNTRY_NAMES c = None \<and> dict_get overrides c = None
                                       \<and> c \<notin> set NON_EU_MEMBER_CODES) observed)
      in (map (\<lambda>code. \<lparr>op_code = code, op_label = country_label code overrides,
             op_builtin = dict_get BUILTIN_COUNTRY_NAMES code \<noteq> None \<or> dict_get overrides code \<noteq> None, op_observed = code \<in> set observed,
             op_can_be_eu_member = code \<notin> set NON_EU_MEMBER_CODES\<rparr>) ordered_codes, unknown_codes))"

subsection \<open>Shops\<close>

record shop =
  shop_id :: string
  shop_name :: string
  shop_seller_id :: "string option"
  shop_region :: "string option"
  shop_marketplace_id :: "string option"
  shop_status :: string
  shop_sync_enabled :: bool

definition list_shops :: "shop list \<Rightarrow> shop list" where
  "list_shops shops = sort_key shop_id shops"

definition patch_shop :: "bool \<Rightarrow> string \<Rightarrow> shop list \<Rightarrow> (shop list \<times> shop) res" where
  "patch_shop sync_enabled sid shops =
     (case find (\<lambda>s. shop_id s = sid) shops of
        None \<Rightarrow> raise NotFound
      | Some row \<Rightarrow>
          if shop_status row \<noteq> ''0'' \<and> sync_enabled then raise ConflictError
          else return (map (\<lambda>s. if shop_id s = sid then s\<lparr>shop_sync_enabled := sync_enabled\<rparr> else s) shops,
                       row\<lparr>shop_sync_enabled := sync_enabled\<rparr>))"


section \<open>Lemmas\<close>

subsection \<open>Renormalising\<close>

lemma backfill_row_again:
  assumes "normalize_country_list_for_eu_members v = return eu"
  shows "fst (backfill_row eu (fst (backfill_row eu r))) = fst (backfill_row eu r)"
  by (rule eu_backfill_forgets_history [OF assms assms])

lemma backfill_row_shape: "length (g_extra (fst (backfill_row eu r))) = length (g_extra r)"
  by (auto simp: backfill_row_def Let_def split: option.splits)

lemma backfill_row_country:
  assumes "g_country r \<noteq> None"
  shows "g_country (fst (backfill_row eu r)) \<noteq> None"
proof (cases "geo_source r = None \<or> geo_source r = Some []")
  case True
  then show ?thesis using assms by (simp add: backfill_row_none)
next
  case False
  then obtain src where "geo_source r = Some src" "src \<noteq> []" by (cases "geo_source r") auto
  from backfill_row_some [OF this] show ?thesis by (simp add: Let_def)
qed

lemma backfill_inventory_again:
  assumes "normalize_country_list_for_eu_members v = return eu"
  shows "backfill_inventory eu (backfill_inventory eu i) = backfill_inventory eu i"
proof -
  let ?r = "\<lparr>g_country = inv_country i, g_original = inv_original_country i, g_extra = []\<rparr>"
  have "g_extra (fst (backfill_row eu ?r)) = []" using backfill_row_shape [of eu ?r] by simp
  then have "\<lparr>g_country = g_country (fst (backfill_row eu ?r)), g_original = g_original (fst (backfill_row eu ?r)), g_extra = []\<rparr>
      = fst (backfill_row eu ?r)" by (intro geo_row.equality) simp_all
  then show ?thesis using backfill_row_again [OF assms, of ?r] by (simp add: backfill_inventory_def Let_def)
qed

lemma backfill_in_transit_again:
  assumes "normalize_country_list_for_eu_members v = return eu"
  shows "backfill_in_transit eu (backfill_in_transit eu t) = backfill_in_transit eu t"
proof -
  let ?r = "\<lparr>g_country = itr_target_country t, g_original = itr_original_target_country t, g_extra = []\<rparr>"
  have "g_extra (fst (backfill_row eu ?r)) = []" using backfill_row_shape [of eu ?r] by simp
  then have "\<lparr>g_country = g_country (fst (backfill_row eu ?r)), g_original = g_original (fst (backfill_row eu ?r)), g_extra = []\<rparr>
      = fst (backfill_row eu ?r)" by (intro geo_row.equality) simp_all
  then show ?thesis using backfill_row_again [OF assms, of ?r] by (simp add: backfill_in_transit_def Let_def)
qed

lemma backfill_order_again:
  assumes "normalize_country_list_for_eu_members v = return eu"
  shows "backfill_order eu (backfill_order eu h) = backfill_order eu h"
proof -
  let ?r = "\<lparr>g_country = Some (oh_country_code h), g_original = oh_original_country_code h, g_extra = [Some (oh_marketplace_id h)]\<rparr>"
  let ?q = "fst (backfill_row eu ?r)"
  have extra: "\<exists>m. g_extra ?q = [Some m]"
  proof (cases "geo_source ?r = None \<or> geo_source ?r = Some []")
    case True
    then show ?thesis by (simp add: backfill_row_none)
  next
    case False
    then obtain src where "geo_source ?r = Some src" "src \<noteq> []" by (cases "geo_source ?r") auto
    from backfill_row_some [OF this, of eu] show ?thesis by (simp add: Let_def)
  qed
  have "g_country ?q \<noteq> None" by (intro backfill_row_country) simp
  then have "\<lparr>g_country = Some (the (g_country ?q)), g_original = g_original ?q, g_extra = [Some (the (hd (g_extra ?q)))]\<rparr> = ?q"
    using extra by (intro geo_row.equality) auto
  then show ?thesis using backfill_row_again [OF assms, of ?r] by (simp add: backfill_order_def Let_def)
qed


lemma backfill_eu_fixpoint:
  assumes "backfill_eu_country_mapping eus db = Inr db'"
  shows "\<exists>eu. normalize_country_list_for_eu_members (Some eus) = return eu
    \<and> map (backfill_order eu) (t_order_header db') = t_order_header db'
    \<and> map (backfill_inventory eu) (t_inventory_snapshot_latest db') = t_inventory_snapshot_latest db'
    \<and> map (backfill_in_transit eu) (t_in_transit_record db') = t_in_transit_record db'
    \<and> t_global_config db' = t_global_config db"
proof -
  obtain eu where eu: "normalize_country_list_for_eu_members (Some eus) = return eu"
    and db': "db' = db\<lparr>t_order_header := map (backfill_order eu) (t_order_header db),
                        t_inventory_snapshot_latest := map (backfill_inventory eu) (t_inventory_snapshot_latest db),
                        t_in_transit_record := map (backfill_in_transit eu) (t_in_transit_record db)\<rparr>"
    using assms by (auto simp: backfill_eu_country_mapping_def bind_res_Inr_iff)
  show ?thesis using eu backfill_order_again [OF eu] backfill_inventory_again [OF eu] backfill_in_transit_again [OF eu]
    by (intro exI [of _ eu]) (simp add: db')
qed

subsection \<open>The global patch\<close>

lemma schema_ranges:
  assumes "global_patch_schema p0 = Inr p"
  shows "in_range 1 365 (qp_buffer_days p)" "in_range 1 365 (qp_target_days p)" "in_range 0 365 (qp_lead_time_days p)"
    "in_range 1 90 (qp_safety_stock_days p)"
  using assms by (auto simp: global_patch_schema_def split: if_splits sum.splits)

lemma in_range_or_old: "in_range lo hi v \<Longrightarrow> lo \<le> old \<Longrightarrow> lo \<le> or_old v old"
  by (auto simp: in_range_def or_old_def split: option.splits)

lemma patch_keeps_valid:
  assumes "global_patch_schema p0 = Inr p" "config_valid row"
    "\<not> or_old (qp_target_days p) (gc_target_days row) < or_old (qp_lead_time_days p) (gc_lead_time_days row)"
  shows "config_valid (apply_global_patch p row)"
  using assms(2,3) schema_ranges [OF assms(1)]
  by (auto simp: config_valid_def apply_global_patch_def in_range_def or_old_def split: option.splits)

lemma apply_empty_patch: "apply_global_patch empty_patch row = row"
  by (simp add: apply_global_patch_def empty_patch_def or_old_def)

lemma patch_global_cases:
  assumes "patch_global p0 db stale = Inr (db', stale', reload)" "t_global_config db = Some row" "config_valid row"
  obtains p where "global_patch_schema p0 = Inr p" "t_global_config db' = Some (apply_global_patch p row)"
    "config_valid (apply_global_patch p row)"
    "stale' = (if sensitive_change row (apply_global_patch p row) then map_option (\<lambda>_. True) stale else stale)"
    "qp_eu_countries p = None \<or> qp_eu_countries p = Some (gc_eu_countries row) \<Longrightarrow> db' = db\<lparr>t_global_config := Some (apply_global_patch p row)\<rparr>"
    "\<And>eus. qp_eu_countries p = Some eus \<Longrightarrow> eus \<noteq> gc_eu_countries row \<Longrightarrow>
       backfill_eu_country_mapping eus (db\<lparr>t_global_config := Some (apply_global_patch p row)\<rparr>) = Inr db'"
proof -
  obtain p where p: "global_patch_schema p0 = Inr p" using assms(1) by (auto simp: patch_global_def bind_res_Inr_iff)
  show ?thesis
  proof (cases "p = empty_patch")
    case True
    then have "db' = db" "stale' = stale" using assms(1,2) p by (auto simp: patch_global_def)
    moreover have "qp_eu_countries p = None" using True by (simp add: empty_patch_def)
    ultimately show ?thesis using assms(2,3) p True
      by (intro that [OF p]) (auto simp: apply_empty_patch sensitive_change_def)
  next
    case False
    define row' where "row' = apply_global_patch p row"
    have nl: "\<not> or_old (qp_target_days p) (gc_target_days row) < or_old (qp_lead_time_days p) (gc_lead_time_days row)"
      using assms(1,2) p False by (auto simp: patch_global_def split: if_splits)
    let ?db1 = "db\<lparr>t_global_config := Some row'\<rparr>"
    have res: "bind_res (case qp_eu_countries p of None \<Rightarrow> return ?db1
          | Some eu \<Rightarrow> if gc_eu_countries row \<noteq> eu then backfill_eu_country_mapping eu ?db1 else return ?db1)
        (\<lambda>db2. return (db2, if sensitive_change row row' then map_option (\<lambda>_. True) stale else stale,
           qp_sync_interval_minutes p \<noteq> None \<or> qp_order_sync_interval_minutes p \<noteq> None \<or> qp_scheduler_enabled p \<noteq> None))
        = Inr (db', stale', reload)"
      using assms(1,2) p False nl unfolding row'_def by (simp add: patch_global_def Let_def)
    have valid: "config_valid row'" unfolding row'_def by (rule patch_keeps_valid [OF p assms(3) nl])
    have st: "stale' = (if sensitive_change row row' then map_option (\<lambda>_. True) stale else stale)"
      using res by (auto simp: bind_res_Inr_iff)
    have same: "qp_eu_countries p = None \<or> qp_eu_countries p = Some (gc_eu_countries row) \<Longrightarrow> db' = ?db1"
      using res by (auto simp: bind_res_Inr_iff)
    have bf: "qp_eu_countries p = Some eus \<Longrightarrow> eus \<noteq> gc_eu_countries row \<Longrightarrow> backfill_eu_country_mapping eus ?db1 = Inr db'" for eus
      using res by (auto simp: bind_res_Inr_iff)
    have gc: "t_global_config db' = Some row'"
    proof (cases "qp_eu_countries p = None \<or> qp_eu_countries p = Some (gc_eu_countries row)")
      case True
      then show ?thesis using same by simp
    next
      case False
      then obtain eus where "qp_eu_countries p = Some eus" "eus \<noteq> gc_eu_countries row" by auto
      from backfill_eu_fixpoint [OF bf [OF this]] show ?thesis by auto
    qed
    show ?thesis using p gc valid st same bf unfolding row'_def by (rule that)
  qed
qed

section \<open>Properties\<close>



text \<open>
  Initialising the SKU switches is complete and idempotent: afterwards every SKU of the master
  table has exactly one switch, the existing switches are untouched, and running it again
  creates nothing.
\<close>

theorem init_sku_configs_complete:
  assumes "distinct masters" "masters \<noteq> []" "distinct (map sc_commodity_sku (t_sku_config db))"
    and "init_sku_configs masters listings db = (db', created, cnt)"
  shows "set masters \<subseteq> sc_commodity_sku ` set (t_sku_config db')
    \<and> distinct (map sc_commodity_sku (t_sku_config db'))
    \<and> take (length (t_sku_config db)) (t_sku_config db') = t_sku_config db
    \<and> cnt = int (length (t_sku_config db)) + created
    \<and> init_sku_configs masters listings db' = (db', 0, cnt)"
proof -
  let ?new = "map (\<lambda>code. \<lparr>sc_commodity_sku = code, sc_enabled = True, sc_lead_time_days = None\<rparr>) (missing_sku_codes masters listings db)"
  have db': "db' = db\<lparr>t_sku_config := t_sku_config db @ ?new\<rparr>"
    and created: "created = int (length (missing_sku_codes masters listings db))" and cnt: "cnt = int (length (t_sku_config db'))"
    using assms(4) by (auto simp: init_sku_configs_def Let_def)
  have missing: "missing_sku_codes masters listings db = filter (\<lambda>c. c \<notin> sc_commodity_sku ` set (t_sku_config db)) (sort masters)"
    using assms(2) by (simp add: missing_sku_codes_def Let_def)
  have keys: "map sc_commodity_sku ?new = missing_sku_codes masters listings db" by (simp add: comp_def)
  have all: "set masters \<subseteq> sc_commodity_sku ` set (t_sku_config db')"
    by (auto simp: db' missing image_Un image_image)
  then have none: "missing_sku_codes masters listings db' = []"
    using assms(2) by (auto simp: missing_sku_codes_def Let_def filter_empty_conv)
  have "distinct (map sc_commodity_sku (t_sku_config db'))"
    using assms(1,3) by (simp add: db' comp_def missing) auto
  moreover have "init_sku_configs masters listings db' = (db', 0, cnt)"
    by (simp add: init_sku_configs_def none cnt)
  ultimately show ?thesis using all by (simp add: db' cnt created)
qed

text \<open>
  Moving a warehouse does not respect the EU merge: the stock rows get the plain country code
  even when it is a member of the EU list, and the audit column keeps the country of the old
  location, so the next renormalisation moves the stock back to where the warehouse was.
\<close>

theorem warehouse_move_undone_by_backfill:
  "let db = demo_engine_db\<lparr>t_warehouse := [\<lparr>wh_id = ''W'', wh_name = ''W'', wh_type = 3, wh_country = Some ''FR'', wh_replenish_site_raw = None\<rparr>],
       t_inventory_snapshot_latest := [\<lparr>inv_commodity_sku = ''A'', inv_warehouse_id = ''W'', inv_country = Some ''EU'',
         inv_original_country = Some ''FR'', inv_available = 1, inv_reserved = 0\<rparr>]\<rparr>
   in case patch_warehouse_country (Some ''US'') ''W'' db of Inl e \<Rightarrow> False
      | Inr (db1, out) \<Rightarrow> map inv_country (t_inventory_snapshot_latest db1) = [Some ''US'']
          \<and> map inv_country (map (backfill_inventory [''DE'', ''FR'']) (t_inventory_snapshot_latest db1)) = [Some ''EU'']"
  by code_simp

text \<open>The options shown are the builtin codes in their order, then the others, each once and never the code for unknown.\<close>

lemma builtin_order: "map fst BUILTIN_COUNTRY_NAMES = BUILTIN_COUNTRY_ORDER"
  by (simp add: BUILTIN_COUNTRY_NAMES_def BUILTIN_COUNTRY_ORDER_def)

lemma overrides_not_hidden:
  "''ZZ'' \<notin> fst ` set m \<Longrightarrow> ''ZZ'' \<notin> fst ` set (foldl (\<lambda>m (code, name).
     if py_upper code \<in> set COUNTRY_OPTION_HIDDEN_CODES then m else dict_set (py_upper code) name m) m rows)"
proof (induction rows arbitrary: m)
  case (Cons x rows)
  obtain code name where x: "x = (code, name)" by (cases x)
  show ?case
  proof (cases "py_upper code \<in> set COUNTRY_OPTION_HIDDEN_CODES")
    case True
    then show ?thesis using Cons.IH [OF Cons.prems] by (simp only: x foldl.simps prod.case if_True simp_thms)
  next
    case False
    then have "''ZZ'' \<notin> fst ` set (dict_set (py_upper code) name m)"
      using Cons.prems unfolding set_keys_dict_set by (auto simp: COUNTRY_OPTION_HIDDEN_CODES_def)
    from Cons.IH [OF this] show ?thesis using False by (simp only: x foldl.simps prod.case if_False simp_thms)
  qed
qed simp

theorem country_options_distinct:
  "distinct (map op_code (fst (get_country_options db override_rows)))
   \<and> ''ZZ'' \<notin> set (map op_code (fst (get_country_options db override_rows)))
   \<and> set (observed_country_codes db) - {''ZZ''} \<subseteq> set (map op_code (fst (get_country_options db override_rows)))"
proof -
  let ?h = "\<lambda>c. c \<in> set COUNTRY_OPTION_HIDDEN_CODES"
  let ?obs = "filter (\<lambda>c. \<not> ?h c) (observed_country_codes db)"
  define over where "over = foldl (\<lambda>m (code, name). if ?h (py_upper code) then m else dict_set (py_upper code) name m) [] (sort_key fst override_rows)"
  have zz: "''ZZ'' \<notin> fst ` set over" unfolding over_def by (rule overrides_not_hidden) simp
  define bs where "bs = filter (\<lambda>c. \<not> ?h c) BUILTIN_COUNTRY_ORDER"
  define alls where "alls = bs @ ?obs @ map fst over"
  have dist: "distinct BUILTIN_COUNTRY_ORDER" by (simp add: BUILTIN_COUNTRY_ORDER_def)
  have codes: "map op_code (fst (get_country_options db override_rows)) =
      filter (\<lambda>c. c \<in> set alls \<and> \<not> ?h c) BUILTIN_COUNTRY_ORDER @ sorted_set (filter (\<lambda>c. c \<notin> set bs) alls)"
    unfolding get_country_options_def Let_def builtin_order alls_def bs_def over_def by (simp add: comp_def)
  have alls_zz: "''ZZ'' \<notin> set alls" using zz by (auto simp: alls_def bs_def COUNTRY_OPTION_HIDDEN_CODES_def)
  have fst_part: "filter (\<lambda>c. c \<in> set alls \<and> \<not> ?h c) BUILTIN_COUNTRY_ORDER = bs"
    unfolding bs_def by (rule filter_cong) (auto simp: alls_def bs_def)
  have "distinct (bs @ sorted_set (filter (\<lambda>c. c \<notin> set bs) alls))" using dist by (auto simp: bs_def sorted_set_def)
  moreover have "''ZZ'' \<notin> set (bs @ sorted_set (filter (\<lambda>c. c \<notin> set bs) alls))"
    using alls_zz by (auto simp: sorted_set_def alls_def)
  moreover have "set (observed_country_codes db) - {''ZZ''} \<subseteq> set (bs @ sorted_set (filter (\<lambda>c. c \<notin> set bs) alls))"
    by (auto simp: sorted_set_def alls_def COUNTRY_OPTION_HIDDEN_CODES_def)
  ultimately show ?thesis unfolding codes fst_part by blast
qed

end
