(* ===== verification/Zipcode_Config.thy ===== *)
theory Zipcode_Config
  imports Zipcode_Matcher
begin

text \<open>
  The postal code rules of \<^verbatim>\<open>api/config.py\<close> with the validation of \<^verbatim>\<open>schemas/config.py\<close>: the
  schema, the four endpoints, and what the validation guarantees to the matcher. A rejected
  body is the framework's answer 422.
\<close>

section \<open>Definitions\<close>

subsection \<open>The schema\<close>

definition py_isdigit :: "string \<Rightarrow> bool" where
  "py_isdigit s \<longleftrightarrow> s \<noteq> [] \<and> list_all is_digit s"

definition BETWEEN_MAX_SEGMENTS :: nat where
  "BETWEEN_MAX_SEGMENTS = 20"

text \<open>\<open>None\<close> is the \<^verbatim>\<open>ValueError\<close>, which the caller turns into its own.\<close>

fun parse_between_chunks :: "string list \<Rightarrow> (int \<times> int) list option" where
  "parse_between_chunks [] = Some []"
| "parse_between_chunks (chunk # chunks) =
     (let piece = py_strip chunk
      in if piece = [] then parse_between_chunks chunks
         else case py_split1 (CHR ''-'') piece of
           [a, b] \<Rightarrow>
             let lo_raw = py_strip a; hi_raw = py_strip b
             in if \<not> py_isdigit lo_raw \<or> \<not> py_isdigit hi_raw then None
                else (case (py_int lo_raw, py_int hi_raw) of
                        (Some lo, Some hi) \<Rightarrow>
                          if lo > hi then None else map_option (\<lambda>segs. (lo, hi) # segs) (parse_between_chunks chunks)
                      | _ \<Rightarrow> None)
         | _ \<Rightarrow> None)"

definition parse_between_segments :: "string \<Rightarrow> (int \<times> int) list option" where
  "parse_between_segments raw = parse_between_chunks (py_split (CHR '','') raw)"

record zipcode_rule_in =
  zi_country :: string
  zi_prefix_length :: int
  zi_value_type :: string
  zi_operator :: string
  zi_compare_value :: string
  zi_warehouse_id :: warehouse_id
  zi_priority :: int

text \<open>
  The validator of the value sees the fields before it; when one of those is invalid the body
  is rejected whatever it answers, so they are checked first here.
\<close>

definition validate_compare_value :: "zipcode_rule_in \<Rightarrow> string option" where
  "validate_compare_value b =
     (let compare_value = py_strip (zi_compare_value b)
      in if compare_value = [] then None
         else if zi_operator b = ''between'' then
           (if zi_value_type b \<noteq> ''number'' then None
            else case parse_between_segments compare_value of
              None \<Rightarrow> None
            | Some segments \<Rightarrow>
                if segments = [] \<or> length segments > BETWEEN_MAX_SEGMENTS then None
                else if list_ex (\<lambda>(lo, hi). hi > 10 ^ nat (zi_prefix_length b) - 1) segments then None
                else Some compare_value)
         else if zi_value_type b = ''number'' \<and> py_float compare_value = None then None
         else if zi_value_type b = ''string'' \<and> zi_operator b \<in> {''contains'', ''not_contains''}
                 \<and> split_compare_values compare_value = [] then None
         else Some compare_value)"

definition validate_operator_by_value_type :: "zipcode_rule_in \<Rightarrow> bool" where
  "validate_operator_by_value_type b \<longleftrightarrow>
     (zi_value_type b = ''string'' \<longrightarrow> zi_operator b \<in> {''='', ''!='', ''contains'', ''not_contains''})
   \<and> (zi_value_type b = ''number'' \<longrightarrow> zi_operator b \<in> {''='', ''!='', ''>'', ''>='', ''<'', ''<='', ''between''})"

definition zipcode_schema :: "zipcode_rule_in \<Rightarrow> zipcode_rule_in option" where
  "zipcode_schema b =
     (if length (zi_country b) = 2 \<and> 1 \<le> zi_prefix_length b \<and> zi_prefix_length b \<le> 10
         \<and> (zi_value_type b = ''number'' \<or> zi_value_type b = ''string'') \<and> zi_operator b \<in> set OPERATORS
         \<and> 1 \<le> length (zi_compare_value b) \<and> length (zi_compare_value b) \<le> 200 \<and> 1 \<le> zi_priority b
      then case validate_compare_value b of
             None \<Rightarrow> None
           | Some v \<Rightarrow> if validate_operator_by_value_type b then Some (b\<lparr>zi_compare_value := v\<rparr>) else None
      else None)"

subsection \<open>The endpoints\<close>

text \<open>The database and the sequence of the rule ids.\<close>

record zipcode_state =
  zs_db :: engine_db
  zs_next_id :: int

definition zipcode_row :: "int \<Rightarrow> zipcode_rule_in \<Rightarrow> zipcode_rule" where
  "zipcode_row rid b = \<lparr>zr_id = rid, zr_country = py_upper (zi_country b), zr_prefix_length = zi_prefix_length b,
     zr_value_type = zi_value_type b, zr_operator = zi_operator b, zr_compare_value = zi_compare_value b,
     zr_warehouse_id = zi_warehouse_id b, zr_priority = zi_priority b\<rparr>"

definition check_rule_warehouse :: "engine_db \<Rightarrow> zipcode_rule_in \<Rightarrow> unit res" where
  "check_rule_warehouse db b =
     (case find (\<lambda>w. wh_id w = zi_warehouse_id b) (t_warehouse db) of
        None \<Rightarrow> raise NotFound
      | Some wh \<Rightarrow> if wh_country wh \<noteq> Some (py_upper (zi_country b)) then raise ValidationFailed else return ())"

definition create_zipcode_rule :: "zipcode_rule_in \<Rightarrow> zipcode_state \<Rightarrow> (zipcode_state \<times> zipcode_rule) res" where
  "create_zipcode_rule body0 st =
     (case zipcode_schema body0 of
        None \<Rightarrow> raise (HTTPException 422)
      | Some body \<Rightarrow> bind_res (check_rule_warehouse (zs_db st) body)
          (\<lambda>_. let rule = zipcode_row (zs_next_id st) body
                in return (st\<lparr>zs_db := (zs_db st)\<lparr>t_zipcode_rule := t_zipcode_rule (zs_db st) @ [rule]\<rparr>,
                             zs_next_id := zs_next_id st + 1\<rparr>, rule)))"

definition patch_zipcode_rule :: "zipcode_rule_in \<Rightarrow> int \<Rightarrow> zipcode_state \<Rightarrow> (zipcode_state \<times> zipcode_rule) res" where
  "patch_zipcode_rule body0 rule_id st =
     (case zipcode_schema body0 of
        None \<Rightarrow> raise (HTTPException 422)
      | Some body \<Rightarrow>
          if rule_id < 1 then raise (HTTPException 422)
          else if rule_id \<notin> zr_id ` set (t_zipcode_rule (zs_db st)) then raise NotFound
          else bind_res (check_rule_warehouse (zs_db st) body)
            (\<lambda>_. let rule = zipcode_row rule_id body
                  in return (st\<lparr>zs_db := (zs_db st)\<lparr>t_zipcode_rule :=
                       map (\<lambda>r. if zr_id r = rule_id then rule else r) (t_zipcode_rule (zs_db st))\<rparr>\<rparr>, rule)))"

definition delete_zipcode_rule :: "int \<Rightarrow> zipcode_state \<Rightarrow> zipcode_state res" where
  "delete_zipcode_rule rule_id st =
     (if rule_id < 1 then raise (HTTPException 422)
      else if rule_id \<notin> zr_id ` set (t_zipcode_rule (zs_db st)) then raise NotFound
      else return (st\<lparr>zs_db := (zs_db st)\<lparr>t_zipcode_rule := filter (\<lambda>r. zr_id r \<noteq> rule_id) (t_zipcode_rule (zs_db st))\<rparr>\<rparr>))"

definition list_zipcode_rules :: "engine_db \<Rightarrow> string option \<Rightarrow> zipcode_rule list" where
  "list_zipcode_rules db country =
     sort_key (\<lambda>r. (zr_country r, zr_priority r))
       (case country of
          None \<Rightarrow> t_zipcode_rule db
        | Some c \<Rightarrow> if c = [] then t_zipcode_rule db else filter (\<lambda>r. zr_country r = py_upper c) (t_zipcode_rule db))"

text \<open>Any sequence of these requests, starting from an empty table.\<close>

inductive zipcode_step :: "zipcode_state \<Rightarrow> zipcode_state \<Rightarrow> bool" where
  create: "create_zipcode_rule b st = Inr (st', r) \<Longrightarrow> zipcode_step st st'"
| patch: "patch_zipcode_rule b i st = Inr (st', r) \<Longrightarrow> zipcode_step st st'"
| delete: "delete_zipcode_rule i st = Inr st' \<Longrightarrow> zipcode_step st st'"

definition initial_zipcodes :: "engine_db \<Rightarrow> zipcode_state" where
  "initial_zipcodes db = \<lparr>zs_db = db\<lparr>t_zipcode_rule := []\<rparr>, zs_next_id = 1\<rparr>"

definition zipcode_reachable :: "zipcode_state \<Rightarrow> bool" where
  "zipcode_reachable st \<longleftrightarrow> (\<exists>db. zipcode_step\<^sup>*\<^sup>* (initial_zipcodes db) st)"


section \<open>Lemmas\<close>

subsection \<open>Digits\<close>

lemma digit_not_space: "is_digit c \<Longrightarrow> \<not> py_isspace c"
  by (auto simp: is_digit_def py_isspace_def Let_def)

lemma digit_not_sign: "is_digit c \<Longrightarrow> c \<noteq> CHR ''-'' \<and> c \<noteq> CHR ''+'' \<and> c \<noteq> CHR ''_'' \<and> c \<noteq> CHR ''.'' \<and> c \<noteq> CHR ''e'' \<and> c \<noteq> CHR ''E''"
  by (auto simp: is_digit_def Let_def)

lemma digits_strip: "list_all is_digit s \<Longrightarrow> py_strip s = s"
  by (auto simp: py_strip_def list_all_iff digit_not_space intro!: strip_by_none)

lemma digits_split_sign: "py_isdigit s \<Longrightarrow> split_sign s = (False, s)"
  by (cases s) (auto simp: split_sign_def py_isdigit_def dest: digit_not_sign)

lemma digits_valid: "py_isdigit s \<Longrightarrow> valid_digits s"
  by (induction s rule: valid_digits.induct) (auto simp: py_isdigit_def dest: digit_not_sign)

lemma digits_value_snoc: "is_digit c \<Longrightarrow> digits_value (s @ [c]) = digits_value s * 10 + digit_value c"
  by (simp add: digits_value_def)

lemma digit_value_bounds: "is_digit c \<Longrightarrow> 0 \<le> digit_value c \<and> digit_value c \<le> 9"
  by (auto simp: is_digit_def digit_value_def Let_def)

lemma digits_value_bounds: "list_all is_digit s \<Longrightarrow> 0 \<le> digits_value s \<and> digits_value s < 10 ^ length s"
proof (induction s rule: rev_induct)
  case (snoc c s)
  then show ?case using digit_value_bounds [of c] by (simp add: digits_value_snoc)
qed (simp add: digits_value_def)

lemma py_int_digits: "py_isdigit s \<Longrightarrow> py_int s = Some (digits_value s)"
  by (simp add: py_int_def digits_strip digits_split_sign digits_valid py_isdigit_def [THEN iffD1, THEN conjunct2])

lemma py_float_digits:
  assumes "py_isdigit s" "length s \<le> 10"
  shows "py_float s = Some (Fin (of_int (digits_value s)))"
proof -
  have all: "list_all is_digit s" "s \<noteq> []" using assms(1) by (auto simp: py_isdigit_def)
  have up: "py_upper s = s"
    using all(1) by (induction s) (auto simp: py_upper_def py_upper_char_def is_digit_def Let_def)
  have no: "s \<noteq> ''INF''" "s \<noteq> ''INFINITY''" "s \<noteq> ''NAN''" using all by (auto simp: is_digit_def)
  have "takeWhile (\<lambda>c. c \<noteq> CHR ''e'' \<and> c \<noteq> CHR ''E'') s = s"
    using all(1) by (auto simp: list_all_iff takeWhile_eq_all_conv dest: digit_not_sign)
  then have ex: "split_exponent s = (s, None)" unfolding split_exponent_def Let_def by (simp only: if_True simp_thms)
  have "CHR ''.'' \<notin> set s" using all(1) digit_not_sign by (auto simp: list_all_iff)
  then have m: "mantissa_value s = Some (of_int (digits_value s))"
    using digits_valid [OF assms(1)] by (simp add: mantissa_value_def)
  have "digits_value s < 10 ^ length s" "0 \<le> digits_value s" using digits_value_bounds [OF all(1)] by auto
  moreover have "(10 :: int) ^ length s \<le> 10 ^ 10" using assms(2) by (intro power_increasing) simp_all
  ultimately have "digits_value s \<le> 2 ^ 53" "0 \<le> digits_value s" by simp_all
  then show ?thesis
    using no ex m to_double_small [of "digits_value s" False]
    by (simp add: py_float_def digits_strip all(1) digits_split_sign [OF assms(1)] up exponent_value_def)
qed

subsection \<open>Segments\<close>

text \<open>The matcher reads every segment list the validator accepts the way the validator does.\<close>

lemma between_loop_segments:
  "parse_between_chunks chunks = Some segs \<Longrightarrow> between_loop n chunks \<longleftrightarrow> (\<exists>(lo, hi) \<in> set segs. lo \<le> n \<and> n \<le> hi)"
proof (induction chunks arbitrary: segs)
  case (Cons chunk chunks)
  then show ?case
    by (auto simp: Let_def simp del: py_split1.simps split: if_splits list.splits option.splits; fastforce)
qed simp

lemma segments_ordered:
  "parse_between_chunks chunks = Some segs \<Longrightarrow> \<forall>(lo, hi) \<in> set segs. 0 \<le> lo \<and> lo \<le> hi"
proof (induction chunks arbitrary: segs)
  case (Cons chunk chunks)
  then show ?case
    using digits_value_bounds
    by (fastforce simp: Let_def py_int_digits py_isdigit_def simp del: py_split1.simps split: if_splits list.splits option.splits)
qed simp


subsection \<open>What the table holds\<close>

text \<open>The form of an accepted rule.\<close>

definition accepted_rule :: "zipcode_rule \<Rightarrow> bool" where
  "accepted_rule r \<longleftrightarrow> 1 \<le> zr_prefix_length r \<and> zr_prefix_length r \<le> 10 \<and> 1 \<le> zr_priority r
     \<and> (zr_value_type r = ''number'' \<or> zr_value_type r = ''string'')
     \<and> (zr_operator r = ''between'' \<longrightarrow>
          (\<exists>segs. parse_between_segments (zr_compare_value r) = Some segs \<and> segs \<noteq> [] \<and> length segs \<le> BETWEEN_MAX_SEGMENTS
             \<and> (\<forall>(lo, hi) \<in> set segs. hi < 10 ^ nat (zr_prefix_length r))))
     \<and> (zr_value_type r = ''number'' \<and> zr_operator r \<noteq> ''between'' \<longrightarrow> py_float (zr_compare_value r) \<noteq> None)"

text \<open>The rule's warehouse exists and is in the rule's country.\<close>

definition rule_located :: "engine_db \<Rightarrow> zipcode_rule \<Rightarrow> bool" where
  "rule_located db r \<longleftrightarrow> (\<exists>w \<in> set (t_warehouse db). wh_id w = zr_warehouse_id r \<and> wh_country w = Some (zr_country r))"

definition zipcodes_inv :: "zipcode_state \<Rightarrow> bool" where
  "zipcodes_inv st \<longleftrightarrow>
     (\<forall>r \<in> set (t_zipcode_rule (zs_db st)). accepted_rule r \<and> rule_located (zs_db st) r \<and> 1 \<le> zr_id r \<and> zr_id r < zs_next_id st)
   \<and> distinct (map zr_id (t_zipcode_rule (zs_db st))) \<and> 1 \<le> zs_next_id st"

lemma schema_accepted:
  assumes "zipcode_schema b0 = Some b"
  shows "accepted_rule (zipcode_row i b)"
proof -
  obtain v where v: "validate_compare_value b0 = Some v" and b: "b = b0\<lparr>zi_compare_value := v\<rparr>"
    and f: "1 \<le> zi_prefix_length b0" "zi_prefix_length b0 \<le> 10" "1 \<le> zi_priority b0"
      "zi_value_type b0 = ''number'' \<or> zi_value_type b0 = ''string''"
    using assms by (auto simp: zipcode_schema_def split: if_splits option.splits)
  show ?thesis
  proof (cases "zi_operator b0 = ''between''")
    case True
    then obtain segs where "parse_between_segments v = Some segs" "segs \<noteq> []" "length segs \<le> BETWEEN_MAX_SEGMENTS"
      "\<not> list_ex (\<lambda>(lo, hi). hi > 10 ^ nat (zi_prefix_length b0) - 1) segs"
      using v by (auto simp: validate_compare_value_def Let_def split: if_splits option.splits)
    then show ?thesis using True f by (auto simp: accepted_rule_def zipcode_row_def b list_ex_iff)
  next
    case False
    then have "zi_value_type b0 = ''number'' \<longrightarrow> py_float v \<noteq> None"
      using v by (auto simp: validate_compare_value_def Let_def split: if_splits)
    then show ?thesis using False f by (simp add: accepted_rule_def zipcode_row_def b)
  qed
qed

lemma check_located: "check_rule_warehouse db b = Inr u \<Longrightarrow> rule_located db (zipcode_row i b)"
  by (auto simp: check_rule_warehouse_def rule_located_def zipcode_row_def find_Some_iff split: option.splits if_splits)

lemma rule_located_rules [simp]: "rule_located (db\<lparr>t_zipcode_rule := rs\<rparr>) r = rule_located db r"
  by (simp add: rule_located_def)

lemma zipcode_row_id [simp]: "zr_id (zipcode_row i b) = i"
  by (simp add: zipcode_row_def)

lemma zipcode_step_inv: "zipcode_step st st' \<Longrightarrow> zipcodes_inv st \<Longrightarrow> zipcodes_inv st'"
proof (induction rule: zipcode_step.induct)
  case (create b0 st st' r)
  then obtain b where b: "zipcode_schema b0 = Some b" and w: "check_rule_warehouse (zs_db st) b = Inr ()"
    and st': "st' = st\<lparr>zs_db := (zs_db st)\<lparr>t_zipcode_rule := t_zipcode_rule (zs_db st) @ [zipcode_row (zs_next_id st) b]\<rparr>,
                    zs_next_id := zs_next_id st + 1\<rparr>"
    by (auto simp: create_zipcode_rule_def bind_res_Inr_iff Let_def split: option.splits)
  have "zr_id r < zs_next_id st + 1" if "r \<in> set (t_zipcode_rule (zs_db st))" for r
    using create.prems that by (auto simp: zipcodes_inv_def)
  then show ?case using create.prems schema_accepted [OF b] check_located [OF w] by (auto simp: zipcodes_inv_def st')
next
  case (patch b0 i st st' r)
  then obtain b where b: "zipcode_schema b0 = Some b" and w: "check_rule_warehouse (zs_db st) b = Inr ()"
    and st': "st' = st\<lparr>zs_db := (zs_db st)\<lparr>t_zipcode_rule :=
                map (\<lambda>r. if zr_id r = i then zipcode_row i b else r) (t_zipcode_rule (zs_db st))\<rparr>\<rparr>"
    by (auto simp: patch_zipcode_rule_def bind_res_Inr_iff Let_def split: option.splits if_splits)
  have "map zr_id (map (\<lambda>r. if zr_id r = i then zipcode_row i b else r) (t_zipcode_rule (zs_db st))) = map zr_id (t_zipcode_rule (zs_db st))"
    by simp
  then show ?case using patch.prems schema_accepted [OF b] check_located [OF w]
    unfolding zipcodes_inv_def st' by (auto simp del: map_map)
next
  case (delete i st st')
  then show ?case
    by (auto simp: delete_zipcode_rule_def zipcodes_inv_def distinct_map_filter split: if_splits)
qed

lemma zipcode_steps_inv: "zipcode_step\<^sup>*\<^sup>* s st \<Longrightarrow> zipcodes_inv s \<Longrightarrow> zipcodes_inv st"
  by (induction rule: rtranclp_induct) (simp_all add: zipcode_step_inv)

lemma zipcode_reachable_inv: "zipcode_reachable st \<Longrightarrow> zipcodes_inv st"
proof -
  have "zipcodes_inv (initial_zipcodes db)" for db by (simp add: zipcodes_inv_def initial_zipcodes_def)
  then show "zipcode_reachable st \<Longrightarrow> zipcodes_inv st"
    unfolding zipcode_reachable_def by (elim exE) (erule zipcode_steps_inv)
qed

subsection \<open>Prefixes\<close>

lemma extract_prefix_take: "1 \<le> n \<Longrightarrow> n \<le> int (length z) \<Longrightarrow> extract_prefix z n = take (nat n) z"
  by (simp add: extract_prefix_def py_slice_to_def)

lemma rule_matches_prefix:
  assumes "1 \<le> zr_prefix_length r"
  shows "rule_matches z r =
    (if int (length z) < zr_prefix_length r then return False
     else compare_values (take (nat (zr_prefix_length r)) z) (zr_operator r) (zr_compare_value r) (zr_value_type r))"
proof (cases "int (length z) < zr_prefix_length r")
  case True
  have "length (extract_prefix z (zr_prefix_length r)) \<le> length z"
    using assms by (simp add: extract_prefix_def py_slice_to_def)
  then show ?thesis using True by (simp add: rule_matches_def Let_def)
next
  case False
  then show ?thesis using assms extract_prefix_take [of "zr_prefix_length r" z] by (auto simp: rule_matches_def Let_def)
qed

lemma take_digits: "list_all is_digit z \<Longrightarrow> 1 \<le> n \<Longrightarrow> n \<le> length z \<Longrightarrow> py_isdigit (take n z)"
  using set_take_subset [of n z] by (auto simp: py_isdigit_def list_all_iff)

lemma digits_never_raise:
  assumes "accepted_rule r" "list_all is_digit z"
    and "zr_value_type r = ''number'' \<Longrightarrow> zr_operator r \<in> {''='', ''!=''} \<Longrightarrow> \<forall>x. py_float (zr_compare_value r) = Some x \<longrightarrow> is_finite x"
  shows "\<forall>e. rule_matches z r \<noteq> raise e"
proof (rule ccontr)
  assume "\<not> (\<forall>e. rule_matches z r \<noteq> raise e)"
  moreover have pl: "1 \<le> zr_prefix_length r" "zr_prefix_length r \<le> 10" using assms(1) by (auto simp: accepted_rule_def)
  let ?p = "take (nat (zr_prefix_length r)) z"
  obtain e where "compare_values ?p (zr_operator r) (zr_compare_value r) (zr_value_type r) = raise e"
    and len: "zr_prefix_length r \<le> int (length z)"
    using calculation rule_matches_prefix [OF pl(1), of z] by (auto split: if_splits)
  then obtain a b where n: "zr_value_type r = ''number''" "zr_operator r \<in> {''='', ''!=''}"
    and ab: "py_float ?p = Some a" "py_float (zr_compare_value r) = Some b" "\<not> (is_finite a \<and> is_finite b)"
    using compare_raises_iff [of ?p "zr_operator r" "zr_compare_value r" "zr_value_type r"] by auto
  have "py_isdigit ?p" "length ?p \<le> 10" using take_digits [OF assms(2)] pl len by auto
  then have "is_finite a" using py_float_digits [of ?p] ab(1) by auto
  moreover have "is_finite b" using assms(3) n ab(2) by blast
  ultimately show False using ab(3) by blast
qed


section \<open>Properties\<close>

text \<open>
  C34: what the form of a rule promises is what the matcher does. A stored \<^verbatim>\<open>between\<close> rule has
  between one and twenty ordered segments within the range of its prefix, and it matches exactly
  the postal codes whose prefix is an integer inside one of them; it never raises.
\<close>

theorem between_rules_match_segments:
  assumes "zipcode_reachable st" "r \<in> set (t_zipcode_rule (zs_db st))" "zr_operator r = ''between''"
  shows "\<exists>segs. parse_between_segments (zr_compare_value r) = Some segs \<and> 1 \<le> length segs \<and> length segs \<le> 20
    \<and> (\<forall>(lo, hi) \<in> set segs. 0 \<le> lo \<and> lo \<le> hi \<and> hi < 10 ^ nat (zr_prefix_length r))
    \<and> (\<forall>z. rule_matches z r = return (zr_prefix_length r \<le> int (length z)
         \<and> (case py_int (take (nat (zr_prefix_length r)) z) of None \<Rightarrow> False
            | Some n \<Rightarrow> (\<exists>(lo, hi) \<in> set segs. lo \<le> n \<and> n \<le> hi))))"
proof -
  have acc: "accepted_rule r" using zipcode_reachable_inv [OF assms(1)] assms(2) by (auto simp: zipcodes_inv_def)
  then obtain segs where segs: "parse_between_segments (zr_compare_value r) = Some segs" "segs \<noteq> []" "length segs \<le> 20"
    "\<forall>(lo, hi) \<in> set segs. hi < 10 ^ nat (zr_prefix_length r)"
    using assms(3) by (auto simp: accepted_rule_def BETWEEN_MAX_SEGMENTS_def)
  have pl: "1 \<le> zr_prefix_length r" using acc by (simp add: accepted_rule_def)
  have loop: "between_loop n (py_split (CHR '','') (zr_compare_value r)) \<longleftrightarrow> (\<exists>(lo, hi) \<in> set segs. lo \<le> n \<and> n \<le> hi)" for n
    using segs(1) unfolding parse_between_segments_def by (rule between_loop_segments)
  have "rule_matches z r = return (zr_prefix_length r \<le> int (length z)
         \<and> (case py_int (take (nat (zr_prefix_length r)) z) of None \<Rightarrow> False
            | Some n \<Rightarrow> (\<exists>(lo, hi) \<in> set segs. lo \<le> n \<and> n \<le> hi)))" for z
    unfolding rule_matches_prefix [OF pl] compare_values_def assms(3)
    by (auto simp: loop OPERATORS_def split: option.splits)
  moreover have "\<forall>(lo, hi) \<in> set segs. 0 \<le> lo \<and> lo \<le> hi \<and> hi < 10 ^ nat (zr_prefix_length r)"
    using segments_ordered segs(1,4) unfolding parse_between_segments_def by fast
  moreover have "1 \<le> length segs" using segs(2) by (cases segs) simp_all
  ultimately show ?thesis using segs(1,3) by (intro exI [of _ segs] conjI allI)
qed

text \<open>A table with one rule, created through the endpoint.\<close>

definition demo_zip_body :: zipcode_rule_in where
  "demo_zip_body = \<lparr>zi_country = ''us'', zi_prefix_length = 3, zi_value_type = ''number'', zi_operator = ''between'',
     zi_compare_value = '' 000-270, 900-961 '', zi_warehouse_id = ''W1'', zi_priority = 10\<rparr>"

definition demo_zip_db :: engine_db where
  "demo_zip_db = \<lparr>t_order_header = [], t_order_item = [], t_warehouse =
     [\<lparr>wh_id = ''W1'', wh_name = ''W1'', wh_type = 3, wh_country = Some ''US'', wh_replenish_site_raw = None\<rparr>],
     t_inventory_snapshot_latest = [], t_third_party_warehouse = [], t_third_party_inventory_current = [],
     t_in_transit_record = [], t_in_transit_item = [], t_sku_mapping_rule = [], t_sku_mapping_component = [],
     t_physical_item_group = [], t_physical_item_sku_alias = [], t_sku_config = [], t_zipcode_rule = [], t_global_config = None\<rparr>"

definition demo_zip_row :: zipcode_rule where
  "demo_zip_row = \<lparr>zr_id = 1, zr_country = ''US'', zr_prefix_length = 3, zr_value_type = ''number'',
     zr_operator = ''between'', zr_compare_value = ''000-270, 900-961'', zr_warehouse_id = ''W1'', zr_priority = 10\<rparr>"

lemma demo_zip_create:
  "case create_zipcode_rule demo_zip_body (initial_zipcodes demo_zip_db) of Inl e \<Rightarrow> False
   | Inr (st, r) \<Rightarrow> t_zipcode_rule (zs_db st) = [demo_zip_row]"
  by code_simp

lemma demo_zip_reached:
  "\<exists>st. zipcode_reachable st \<and> t_zipcode_rule (zs_db st) = [demo_zip_row]"
proof -
  obtain st r where c: "create_zipcode_rule demo_zip_body (initial_zipcodes demo_zip_db) = Inr (st, r)"
    and t: "t_zipcode_rule (zs_db st) = [demo_zip_row]"
    using demo_zip_create by (auto split: sum.splits)
  have "zipcode_step\<^sup>*\<^sup>* (initial_zipcodes demo_zip_db) st"
    using zipcode_step.create [OF c] by (rule r_into_rtranclp)
  then have "zipcode_reachable st" unfolding zipcode_reachable_def by (rule exI)
  then show ?thesis using t by (intro exI [of _ st] conjI)
qed

theorem between_rules_match_segments_witness:
  "rule_matches ''90210'' demo_zip_row = return True"
proof -
  obtain st where st: "zipcode_reachable st" and t: "t_zipcode_rule (zs_db st) = [demo_zip_row]"
    using demo_zip_reached by (elim exE conjE)
  have m: "demo_zip_row \<in> set (t_zipcode_rule (zs_db st))" unfolding t by simp
  have f: "zr_operator demo_zip_row = ''between''" "zr_prefix_length demo_zip_row = 3" by (simp_all add: demo_zip_row_def)
  have p: "parse_between_segments (zr_compare_value demo_zip_row) = Some [(0, 270), (900, 961)]" by code_simp
  have i: "py_int (take (nat 3) ''90210'') = Some 902" by code_simp
  from between_rules_match_segments [OF st m f(1)] p have
    "\<forall>z. rule_matches z demo_zip_row = return (zr_prefix_length demo_zip_row \<le> int (length z)
         \<and> (case py_int (take (nat (zr_prefix_length demo_zip_row)) z) of None \<Rightarrow> False
            | Some n \<Rightarrow> (\<exists>(lo, hi) \<in> set [(0, 270), (900, 961)]. lo \<le> n \<and> n \<le> hi)))"
    by (elim exE conjE) (simp only: option.inject simp_thms)
  from spec [OF this, of "''90210''"] show ?thesis unfolding f i by simp
qed

text \<open>
  The stored rules are safe for the engine. However the rules were created, edited and
  deleted, every rule points to a warehouse of its own country, and when the values of the
  numeric equality rules are finite, matching a postal code made of digits returns a list of
  warehouses; it never raises.
\<close>

theorem digit_postal_codes_never_raise:
  assumes "zipcode_reachable st" "list_all is_digit (normalize_postal pc)"
    and "\<forall>r \<in> set (t_zipcode_rule (zs_db st)). zr_value_type r = ''number'' \<and> zr_operator r \<in> {''='', ''!=''} \<longrightarrow>
           (\<exists>x. py_float (zr_compare_value r) = Some (Fin x))"
  shows "(\<exists>ws. match_warehouses pc c (t_zipcode_rule (zs_db st)) = return ws)
    \<and> (\<forall>r \<in> set (t_zipcode_rule (zs_db st)). \<exists>w \<in> set (t_warehouse (zs_db st)).
         wh_id w = zr_warehouse_id r \<and> wh_country w = Some (zr_country r))"
proof
  have inv: "zipcodes_inv st" by (rule zipcode_reachable_inv [OF assms(1)])
  then show "\<forall>r \<in> set (t_zipcode_rule (zs_db st)). \<exists>w \<in> set (t_warehouse (zs_db st)).
         wh_id w = zr_warehouse_id r \<and> wh_country w = Some (zr_country r)"
    by (simp add: zipcodes_inv_def rule_located_def)
  have "\<forall>e. rule_matches (normalize_postal pc) r \<noteq> raise e" if "r \<in> set (t_zipcode_rule (zs_db st))" for r
  proof (rule digits_never_raise [OF _ assms(2)])
    show "accepted_rule r" using inv that by (auto simp: zipcodes_inv_def)
    show "\<forall>x. py_float (zr_compare_value r) = Some x \<longrightarrow> is_finite x"
      if "zr_value_type r = ''number''" "zr_operator r \<in> {''='', ''!=''}"
      using assms(3) \<open>r \<in> _\<close> that by fastforce
  qed
  then have ok: "\<forall>r \<in> set (country_rules c (t_zipcode_rule (zs_db st))). \<forall>e. rule_matches (normalize_postal pc) r \<noteq> raise e"
    by (simp add: set_country_rules)
  show "\<exists>ws. match_warehouses pc c (t_zipcode_rule (zs_db st)) = return ws"
    using match_loop_correct [OF sorted_priority [OF sorted_country_rules] ok] by (simp add: match_warehouses_def Let_def)
qed

theorem digit_postal_codes_never_raise_witness:
  "\<exists>st ws. t_zipcode_rule (zs_db (st :: zipcode_state)) \<noteq> [] \<and> match_warehouses (Some ''902-10'') ''US'' (t_zipcode_rule (zs_db st)) = return ws"
proof -
  obtain st where st: "zipcode_reachable st"
    and t: "t_zipcode_rule (zs_db st) = [demo_zip_row]"
    using demo_zip_reached by (elim exE conjE)
  have d: "list_all is_digit (normalize_postal (Some ''902-10''))" by code_simp
  have "\<forall>r \<in> set (t_zipcode_rule (zs_db st)). zr_value_type r = ''number'' \<and> zr_operator r \<in> {''='', ''!=''} \<longrightarrow>
      (\<exists>x. py_float (zr_compare_value r) = Some (Fin x))" unfolding t by (simp add: demo_zip_row_def)
  from digit_postal_codes_never_raise [OF st d this, of "''US''"] obtain ws where
    "match_warehouses (Some ''902-10'') ''US'' (t_zipcode_rule (zs_db st)) = return ws" by (elim conjE exE)
  then show ?thesis using t by (intro exI [of _ st] exI [of _ ws] conjI) simp_all
qed

text \<open>
  The hypothesis on the values is needed: the schema accepts a numeric rule whose value is
  \<^verbatim>\<open>nan\<close>, and from then on every order of its country with a numeric postal code makes the
  matcher raise.
\<close>

theorem nan_rule_accepted:
  "(case create_zipcode_rule (demo_zip_body\<lparr>zi_operator := ''='', zi_compare_value := ''nan''\<rparr>) (initial_zipcodes demo_zip_db) of
      Inl e \<Rightarrow> False
    | Inr (st, r) \<Rightarrow> t_zipcode_rule (zs_db st) = [r] \<and> rule_matches ''90210'' r = raise ValueError)"
proof -
  let ?r = "\<lparr>zr_id = 1, zr_country = ''US'', zr_prefix_length = 3, zr_value_type = ''number'', zr_operator = ''='',
    zr_compare_value = ''nan'', zr_warehouse_id = ''W1'', zr_priority = 10\<rparr>"
  have c: "case create_zipcode_rule (demo_zip_body\<lparr>zi_operator := ''='', zi_compare_value := ''nan''\<rparr>) (initial_zipcodes demo_zip_db) of
      Inl e \<Rightarrow> False | Inr (st, r) \<Rightarrow> t_zipcode_rule (zs_db st) = [r] \<and> r = ?r" by code_simp
  have "py_float ''nan'' = Some NaN" "extract_prefix ''90210'' 3 = ''902''" by code_simp+
  then have "rule_matches ''90210'' ?r = raise ValueError"
    by (simp add: rule_matches_def compare_values_def OPERATORS_def py_float_902 compare_number_def)
  then show ?thesis using c by (auto split: sum.splits)
qed

end
