(* ===== verification/Third_Party_Import.thy ===== *)
theory Third_Party_Import
  imports Config_Api
begin

text \<open>
  \<^verbatim>\<open>services/third_party_inventory.py\<close> and the third-party part of \<^verbatim>\<open>api/data.py\<close>: reading the
  uploaded sheet, the pending batch, its confirmation (which replaces the whole current stock),
  cancelling, and the maintenance of warehouses and stock rows. Messages are represented by
  their reasons; a column's length and the width of \<^verbatim>\<open>Integer\<close> are checked where a row is
  written, as the database does (the error is not handled, so the answer is 500).
\<close>

section \<open>Definitions\<close>

subsection \<open>Reading the sheet\<close>

definition HDR_TP_WAREHOUSE :: string where
  "HDR_TP_WAREHOUSE = utf8 [228, 187, 147, 229, 186, 147]"

definition HDR_TP_SKU :: string where
  "HDR_TP_SKU = ''SKU''"

definition HDR_TP_AVAILABLE :: string where
  "HDR_TP_AVAILABLE = utf8 [229, 143, 175, 231, 148, 168, 230, 149, 176]"

definition HDR_TP_RESERVED :: string where
  "HDR_TP_RESERVED = utf8 [229, 190, 133, 229, 135, 186, 229, 186, 147]"

definition REQUIRED_HEADERS :: "string list" where
  "REQUIRED_HEADERS = [HDR_TP_WAREHOUSE, HDR_TP_SKU, HDR_TP_AVAILABLE, HDR_TP_RESERVED]"

definition PREVIEW_ISSUE_LIMIT :: nat where
  "PREVIEW_ISSUE_LIMIT = 20"

datatype row_problem = NoWarehouse | NoSku | BadAvailable | BadReserved

record parsed_row =
  pr_source_row_no :: int
  pr_warehouse_name :: string
  pr_commodity_sku :: "sku option"
  pr_available :: "int option"
  pr_reserved :: "int option"
  pr_problems :: "row_problem list"

text \<open>\<^verbatim>\<open>_cell_text\<close>: only a missing value is empty, unlike \<^verbatim>\<open>value or ""\<close>.\<close>

definition plain_cell_text :: "cell \<Rightarrow> string" where
  "plain_cell_text c = py_strip (cell_str c)"

definition parse_quantity :: "cell \<Rightarrow> int option" where
  "parse_quantity c =
     (if plain_cell_text c = [] then Some 0
      else case cell_int c of None \<Rightarrow> None | Some parsed \<Rightarrow> if parsed < 0 then None else Some parsed)"

definition header_index :: "string list \<Rightarrow> (string, nat) dict" where
  "header_index headers = foldl (\<lambda>d (i, h). if h = [] then d else dict_set h i d) [] (enumerate 0 headers)"

definition cell_at :: "(string, nat) dict \<Rightarrow> cell list \<Rightarrow> string \<Rightarrow> cell" where
  "cell_at index row h = (let i = dict_get_or index h 0 in if i < length row then row ! i else NullCell)"

definition parse_row :: "(string, nat) dict \<Rightarrow> int \<times> cell list \<Rightarrow> parsed_row" where
  "parse_row index numbered =
     (let (row_no, row) = numbered;
          warehouse_name = plain_cell_text (cell_at index row HDR_TP_WAREHOUSE);
          commodity_sku = plain_cell_text (cell_at index row HDR_TP_SKU);
          available = parse_quantity (cell_at index row HDR_TP_AVAILABLE);
          reserved = parse_quantity (cell_at index row HDR_TP_RESERVED);
          problems = (if warehouse_name = [] then [NoWarehouse] else []) @ (if commodity_sku = [] then [NoSku] else [])
                     @ (if available = None then [BadAvailable] else []) @ (if reserved = None then [BadReserved] else [])
      in \<lparr>pr_source_row_no = row_no, pr_warehouse_name = warehouse_name,
          pr_commodity_sku = (if commodity_sku = [] then None else Some commodity_sku),
          pr_available = (if problems = [] then available else None),
          pr_reserved = (if problems = [] then reserved else None), pr_problems = problems\<rparr>)"

text \<open>\<open>None\<close>: the content is empty or \<^verbatim>\<open>openpyxl\<close> cannot read it.\<close>

definition parse_third_party_inventory_workbook :: "cell list list option \<Rightarrow> parsed_row list res" where
  "parse_third_party_inventory_workbook content =
     (case content of
        None \<Rightarrow> raise ValidationFailed
      | Some [] \<Rightarrow> raise ValidationFailed
      | Some (header_row # rows) \<Rightarrow>
          let index = header_index (map plain_cell_text header_row);
              numbered = map (\<lambda>(i, row). (int i, row)) (enumerate 2 rows);
              parsed = map (parse_row index) (filter (\<lambda>(i, row). \<exists>c \<in> set row. plain_cell_text c \<noteq> []) numbered)
          in if \<exists>h \<in> set REQUIRED_HEADERS. dict_get index h = None then raise ValidationFailed
             else if parsed = [] then raise ValidationFailed
             else return parsed)"

subsection \<open>The tables\<close>

record import_issue =
  iq_row :: int
  iq_warehouse_name :: "string option"
  iq_commodity_sku :: "sku option"
  iq_message :: "row_problem list"

record import_batch =
  ib_id :: int
  ib_filename :: string
  ib_status :: string
  ib_row_count :: int
  ib_valid_row_count :: int
  ib_skipped_row_count :: int
  ib_new_warehouse_count :: int
  ib_created_by :: "string option"
  ib_confirmed_by :: "string option"
  ib_confirmed_at :: "instant option"
  ib_new_warehouses :: "string list"
  ib_unmaintained_warehouses :: "string list"
  ib_issues :: "import_issue list"
  ib_issue_count :: int

record import_item =
  ii_batch_id :: int
  ii_warehouse_name_raw :: string
  ii_warehouse_id :: "int option"
  ii_commodity_sku :: "sku option"
  ii_available :: "int option"
  ii_reserved :: "int option"
  ii_source_row_no :: int
  ii_problems :: "row_problem list"

record tp_state =
  tp_db :: engine_db
  tp_batches :: "import_batch list"
  tp_items :: "import_item list"
  tp_next_warehouse :: int
  tp_next_batch :: int
  tp_next_current :: int

abbreviation tp_warehouses :: "tp_state \<Rightarrow> third_party_warehouse list" where
  "tp_warehouses st \<equiv> t_third_party_warehouse (tp_db st)"

abbreviation tp_current :: "tp_state \<Rightarrow> third_party_inventory_current list" where
  "tp_current st \<equiv> t_third_party_inventory_current (tp_db st)"

definition INT_MAX :: int where
  "INT_MAX = 2147483647"

definition warehouse_of_name :: "third_party_warehouse list \<Rightarrow> string \<Rightarrow> third_party_warehouse option" where
  "warehouse_of_name ws name = find (\<lambda>w. tpw_name w = name) ws"

subsection \<open>The pending batch\<close>

definition fits_column :: "import_item \<Rightarrow> bool" where
  "fits_column i \<longleftrightarrow> length (ii_warehouse_name_raw i) \<le> 255 \<and> (case ii_commodity_sku i of None \<Rightarrow> True | Some s \<Rightarrow> length s \<le> 100)
     \<and> (case ii_available i of None \<Rightarrow> True | Some n \<Rightarrow> n \<le> INT_MAX) \<and> (case ii_reserved i of None \<Rightarrow> True | Some n \<Rightarrow> n \<le> INT_MAX)"

definition to_import_item :: "third_party_warehouse list \<Rightarrow> int \<Rightarrow> parsed_row \<Rightarrow> import_item" where
  "to_import_item ws bid row =
     \<lparr>ii_batch_id = bid, ii_warehouse_name_raw = pr_warehouse_name row,
      ii_warehouse_id = map_option tpw_id (warehouse_of_name ws (pr_warehouse_name row)),
      ii_commodity_sku = pr_commodity_sku row, ii_available = pr_available row, ii_reserved = pr_reserved row,
      ii_source_row_no = pr_source_row_no row, ii_problems = pr_problems row\<rparr>"

text \<open>
  The mapping of names to warehouses holds the names of valid rows only; another row's name
  has no warehouse.
\<close>

definition create_import_preview ::
  "string \<Rightarrow> cell list list option \<Rightarrow> string option \<Rightarrow> tp_state \<Rightarrow> (tp_state \<times> import_batch) res" where
  "create_import_preview filename content created_by st =
     bind_res (parse_third_party_inventory_workbook content)
       (\<lambda>parsed_rows.
          let valid_rows = filter (\<lambda>r. pr_problems r = []) parsed_rows;
              valid_names = sorted_set (map pr_warehouse_name valid_rows);
              known = filter (\<lambda>w. tpw_name w \<in> set valid_names) (tp_warehouses st);
              new_warehouses = filter (\<lambda>n. warehouse_of_name known n = None) valid_names;
              unmaintained = filter (\<lambda>n. case warehouse_of_name known n of None \<Rightarrow> True | Some w \<Rightarrow> tpw_country w = None) valid_names;
              issues = map (\<lambda>r. \<lparr>iq_row = pr_source_row_no r,
                  iq_warehouse_name = (if pr_warehouse_name r = [] then None else Some (pr_warehouse_name r)),
                  iq_commodity_sku = pr_commodity_sku r, iq_message = pr_problems r\<rparr>) (filter (\<lambda>r. pr_problems r \<noteq> []) parsed_rows);
              batch = \<lparr>ib_id = tp_next_batch st,
                 ib_filename = (if filename = [] then ''third-party-inventory.xlsx'' else take 255 filename),
                 ib_status = ''pending'', ib_row_count = int (length parsed_rows), ib_valid_row_count = int (length valid_rows),
                 ib_skipped_row_count = int (length parsed_rows) - int (length valid_rows),
                 ib_new_warehouse_count = int (length new_warehouses), ib_created_by = created_by, ib_confirmed_by = None,
                 ib_confirmed_at = None, ib_new_warehouses = new_warehouses, ib_unmaintained_warehouses = unmaintained,
                 ib_issues = take PREVIEW_ISSUE_LIMIT issues, ib_issue_count = int (length issues)\<rparr>;
              import_items = map (to_import_item known (tp_next_batch st)) parsed_rows
          in if \<not> list_all fits_column import_items then raise (HTTPException 500)
             else return (st\<lparr>tp_batches := tp_batches st @ [batch], tp_items := tp_items st @ import_items,
                            tp_next_batch := tp_next_batch st + 1\<rparr>, batch))"

definition find_batch :: "int \<Rightarrow> tp_state \<Rightarrow> import_batch option" where
  "find_batch bid st = find (\<lambda>b. ib_id b = bid) (tp_batches st)"

definition update_batch :: "int \<Rightarrow> (import_batch \<Rightarrow> import_batch) \<Rightarrow> import_batch list \<Rightarrow> import_batch list" where
  "update_batch bid f bs = map (\<lambda>b. if ib_id b = bid then f b else b) bs"

subsection \<open>Confirmation\<close>

definition valid_item :: "import_item \<Rightarrow> bool" where
  "valid_item i \<longleftrightarrow> ii_problems i = [] \<and> ii_warehouse_name_raw i \<noteq> [] \<and> str_or (ii_commodity_sku i) None \<noteq> None
     \<and> ii_available i \<noteq> None \<and> ii_reserved i \<noteq> None"

definition batch_valid_items :: "int \<Rightarrow> tp_state \<Rightarrow> import_item list" where
  "batch_valid_items bid st = filter valid_item (sort_key ii_source_row_no (filter (\<lambda>i. ii_batch_id i = bid) (tp_items st)))"

text \<open>One pass of the loop that creates missing warehouses, with the next id.\<close>

definition add_warehouse :: "third_party_warehouse list \<times> int \<Rightarrow> string \<Rightarrow> third_party_warehouse list \<times> int" where
  "add_warehouse acc name =
     (let (ws, n) = acc
      in if warehouse_of_name ws name \<noteq> None then acc
         else (ws @ [\<lparr>tpw_id = n, tpw_name = name, tpw_country = None\<rparr>], n + 1))"

definition item_key :: "third_party_warehouse list \<Rightarrow> import_item \<Rightarrow> int \<times> sku" where
  "item_key ws i = (tpw_id (the (warehouse_of_name ws (ii_warehouse_name_raw i))), the (ii_commodity_sku i))"

definition add_total :: "third_party_warehouse list \<Rightarrow> (int \<times> sku, int \<times> int) dict \<Rightarrow> import_item \<Rightarrow> (int \<times> sku, int \<times> int) dict" where
  "add_total ws totals i =
     (let key = item_key ws i; (a, r) = dict_get_or totals key (0, 0)
      in dict_set key (a + the (ii_available i), r + the (ii_reserved i)) totals)"

definition current_rows :: "int \<Rightarrow> int \<Rightarrow> (int \<times> sku, int \<times> int) dict \<Rightarrow> third_party_inventory_current list" where
  "current_rows bid first totals =
     map (\<lambda>(i, ((wid, s), (a, r))). \<lparr>tpi_id = first + int i, tpi_warehouse_id = wid, tpi_commodity_sku = s, tpi_available = a, tpi_reserved = r,
            tpi_source_batch_id = Some bid, tpi_last_operation = ''import''\<rparr>) (enumerate 0 (sort_key fst totals))"

definition link_item :: "third_party_warehouse list \<Rightarrow> int \<Rightarrow> import_item \<Rightarrow> import_item" where
  "link_item ws bid i =
     (if ii_batch_id i = bid \<and> valid_item i
      then i\<lparr>ii_warehouse_id := map_option tpw_id (warehouse_of_name ws (ii_warehouse_name_raw i))\<rparr> else i)"

definition confirm_import_batch :: "int \<Rightarrow> string option \<Rightarrow> instant \<Rightarrow> tp_state \<Rightarrow> tp_state res" where
  "confirm_import_batch bid confirmed_by now st =
     (case find_batch bid st of
        None \<Rightarrow> raise NotFound
      | Some batch \<Rightarrow>
          if ib_status batch \<noteq> ''pending'' then raise ConflictError
          else let items = batch_valid_items bid st
               in if items = [] then raise ValidationFailed
                  else let names = sorted_set (map ii_warehouse_name_raw items);
                           (ws, n) = foldl add_warehouse (tp_warehouses st, tp_next_warehouse st) names;
                           totals = foldl (add_total ws) [] items
                       in if \<exists>(a, r) \<in> snd ` set totals. a > INT_MAX \<or> r > INT_MAX then raise (HTTPException 500)
                          else return (st\<lparr>tp_db := (tp_db st)\<lparr>t_third_party_warehouse := ws,
                                             t_third_party_inventory_current := current_rows bid (tp_next_current st) totals\<rparr>,
                                 tp_items := map (link_item ws bid) (tp_items st),
                                 tp_batches := update_batch bid (\<lambda>b. b\<lparr>ib_status := ''applied'', ib_confirmed_by := confirmed_by,
                                                                   ib_confirmed_at := Some now\<rparr>) (tp_batches st),
                                 tp_next_warehouse := n, tp_next_current := tp_next_current st + int (length totals)\<rparr>))"

definition expire_pending_batch :: "int \<Rightarrow> tp_state \<Rightarrow> tp_state res" where
  "expire_pending_batch bid st =
     (case find_batch bid st of
        None \<Rightarrow> raise NotFound
      | Some batch \<Rightarrow>
          if ib_status batch \<noteq> ''pending'' then raise ConflictError
          else return (st\<lparr>tp_batches := update_batch bid (\<lambda>b. b\<lparr>ib_status := ''expired''\<rparr>) (tp_batches st)\<rparr>))"

subsection \<open>Stock rows\<close>

record current_in =
  ci_warehouse_id :: int
  ci_commodity_sku :: string
  ci_available :: int
  ci_reserved :: int

definition current_in_schema :: "current_in \<Rightarrow> current_in option" where
  "current_in_schema b =
     (case sku_field (ci_commodity_sku b) of
        None \<Rightarrow> None
      | Some s \<Rightarrow> if 0 \<le> ci_available b \<and> 0 \<le> ci_reserved b then Some (b\<lparr>ci_commodity_sku := s\<rparr>) else None)"

definition upsert_current_item :: "current_in \<Rightarrow> tp_state \<Rightarrow> tp_state res" where
  "upsert_current_item b0 st =
     (case current_in_schema b0 of
        None \<Rightarrow> raise (HTTPException 422)
      | Some b \<Rightarrow>
          if ci_warehouse_id b \<notin> tpw_id ` set (tp_warehouses st) then raise NotFound
          else if ci_available b > INT_MAX \<or> ci_reserved b > INT_MAX then raise (HTTPException 500)
          else let hit = (\<lambda>i. tpi_warehouse_id i = ci_warehouse_id b \<and> tpi_commodity_sku i = ci_commodity_sku b);
                   row = \<lparr>tpi_id = tp_next_current st, tpi_warehouse_id = ci_warehouse_id b, tpi_commodity_sku = ci_commodity_sku b,
                     tpi_available = ci_available b, tpi_reserved = ci_reserved b, tpi_source_batch_id = None, tpi_last_operation = ''manual''\<rparr>
               in return (st\<lparr>tp_db := (tp_db st)\<lparr>t_third_party_inventory_current :=
                      (if \<exists>i \<in> set (tp_current st). hit i
                       then map (\<lambda>i. if hit i then row\<lparr>tpi_id := tpi_id i\<rparr> else i) (tp_current st)
                       else tp_current st @ [row])\<rparr>,
                    tp_next_current := tp_next_current st + 1\<rparr>))"

record current_patch =
  cp_warehouse_id :: "int option"
  cp_commodity_sku :: "string option"
  cp_available :: "int option"
  cp_reserved :: "int option"

definition current_patch_schema :: "current_patch \<Rightarrow> current_patch option" where
  "current_patch_schema p =
     (case optional_field sku_field (cp_commodity_sku p) of
        None \<Rightarrow> None
      | Some s \<Rightarrow> if (case cp_available p of None \<Rightarrow> True | Some n \<Rightarrow> 0 \<le> n) \<and> (case cp_reserved p of None \<Rightarrow> True | Some n \<Rightarrow> 0 \<le> n)
                  then Some (p\<lparr>cp_commodity_sku := s\<rparr>) else None)"

text \<open>A collision of keys, or a number that does not fit, is caught at the commit.\<close>

definition patch_current_item :: "current_patch \<Rightarrow> int \<Rightarrow> tp_state \<Rightarrow> tp_state res" where
  "patch_current_item p0 item_id st =
     (case current_patch_schema p0 of
        None \<Rightarrow> raise (HTTPException 422)
      | Some p \<Rightarrow>
          (case find (\<lambda>i. tpi_id i = item_id) (tp_current st) of
             None \<Rightarrow> raise NotFound
           | Some item \<Rightarrow>
               let wid = (case cp_warehouse_id p of None \<Rightarrow> tpi_warehouse_id item | Some w \<Rightarrow> if w = 0 then tpi_warehouse_id item else w)
               in if wid \<notin> tpw_id ` set (tp_warehouses st) then raise NotFound
                  else let item' = item\<lparr>tpi_warehouse_id := wid, tpi_commodity_sku := or_old (cp_commodity_sku p) (tpi_commodity_sku item),
                             tpi_available := or_old (cp_available p) (tpi_available item), tpi_reserved := or_old (cp_reserved p) (tpi_reserved item),
                             tpi_source_batch_id := None, tpi_last_operation := ''manual''\<rparr>
                       in if (\<exists>i \<in> set (tp_current st). tpi_id i \<noteq> item_id \<and> tpi_warehouse_id i = wid \<and> tpi_commodity_sku i = tpi_commodity_sku item')
                             \<or> tpi_available item' > INT_MAX \<or> tpi_reserved item' > INT_MAX
                          then raise ConflictError
                          else return (st\<lparr>tp_db := (tp_db st)\<lparr>t_third_party_inventory_current :=
                                 map (\<lambda>i. if tpi_id i = item_id then item' else i) (tp_current st)\<rparr>\<rparr>)))"

definition delete_current_item :: "int \<Rightarrow> tp_state \<Rightarrow> tp_state res" where
  "delete_current_item item_id st =
     (if item_id \<notin> tpi_id ` set (tp_current st) then raise NotFound
      else return (st\<lparr>tp_db := (tp_db st)\<lparr>t_third_party_inventory_current := filter (\<lambda>i. tpi_id i \<noteq> item_id) (tp_current st)\<rparr>\<rparr>))"

subsection \<open>Warehouses\<close>

definition tp_country_field :: "string option \<Rightarrow> string option option" where
  "tp_country_field v =
     (if (case v of None \<Rightarrow> False | Some s \<Rightarrow> length s > 2) then None else Some (str_or (Some (py_upper (py_strip (or_empty v)))) None))"

definition normalize_third_party_country :: "string option \<Rightarrow> country option res" where
  "normalize_third_party_country country =
     (case country of None \<Rightarrow> return None
      | Some c \<Rightarrow> (case normalize_reportable_country_code (Some c) of None \<Rightarrow> raise ValidationFailed | Some n \<Rightarrow> return (Some n)))"

definition tp_name_field :: "string \<Rightarrow> string option" where
  "tp_name_field v = (if v = [] \<or> length v > 255 \<or> py_strip v = [] then None else Some (py_strip v))"

definition sync_import_items_warehouse_id :: "third_party_warehouse \<Rightarrow> import_item list \<Rightarrow> import_item list" where
  "sync_import_items_warehouse_id w items =
     map (\<lambda>i. if ii_warehouse_name_raw i = tpw_name w \<and> ii_warehouse_id i = None \<and> ii_problems i = []
              then i\<lparr>ii_warehouse_id := Some (tpw_id w)\<rparr> else i) items"

definition create_third_party_warehouse :: "string \<Rightarrow> string option \<Rightarrow> tp_state \<Rightarrow> tp_state res" where
  "create_third_party_warehouse name0 country0 st =
     (case (tp_name_field name0, tp_country_field country0) of
        (Some name, Some country) \<Rightarrow>
          bind_res (normalize_third_party_country country)
            (\<lambda>c. if warehouse_of_name (tp_warehouses st) name \<noteq> None then raise ConflictError
                 else let w = \<lparr>tpw_id = tp_next_warehouse st, tpw_name = name, tpw_country = c\<rparr>
                      in return (st\<lparr>tp_db := (tp_db st)\<lparr>t_third_party_warehouse := tp_warehouses st @ [w]\<rparr>,
                           tp_items := sync_import_items_warehouse_id w (tp_items st),
                           tp_next_warehouse := tp_next_warehouse st + 1\<rparr>))
      | _ \<Rightarrow> raise (HTTPException 422))"

text \<open>The outer option of the country says whether the field was sent.\<close>

definition patch_third_party_warehouse :: "string option \<Rightarrow> string option option \<Rightarrow> int \<Rightarrow> tp_state \<Rightarrow> tp_state res" where
  "patch_third_party_warehouse name0 country0 wid st =
     (case (optional_field tp_name_field name0, optional_field tp_country_field country0) of
        (Some name, Some country) \<Rightarrow>
          (case find (\<lambda>w. tpw_id w = wid) (tp_warehouses st) of
             None \<Rightarrow> raise NotFound
           | Some w \<Rightarrow>
               bind_res (case country of None \<Rightarrow> return (tpw_country w) | Some c \<Rightarrow> normalize_third_party_country c)
                 (\<lambda>c. let w' = w\<lparr>tpw_name := or_old name (tpw_name w), tpw_country := c\<rparr>
                      in if \<exists>v \<in> set (tp_warehouses st). tpw_id v \<noteq> wid \<and> tpw_name v = tpw_name w' then raise ConflictError
                         else return (st\<lparr>tp_db := (tp_db st)\<lparr>t_third_party_warehouse :=
                                map (\<lambda>v. if tpw_id v = wid then w' else v) (tp_warehouses st)\<rparr>,
                              tp_items := sync_import_items_warehouse_id w' (tp_items st)\<rparr>)))
      | _ \<Rightarrow> raise (HTTPException 422))"

definition delete_third_party_warehouse :: "int \<Rightarrow> tp_state \<Rightarrow> tp_state res" where
  "delete_third_party_warehouse wid st =
     (if (\<exists>i \<in> set (tp_current st). tpi_warehouse_id i = wid) \<or> (\<exists>i \<in> set (tp_items st). ii_warehouse_id i = Some wid)
      then raise ConflictError
      else if wid \<notin> tpw_id ` set (tp_warehouses st) then raise NotFound
      else return (st\<lparr>tp_db := (tp_db st)\<lparr>t_third_party_warehouse := filter (\<lambda>w. tpw_id w \<noteq> wid) (tp_warehouses st)\<rparr>\<rparr>))"

text \<open>Any sequence of these requests, starting from empty tables.\<close>

inductive tp_step :: "tp_state \<Rightarrow> tp_state \<Rightarrow> bool" where
  preview: "create_import_preview f c u st = Inr (st', b) \<Longrightarrow> tp_step st st'"
| confirm: "confirm_import_batch bid u now st = Inr st' \<Longrightarrow> tp_step st st'"
| cancel: "expire_pending_batch bid st = Inr st' \<Longrightarrow> tp_step st st'"
| upsert: "upsert_current_item b st = Inr st' \<Longrightarrow> tp_step st st'"
| patch_item: "patch_current_item p i st = Inr st' \<Longrightarrow> tp_step st st'"
| delete_item: "delete_current_item i st = Inr st' \<Longrightarrow> tp_step st st'"
| create_wh: "create_third_party_warehouse n c st = Inr st' \<Longrightarrow> tp_step st st'"
| patch_wh: "patch_third_party_warehouse n' c' w st = Inr st' \<Longrightarrow> tp_step st st'"
| delete_wh: "delete_third_party_warehouse w st = Inr st' \<Longrightarrow> tp_step st st'"

definition initial_tp :: "engine_db \<Rightarrow> tp_state" where
  "initial_tp db = \<lparr>tp_db = db\<lparr>t_third_party_warehouse := [], t_third_party_inventory_current := []\<rparr>, tp_batches = [], tp_items = [],
     tp_next_warehouse = 1, tp_next_batch = 1, tp_next_current = 1\<rparr>"

definition tp_reachable :: "tp_state \<Rightarrow> bool" where
  "tp_reachable st \<longleftrightarrow> (\<exists>db. tp_step\<^sup>*\<^sup>* (initial_tp db) st)"


section \<open>Lemmas\<close>

subsection \<open>Totals\<close>

lemma add_total_get:
  "dict_get_or (add_total ws d i) k (0, 0) =
     (fst (dict_get_or d k (0, 0)) + (if item_key ws i = k then the (ii_available i) else 0),
      snd (dict_get_or d k (0, 0)) + (if item_key ws i = k then the (ii_reserved i) else 0))"
  by (cases "dict_get_or d (item_key ws i) (0, 0)") (auto simp: add_total_def Let_def dict_get_or_set)

lemma totals_get:
  "dict_get_or (foldl (add_total ws) d items) k (0, 0) =
     (fst (dict_get_or d k (0, 0)) + sum_list [the (ii_available i). i \<leftarrow> items, item_key ws i = k],
      snd (dict_get_or d k (0, 0)) + sum_list [the (ii_reserved i). i \<leftarrow> items, item_key ws i = k])"
  by (induction items arbitrary: d) (auto simp: add_total_get)

lemma add_total_keys: "fst ` set (add_total ws d i) = insert (item_key ws i) (fst ` set d)"
  by (simp add: add_total_def Let_def case_prod_beta)

lemma totals_keys: "fst ` set (foldl (add_total ws) d items) = fst ` set d \<union> item_key ws ` set items"
  by (induction items arbitrary: d) (auto simp: add_total_keys)

lemma totals_wf: "wf_dict d \<Longrightarrow> wf_dict (foldl (add_total ws) d items)"
  by (induction items arbitrary: d) (simp_all add: add_total_def Let_def case_prod_beta)

text \<open>What the rows written for the totals hold.\<close>

lemma current_rows_nth:
  "i < length (current_rows bid first totals) \<Longrightarrow>
   current_rows bid first totals ! i =
     (case sort_key fst totals ! i of ((wid, s), (a, r)) \<Rightarrow> \<lparr>tpi_id = first + int i, tpi_warehouse_id = wid, tpi_commodity_sku = s,
        tpi_available = a, tpi_reserved = r, tpi_source_batch_id = Some bid, tpi_last_operation = ''import''\<rparr>)"
  by (simp add: current_rows_def nth_enumerate_eq split: prod.splits)

lemma current_rows_keys:
  "map (\<lambda>i. (tpi_warehouse_id i, tpi_commodity_sku i)) (current_rows bid first totals) = map fst (sort_key fst totals)"
  by (rule nth_equalityI) (simp_all add: current_rows_nth current_rows_def nth_enumerate_eq split: prod.splits)

lemma current_rows_ids: "map tpi_id (current_rows bid first totals) = map (\<lambda>i. first + int i) [0..<length totals]"
  by (rule nth_equalityI) (simp_all add: current_rows_nth current_rows_def nth_enumerate_eq split: prod.splits)

lemma current_rows_in:
  assumes "row \<in> set (current_rows bid first totals)"
  shows "((tpi_warehouse_id row, tpi_commodity_sku row), (tpi_available row, tpi_reserved row)) \<in> set totals
    \<and> tpi_source_batch_id row = Some bid \<and> tpi_last_operation row = ''import'' \<and> first \<le> tpi_id row \<and> tpi_id row < first + int (length totals)"
proof -
  obtain i where i: "i < length totals" "row = current_rows bid first totals ! i"
    using assms by (auto simp: in_set_conv_nth current_rows_def)
  have "sort_key fst totals ! i \<in> set totals" using i(1) by (metis length_sort nth_mem set_sort)
  then show ?thesis using i by (auto simp: current_rows_nth current_rows_def nth_enumerate_eq split: prod.splits)
qed

subsection \<open>Creating warehouses\<close>

definition warehouses_ok :: "third_party_warehouse list \<Rightarrow> int \<Rightarrow> bool" where
  "warehouses_ok ws n \<longleftrightarrow> distinct (map tpw_id ws) \<and> distinct (map tpw_name ws) \<and> (\<forall>w \<in> set ws. tpw_id w < n)"

lemma warehouse_of_name_Some:
  "warehouse_of_name ws name = Some w \<Longrightarrow> w \<in> set ws \<and> tpw_name w = name"
  by (auto simp: warehouse_of_name_def find_Some_iff)

lemma warehouse_of_name_None: "warehouse_of_name ws name = None \<longleftrightarrow> name \<notin> tpw_name ` set ws"
  by (auto simp: warehouse_of_name_def find_None_iff)

lemma warehouse_of_name_unique:
  "distinct (map tpw_name ws) \<Longrightarrow> w \<in> set ws \<Longrightarrow> warehouse_of_name ws (tpw_name w) = Some w"
proof -
  assume a: "distinct (map tpw_name ws)" "w \<in> set ws"
  then obtain v where v: "warehouse_of_name ws (tpw_name w) = Some v" by (cases "warehouse_of_name ws (tpw_name w)") (auto simp: warehouse_of_name_None)
  from warehouse_of_name_Some [OF v] a have "v = w" by (auto simp: distinct_map inj_on_def)
  then show ?thesis using v by simp
qed

lemma add_warehouse_ok:
  assumes "warehouses_ok ws n" "add_warehouse (ws, n) name = (ws', n')"
  shows "warehouses_ok ws' n' \<and> set ws \<subseteq> set ws' \<and> n \<le> n' \<and> name \<in> tpw_name ` set ws' \<and> tpw_name ` set ws' \<subseteq> insert name (tpw_name ` set ws)
    \<and> (\<forall>w \<in> set ws'. w \<in> set ws \<or> tpw_country w = None \<and> tpw_name w \<notin> tpw_name ` set ws)"
proof (cases "warehouse_of_name ws name = None")
  case True
  then have "ws' = ws @ [\<lparr>tpw_id = n, tpw_name = name, tpw_country = None\<rparr>]" "n' = n + 1" "name \<notin> tpw_name ` set ws"
    using assms(2) by (auto simp: add_warehouse_def warehouse_of_name_None)
  then show ?thesis using assms(1) by (fastforce simp: warehouses_ok_def)
next
  case False
  then have "ws' = ws" "n' = n" "name \<in> tpw_name ` set ws" using assms(2) by (auto simp: add_warehouse_def warehouse_of_name_None)
  then show ?thesis using assms(1) by auto
qed

lemma add_warehouses_ok:
  assumes "warehouses_ok ws n" "foldl add_warehouse (ws, n) names = (ws', n')"
  shows "warehouses_ok ws' n' \<and> set ws \<subseteq> set ws' \<and> n \<le> n' \<and> set names \<subseteq> tpw_name ` set ws' \<and> tpw_name ` set ws' \<subseteq> set names \<union> tpw_name ` set ws
    \<and> (\<forall>w \<in> set ws'. w \<in> set ws \<or> tpw_country w = None \<and> tpw_name w \<notin> tpw_name ` set ws)"
  using assms
proof (induction names arbitrary: ws n)
  case (Cons name names)
  obtain ws1 n1 where one: "add_warehouse (ws, n) name = (ws1, n1)" by (cases "add_warehouse (ws, n) name")
  note a = add_warehouse_ok [OF Cons.prems(1) one]
  have "foldl add_warehouse (ws1, n1) names = (ws', n')" using Cons.prems(2) one by simp
  note b = Cons.IH [OF _ this]
  then show ?case using a by (auto 4 3)
qed simp


subsection \<open>The invariant\<close>

definition good_import_item :: "import_item \<Rightarrow> bool" where
  "good_import_item i \<longleftrightarrow> (ii_problems i = [] \<longrightarrow> ii_warehouse_name_raw i \<noteq> [] \<and> (\<exists>s. ii_commodity_sku i = Some s \<and> s \<noteq> [])
     \<and> (\<exists>a. ii_available i = Some a \<and> 0 \<le> a) \<and> (\<exists>r. ii_reserved i = Some r \<and> 0 \<le> r))"

definition current_ok :: "int set \<Rightarrow> third_party_inventory_current list \<Rightarrow> int \<Rightarrow> bool" where
  "current_ok ids rows n \<longleftrightarrow> distinct (map (\<lambda>i. (tpi_warehouse_id i, tpi_commodity_sku i)) rows) \<and> distinct (map tpi_id rows)
     \<and> (\<forall>i \<in> set rows. tpi_warehouse_id i \<in> ids \<and> tpi_commodity_sku i \<noteq> [] \<and> 0 \<le> tpi_available i \<and> tpi_available i \<le> INT_MAX
          \<and> 0 \<le> tpi_reserved i \<and> tpi_reserved i \<le> INT_MAX \<and> tpi_id i < n)"

definition items_ok :: "int set \<Rightarrow> import_item list \<Rightarrow> int \<Rightarrow> bool" where
  "items_ok ids items nb \<longleftrightarrow> (\<forall>i \<in> set items. good_import_item i \<and> ii_batch_id i < nb \<and> (\<forall>w. ii_warehouse_id i = Some w \<longrightarrow> w \<in> ids))"

definition batches_ok :: "import_batch list \<Rightarrow> int \<Rightarrow> bool" where
  "batches_ok bs nb \<longleftrightarrow> distinct (map ib_id bs) \<and> (\<forall>b \<in> set bs. ib_id b < nb \<and> ib_status b \<in> {''pending'', ''applied'', ''expired''})"

abbreviation warehouse_ids :: "tp_state \<Rightarrow> int set" where
  "warehouse_ids st \<equiv> tpw_id ` set (tp_warehouses st)"

definition tp_inv :: "tp_state \<Rightarrow> bool" where
  "tp_inv st \<longleftrightarrow> warehouses_ok (tp_warehouses st) (tp_next_warehouse st) \<and> current_ok (warehouse_ids st) (tp_current st) (tp_next_current st)
     \<and> items_ok (warehouse_ids st) (tp_items st) (tp_next_batch st) \<and> batches_ok (tp_batches st) (tp_next_batch st)"

lemma current_ok_mono: "current_ok ids rows n \<Longrightarrow> ids \<subseteq> ids' \<Longrightarrow> n \<le> n' \<Longrightarrow> current_ok ids' rows n'"
  by (fastforce simp: current_ok_def)

lemma items_ok_mono: "items_ok ids items n \<Longrightarrow> ids \<subseteq> ids' \<Longrightarrow> n \<le> n' \<Longrightarrow> items_ok ids' items n'"
  by (fastforce simp: items_ok_def)

lemma batches_ok_update:
  "batches_ok bs n \<Longrightarrow> (\<And>b. ib_id (f b) = ib_id b) \<Longrightarrow> (\<And>b. ib_status (f b) \<in> {''pending'', ''applied'', ''expired''}) \<Longrightarrow>
   batches_ok (update_batch bid f bs) n"
proof -
  assume a: "batches_ok bs n" "\<And>b. ib_id (f b) = ib_id b" "\<And>b. ib_status (f b) \<in> {''pending'', ''applied'', ''expired''}"
  have "map ib_id (update_batch bid f bs) = map ib_id bs" by (simp add: update_batch_def a(2))
  then have "distinct (map ib_id (update_batch bid f bs))" using a(1) by (simp only: batches_ok_def)
  moreover have "ib_id b < n \<and> ib_status b \<in> {''pending'', ''applied'', ''expired''}" if "b \<in> set (update_batch bid f bs)" for b
    using that a by (fastforce simp: update_batch_def batches_ok_def)
  ultimately show "batches_ok (update_batch bid f bs) n" by (simp add: batches_ok_def)
qed

lemma parse_quantity_nonneg: "parse_quantity c = Some n \<Longrightarrow> 0 \<le> n"
  by (auto simp: parse_quantity_def split: if_splits option.splits)

lemma parse_row_good: "good_import_item (to_import_item ws bid (parse_row index numbered))"
  by (cases numbered) (auto simp: good_import_item_def to_import_item_def parse_row_def Let_def dest: parse_quantity_nonneg)

lemma parsed_rows_good:
  "parse_third_party_inventory_workbook content = Inr rows \<Longrightarrow> r \<in> set rows \<Longrightarrow> good_import_item (to_import_item ws bid r)"
  by (auto simp: parse_third_party_inventory_workbook_def Let_def parse_row_good split: option.splits list.splits if_splits)

lemma inv_preview:
  assumes "create_import_preview f c u st = Inr (st', b)" "tp_inv st"
  shows "tp_inv st'"
proof -
  obtain rows where rows: "parse_third_party_inventory_workbook c = Inr rows"
    using assms(1) by (auto simp: create_import_preview_def bind_res_Inr_iff)
  define names where "names = sorted_set (map pr_warehouse_name (filter (\<lambda>r. pr_problems r = []) rows))"
  define known where "known = filter (\<lambda>w. tpw_name w \<in> set names) (tp_warehouses st)"
  define new where "new = map (to_import_item known (tp_next_batch st)) rows"
  have st': "st' = st\<lparr>tp_batches := tp_batches st @ [b], tp_items := tp_items st @ new, tp_next_batch := tp_next_batch st + 1\<rparr>"
    and b: "ib_id b = tp_next_batch st" "ib_status b = ''pending''"
    using assms(1) rows by (auto simp: create_import_preview_def Let_def new_def known_def names_def split: if_splits)
  have "items_ok (warehouse_ids st) new (tp_next_batch st + 1)"
    using parsed_rows_good [OF rows]
    by (auto simp: items_ok_def new_def known_def to_import_item_def dest!: warehouse_of_name_Some)
  moreover have "items_ok (warehouse_ids st) (tp_items st) (tp_next_batch st + 1)"
    using assms(2) by (auto simp: tp_inv_def intro: items_ok_mono)
  moreover have "batches_ok (tp_batches st @ [b]) (tp_next_batch st + 1)"
    using assms(2) b by (fastforce simp: tp_inv_def batches_ok_def)
  ultimately show ?thesis using assms(2) by (auto simp: tp_inv_def st' items_ok_def)
qed

text \<open>What a confirmation does.\<close>

lemma confirm_cases:
  assumes "confirm_import_batch bid u now st = Inr st'"
  obtains ws n totals where "foldl add_warehouse (tp_warehouses st, tp_next_warehouse st) (sorted_set (map ii_warehouse_name_raw (batch_valid_items bid st))) = (ws, n)"
    "totals = foldl (add_total ws) [] (batch_valid_items bid st)" "batch_valid_items bid st \<noteq> []"
    "\<forall>(a, r) \<in> snd ` set totals. a \<le> INT_MAX \<and> r \<le> INT_MAX"
    "\<exists>b. find_batch bid st = Some b \<and> ib_status b = ''pending''"
    "st' = st\<lparr>tp_db := (tp_db st)\<lparr>t_third_party_warehouse := ws, t_third_party_inventory_current := current_rows bid (tp_next_current st) totals\<rparr>,
       tp_items := map (link_item ws bid) (tp_items st),
       tp_batches := update_batch bid (\<lambda>b. b\<lparr>ib_status := ''applied'', ib_confirmed_by := u, ib_confirmed_at := Some now\<rparr>) (tp_batches st),
       tp_next_warehouse := n, tp_next_current := tp_next_current st + int (length totals)\<rparr>"
proof -
  obtain b where b: "find_batch bid st = Some b" "ib_status b = ''pending''" and ne: "batch_valid_items bid st \<noteq> []"
    using assms by (auto simp: confirm_import_batch_def Let_def split: option.splits if_splits)
  obtain ws n where w: "foldl add_warehouse (tp_warehouses st, tp_next_warehouse st) (sorted_set (map ii_warehouse_name_raw (batch_valid_items bid st))) = (ws, n)"
    by fastforce
  define totals where "totals = foldl (add_total ws) [] (batch_valid_items bid st)"
  have "\<not> (\<exists>(a, r) \<in> snd ` set totals. a > INT_MAX \<or> r > INT_MAX)"
    using assms b ne w by (auto simp: confirm_import_batch_def Let_def totals_def split: if_splits)
  then have le: "\<forall>(a, r) \<in> snd ` set totals. a \<le> INT_MAX \<and> r \<le> INT_MAX" by force
  show ?thesis
    using assms b ne w by (intro that [OF w totals_def ne le]) (auto simp: confirm_import_batch_def Let_def totals_def split: if_splits)
qed

lemma find_update_batch:
  "find (\<lambda>b. ib_id b = bid) bs = Some b \<Longrightarrow> (\<And>b. ib_id (f b) = ib_id b) \<Longrightarrow>
   find (\<lambda>b. ib_id b = bid) (update_batch bid f bs) = Some (f b)"
  by (induction bs) (auto simp: update_batch_def split: if_splits)

lemma confirm_batches:
  assumes "confirm_import_batch bid u now st = Inr st'"
  shows "\<exists>f c. tp_batches st' = update_batch bid f (tp_batches st) \<and> find_batch bid st = Some c \<and> ib_status c = ''pending''"
proof (rule confirm_cases [OF assms])
  fix ws n totals
  assume p: "\<exists>b. find_batch bid st = Some b \<and> ib_status b = ''pending''"
    and st': "st' = st\<lparr>tp_db := (tp_db st)\<lparr>t_third_party_warehouse := ws, t_third_party_inventory_current := current_rows bid (tp_next_current st) totals\<rparr>,
       tp_items := map (link_item ws bid) (tp_items st),
       tp_batches := update_batch bid (\<lambda>b. b\<lparr>ib_status := ''applied'', ib_confirmed_by := u, ib_confirmed_at := Some now\<rparr>) (tp_batches st),
       tp_next_warehouse := n, tp_next_current := tp_next_current st + int (length totals)\<rparr>"
  have "tp_batches st' = update_batch bid (\<lambda>b. b\<lparr>ib_status := ''applied'', ib_confirmed_by := u, ib_confirmed_at := Some now\<rparr>) (tp_batches st)"
    by (simp add: st')
  then show ?thesis using p by blast
qed

lemma batch_items_valid: "i \<in> set (batch_valid_items bid st) \<Longrightarrow> i \<in> set (tp_items st) \<and> valid_item i \<and> ii_batch_id i = bid"
  by (auto simp: batch_valid_items_def)

text \<open>A total is the sum of its items.\<close>

lemma totals_value:
  assumes "totals = foldl (add_total ws) [] items" "(k, (a, r)) \<in> set totals"
  shows "a = sum_list [the (ii_available i). i \<leftarrow> items, item_key ws i = k] \<and> r = sum_list [the (ii_reserved i). i \<leftarrow> items, item_key ws i = k]"
proof -
  have "wf_dict totals" unfolding assms(1) by (rule totals_wf) simp
  then have "dict_get totals k = Some (a, r)" using assms(2) by (simp add: dict_get_eq_Some_iff)
  then have "dict_get_or totals k (0, 0) = (a, r)" by (simp add: dict_get_or_def)
  then show ?thesis using totals_get [of ws "[]" items k] unfolding assms(1) by simp
qed

lemma sum_list_comp_nonneg:
  fixes f :: "'a \<Rightarrow> int"
  shows "(\<And>x. x \<in> set xs \<Longrightarrow> 0 \<le> f x) \<Longrightarrow> 0 \<le> sum_list [f x. x \<leftarrow> xs, P x]"
  by (induction xs) auto

lemma inv_confirm:
  assumes "confirm_import_batch bid u now st = Inr st'" "tp_inv st"
  shows "tp_inv st'"
proof -
  obtain ws n totals where w: "foldl add_warehouse (tp_warehouses st, tp_next_warehouse st) (sorted_set (map ii_warehouse_name_raw (batch_valid_items bid st))) = (ws, n)"
    and t: "totals = foldl (add_total ws) [] (batch_valid_items bid st)"
    and le: "\<forall>(a, r) \<in> snd ` set totals. a \<le> INT_MAX \<and> r \<le> INT_MAX"
    and st': "st' = st\<lparr>tp_db := (tp_db st)\<lparr>t_third_party_warehouse := ws, t_third_party_inventory_current := current_rows bid (tp_next_current st) totals\<rparr>,
       tp_items := map (link_item ws bid) (tp_items st),
       tp_batches := update_batch bid (\<lambda>b. b\<lparr>ib_status := ''applied'', ib_confirmed_by := u, ib_confirmed_at := Some now\<rparr>) (tp_batches st),
       tp_next_warehouse := n, tp_next_current := tp_next_current st + int (length totals)\<rparr>"
    using confirm_cases [OF assms(1)] by metis
  have ok: "warehouses_ok (tp_warehouses st) (tp_next_warehouse st)" using assms(2) by (simp add: tp_inv_def)
  note add = add_warehouses_ok [OF ok w]
  have key: "fst (item_key ws i) \<in> tpw_id ` set ws" "snd (item_key ws i) \<noteq> []" "0 \<le> the (ii_available i)" "0 \<le> the (ii_reserved i)"
    if "i \<in> set (batch_valid_items bid st)" for i
  proof -
    have i: "i \<in> set (tp_items st)" "valid_item i" using batch_items_valid [OF that] by auto
    have "ii_warehouse_name_raw i \<in> tpw_name ` set ws" using add that by (auto simp: sorted_set_def)
    then obtain v where v: "warehouse_of_name ws (ii_warehouse_name_raw i) = Some v"
      by (cases "warehouse_of_name ws (ii_warehouse_name_raw i)") (auto simp: warehouse_of_name_None)
    show "fst (item_key ws i) \<in> tpw_id ` set ws" using warehouse_of_name_Some [OF v] v by (simp add: item_key_def)
    show "snd (item_key ws i) \<noteq> []" using i(2) by (auto simp: item_key_def valid_item_def str_or_def split: option.splits if_splits)
    have "good_import_item i" "ii_problems i = []" using assms(2) i by (auto simp: tp_inv_def items_ok_def valid_item_def)
    then show "0 \<le> the (ii_available i)" "0 \<le> the (ii_reserved i)" by (auto simp: good_import_item_def)
  qed
  have wf: "wf_dict totals" unfolding t by (rule totals_wf) simp
  have tk: "fst ` set totals = item_key ws ` set (batch_valid_items bid st)" unfolding t totals_keys by simp
  have "current_ok (tpw_id ` set ws) (current_rows bid (tp_next_current st) totals) (tp_next_current st + int (length totals))"
    unfolding current_ok_def
  proof (intro conjI ballI)
    show "distinct (map (\<lambda>i. (tpi_warehouse_id i, tpi_commodity_sku i)) (current_rows bid (tp_next_current st) totals))"
      unfolding current_rows_keys using wf by (metis distinct_map distinct_sort set_sort)
    show "distinct (map tpi_id (current_rows bid (tp_next_current st) totals))"
      unfolding current_rows_ids by (simp add: distinct_map inj_on_def)
  next
    fix row assume row: "row \<in> set (current_rows bid (tp_next_current st) totals)"
    define k where "k = (tpi_warehouse_id row, tpi_commodity_sku row)"
    have rin: "(k, (tpi_available row, tpi_reserved row)) \<in> set totals" and id: "tpi_id row < tp_next_current st + int (length totals)"
      using current_rows_in [OF row] by (auto simp: k_def)
    have "k \<in> item_key ws ` set (batch_valid_items bid st)" unfolding tk [symmetric] using rin by (rule rev_image_eqI) simp
    then obtain x where x: "x \<in> set (batch_valid_items bid st)" "k = item_key ws x" by blast
    show "tpi_warehouse_id row \<in> tpw_id ` set ws" "tpi_commodity_sku row \<noteq> []"
      using key(1,2) [OF x(1)] unfolding x(2) [symmetric] by (simp_all add: k_def)
    show "0 \<le> tpi_available row" "0 \<le> tpi_reserved row"
      using totals_value [OF t rin] key(3,4) sum_list_comp_nonneg [of "batch_valid_items bid st"] by auto
    show "tpi_available row \<le> INT_MAX" "tpi_reserved row \<le> INT_MAX" using le rin by force+
    show "tpi_id row < tp_next_current st + int (length totals)" by (rule id)
  qed
  moreover have "items_ok (tpw_id ` set ws) (map (link_item ws bid) (tp_items st)) (tp_next_batch st)"
  proof -
    have sub: "warehouse_ids st \<subseteq> tpw_id ` set ws" using add by (intro image_mono) simp
    have "items_ok (warehouse_ids st) (tp_items st) (tp_next_batch st)" using assms(2) by (simp add: tp_inv_def)
    from items_ok_mono [OF this sub order_refl] have "items_ok (tpw_id ` set ws) (tp_items st) (tp_next_batch st)" .
    then show ?thesis
      by (auto simp: items_ok_def link_item_def good_import_item_def dest!: warehouse_of_name_Some)
  qed
  moreover have "batches_ok (tp_batches st') (tp_next_batch st)"
    using assms(2) unfolding st' by (auto simp: tp_inv_def intro!: batches_ok_update)
  ultimately show ?thesis using add by (simp add: tp_inv_def st')
qed


lemma inv_cancel: "expire_pending_batch bid st = Inr st' \<Longrightarrow> tp_inv st \<Longrightarrow> tp_inv st'"
  by (auto simp: expire_pending_batch_def tp_inv_def intro!: batches_ok_update split: option.splits if_splits)

lemma current_schema_ok: "current_in_schema b0 = Some b \<Longrightarrow> ci_commodity_sku b \<noteq> [] \<and> 0 \<le> ci_available b \<and> 0 \<le> ci_reserved b"
  by (auto simp: current_in_schema_def sku_field_def Let_def split: option.splits if_splits)

lemma inv_upsert:
  assumes "upsert_current_item b0 st = Inr st'" "tp_inv st"
  shows "tp_inv st'"
proof -
  obtain b where b: "current_in_schema b0 = Some b" "ci_warehouse_id b \<in> warehouse_ids st" "ci_available b \<le> INT_MAX" "ci_reserved b \<le> INT_MAX"
    using assms(1) by (auto simp: upsert_current_item_def Let_def split: option.splits if_splits)
  define hit where "hit i \<longleftrightarrow> tpi_warehouse_id i = ci_warehouse_id b \<and> tpi_commodity_sku i = ci_commodity_sku b" for i :: third_party_inventory_current
  define row where "row = \<lparr>tpi_id = tp_next_current st, tpi_warehouse_id = ci_warehouse_id b, tpi_commodity_sku = ci_commodity_sku b,
     tpi_available = ci_available b, tpi_reserved = ci_reserved b, tpi_source_batch_id = None, tpi_last_operation = ''manual''\<rparr>"
  define rows where "rows = (if \<exists>i \<in> set (tp_current st). hit i then map (\<lambda>i. if hit i then row\<lparr>tpi_id := tpi_id i\<rparr> else i) (tp_current st) else tp_current st @ [row])"
  have st': "st' = st\<lparr>tp_db := (tp_db st)\<lparr>t_third_party_inventory_current := rows\<rparr>, tp_next_current := tp_next_current st + 1\<rparr>"
    using assms(1) b by (auto simp: upsert_current_item_def Let_def rows_def hit_def [abs_def] row_def split: if_splits)
  have cur: "current_ok (warehouse_ids st) (tp_current st) (tp_next_current st)" using assms(2) by (simp add: tp_inv_def)
  have "current_ok (warehouse_ids st) rows (tp_next_current st + 1)"
  proof (cases "\<exists>i \<in> set (tp_current st). hit i")
    case True
    then have rows: "rows = map (\<lambda>i. if hit i then row\<lparr>tpi_id := tpi_id i\<rparr> else i) (tp_current st)" by (simp add: rows_def)
    have "map (\<lambda>i. (tpi_warehouse_id i, tpi_commodity_sku i)) rows = map (\<lambda>i. (tpi_warehouse_id i, tpi_commodity_sku i)) (tp_current st)"
      "map tpi_id rows = map tpi_id (tp_current st)" unfolding rows by (auto simp: row_def hit_def)
    moreover have "\<forall>i \<in> set rows. tpi_warehouse_id i \<in> warehouse_ids st \<and> tpi_commodity_sku i \<noteq> [] \<and> 0 \<le> tpi_available i \<and> tpi_available i \<le> INT_MAX
          \<and> 0 \<le> tpi_reserved i \<and> tpi_reserved i \<le> INT_MAX \<and> tpi_id i < tp_next_current st + 1"
      using cur b current_schema_ok [OF b(1)] unfolding rows by (fastforce simp: current_ok_def row_def)
    ultimately show ?thesis using cur by (simp add: current_ok_def)
  next
    case False
    then have rows: "rows = tp_current st @ [row]" by (simp add: rows_def)
    show ?thesis using cur False b current_schema_ok [OF b(1)] unfolding rows by (fastforce simp: current_ok_def row_def hit_def)
  qed
  then show ?thesis using assms(2) by (simp add: tp_inv_def st')
qed

lemma patch_schema_ok:
  "current_patch_schema p0 = Some p \<Longrightarrow> (\<forall>s. cp_commodity_sku p = Some s \<longrightarrow> s \<noteq> []) \<and> (\<forall>n. cp_available p = Some n \<longrightarrow> 0 \<le> n)
     \<and> (\<forall>n. cp_reserved p = Some n \<longrightarrow> 0 \<le> n)"
  by (auto simp: current_patch_schema_def optional_field_def sku_field_def Let_def split: option.splits if_splits)

lemma distinct_map_update:
  assumes "distinct (map key xs)" "distinct (map uid xs)" "uid y = n" "\<And>x. x \<in> set xs \<Longrightarrow> uid x \<noteq> n \<Longrightarrow> key x \<noteq> key y"
  shows "distinct (map key (map (\<lambda>x. if uid x = n then y else x) xs))"
  using assms
proof (induction xs)
  case (Cons x xs)
  then show ?case by (cases "uid x = n") (fastforce simp: image_iff)+
qed simp

lemma map_update_same: "f y = n \<Longrightarrow> map f (map (\<lambda>x. if f x = n then y else x) xs) = map f xs"
  by auto

lemma inv_patch_item:
  assumes "patch_current_item p0 iid st = Inr st'" "tp_inv st"
  shows "tp_inv st'"
proof -
  obtain p item where p: "current_patch_schema p0 = Some p" and item: "find (\<lambda>i. tpi_id i = iid) (tp_current st) = Some item"
    using assms(1) by (auto simp: patch_current_item_def split: option.splits)
  define wid where "wid = (case cp_warehouse_id p of None \<Rightarrow> tpi_warehouse_id item | Some w \<Rightarrow> if w = 0 then tpi_warehouse_id item else w)"
  define item' where "item' = item\<lparr>tpi_warehouse_id := wid, tpi_commodity_sku := or_old (cp_commodity_sku p) (tpi_commodity_sku item),
      tpi_available := or_old (cp_available p) (tpi_available item), tpi_reserved := or_old (cp_reserved p) (tpi_reserved item),
      tpi_source_batch_id := None, tpi_last_operation := ''manual''\<rparr>"
  define rows where "rows = map (\<lambda>i. if tpi_id i = iid then item' else i) (tp_current st)"
  have st': "st' = st\<lparr>tp_db := (tp_db st)\<lparr>t_third_party_inventory_current := rows\<rparr>\<rparr>"
    and ok: "wid \<in> warehouse_ids st" "tpi_available item' \<le> INT_MAX" "tpi_reserved item' \<le> INT_MAX"
      "\<not> (\<exists>i \<in> set (tp_current st). tpi_id i \<noteq> iid \<and> tpi_warehouse_id i = wid \<and> tpi_commodity_sku i = tpi_commodity_sku item')"
    using assms(1) p item unfolding rows_def item'_def wid_def by (auto simp: patch_current_item_def Let_def split: if_splits)
  have item_in: "item \<in> set (tp_current st)" "tpi_id item = iid" using item by (auto simp: find_Some_iff)
  have cur: "current_ok (warehouse_ids st) (tp_current st) (tp_next_current st)" using assms(2) by (simp add: tp_inv_def)
  have id': "tpi_id item' = iid" using item_in by (simp add: item'_def)
  have new: "tpi_warehouse_id item' \<in> warehouse_ids st \<and> tpi_commodity_sku item' \<noteq> [] \<and> 0 \<le> tpi_available item' \<and> 0 \<le> tpi_reserved item'
      \<and> tpi_id item' < tp_next_current st"
    using ok(1) cur item_in patch_schema_ok [OF p] by (auto simp: item'_def current_ok_def or_old_def split: option.splits)
  have "distinct (map (\<lambda>i. (tpi_warehouse_id i, tpi_commodity_sku i)) rows)"
    unfolding rows_def using cur ok(4) id' by (intro distinct_map_update) (auto simp: current_ok_def item'_def)
  moreover have "distinct (map tpi_id rows)" unfolding rows_def map_update_same [where f = tpi_id, OF id'] using cur by (simp add: current_ok_def)
  moreover have "\<forall>i \<in> set rows. tpi_warehouse_id i \<in> warehouse_ids st \<and> tpi_commodity_sku i \<noteq> [] \<and> 0 \<le> tpi_available i \<and> tpi_available i \<le> INT_MAX
          \<and> 0 \<le> tpi_reserved i \<and> tpi_reserved i \<le> INT_MAX \<and> tpi_id i < tp_next_current st"
    using cur new ok(2,3) by (auto simp: rows_def current_ok_def)
  ultimately show ?thesis using assms(2) by (simp add: tp_inv_def st' current_ok_def)
qed

lemma inv_delete_item: "delete_current_item i st = Inr st' \<Longrightarrow> tp_inv st \<Longrightarrow> tp_inv st'"
  by (auto simp: delete_current_item_def tp_inv_def current_ok_def distinct_map_filter split: if_splits)

lemma sync_items_ok:
  "items_ok ids items n \<Longrightarrow> tpw_id w \<in> ids \<Longrightarrow> items_ok ids (sync_import_items_warehouse_id w items) n"
  by (auto simp: items_ok_def sync_import_items_warehouse_id_def good_import_item_def)

lemma inv_create_wh:
  assumes "create_third_party_warehouse nm c st = Inr st'" "tp_inv st"
  shows "tp_inv st'"
proof -
  obtain name ctry where "tp_name_field nm = Some name" and new: "name \<notin> tpw_name ` set (tp_warehouses st)"
    and st': "st' = st\<lparr>tp_db := (tp_db st)\<lparr>t_third_party_warehouse := tp_warehouses st @ [\<lparr>tpw_id = tp_next_warehouse st, tpw_name = name, tpw_country = ctry\<rparr>]\<rparr>,
        tp_items := sync_import_items_warehouse_id \<lparr>tpw_id = tp_next_warehouse st, tpw_name = name, tpw_country = ctry\<rparr> (tp_items st),
        tp_next_warehouse := tp_next_warehouse st + 1\<rparr>"
    using assms(1)
    by (auto simp: create_third_party_warehouse_def bind_res_Inr_iff Let_def warehouse_of_name_None [symmetric] split: option.splits if_splits)
  let ?w = "\<lparr>tpw_id = tp_next_warehouse st, tpw_name = name, tpw_country = ctry\<rparr>"
  have ids: "warehouse_ids st \<subseteq> tpw_id ` set (tp_warehouses st @ [?w])" by auto
  have "warehouses_ok (tp_warehouses st @ [?w]) (tp_next_warehouse st + 1)"
    using assms(2) new by (fastforce simp: tp_inv_def warehouses_ok_def)
  moreover have "items_ok (tpw_id ` set (tp_warehouses st @ [?w])) (sync_import_items_warehouse_id ?w (tp_items st)) (tp_next_batch st)"
    using assms(2) items_ok_mono [OF _ ids] by (intro sync_items_ok) (auto simp: tp_inv_def)
  moreover have "current_ok (tpw_id ` set (tp_warehouses st @ [?w])) (tp_current st) (tp_next_current st)"
    using assms(2) current_ok_mono [OF _ ids] by (auto simp: tp_inv_def)
  ultimately show ?thesis using assms(2) by (simp add: tp_inv_def st')
qed

lemma inv_patch_wh:
  assumes "patch_third_party_warehouse nm c wid st = Inr st'" "tp_inv st"
  shows "tp_inv st'"
proof -
  obtain w name ctry where w: "find (\<lambda>w. tpw_id w = wid) (tp_warehouses st) = Some w"
    and name: "optional_field tp_name_field nm = Some name"
    and c: "(case the (optional_field tp_country_field c) of None \<Rightarrow> return (tpw_country w) | Some c \<Rightarrow> normalize_third_party_country c) = return ctry"
    using assms(1) by (auto simp: patch_third_party_warehouse_def bind_res_Inr_iff split: option.splits)
  define w' where "w' = w\<lparr>tpw_name := or_old name (tpw_name w), tpw_country := ctry\<rparr>"
  have w_in: "w \<in> set (tp_warehouses st)" "tpw_id w = wid" using w by (auto simp: find_Some_iff)
  then have id': "tpw_id w' = wid" by (simp add: w'_def)
  have free: "\<not> (\<exists>v \<in> set (tp_warehouses st). tpw_id v \<noteq> wid \<and> tpw_name v = tpw_name w')"
    and st': "st' = st\<lparr>tp_db := (tp_db st)\<lparr>t_third_party_warehouse := map (\<lambda>v. if tpw_id v = wid then w' else v) (tp_warehouses st)\<rparr>,
        tp_items := sync_import_items_warehouse_id w' (tp_items st)\<rparr>"
    using assms(1) w name c unfolding w'_def
    by (auto simp: patch_third_party_warehouse_def bind_res_Inr_iff Let_def split: option.splits if_splits)
  define ws where "ws = map (\<lambda>v. if tpw_id v = wid then w' else v) (tp_warehouses st)"
  have same: "map tpw_id ws = map tpw_id (tp_warehouses st)" unfolding ws_def by (rule map_update_same [where f = tpw_id, OF id'])
  then have ids: "tpw_id ` set ws = warehouse_ids st" by (metis image_set)
  have old: "warehouses_ok (tp_warehouses st) (tp_next_warehouse st)" using assms(2) by (simp add: tp_inv_def)
  have "distinct (map tpw_name ws)"
    unfolding ws_def using old free id' by (intro distinct_map_update) (auto simp: warehouses_ok_def)
  moreover have "distinct (map tpw_id ws)" using old unfolding same by (simp add: warehouses_ok_def)
  moreover have "\<forall>v \<in> set ws. tpw_id v < tp_next_warehouse st" using old w_in id' by (auto simp: warehouses_ok_def ws_def)
  ultimately have "warehouses_ok ws (tp_next_warehouse st)" by (simp add: warehouses_ok_def)
  moreover have "items_ok (tpw_id ` set ws) (sync_import_items_warehouse_id w' (tp_items st)) (tp_next_batch st)"
    using assms(2) w_in id' unfolding ids by (intro sync_items_ok) (auto simp: tp_inv_def)
  ultimately show ?thesis using assms(2) ids by (simp add: tp_inv_def st' ws_def [symmetric])
qed

lemma inv_delete_wh:
  assumes "delete_third_party_warehouse wid st = Inr st'" "tp_inv st"
  shows "tp_inv st'"
proof -
  have free: "\<forall>i \<in> set (tp_current st). tpi_warehouse_id i \<noteq> wid" "\<forall>i \<in> set (tp_items st). ii_warehouse_id i \<noteq> Some wid"
    and st': "st' = st\<lparr>tp_db := (tp_db st)\<lparr>t_third_party_warehouse := filter (\<lambda>w. tpw_id w \<noteq> wid) (tp_warehouses st)\<rparr>\<rparr>"
    using assms(1) by (auto simp: delete_third_party_warehouse_def split: if_splits)
  have ids: "tpw_id ` set (filter (\<lambda>w. tpw_id w \<noteq> wid) (tp_warehouses st)) = warehouse_ids st - {wid}" by auto
  have "warehouses_ok (filter (\<lambda>w. tpw_id w \<noteq> wid) (tp_warehouses st)) (tp_next_warehouse st)"
    using assms(2) by (auto simp: tp_inv_def warehouses_ok_def distinct_map_filter)
  moreover have "current_ok (warehouse_ids st - {wid}) (tp_current st) (tp_next_current st)"
    using assms(2) free(1) by (auto simp: tp_inv_def current_ok_def)
  moreover have "items_ok (warehouse_ids st - {wid}) (tp_items st) (tp_next_batch st)"
    using assms(2) free(2) by (auto simp: tp_inv_def items_ok_def)
  ultimately show ?thesis using assms(2) unfolding tp_inv_def st' by (simp add: ids del: set_filter)
qed

lemmas tp_inv_steps = inv_preview inv_confirm inv_cancel inv_upsert inv_patch_item inv_delete_item inv_create_wh inv_patch_wh inv_delete_wh

lemma tp_step_inv: "tp_step st st' \<Longrightarrow> tp_inv st \<Longrightarrow> tp_inv st'"
  by (induction rule: tp_step.induct) (fact tp_inv_steps)+

lemma tp_reachable_inv: "tp_reachable st \<Longrightarrow> tp_inv st"
proof -
  have "tp_step\<^sup>*\<^sup>* s st \<Longrightarrow> tp_inv s \<Longrightarrow> tp_inv st" for s
    by (induction rule: rtranclp_induct) (simp_all add: tp_step_inv)
  moreover have "tp_inv (initial_tp db)" for db
    by (simp add: tp_inv_def initial_tp_def warehouses_ok_def current_ok_def items_ok_def batches_ok_def)
  ultimately show "tp_reachable st \<Longrightarrow> tp_inv st" unfolding tp_reachable_def by blast
qed


subsection \<open>The stock after a confirmation\<close>

definition tp_stock :: "(third_party_inventory_current \<Rightarrow> int) \<Rightarrow> tp_state \<Rightarrow> int \<Rightarrow> sku \<Rightarrow> int" where
  "tp_stock q st wid s = sum_list [q i. i \<leftarrow> tp_current st, tpi_warehouse_id i = wid \<and> tpi_commodity_sku i = s]"

lemma sum_list_unique:
  assumes "distinct (map key xs)" "x \<in> set xs"
  shows "sum_list [f y. y \<leftarrow> xs, key y = key x] = (f x :: int)"
  using assms
proof (induction xs)
  case (Cons y ys)
  have none: "[f z. z \<leftarrow> ys, key z = key y] = []" using Cons.prems(1) by (auto simp: image_iff)
  show ?case
  proof (cases "key y = key x")
    case True
    then have "x = y" using Cons.prems by (auto simp: image_iff)
    then show ?thesis unfolding list.map concat.simps \<open>x = y\<close> none by simp
  next
    case False
    then show ?thesis using Cons by auto
  qed
qed simp

lemma item_key_eq:
  assumes "warehouses_ok ws n" "w \<in> set ws" "ii_warehouse_name_raw i \<in> tpw_name ` set ws"
  shows "item_key ws i = (tpw_id w, s) \<longleftrightarrow> ii_warehouse_name_raw i = tpw_name w \<and> the (ii_commodity_sku i) = s"
proof -
  obtain v where v: "v \<in> set ws" "tpw_name v = ii_warehouse_name_raw i" using assms(3) by auto
  have f: "warehouse_of_name ws (ii_warehouse_name_raw i) = Some v"
    using warehouse_of_name_unique [OF _ v(1)] assms(1) v(2) by (simp add: warehouses_ok_def)
  have "tpw_id v = tpw_id w \<longleftrightarrow> v = w" "tpw_name v = tpw_name w \<longleftrightarrow> v = w"
    using assms(1,2) v(1) by (auto simp: warehouses_ok_def distinct_map inj_on_def)
  then show ?thesis using f v(2) by (auto simp: item_key_def)
qed

lemma confirmed_stock:
  assumes t: "totals = foldl (add_total ws) [] items" and cur: "tp_current st = current_rows bid first totals"
  shows "tp_stock tpi_available st wid s = sum_list [the (ii_available i). i \<leftarrow> items, item_key ws i = (wid, s)]
    \<and> tp_stock tpi_reserved st wid s = sum_list [the (ii_reserved i). i \<leftarrow> items, item_key ws i = (wid, s)]"
proof (cases "(wid, s) \<in> fst ` set totals")
  case True
  then obtain a r where in_t: "((wid, s), (a, r)) \<in> set totals" by auto
  have wf: "wf_dict totals" unfolding t by (rule totals_wf) simp
  let ?key = "\<lambda>i. (tpi_warehouse_id i, tpi_commodity_sku i)"
  have dist: "distinct (map ?key (tp_current st))"
    unfolding cur current_rows_keys using wf by (metis distinct_map distinct_sort set_sort)
  have "(wid, s) \<in> set (map ?key (tp_current st))" unfolding cur current_rows_keys using True by auto
  then obtain row where row: "row \<in> set (tp_current st)" "?key row = (wid, s)" by auto
  have "((wid, s), (tpi_available row, tpi_reserved row)) \<in> set totals"
    using current_rows_in [of row bid first totals] row unfolding cur by auto
  then have "tpi_available row = a" "tpi_reserved row = r" using in_t wf by (auto dest: eq_key_imp_eq_value)
  then show ?thesis
    using sum_list_unique [OF dist row(1), of tpi_available] sum_list_unique [OF dist row(1), of tpi_reserved] row(2)
      totals_value [OF t in_t] by (simp add: tp_stock_def)
next
  case False
  let ?key = "\<lambda>i. (tpi_warehouse_id i, tpi_commodity_sku i)"
  have "(wid, s) \<notin> set (map ?key (tp_current st))" unfolding cur current_rows_keys using False by auto
  then have "[q i. i \<leftarrow> tp_current st, tpi_warehouse_id i = wid \<and> tpi_commodity_sku i = s] = []" for q :: "third_party_inventory_current \<Rightarrow> int"
    by (auto simp: image_iff)
  moreover have "[q i. i \<leftarrow> items, item_key ws i = (wid, s)] = []" for q :: "import_item \<Rightarrow> int"
    using False unfolding t totals_keys by (auto simp: image_iff)
  ultimately show ?thesis unfolding tp_stock_def by metis
qed

lemma sum_list_comp_cong:
  assumes "\<And>x. x \<in> set xs \<Longrightarrow> P x = Q x"
  shows "[f x. x \<leftarrow> xs, P x] = [f x. x \<leftarrow> xs, Q x]"
  using assms by (induction xs) auto

section \<open>Properties\<close>

text \<open>
  C19: confirming a batch replaces the overseas stock by exactly what the sheet says. In every
  reachable state, after a confirmation the stock of a SKU in a warehouse is the sum over the
  valid rows of the batch that name the warehouse and the SKU, and nothing else is left of the
  earlier stock; every row's warehouse exists, the known warehouses are kept and the new ones
  have no country yet; and the batch cannot be confirmed or cancelled again.
\<close>

theorem confirm_replaces_stock:
  assumes "tp_reachable st" "confirm_import_batch bid u now st = Inr st'"
  shows "(\<forall>w \<in> set (tp_warehouses st'). \<forall>s.
      tp_stock tpi_available st' (tpw_id w) s =
        sum_list [the (ii_available i). i \<leftarrow> batch_valid_items bid st, ii_warehouse_name_raw i = tpw_name w \<and> the (ii_commodity_sku i) = s]
    \<and> tp_stock tpi_reserved st' (tpw_id w) s =
        sum_list [the (ii_reserved i). i \<leftarrow> batch_valid_items bid st, ii_warehouse_name_raw i = tpw_name w \<and> the (ii_commodity_sku i) = s])
    \<and> ii_warehouse_name_raw ` set (batch_valid_items bid st) \<subseteq> tpw_name ` set (tp_warehouses st')
    \<and> set (tp_warehouses st) \<subseteq> set (tp_warehouses st')
    \<and> (\<forall>w \<in> set (tp_warehouses st') - set (tp_warehouses st). tpw_country w = None)
    \<and> (\<forall>i \<in> set (tp_current st'). tpi_source_batch_id i = Some bid)
    \<and> confirm_import_batch bid u' now' st' = raise ConflictError \<and> expire_pending_batch bid st' = raise ConflictError"
proof -
  obtain ws n totals b where w: "foldl add_warehouse (tp_warehouses st, tp_next_warehouse st) (sorted_set (map ii_warehouse_name_raw (batch_valid_items bid st))) = (ws, n)"
    and t: "totals = foldl (add_total ws) [] (batch_valid_items bid st)" and b: "find_batch bid st = Some b"
    and st': "st' = st\<lparr>tp_db := (tp_db st)\<lparr>t_third_party_warehouse := ws, t_third_party_inventory_current := current_rows bid (tp_next_current st) totals\<rparr>,
       tp_items := map (link_item ws bid) (tp_items st),
       tp_batches := update_batch bid (\<lambda>b. b\<lparr>ib_status := ''applied'', ib_confirmed_by := u, ib_confirmed_at := Some now\<rparr>) (tp_batches st),
       tp_next_warehouse := n, tp_next_current := tp_next_current st + int (length totals)\<rparr>"
    using confirm_cases [OF assms(2)] by metis
  have ok: "warehouses_ok (tp_warehouses st) (tp_next_warehouse st)" using tp_reachable_inv [OF assms(1)] by (simp add: tp_inv_def)
  note add = add_warehouses_ok [OF ok w]
  have ws: "tp_warehouses st' = ws" and cur: "tp_current st' = current_rows bid (tp_next_current st) totals" by (simp_all add: st')
  have names: "ii_warehouse_name_raw i \<in> tpw_name ` set ws" if "i \<in> set (batch_valid_items bid st)" for i
    using add that by (auto simp: sorted_set_def)
  have "tp_stock tpi_available st' (tpw_id w) s =
        sum_list [the (ii_available i). i \<leftarrow> batch_valid_items bid st, ii_warehouse_name_raw i = tpw_name w \<and> the (ii_commodity_sku i) = s]
    \<and> tp_stock tpi_reserved st' (tpw_id w) s =
        sum_list [the (ii_reserved i). i \<leftarrow> batch_valid_items bid st, ii_warehouse_name_raw i = tpw_name w \<and> the (ii_commodity_sku i) = s]"
    if w: "w \<in> set ws" for w s
  proof -
    have "item_key ws i = (tpw_id w, s) \<longleftrightarrow> ii_warehouse_name_raw i = tpw_name w \<and> the (ii_commodity_sku i) = s"
      if "i \<in> set (batch_valid_items bid st)" for i using add by (intro item_key_eq [OF _ w names [OF that]]) blast
    then have "[f i. i \<leftarrow> batch_valid_items bid st, item_key ws i = (tpw_id w, s)] =
        [f i. i \<leftarrow> batch_valid_items bid st, ii_warehouse_name_raw i = tpw_name w \<and> the (ii_commodity_sku i) = s]" for f :: "import_item \<Rightarrow> int"
      by (rule sum_list_comp_cong)
    then show ?thesis using confirmed_stock [OF t cur, of "tpw_id w" s] by (simp only:)
  qed
  moreover have "find_batch bid st' = Some (b\<lparr>ib_status := ''applied'', ib_confirmed_by := u, ib_confirmed_at := Some now\<rparr>)"
    using b unfolding st' find_batch_def by (simp add: find_update_batch)
  then have "confirm_import_batch bid u' now' st' = raise ConflictError" "expire_pending_batch bid st' = raise ConflictError"
    by (simp_all add: confirm_import_batch_def expire_pending_batch_def)
  moreover have "\<forall>i \<in> set (tp_current st'). tpi_source_batch_id i = Some bid"
    unfolding cur using current_rows_in by blast
  moreover have "\<forall>w \<in> set ws - set (tp_warehouses st). tpw_country w = None" using add by blast
  moreover have "ii_warehouse_name_raw ` set (batch_valid_items bid st) \<subseteq> tpw_name ` set ws" using names by blast
  ultimately show ?thesis unfolding ws using add by (intro conjI ballI allI) simp_all
qed

text \<open>A sheet with two lines for the same SKU and one that is not valid.\<close>

definition demo_sheet :: "cell list list" where
  "demo_sheet = [[TextCell HDR_TP_WAREHOUSE, TextCell HDR_TP_SKU, TextCell HDR_TP_AVAILABLE, TextCell HDR_TP_RESERVED],
     [TextCell ''NJ'', TextCell ''A'', IntCell 5, IntCell 1], [TextCell ''NJ'', TextCell ''A'', TextCell '' 7 '', NullCell],
     [TextCell ''NJ'', TextCell ''B'', IntCell (-1), NullCell]]"

lemma demo_tp_run:
  "case create_import_preview ''f.xlsx'' (Some demo_sheet) None (initial_tp (demo_alias_db [] [])) of Inl e \<Rightarrow> False
   | Inr (st, b) \<Rightarrow> ib_skipped_row_count b = 1 \<and> ib_new_warehouses b = [''NJ'']
       \<and> map (\<lambda>i. (the (ii_available i), the (ii_reserved i), the (ii_commodity_sku i))) (batch_valid_items 1 st) = [(5, 1, ''A''), (7, 0, ''A'')]
       \<and> (case confirm_import_batch 1 None 0 st of Inl e \<Rightarrow> False
          | Inr st' \<Rightarrow> map tpw_name (tp_warehouses st') = [''NJ''] \<and> map tpi_available (tp_current st') = [12] \<and> map tpi_id (tp_current st') = [1])"
  by code_simp

theorem confirm_replaces_stock_witness:
  "\<exists>st st' :: tp_state. confirm_import_batch 1 None 0 st = Inr st' \<and> map tpi_available (tp_current st') = [12]
     \<and> confirm_import_batch 1 None 0 st' = raise ConflictError"
proof -
  obtain st st' b where p: "create_import_preview ''f.xlsx'' (Some demo_sheet) None (initial_tp (demo_alias_db [] [])) = Inr (st, b)"
    and c: "confirm_import_batch 1 None 0 st = Inr st'" "map tpi_available (tp_current st') = [12]"
    using demo_tp_run by (auto split: sum.splits)
  have "tp_step\<^sup>*\<^sup>* (initial_tp (demo_alias_db [] [])) st" using tp_step.preview [OF p] by (rule r_into_rtranclp)
  then have "tp_reachable st" unfolding tp_reachable_def by (rule exI)
  from confirm_replaces_stock [OF this c(1), of None 0] have "confirm_import_batch 1 None 0 st' = raise ConflictError" by (elim conjE)
  then show ?thesis using c by (intro exI [of _ st] exI [of _ st'] conjI)
qed

text \<open>
  C7: whatever is imported, confirmed, cancelled or edited by hand: warehouse names are
  unique, a warehouse has at most one stock row per SKU, every stock row belongs to an existing
  warehouse and its numbers are non-negative and fit the column; and a batch that was confirmed
  or cancelled stays exactly as it is.
\<close>

theorem third_party_invariant:
  assumes "tp_reachable st"
  shows "distinct (map tpw_name (tp_warehouses st))
    \<and> distinct (map (\<lambda>i. (tpi_warehouse_id i, tpi_commodity_sku i)) (tp_current st))
    \<and> (\<forall>i \<in> set (tp_current st). tpi_warehouse_id i \<in> tpw_id ` set (tp_warehouses st)
         \<and> 0 \<le> tpi_available i \<and> tpi_available i \<le> INT_MAX \<and> 0 \<le> tpi_reserved i \<and> tpi_reserved i \<le> INT_MAX)
    \<and> (\<forall>st' b. tp_step st st' \<longrightarrow> b \<in> set (tp_batches st) \<longrightarrow> ib_status b \<noteq> ''pending'' \<longrightarrow> b \<in> set (tp_batches st'))"
proof -
  have inv: "tp_inv st" by (rule tp_reachable_inv [OF assms])
  have upd: "b \<in> set (update_batch bid f (tp_batches st))"
    if "find_batch bid st = Some c" "ib_status c = ''pending''" "b \<in> set (tp_batches st)" "ib_status b \<noteq> ''pending''" for b bid c f
  proof -
    have c: "c \<in> set (tp_batches st)" "ib_id c = bid" using that(1) by (auto simp: find_batch_def find_Some_iff)
    have "inj_on ib_id (set (tp_batches st))" using inv by (simp add: tp_inv_def batches_ok_def distinct_map)
    then have "ib_id b \<noteq> bid" using c that(2-4) by (metis inj_onD)
    then show ?thesis unfolding update_batch_def set_map by (intro rev_image_eqI [OF that(3)]) simp
  qed
  have "b \<in> set (tp_batches st')" if "tp_step st st'" "b \<in> set (tp_batches st)" "ib_status b \<noteq> ''pending''" for st' b
    using that(1)
  proof cases
    case (confirm bid u now)
    from confirm_batches [OF this(1)] show ?thesis using upd that(2,3) by auto
  next
    case (cancel bid)
    then show ?thesis using upd that(2,3) by (auto simp: expire_pending_batch_def split: option.splits if_splits)
  qed (use that(2) in \<open>auto simp: create_import_preview_def upsert_current_item_def patch_current_item_def delete_current_item_def
      create_third_party_warehouse_def patch_third_party_warehouse_def delete_third_party_warehouse_def bind_res_Inr_iff Let_def
      split: option.splits if_splits\<close>)
  then show ?thesis using inv by (simp add: tp_inv_def warehouses_ok_def current_ok_def)
qed

theorem third_party_invariant_witness:
  "\<exists>st :: tp_state. tp_current st \<noteq> [] \<and> distinct (map tpw_name (tp_warehouses st))"
proof -
  obtain st st' b where p: "create_import_preview ''f.xlsx'' (Some demo_sheet) None (initial_tp (demo_alias_db [] [])) = Inr (st, b)"
    and c: "confirm_import_batch 1 None 0 st = Inr st'" "map tpi_available (tp_current st') = [12]"
    using demo_tp_run by (auto split: sum.splits)
  have "tp_step\<^sup>*\<^sup>* (initial_tp (demo_alias_db [] [])) st'"
    using tp_step.preview [OF p] tp_step.confirm [OF c(1)] by (meson r_into_rtranclp rtranclp.rtrancl_into_rtrancl)
  then have "tp_reachable st'" unfolding tp_reachable_def by (rule exI)
  from third_party_invariant [OF this] have "distinct (map tpw_name (tp_warehouses st'))" by (elim conjE)
  moreover have "tp_current st' \<noteq> []" using c(2) by auto
  ultimately show ?thesis by (intro exI [of _ st'] conjI)
qed

end
