(* ===== verification/Order_Edit.thy ===== *)
theory Order_Edit
  imports Config_Api
begin

text \<open>
  \<^verbatim>\<open>services/order_edit.py\<close>: editing the country or the postal code of an order by hand, and
  matching order information from an uploaded sheet. The order in which a Python set of codes is
  walked is not specified; the options are listed here builtin codes first, then overrides, then
  observed codes. Cells that hold a date are outside the cells modelled.
\<close>

section \<open>Definitions\<close>

subsection \<open>Fields\<close>

datatype edit_field = CountryField | PostalField

fun field_key :: "edit_field \<Rightarrow> string" where
  "field_key CountryField = ''country_code''"
| "field_key PostalField = ''postal_code''"

fun field_label :: "edit_field \<Rightarrow> string" where
  "field_label CountryField = utf8 [229, 155, 189, 229, 174, 182]"
| "field_label PostalField = utf8 [233, 130, 174, 231, 188, 150]"

definition EDITABLE_FIELDS :: "edit_field list" where
  "EDITABLE_FIELDS = [CountryField, PostalField]"

definition ORDER_NUMBER_HEADER :: string where
  "ORDER_NUMBER_HEADER = utf8 [232, 174, 162, 229, 141, 149, 229, 143, 183]"

definition is_upper :: "char \<Rightarrow> bool" where
  "is_upper c \<longleftrightarrow> (let n = (of_char c :: nat) in 65 \<le> n \<and> n \<le> 90)"

definition camel_to_snake :: "string \<Rightarrow> string" where
  "camel_to_snake s =
     (case s of [] \<Rightarrow> [] | c # cs \<Rightarrow> map lower_char (c # concat (map (\<lambda>x. if is_upper x then [CHR ''_'', x] else [x]) cs)))"

definition find_field :: "string \<Rightarrow> edit_field option" where
  "find_field part =
     (case find (\<lambda>f. field_key f = part) EDITABLE_FIELDS of
        Some f \<Rightarrow> Some f
      | None \<Rightarrow> (case find (\<lambda>f. field_label f = part) EDITABLE_FIELDS of
                   Some f \<Rightarrow> Some f
                 | None \<Rightarrow> find (\<lambda>f. field_key f = camel_to_snake part) EDITABLE_FIELDS))"

fun requested_loop :: "edit_field list \<Rightarrow> string list \<Rightarrow> edit_field list res" where
  "requested_loop flds [] = (if flds = [] then raise ValidationFailed else return flds)"
| "requested_loop flds (part # parts) =
     (if part = [] then requested_loop flds parts
      else case find_field part of
        None \<Rightarrow> raise ValidationFailed
      | Some f \<Rightarrow> if f \<in> set flds then raise ValidationFailed else requested_loop (flds @ [f]) parts)"

definition parse_requested_fields :: "string list \<Rightarrow> edit_field list res" where
  "parse_requested_fields raw_fields = requested_loop [] (map py_strip (concat (map (py_split (CHR '','')) raw_fields)))"

definition build_template_row :: "edit_field list \<Rightarrow> string list" where
  "build_template_row flds = ORDER_NUMBER_HEADER # map field_label flds"

subsection \<open>Values\<close>

datatype edit_message = EmptyField | BadCountryCode | BadCountryValue | BadNewCountry | EmptyOrderNumber | RepeatedOrder int | UnknownOrder

record match_error =
  me_row :: int
  me_field :: string
  me_message :: edit_message

definition string_cell :: "cell \<Rightarrow> string" where
  "string_cell c = py_strip (cell_str c)"

definition normalize_country_code_value :: "string \<Rightarrow> edit_message + country" where
  "normalize_country_code_value v =
     (case normalize_observed_country_code (Some v) of None \<Rightarrow> Inl BadCountryCode | Some code \<Rightarrow> Inr code)"

definition apply_import_country_mapping :: "country \<Rightarrow> country list \<Rightarrow> country \<times> country option" where
  "apply_import_country_mapping code eu =
     (let mapped = (case str_or (apply_eu_mapping (Some code) eu) None of Some m \<Rightarrow> m | None \<Rightarrow> code)
      in (mapped, if mapped = ''EU'' \<and> code \<noteq> ''EU'' then Some code else None))"

text \<open>
  \<^verbatim>\<open>^([A-Za-z]{2})\s*-\s*(.+)$\<close> on a stripped text: two letters, a hyphen, and a rest without
  line breaks.
\<close>

definition new_country_match :: "string \<Rightarrow> (string \<times> string) option" where
  "new_country_match t =
     (case t of
        a # b # rest \<Rightarrow>
          if py_isalpha_char a \<and> py_isalpha_char b then
            (case dropWhile py_isspace rest of
               h # r \<Rightarrow> let name = dropWhile py_isspace r
                         in if h = CHR ''-'' \<and> name \<noteq> [] \<and> CHR 0x0A \<notin> set name then Some ([a, b], name) else None
             | [] \<Rightarrow> None)
          else None
      | _ \<Rightarrow> None)"

definition normalize_country_value :: "string \<Rightarrow> (country, string) dict \<Rightarrow> edit_message + (country \<times> string option)" where
  "normalize_country_value v options =
     (let t = py_strip v; code = normalize_observed_country_code (Some t)
      in if code \<noteq> None \<and> dict_get options (the code) \<noteq> None then Inr (the code, None)
         else case find (\<lambda>(k, l). t = l) options of
           Some (k, l) \<Rightarrow> Inr (k, None)
         | None \<Rightarrow>
             (case new_country_match t of
                None \<Rightarrow> Inl BadCountryValue
              | Some (letters, rest) \<Rightarrow>
                  let name = py_strip rest
                  in (case normalize_observed_country_code (Some letters) of
                        None \<Rightarrow> Inl BadNewCountry
                      | Some new_code \<Rightarrow>
                          if name = [] then Inl BadNewCountry
                          else if dict_get options new_code \<noteq> None then Inr (new_code, None) else Inr (new_code, Some name))))"

record update_values =
  uv_normalized :: "(string, string option) dict"
  uv_overrides :: "(country, string) dict"
  uv_options :: "(country, string) dict"
  uv_errors :: "match_error list"

text \<open>One field; \<open>imported\<close> is \<^verbatim>\<open>require_non_empty\<close> and \<^verbatim>\<open>country_code_only\<close>, which the callers set alike.\<close>

definition normalize_field ::
  "bool \<Rightarrow> int \<Rightarrow> country list \<Rightarrow> (edit_field, cell) dict \<Rightarrow> update_values \<Rightarrow> edit_field \<Rightarrow> update_values" where
  "normalize_field imported row_number eu raw s field =
     (let raw_value = dict_get_or raw field NullCell; text_value = string_cell raw_value;
          set_to = (\<lambda>v. s\<lparr>uv_normalized := dict_set (field_key field) v (uv_normalized s)\<rparr>);
          fail = (\<lambda>m. s\<lparr>uv_errors := uv_errors s @ [\<lparr>me_row = row_number, me_field = field_label field, me_message = m\<rparr>]\<rparr>)
      in if imported \<and> text_value = [] then (if field = PostalField then set_to None else fail EmptyField)
         else if \<not> imported \<and> raw_value = NullCell then set_to None
         else case field of
           PostalField \<Rightarrow> set_to (str_or (Some text_value) None)
         | CountryField \<Rightarrow>
             if imported then
               (case normalize_country_code_value text_value of
                  Inl m \<Rightarrow> fail m
                | Inr code \<Rightarrow>
                    let (mapped, original) = apply_import_country_mapping code eu
                    in s\<lparr>uv_normalized := dict_set ''original_country_code'' original (dict_set ''country_code'' (Some mapped) (uv_normalized s))\<rparr>)
             else
               (case normalize_country_value text_value (uv_options s) of
                  Inl m \<Rightarrow> fail m
                | Inr (code, name) \<Rightarrow>
                    let s' = set_to (Some code)
                    in (case name of None \<Rightarrow> s'
                        | Some n \<Rightarrow> s'\<lparr>uv_overrides := dict_set code n (uv_overrides s'),
                                       uv_options := dict_set code (country_label code [(code, n)]) (uv_options s')\<rparr>)))"

definition normalize_update_values ::
  "bool \<Rightarrow> int \<Rightarrow> country list \<Rightarrow> (country, string) dict \<Rightarrow> (edit_field, cell) dict \<Rightarrow> edit_field list \<Rightarrow> update_values" where
  "normalize_update_values imported row_number eu options raw flds =
     foldl (normalize_field imported row_number eu raw)
       \<lparr>uv_normalized = [], uv_overrides = [], uv_options = options, uv_errors = []\<rparr> flds"

subsection \<open>Orders\<close>

text \<open>The database and the table of country names.\<close>

record edit_state =
  es_db :: engine_db
  es_overrides :: "(country, string) dict"

definition load_country_options :: "edit_state \<Rightarrow> (country, string) dict" where
  "load_country_options st =
     (let overrides = foldl (\<lambda>m (c, n). dict_set (py_upper c) n m) [] (es_overrides st);
          observed = [code. h \<leftarrow> t_order_header (es_db st), Some code \<leftarrow> [if oh_country_code h = [] then None
                        else normalize_observed_country_code (Some (oh_country_code h))]];
          codes = dedup (map fst BUILTIN_COUNTRY_NAMES @ map fst overrides @ observed)
      in map (\<lambda>code. (code, country_label code overrides)) codes)"

definition save_country_overrides :: "(country, string) dict \<Rightarrow> (country, string) dict \<Rightarrow> (country, string) dict" where
  "save_country_overrides new stored = foldl (\<lambda>m (c, n). dict_set c n m) stored (sort_key fst new)"

definition sorted_fields :: "string list \<Rightarrow> string list" where
  "sorted_fields fs = sorted_set fs"

text \<open>\<^verbatim>\<open>_apply_manual_updates\<close>; a country set to null is kept apart, the database rejects it.\<close>

definition apply_manual_updates :: "int \<Rightarrow> instant \<Rightarrow> (string, string option) dict \<Rightarrow> order_header \<Rightarrow> order_header" where
  "apply_manual_updates user now updates h =
     (let h1 = (case dict_get updates ''country_code'' of Some (Some c) \<Rightarrow> h\<lparr>oh_country_code := c\<rparr> | _ \<Rightarrow> h);
          h2 = (case dict_get updates ''postal_code'' of Some v \<Rightarrow> h1\<lparr>oh_postal_code := v\<rparr> | None \<Rightarrow> h1);
          h3 = (case dict_get updates ''original_country_code'' of Some v \<Rightarrow> h2\<lparr>oh_original_country_code := v\<rparr> | None \<Rightarrow> h2)
      in h3\<lparr>oh_manual_edit_locked := True, oh_manual_edited_at := Some now, oh_manual_edited_by := Some user,
            oh_manual_edit_fields := sorted_fields (oh_manual_edit_fields h
               @ filter (\<lambda>k. k \<in> set (map field_key EDITABLE_FIELDS)) (map fst updates))\<rparr>)"

definition storable :: "(string, string option) dict \<Rightarrow> bool" where
  "storable updates \<longleftrightarrow> dict_get updates ''country_code'' \<noteq> Some None
     \<and> (case dict_get updates ''postal_code'' of Some (Some p) \<Rightarrow> length p \<le> 50 | _ \<Rightarrow> True)"

text \<open>The outer option of a field says whether it was sent.\<close>

record order_patch =
  dp_country_code :: "string option option"
  dp_postal_code :: "string option option"

definition patch_cells :: "order_patch \<Rightarrow> (edit_field, cell) dict" where
  "patch_cells p =
     (let as_cell = (\<lambda>v. case v of None \<Rightarrow> NullCell | Some s \<Rightarrow> TextCell s)
      in (case dp_country_code p of None \<Rightarrow> [] | Some v \<Rightarrow> [(CountryField, as_cell v)])
         @ (case dp_postal_code p of None \<Rightarrow> [] | Some v \<Rightarrow> [(PostalField, as_cell v)]))"

definition find_order :: "string \<Rightarrow> string \<Rightarrow> string option \<Rightarrow> order_header list \<Rightarrow> order_header option" where
  "find_order shop order_no package_sn hs =
     (let rows = filter (\<lambda>h. oh_shop_id h = shop \<and> oh_amazon_order_id h = order_no \<and> oh_source h = ORDER_SOURCE_PACKAGE) hs
      in case package_sn of
        Some sn \<Rightarrow> find (\<lambda>h. oh_package_sn h = sn) rows
      | None \<Rightarrow> (case sort_key (\<lambda>h. (- oh_purchase_date h, - oh_id h)) rows of [] \<Rightarrow> None | h # _ \<Rightarrow> Some h))"

definition patch_order_header ::
  "string \<Rightarrow> string \<Rightarrow> string option \<Rightarrow> order_patch \<Rightarrow> int \<Rightarrow> instant \<Rightarrow> edit_state \<Rightarrow> (edit_state \<times> order_header) res" where
  "patch_order_header shop order_no package_sn patch user now st =
     (let cells = patch_cells patch;
          uv = normalize_update_values False 0 [] (load_country_options st) cells (map fst cells)
      in if cells = [] then raise ValidationFailed
         else if uv_errors uv \<noteq> [] then raise ValidationFailed
         else case find_order shop order_no package_sn (t_order_header (es_db st)) of
           None \<Rightarrow> raise NotFound
         | Some h \<Rightarrow>
             if \<not> storable (uv_normalized uv) \<or> (\<exists>n \<in> snd ` set (uv_overrides uv). length n > 100) then raise (HTTPException 500)
             else let h' = apply_manual_updates user now (uv_normalized uv) h
                  in return (st\<lparr>es_db := (es_db st)\<lparr>t_order_header := map (\<lambda>x. if oh_id x = oh_id h then h' else x) (t_order_header (es_db st))\<rparr>,
                               es_overrides := save_country_overrides (uv_overrides uv) (es_overrides st)\<rparr>, h'))"

subsection \<open>Matching from a sheet\<close>

record parsed_workbook =
  pw_updates_by_order :: "(string, (string, string option) dict) dict"
  pw_errors :: "match_error list"

record match_state =
  ms_errors :: "match_error list"
  ms_seen :: "(string, int) dict"
  ms_updates :: "(string, (string, string option) dict) dict"

definition row_cell :: "cell list \<Rightarrow> nat \<Rightarrow> cell" where
  "row_cell row i = (if i < length row then row ! i else NullCell)"

definition match_row ::
  "edit_field list \<Rightarrow> country list \<Rightarrow> (country, string) dict \<Rightarrow> string list \<Rightarrow> match_state \<Rightarrow> int \<times> cell list \<Rightarrow> match_state" where
  "match_row flds eu options all_order_ids s numbered =
     (let (row_number, row) = numbered;
          row_values = map (row_cell row) [0..<Suc (length flds)];
          order_id = string_cell (row_values ! 0);
          fail = (\<lambda>m. s\<lparr>ms_errors := ms_errors s @ [\<lparr>me_row = row_number, me_field = ORDER_NUMBER_HEADER, me_message = m\<rparr>]\<rparr>)
      in if list_all (\<lambda>c. string_cell c = []) row_values then s
         else if order_id = [] then fail EmptyOrderNumber
         else case dict_get (ms_seen s) order_id of
           Some previous \<Rightarrow> fail (RepeatedOrder previous)
         | None \<Rightarrow>
             let s1 = s\<lparr>ms_seen := dict_set order_id row_number (ms_seen s)\<rparr>
             in if order_id \<notin> set all_order_ids
                then s1\<lparr>ms_errors := ms_errors s1 @ [\<lparr>me_row = row_number, me_field = ORDER_NUMBER_HEADER, me_message = UnknownOrder\<rparr>]\<rparr>
                else let raw = foldl (\<lambda>d (i, f). dict_set f (row_values ! Suc i) d) [] (enumerate 0 flds);
                         uv = normalize_update_values True row_number eu options raw flds
                     in if uv_errors uv = [] then s1\<lparr>ms_updates := dict_set order_id (uv_normalized uv) (ms_updates s1)\<rparr>
                        else s1\<lparr>ms_errors := ms_errors s1 @ uv_errors uv\<rparr>)"

definition package_order_ids :: "edit_state \<Rightarrow> string list" where
  "package_order_ids st = map oh_amazon_order_id (filter (\<lambda>h. oh_source h = ORDER_SOURCE_PACKAGE) (t_order_header (es_db st)))"

definition match_rows :: "edit_field list \<Rightarrow> country list \<Rightarrow> edit_state \<Rightarrow> (int \<times> cell list) list \<Rightarrow> match_state" where
  "match_rows flds eu st numbered =
     foldl (match_row flds eu (load_country_options st) (package_order_ids st)) \<lparr>ms_errors = [], ms_seen = [], ms_updates = []\<rparr> numbered"

definition workbook_result :: "match_state \<Rightarrow> parsed_workbook" where
  "workbook_result s = \<lparr>pw_updates_by_order = (if ms_errors s = [] then ms_updates s else []), pw_errors = ms_errors s\<rparr>"

text \<open>The header row names the order number and the chosen fields, in order, and nothing else.\<close>

definition header_matches :: "edit_field list \<Rightarrow> cell list list \<Rightarrow> bool" where
  "header_matches flds rows \<longleftrightarrow>
     (let header = (case rows of [] \<Rightarrow> [] | h # _ \<Rightarrow> h);
          expected = build_template_row flds;
          actual = map (\<lambda>i. string_cell (row_cell header i)) [0..<length expected];
          trailing = map string_cell (drop (length expected) header)
      in actual = expected \<and> list_all (\<lambda>t. t = []) trailing)"

text \<open>\<open>None\<close>: the content is empty or cannot be read; a row shorter than the sheet has null cells.\<close>

definition parse_order_info_match_workbook :: "edit_field list \<Rightarrow> cell list list option \<Rightarrow> edit_state \<Rightarrow> parsed_workbook res" where
  "parse_order_info_match_workbook flds content st =
     (case content of
        None \<Rightarrow> raise ValidationFailed
      | Some rows \<Rightarrow>
          if \<not> header_matches flds rows then raise ValidationFailed
          else bind_res (load_eu_countries (map_option gc_eu_countries (t_global_config (es_db st))))
            (\<lambda>eu. return (workbook_result (match_rows flds eu st (map (\<lambda>(i, r). (int i, r)) (enumerate 2 (drop 1 rows)))))))"

definition matched_order :: "parsed_workbook \<Rightarrow> order_header \<Rightarrow> bool" where
  "matched_order pw h \<longleftrightarrow> oh_source h = ORDER_SOURCE_PACKAGE \<and> dict_get (pw_updates_by_order pw) (oh_amazon_order_id h) \<noteq> None"

definition apply_parsed_order_info_match :: "parsed_workbook \<Rightarrow> int \<Rightarrow> instant \<Rightarrow> edit_state \<Rightarrow> (edit_state \<times> int) res" where
  "apply_parsed_order_info_match pw user now st =
     (if pw_errors pw \<noteq> [] then raise ValidationFailed
      else let hs = t_order_header (es_db st); rows = filter (matched_order pw) hs
           in if \<exists>h \<in> set rows. \<not> storable (the (dict_get (pw_updates_by_order pw) (oh_amazon_order_id h))) then raise (HTTPException 500)
              else return (st\<lparr>es_db := (es_db st)\<lparr>t_order_header :=
                     map (\<lambda>h. if matched_order pw h
                              then apply_manual_updates user now (the (dict_get (pw_updates_by_order pw) (oh_amazon_order_id h))) h else h) hs\<rparr>\<rparr>,
                   int (length rows)))"

definition apply_order_info_match :: "edit_field list \<Rightarrow> cell list list option \<Rightarrow> int \<Rightarrow> instant \<Rightarrow> edit_state \<Rightarrow> (edit_state \<times> int) res" where
  "apply_order_info_match flds content user now st =
     bind_res (parse_order_info_match_workbook flds content st) (\<lambda>pw. apply_parsed_order_info_match pw user now st)"

definition preview_order_info_match :: "edit_field list \<Rightarrow> cell list list option \<Rightarrow> edit_state \<Rightarrow> (string list \<times> match_error list) res" where
  "preview_order_info_match flds content st =
     bind_res (parse_order_info_match_workbook flds content st)
       (\<lambda>pw. return (map fst (pw_updates_by_order pw), pw_errors pw))"


section \<open>Lemmas\<close>

subsection \<open>Imported countries\<close>

text \<open>What an accepted row says about the country: a canonical code, merged, with the audit column set.\<close>

definition country_set :: "country list \<Rightarrow> (string, string option) dict \<Rightarrow> bool" where
  "country_set eu u \<longleftrightarrow> (\<exists>code. wf_code code \<and> dict_get u ''country_code'' = Some (Some (fst (apply_import_country_mapping code eu)))
     \<and> dict_get u ''original_country_code'' = Some (snd (apply_import_country_mapping code eu)))"

lemma normalize_field_errors: "uv_errors (normalize_field True n eu raw s f) = [] \<Longrightarrow> uv_errors s = []"
  by (cases f) (auto simp: normalize_field_def Let_def split: if_splits sum.splits prod.splits option.splits)

lemma normalize_field_country:
  assumes "uv_errors (normalize_field True n eu raw s CountryField) = []"
  shows "country_set eu (uv_normalized (normalize_field True n eu raw s CountryField))"
proof -
  let ?t = "string_cell (dict_get_or raw CountryField NullCell)"
  have ne: "?t \<noteq> []" using assms by (auto simp: normalize_field_def Let_def)
  obtain code where c: "normalize_country_code_value ?t = Inr code"
    using assms ne by (cases "normalize_country_code_value ?t") (auto simp: normalize_field_def Let_def)
  then have "wf_code code" by (auto simp: normalize_country_code_value_def split: option.splits intro: normalize_observed_wf)
  then show ?thesis using c ne
    by (auto simp: normalize_field_def Let_def country_set_def dict_get_set split: prod.splits intro!: exI [of _ code])
qed

lemma normalize_field_postal:
  "uv_errors (normalize_field True n eu raw s PostalField) = [] \<Longrightarrow> country_set eu (uv_normalized s) \<Longrightarrow>
   country_set eu (uv_normalized (normalize_field True n eu raw s PostalField))"
  by (auto simp: normalize_field_def Let_def country_set_def dict_get_set)

lemma normalize_fields_errors: "uv_errors (foldl (normalize_field True n eu raw) s flds) = [] \<Longrightarrow> uv_errors s = []"
proof (induction flds arbitrary: s)
  case (Cons f flds)
  have "uv_errors (normalize_field True n eu raw s f) = []" using Cons.prems unfolding foldl.simps by (rule Cons.IH)
  then show ?case by (rule normalize_field_errors)
qed simp

lemma normalize_fields_country:
  assumes "uv_errors (foldl (normalize_field True n eu raw) s flds) = []" "CountryField \<in> set flds \<or> country_set eu (uv_normalized s)"
  shows "uv_errors s = [] \<and> country_set eu (uv_normalized (foldl (normalize_field True n eu raw) s flds))"
  using assms
proof (induction flds arbitrary: s)
  case (Cons f flds)
  let ?s = "normalize_field True n eu raw s f"
  have e: "uv_errors (foldl (normalize_field True n eu raw) ?s flds) = []" using Cons.prems(1) by simp
  have e1: "uv_errors ?s = []" by (rule normalize_fields_errors [OF e])
  have "CountryField \<in> set flds \<or> country_set eu (uv_normalized ?s)"
    using Cons.prems(2) e1 normalize_field_country [of n eu raw s] normalize_field_postal [of n eu raw s] by (cases f) auto
  from Cons.IH [OF e this] normalize_field_errors [OF e1] show ?case by simp
qed simp

lemma match_row_updates:
  assumes "\<forall>u \<in> snd ` set (ms_updates s). CountryField \<in> set flds \<longrightarrow> country_set eu u"
  shows "\<forall>u \<in> snd ` set (ms_updates (match_row flds eu options ids s numbered)). CountryField \<in> set flds \<longrightarrow> country_set eu u"
proof -
  have new: "CountryField \<in> set flds \<longrightarrow> country_set eu (uv_normalized (normalize_update_values True n eu options raw flds))"
    if "uv_errors (normalize_update_values True n eu options raw flds) = []" for n raw
    using normalize_fields_country that unfolding normalize_update_values_def by blast
  show ?thesis
    using assms new
    by (cases numbered) (auto simp: match_row_def Let_def split: option.splits dest!: values_dict_set [THEN subsetD, OF imageI])
qed

lemma match_rows_fold:
  assumes "\<forall>u \<in> snd ` set (ms_updates s). CountryField \<in> set flds \<longrightarrow> country_set eu u"
  shows "\<forall>u \<in> snd ` set (ms_updates (foldl (match_row flds eu options ids) s rows)). CountryField \<in> set flds \<longrightarrow> country_set eu u"
  using assms
proof (induction rows arbitrary: s)
  case (Cons row rows)
  from Cons.IH [OF match_row_updates [OF Cons.prems, of options ids row]] show ?case by (simp only: foldl.simps)
qed simp

lemma match_rows_updates:
  "u \<in> snd ` set (ms_updates (match_rows flds eu st rows)) \<Longrightarrow> CountryField \<in> set flds \<Longrightarrow> country_set eu u"
  unfolding match_rows_def using match_rows_fold [of "\<lparr>ms_errors = [], ms_seen = [], ms_updates = []\<rparr>" flds eu "load_country_options st" "package_order_ids st" rows]
  by auto

lemma parsed_updates_country:
  assumes "parse_order_info_match_workbook flds content st = Inr pw" "dict_get (pw_updates_by_order pw) k = Some u" "CountryField \<in> set flds"
  shows "\<exists>eu. load_eu_countries (map_option gc_eu_countries (t_global_config (es_db st))) = return eu \<and> country_set eu u"
proof -
  obtain eu rows where eu: "load_eu_countries (map_option gc_eu_countries (t_global_config (es_db st))) = return eu"
    and pw: "pw = workbook_result (match_rows flds eu st rows)"
    using assms(1) by (auto simp: parse_order_info_match_workbook_def bind_res_Inr_iff split: option.splits if_splits)
  have "(k, u) \<in> set (ms_updates (match_rows flds eu st rows))"
    using dict_get_in [OF assms(2)] unfolding pw by (simp add: workbook_result_def split: if_splits)
  then have "u \<in> snd ` set (ms_updates (match_rows flds eu st rows))" by (rule rev_image_eqI) simp
  from match_rows_updates [OF this assms(3)] show ?thesis using eu by blast
qed

subsection \<open>Stored countries\<close>

lemma apply_manual_country:
  assumes "country_set eu u"
  shows "\<exists>code. wf_code code \<and> oh_country_code (apply_manual_updates user now u h) = fst (apply_import_country_mapping code eu)
    \<and> oh_original_country_code (apply_manual_updates user now u h) = snd (apply_import_country_mapping code eu)"
  using assms by (auto simp: country_set_def apply_manual_updates_def Let_def split: option.splits intro!: exI)

lemma import_mapping_cases:
  assumes "wf_code code" "''EU'' \<notin> set eu"
  shows "apply_import_country_mapping code eu = (if code \<in> set eu then (''EU'', Some code) else (code, None))"
proof (cases "code = ''EU''")
  case True
  then show ?thesis using assms(2) by (simp add: apply_import_country_mapping_def apply_eu_mapping_def str_or_def)
next
  case False
  then have "apply_eu_mapping (Some code) eu = Some (if code \<in> set eu then ''EU'' else code)"
    by (simp add: apply_eu_mapping_def normalize_observed_fixed [OF assms(1)])
  then show ?thesis using False wf_code_nonempty [OF assms(1)] by (simp add: apply_import_country_mapping_def str_or_def)
qed

lemma wf_code_EU: "wf_code ''EU''"
  by (simp add: wf_code_def py_str)

lemma import_country_stable:
  assumes "wf_code code" "normalize_country_list_for_eu_members v = return eu"
    and "oh_country_code h = fst (apply_import_country_mapping code eu)" "oh_original_country_code h = snd (apply_import_country_mapping code eu)"
  shows "oh_country_code (backfill_order eu h) = oh_country_code h"
proof -
  have eu: "''EU'' \<notin> set eu" using normalize_eu_members_wf [OF assms(2)] by simp
  let ?r = "\<lparr>g_country = Some (oh_country_code h), g_original = oh_original_country_code h, g_extra = [Some (oh_marketplace_id h)]\<rparr>"
  have src: "geo_source ?r = Some code"
    using assms(3,4) import_mapping_cases [OF assms(1) eu] by (auto simp: geo_source_def split: if_splits)
  have "code \<noteq> []" by (rule wf_code_nonempty [OF assms(1)])
  from backfill_row_some [OF src this, of eu] show ?thesis
    using assms(3) import_mapping_cases [OF assms(1) eu] normalized_country_expr_wf [OF assms(1)]
    by (simp add: backfill_order_def Let_def)
qed


lemma apply_manual_keeps:
  "oh_id (apply_manual_updates user now u h) = oh_id h \<and> oh_amazon_order_id (apply_manual_updates user now u h) = oh_amazon_order_id h
   \<and> oh_package_sn (apply_manual_updates user now u h) = oh_package_sn h \<and> oh_shop_id (apply_manual_updates user now u h) = oh_shop_id h
   \<and> oh_source (apply_manual_updates user now u h) = oh_source h \<and> oh_purchase_date (apply_manual_updates user now u h) = oh_purchase_date h
   \<and> oh_order_status (apply_manual_updates user now u h) = oh_order_status h \<and> oh_manual_edit_locked (apply_manual_updates user now u h)"
  by (simp add: apply_manual_updates_def Let_def split: option.splits)

lemma load_eu_normalized:
  "load_eu_countries v = return eu \<Longrightarrow> \<exists>v. normalize_country_list_for_eu_members v = return eu"
  by (cases v) (auto simp: load_eu_countries_def normalize_country_list_for_eu_members_def intro: exI [of _ None] exI [of _ "Some _"])

section \<open>Properties\<close>


definition demo_edit_state :: edit_state where
  "demo_edit_state = \<lparr>es_db = demo_engine_db\<lparr>t_global_config := Some (demo_config\<lparr>gc_eu_countries := [Some ''DE'']\<rparr>)\<rparr>, es_overrides = []\<rparr>"

lemma demo_match:
  "match_row [CountryField] [''DE''] opts [''O''] \<lparr>ms_errors = [], ms_seen = [], ms_updates = []\<rparr> (2, [TextCell ''O'', TextCell '' de'']) =
     \<lparr>ms_errors = [], ms_seen = [(''O'', 2)], ms_updates = [(''O'', [(''country_code'', Some ''EU''), (''original_country_code'', Some ''DE'')])]\<rparr>"
  by code_simp


text \<open>
  Editing a single order by hand does not do the same: the country is stored unmerged and the
  audit column is left as it was, so the next change of the EU list writes the old country back
  over the edit.
\<close>

lemma country_options_builtin: "c \<in> set BUILTIN_COUNTRY_ORDER \<Longrightarrow> dict_get (load_country_options st) c \<noteq> None"
  by (simp add: dict_get_None_iff load_country_options_def Let_def image_image builtin_order)

lemma patch_known_country:
  assumes "dict_get opts ''US'' \<noteq> None"
  shows "normalize_update_values False 0 [] opts [(CountryField, TextCell ''us'')] [CountryField] =
    \<lparr>uv_normalized = [(''country_code'', Some ''US'')], uv_overrides = [], uv_options = opts, uv_errors = []\<rparr>"
proof -
  have "normalize_observed_country_code (Some ''us'') = Some ''US''" "string_cell (TextCell ''us'') = ''us''" "py_strip ''us'' = ''us''" by code_simp+
  then show ?thesis using assms
    by (simp add: normalize_update_values_def normalize_field_def normalize_country_value_def dict_get_or_def dict_get_Cons dict_set_def)
qed

definition demo_merged_state :: edit_state where
  "demo_merged_state = demo_edit_state\<lparr>es_db := (es_db demo_edit_state)\<lparr>t_order_header :=
     map (\<lambda>h. h\<lparr>oh_country_code := ''EU'', oh_original_country_code := Some ''DE''\<rparr>) (t_order_header demo_engine_db)\<rparr>\<rparr>"

theorem manual_country_undone_by_backfill:
  "case patch_order_header ''S'' ''O'' None \<lparr>dp_country_code = Some (Some ''us''), dp_postal_code = None\<rparr> 7 5 demo_merged_state of Inl e \<Rightarrow> False
   | Inr (st', h') \<Rightarrow> oh_country_code h' = ''US'' \<and> oh_manual_edit_locked h' \<and> oh_country_code (backfill_order [''DE''] h') = ''EU''"
proof -
  let ?u = "[(''country_code'', Some ''US'')]"
  obtain h where h: "find_order ''S'' ''O'' None (t_order_header (es_db demo_merged_state)) = Some h"
    and e: "oh_country_code (apply_manual_updates 7 5 ?u h) = ''US'' \<and> oh_country_code (backfill_order [''DE''] (apply_manual_updates 7 5 ?u h)) = ''EU''"
  proof -
    have "case find_order ''S'' ''O'' None (t_order_header (es_db demo_merged_state)) of None \<Rightarrow> False
      | Some h \<Rightarrow> oh_country_code (apply_manual_updates 7 5 ?u h) = ''US'' \<and> oh_country_code (backfill_order [''DE''] (apply_manual_updates 7 5 ?u h)) = ''EU''"
      by code_simp
    then show ?thesis by (auto intro: that split: option.splits)
  qed
  have "dict_get (load_country_options demo_merged_state) ''US'' \<noteq> None"
    by (rule country_options_builtin) (simp add: BUILTIN_COUNTRY_ORDER_def)
  note n = patch_known_country [OF this]
  have "patch_cells \<lparr>dp_country_code = Some (Some ''us''), dp_postal_code = None\<rparr> = [(CountryField, TextCell ''us'')]" by code_simp
  moreover have "storable ?u" by code_simp
  ultimately show ?thesis using n h e apply_manual_keeps [of 7 5 ?u h] by (simp add: patch_order_header_def Let_def)
qed

text \<open>A null for the country passes the validation and fails at the commit, outside every handler.\<close>

theorem null_country_unhandled:
  "patch_order_header ''S'' ''O'' None \<lparr>dp_country_code = Some None, dp_postal_code = None\<rparr> 7 5 demo_merged_state = raise (HTTPException 500)"
proof -
  have "normalize_update_values False 0 [] opts [(CountryField, NullCell)] [CountryField] =
      \<lparr>uv_normalized = [(''country_code'', None)], uv_overrides = [], uv_options = opts, uv_errors = []\<rparr>" for opts
    by (simp add: normalize_update_values_def normalize_field_def dict_get_or_def dict_get_Cons dict_set_def)
  moreover have "find_order ''S'' ''O'' None (t_order_header (es_db demo_merged_state)) \<noteq> None" by code_simp
  moreover have "\<not> storable [(''country_code'', None)]" by code_simp
  ultimately show ?thesis by (auto simp: patch_order_header_def patch_cells_def Let_def split: option.splits)
qed

end
