(* ===== verification/Sync_Locks.thy ===== *)
theory Sync_Locks
  imports Restock_Prelude "HOL-Library.Multiset"
begin

text \<open>
  \<^verbatim>\<open>sync/locks.py\<close> and the locking of \<^verbatim>\<open>sync/all.py\<close>: advisory locks that keep two
  synchronisations of the same data apart. Every task opens a session of its own for its locks and
  asks for them one at a time without waiting, so the tasks of several workers interleave between
  the requests; a task that meets a lock of another task gives back what it took. The number of a
  lock is the first eight bytes of a SHA-256 digest: the digest is a parameter, and two names may
  have the same number.
\<close>

section \<open>Definitions\<close>

subsection \<open>Advisory locks of PostgreSQL\<close>

text \<open>The locks held, one entry for each time a session took a lock: a session may take a lock twice.\<close>

type_synonym lock_table = "(int \<times> nat) list"

definition pg_try_advisory_lock :: "int \<Rightarrow> nat \<Rightarrow> lock_table \<Rightarrow> lock_table option" where
  "pg_try_advisory_lock k session locks =
     (if \<exists>(k', s) \<in> set locks. k' = k \<and> s \<noteq> session then None else Some ((k, session) # locks))"

definition pg_advisory_unlock :: "int \<Rightarrow> nat \<Rightarrow> lock_table \<Rightarrow> lock_table" where
  "pg_advisory_unlock k session locks = remove1 (k, session) locks"

subsection \<open>The tasks\<close>

definition SYNC_BUSINESS_LOCK_JOBS :: "string list" where
  "SYNC_BUSINESS_LOCK_JOBS = [''sync_shop'', ''sync_warehouse'', ''sync_product_listing'', ''sync_inventory'',
     ''sync_out_records'', ''sync_order_list'']"

definition sync_business_lock_key :: "(string \<Rightarrow> nat list) \<Rightarrow> string \<Rightarrow> int" where
  "sync_business_lock_key sha256 job_name =
     foldl (\<lambda>n b. n * 256 + int b) 0 (take 8 (sha256 (''restock_system:sync:'' @ job_name))) mod 2 ^ 63"

definition unique_names :: "(string \<Rightarrow> int) \<Rightarrow> string list \<Rightarrow> string list" where
  "unique_names lock_key job_names = sort_key lock_key (dedup job_names)"

text \<open>
  Where a task is: the names it still has to lock and those it has, the names it holds while it
  works, the names it still has to unlock.
\<close>

datatype phase = Acquiring "string list" "string list" | Working "string list" | Releasing "string list" | Ended

record lock_task =
  lt_jobs :: "string list" \<comment> \<open>the synchronisations the task runs while it works\<close>
  lt_locks :: "string list" \<comment> \<open>the names it locks for them\<close>
  lt_phase :: phase

text \<open>
  \<^verbatim>\<open>sync_business_lock\<close> around one job: a name that the payload lists as held is not locked
  again. \<^verbatim>\<open>sync_all_job\<close> locks all six names and then runs the six jobs with all names held.
\<close>

definition start_sync_job :: "(string \<Rightarrow> int) \<Rightarrow> string list \<Rightarrow> string \<Rightarrow> lock_task" where
  "start_sync_job lock_key held job_name =
     (if job_name \<in> set held then \<lparr>lt_jobs = [job_name], lt_locks = [], lt_phase = Working []\<rparr>
      else let names = unique_names lock_key [job_name]
           in \<lparr>lt_jobs = [job_name], lt_locks = names, lt_phase = Acquiring names []\<rparr>)"

definition start_sync_all :: "(string \<Rightarrow> int) \<Rightarrow> lock_task" where
  "start_sync_all lock_key =
     (let names = unique_names lock_key SYNC_BUSINESS_LOCK_JOBS
      in \<lparr>lt_jobs = SYNC_BUSINESS_LOCK_JOBS, lt_locks = names, lt_phase = Acquiring names []\<rparr>)"

record lock_state =
  ls_locks :: lock_table
  ls_tasks :: "nat \<Rightarrow> lock_task option"

definition set_phase :: "nat \<Rightarrow> lock_task \<Rightarrow> phase \<Rightarrow> lock_table \<Rightarrow> lock_state \<Rightarrow> lock_state" where
  "set_phase t task p locks st = st\<lparr>ls_locks := locks, ls_tasks := (ls_tasks st)(t \<mapsto> task\<lparr>lt_phase := p\<rparr>)\<rparr>"

text \<open>One database call of \<^verbatim>\<open>sync_business_locks\<close>, or the end of the work it protects.\<close>

definition advance :: "(string \<Rightarrow> int) \<Rightarrow> nat \<Rightarrow> lock_state \<Rightarrow> lock_state" where
  "advance lock_key t st =
     (case ls_tasks st t of
        None \<Rightarrow> st
      | Some task \<Rightarrow>
          (case lt_phase task of
             Acquiring [] acquired \<Rightarrow> set_phase t task (Working acquired) (ls_locks st) st
           | Acquiring (name # names) acquired \<Rightarrow>
               (case pg_try_advisory_lock (lock_key name) t (ls_locks st) of
                  None \<Rightarrow> set_phase t task (Releasing (rev acquired)) (ls_locks st) st
                | Some locks \<Rightarrow> set_phase t task (Acquiring names (acquired @ [name])) locks st)
           | Working acquired \<Rightarrow> set_phase t task (Releasing (rev acquired)) (ls_locks st) st
           | Releasing [] \<Rightarrow> set_phase t task Ended (ls_locks st) st
           | Releasing (name # names) \<Rightarrow>
               set_phase t task (Releasing names) (pg_advisory_unlock (lock_key name) t (ls_locks st)) st
           | Ended \<Rightarrow> st))"

definition initial_locks :: lock_state where
  "initial_locks = \<lparr>ls_locks = [], ls_tasks = \<lambda>_. None\<rparr>"

definition add_task :: "nat \<Rightarrow> lock_task \<Rightarrow> lock_state \<Rightarrow> lock_state" where
  "add_task t task st = st\<lparr>ls_tasks := (ls_tasks st)(t \<mapsto> task)\<rparr>"

text \<open>
  Workers start tasks with fresh numbers and advance them in any order. The relation is indexed by
  the payloads that tasks are started with: the names each lists as held.
\<close>

inductive lock_step :: "(string \<Rightarrow> int) \<Rightarrow> string list set \<Rightarrow> lock_state \<Rightarrow> lock_state \<Rightarrow> bool"
  for lock_key :: "string \<Rightarrow> int" and payloads :: "string list set" where
  start_job: "ls_tasks st t = None \<Longrightarrow> held \<in> payloads \<Longrightarrow> job \<in> set SYNC_BUSINESS_LOCK_JOBS \<Longrightarrow>
     lock_step lock_key payloads st (add_task t (start_sync_job lock_key held job) st)"
| start_all: "ls_tasks st t = None \<Longrightarrow> lock_step lock_key payloads st (add_task t (start_sync_all lock_key) st)"
| run: "lock_step lock_key payloads st (advance lock_key t st)"

inductive_cases lock_stepE: "lock_step lock_key payloads st st'"

definition lock_reachable :: "(string \<Rightarrow> int) \<Rightarrow> string list set \<Rightarrow> lock_state \<Rightarrow> bool" where
  "lock_reachable lock_key payloads st \<longleftrightarrow> (lock_step lock_key payloads)\<^sup>*\<^sup>* initial_locks st"

definition is_running :: "lock_state \<Rightarrow> nat \<Rightarrow> string \<Rightarrow> bool" where
  "is_running st t job =
     (case ls_tasks st t of
        None \<Rightarrow> False
      | Some task \<Rightarrow> job \<in> set (lt_jobs task) \<and> (case lt_phase task of Working _ \<Rightarrow> True | _ \<Rightarrow> False))"

section \<open>Lemmas\<close>

definition held_names :: "phase \<Rightarrow> string list" where
  "held_names p = (case p of Acquiring _ acquired \<Rightarrow> acquired | Working acquired \<Rightarrow> acquired | Releasing names \<Rightarrow> names | Ended \<Rightarrow> [])"

lemma held_names_simps [simp]:
  "held_names (Acquiring names acquired) = acquired" "held_names (Working acquired) = acquired"
  "held_names (Releasing names) = names" "held_names Ended = []"
  by (simp_all add: held_names_def)

text \<open>The keys a session holds, with multiplicity, and the contract of the lock table.\<close>

definition session_keys :: "nat \<Rightarrow> lock_table \<Rightarrow> int multiset" where
  "session_keys s locks = mset (map fst (filter (\<lambda>e. snd e = s) locks))"

definition exclusive :: "lock_table \<Rightarrow> bool" where
  "exclusive locks \<longleftrightarrow> (\<forall>k s u. (k, s) \<in> set locks \<longrightarrow> (k, u) \<in> set locks \<longrightarrow> s = u)"

text \<open>What the protocol needs of any lock service, whatever its tables look like.\<close>

locale lock_service =
  fixes try_lock :: "int \<Rightarrow> nat \<Rightarrow> 'l \<Rightarrow> 'l option"
    and unlock :: "int \<Rightarrow> nat \<Rightarrow> 'l \<Rightarrow> 'l"
    and keys :: "nat \<Rightarrow> 'l \<Rightarrow> int multiset"
    and sound :: "'l \<Rightarrow> bool"
  assumes try_keys: "try_lock k s l = Some l' \<Longrightarrow> keys u l' = (if u = s then add_mset k (keys s l) else keys u l)"
    and unlock_keys: "keys u (unlock k s l) = (if u = s then keys s l - {#k#} else keys u l)"
    and try_sound: "sound l \<Longrightarrow> try_lock k s l = Some l' \<Longrightarrow> sound l'"
    and unlock_sound: "sound l \<Longrightarrow> sound (unlock k s l)"
    and sound_exclusive: "sound l \<Longrightarrow> k \<in># keys s l \<Longrightarrow> k \<in># keys u l \<Longrightarrow> s = u"
begin

lemma acquire_keeps_others: "try_lock k s l = Some l' \<Longrightarrow> u \<noteq> s \<Longrightarrow> keys u l' = keys u l"
  by (simp add: try_keys)

lemma acquired_excludes:
  assumes "sound l" and "try_lock k s l = Some l'" and "u \<noteq> s"
  shows "k \<notin># keys u l"
proof
  assume "k \<in># keys u l"
  then have "k \<in># keys u l'" using acquire_keeps_others [OF assms(2,3)] by simp
  moreover have "k \<in># keys s l'" using try_keys [OF assms(2), of s] by simp
  ultimately show False using sound_exclusive [OF try_sound [OF assms(1,2)], of k u s] \<open>u \<noteq> s\<close> by blast
qed

lemma lock_unlock: "try_lock k s l = Some l' \<Longrightarrow> keys u (unlock k s l') = keys u l"
  by (simp add: try_keys unlock_keys)

end

lemma session_keys_Cons: "session_keys u ((k, s) # l) = (if u = s then add_mset k (session_keys s l) else session_keys u l)"
  by (auto simp: session_keys_def)

lemma session_keys_remove1: "session_keys u (remove1 (k, s) l) = (if u = s then session_keys s l - {#k#} else session_keys u l)"
proof (induction l)
  case Nil
  then show ?case by (simp add: session_keys_def)
next
  case (Cons e l)
  obtain k' s' where e: "e = (k', s')" by (cases e)
  show ?case using Cons.IH by (cases "u = s") (auto simp: e session_keys_Cons)
qed

lemma in_session_keys: "k \<in># session_keys s l \<longleftrightarrow> (k, s) \<in> set l"
  by (force simp: session_keys_def)

interpretation pg: lock_service pg_try_advisory_lock pg_advisory_unlock session_keys exclusive
proof (unfold_locales, goal_cases)
  case (1 k s l l' u)
  then show ?case by (auto simp: pg_try_advisory_lock_def session_keys_Cons split: if_splits)
next
  case (2 u k s l)
  then show ?case by (simp add: pg_advisory_unlock_def session_keys_remove1)
next
  case (3 l k s l')
  then show ?case by (auto simp: pg_try_advisory_lock_def exclusive_def split: if_splits)
next
  case (4 l k s)
  then show ?case using set_remove1_subset [of "(k, s)" l] by (auto simp: exclusive_def pg_advisory_unlock_def)
next
  case (5 l k s u)
  then show ?case by (auto simp: exclusive_def in_session_keys)
qed

subsection \<open>The invariant\<close>

text \<open>
  Every session holds exactly the keys of the names its task has recorded, and a task that works
  holds the names it was started with.
\<close>

definition task_ok :: "lock_task \<Rightarrow> bool" where
  "task_ok task \<longleftrightarrow>
     (case lt_phase task of
        Acquiring names acquired \<Rightarrow> acquired @ names = lt_locks task
      | Working acquired \<Rightarrow> acquired = lt_locks task
      | _ \<Rightarrow> True)"

definition locks_inv :: "(string \<Rightarrow> int) \<Rightarrow> lock_state \<Rightarrow> bool" where
  "locks_inv lock_key st \<longleftrightarrow> exclusive (ls_locks st)
     \<and> (\<forall>t. session_keys t (ls_locks st) = (case ls_tasks st t of None \<Rightarrow> {#} | Some task \<Rightarrow> mset (map lock_key (held_names (lt_phase task)))))
     \<and> (\<forall>t task. ls_tasks st t = Some task \<longrightarrow> task_ok task)"

lemma locks_inv_initial: "locks_inv lock_key initial_locks"
  by (simp add: locks_inv_def initial_locks_def exclusive_def session_keys_def)

lemma task_ok_start: "task_ok (start_sync_job lock_key held job)" "task_ok (start_sync_all lock_key)"
  by (simp_all add: task_ok_def start_sync_job_def start_sync_all_def Let_def)

lemma held_names_start [simp]:
  "held_names (lt_phase (start_sync_job lock_key held job)) = []" "held_names (lt_phase (start_sync_all lock_key)) = []"
  by (simp_all add: start_sync_job_def start_sync_all_def Let_def)

lemma locks_inv_add:
  assumes "locks_inv lock_key st" and "ls_tasks st t = None" and "task_ok task" and "held_names (lt_phase task) = []"
  shows "locks_inv lock_key (add_task t task st)"
  using assms unfolding locks_inv_def add_task_def by (auto split: if_splits)

lemma locks_inv_set_phase:
  assumes inv: "locks_inv lock_key st" and task: "ls_tasks st t = Some task" and ex: "exclusive locks"
    and keys: "\<And>u. session_keys u locks = (if u = t then mset (map lock_key (held_names p)) else session_keys u (ls_locks st))"
    and ok: "task_ok (task\<lparr>lt_phase := p\<rparr>)"
  shows "locks_inv lock_key (set_phase t task p locks st)"
  using inv ex ok unfolding locks_inv_def set_phase_def by (auto simp: keys split: if_splits)

lemma locks_inv_advance:
  assumes inv: "locks_inv lock_key st"
  shows "locks_inv lock_key (advance lock_key t st)"
proof (cases "ls_tasks st t")
  case None
  then show ?thesis using inv by (simp add: advance_def)
next
  case (Some task)
  have ex: "exclusive (ls_locks st)" and ok: "task_ok task"
    and keys: "session_keys t (ls_locks st) = mset (map lock_key (held_names (lt_phase task)))"
    using inv Some unfolding locks_inv_def by (auto split: option.splits)
  note step = locks_inv_set_phase [OF inv Some]
  show ?thesis
  proof (cases "lt_phase task")
    case (Acquiring names acquired)
    show ?thesis
    proof (cases names)
      case Nil
      show ?thesis using Some Acquiring Nil keys ok by (auto simp: advance_def task_ok_def intro!: step ex)
    next
      case (Cons name rest)
      show ?thesis
      proof (cases "pg_try_advisory_lock (lock_key name) t (ls_locks st)")
        case None
        then show ?thesis using Some Acquiring Cons keys by (auto simp: advance_def task_ok_def intro!: step ex)
      next
        case (Some locks)
        note locked = this
        have "session_keys u locks = (if u = t then mset (map lock_key (held_names (Acquiring rest (acquired @ [name])))) else session_keys u (ls_locks st))" for u
          using pg.try_keys [OF locked, of u] keys Acquiring by simp
        then have "locks_inv lock_key (set_phase t task (Acquiring rest (acquired @ [name])) locks st)"
          using pg.try_sound [OF ex locked] ok Acquiring Cons by (intro step) (auto simp: task_ok_def)
        then show ?thesis using \<open>ls_tasks st t = Some task\<close> Acquiring Cons locked by (simp add: advance_def)
      qed
    qed
  next
    case (Working acquired)
    then show ?thesis using Some keys by (auto simp: advance_def task_ok_def intro!: step ex)
  next
    case (Releasing names)
    show ?thesis
    proof (cases names)
      case Nil
      then show ?thesis using Some Releasing keys by (auto simp: advance_def task_ok_def intro!: step ex)
    next
      case (Cons name rest)
      have "session_keys u (pg_advisory_unlock (lock_key name) t (ls_locks st))
          = (if u = t then mset (map lock_key (held_names (Releasing rest))) else session_keys u (ls_locks st))" for u
        using pg.unlock_keys [of u "lock_key name" t "ls_locks st"] keys Releasing Cons by simp
      then have "locks_inv lock_key (set_phase t task (Releasing rest) (pg_advisory_unlock (lock_key name) t (ls_locks st)) st)"
        using pg.unlock_sound [OF ex] by (intro step) (auto simp: task_ok_def)
      then show ?thesis using Some Releasing Cons by (simp add: advance_def)
    qed
  next
    case Ended
    then show ?thesis using Some inv by (simp add: advance_def)
  qed
qed

lemma locks_inv_step: "lock_step lock_key payloads st st' \<Longrightarrow> locks_inv lock_key st \<Longrightarrow> locks_inv lock_key st'"
  by (erule lock_stepE) (auto intro: locks_inv_add locks_inv_advance task_ok_start)

lemma locks_inv_reachable: "lock_reachable lock_key payloads st \<Longrightarrow> locks_inv lock_key st"
  unfolding lock_reachable_def
  by (induction rule: rtranclp_induct) (auto intro: locks_inv_initial locks_inv_step)

text \<open>The jobs a task runs are among the names it locks, unless its payload claims them.\<close>

lemma task_locks_advance:
  "ls_tasks (advance lock_key t st) u = Some task \<Longrightarrow>
     \<exists>old. ls_tasks st u = Some old \<and> lt_jobs task = lt_jobs old \<and> lt_locks task = lt_locks old"
  by (auto simp: advance_def set_phase_def split: option.splits phase.splits list.splits if_splits)

lemma set_unique_names [simp]: "set (unique_names lock_key names) = set names"
  by (simp add: unique_names_def)

lemma jobs_locked_start:
  "set held \<inter> set SYNC_BUSINESS_LOCK_JOBS = {} \<Longrightarrow> job \<in> set SYNC_BUSINESS_LOCK_JOBS \<Longrightarrow>
     set (lt_jobs (start_sync_job lock_key held job)) \<subseteq> set (lt_locks (start_sync_job lock_key held job))"
  "set (lt_jobs (start_sync_all lock_key)) \<subseteq> set (lt_locks (start_sync_all lock_key))"
  by (auto simp: start_sync_job_def start_sync_all_def Let_def)

lemma jobs_locked_reachable:
  assumes honest: "\<forall>held \<in> payloads. set held \<inter> set SYNC_BUSINESS_LOCK_JOBS = {}" and "lock_reachable lock_key payloads st"
  shows "ls_tasks st t = Some task \<Longrightarrow> set (lt_jobs task) \<subseteq> set (lt_locks task)"
  using assms(2) unfolding lock_reachable_def
proof (induction arbitrary: t task rule: rtranclp_induct)
  case base
  then show ?case by (simp add: initial_locks_def)
next
  case (step st st')
  from step.hyps(2) show ?case
  proof (cases rule: lock_step.cases)
    case (start_job u held job)
    show ?thesis
    proof (cases "t = u")
      case True
      then have "task = start_sync_job lock_key held job" using start_job step.prems by (simp add: add_task_def)
      then show ?thesis using jobs_locked_start(1) honest start_job by blast
    next
      case False
      then show ?thesis using start_job step by (simp add: add_task_def)
    qed
  next
    case (start_all u)
    then show ?thesis using step jobs_locked_start(2) by (cases "t = u") (auto simp: add_task_def)
  next
    case (run u)
    then show ?thesis using step task_locks_advance by (metis (no_types, lifting))
  qed
qed

lemma running_holds_lock:
  assumes inv: "locks_inv lock_key st" and jobs: "\<And>task. ls_tasks st t = Some task \<Longrightarrow> set (lt_jobs task) \<subseteq> set (lt_locks task)"
    and running: "is_running st t job"
  shows "lock_key job \<in># session_keys t (ls_locks st)"
proof -
  obtain task acquired where task: "ls_tasks st t = Some task" and p: "lt_phase task = Working acquired" and j: "job \<in> set (lt_jobs task)"
    using running by (auto simp: is_running_def split: option.splits phase.splits)
  then have "acquired = lt_locks task" and keys: "session_keys t (ls_locks st) = mset (map lock_key acquired)"
    using inv unfolding locks_inv_def by (auto simp: task_ok_def split: phase.splits)
  then show ?thesis using jobs [OF task] j by auto
qed

section \<open>Theorems\<close>


definition demo_digest :: "string \<Rightarrow> nat list" where
  "demo_digest s = replicate 8 (length s)"

lemma lock_reachable_step: "lock_reachable key ps st \<Longrightarrow> lock_step key ps st st' \<Longrightarrow> lock_reachable key ps st'"
  by (auto simp: lock_reachable_def)

lemma lock_reachable_initial: "lock_reachable key ps initial_locks"
  by (simp add: lock_reachable_def)

text \<open>A single synchronisation that works while a full one is refused, by running the steps.\<close>

definition demo_locks :: lock_state where
  "demo_locks =
     (let key = sync_business_lock_key demo_digest;
          s1 = add_task 1 (start_sync_job key [] ''sync_inventory'') initial_locks;
          s2 = add_task 2 (start_sync_all key) (advance key 1 s1)
      in (advance key 1 s2))"

lemma demo_locks_reachable: "lock_reachable (sync_business_lock_key demo_digest) {[]} demo_locks"
  unfolding demo_locks_def Let_def
  by (intro lock_reachable_step [OF _ lock_step.run] lock_reachable_step [OF _ lock_step.start_all]
      lock_reachable_step [OF _ lock_step.start_job] lock_reachable_initial)
    (simp_all add: initial_locks_def add_task_def advance_def start_sync_job_def SYNC_BUSINESS_LOCK_JOBS_def
      set_phase_def unique_names_def pg_try_advisory_lock_def dedup_def Let_def)


text \<open>
  The payload of a task comes from the request that enqueued it. A task whose payload lists its own
  synchronisation as held works without a lock, beside a task that holds it.
\<close>

theorem forged_payload_bypasses_lock:
  "\<exists>st. lock_reachable (sync_business_lock_key sha256) {[], [''sync_inventory'']} st
     \<and> is_running st 1 ''sync_inventory'' \<and> is_running st 2 ''sync_inventory''"
proof -
  define key where "key = sync_business_lock_key sha256"
  define s1 where "s1 = add_task 1 (start_sync_job key [] ''sync_inventory'') initial_locks"
  define s2 where "s2 = add_task 2 (start_sync_job key [''sync_inventory''] ''sync_inventory'') (advance key 1 (advance key 1 s1))"
  have "lock_reachable key {[], [''sync_inventory'']} s2"
    unfolding s2_def s1_def
    by (intro lock_reachable_step [OF _ lock_step.run] lock_reachable_step [OF _ lock_step.start_job] lock_reachable_initial)
      (simp_all add: initial_locks_def add_task_def advance_def start_sync_job_def SYNC_BUSINESS_LOCK_JOBS_def
        set_phase_def unique_names_def pg_try_advisory_lock_def dedup_def Let_def)
  moreover have "is_running s2 1 ''sync_inventory'' \<and> is_running s2 2 ''sync_inventory''"
    by (simp add: s2_def s1_def is_running_def initial_locks_def add_task_def advance_def start_sync_job_def
        set_phase_def unique_names_def pg_try_advisory_lock_def dedup_def Let_def)
  ultimately show ?thesis unfolding key_def by blast
qed

end
