(* ===== verification/Saihu_Payload.thy ===== *)
theory Saihu_Payload
  imports Country_Codes Zipcode_Matcher
begin

text \<open>
  What the synchronisation jobs do with a row of the Saihu API: reading fields, converting them to
  text, numbers and times, and the limits of the columns they are stored in. A row is a JSON
  object; its fields are scalars, one object, or a list whose elements are objects or something
  else (\<open>None\<close>). A JSON number with a fraction is kept as the text Python prints for it. Fields
  that the API documents as scalars are read as such; an object there is outside the rows
  modelled. Text is UTF-8, and a character is a byte that does not continue another.
  \<^verbatim>\<open>core/timezone.py\<close> is here too: \<^verbatim>\<open>dateutil\<close> and the time zone database are parameters.
\<close>

section \<open>Definitions\<close>

subsection \<open>Characters of UTF-8 text\<close>

definition continuation_byte :: "char \<Rightarrow> bool" where
  "continuation_byte c \<longleftrightarrow> (let n = (of_char c :: nat) in 128 \<le> n \<and> n \<le> 191)"

definition utf8_length :: "string \<Rightarrow> nat" where
  "utf8_length s = length (filter (\<lambda>c. \<not> continuation_byte c) s)"

fun utf8_take :: "nat \<Rightarrow> string \<Rightarrow> string" where
  "utf8_take n [] = []"
| "utf8_take n (c # s) =
     (if continuation_byte c then c # utf8_take n s
      else case n of 0 \<Rightarrow> [] | Suc m \<Rightarrow> c # utf8_take m s)"

subsection \<open>Rows\<close>

datatype scalar = SNull | SBool bool | SInt int | SReal string | SText string

type_synonym obj = "(string, scalar) dict"

datatype json_field = Scalar scalar | Object obj | Array "obj option list"

type_synonym payload = "(string, json_field) dict"

definition get_scalar :: "payload \<Rightarrow> string \<Rightarrow> scalar" where
  "get_scalar raw k = (case dict_get raw k of Some (Scalar v) \<Rightarrow> v | _ \<Rightarrow> SNull)"

definition get_field :: "obj \<Rightarrow> string \<Rightarrow> scalar" where
  "get_field x k = dict_get_or x k SNull"

fun truthy :: "scalar \<Rightarrow> bool" where
  "truthy SNull = False"
| "truthy (SBool b) = b"
| "truthy (SInt n) = (n \<noteq> 0)"
| "truthy (SReal r) = (r \<noteq> ''0.0'' \<and> r \<noteq> ''-0.0'')"
| "truthy (SText s) = (s \<noteq> [])"

definition py_or :: "scalar \<Rightarrow> scalar \<Rightarrow> scalar" where
  "py_or a b = (if truthy a then a else b)"

fun py_str :: "scalar \<Rightarrow> string" where
  "py_str SNull = ''None''"
| "py_str (SBool b) = (if b then ''True'' else ''False'')"
| "py_str (SInt n) = int_to_string n"
| "py_str (SReal r) = r"
| "py_str (SText s) = s"

text \<open>\<^verbatim>\<open>str(v or "").strip() or None\<close>, and \<^verbatim>\<open>_clean_text\<close>, which keeps a zero.\<close>

definition optional_text :: "scalar \<Rightarrow> string option" where
  "optional_text v = str_or (Some (py_strip (py_str (py_or v (SText []))))) None"

definition clean_text :: "scalar \<Rightarrow> string option" where
  "clean_text v = (if v = SNull then None else str_or (Some (py_strip (py_str v))) None)"

subsection \<open>Numbers\<close>

text \<open>\<^verbatim>\<open>float(v)\<close> and \<^verbatim>\<open>int(v)\<close>; an integer beyond the floats does not convert.\<close>

fun scalar_float :: "scalar \<Rightarrow> pyf res" where
  "scalar_float SNull = raise TypeError"
| "scalar_float (SBool b) = return (Fin (if b then 1 else 0))"
| "scalar_float (SInt n) =
     (case to_double (n < 0) (of_int \<bar>n\<bar>) of Fin x \<Rightarrow> return (Fin x) | _ \<Rightarrow> raise OverflowError)"
| "scalar_float (SReal r) = (case py_float r of None \<Rightarrow> raise ValueError | Some x \<Rightarrow> return x)"
| "scalar_float (SText s) = (case py_float s of None \<Rightarrow> raise ValueError | Some x \<Rightarrow> return x)"

fun scalar_int :: "scalar \<Rightarrow> int res" where
  "scalar_int SNull = raise TypeError"
| "scalar_int (SBool b) = return (if b then 1 else 0)"
| "scalar_int (SInt n) = return n"
| "scalar_int (SReal r) = (case py_float r of None \<Rightarrow> raise ValueError | Some x \<Rightarrow> int_of_float x)"
| "scalar_int (SText s) = (case py_int s of None \<Rightarrow> raise ValueError | Some n \<Rightarrow> return n)"

definition int_of_float_scalar :: "scalar \<Rightarrow> int res" where
  "int_of_float_scalar v = bind_res (scalar_float v) int_of_float"

text \<open>
  The \<^verbatim>\<open>_to_int\<close> helpers: a default for null and the empty text, another for a value that does
  not convert; \<^verbatim>\<open>OverflowError\<close> is not caught.
\<close>

definition convert_int :: "(scalar \<Rightarrow> int res) \<Rightarrow> int option \<Rightarrow> int option \<Rightarrow> scalar \<Rightarrow> int option res" where
  "convert_int conv empty_default bad_default v =
     (if v = SNull \<or> v = SText [] then return empty_default
      else case conv v of
        Inr n \<Rightarrow> return (Some n)
      | Inl e \<Rightarrow> if e = TypeError \<or> e = ValueError then return bad_default else raise e)"

subsection \<open>Columns\<close>

definition fits_text :: "nat \<Rightarrow> string option \<Rightarrow> bool" where
  "fits_text n v = (case v of None \<Rightarrow> True | Some s \<Rightarrow> utf8_length s \<le> n)"

definition fits_integer :: "int option \<Rightarrow> bool" where
  "fits_integer v = (case v of None \<Rightarrow> True | Some n \<Rightarrow> - (2 ^ 31) \<le> n \<and> n < 2 ^ 31)"

text \<open>A value passed on as it came: a text column takes text and null only.\<close>

definition text_value :: "scalar \<Rightarrow> string option res" where
  "text_value v = (case v of SNull \<Rightarrow> return None | SText s \<Rightarrow> return (Some s) | _ \<Rightarrow> raise DatabaseError)"

definition check_row :: "bool \<Rightarrow> 'a \<Rightarrow> 'a res" where
  "check_row ok x = (if ok then return x else raise DatabaseError)"

subsection \<open>Time zones\<close>

definition BEIJING :: string where
  "BEIJING = ''Asia/Shanghai''"

definition MARKETPLACE_ID_TO_COUNTRY :: "(string, country) dict" where
  "MARKETPLACE_ID_TO_COUNTRY =
     [(''ATVPDKIKX0DER'', ''US''), (''A2EUQ1WTGCTBG2'', ''CA''), (''A1AM78C64UM0Y8'', ''MX''),
      (''A1F83G8C2ARO7P'', ''GB''), (''A1PA6795UKMFR9'', ''DE''), (''A13V1IB3VIYZZH'', ''FR''),
      (''APJ6JRA9NG5V4'', ''IT''), (''A1RKKUPIHCS9HS'', ''ES''), (''A21TJRUUN4KGV'', ''IN''),
      (''A1VC38T7YXB528'', ''JP''), (''A39IBJ37TRP1C6'', ''AU''), (''A2VIGQ35RCS4UG'', ''AE''),
      (''A33AVAJ2PDY3EV'', ''TR''), (''A19VAU5U5O7RUS'', ''SG''), (''A2Q3Y263D00KWC'', ''BR''),
      (''A1805IZSGTT6HS'', ''NL''), (''A17E79C6D8DWNP'', ''SA''), (''A2NODRKZP88ZB9'', ''SE''),
      (''A1C3SOZRARQ6R3'', ''PL''), (''AMEN7PMS3EDWL'', ''BE''), (''A28R8C7NBKEWEA'', ''IE'')]"

definition COUNTRY_TO_TIMEZONE :: "(country, string) dict" where
  "COUNTRY_TO_TIMEZONE =
     [(''US'', ''America/Los_Angeles''), (''CA'', ''America/Toronto''), (''MX'', ''America/Mexico_City''),
      (''GB'', ''Europe/London''), (''CZ'', ''Europe/Prague''), (''DE'', ''Europe/Berlin''),
      (''FR'', ''Europe/Paris''), (''IT'', ''Europe/Rome''), (''ES'', ''Europe/Madrid''),
      (''NL'', ''Europe/Amsterdam''), (''RO'', ''Europe/Bucharest''), (''BE'', ''Europe/Brussels''),
      (''SE'', ''Europe/Stockholm''), (''PL'', ''Europe/Warsaw''), (''IE'', ''Europe/Dublin''),
      (''IN'', ''Asia/Kolkata''), (''JP'', ''Asia/Tokyo''), (''AU'', ''Australia/Sydney''),
      (''AT'', ''Europe/Vienna''), (''CH'', ''Europe/Zurich''), (''CY'', ''Asia/Nicosia''),
      (''DK'', ''Europe/Copenhagen''), (''EE'', ''Europe/Tallinn''), (''FI'', ''Europe/Helsinki''),
      (''LT'', ''Europe/Vilnius''), (''LV'', ''Europe/Riga''), (''MT'', ''Europe/Malta''),
      (''SI'', ''Europe/Ljubljana''), (''AE'', ''Asia/Dubai''), (''TR'', ''Europe/Istanbul''),
      (''SG'', ''Asia/Singapore''), (''BR'', ''America/Sao_Paulo''), (''SA'', ''Asia/Riyadh''),
      (''CN'', ''Asia/Shanghai'')]"

definition marketplace_to_country :: "string option \<Rightarrow> country option" where
  "marketplace_to_country marketplace_id =
     (case str_or marketplace_id None of
        None \<Rightarrow> None
      | Some m \<Rightarrow> (case normalize_observed_country_code (Some m) of
                     Some c \<Rightarrow> Some c
                   | None \<Rightarrow> dict_get MARKETPLACE_ID_TO_COUNTRY m))"

definition country_to_tz :: "country option \<Rightarrow> string" where
  "country_to_tz c =
     (case normalize_observed_country_code c of
        None \<Rightarrow> BEIJING
      | Some n \<Rightarrow> dict_get_or COUNTRY_TO_TIMEZONE n BEIJING)"

definition order_display_timezone :: "string option \<Rightarrow> country option \<Rightarrow> string" where
  "order_display_timezone marketplace_id country_code =
     (case marketplace_to_country marketplace_id of
        Some c \<Rightarrow> country_to_tz (Some c)
      | None \<Rightarrow> country_to_tz (normalize_observed_country_code country_code))"

text \<open>The instant and the zone it is shown in.\<close>

definition to_order_display_time :: "instant option \<Rightarrow> string option \<Rightarrow> country option \<Rightarrow> (instant \<times> string) option" where
  "to_order_display_time v marketplace_id country_code =
     map_option (\<lambda>t. (t, order_display_timezone marketplace_id country_code)) v"

text \<open>
  \<^verbatim>\<open>dateutil.parser.parse\<close>, which gives a local time without a zone or an instant, and the instant
  of a local time in a zone.
\<close>

datatype parsed_time = Naive int | Aware instant

record time_library =
  tl_parse :: "string \<Rightarrow> parsed_time res"
  tl_localize :: "string \<Rightarrow> int \<Rightarrow> instant"

definition parse_saihu_time :: "time_library \<Rightarrow> string option \<Rightarrow> string option \<Rightarrow> instant option res" where
  "parse_saihu_time lib raw marketplace_id =
     (case str_or raw None of
        None \<Rightarrow> return None
      | Some s \<Rightarrow>
          (case tl_parse lib s of
             Inl e \<Rightarrow> if e = ValueError \<or> e = TypeError then return None else raise e
           | Inr (Aware t) \<Rightarrow> return (Some t)
           | Inr (Naive local) \<Rightarrow> return (Some (tl_localize lib (country_to_tz (marketplace_to_country marketplace_id)) local))))"

section \<open>Lemmas\<close>

lemma utf8_length_simps [simp]:
  "utf8_length [] = 0"
  "utf8_length (c # s) = (if continuation_byte c then utf8_length s else Suc (utf8_length s))"
  "utf8_length (s @ t) = utf8_length s + utf8_length t"
  by (simp_all add: utf8_length_def)

lemma utf8_length_take: "utf8_length (utf8_take n s) \<le> n"
  by (induction n s rule: utf8_take.induct) (auto split: nat.splits)

lemma utf8_take_all: "utf8_length s \<le> n \<Longrightarrow> utf8_take n s = s"
  by (induction n s rule: utf8_take.induct) (auto split: nat.splits if_splits)

lemma utf8_take_prefix: "\<exists>t. s = utf8_take n s @ t"
  by (induction n s rule: utf8_take.induct) (auto split: nat.splits)

lemma str_or_None_iff: "str_or v None = Some s \<longleftrightarrow> v = Some s \<and> s \<noteq> []"
  by (cases v) (auto simp: str_or_def)

lemma optional_text_ne: "optional_text v = Some s \<Longrightarrow> s \<noteq> []"
  by (simp add: optional_text_def str_or_None_iff)

lemma clean_text_ne: "clean_text v = Some s \<Longrightarrow> s \<noteq> []"
  by (simp add: clean_text_def str_or_None_iff split: if_splits)

lemma convert_int_cases:
  assumes "convert_int conv e b v = Inr r"
  shows "r = e \<or> r = b \<or> (\<exists>n. conv v = Inr n \<and> r = Some n)"
  using assms by (auto simp: convert_int_def split: if_splits sum.splits)

lemma marketplace_table_wf: "list_all wf_code (map snd MARKETPLACE_ID_TO_COUNTRY)"
  by code_simp

lemma marketplace_to_country_wf: "marketplace_to_country m = Some c \<Longrightarrow> wf_code c"
  using marketplace_table_wf
  by (auto simp: marketplace_to_country_def list_all_iff split: option.splits dest!: dict_get_in
      intro: normalize_observed_wf)

lemma timezone_table: "list_all (\<lambda>c. dict_mem c COUNTRY_TO_TIMEZONE) (map snd MARKETPLACE_ID_TO_COUNTRY)"
  by code_simp

lemma marketplace_has_timezone:
  "dict_get MARKETPLACE_ID_TO_COUNTRY m = Some c \<Longrightarrow> dict_mem c COUNTRY_TO_TIMEZONE"
  using timezone_table by (auto simp: list_all_iff dest!: dict_get_in)

end
