(* ===== verification/Sync_Common.thy ===== *)
theory Sync_Common
  imports Saihu_Payload Config_Api
begin

text \<open>
  What the synchronisation jobs share: \<^verbatim>\<open>sync/common.py\<close>, the course of a job, and
  \<^verbatim>\<open>INSERT ... ON CONFLICT DO UPDATE\<close>. A job reads the rows of the API as a stream that may break
  off with an exception, writes them in one transaction (committed in between when it uses
  batches), and records its outcome. The messages that report progress carry no data.
\<close>

section \<open>Definitions\<close>

subsection \<open>Upserts\<close>

definition upsert :: "('r \<Rightarrow> 'k) \<Rightarrow> 'k \<Rightarrow> ('r \<Rightarrow> 'r) \<Rightarrow> 'r \<Rightarrow> 'r list \<Rightarrow> 'r list" where
  "upsert key k upd new rows =
     (if list_ex (\<lambda>r. key r = k) rows then map (\<lambda>r. if key r = k then upd r else r) rows else rows @ [new])"

definition store_row :: "('r \<Rightarrow> 'k) \<Rightarrow> ('v \<Rightarrow> 'k) \<Rightarrow> ('v \<Rightarrow> 'r) \<Rightarrow> ('v \<Rightarrow> 'r \<Rightarrow> 'r) \<Rightarrow> 'v \<Rightarrow> 'r list \<Rightarrow> 'r list" where
  "store_row key vkey new_row upd v = upsert key (vkey v) (upd v) (new_row v)"

definition find_by :: "('r \<Rightarrow> 'k) \<Rightarrow> 'k \<Rightarrow> 'r list \<Rightarrow> 'r option" where
  "find_by key k rows = find (\<lambda>r. key r = k) rows"

text \<open>The value that is delivered last for a key.\<close>

definition last_value :: "('v \<Rightarrow> 'k) \<Rightarrow> 'k \<Rightarrow> 'v list \<Rightarrow> 'v option" where
  "last_value vkey k vs = find (\<lambda>v. vkey v = k) (rev vs)"

subsection \<open>sync/common.py\<close>

record sync_row =
  ss_job_name :: string
  ss_last_run_at :: "instant option"
  ss_last_success_at :: "instant option"
  ss_last_status :: "string option"
  ss_last_error :: "string option"

definition mark_sync_running :: "string \<Rightarrow> instant \<Rightarrow> sync_row list \<Rightarrow> sync_row list" where
  "mark_sync_running job_name now =
     upsert ss_job_name job_name (\<lambda>r. r\<lparr>ss_last_run_at := Some now, ss_last_status := Some ''running''\<rparr>)
       \<lparr>ss_job_name = job_name, ss_last_run_at = Some now, ss_last_success_at = None, ss_last_status = Some ''running'', ss_last_error = None\<rparr>"

definition mark_sync_success :: "string \<Rightarrow> instant \<Rightarrow> instant \<Rightarrow> sync_row list \<Rightarrow> sync_row list" where
  "mark_sync_success job_name started watermark =
     upsert ss_job_name job_name
       (\<lambda>r. r\<lparr>ss_last_run_at := Some started, ss_last_success_at := Some watermark, ss_last_status := Some ''success'', ss_last_error := None\<rparr>)
       \<lparr>ss_job_name = job_name, ss_last_run_at = Some started, ss_last_success_at = Some watermark, ss_last_status = Some ''success'', ss_last_error = None\<rparr>"

definition mark_sync_failed :: "string \<Rightarrow> string \<Rightarrow> sync_row list \<Rightarrow> sync_row list" where
  "mark_sync_failed job_name error =
     upsert ss_job_name job_name (\<lambda>r. r\<lparr>ss_last_status := Some ''failed'', ss_last_error := Some (utf8_take 5000 error)\<rparr>)
       \<lparr>ss_job_name = job_name, ss_last_run_at = None, ss_last_success_at = None, ss_last_status = Some ''failed'',
        ss_last_error = Some (utf8_take 5000 error)\<rparr>"

subsection \<open>The course of a job\<close>

record sync_world =
  sw_db :: engine_db
  sw_shops :: "shop list"
  sw_states :: "sync_row list"

text \<open>What a job, or a part of it, leaves in the database, and the exception it ends with.\<close>

type_synonym 'w outcome = "'w \<times> exc option"

text \<open>The rows the API delivers, and the exception the stream breaks off with.\<close>

type_synonym stream = "payload list \<times> exc option"

text \<open>
  The loop over the stream: \<open>committed\<close> is what survives an exception, \<open>work\<close> what the
  transaction has written; with a positive batch size every full batch is committed.
\<close>

fun consume :: "nat \<Rightarrow> ('w \<Rightarrow> payload \<Rightarrow> 'w res) \<Rightarrow> nat \<Rightarrow> 'w \<Rightarrow> 'w \<Rightarrow> payload list \<Rightarrow> exc option \<Rightarrow> 'w outcome" where
  "consume batch_size write n committed work [] broken =
     (case broken of None \<Rightarrow> (work, None) | Some e \<Rightarrow> (committed, Some e))"
| "consume batch_size write n committed work (raw # raws) broken =
     (case write work raw of
        Inl e \<Rightarrow> (committed, Some e)
      | Inr work' \<Rightarrow>
          consume batch_size write (Suc n) (if 0 < batch_size \<and> Suc n mod batch_size = 0 then work' else committed) work' raws broken)"

definition consume_stream :: "nat \<Rightarrow> ('w \<Rightarrow> payload \<Rightarrow> 'w res) \<Rightarrow> stream \<Rightarrow> 'w \<Rightarrow> 'w outcome" where
  "consume_stream batch_size write str w = consume batch_size write 0 w w (fst str) (snd str)"

text \<open>
  \<^verbatim>\<open>mark_sync_running\<close>, the body, and the outcome; \<open>message\<close> is \<^verbatim>\<open>str(exc)\<close>.
\<close>

definition run_sync_job ::
  "string \<Rightarrow> instant \<Rightarrow> instant \<Rightarrow> (exc \<Rightarrow> string) \<Rightarrow> ('a sync_world_scheme \<Rightarrow> 'a sync_world_scheme outcome) \<Rightarrow>
   'a sync_world_scheme \<Rightarrow> 'a sync_world_scheme outcome" where
  "run_sync_job job_name started watermark message body w =
     (case body (w\<lparr>sw_states := mark_sync_running job_name started (sw_states w)\<rparr>) of
        (w', None) \<Rightarrow> (w'\<lparr>sw_states := mark_sync_success job_name started watermark (sw_states w')\<rparr>, None)
      | (w', Some e) \<Rightarrow> (w'\<lparr>sw_states := mark_sync_failed job_name (message e) (sw_states w')\<rparr>, Some e))"

text \<open>Writing one row: skip it, store its values, or raise.\<close>

definition store_parsed :: "(payload \<Rightarrow> 'v option res) \<Rightarrow> ('v \<Rightarrow> 'w \<Rightarrow> 'w) \<Rightarrow> 'w \<Rightarrow> payload \<Rightarrow> 'w res" where
  "store_parsed parse store w raw =
     bind_res (parse raw) (\<lambda>v. return (case v of None \<Rightarrow> w | Some x \<Rightarrow> store x w))"

definition world_eu_countries :: "'a sync_world_scheme \<Rightarrow> country list res" where
  "world_eu_countries w = load_eu_countries (map_option gc_eu_countries (t_global_config (sw_db w)))"

section \<open>Lemmas\<close>

subsection \<open>Streams\<close>

lemma consume_success:
  "consume b write n c w raws broken = (w', None) \<longleftrightarrow> broken = None \<and> fold_res write w raws = Inr w'"
  by (induction raws arbitrary: n c w) (auto split: option.splits sum.splits)

lemma consume_failure_atomic:
  "consume 0 write n c w raws broken = (w', Some e) \<Longrightarrow> w' = c"
  by (induction raws arbitrary: n w) (auto split: option.splits sum.splits)

lemma consume_stream_success:
  "consume_stream b write str w = (w', None) \<longleftrightarrow> snd str = None \<and> fold_res write w (fst str) = Inr w'"
  by (simp add: consume_stream_def consume_success)

lemma consume_stream_failure:
  "consume_stream 0 write str w = (w', Some e) \<Longrightarrow> w' = w"
  by (simp add: consume_stream_def consume_failure_atomic)

text \<open>An invariant that each row of this stream keeps holds for what the loop leaves, broken off or not.\<close>

lemma consume_within:
  "P c \<Longrightarrow> P w \<Longrightarrow> (\<And>w raw w'. P w \<Longrightarrow> raw \<in> set raws \<Longrightarrow> write w raw = Inr w' \<Longrightarrow> P w') \<Longrightarrow>
     P (fst (consume b write n c w raws broken))"
proof (induction raws arbitrary: n c w)
  case Nil
  then show ?case by (auto split: option.splits)
next
  case (Cons raw raws)
  show ?case
  proof (cases "write w raw")
    case (Inl e)
    then show ?thesis using Cons.prems(1) by simp
  next
    case (Inr w')
    have "P w'" using Cons.prems(3) [OF Cons.prems(2) _ Inr] by simp
    then have "P (fst (consume b write k d w' raws broken))" if "P d" for k d
      by (intro Cons.IH that) (auto intro: Cons.prems(3))
    then show ?thesis using Cons.prems(1) Inr \<open>P w'\<close> by simp
  qed
qed

lemma consume_stream_within:
  "P w \<Longrightarrow> (\<And>w raw w'. P w \<Longrightarrow> raw \<in> set (fst str) \<Longrightarrow> write w raw = Inr w' \<Longrightarrow> P w') \<Longrightarrow> P (fst (consume_stream b write str w))"
  unfolding consume_stream_def by (rule consume_within)

text \<open>The values a stream of rows is read as, in order.\<close>

fun parsed_values :: "(payload \<Rightarrow> 'v option res) \<Rightarrow> payload list \<Rightarrow> 'v list" where
  "parsed_values parse [] = []"
| "parsed_values parse (raw # raws) =
     (case parse raw of Inr (Some v) \<Rightarrow> v # parsed_values parse raws | _ \<Rightarrow> parsed_values parse raws)"

lemma parsed_values_iff: "v \<in> set (parsed_values parse raws) \<longleftrightarrow> (\<exists>raw \<in> set raws. parse raw = Inr (Some v))"
  by (induction raws) (auto split: sum.splits option.splits)

lemma fold_store_parsed:
  "fold_res (store_parsed parse store) w raws = Inr w' \<Longrightarrow> w' = foldl (\<lambda>w v. store v w) w (parsed_values parse raws)"
  by (induction raws arbitrary: w) (auto simp: store_parsed_def bind_res_Inr_iff split: sum.splits option.splits)

subsection \<open>Tables with a key\<close>

lemma last_value_in: "last_value vkey k vs = Some v \<Longrightarrow> v \<in> set vs \<and> vkey v = k"
  unfolding last_value_def using find_in_set by fastforce

lemma last_value_None: "last_value vkey k vs = None \<longleftrightarrow> k \<notin> vkey ` set vs"
  by (auto simp: last_value_def find_None_iff)

lemma find_by_append: "find_by key k (xs @ ys) = (case find_by key k xs of None \<Rightarrow> find_by key k ys | Some r \<Rightarrow> Some r)"
  by (induction xs) (simp_all add: find_by_def)

lemma find_by_Some: "find_by key k rows = Some r \<Longrightarrow> r \<in> set rows \<and> key r = k"
  unfolding find_by_def by (rule find_in_set)

lemma find_by_None: "find_by key k rows = None \<longleftrightarrow> k \<notin> key ` set rows"
  by (auto simp: find_by_def find_None_iff)

lemma find_by_unique: "distinct (map key rows) \<Longrightarrow> r \<in> set rows \<Longrightarrow> find_by key (key r) rows = Some r"
  by (induction rows) (auto simp: find_by_def rev_image_eqI)

lemma find_by_map:
  "(\<And>r. key (f r) = key r) \<Longrightarrow> find_by key k (map f rows) = map_option f (find_by key k rows)"
  by (induction rows) (simp_all add: find_by_def)

text \<open>
  The contract of a table written by upserts: the key of a value, the row a new value becomes,
  and what a value changes in the row that has its key.
\<close>

locale upsert_table =
  fixes key :: "'r \<Rightarrow> 'k"
    and vkey :: "'v \<Rightarrow> 'k"
    and new_row :: "'v \<Rightarrow> 'r"
    and upd :: "'v \<Rightarrow> 'r \<Rightarrow> 'r"
  assumes key_new: "key (new_row v) = vkey v"
    and key_upd: "key (upd v r) = key r"
begin

abbreviation store :: "'v \<Rightarrow> 'r list \<Rightarrow> 'r list" where
  "store \<equiv> store_row key vkey new_row upd"

lemma find_store:
  "find_by key k (store v rows) =
     (if k = vkey v then Some (case find_by key k rows of None \<Rightarrow> new_row v | Some r \<Rightarrow> upd v r) else find_by key k rows)"
proof (cases "list_ex (\<lambda>r. key r = vkey v) rows")
  case True
  define f where "f = (\<lambda>r. if key r = vkey v then upd v r else r)"
  have st: "store v rows = map f rows" using True by (simp add: store_row_def upsert_def f_def)
  have kf: "key (f r) = key r" for r by (simp add: f_def key_upd)
  obtain q where "find_by key (vkey v) rows = Some q"
    using True find_by_None [of key "vkey v" rows] by (cases "find_by key (vkey v) rows") (auto simp: list_ex_iff rev_image_eqI)
  then show ?thesis
    using find_by_Some [of key k rows] unfolding st find_by_map [of key f, OF kf] by (cases "find_by key k rows") (auto simp: f_def)
next
  case False
  then have "find_by key (vkey v) rows = None" by (auto simp: find_by_None list_ex_iff)
  moreover have "store v rows = rows @ [new_row v]" using False by (simp add: store_row_def upsert_def)
  moreover have "find_by key k [new_row v] = (if k = vkey v then Some (new_row v) else None)" by (simp add: find_by_def key_new)
  ultimately show ?thesis by (auto simp: find_by_append split: option.splits)
qed

lemma keys_store: "key ` set (store v rows) = insert (vkey v) (key ` set rows)"
proof (rule set_eqI)
  fix k
  have "k \<in> key ` set (store v rows) \<longleftrightarrow> find_by key k (store v rows) \<noteq> None" by (simp add: find_by_None)
  also have "\<dots> \<longleftrightarrow> k = vkey v \<or> find_by key k rows \<noteq> None" by (simp add: find_store)
  finally show "k \<in> key ` set (store v rows) \<longleftrightarrow> k \<in> insert (vkey v) (key ` set rows)" by (simp add: find_by_None)
qed

lemma distinct_store: "distinct (map key rows) \<Longrightarrow> distinct (map key (store v rows))"
  by (auto simp: store_row_def upsert_def key_new key_upd comp_def list_ex_iff if_distrib [of key] cong: if_cong)

lemma distinct_stores: "distinct (map key rows) \<Longrightarrow> distinct (map key (foldl (\<lambda>rows v. store v rows) rows vs))"
  by (induction vs arbitrary: rows) (simp_all add: distinct_store)

lemma keys_stores: "key ` set (foldl (\<lambda>rows v. store v rows) rows vs) = key ` set rows \<union> vkey ` set vs"
  by (induction vs arbitrary: rows) (auto simp: keys_store)

lemma find_stores_other:
  "k \<notin> vkey ` set vs \<Longrightarrow> find_by key k (foldl (\<lambda>rows v. store v rows) rows vs) = find_by key k rows"
  by (induction vs arbitrary: rows) (simp_all add: find_store)

end

text \<open>Tables in which a later value replaces all of an earlier one.\<close>

locale overwrite_table = upsert_table +
  assumes upd_upd: "upd v (upd u r) = upd v r"
    and upd_new: "vkey u = vkey v \<Longrightarrow> upd v (new_row u) = new_row v"
begin

lemma find_stores:
  "find_by key k (foldl (\<lambda>rows v. store v rows) rows vs) =
     (case last_value vkey k vs of
        None \<Rightarrow> find_by key k rows
      | Some v \<Rightarrow> Some (case find_by key k rows of None \<Rightarrow> new_row v | Some r \<Rightarrow> upd v r))"
proof (induction vs rule: rev_induct)
  case Nil
  then show ?case by (simp add: last_value_def)
next
  case (snoc v vs)
  have last: "last_value vkey k (vs @ [v]) = (if k = vkey v then Some v else last_value vkey k vs)"
    by (auto simp: last_value_def)
  show ?case
    unfolding last foldl_append foldl.simps find_store snoc.IH
    by (cases "last_value vkey k vs"; cases "find_by key k rows") (auto simp: upd_upd intro!: upd_new dest: last_value_in)
qed

end

text \<open>What an upsert leaves under a key.\<close>

lemma find_upsert:
  assumes "\<And>r. key (upd r) = key r" and "key new = k"
  shows "find_by key j (upsert key k upd new rows) =
    (if j = k then Some (case find_by key k rows of None \<Rightarrow> new | Some r \<Rightarrow> upd r) else find_by key j rows)"
proof -
  have "upsert_table key (\<lambda>_ :: unit. k) (\<lambda>_. new) (\<lambda>_. upd)" by unfold_locales (simp_all add: assms)
  from upsert_table.find_store [OF this, of j "()" rows] show ?thesis by (simp add: store_row_def)
qed

end
