(* ===== verification/Sync_Stock.thy ===== *)
theory Sync_Stock
  imports Sync_Common Step2_Sale_Days
begin

text \<open>
  The jobs that copy warehouses, shops, stock and outbound records from Saihu:
  \<^verbatim>\<open>sync/warehouse.py\<close>, \<^verbatim>\<open>sync/shop.py\<close>, \<^verbatim>\<open>sync/inventory.py\<close> and
  \<^verbatim>\<open>sync/out_records.py\<close>. Each row is read into the values to store, skipped, or raises; the
  values go into the table by an upsert. Of the outbound records the columns that nothing reads
  again are checked but not kept, and prices are left out.
\<close>

section \<open>Definitions\<close>

subsection \<open>sync/warehouse.py\<close>

definition REPLENISH_SITE_RAW_MAX_LEN :: nat where
  "REPLENISH_SITE_RAW_MAX_LEN = 50"

definition ellipsis :: string where
  "ellipsis = utf8 [226, 128, 166]"

definition normalize_replenish_site :: "scalar \<Rightarrow> string option" where
  "normalize_replenish_site v =
     (case clean_text v of
        None \<Rightarrow> None
      | Some t \<Rightarrow> if utf8_length t \<le> REPLENISH_SITE_RAW_MAX_LEN then Some t
                  else Some (utf8_take (REPLENISH_SITE_RAW_MAX_LEN - 1) t @ ellipsis))"

definition warehouse_type :: "scalar \<Rightarrow> int res" where
  "warehouse_type v =
     (let digits = dropWhile (\<lambda>c. c = CHR ''-'') (py_str v)
      in if v \<noteq> SNull \<and> digits \<noteq> [] \<and> list_all is_digit digits then scalar_int v else return 0)"

record warehouse_values =
  wv_id :: warehouse_id
  wv_name :: string
  wv_type :: int
  wv_replenish_site_raw :: "string option"

definition parse_warehouse :: "payload \<Rightarrow> warehouse_values option res" where
  "parse_warehouse raw =
     (let wid = py_str (py_or (get_scalar raw ''id'') (SText []))
      in if wid = [] then return None
         else bind_res (warehouse_type (get_scalar raw ''type'')) (\<lambda>type_int.
              bind_res (text_value (py_or (get_scalar raw ''name'') (SText wid))) (\<lambda>nm.
              let v = \<lparr>wv_id = wid, wv_name = or_empty nm, wv_type = type_int,
                       wv_replenish_site_raw = normalize_replenish_site (get_scalar raw ''replenishSite'')\<rparr>
              in check_row (fits_text 50 (Some wid) \<and> fits_text 255 (Some (wv_name v)) \<and> fits_integer (Some type_int)
                            \<and> fits_text 50 (wv_replenish_site_raw v)) (Some v))))"

definition new_warehouse :: "warehouse_values \<Rightarrow> warehouse" where
  "new_warehouse v = \<lparr>wh_id = wv_id v, wh_name = wv_name v, wh_type = wv_type v, wh_country = None,
     wh_replenish_site_raw = wv_replenish_site_raw v\<rparr>"

definition set_warehouse :: "warehouse_values \<Rightarrow> warehouse \<Rightarrow> warehouse" where
  "set_warehouse v r = r\<lparr>wh_name := wv_name v, wh_type := wv_type v, wh_replenish_site_raw := wv_replenish_site_raw v\<rparr>"

definition upsert_warehouse :: "warehouse list \<Rightarrow> payload \<Rightarrow> warehouse list res" where
  "upsert_warehouse = store_parsed parse_warehouse (store_row wh_id wv_id new_warehouse set_warehouse)"

definition warehouse_body :: "stream \<Rightarrow> 'a sync_world_scheme \<Rightarrow> 'a sync_world_scheme outcome" where
  "warehouse_body str w =
     (let (rows, e) = consume_stream 0 upsert_warehouse str (t_warehouse (sw_db w))
      in (w\<lparr>sw_db := (sw_db w)\<lparr>t_warehouse := rows\<rparr>\<rparr>, e))"

definition sync_warehouse_job ::
  "stream \<Rightarrow> instant \<Rightarrow> instant \<Rightarrow> (exc \<Rightarrow> string) \<Rightarrow> 'a sync_world_scheme \<Rightarrow> 'a sync_world_scheme outcome" where
  "sync_warehouse_job str started finished message = run_sync_job ''sync_warehouse'' started finished message (warehouse_body str)"

subsection \<open>sync/shop.py\<close>

record shop_values =
  sv_id :: string
  sv_name :: string
  sv_seller_id :: "string option"
  sv_region :: "string option"
  sv_marketplace_id :: "string option"
  sv_status :: string

definition parse_shop :: "payload \<Rightarrow> shop_values option res" where
  "parse_shop raw =
     (let sid = py_str (py_or (get_scalar raw ''id'') (SText []))
      in if sid = [] then return None
         else bind_res (text_value (py_or (get_scalar raw ''name'') (SText sid))) (\<lambda>nm.
              bind_res (text_value (get_scalar raw ''sellerId'')) (\<lambda>seller.
              bind_res (text_value (get_scalar raw ''region'')) (\<lambda>region.
              bind_res (text_value (get_scalar raw ''marketplaceId'')) (\<lambda>marketplace.
              bind_res (text_value (get_scalar raw ''adStatus'')) (\<lambda>ad_status.
              let v = \<lparr>sv_id = sid, sv_name = or_empty nm, sv_seller_id = seller, sv_region = region, sv_marketplace_id = marketplace,
                       sv_status = py_str (py_or (get_scalar raw ''status'') (SText ''0''))\<rparr>
              in check_row (fits_text 50 (Some sid) \<and> fits_text 255 (Some (sv_name v)) \<and> fits_text 100 seller \<and> fits_text 10 region
                            \<and> fits_text 50 marketplace \<and> fits_text 10 (Some (sv_status v)) \<and> fits_text 50 ad_status) (Some v)))))))"

definition new_shop :: "shop_values \<Rightarrow> shop" where
  "new_shop v = \<lparr>shop_id = sv_id v, shop_name = sv_name v, shop_seller_id = sv_seller_id v, shop_region = sv_region v,
     shop_marketplace_id = sv_marketplace_id v, shop_status = sv_status v, shop_sync_enabled = True\<rparr>"

definition set_shop :: "shop_values \<Rightarrow> shop \<Rightarrow> shop" where
  "set_shop v r = r\<lparr>shop_name := sv_name v, shop_seller_id := sv_seller_id v, shop_region := sv_region v,
     shop_marketplace_id := sv_marketplace_id v, shop_status := sv_status v\<rparr>"

definition upsert_shop :: "shop list \<Rightarrow> payload \<Rightarrow> shop list res" where
  "upsert_shop = store_parsed parse_shop (store_row shop_id sv_id new_shop set_shop)"

definition shop_body :: "stream \<Rightarrow> 'a sync_world_scheme \<Rightarrow> 'a sync_world_scheme outcome" where
  "shop_body str w = (let (rows, e) = consume_stream 0 upsert_shop str (sw_shops w) in (w\<lparr>sw_shops := rows\<rparr>, e))"

definition sync_shop_job ::
  "stream \<Rightarrow> instant \<Rightarrow> instant \<Rightarrow> (exc \<Rightarrow> string) \<Rightarrow> 'a sync_world_scheme \<Rightarrow> 'a sync_world_scheme outcome" where
  "sync_shop_job str started finished message = run_sync_job ''sync_shop'' started finished message (shop_body str)"

subsection \<open>sync/inventory.py\<close>

definition load_warehouse_countries :: "engine_db \<Rightarrow> (warehouse_id, country option) dict" where
  "load_warehouse_countries db = foldl (\<lambda>m r. dict_set (wh_id r) (wh_country r) m) [] (t_warehouse db)"

definition inventory_to_int :: "scalar \<Rightarrow> int option res" where
  "inventory_to_int = convert_int scalar_int (Some 0) None"

text \<open>The pair of columns a synchronised country is stored in: merged, and as it was when they differ.\<close>

definition mapped_pair :: "country option \<Rightarrow> country list \<Rightarrow> country option \<times> country option" where
  "mapped_pair original eu =
     (let mapped = apply_eu_mapping original eu in (mapped, if mapped \<noteq> original then original else None))"

definition inventory_row ::
  "country list \<Rightarrow> scalar \<Rightarrow> warehouse_id \<Rightarrow> country option \<Rightarrow> int \<Rightarrow> int \<Rightarrow> inventory_snapshot_latest option res" where
  "inventory_row eu sku_raw wid original available reserved =
     bind_res (text_value sku_raw) (\<lambda>commodity_sku.
       check_row (fits_text 100 commodity_sku \<and> fits_integer (Some available) \<and> fits_integer (Some reserved))
         (Some \<lparr>inv_commodity_sku = or_empty commodity_sku, inv_warehouse_id = wid, inv_country = fst (mapped_pair original eu),
                inv_original_country = snd (mapped_pair original eu), inv_available = available, inv_reserved = reserved\<rparr>))"

definition parse_inventory ::
  "(warehouse_id, country option) dict \<Rightarrow> country list \<Rightarrow> payload \<Rightarrow> inventory_snapshot_latest option res" where
  "parse_inventory warehouse_country_map eu raw =
     (let sku_raw = get_scalar raw ''commoditySku''; wid = py_str (py_or (get_scalar raw ''warehouseId'') (SText []))
      in if \<not> truthy sku_raw \<or> wid = [] then return None
         else case dict_get warehouse_country_map wid of
           None \<Rightarrow> return None
         | Some original \<Rightarrow>
             bind_res (inventory_to_int (get_scalar raw ''stockAvailable'')) (\<lambda>available.
             bind_res (inventory_to_int (get_scalar raw ''stockOccupy'')) (\<lambda>reserved.
             case available of
               None \<Rightarrow> return None
             | Some a \<Rightarrow> (case reserved of None \<Rightarrow> return None | Some r \<Rightarrow> inventory_row eu sku_raw wid original a r))))"

definition inv_key :: "inventory_snapshot_latest \<Rightarrow> sku \<times> warehouse_id" where
  "inv_key r = (inv_commodity_sku r, inv_warehouse_id r)"

definition set_inventory :: "inventory_snapshot_latest \<Rightarrow> inventory_snapshot_latest \<Rightarrow> inventory_snapshot_latest" where
  "set_inventory v r = r\<lparr>inv_country := inv_country v, inv_original_country := inv_original_country v,
     inv_available := inv_available v, inv_reserved := inv_reserved v\<rparr>"

definition upsert_inventory ::
  "(warehouse_id, country option) dict \<Rightarrow> country list \<Rightarrow> inventory_snapshot_latest list \<Rightarrow> payload \<Rightarrow> inventory_snapshot_latest list res" where
  "upsert_inventory warehouse_country_map eu =
     store_parsed (parse_inventory warehouse_country_map eu) (store_row inv_key inv_key (\<lambda>v. v) set_inventory)"

definition inventory_body :: "stream \<Rightarrow> 'a sync_world_scheme \<Rightarrow> 'a sync_world_scheme outcome" where
  "inventory_body str w =
     (case world_eu_countries w of
        Inl e \<Rightarrow> (w, Some e)
      | Inr eu \<Rightarrow>
          let (rows, e) = consume_stream 500 (upsert_inventory (load_warehouse_countries (sw_db w)) eu) str
                (t_inventory_snapshot_latest (sw_db w))
          in (w\<lparr>sw_db := (sw_db w)\<lparr>t_inventory_snapshot_latest := rows\<rparr>\<rparr>, e))"

definition sync_inventory_job ::
  "stream \<Rightarrow> instant \<Rightarrow> instant \<Rightarrow> (exc \<Rightarrow> string) \<Rightarrow> 'a sync_world_scheme \<Rightarrow> 'a sync_world_scheme outcome" where
  "sync_inventory_job str started finished message = run_sync_job ''sync_inventory'' started finished message (inventory_body str)"

subsection \<open>sync/out\_records.py\<close>

definition REMARK_COUNTRY_MAP :: "(string, country) dict" where
  "REMARK_COUNTRY_MAP =
     [(utf8 [233, 152, 191, 232, 129, 148, 233, 133, 139], ''AE''),
      (utf8 [230, 190, 179, 229, 164, 167, 229, 136, 169, 228, 186, 154], ''AU''),
      (utf8 [230, 175, 148, 229, 136, 169, 230, 151, 182], ''BE''),
      (utf8 [229, 183, 180, 232, 165, 191], ''BR''),
      (utf8 [229, 138, 160, 230, 139, 191, 229, 164, 167], ''CA''),
      (utf8 [228, 184, 173, 229, 155, 189], ''CN''),
      (utf8 [229, 190, 183, 229, 155, 189], ''DE''),
      (utf8 [232, 165, 191, 231, 143, 173, 231, 137, 153], ''ES''),
      (utf8 [230, 179, 149, 229, 155, 189], ''FR''),
      (utf8 [232, 139, 177, 229, 155, 189], ''GB''),
      (utf8 [231, 136, 177, 229, 176, 148, 229, 133, 176], ''IE''),
      (utf8 [229, 141, 176, 229, 186, 166], ''IN''),
      (utf8 [230, 132, 143, 229, 164, 167, 229, 136, 169], ''IT''),
      (utf8 [230, 151, 165, 230, 156, 172], ''JP''),
      (utf8 [229, 162, 168, 232, 165, 191, 229, 147, 165], ''MX''),
      (utf8 [232, 141, 183, 229, 133, 176], ''NL''),
      (utf8 [230, 179, 162, 229, 133, 176], ''PL''),
      (utf8 [230, 178, 153, 231, 137, 185, 233, 152, 191, 230, 139, 137, 228, 188, 175], ''SA''),
      (utf8 [230, 150, 176, 229, 138, 160, 229, 157, 161], ''SG''),
      (utf8 [231, 145, 158, 229, 133, 184], ''SE''),
      (utf8 [229, 156, 159, 232, 128, 179, 229, 133, 182], ''TR''),
      (utf8 [231, 190, 142, 229, 155, 189], ''US'')]"

text \<open>The date a remark may begin with: \<^verbatim>\<open>^\d{4}[-/.]?\d{2}[-/.]?\d{2}\<close>.\<close>

definition drop_digits :: "nat \<Rightarrow> string \<Rightarrow> string option" where
  "drop_digits n s = (if n \<le> length s \<and> list_all is_digit (take n s) then Some (drop n s) else None)"

definition drop_separator :: "string \<Rightarrow> string" where
  "drop_separator s = (case s of [] \<Rightarrow> [] | c # r \<Rightarrow> if c \<in> set ''-/.'' then r else s)"

definition drop_date :: "string \<Rightarrow> string" where
  "drop_date s =
     (case Option.bind (drop_digits 4 s) (\<lambda>a. Option.bind (drop_digits 2 (drop_separator a)) (\<lambda>b. drop_digits 2 (drop_separator b))) of
        None \<Rightarrow> s
      | Some rest \<Rightarrow> rest)"

text \<open>The separators of \<^verbatim>\<open>[-_/|,\<dots>\s]+\<close> outside ASCII take three bytes: they become a comma first.\<close>

fun ascii_separators :: "string \<Rightarrow> string" where
  "ascii_separators (a # b # c # s) =
     (if [a, b, c] \<in> {utf8 [239, 188, 140], utf8 [227, 128, 129], utf8 [227, 128, 130]}
      then CHR '','' # ascii_separators s else a # ascii_separators (b # c # s))"
| "ascii_separators s = s"

fun split_by :: "(char \<Rightarrow> bool) \<Rightarrow> string \<Rightarrow> string list" where
  "split_by P [] = [[]]"
| "split_by P (c # s) =
     (if P c then [] # split_by P s
      else case split_by P s of [] \<Rightarrow> [[c]] | t # ts \<Rightarrow> (c # t) # ts)"

definition remark_tokens :: "string \<Rightarrow> string list" where
  "remark_tokens s =
     filter (\<lambda>t. t \<noteq> []) (map py_strip (split_by (\<lambda>c. c \<in> set ''-_/|,'' \<or> py_isspace c) (ascii_separators s)))"

fun py_contains :: "string \<Rightarrow> string \<Rightarrow> bool" where
  "py_contains sub [] = (sub = [])"
| "py_contains sub (c # s) = (take (length sub) (c # s) = sub \<or> py_contains sub s)"

definition extract_country_from_remark :: "scalar \<Rightarrow> country option" where
  "extract_country_from_remark raw_remark =
     (case optional_text raw_remark of
        None \<Rightarrow> None
      | Some remark \<Rightarrow>
          let normalized = py_strip (drop_date remark)
          in case find (\<lambda>t. dict_mem t REMARK_COUNTRY_MAP) (remark_tokens normalized) of
               Some t \<Rightarrow> dict_get REMARK_COUNTRY_MAP t
             | None \<Rightarrow> map_option snd (find (\<lambda>(name, c). py_contains name normalized)
                        (sort_key (\<lambda>(name, c). - int (utf8_length name)) REMARK_COUNTRY_MAP)))"

definition out_record_to_int :: "scalar \<Rightarrow> int option res" where
  "out_record_to_int = convert_int int_of_float_scalar None None"

definition to_required_int :: "scalar \<Rightarrow> int option res" where
  "to_required_int = convert_int int_of_float_scalar (Some 0) None"

definition raw_items :: "payload \<Rightarrow> obj option list res" where
  "raw_items raw =
     (case dict_get raw ''items'' of
        None \<Rightarrow> return []
      | Some (Array xs) \<Rightarrow> return xs
      | Some (Scalar v) \<Rightarrow> if truthy v then raise TypeError else return []
      | Some (Object x) \<Rightarrow> if x = [] then return [] else raise AttributeError)"

definition add_out_item :: "string \<Rightarrow> obj \<Rightarrow> in_transit_item list \<Rightarrow> int option \<Rightarrow> in_transit_item list res" where
  "add_out_item record_id x items goods =
     (case goods of
        None \<Rightarrow> return items
      | Some n \<Rightarrow>
          if n \<le> 0 then return items
          else bind_res (text_value (get_field x ''commoditySku'')) (\<lambda>commodity_sku.
            check_row (fits_text 100 commodity_sku \<and> fits_integer goods \<and> fits_text 50 (optional_text (get_field x ''commodityId'')))
              (items @ [\<lparr>iti_saihu_out_record_id = record_id, iti_commodity_sku = or_empty commodity_sku, iti_goods = n\<rparr>])))"

definition parse_out_item :: "string \<Rightarrow> in_transit_item list \<Rightarrow> obj option \<Rightarrow> in_transit_item list res" where
  "parse_out_item record_id items raw_item =
     (case raw_item of
        None \<Rightarrow> raise AttributeError
      | Some x \<Rightarrow>
          if \<not> truthy (get_field x ''commoditySku'') then return items
          else bind_res (to_required_int (get_field x ''goods'')) (add_out_item record_id x items))"

record out_record_values =
  ov_record :: in_transit_record
  ov_items :: "in_transit_item list"

definition ov_id :: "out_record_values \<Rightarrow> string" where
  "ov_id v = itr_saihu_out_record_id (ov_record v)"

definition parse_out_record ::
  "time_library \<Rightarrow> warehouse_id list \<Rightarrow> instant \<Rightarrow> country list \<Rightarrow> payload \<Rightarrow> out_record_values option res" where
  "parse_out_record lib warehouse_ids sync_start_time eu raw =
     (let record_id = py_str (py_or (get_scalar raw ''id'') (SText []));
          target = str_or (Some (py_str (py_or (get_scalar raw ''targetFbaWarehouseId'') (SText [])))) None;
          (mapped, orig) = mapped_pair (extract_country_from_remark (get_scalar raw ''remark'')) eu;
          status = str_or (Some (py_str (py_or (get_scalar raw ''status'') (SText [])))) None;
          update_raw = (case get_scalar raw ''updateTime'' of SText s \<Rightarrow> Some s | _ \<Rightarrow> None)
      in if record_id = [] then return None
         else bind_res (parse_saihu_time lib update_raw None) (\<lambda>update_time.
              bind_res (out_record_to_int (get_scalar raw ''type'')) (\<lambda>type_int.
              bind_res (text_value (get_scalar raw ''outWarehouseNo'')) (\<lambda>out_no.
              bind_res (text_value (get_scalar raw ''remark'')) (\<lambda>remark.
              bind_res (raw_items raw) (\<lambda>raws.
              bind_res (fold_res (parse_out_item record_id) [] raws) (\<lambda>items.
              let r = \<lparr>itr_saihu_out_record_id = record_id,
                       itr_target_warehouse_id = (case target of Some t \<Rightarrow> if t \<in> set warehouse_ids then Some t else None | None \<Rightarrow> None),
                       itr_target_country = mapped, itr_original_target_country = orig, itr_is_in_transit = True,
                       itr_last_seen_at = sync_start_time, itr_remark = remark\<rparr>
              in check_row (fits_text 50 (Some record_id) \<and> fits_text 50 (optional_text (get_scalar raw ''warehouseId'')) \<and> fits_text 50 out_no
                            \<and> fits_text 100 (optional_text (get_scalar raw ''typeName'')) \<and> fits_text 10 status \<and> fits_integer type_int)
                   (Some \<lparr>ov_record = r, ov_items = items\<rparr>))))))))"

text \<open>The upsert sets every column; the items of the record are deleted and inserted again.\<close>

definition upsert_out_record_row :: "out_record_values \<Rightarrow> in_transit_record list \<Rightarrow> in_transit_record list" where
  "upsert_out_record_row = store_row itr_saihu_out_record_id ov_id ov_record
     (\<lambda>v r. (ov_record v)\<lparr>itr_saihu_out_record_id := itr_saihu_out_record_id r\<rparr>)"

definition replace_out_items :: "out_record_values \<Rightarrow> in_transit_item list \<Rightarrow> in_transit_item list" where
  "replace_out_items v items = filter (\<lambda>i. iti_saihu_out_record_id i \<noteq> ov_id v) items @ ov_items v"

definition upsert_out_record ::
  "time_library \<Rightarrow> warehouse_id list \<Rightarrow> instant \<Rightarrow> country list \<Rightarrow> in_transit_record list \<times> in_transit_item list \<Rightarrow> payload \<Rightarrow>
   (in_transit_record list \<times> in_transit_item list) res" where
  "upsert_out_record lib warehouse_ids sync_start_time eu =
     store_parsed (parse_out_record lib warehouse_ids sync_start_time eu)
       (\<lambda>v (records, items). (upsert_out_record_row v records, replace_out_items v items))"

definition age_out_records :: "instant \<Rightarrow> in_transit_record list \<Rightarrow> in_transit_record list" where
  "age_out_records sync_start_time =
     map (\<lambda>r. if itr_is_in_transit r \<and> itr_last_seen_at r < sync_start_time then r\<lparr>itr_is_in_transit := False\<rparr> else r)"

definition backfill_target_country :: "country list \<Rightarrow> in_transit_record \<Rightarrow> in_transit_record" where
  "backfill_target_country eu r =
     (case (itr_target_country r, itr_remark r) of
        (None, Some remark) \<Rightarrow>
          (case extract_country_from_remark (SText remark) of
             None \<Rightarrow> r
           | Some c \<Rightarrow> let (mapped, orig) = mapped_pair (Some c) eu
                       in r\<lparr>itr_target_country := mapped, itr_original_target_country := orig\<rparr>)
      | _ \<Rightarrow> r)"

definition backfill_target_country_from_remark :: "country list \<Rightarrow> in_transit_record list \<Rightarrow> in_transit_record list" where
  "backfill_target_country_from_remark eu = map (backfill_target_country eu)"

definition out_records_body :: "time_library \<Rightarrow> stream \<Rightarrow> instant \<Rightarrow> 'a sync_world_scheme \<Rightarrow> 'a sync_world_scheme outcome" where
  "out_records_body lib str sync_start_time w =
     (case world_eu_countries w of
        Inl e \<Rightarrow> (w, Some e)
      | Inr eu \<Rightarrow>
          (case consume_stream 0 (upsert_out_record lib (map wh_id (t_warehouse (sw_db w))) sync_start_time eu) str
                  (t_in_transit_record (sw_db w), t_in_transit_item (sw_db w)) of
             (_, Some e) \<Rightarrow> (w, Some e)
           | ((records, items), None) \<Rightarrow>
               let aged = age_out_records sync_start_time (backfill_target_country_from_remark eu records)
               in (w\<lparr>sw_db := (sw_db w)\<lparr>t_in_transit_record := aged, t_in_transit_item := items\<rparr>\<rparr>, None)))"

definition sync_out_records_job ::
  "time_library \<Rightarrow> stream \<Rightarrow> instant \<Rightarrow> instant \<Rightarrow> (exc \<Rightarrow> string) \<Rightarrow> 'a sync_world_scheme \<Rightarrow> 'a sync_world_scheme outcome" where
  "sync_out_records_job lib str started finished message =
     run_sync_job ''sync_out_records'' started finished message (out_records_body lib str started)"

section \<open>Lemmas\<close>

interpretation wt: overwrite_table wh_id wv_id new_warehouse set_warehouse
  by unfold_locales (simp_all add: new_warehouse_def set_warehouse_def)

interpretation st: overwrite_table shop_id sv_id new_shop set_shop
  by unfold_locales (simp_all add: new_shop_def set_shop_def)

interpretation it: overwrite_table inv_key inv_key "\<lambda>v. v" set_inventory
  by unfold_locales (simp_all add: inv_key_def set_inventory_def)

interpretation rt: overwrite_table itr_saihu_out_record_id ov_id ov_record
    "\<lambda>v r. (ov_record v)\<lparr>itr_saihu_out_record_id := itr_saihu_out_record_id r\<rparr>"
  by unfold_locales (simp_all add: ov_id_def)

text \<open>Quantities pass through a float without loss as far as floats count.\<close>

lemma int_of_float_scalar_exact: "\<bar>n\<bar> \<le> 2 ^ 53 \<Longrightarrow> int_of_float_scalar (SInt n) = return n"
proof -
  assume "\<bar>n\<bar> \<le> 2 ^ 53"
  then have "to_double (n < 0) (of_int \<bar>n\<bar>) = Fin (of_int n)" using to_double_small [of "\<bar>n\<bar>" "n < 0"] by auto
  then show ?thesis by (auto simp: int_of_float_scalar_def trunc_rat_def)
qed

lemma replenish_site_fits: "fits_text 50 (normalize_replenish_site v)"
proof (cases "clean_text v")
  case (Some t)
  have "utf8_length (utf8_take 49 t) \<le> 49" by (rule utf8_length_take)
  moreover have "utf8_length ellipsis = 1" by code_simp
  ultimately show ?thesis
    using Some by (simp add: normalize_replenish_site_def fits_text_def REPLENISH_SITE_RAW_MAX_LEN_def)
qed (simp add: normalize_replenish_site_def fits_text_def)

text \<open>The pair that is stored for a canonical country is what the backfill computes for it.\<close>

lemma mapped_pair_cases:
  assumes "wf_code c" "''EU'' \<notin> set eu"
  shows "mapped_pair (Some c) eu = (if c \<in> set eu then (Some ''EU'', Some c) else (Some c, None))"
  using assms by (auto simp: mapped_pair_def apply_eu_mapping_def normalize_observed_fixed Let_def)

lemma mapped_pair_stable:
  assumes "wf_code c" "''EU'' \<notin> set eu"
  shows "fst (backfill_row eu \<lparr>g_country = fst (mapped_pair (Some c) eu), g_original = snd (mapped_pair (Some c) eu), g_extra = []\<rparr>)
    = \<lparr>g_country = fst (mapped_pair (Some c) eu), g_original = snd (mapped_pair (Some c) eu), g_extra = []\<rparr>"
proof -
  have "normalized_country_expr c = c" by (rule normalized_country_expr_wf [OF assms(1)])
  moreover have "c \<noteq> []" using assms(1) by (auto simp: wf_code_def)
  ultimately show ?thesis unfolding mapped_pair_cases [OF assms] by (simp add: backfill_row_def geo_source_def)
qed

lemma mapped_pair_None: "mapped_pair None eu = (None, None)"
  by (simp add: mapped_pair_def apply_eu_mapping_def)

lemma remark_table_wf: "list_all wf_code (map snd REMARK_COUNTRY_MAP)"
  by code_simp

lemma extract_country_wf: "extract_country_from_remark v = Some c \<Longrightarrow> wf_code c"
  using remark_table_wf
  by (force simp: extract_country_from_remark_def Let_def list_all_iff split: option.splits dest!: dict_get_in find_in_set)

lemma backfill_inventory_pair:
  assumes "(inv_country v, inv_original_country v) = mapped_pair original eu" "\<forall>c. original = Some c \<longrightarrow> wf_code c" "''EU'' \<notin> set eu"
  shows "backfill_inventory eu v = v"
proof (cases original)
  case None
  then show ?thesis using assms(1) by (simp add: mapped_pair_None backfill_inventory_def backfill_row_def geo_source_def)
next
  case (Some c)
  have "inv_country v = fst (mapped_pair (Some c) eu)" "inv_original_country v = snd (mapped_pair (Some c) eu)"
    using assms(1) Some by (metis fst_conv snd_conv)+
  then show ?thesis using mapped_pair_stable [of c eu] assms(2,3) Some by (simp add: backfill_inventory_def Let_def)
qed

subsection \<open>The jobs\<close>

lemma run_sync_job_body:
  assumes "run_sync_job name started finished message body w = (w', e)"
  obtains w1 where "body (w\<lparr>sw_states := mark_sync_running name started (sw_states w)\<rparr>) = (w1, e)"
    and "sw_db w' = sw_db w1" and "sw_shops w' = sw_shops w1"
  using assms by (auto simp: run_sync_job_def split: prod.splits option.splits)

lemma world_eu_states [simp]: "world_eu_countries (w\<lparr>sw_states := x\<rparr>) = world_eu_countries w"
  by (simp add: world_eu_countries_def)

lemma load_eu_wf: "load_eu_countries v = return eu \<Longrightarrow> ''EU'' \<notin> set eu"
  by (cases v) (auto simp: load_eu_countries_def dest!: normalize_eu_members_wf)

lemma world_eu_wf: "world_eu_countries w = return eu \<Longrightarrow> ''EU'' \<notin> set eu"
  unfolding world_eu_countries_def by (rule load_eu_wf)

lemma warehouse_countries_get: "dict_get (load_warehouse_countries db) k = Some c \<Longrightarrow> \<exists>r \<in> set (t_warehouse db). wh_id r = k \<and> wh_country r = c"
proof -
  have "dict_get (foldl (\<lambda>m r. dict_set (wh_id r) (wh_country r) m) d rows) k = Some c \<Longrightarrow>
      dict_get d k = Some c \<or> (\<exists>r \<in> set rows. wh_id r = k \<and> wh_country r = c)" for d rows
    by (induction rows arbitrary: d) (force simp: dict_get_set split: if_splits)+
  then show "dict_get (load_warehouse_countries db) k = Some c \<Longrightarrow> \<exists>r \<in> set (t_warehouse db). wh_id r = k \<and> wh_country r = c"
    unfolding load_warehouse_countries_def by fastforce
qed

text \<open>What a delivered row of stock says: its warehouse is known, and its country is that of the warehouse, merged.\<close>

lemma parse_inventory_values:
  assumes "parse_inventory m eu raw = Inr (Some v)"
  shows "\<exists>original. dict_get m (inv_warehouse_id v) = Some original \<and> (inv_country v, inv_original_country v) = mapped_pair original eu"
proof -
  define wid where "wid = py_str (py_or (get_scalar raw ''warehouseId'') (SText []))"
  define sku_raw where "sku_raw = get_scalar raw ''commoditySku''"
  obtain original where g: "dict_get m wid = Some original"
    using assms unfolding parse_inventory_def Let_def wid_def [symmetric] by (auto split: if_split_asm option.split_asm)
  obtain available reserved where "(case available of None \<Rightarrow> return None
      | Some a \<Rightarrow> (case reserved of None \<Rightarrow> return None | Some r \<Rightarrow> inventory_row eu sku_raw wid original a r)) = Inr (Some v)"
    using assms g unfolding parse_inventory_def Let_def wid_def [symmetric] sku_raw_def [symmetric]
    by (auto simp: bind_res_Inr_iff split: if_split_asm)
  then obtain a r where "inventory_row eu sku_raw wid original a r = Inr (Some v)"
    by (cases available; cases reserved) auto
  then show ?thesis using g by (auto simp: inventory_row_def check_row_def bind_res_Inr_iff split: if_splits)
qed

text \<open>What a delivered outbound record says.\<close>

lemma add_out_item_adds:
  "add_out_item record_id x items goods = Inr items' \<Longrightarrow>
     items' = items \<or> (\<exists>i. items' = items @ [i] \<and> iti_saihu_out_record_id i = record_id \<and> 0 < iti_goods i)"
  by (cases goods) (auto simp: add_out_item_def check_row_def bind_res_Inr_iff split: if_splits)

lemma parse_out_items:
  assumes "fold_res (parse_out_item record_id) [] raws = Inr items"
  shows "\<forall>i \<in> set items. iti_saihu_out_record_id i = record_id \<and> 0 < iti_goods i"
proof (rule fold_res_invariant [OF assms])
  fix items raw items'
  assume "\<forall>i \<in> set items. iti_saihu_out_record_id i = record_id \<and> 0 < iti_goods i" "parse_out_item record_id items raw = Inr items'"
  then show "\<forall>i \<in> set items'. iti_saihu_out_record_id i = record_id \<and> 0 < iti_goods i"
    by (auto simp: parse_out_item_def bind_res_Inr_iff dest!: add_out_item_adds split: option.splits if_splits)
qed simp

definition out_value_ok :: "instant \<Rightarrow> country list \<Rightarrow> out_record_values \<Rightarrow> bool" where
  "out_value_ok started eu v \<longleftrightarrow>
     (\<forall>i \<in> set (ov_items v). iti_saihu_out_record_id i = ov_id v \<and> 0 < iti_goods i)
     \<and> itr_is_in_transit (ov_record v) \<and> itr_last_seen_at (ov_record v) = started
     \<and> (\<exists>c. (\<forall>n. c = Some n \<longrightarrow> wf_code n) \<and> (itr_target_country (ov_record v), itr_original_target_country (ov_record v)) = mapped_pair c eu
          \<and> (\<forall>s. itr_remark (ov_record v) = Some s \<longrightarrow> extract_country_from_remark (SText s) = c))"

lemma text_value_Some: "text_value v = Inr (Some s) \<Longrightarrow> v = SText s"
  by (cases v) (auto simp: text_value_def)

lemma parse_out_record_ok:
  assumes "parse_out_record lib ids started eu raw = Inr (Some v)"
  shows "out_value_ok started eu v"
proof -
  define c where "c = extract_country_from_remark (get_scalar raw ''remark'')"
  obtain items raws where items: "fold_res (parse_out_item (ov_id v)) [] raws = Inr items" "ov_items v = items"
    and remark: "text_value (get_scalar raw ''remark'') = Inr (itr_remark (ov_record v))"
    and row: "itr_is_in_transit (ov_record v)" "itr_last_seen_at (ov_record v) = started"
    and pair: "(itr_target_country (ov_record v), itr_original_target_country (ov_record v)) = mapped_pair c eu"
    using assms unfolding parse_out_record_def c_def [symmetric] Let_def
    by (auto simp: bind_res_Inr_iff check_row_def ov_id_def split: prod.splits if_splits)
  show ?thesis
    unfolding out_value_ok_def
    using parse_out_items [OF items(1)] items(2) row pair text_value_Some remark extract_country_wf
    by (auto simp: c_def intro!: exI [of _ c])
qed

lemma foldl_pair: "foldl (\<lambda>w v. case w of (a, b) \<Rightarrow> (f v a, g v b)) (a, b) vs = (foldl (\<lambda>a v. f v a) a vs, foldl (\<lambda>b v. g v b) b vs)"
  by (induction vs arbitrary: a b) simp_all

lemma replace_items_filter:
  assumes "\<forall>v \<in> set vs. \<forall>i \<in> set (ov_items v). iti_saihu_out_record_id i = ov_id v"
  shows "filter (\<lambda>i. iti_saihu_out_record_id i = k) (foldl (\<lambda>items v. replace_out_items v items) items vs) =
    (case last_value ov_id k vs of None \<Rightarrow> filter (\<lambda>i. iti_saihu_out_record_id i = k) items | Some v \<Rightarrow> ov_items v)"
  using assms
proof (induction vs rule: rev_induct)
  case Nil
  then show ?case by (simp add: last_value_def)
next
  case (snoc v vs)
  have last: "last_value ov_id k (vs @ [v]) = (if k = ov_id v then Some v else last_value ov_id k vs)"
    by (auto simp: last_value_def)
  have own: "filter (\<lambda>i. iti_saihu_out_record_id i = k) (ov_items v) = (if k = ov_id v then ov_items v else [])"
    using snoc.prems by (auto simp: filter_empty_conv intro!: filter_True)
  have rest: "filter (\<lambda>i. iti_saihu_out_record_id i = k) (filter (\<lambda>i. iti_saihu_out_record_id i \<noteq> ov_id v) xs)
    = (if k = ov_id v then [] else filter (\<lambda>i. iti_saihu_out_record_id i = k) xs)" for xs
    by (induction xs) auto
  have "filter (\<lambda>i. iti_saihu_out_record_id i = k) (replace_out_items v xs)
    = (if k = ov_id v then ov_items v else filter (\<lambda>i. iti_saihu_out_record_id i = k) xs)" for xs
    unfolding replace_out_items_def filter_append own rest by simp
  then show ?case using snoc unfolding last by simp
qed

lemma backfill_target_delivered:
  assumes "out_value_ok started eu v"
  shows "backfill_target_country eu (ov_record v) = ov_record v"
proof -
  obtain c where pair: "(itr_target_country (ov_record v), itr_original_target_country (ov_record v)) = mapped_pair c eu"
    and remark: "\<And>s. itr_remark (ov_record v) = Some s \<Longrightarrow> extract_country_from_remark (SText s) = c"
    using assms unfolding out_value_ok_def by blast
  have "c = None" if "itr_target_country (ov_record v) = None"
    using pair that by (cases c) (auto simp: mapped_pair_def apply_eu_mapping_def Let_def split: if_splits)
  then show ?thesis using remark by (auto simp: backfill_target_country_def split: option.splits)
qed

lemma backfill_target_keeps:
  "itr_saihu_out_record_id (backfill_target_country eu r) = itr_saihu_out_record_id r"
  "itr_is_in_transit (backfill_target_country eu r) = itr_is_in_transit r"
  "itr_last_seen_at (backfill_target_country eu r) = itr_last_seen_at r"
  by (simp_all add: backfill_target_country_def split: option.splits prod.splits)

lemma out_records_body_cases:
  fixes w :: "'a sync_world_scheme"
  assumes "world_eu_countries w = return eu"
    and "consume_stream 0 (upsert_out_record lib (map wh_id (t_warehouse (sw_db w))) started eu) str
           (t_in_transit_record (sw_db w), t_in_transit_item (sw_db w)) = ((records, items), x)"
  shows "out_records_body lib str started w =
     (case x of
        Some e \<Rightarrow> (w, Some e)
      | None \<Rightarrow> (w\<lparr>sw_db := (sw_db w)\<lparr>t_in_transit_record := age_out_records started (backfill_target_country_from_remark eu records),
                                       t_in_transit_item := items\<rparr>\<rparr>, None))"
  using assms by (cases x) (simp_all add: out_records_body_def Let_def)

lemma out_records_tables:
  assumes "consume_stream 0 (upsert_out_record lib ids started eu) str (old, old_items) = ((records, items), None)"
  defines "delivered \<equiv> parsed_values (parse_out_record lib ids started eu) (fst str)"
  shows "records = foldl (\<lambda>rows v. upsert_out_record_row v rows) old delivered"
    and "items = foldl (\<lambda>items v. replace_out_items v items) old_items delivered"
proof -
  have "fold_res (upsert_out_record lib ids started eu) (old, old_items) (fst str) = Inr (records, items)"
    using assms(1) unfolding consume_stream_success by simp
  from fold_store_parsed [OF this [unfolded upsert_out_record_def]]
  have "(records, items) = (foldl (\<lambda>rows v. upsert_out_record_row v rows) old delivered, foldl (\<lambda>items v. replace_out_items v items) old_items delivered)"
    unfolding delivered_def foldl_pair .
  then show "records = foldl (\<lambda>rows v. upsert_out_record_row v rows) old delivered"
    and "items = foldl (\<lambda>items v. replace_out_items v items) old_items delivered" by simp_all
qed

text \<open>A row of the table after the run: the last delivered record, or an old row that is no longer in transit.\<close>

definition age_row :: "instant \<Rightarrow> in_transit_record \<Rightarrow> in_transit_record" where
  "age_row started r = (if itr_is_in_transit r \<and> itr_last_seen_at r < started then r\<lparr>itr_is_in_transit := False\<rparr> else r)"

lemma age_row_id [simp]: "itr_saihu_out_record_id (age_row started r) = itr_saihu_out_record_id r"
  by (simp add: age_row_def)

lemma aged_rows: "age_out_records started (backfill_target_country_from_remark eu rows) = map (\<lambda>r. age_row started (backfill_target_country eu r)) rows"
  by (simp add: age_out_records_def backfill_target_country_from_remark_def age_row_def)

lemma age_row_delivered: "out_value_ok started eu v \<Longrightarrow> age_row started (backfill_target_country eu (ov_record v)) = ov_record v"
  by (simp add: backfill_target_delivered age_row_def) (simp add: out_value_ok_def)

lemma age_row_old: "itr_last_seen_at r < started \<Longrightarrow> \<not> itr_is_in_transit (age_row started (backfill_target_country eu r))"
  by (auto simp: age_row_def backfill_target_keeps)

lemma find_aged:
  "find_by itr_saihu_out_record_id k (age_out_records started (backfill_target_country_from_remark eu rows))
     = map_option (\<lambda>r. age_row started (backfill_target_country eu r)) (find_by itr_saihu_out_record_id k rows)"
  unfolding aged_rows by (rule find_by_map) (simp add: backfill_target_keeps)

lemma find_records:
  "find_by itr_saihu_out_record_id k (foldl (\<lambda>rows v. upsert_out_record_row v rows) old delivered) =
     (case last_value ov_id k delivered of None \<Rightarrow> find_by itr_saihu_out_record_id k old | Some v \<Rightarrow> Some (ov_record v))"
  unfolding upsert_out_record_row_def rt.find_stores
  by (auto simp: ov_id_def dest!: last_value_in find_by_Some split: option.splits)

lemma distinct_records:
  "distinct (map itr_saihu_out_record_id old) \<Longrightarrow> distinct (map itr_saihu_out_record_id (foldl (\<lambda>rows v. upsert_out_record_row v rows) old delivered))"
  unfolding upsert_out_record_row_def by (rule rt.distinct_stores)

lemma delivered_records:
  assumes cs: "consume_stream 0 (upsert_out_record lib ids started eu) str (old, old_items) = ((records, items), None)"
    and keys: "distinct (map itr_saihu_out_record_id old)" and earlier: "\<forall>r \<in> set old. itr_last_seen_at r < started"
  defines "delivered \<equiv> parsed_values (parse_out_record lib ids started eu) (fst str)"
    and "new \<equiv> age_out_records started (backfill_target_country_from_remark eu records)"
  shows "\<forall>r \<in> set new. itr_is_in_transit r \<longleftrightarrow> itr_saihu_out_record_id r \<in> ov_id ` set delivered"
    and "\<forall>k v. last_value ov_id k delivered = Some v \<longrightarrow>
      find_by itr_saihu_out_record_id k new = Some (ov_record v) \<and> filter (\<lambda>i. iti_saihu_out_record_id i = k) items = ov_items v"
    and "distinct (map itr_saihu_out_record_id new)" and "\<forall>v \<in> set delivered. out_value_ok started eu v"
proof -
  note tables = out_records_tables [OF cs, folded delivered_def]
  show ok: "\<forall>v \<in> set delivered. out_value_ok started eu v"
    by (auto simp: delivered_def parsed_values_iff intro: parse_out_record_ok)
  have find_new: "find_by itr_saihu_out_record_id k new = map_option (\<lambda>r. age_row started (backfill_target_country eu r))
      (case last_value ov_id k delivered of None \<Rightarrow> find_by itr_saihu_out_record_id k old | Some v \<Rightarrow> Some (ov_record v))" for k
    unfolding new_def find_aged tables(1) find_records ..
  show dist: "distinct (map itr_saihu_out_record_id new)"
    using distinct_records [OF keys, of delivered] unfolding new_def aged_rows tables(1) by (simp add: comp_def backfill_target_keeps)
  have owned: "\<forall>v \<in> set delivered. \<forall>i \<in> set (ov_items v). iti_saihu_out_record_id i = ov_id v"
    using ok unfolding out_value_ok_def by blast
  show "\<forall>k v. last_value ov_id k delivered = Some v \<longrightarrow>
      find_by itr_saihu_out_record_id k new = Some (ov_record v) \<and> filter (\<lambda>i. iti_saihu_out_record_id i = k) items = ov_items v"
    using ok by (auto simp: find_new tables(2) replace_items_filter [OF owned] age_row_delivered dest!: last_value_in)
  show "\<forall>r \<in> set new. itr_is_in_transit r \<longleftrightarrow> itr_saihu_out_record_id r \<in> ov_id ` set delivered"
  proof
    fix r
    assume "r \<in> set new"
    then have r: "find_by itr_saihu_out_record_id (itr_saihu_out_record_id r) new = Some r" by (rule find_by_unique [OF dist])
    show "itr_is_in_transit r \<longleftrightarrow> itr_saihu_out_record_id r \<in> ov_id ` set delivered"
    proof (cases "last_value ov_id (itr_saihu_out_record_id r) delivered")
      case None
      then obtain q where "q \<in> set old" "r = age_row started (backfill_target_country eu q)"
        using r find_by_Some [of itr_saihu_out_record_id _ old] by (auto simp: find_new)
      then show ?thesis using age_row_old earlier None by (auto simp: last_value_None)
    next
      case (Some v)
      then have v: "v \<in> set delivered" "ov_id v = itr_saihu_out_record_id r" by (auto dest: last_value_in)
      then have "r = ov_record v" using r Some ok by (simp add: find_new age_row_delivered)
      moreover have "itr_is_in_transit (ov_record v)" using v(1) ok by (auto simp: out_value_ok_def)
      ultimately show ?thesis using v by force
    qed
  qed
qed

lemma in_transit_rows_delivered:
  assumes records: "\<forall>r \<in> set (t_in_transit_record db). itr_is_in_transit r \<longleftrightarrow> itr_saihu_out_record_id r \<in> ov_id ` set delivered"
    and found: "\<forall>k v. last_value ov_id k delivered = Some v \<longrightarrow>
      find_by itr_saihu_out_record_id k (t_in_transit_record db) = Some (ov_record v)
      \<and> filter (\<lambda>i. iti_saihu_out_record_id i = k) (t_in_transit_item db) = ov_items v"
    and keys: "distinct (map itr_saihu_out_record_id (t_in_transit_record db))"
    and ok: "\<forall>v \<in> set delivered. out_value_ok started eu v"
    and row: "(s, c, goods) \<in> set (in_transit_rows db)"
  shows "0 < goods \<and> (\<exists>v \<in> set delivered. itr_target_country (ov_record v) = Some c
    \<and> (\<exists>i \<in> set (ov_items v). iti_commodity_sku i = s \<and> iti_goods i = goods))"
proof -
  obtain i r where i: "i \<in> set (t_in_transit_item db)" "iti_commodity_sku i = s" "iti_goods i = goods"
    and r: "r \<in> set (t_in_transit_record db)" "itr_saihu_out_record_id r = iti_saihu_out_record_id i" "itr_is_in_transit r"
    and c: "itr_target_country r = Some c"
    using row by (auto simp: in_transit_rows_def split: option.splits)
  obtain v where v: "last_value ov_id (iti_saihu_out_record_id i) delivered = Some v"
    using records r last_value_None [of ov_id "iti_saihu_out_record_id i" delivered] by fastforce
  have "r = ov_record v" using found v find_by_unique [OF keys r(1)] r(2) by simp
  moreover have "i \<in> set (ov_items v)"
  proof -
    have "ov_items v = filter (\<lambda>j. iti_saihu_out_record_id j = iti_saihu_out_record_id i) (t_in_transit_item db)" using found v by simp
    then show ?thesis using i(1) by simp
  qed
  moreover have "v \<in> set delivered" using v by (auto dest: last_value_in)
  ultimately show ?thesis using ok i c unfolding out_value_ok_def by blast
qed

section \<open>Theorems\<close>

text \<open>
  A synchronisation of the warehouses stores, for every warehouse Saihu lists, the name, type
  and site it lists last; warehouses it does not list stay as they are, and no synchronisation
  changes the country of a warehouse, which is maintained by hand. A run that fails leaves the
  table as it was.
\<close>

theorem warehouse_sync_keeps_countries:
  assumes run: "sync_warehouse_job str started finished message w = (w', e)"
  shows "(e \<noteq> None \<longrightarrow> t_warehouse (sw_db w') = t_warehouse (sw_db w))
    \<and> (e = None \<longrightarrow> (\<forall>k. find_by wh_id k (t_warehouse (sw_db w')) =
          (case last_value wv_id k (parsed_values parse_warehouse (fst str)) of
             None \<Rightarrow> find_by wh_id k (t_warehouse (sw_db w))
           | Some v \<Rightarrow> Some (case find_by wh_id k (t_warehouse (sw_db w)) of
                              None \<Rightarrow> new_warehouse v
                            | Some r \<Rightarrow> r\<lparr>wh_name := wv_name v, wh_type := wv_type v, wh_replenish_site_raw := wv_replenish_site_raw v\<rparr>))))
    \<and> (\<forall>k r. find_by wh_id k (t_warehouse (sw_db w)) = Some r \<longrightarrow>
          (\<exists>r'. find_by wh_id k (t_warehouse (sw_db w')) = Some r' \<and> wh_country r' = wh_country r))"
proof -
  obtain w1 where body: "warehouse_body str (w\<lparr>sw_states := mark_sync_running ''sync_warehouse'' started (sw_states w)\<rparr>) = (w1, e)"
    and db: "sw_db w' = sw_db w1"
    using run_sync_job_body [OF run [unfolded sync_warehouse_job_def]] by blast
  define rows where "rows = t_warehouse (sw_db w)"
  obtain rows' where cs: "consume_stream 0 upsert_warehouse str rows = (rows', e)" and t: "t_warehouse (sw_db w') = rows'"
    using body db by (auto simp: warehouse_body_def rows_def case_prod_unfold Let_def prod_eq_iff)
  have found: "find_by wh_id k rows' = (case last_value wv_id k (parsed_values parse_warehouse (fst str)) of
       None \<Rightarrow> find_by wh_id k rows
     | Some v \<Rightarrow> Some (case find_by wh_id k rows of None \<Rightarrow> new_warehouse v | Some r \<Rightarrow> set_warehouse v r))" if "e = None" for k
  proof -
    have "fold_res upsert_warehouse rows (fst str) = Inr rows'" using cs that by (simp add: consume_stream_success)
    from fold_store_parsed [OF this [unfolded upsert_warehouse_def]] show ?thesis by (simp add: wt.find_stores)
  qed
  have unchanged: "rows' = rows" if "e \<noteq> None"
    using that cs consume_stream_failure [of upsert_warehouse str rows rows'] by (cases e) simp_all
  have kept: "\<exists>r'. find_by wh_id k rows' = Some r' \<and> wh_country r' = wh_country r" if "find_by wh_id k rows = Some r" for k r
    using that found [of k] unchanged by (cases e) (auto simp: set_warehouse_def split: option.splits)
  show ?thesis
    unfolding t rows_def [symmetric]
  proof (intro conjI allI impI, goal_cases)
    case 1
    then show ?case by (rule unchanged)
  next
    case (2 k)
    then show ?case unfolding set_warehouse_def [symmetric] by (rule found)
  next
    case (3 k r)
    then show ?case by (rule kept)
  qed
qed



section \<open>Witnesses\<close>

definition demo_stock_db :: engine_db where
  "demo_stock_db =
     \<lparr>t_order_header = [], t_order_item = [],
      t_warehouse = [\<lparr>wh_id = ''W1'', wh_name = ''old name'', wh_type = 3, wh_country = Some ''DE'', wh_replenish_site_raw = None\<rparr>],
      t_inventory_snapshot_latest = [\<lparr>inv_commodity_sku = ''A'', inv_warehouse_id = ''W1'', inv_country = Some ''DE'', inv_original_country = None, inv_available = 1, inv_reserved = 0\<rparr>],
      t_third_party_warehouse = [], t_third_party_inventory_current = [],
      t_in_transit_record = [\<lparr>itr_saihu_out_record_id = ''R1'', itr_target_warehouse_id = None, itr_target_country = Some ''US'', itr_original_target_country = None,
         itr_is_in_transit = True, itr_last_seen_at = 10, itr_remark = None\<rparr>],
      t_in_transit_item = [\<lparr>iti_saihu_out_record_id = ''R1'', iti_commodity_sku = ''A'', iti_goods = 5\<rparr>],
      t_sku_mapping_rule = [], t_sku_mapping_component = [], t_physical_item_group = [], t_physical_item_sku_alias = [],
      t_sku_config = [], t_zipcode_rule = [], t_global_config = None\<rparr>"

definition demo_world :: sync_world where
  "demo_world = \<lparr>sw_db = demo_stock_db, sw_shops = [], sw_states = []\<rparr>"

definition demo_warehouse_stream :: stream where
  "demo_warehouse_stream = ([[(''id'', Scalar (SText ''W1'')), (''name'', Scalar (SText ''new name'')), (''type'', Scalar (SInt 2))]], None)"

definition demo_inventory_stream :: stream where
  "demo_inventory_stream = ([[(''commoditySku'', Scalar (SText ''A'')), (''warehouseId'', Scalar (SText ''W1'')), (''stockAvailable'', Scalar (SInt 7))]], None)"

definition demo_out_row :: payload where
  "demo_out_row = [(''id'', Scalar (SText ''R2'')),
     (''items'', Array [Some [(''commoditySku'', SText ''A''), (''goods'', SInt 3)]])]"

definition demo_out_values :: out_record_values where
  "demo_out_values = \<lparr>ov_record = \<lparr>itr_saihu_out_record_id = ''R2'', itr_target_warehouse_id = None, itr_target_country = None,
       itr_original_target_country = None, itr_is_in_transit = True, itr_last_seen_at = 20, itr_remark = None\<rparr>,
     ov_items = [\<lparr>iti_saihu_out_record_id = ''R2'', iti_commodity_sku = ''A'', iti_goods = 3\<rparr>]\<rparr>"

definition demo_time :: time_library where
  "demo_time = \<lparr>tl_parse = \<lambda>_. raise ValueError, tl_localize = \<lambda>_ t. t\<rparr>"

theorem warehouse_sync_keeps_countries_witness:
  "let (w', e) = sync_warehouse_job demo_warehouse_stream 20 30 (\<lambda>_. []) demo_world
   in map_option wh_country (find_by wh_id ''W1'' (t_warehouse (sw_db w'))) = Some (Some ''DE'')
    \<and> map_option wh_name (find_by wh_id ''W1'' (t_warehouse (sw_db w'))) = Some ''new name''"
proof -
  obtain w' e where run: "sync_warehouse_job demo_warehouse_stream 20 30 (\<lambda>_. []) demo_world = (w', e)" by (metis surj_pair)
  have "\<exists>r'. find_by wh_id ''W1'' (t_warehouse (sw_db w')) = Some r' \<and> wh_country r' = Some ''DE''"
    using warehouse_sync_keeps_countries [OF run, THEN conjunct2, THEN conjunct2, rule_format, of "''W1''"]
    by (simp add: demo_world_def demo_stock_db_def find_by_def)
  moreover have "map_option wh_name (find_by wh_id ''W1'' (t_warehouse (sw_db (fst (sync_warehouse_job demo_warehouse_stream 20 30 (\<lambda>_. []) demo_world))))) = Some ''new name''"
    by code_simp
  ultimately show ?thesis using run by auto
qed


lemma demo_out_parsed: "parse_out_record demo_time [''W1''] 20 [] demo_out_row = Inr (Some demo_out_values)"
proof -
  have goods: "to_required_int (SInt 3) = return (Some 3)" by (simp add: to_required_int_def convert_int_def int_of_float_scalar_exact)
  have none: "extract_country_from_remark SNull = None"
    by (simp add: extract_country_from_remark_def optional_text_def py_or_def py_strip_def strip_by_def str_or_def)
  have item: "parse_out_item ''R2'' [] (Some [(''commoditySku'', SText ''A''), (''goods'', SInt 3)])
      = Inr [\<lparr>iti_saihu_out_record_id = ''R2'', iti_commodity_sku = ''A'', iti_goods = 3\<rparr>]"
    unfolding parse_out_item_def option.case get_field_def dict_get_or_def
    by (simp add: dict_get_Cons goods add_out_item_def get_field_def dict_get_or_def text_value_def check_row_def fits_text_def
        fits_integer_def optional_text_def py_or_def py_strip_def strip_by_def str_or_def continuation_byte_def)
  show ?thesis
    by (simp add: parse_out_record_def demo_out_row_def demo_out_values_def get_scalar_def dict_get_Cons none mapped_pair_None item py_or_def str_or_def
        parse_saihu_time_def out_record_to_int_def convert_int_def text_value_def raw_items_def check_row_def fits_text_def fits_integer_def
        optional_text_def py_strip_def strip_by_def continuation_byte_def Let_def)
qed


text \<open>
  A quantity that does not convert is meant to be skipped, but only \<^verbatim>\<open>TypeError\<close> and
  \<^verbatim>\<open>ValueError\<close> are caught: an infinite quantity ends the whole synchronisation.
\<close>

theorem infinite_quantity_aborts:
  assumes "dict_get raw ''id'' = Some (Scalar (SText ''R9''))" and "dict_get raw ''updateTime'' = None" and "dict_get raw ''type'' = None"
    and "dict_get raw ''outWarehouseNo'' = None" and "dict_get raw ''remark'' = None"
    and "dict_get raw ''items'' = Some (Array [Some [(''commoditySku'', SText ''A''), (''goods'', SText ''inf'')]])"
  shows "upsert_out_record lib ids started eu tables raw = raise OverflowError"
proof -
  have "to_required_int (SText ''inf'') = raise OverflowError" by code_simp
  then have "parse_out_item record_id [] (Some [(''commoditySku'', SText ''A''), (''goods'', SText ''inf'')]) = raise OverflowError" for record_id
    by (simp add: parse_out_item_def get_field_def dict_get_or_def dict_get_Cons)
  then show ?thesis
    using assms
    by (simp add: upsert_out_record_def store_parsed_def parse_out_record_def get_scalar_def py_or_def Let_def raw_items_def
        parse_saihu_time_def str_or_def out_record_to_int_def convert_int_def text_value_def split: prod.splits)
qed

end
