(* ===== verification/Sync_Orders.thy ===== *)
theory Sync_Orders
  imports Sync_Common Excel_Export
begin

text \<open>
  \<^verbatim>\<open>sync/order_list.py\<close>: the synchronisation of packages and their orders. A package delivers
  orders and items under several possible field names; each order becomes a header and its items.
  Headers that were edited by hand keep the edited columns. Amounts, which nothing else in the model
  reads, are left out; the widths of the columns that are checked but not kept are part of the
  check. A package is read completely before anything is written: a database error ends the
  transaction either way.
\<close>

section \<open>Definitions\<close>

subsection \<open>The window\<close>

definition ORDER_SYNC_ROLLING_MONTHS :: int where
  "ORDER_SYNC_ROLLING_MONTHS = 12"

definition is_leap :: "int \<Rightarrow> bool" where
  "is_leap y \<longleftrightarrow> 4 dvd y \<and> (\<not> 100 dvd y \<or> 400 dvd y)"

definition days_in_month :: "int \<Rightarrow> int \<Rightarrow> int" where
  "days_in_month y m = (if m = 2 then (if is_leap y then 29 else 28) else if m \<in> {4, 6, 9, 11} then 30 else 31)"

definition valid_date :: "int \<times> int \<times> int \<Rightarrow> bool" where
  "valid_date ymd = (case ymd of (y, m, d) \<Rightarrow> 1 \<le> y \<and> y \<le> 9999 \<and> 1 \<le> m \<and> m \<le> 12 \<and> 1 \<le> d \<and> d \<le> days_in_month y m)"

text \<open>\<^verbatim>\<open>datetime.replace\<close> raises for a date that does not exist.\<close>

definition subtract_calendar_months :: "int \<times> int \<times> int \<Rightarrow> int \<Rightarrow> (int \<times> int \<times> int) res" where
  "subtract_calendar_months ymd months =
     (case ymd of (y, m, d) \<Rightarrow>
        let month_index = y * 12 + m - 1 - months;
            year = month_index div 12;
            month = month_index mod 12 + 1;
            day = min d (days_in_month year month)
        in if valid_date (year, month, day) then return (year, month, day) else raise ValueError)"

definition format_window :: "int \<times> int \<times> int \<Rightarrow> int \<Rightarrow> string" where
  "format_window ymd s =
     (case ymd of (y, m, d) \<Rightarrow> int_to_string y @ ''-'' @ two_digits m @ ''-'' @ two_digits d @ '' ''
        @ two_digits (s div 3600) @ '':'' @ two_digits (s mod 3600 div 60) @ '':'' @ two_digits (s mod 60))"

text \<open>The start and the end of the window as the API call writes them.\<close>

definition compute_window :: "instant \<Rightarrow> (string \<times> string) res" where
  "compute_window now =
     bind_res (subtract_calendar_months (civil_date (beijing_date now)) ORDER_SYNC_ROLLING_MONTHS)
       (\<lambda>start. return (format_window start (seconds_of_day now), strftime_text now))"

definition resolve_shop_ids :: "'a sync_world_scheme \<Rightarrow> string list option" where
  "resolve_shop_ids w =
     (case t_global_config (sw_db w) of
        None \<Rightarrow> None
      | Some config \<Rightarrow>
          if gc_shop_sync_mode config = ''all'' then None
          else Some (map shop_id (filter (\<lambda>s. shop_sync_enabled s \<and> shop_status s = ''0'') (sw_shops w))))"

subsection \<open>Reading a package\<close>

text \<open>\<^verbatim>\<open>a or b or c\<close>: the first value that is true, or the last one.\<close>

definition first_of :: "obj \<Rightarrow> string list \<Rightarrow> scalar" where
  "first_of x ks = foldr (\<lambda>k rest. py_or (get_field x k) rest) (butlast ks) (get_field x (last ks))"

text \<open>The scalar fields of a package.\<close>

definition scalar_fields :: "payload \<Rightarrow> obj" where
  "scalar_fields raw = [(k, v). (k, Scalar v) \<leftarrow> raw]"

definition extract_list :: "string list \<Rightarrow> payload \<Rightarrow> obj list" where
  "extract_list ks raw =
     (case find (\<lambda>k. case dict_get raw k of Some (Array _) \<Rightarrow> True | _ \<Rightarrow> False) ks of
        None \<Rightarrow> []
      | Some k \<Rightarrow> (case dict_get raw k of Some (Array xs) \<Rightarrow> [x. Some x \<leftarrow> xs] | _ \<Rightarrow> []))"

definition extract_package_orders :: "payload \<Rightarrow> obj list" where
  "extract_package_orders = extract_list [''orders'', ''orderList'', ''orderInfoList'', ''orderInfos'', ''packageOrderList'']"

definition extract_package_items :: "payload \<Rightarrow> obj list" where
  "extract_package_items = extract_list [''items'', ''itemList'', ''packageItemList'', ''orderItemList'', ''skuInfoVo'', ''details'']"

definition order_number :: "obj \<Rightarrow> string option" where
  "order_number x = clean_text (first_of x [''amazonOrderId'', ''orderNo'', ''orderId''])"

text \<open>What an order is known by when only the package or an item names it.\<close>

definition fallback_meta :: "obj \<Rightarrow> string \<Rightarrow> obj" where
  "fallback_meta raw order_id =
     [(''amazonOrderId'', SText order_id), (''purchaseDate'', get_field raw ''purchaseDate''),
      (''lastUpdateDate'', first_of raw [''updateTime'', ''lastUpdateDate''])]"

definition normalize_orders_from_package :: "obj \<Rightarrow> obj list \<Rightarrow> obj list \<Rightarrow> (string, obj) dict" where
  "normalize_orders_from_package raw orders package_items =
     (let named = foldl (\<lambda>m x. case order_number x of None \<Rightarrow> m | Some k \<Rightarrow> dict_set k x m) [] orders
      in if named \<noteq> [] then named
         else case order_number raw of
           Some k \<Rightarrow> [(k, fallback_meta raw k)]
         | None \<Rightarrow> map (\<lambda>k. (k, fallback_meta raw k)) (dedup [k. x \<leftarrow> package_items, Some k \<leftarrow> [order_number x]]))"

definition group_items_by_order :: "obj list \<Rightarrow> (string, obj) dict \<Rightarrow> (string, obj list) dict" where
  "group_items_by_order package_items order_map =
     (let sole = (case order_map of [(k, _)] \<Rightarrow> Some k | _ \<Rightarrow> None)
      in foldl (\<lambda>g x. case (case order_number x of Some k \<Rightarrow> Some k | None \<Rightarrow> sole) of
                  None \<Rightarrow> g
                | Some k \<Rightarrow> if dict_mem k order_map then dict_set k (dict_get_or g k [] @ [x]) g else g) [] package_items)"

definition resolve_package_country :: "scalar \<Rightarrow> country list \<Rightarrow> country \<times> country option" where
  "resolve_package_country marketplace eu =
     (let v = Some (py_str (py_or marketplace (SText [])))
      in case normalize_observed_country_code v of
           Some c \<Rightarrow> ((case str_or (apply_eu_mapping (Some c) eu) None of Some m \<Rightarrow> m | None \<Rightarrow> c), Some c)
         | None \<Rightarrow> (normalize_source_country_or_unknown v, None))"

definition parse_order_date :: "time_library \<Rightarrow> scalar \<Rightarrow> scalar \<Rightarrow> string \<Rightarrow> instant option res" where
  "parse_order_date lib raw fallback marketplace_id =
     bind_res (parse_saihu_time lib (clean_text raw) (Some marketplace_id)) (\<lambda>parsed.
       case parsed of
         Some t \<Rightarrow> return (Some t)
       | None \<Rightarrow> parse_saihu_time lib (clean_text fallback) (Some marketplace_id))"

record order_item_values =
  iv_order_item_id :: string
  iv_commodity_sku :: sku
  iv_seller_sku :: "string option"
  iv_quantity :: int

record header_values =
  hv_shop_id :: string
  hv_amazon_order_id :: string
  hv_package_sn :: string
  hv_order_platform :: string
  hv_package_status :: string
  hv_shop_name :: "string option"
  hv_postal_code :: "string option"
  hv_marketplace_id :: string
  hv_country_code :: country
  hv_original_country_code :: "country option"
  hv_purchase_date :: instant
  hv_last_update_date :: instant
  hv_items :: "order_item_values list"

definition CANCELED_PACKAGE :: string where
  "CANCELED_PACKAGE = ''has_canceled''"

definition order_to_int :: "scalar \<Rightarrow> int option res" where
  "order_to_int = convert_int int_of_float_scalar (Some 0) None"

definition parse_order_item :: "string \<Rightarrow> string \<Rightarrow> nat \<times> obj \<Rightarrow> order_item_values option res" where
  "parse_order_item package_sn order_id numbered =
     (let (index, x) = numbered;
          seller_sku = clean_text (get_field x ''sellerSku'');
          commodity_sku = (case clean_text (get_field x ''commoditySku'') of Some s \<Rightarrow> Some s | None \<Rightarrow> seller_sku);
          item_id = (case clean_text (get_field x ''orderItemId'') of
                       Some s \<Rightarrow> s
                     | None \<Rightarrow> package_sn @ '':'' @ order_id @ '':'' @ nat_to_string index)
      in case commodity_sku of
           None \<Rightarrow> return None
         | Some sku \<Rightarrow>
             bind_res (order_to_int (get_field x ''quantityOrdered'')) (\<lambda>quantity.
               case quantity of
                 None \<Rightarrow> return None
               | Some q \<Rightarrow>
                   check_row (fits_text 50 (Some item_id) \<and> fits_text 100 (Some sku) \<and> fits_text 100 seller_sku \<and> fits_integer quantity
                              \<and> fits_text 10 (clean_text (first_of x [''itemPriceCurrency'', ''currency''])))
                     (Some \<lparr>iv_order_item_id = item_id, iv_commodity_sku = sku, iv_seller_sku = seller_sku, iv_quantity = q\<rparr>)))"

text \<open>One \<^verbatim>\<open>INSERT ... ON CONFLICT\<close> must not name a key twice.\<close>

definition parse_order_items :: "string \<Rightarrow> string \<Rightarrow> obj list \<Rightarrow> order_item_values list res" where
  "parse_order_items package_sn order_id xs =
     bind_res (map_res (parse_order_item package_sn order_id) (enumerate 1 xs)) (\<lambda>vs.
       let items = [v. Some v \<leftarrow> vs] in check_row (distinct (map iv_order_item_id items)) items)"

definition header_fits :: "obj \<Rightarrow> obj \<Rightarrow> header_values \<Rightarrow> bool" where
  "header_fits raw meta v \<longleftrightarrow>
     fits_text 50 (Some (hv_shop_id v)) \<and> fits_text 50 (Some (hv_amazon_order_id v)) \<and> fits_text 50 (Some (hv_order_platform v))
     \<and> fits_text 80 (Some (hv_package_sn v)) \<and> fits_text 50 (Some (hv_package_status v)) \<and> fits_text 30 (Some (hv_package_status v))
     \<and> fits_text 255 (hv_shop_name v) \<and> fits_text 50 (hv_postal_code v) \<and> fits_text 10 (Some (hv_marketplace_id v))
     \<and> fits_text 10 (clean_text (py_or (get_field meta ''orderTotalCurrency'') (get_field raw ''orderTotalCurrency'')))
     \<and> fits_text 10 (clean_text (py_or (get_field meta ''fulfillmentChannel'') (get_field raw ''fulfillmentChannel'')))"

text \<open>One order of a package: skipped when it has no purchase date.\<close>

definition parse_order ::
  "time_library \<Rightarrow> obj \<Rightarrow> header_values \<Rightarrow> (string, obj list) dict \<Rightarrow> string \<times> obj \<Rightarrow> header_values option res" where
  "parse_order lib raw common items_by_order entry =
     (let (order_id, meta) = entry; mp = hv_marketplace_id common
      in bind_res (parse_order_date lib (py_or (get_field meta ''purchaseDate'') (get_field raw ''purchaseDate''))
             (get_field raw ''purchaseDate'') mp) (\<lambda>purchase.
           case purchase of
             None \<Rightarrow> return None
           | Some purchase_date \<Rightarrow>
               bind_res (parse_order_date lib (py_or (get_field meta ''lastUpdateDate'') (first_of raw [''updateTime'', ''lastUpdateDate'']))
                   (py_or (get_field raw ''updateTime'') (py_or (get_field raw ''lastUpdateDate'') (get_field meta ''purchaseDate''))) mp) (\<lambda>updated.
               bind_res (parse_order_items (hv_package_sn common) order_id (dict_get_or items_by_order order_id [])) (\<lambda>items.
                 let v = common\<lparr>hv_amazon_order_id := order_id, hv_purchase_date := purchase_date,
                                hv_last_update_date := (case updated of Some t \<Rightarrow> t | None \<Rightarrow> purchase_date), hv_items := items\<rparr>
                 in check_row (header_fits raw meta v) (Some v)))))"

text \<open>What the orders of a package share; the columns of one order are set by \<open>parse_order\<close>.\<close>

definition package_common :: "country list \<Rightarrow> payload \<Rightarrow> header_values" where
  "package_common eu raw =
     (let x = scalar_fields raw;
          shop = py_strip (py_str (py_or (get_field x ''shopId'') (SText [])));
          sn = py_strip (py_str (py_or (first_of x [''packageSn'', ''packageNo'', ''packageId'']) (SText [])));
          (ctry, original) = resolve_package_country (get_field x ''marketplace'') eu;
          address = (case dict_get raw ''address'' of Some (Object a) \<Rightarrow> a | _ \<Rightarrow> [])
      in \<lparr>hv_shop_id = shop, hv_amazon_order_id = [], hv_package_sn = sn,
          hv_order_platform = (case optional_text (get_field x ''platformName'') of Some s \<Rightarrow> s | None \<Rightarrow> ORDER_SOURCE_PACKAGE),
          hv_package_status = (case optional_text (first_of x [''packageStatus'', ''status'']) of Some s \<Rightarrow> s | None \<Rightarrow> ''Unknown''),
          hv_shop_name = optional_text (get_field x ''shopName''),
          hv_postal_code = clean_text (get_field address ''postalCode''),
          hv_marketplace_id = (case clean_text (get_field x ''marketplaceId'') of Some s \<Rightarrow> s | None \<Rightarrow> ctry),
          hv_country_code = ctry,
          hv_original_country_code = (case original of Some c \<Rightarrow> if c \<noteq> ctry then Some c else None | None \<Rightarrow> None),
          hv_purchase_date = 0, hv_last_update_date = 0, hv_items = []\<rparr>)"

definition parse_package :: "time_library \<Rightarrow> country list \<Rightarrow> payload \<Rightarrow> header_values list res" where
  "parse_package lib eu raw =
     (let common = package_common eu raw; x = scalar_fields raw; package_items = extract_package_items raw;
          order_map = normalize_orders_from_package x (extract_package_orders raw) package_items
      in if hv_shop_id common = [] \<or> hv_package_sn common = [] then return []
         else bind_res (map_res (parse_order lib x common (group_items_by_order package_items order_map)) order_map)
                (\<lambda>vs. return [v. Some v \<leftarrow> vs]))"

subsection \<open>Writing\<close>

record order_tables =
  ot_headers :: "order_header list"
  ot_items :: "order_item list"
  ot_next_id :: int

type_synonym header_key = "string \<times> string \<times> string \<times> string"

definition header_key :: "order_header \<Rightarrow> header_key" where
  "header_key h = (oh_shop_id h, oh_amazon_order_id h, oh_source h, oh_package_sn h)"

definition hv_key :: "header_values \<Rightarrow> header_key" where
  "hv_key v = (hv_shop_id v, hv_amazon_order_id v, ORDER_SOURCE_PACKAGE, hv_package_sn v)"

definition new_header :: "int \<Rightarrow> header_values \<Rightarrow> order_header" where
  "new_header i v =
     \<lparr>oh_id = i, oh_shop_id = hv_shop_id v, oh_amazon_order_id = hv_amazon_order_id v, oh_source = ORDER_SOURCE_PACKAGE,
      oh_order_platform = hv_order_platform v, oh_package_sn = hv_package_sn v, oh_package_status = Some (hv_package_status v),
      oh_postal_code = hv_postal_code v, oh_marketplace_id = hv_marketplace_id v, oh_country_code = hv_country_code v,
      oh_original_country_code = hv_original_country_code v, oh_order_status = hv_package_status v,
      oh_purchase_date = hv_purchase_date v, oh_shop_name = hv_shop_name v, oh_last_update_date = hv_last_update_date v,
      oh_is_buyer_requested_cancel = (hv_package_status v = CANCELED_PACKAGE), oh_manual_edit_locked = False,
      oh_manual_edited_at = None, oh_manual_edited_by = None, oh_manual_edit_fields = []\<rparr>"

text \<open>
  The update of an existing header. \<^verbatim>\<open>_protect_manual_edit_fields\<close> keeps every protected column of
  a locked order; a package without a postal code keeps the stored one.
\<close>

definition set_header :: "header_values \<Rightarrow> order_header \<Rightarrow> order_header" where
  "set_header v h =
     (let status = h\<lparr>oh_package_status := Some (hv_package_status v), oh_order_status := hv_package_status v,
                      oh_is_buyer_requested_cancel := (hv_package_status v = CANCELED_PACKAGE)\<rparr>
      in if oh_manual_edit_locked h then status
         else status\<lparr>oh_order_platform := hv_order_platform v, oh_shop_name := hv_shop_name v,
                      oh_postal_code := (case hv_postal_code v of None \<Rightarrow> oh_postal_code h | Some p \<Rightarrow> Some p),
                      oh_marketplace_id := hv_marketplace_id v, oh_country_code := hv_country_code v,
                      oh_original_country_code := hv_original_country_code v, oh_purchase_date := hv_purchase_date v,
                      oh_last_update_date := hv_last_update_date v\<rparr>)"

definition order_item_of :: "int \<Rightarrow> order_item_values \<Rightarrow> order_item" where
  "order_item_of i v = \<lparr>oi_order_id = i, oi_order_item_id = iv_order_item_id v, oi_commodity_sku = iv_commodity_sku v,
     oi_seller_sku = iv_seller_sku v, oi_quantity_ordered = iv_quantity v, oi_quantity_shipped = iv_quantity v,
     oi_quantity_unfulfillable = 0, oi_refund_num = 0\<rparr>"

definition order_item_key :: "order_item \<Rightarrow> int \<times> string" where
  "order_item_key r = (oi_order_id r, oi_order_item_id r)"

definition set_order_item :: "order_item \<Rightarrow> order_item \<Rightarrow> order_item" where
  "set_order_item v r = v\<lparr>oi_order_id := oi_order_id r, oi_order_item_id := oi_order_item_id r\<rparr>"

text \<open>The items of an order: upserted, and the others of the order deleted; nothing happens without items.\<close>

definition store_items :: "int \<Rightarrow> order_item_values list \<Rightarrow> order_item list \<Rightarrow> order_item list" where
  "store_items i vs rows =
     (if vs = [] then rows
      else filter (\<lambda>r. oi_order_id r = i \<longrightarrow> oi_order_item_id r \<in> set (map iv_order_item_id vs))
             (foldl (\<lambda>rows v. store_row order_item_key order_item_key (\<lambda>v. v) set_order_item v rows) rows (map (order_item_of i) vs)))"

definition order_id_of :: "header_values \<Rightarrow> order_tables \<Rightarrow> int" where
  "order_id_of v t = (case find_by header_key (hv_key v) (ot_headers t) of Some h \<Rightarrow> oh_id h | None \<Rightarrow> ot_next_id t)"

definition store_order :: "header_values \<Rightarrow> order_tables \<Rightarrow> order_tables" where
  "store_order v t =
     t\<lparr>ot_headers := store_row header_key hv_key (new_header (ot_next_id t)) set_header v (ot_headers t),
       ot_items := store_items (order_id_of v t) (hv_items v) (ot_items t),
       ot_next_id := (case find_by header_key (hv_key v) (ot_headers t) of Some h \<Rightarrow> ot_next_id t | None \<Rightarrow> ot_next_id t + 1)\<rparr>"

definition upsert_package_ship_order :: "time_library \<Rightarrow> country list \<Rightarrow> order_tables \<Rightarrow> payload \<Rightarrow> order_tables res" where
  "upsert_package_ship_order lib eu t raw =
     bind_res (parse_package lib eu raw) (\<lambda>vs. return (foldl (\<lambda>t v. store_order v t) t vs))"

subsection \<open>The job\<close>

text \<open>The rows of \<^verbatim>\<open>order_detail\<close> and \<^verbatim>\<open>order_detail_fetch_log\<close> by their keys.\<close>

record order_world = sync_world +
  ow_next_order_id :: int
  ow_order_details :: "(string \<times> string \<times> string) list"
  ow_detail_fetch_logs :: "(string \<times> string \<times> string) list"

definition LEGACY_ORDER_SOURCES :: "string list" where
  "LEGACY_ORDER_SOURCES = [ORDER_SOURCE_AMAZON, ORDER_SOURCE_MULTIPLATFORM]"

text \<open>Deleting a header deletes its items.\<close>

definition cleanup_legacy_orders :: "'a order_world_scheme \<Rightarrow> 'a order_world_scheme" where
  "cleanup_legacy_orders w =
     (let legacy = (\<lambda>(shop, order_no, source). source \<in> set LEGACY_ORDER_SOURCES);
          gone = map oh_id (filter (\<lambda>h. oh_source h \<in> set LEGACY_ORDER_SOURCES) (t_order_header (sw_db w)))
      in w\<lparr>ow_detail_fetch_logs := filter (\<lambda>k. \<not> legacy k) (ow_detail_fetch_logs w),
           ow_order_details := filter (\<lambda>k. \<not> legacy k) (ow_order_details w),
           sw_db := (sw_db w)\<lparr>t_order_header := filter (\<lambda>h. oh_source h \<notin> set LEGACY_ORDER_SOURCES) (t_order_header (sw_db w)),
                              t_order_item := filter (\<lambda>i. oi_order_id i \<notin> set gone) (t_order_item (sw_db w))\<rparr>\<rparr>)"

definition order_tables_of :: "'a order_world_scheme \<Rightarrow> order_tables" where
  "order_tables_of w = \<lparr>ot_headers = t_order_header (sw_db w), ot_items = t_order_item (sw_db w), ot_next_id = ow_next_order_id w\<rparr>"

definition put_order_tables :: "order_tables \<Rightarrow> 'a order_world_scheme \<Rightarrow> 'a order_world_scheme" where
  "put_order_tables t w = w\<lparr>sw_db := (sw_db w)\<lparr>t_order_header := ot_headers t, t_order_item := ot_items t\<rparr>, ow_next_order_id := ot_next_id t\<rparr>"

text \<open>
  The window, the shops and the EU list are read before the handler that records a failure; the API
  delivers the packages of a window and a choice of shops.
\<close>

definition sync_order_list_job ::
  "time_library \<Rightarrow> (string \<times> string \<Rightarrow> string list option \<Rightarrow> stream) \<Rightarrow> instant \<Rightarrow> (exc \<Rightarrow> string) \<Rightarrow> 'a order_world_scheme \<Rightarrow> 'a order_world_scheme outcome" where
  "sync_order_list_job lib api started message w =
     (let w1 = w\<lparr>sw_states := mark_sync_running ''sync_order_list'' started (sw_states w)\<rparr>;
          success = (\<lambda>w. w\<lparr>sw_states := mark_sync_success ''sync_order_list'' started started (sw_states w)\<rparr>)
      in case compute_window started of
           Inl e \<Rightarrow> (w1, Some e)
         | Inr window \<Rightarrow>
             (case world_eu_countries w1 of
                Inl e \<Rightarrow> (w1, Some e)
              | Inr eu \<Rightarrow>
                  let shop_ids = resolve_shop_ids w1; w2 = cleanup_legacy_orders w1
                  in if shop_ids = Some [] then (success w2, None)
                     else case consume_stream 200 (upsert_package_ship_order lib eu) (api window shop_ids) (order_tables_of w2) of
                            (t, None) \<Rightarrow> (success (put_order_tables t w2), None)
                          | (t, Some e) \<Rightarrow> ((put_order_tables t w2)\<lparr>sw_states := mark_sync_failed ''sync_order_list'' (message e) (sw_states w2)\<rparr>, Some e)))"

section \<open>Lemmas\<close>

interpretation oi: overwrite_table order_item_key order_item_key "\<lambda>v. v" set_order_item
  by unfold_locales (auto simp: order_item_key_def set_order_item_def)

lemma set_header_key [simp]: "header_key (set_header v h) = header_key h" "oh_id (set_header v h) = oh_id h"
  by (simp_all add: header_key_def set_header_def Let_def)

lemma new_header_key [simp]: "header_key (new_header i v) = hv_key v" "oh_id (new_header i v) = i"
  by (simp_all add: header_key_def hv_key_def new_header_def)

interpretation oh: upsert_table header_key hv_key "new_header i" set_header for i
  by unfold_locales simp_all

subsection \<open>Window\<close>

lemma days_in_month_bounds: "28 \<le> days_in_month y m \<and> days_in_month y m \<le> 31"
  by (simp add: days_in_month_def)

lemma subtract_calendar_months_valid:
  assumes "valid_date (y, m, d)" and "0 \<le> months" and "12 \<le> y * 12 + m - 1 - months"
  shows "\<exists>y' m' d'. subtract_calendar_months (y, m, d) months = Inr (y', m', d') \<and> valid_date (y', m', d')
    \<and> y' * 12 + m' = y * 12 + m - months \<and> (d' = d \<or> d' < d \<and> d' = days_in_month y' m')"
proof -
  define idx where "idx = y * 12 + m - 1 - months"
  define y' where "y' = idx div 12"
  define m' where "m' = idx mod 12 + 1"
  define d' where "d' = min d (days_in_month y' m')"
  have sum: "y' * 12 + m' = idx + 1" by (simp add: y'_def m'_def)
  have m': "1 \<le> m'" "m' \<le> 12" using pos_mod_bound [of 12 idx] pos_mod_sign [of 12 idx] unfolding m'_def by linarith+
  have "idx \<le> 9999 * 12 + 11" using assms(1,2) by (auto simp: idx_def valid_date_def)
  moreover have "12 \<le> idx" using assms(3) by (simp add: idx_def)
  ultimately have y': "1 \<le> y'" "y' \<le> 9999" using sum m' by linarith+
  have d': "1 \<le> d'" "d' \<le> days_in_month y' m'" using assms(1) days_in_month_bounds [of y' m'] by (auto simp: d'_def valid_date_def)
  have v: "valid_date (y', m', d')" using m' y' d' by (simp add: valid_date_def)
  have "subtract_calendar_months (y, m, d) months = Inr (y', m', d')"
    using v by (simp add: subtract_calendar_months_def Let_def idx_def [symmetric] y'_def [symmetric] m'_def [symmetric] d'_def [symmetric])
  moreover have "y' * 12 + m' = y * 12 + m - months" using sum by (simp add: idx_def)
  moreover have "d' = d \<or> d' < d \<and> d' = days_in_month y' m'" by (auto simp: d'_def min_def)
  ultimately show ?thesis using v by blast
qed

subsection \<open>Countries\<close>

lemma resolve_package_country_cases:
  assumes "''EU'' \<notin> set eu"
  shows "\<exists>c. wf_code c \<and> (resolve_package_country v eu = (if c \<in> set eu then ''EU'' else c, Some c) \<or> c = ''ZZ'' \<and> resolve_package_country v eu = (c, None))"
proof (cases "normalize_observed_country_code (Some (py_str (py_or v (SText []))))")
  case None
  have "wf_code ''ZZ''" by code_simp
  then show ?thesis using None by (intro exI [of _ "''ZZ''"]) (simp add: resolve_package_country_def normalize_source_country_or_unknown_def)
next
  case (Some c)
  have wf: "wf_code c" by (rule normalize_observed_wf [OF Some])
  then have "c \<noteq> []" by (auto simp: wf_code_def)
  then have "resolve_package_country v eu = (if c \<in> set eu then ''EU'' else c, Some c)"
    using Some wf assms by (auto simp: resolve_package_country_def apply_eu_mapping_def normalize_observed_fixed str_or_def Let_def)
  then show ?thesis using wf by blast
qed

subsection \<open>The tables\<close>

definition orders_ok :: "order_tables \<Rightarrow> bool" where
  "orders_ok t \<longleftrightarrow> distinct (map oh_id (ot_headers t)) \<and> distinct (map header_key (ot_headers t))
     \<and> (\<forall>h \<in> set (ot_headers t). oh_id h < ot_next_id t)
     \<and> distinct (map order_item_key (ot_items t)) \<and> oi_order_id ` set (ot_items t) \<subseteq> oh_id ` set (ot_headers t)"

text \<open>The columns a manual edit protects, with the edit itself.\<close>

definition protected_columns where
  "protected_columns h = (oh_order_platform h, oh_shop_name h, oh_postal_code h, oh_marketplace_id h, oh_country_code h,
     oh_original_country_code h, oh_purchase_date h, oh_last_update_date h,
     oh_manual_edit_locked h, oh_manual_edited_at h, oh_manual_edited_by h, oh_manual_edit_fields h)"

definition order_kept :: "order_header \<Rightarrow> order_header \<Rightarrow> bool" where
  "order_kept h h' \<longleftrightarrow> oh_id h' = oh_id h \<and> header_key h' = header_key h
     \<and> oh_manual_edit_locked h' = oh_manual_edit_locked h \<and> (oh_manual_edit_locked h \<longrightarrow> protected_columns h' = protected_columns h)"

lemma order_kept_refl: "order_kept h h"
  by (simp add: order_kept_def)

lemma order_kept_trans: "order_kept a b \<Longrightarrow> order_kept b c \<Longrightarrow> order_kept a c"
  by (simp add: order_kept_def)

lemma order_kept_set: "order_kept h (set_header v h)"
  by (simp add: order_kept_def) (simp add: set_header_def protected_columns_def Let_def)

lemma store_items_keys:
  assumes "distinct (map order_item_key rows)"
  shows "distinct (map order_item_key (store_items i vs rows))"
    and "oi_order_id ` set (store_items i vs rows) \<subseteq> insert i (oi_order_id ` set rows)"
proof -
  define all where "all = foldl (\<lambda>rows v. store_row order_item_key order_item_key (\<lambda>v. v) set_order_item v rows) rows (map (order_item_of i) vs)"
  have "distinct (map order_item_key all)" unfolding all_def by (rule oi.distinct_stores [OF assms])
  then show "distinct (map order_item_key (store_items i vs rows))"
    using assms unfolding store_items_def all_def [symmetric] by (simp add: distinct_map_filter)
  have "order_item_key ` set all \<subseteq> order_item_key ` set rows \<union> {i} \<times> UNIV"
    unfolding all_def oi.keys_stores by (auto simp: order_item_key_def order_item_of_def)
  then have "fst ` order_item_key ` set all \<subseteq> insert i (fst ` order_item_key ` set rows)" by auto
  then have "oi_order_id ` set all \<subseteq> insert i (oi_order_id ` set rows)" by (simp add: image_image order_item_key_def)
  then show "oi_order_id ` set (store_items i vs rows) \<subseteq> insert i (oi_order_id ` set rows)"
    unfolding store_items_def all_def [symmetric] by auto
qed

lemma header_found: "list_ex (\<lambda>h. header_key h = k) hs \<longleftrightarrow> find_by header_key k hs \<noteq> None"
  by (auto simp: find_by_None list_ex_iff)

lemma store_order_headers:
  "ot_headers (store_order v t) =
     (if find_by header_key (hv_key v) (ot_headers t) = None then ot_headers t @ [new_header (ot_next_id t) v]
      else map (\<lambda>h. if header_key h = hv_key v then set_header v h else h) (ot_headers t))"
  by (simp add: store_order_def store_row_def upsert_def header_found)

lemma store_order_ids:
  "oh_id ` set (ot_headers (store_order v t)) = insert (order_id_of v t) (oh_id ` set (ot_headers t))"
proof (cases "find_by header_key (hv_key v) (ot_headers t)")
  case None
  then show ?thesis by (auto simp: store_order_headers order_id_of_def)
next
  case (Some h)
  then have "h \<in> set (ot_headers t)" by (auto dest: find_by_Some)
  moreover have "map oh_id (ot_headers (store_order v t)) = map oh_id (ot_headers t)"
    using Some by (simp add: store_order_headers)
  then have "oh_id ` set (ot_headers (store_order v t)) = oh_id ` set (ot_headers t)" by (metis set_map)
  ultimately show ?thesis using Some by (auto simp: order_id_of_def)
qed

lemma store_order_ok:
  assumes ok: "orders_ok t"
  shows "orders_ok (store_order v t)"
proof -
  have keys: "distinct (map header_key (ot_headers (store_order v t)))"
    using ok oh.distinct_store by (simp add: orders_ok_def store_order_def)
  have ids: "distinct (map oh_id (ot_headers (store_order v t)))"
    using ok by (auto simp: store_order_headers orders_ok_def comp_def if_distrib [of oh_id] cong: if_cong)
  have bound: "\<forall>h \<in> set (ot_headers (store_order v t)). oh_id h < ot_next_id (store_order v t)"
  proof (cases "find_by header_key (hv_key v) (ot_headers t)")
    case None
    then show ?thesis using ok by (auto simp: store_order_headers orders_ok_def) (auto simp: store_order_def)
  next
    case (Some h)
    then show ?thesis using ok by (auto simp: store_order_headers orders_ok_def) (auto simp: store_order_def)
  qed
  have old: "distinct (map order_item_key (ot_items t))" using ok by (simp add: orders_ok_def)
  have "oi_order_id ` set (ot_items (store_order v t)) \<subseteq> insert (order_id_of v t) (oi_order_id ` set (ot_items t))"
    using store_items_keys(2) [OF old] by (simp add: store_order_def)
  also have "\<dots> \<subseteq> oh_id ` set (ot_headers (store_order v t))" using ok unfolding store_order_ids by (auto simp: orders_ok_def)
  finally show ?thesis
    using keys ids bound store_items_keys(1) [OF old] unfolding orders_ok_def by (simp add: store_order_def)
qed

lemma store_order_kept: "h \<in> set (ot_headers t) \<Longrightarrow> \<exists>h' \<in> set (ot_headers (store_order v t)). order_kept h h'"
proof (cases "find_by header_key (hv_key v) (ot_headers t) = None")
  case True
  assume "h \<in> set (ot_headers t)"
  then have "h \<in> set (ot_headers (store_order v t))" using True by (simp add: store_order_headers)
  then show ?thesis using order_kept_refl by blast
next
  case False
  assume h: "h \<in> set (ot_headers t)"
  define f where "f = (\<lambda>h. if header_key h = hv_key v then set_header v h else h)"
  have "ot_headers (store_order v t) = map f (ot_headers t)" using False by (simp only: store_order_headers f_def if_False)
  then have "f h \<in> set (ot_headers (store_order v t))" using h by simp
  moreover have "order_kept h (f h)" by (simp add: f_def order_kept_set order_kept_refl)
  ultimately show ?thesis by blast
qed

subsection \<open>Orders as a map\<close>

text \<open>
  The abstract state: the header and the set of items of every natural key, and the next
  identifier. Writing an order is one update of the map.
\<close>

type_synonym order_map = "header_key \<Rightarrow> (order_header \<times> order_item set) option"

definition items_of :: "int \<Rightarrow> order_item list \<Rightarrow> order_item set" where
  "items_of i rows = {r \<in> set rows. oi_order_id r = i}"

definition order_view :: "order_tables \<Rightarrow> order_map" where
  "order_view t k = map_option (\<lambda>h. (h, items_of (oh_id h) (ot_items t))) (find_by header_key k (ot_headers t))"

definition abs_orders :: "order_tables \<Rightarrow> order_map \<times> int" where
  "abs_orders t = (order_view t, ot_next_id t)"

definition abs_store :: "header_values \<Rightarrow> order_map \<times> int \<Rightarrow> order_map \<times> int" where
  "abs_store v a =
     (case fst a (hv_key v) of
        None \<Rightarrow> ((fst a)(hv_key v \<mapsto> (new_header (snd a) v, order_item_of (snd a) ` set (hv_items v))), snd a + 1)
      | Some (h, items) \<Rightarrow>
          ((fst a)(hv_key v \<mapsto> (set_header v h, if hv_items v = [] then items else order_item_of (oh_id h) ` set (hv_items v))), snd a))"

lemma store_row_other:
  assumes "oi_order_id v \<noteq> j"
  shows "items_of j (store_row order_item_key order_item_key (\<lambda>v. v) set_order_item v rows) = items_of j rows"
  using assms by (auto simp: items_of_def store_row_def upsert_def order_item_key_def set_order_item_def image_iff split: if_splits)

lemma store_rows_other:
  "j \<noteq> i \<Longrightarrow> items_of j (foldl (\<lambda>rows v. store_row order_item_key order_item_key (\<lambda>v. v) set_order_item v rows) rows (map (order_item_of i) vs)) = items_of j rows"
  by (induction vs arbitrary: rows) (simp_all add: store_row_other order_item_of_def)

lemma store_items_other: "j \<noteq> i \<Longrightarrow> items_of j (store_items i vs rows) = items_of j rows"
  using store_rows_other [of j i rows vs] by (auto simp: store_items_def items_of_def)

lemma store_items_own:
  assumes rows: "distinct (map order_item_key rows)" and vs: "distinct (map iv_order_item_id vs)" "vs \<noteq> []"
  shows "items_of i (store_items i vs rows) = order_item_of i ` set vs"
proof -
  define all where "all = foldl (\<lambda>rows v. store_row order_item_key order_item_key (\<lambda>v. v) set_order_item v rows) rows (map (order_item_of i) vs)"
  have key: "order_item_key (order_item_of i v) = (i, iv_order_item_id v)" for v by (simp add: order_item_key_def order_item_of_def)
  have uniq: "u = v" if "u \<in> set vs" "v \<in> set vs" "iv_order_item_id u = iv_order_item_id v" for u v
    using vs(1) that by (auto simp: distinct_map inj_on_def)
  have found: "find_by order_item_key (i, iv_order_item_id v) all = Some (order_item_of i v)" if v: "v \<in> set vs" for v
  proof -
    obtain x where x: "last_value order_item_key (i, iv_order_item_id v) (map (order_item_of i) vs) = Some x"
      using v last_value_None [of order_item_key "(i, iv_order_item_id v)" "map (order_item_of i) vs"] by (force simp: key)
    then obtain u where "u \<in> set vs" "x = order_item_of i u" "iv_order_item_id u = iv_order_item_id v"
      by (auto dest!: last_value_in simp: key)
    moreover have "u = v" by (rule uniq [OF \<open>u \<in> set vs\<close> v]) fact
    ultimately have "x = order_item_of i v" by simp
    moreover have "set_order_item (order_item_of i v) r = order_item_of i v" if "order_item_key r = (i, iv_order_item_id v)" for r
      using that by (simp add: set_order_item_def order_item_of_def order_item_key_def)
    ultimately show ?thesis
      unfolding all_def oi.find_stores x by (auto split: option.splits dest!: find_by_Some)
  qed
  have dist: "distinct (map order_item_key all)" unfolding all_def by (rule oi.distinct_stores [OF rows])
  have "items_of i (store_items i vs rows) = {r \<in> set all. oi_order_id r = i \<and> oi_order_item_id r \<in> iv_order_item_id ` set vs}"
    using vs(2) unfolding store_items_def all_def [symmetric] items_of_def by auto
  also have "\<dots> = order_item_of i ` set vs"
  proof (intro set_eqI iffI)
    fix r
    assume "r \<in> {r \<in> set all. oi_order_id r = i \<and> oi_order_item_id r \<in> iv_order_item_id ` set vs}"
    then obtain v where r: "r \<in> set all" "order_item_key r = (i, iv_order_item_id v)" "v \<in> set vs" by (auto simp: order_item_key_def)
    then have "r = order_item_of i v" using found [OF r(3)] find_by_unique [OF dist r(1)] by simp
    then show "r \<in> order_item_of i ` set vs" using r(3) by blast
  next
    fix r
    assume "r \<in> order_item_of i ` set vs"
    then obtain v where "v \<in> set vs" "r = order_item_of i v" by blast
    then show "r \<in> {r \<in> set all. oi_order_id r = i \<and> oi_order_item_id r \<in> iv_order_item_id ` set vs}"
      using find_by_Some [OF found [of v]] by (auto simp: order_item_of_def)
  qed
  finally show ?thesis .
qed

lemma items_of_fresh: "orders_ok t \<Longrightarrow> items_of (ot_next_id t) (ot_items t) = {}"
  by (force simp: orders_ok_def items_of_def)

lemma store_order_refines:
  assumes ok: "orders_ok t" and vs: "distinct (map iv_order_item_id (hv_items v))"
  shows "abs_orders (store_order v t) = abs_store v (abs_orders t)"
proof -
  define i where "i = order_id_of v t"
  have rows: "distinct (map order_item_key (ot_items t))" using ok by (simp add: orders_ok_def)
  have own: "items_of i (ot_items (store_order v t)) = (if hv_items v = [] then items_of i (ot_items t) else order_item_of i ` set (hv_items v))"
    using store_items_own [OF rows vs] by (auto simp: store_order_def i_def store_items_def)
  have other: "items_of j (ot_items (store_order v t)) = items_of j (ot_items t)" if "j \<noteq> i" for j
    using store_items_other [OF that] by (simp add: store_order_def i_def)
  have find: "find_by header_key k (ot_headers (store_order v t)) =
      (if k = hv_key v then Some (case find_by header_key k (ot_headers t) of None \<Rightarrow> new_header (ot_next_id t) v | Some h \<Rightarrow> set_header v h)
       else find_by header_key k (ot_headers t))" for k
    by (simp add: store_order_def oh.find_store)
  have apart: "oh_id h \<noteq> i" if "find_by header_key k (ot_headers t) = Some h" "k \<noteq> hv_key v" for k h
  proof
    assume eq: "oh_id h = i"
    have h: "h \<in> set (ot_headers t)" "header_key h = k" using that(1) by (auto dest: find_by_Some)
    show False
    proof (cases "find_by header_key (hv_key v) (ot_headers t)")
      case None
      then show ?thesis using ok h eq by (auto simp: i_def order_id_of_def orders_ok_def)
    next
      case (Some g)
      then have "g \<in> set (ot_headers t)" "header_key g = hv_key v" "oh_id g = oh_id h"
        using eq by (auto simp: i_def order_id_of_def dest: find_by_Some)
      then show ?thesis using ok h that(2) by (auto simp: orders_ok_def distinct_map inj_on_def)
    qed
  qed
  have rest: "order_view (store_order v t) k = order_view t k" if "k \<noteq> hv_key v" for k
    using that apart [of k] other by (cases "find_by header_key k (ot_headers t)") (auto simp: order_view_def find)
  have next_id: "ot_next_id (store_order v t) = (case find_by header_key (hv_key v) (ot_headers t) of Some h \<Rightarrow> ot_next_id t | None \<Rightarrow> ot_next_id t + 1)"
    by (simp add: store_order_def)
  have here: "order_view (store_order v t) (hv_key v) = fst (abs_store v (abs_orders t)) (hv_key v)"
  proof (cases "find_by header_key (hv_key v) (ot_headers t)")
    case None
    then show ?thesis using own items_of_fresh [OF ok] by (auto simp: order_view_def find abs_store_def abs_orders_def i_def order_id_of_def)
  next
    case (Some h)
    then show ?thesis using own by (auto simp: order_view_def find abs_store_def abs_orders_def i_def order_id_of_def)
  qed
  have "order_view (store_order v t) = fst (abs_store v (abs_orders t))"
  proof
    fix k
    show "order_view (store_order v t) k = fst (abs_store v (abs_orders t)) k"
      using here rest [of k] by (cases "k = hv_key v") (auto simp: abs_store_def abs_orders_def split: option.splits)
  qed
  moreover have "ot_next_id (store_order v t) = snd (abs_store v (abs_orders t))"
    by (auto simp: next_id abs_store_def abs_orders_def order_view_def split: option.splits)
  ultimately show ?thesis by (simp add: abs_orders_def [of "store_order v t"])
qed

definition orders_from :: "order_header list \<Rightarrow> order_tables \<Rightarrow> bool" where
  "orders_from old t \<longleftrightarrow> orders_ok t \<and> (\<forall>h \<in> set old. \<exists>h' \<in> set (ot_headers t). order_kept h h')"

lemma orders_from_store:
  assumes "orders_from old t"
  shows "orders_from old (store_order v t)"
proof -
  have "\<exists>h' \<in> set (ot_headers (store_order v t)). order_kept h h'" if h: "h \<in> set old" for h
  proof -
    obtain g where "g \<in> set (ot_headers t)" "order_kept h g" using assms h by (auto simp: orders_from_def)
    moreover obtain h' where "h' \<in> set (ot_headers (store_order v t))" "order_kept g h'"
      using store_order_kept [OF calculation(1)] by blast
    ultimately show ?thesis using order_kept_trans by blast
  qed
  then show ?thesis using assms store_order_ok unfolding orders_from_def by blast
qed

lemma orders_from_stores: "orders_from old t \<Longrightarrow> orders_from old (foldl (\<lambda>t v. store_order v t) t vs)"
proof (induction vs arbitrary: t)
  case (Cons v vs)
  show ?case unfolding foldl.simps by (rule Cons.IH [OF orders_from_store [OF Cons.prems]])
qed simp

lemma orders_from_package:
  "orders_from old t \<Longrightarrow> upsert_package_ship_order lib eu t raw = Inr t' \<Longrightarrow> orders_from old t'"
  by (auto simp: upsert_package_ship_order_def bind_res_Inr_iff intro: orders_from_stores)

lemma orders_from_stream:
  assumes "orders_ok t"
  shows "orders_from (ot_headers t) (fst (consume_stream b (upsert_package_ship_order lib eu) str t))"
proof -
  have "orders_from (ot_headers t) t" using assms order_kept_refl by (auto simp: orders_from_def)
  then show ?thesis
    by (rule consume_stream_within) (rule orders_from_package)
qed

lemma orders_ok_cleanup:
  assumes "orders_ok (order_tables_of w)"
  shows "orders_ok (order_tables_of (cleanup_legacy_orders w))"
  using assms by (force simp: orders_ok_def order_tables_of_def cleanup_legacy_orders_def Let_def distinct_map_filter)

lemma order_tables_put [simp]: "order_tables_of (put_order_tables t w) = t" "order_tables_of (w\<lparr>sw_states := x\<rparr>) = order_tables_of w"
  by (simp_all add: order_tables_of_def put_order_tables_def)

lemma order_job_tables:
  assumes run: "sync_order_list_job lib api started message w = (w', e)"
  defines "w1 \<equiv> w\<lparr>sw_states := mark_sync_running ''sync_order_list'' started (sw_states w)\<rparr>"
  defines "w2 \<equiv> cleanup_legacy_orders w1"
  shows "order_tables_of w' = order_tables_of w \<or> order_tables_of w' = order_tables_of w2
    \<or> (\<exists>eu str. order_tables_of w' = fst (consume_stream 200 (upsert_package_ship_order lib eu) str (order_tables_of w2)))"
proof (cases "compute_window started")
  case (Inl x)
  then show ?thesis using run by (auto simp: sync_order_list_job_def Let_def)
next
  case (Inr window)
  note window = this
  show ?thesis
  proof (cases "world_eu_countries w1")
    case (Inl x)
    then have "w' = w1" using run window unfolding sync_order_list_job_def w1_def [symmetric] Let_def by simp
    then show ?thesis by (simp add: w1_def)
  next
    case (Inr eu)
    define str where "str = api window (resolve_shop_ids w1)"
    obtain t x where cs: "consume_stream 200 (upsert_package_ship_order lib eu) str (order_tables_of w2) = (t, x)" by (metis surj_pair)
    have "order_tables_of w' = order_tables_of w2 \<or> order_tables_of w' = t"
      using run window Inr cs unfolding sync_order_list_job_def w1_def [symmetric] w2_def [symmetric] Let_def
      by (cases x) (auto simp: str_def split: if_splits)
    then show ?thesis using cs by (metis fst_conv)
  qed
qed

text \<open>A package that is accepted names no item of an order twice.\<close>

lemma map_res_mem: "map_res f xs = Inr ys \<Longrightarrow> y \<in> set ys \<Longrightarrow> \<exists>x \<in> set xs. f x = Inr y"
  by (induction xs arbitrary: ys) (auto simp: bind_res_Inr_iff)

lemma parse_order_items_distinct: "parse_order_items sn k xs = Inr items \<Longrightarrow> distinct (map iv_order_item_id items)"
  by (auto simp: parse_order_items_def bind_res_Inr_iff check_row_def Let_def split: if_splits)

lemma parse_order_items_of:
  assumes "parse_order lib raw common items_by_order entry = Inr (Some v)"
  shows "distinct (map iv_order_item_id (hv_items v))"
proof -
  obtain k meta where entry: "entry = (k, meta)" by (cases entry)
  obtain purchase where p: "(case purchase of None \<Rightarrow> return None | Some purchase_date \<Rightarrow>
      bind_res (parse_order_date lib (py_or (get_field meta ''lastUpdateDate'') (first_of raw [''updateTime'', ''lastUpdateDate'']))
        (py_or (get_field raw ''updateTime'') (py_or (get_field raw ''lastUpdateDate'') (get_field meta ''purchaseDate''))) (hv_marketplace_id common)) (\<lambda>updated.
      bind_res (parse_order_items (hv_package_sn common) k (dict_get_or items_by_order k [])) (\<lambda>items.
        let v = common\<lparr>hv_amazon_order_id := k, hv_purchase_date := purchase_date,
                  hv_last_update_date := (case updated of Some t \<Rightarrow> t | None \<Rightarrow> purchase_date), hv_items := items\<rparr>
        in check_row (header_fits raw meta v) (Some v)))) = Inr (Some v)"
    using assms unfolding parse_order_def entry Let_def prod.case bind_res_Inr_iff by blast
  then show ?thesis
    by (cases purchase) (auto simp: bind_res_Inr_iff check_row_def Let_def parse_order_items_distinct split: if_splits)
qed

lemma parse_package_items:
  assumes "parse_package lib eu raw = Inr vs"
  shows "\<forall>v \<in> set vs. distinct (map iv_order_item_id (hv_items v))"
proof
  fix v
  assume v: "v \<in> set vs"
  obtain entries common x groups rs where "map_res (parse_order lib x common groups) entries = Inr rs" "Some v \<in> set rs"
    using assms v by (auto simp: parse_package_def Let_def bind_res_Inr_iff split: if_splits)
  then obtain entry where "parse_order lib x common groups entry = Inr (Some v)" by (auto dest: map_res_mem)
  then show "distinct (map iv_order_item_id (hv_items v))" by (rule parse_order_items_of)
qed

section \<open>Theorems\<close>

text \<open>
  C20: whatever Saihu delivers and however the job ends, the synchronisation of the orders keeps the
  order tables consistent (identifiers and natural keys are unique, items are unique within an
  order and belong to an order), it drops no order of the package source, and an order that was
  edited by hand keeps every protected column and the record of the edit.
\<close>

theorem order_sync_keeps_manual_edits:
  assumes run: "sync_order_list_job lib api started message w = (w', e)" and ok: "orders_ok (order_tables_of w)"
  shows "orders_ok (order_tables_of w')
    \<and> (\<forall>h \<in> set (t_order_header (sw_db w)). oh_source h = ORDER_SOURCE_PACKAGE \<longrightarrow>
         (\<exists>h' \<in> set (t_order_header (sw_db w')). oh_id h' = oh_id h \<and> header_key h' = header_key h
            \<and> (oh_manual_edit_locked h \<longrightarrow> protected_columns h' = protected_columns h)))"
proof -
  define w1 where "w1 = w\<lparr>sw_states := mark_sync_running ''sync_order_list'' started (sw_states w)\<rparr>"
  define w2 where "w2 = cleanup_legacy_orders w1"
  have ok2: "orders_ok (order_tables_of w2)" unfolding w2_def w1_def by (rule orders_ok_cleanup) (simp add: ok)
  have pkg: "ORDER_SOURCE_PACKAGE \<notin> set LEGACY_ORDER_SOURCES" by code_simp
  have kept2: "h \<in> set (ot_headers (order_tables_of w2))" if "h \<in> set (t_order_header (sw_db w))" "oh_source h = ORDER_SOURCE_PACKAGE" for h
    using that pkg by (simp add: w2_def w1_def order_tables_of_def cleanup_legacy_orders_def Let_def)
  have from_w: "orders_from (ot_headers (order_tables_of w)) (order_tables_of w)"
    using ok order_kept_refl by (auto simp: orders_from_def)
  have from2: "orders_from (ot_headers (order_tables_of w2)) (order_tables_of w2)"
    using ok2 order_kept_refl by (auto simp: orders_from_def)
  have goal: ?thesis if "orders_from hs (order_tables_of w')"
    and "\<forall>h \<in> set (t_order_header (sw_db w)). oh_source h = ORDER_SOURCE_PACKAGE \<longrightarrow> h \<in> set hs" for hs
    using that by (auto simp: orders_from_def order_kept_def order_tables_of_def)
  show ?thesis
  proof (cases "order_tables_of w' = order_tables_of w")
    case True
    show ?thesis by (rule goal [of "ot_headers (order_tables_of w)"]) (simp_all add: True from_w, simp add: order_tables_of_def)
  next
    case False
    have "order_tables_of w' = order_tables_of w2
        \<or> (\<exists>eu str. order_tables_of w' = fst (consume_stream 200 (upsert_package_ship_order lib eu) str (order_tables_of w2)))"
      using order_job_tables [OF run] False unfolding w2_def w1_def by blast
    then have "orders_from (ot_headers (order_tables_of w2)) (order_tables_of w')"
      using from2 orders_from_stream [OF ok2] by auto
    then show ?thesis using goal kept2 by blast
  qed
qed

text \<open>
  C21: writing a package refines a map from natural keys to orders. Each delivered order in turn
  either enters the map under a fresh identifier with its items, or updates the order that has its
  key, whose items become exactly the delivered ones (they stay when none were delivered); no other
  order and no item of another order changes.
\<close>

theorem package_refines_order_map:
  assumes ok: "orders_ok t" and up: "upsert_package_ship_order lib eu t raw = Inr t'"
  shows "\<exists>vs. parse_package lib eu raw = Inr vs \<and> orders_ok t' \<and> abs_orders t' = foldl (\<lambda>a v. abs_store v a) (abs_orders t) vs"
proof -
  obtain vs where vs: "parse_package lib eu raw = Inr vs" and t': "t' = foldl (\<lambda>t v. store_order v t) t vs"
    using up by (auto simp: upsert_package_ship_order_def bind_res_Inr_iff)
  have items: "\<forall>v \<in> set vs. distinct (map iv_order_item_id (hv_items v))" using parse_package_items [OF vs] .
  have "orders_ok (foldl (\<lambda>t v. store_order v t) t vs)
    \<and> abs_orders (foldl (\<lambda>t v. store_order v t) t vs) = foldl (\<lambda>a v. abs_store v a) (abs_orders t) vs"
    using items ok
  proof (induction vs arbitrary: t)
    case (Cons v vs)
    then show ?case using store_order_ok [OF Cons.prems(2), of v] store_order_refines [OF Cons.prems(2), of v] by simp
  qed simp
  then show ?thesis using vs t' by blast
qed

section \<open>Witnesses and behaviour at the edges\<close>

definition demo_lib :: time_library where
  "demo_lib = \<lparr>tl_parse = \<lambda>_. return (Aware 5), tl_localize = \<lambda>_ t. t\<rparr>"

definition demo_package :: "(string \<times> json_field) list \<Rightarrow> payload" where
  "demo_package extra = [(''shopId'', Scalar (SText ''S'')), (''packageSn'', Scalar (SText ''P'')), (''amazonOrderId'', Scalar (SText ''O'')),
     (''marketplace'', Scalar (SText ''DE'')), (''purchaseDate'', Scalar (SText ''2026-01-05''))] @ extra"

text \<open>An order of the package that was moved to France by hand.\<close>

definition demo_edited :: order_header where
  "demo_edited = (new_header 1 (package_common [] (demo_package [])))
     \<lparr>oh_amazon_order_id := ''O'', oh_country_code := ''FR'', oh_manual_edit_locked := True, oh_manual_edit_fields := [''country_code'']\<rparr>"

definition demo_order_world :: order_world where
  "demo_order_world =
     \<lparr>sw_db = \<lparr>t_order_header = [demo_edited], t_order_item = [], t_warehouse = [], t_inventory_snapshot_latest = [],
        t_third_party_warehouse = [], t_third_party_inventory_current = [], t_in_transit_record = [], t_in_transit_item = [],
        t_sku_mapping_rule = [], t_sku_mapping_component = [], t_physical_item_group = [], t_physical_item_sku_alias = [],
        t_sku_config = [], t_zipcode_rule = [], t_global_config = None\<rparr>,
      sw_shops = [], sw_states = [], ow_next_order_id = 2, ow_order_details = [], ow_detail_fetch_logs = []\<rparr>"

theorem order_sync_keeps_manual_edits_witness:
  "let (w', e) = sync_order_list_job demo_lib (\<lambda>window shops. ([demo_package []], None)) 1767600000000000 (\<lambda>_. []) demo_order_world
   in \<exists>h' \<in> set (t_order_header (sw_db w')). oh_id h' = 1 \<and> oh_country_code h' = ''FR''"
proof -
  obtain w' e where run: "sync_order_list_job demo_lib (\<lambda>window shops. ([demo_package []], None)) 1767600000000000 (\<lambda>_. []) demo_order_world = (w', e)"
    by (metis surj_pair)
  have "orders_ok (order_tables_of demo_order_world)"
    by (simp add: orders_ok_def order_tables_of_def demo_order_world_def demo_edited_def new_header_def)
  note kept = order_sync_keeps_manual_edits [OF run this, THEN conjunct2]
  have "\<exists>h' \<in> set (t_order_header (sw_db w')). oh_id h' = oh_id demo_edited \<and> header_key h' = header_key demo_edited
      \<and> (oh_manual_edit_locked demo_edited \<longrightarrow> protected_columns h' = protected_columns demo_edited)"
    using kept by (simp add: demo_order_world_def) (simp add: demo_edited_def new_header_def)
  moreover have "oh_manual_edit_locked demo_edited" "oh_id demo_edited = 1" "oh_country_code demo_edited = ''FR''"
    by (simp_all add: demo_edited_def new_header_def)
  ultimately show ?thesis using run by (auto simp: protected_columns_def)
qed

definition no_orders :: order_tables where
  "no_orders = \<lparr>ot_headers = [], ot_items = [], ot_next_id = 1\<rparr>"

theorem package_refines_order_map_witness:
  "\<exists>t' vs. upsert_package_ship_order demo_lib [''DE''] no_orders (demo_package []) = Inr t' \<and> length vs = 1
     \<and> abs_orders t' = foldl (\<lambda>a v. abs_store v a) (abs_orders no_orders) vs"
proof -
  have ok: "orders_ok no_orders" by (simp add: orders_ok_def no_orders_def)
  have "\<not> isl (upsert_package_ship_order demo_lib [''DE''] no_orders (demo_package []))" by code_simp
  then obtain t' where up: "upsert_package_ship_order demo_lib [''DE''] no_orders (demo_package []) = Inr t'"
    by (cases "upsert_package_ship_order demo_lib [''DE''] no_orders (demo_package [])") auto
  obtain vs where vs: "parse_package demo_lib [''DE''] (demo_package []) = Inr vs"
    "abs_orders t' = foldl (\<lambda>a v. abs_store v a) (abs_orders no_orders) vs"
    using package_refines_order_map [OF ok up] by blast
  have "map_sum id length (parse_package demo_lib [''DE''] (demo_package [])) = Inr 1" by code_simp
  then have "length vs = 1" using vs(1) by simp
  then show ?thesis using up vs(2) by blast
qed

text \<open>
  The long marketplace identifiers that \<^verbatim>\<open>core/timezone.py\<close> lists do not fit into the column they are
  stored in: such a package ends the whole synchronisation with a database error.
\<close>

theorem long_marketplace_id_aborts:
  "upsert_package_ship_order demo_lib [] no_orders (demo_package [(''marketplaceId'', Scalar (SText ''ATVPDKIKX0DER''))]) = raise DatabaseError"
  by code_simp

text \<open>Two items of an order with the same identifier end it too: one statement may not update a row twice.\<close>

theorem duplicate_item_id_aborts:
  "upsert_package_ship_order demo_lib [] no_orders
     (demo_package [(''items'', Array [Some [(''orderItemId'', SText ''1''), (''sellerSku'', SText ''A'')],
                                      Some [(''orderItemId'', SText ''1''), (''sellerSku'', SText ''B'')]])]) = raise DatabaseError"
  by code_simp

text \<open>
  Times are meant to be read in the zone of the order's marketplace. When the package names no
  marketplace identifier, the merged country takes its place, and for a member country that is
  \<^verbatim>\<open>EU\<close>, which has no zone: the time is read in Beijing's zone.
\<close>

theorem merged_order_read_in_beijing:
  "hv_marketplace_id (package_common [''DE''] (demo_package [])) = ''EU''
   \<and> country_to_tz (marketplace_to_country (Some ''EU'')) = BEIJING
   \<and> country_to_tz (marketplace_to_country (Some ''DE'')) = ''Europe/Berlin''"
  by (intro conjI) code_simp+

text \<open>
  The zone an order is shown in is meant to come from its marketplace, which is more precise than a
  merged country; the EU backfill writes the merged country over the marketplace as well.
\<close>

theorem backfill_loses_display_zone:
  assumes "oh_country_code h = ''EU''" and "oh_original_country_code h = Some ''DE''" and "oh_marketplace_id h = ''DE''"
  shows "order_display_timezone (Some (oh_marketplace_id h)) (Some (oh_country_code h)) = ''Europe/Berlin''
    \<and> order_display_timezone (Some (oh_marketplace_id (backfill_order [''DE''] h))) (Some (oh_country_code (backfill_order [''DE''] h))) = BEIJING"
proof -
  have "fst (backfill_row [''DE''] \<lparr>g_country = Some ''EU'', g_original = Some ''DE'', g_extra = [Some ''DE'']\<rparr>)
    = \<lparr>g_country = Some ''EU'', g_original = Some ''DE'', g_extra = [Some ''EU'']\<rparr>" by code_simp
  moreover have "order_display_timezone (Some ''DE'') (Some ''EU'') = ''Europe/Berlin''" "order_display_timezone (Some ''EU'') (Some ''EU'') = BEIJING"
    by code_simp+
  ultimately show ?thesis using assms by (simp add: backfill_order_def Let_def)
qed

end
