(* ===== verification/Sync_All.thy ===== *)
theory Sync_All
  imports Sync_Stock Sync_Orders Sync_Locks
begin

text \<open>
  \<^verbatim>\<open>sync/product_listing.py\<close>, the synchronisation of the commodity master and the online
  listings, and \<^verbatim>\<open>sync/all.py\<close>, which runs the six jobs one after the other. Columns that
  nothing in the model reads are checked but not kept.
\<close>

section \<open>Definitions\<close>

subsection \<open>sync/product\_listing.py\<close>

record listing_row =
  lr_shop_id :: string
  lr_marketplace_id :: string
  lr_original_marketplace_id :: "string option"
  lr_seller_sku :: string
  lr_is_matched :: bool
  lr_online_status :: string
  lr_listing :: product_listing

record full_world = order_world +
  fw_commodities :: "commodity_master list"
  fw_listings :: "listing_row list"

text \<open>The columns of \<^verbatim>\<open>product_listing\<close> that allow null, as the schema reports them.\<close>

definition ensure_product_listing_schema_compatible :: "(string, bool) dict \<Rightarrow> unit res" where
  "ensure_product_listing_schema_compatible nullable_map =
     (if \<exists>column \<in> {''commodity_sku'', ''commodity_id''}. dict_get nullable_map column \<noteq> Some True then raise ValidationFailed else return ())"

definition normalize_online_status :: "scalar \<Rightarrow> string" where
  "normalize_online_status status = (case optional_text status of None \<Rightarrow> ''active'' | Some v \<Rightarrow> map lower_char v)"

definition infer_is_matched :: "obj \<Rightarrow> bool" where
  "infer_is_matched raw \<longleftrightarrow> optional_text (get_field raw ''commodityId'') \<noteq> None \<and> optional_text (get_field raw ''commoditySku'') \<noteq> None"

definition commodity_image_url :: "obj \<Rightarrow> string option" where
  "commodity_image_url raw =
     (case optional_text (get_field raw ''imgUrl'') of
        Some u \<Rightarrow> Some u
      | None \<Rightarrow> (case optional_text (get_field raw ''imageUrl'') of
                   Some u \<Rightarrow> Some u
                 | None \<Rightarrow> optional_text (get_field raw ''mainImage'')))"

definition listing_to_int :: "scalar \<Rightarrow> int option res" where
  "listing_to_int = convert_int scalar_int None None"

definition parse_commodity :: "payload \<Rightarrow> commodity_master option res" where
  "parse_commodity payload =
     (let raw = scalar_fields payload
      in case optional_text (get_field raw ''sku'') of
           None \<Rightarrow> return None
         | Some sku \<Rightarrow>
             bind_res (listing_to_int (get_field raw ''purchaseDays'')) (\<lambda>purchase_days.
               check_row (fits_text 100 (Some sku) \<and> fits_text 50 (optional_text (get_field raw ''id''))
                          \<and> fits_text 50 (optional_text (get_field raw ''state'')) \<and> fits_integer purchase_days)
                 (Some \<lparr>cm_sku = sku, cm_name = optional_text (get_field raw ''name''), cm_img_url = commodity_image_url raw\<rparr>)))"

definition set_commodity :: "commodity_master \<Rightarrow> commodity_master \<Rightarrow> commodity_master" where
  "set_commodity v r = v\<lparr>cm_sku := cm_sku r\<rparr>"

definition upsert_commodity :: "commodity_master list \<Rightarrow> payload \<Rightarrow> commodity_master list res" where
  "upsert_commodity = store_parsed parse_commodity (store_row cm_sku cm_sku (\<lambda>v. v) set_commodity)"

definition listing_marketplace :: "string \<Rightarrow> country list \<Rightarrow> string \<times> string option" where
  "listing_marketplace raw_id eu =
     (let normalized = (case marketplace_to_country (Some raw_id) of Some c \<Rightarrow> c | None \<Rightarrow> raw_id);
          mapped = (case str_or (apply_eu_mapping (Some normalized) eu) None of Some m \<Rightarrow> m | None \<Rightarrow> normalized)
      in (mapped, if mapped \<noteq> normalized then Some normalized else None))"

definition listing_values :: "country list \<Rightarrow> obj \<Rightarrow> string \<Rightarrow> string \<Rightarrow> string \<Rightarrow> listing_row option res" where
  "listing_values eu raw shop mkt seller =
     (let (mapped, original) = listing_marketplace mkt eu;
          sku = optional_text (get_field raw ''commoditySku'');
          status = normalize_online_status (get_field raw ''onlineStatus'')
      in bind_res (map_res (\<lambda>k. listing_to_int (get_field raw k)) [''day7SaleNum'', ''day14SaleNum'', ''day30SaleNum'']) (\<lambda>sales.
         bind_res (text_value (py_or (get_field raw ''title'') (get_field raw ''commodityName''))) (\<lambda>name.
         bind_res (text_value (get_field raw ''mainImage'')) (\<lambda>image.
           check_row (fits_text 50 (Some shop) \<and> fits_text 10 (Some mapped) \<and> fits_text 10 original \<and> fits_text 100 (Some seller)
                      \<and> fits_text 100 sku \<and> fits_text 50 (optional_text (get_field raw ''commodityId''))
                      \<and> fits_text 100 (optional_text (get_field raw ''parentSku'')) \<and> fits_text 20 (Some status) \<and> list_all fits_integer sales)
             (Some \<lparr>lr_shop_id = shop, lr_marketplace_id = mapped, lr_original_marketplace_id = original, lr_seller_sku = seller,
                    lr_is_matched = infer_is_matched raw, lr_online_status = status,
                    lr_listing = \<lparr>pl_commodity_sku = sku, pl_commodity_name = name, pl_main_image = image\<rparr>\<rparr>)))))"

definition parse_listing :: "country list \<Rightarrow> payload \<Rightarrow> listing_row option res" where
  "parse_listing eu payload =
     (let raw = scalar_fields payload
      in case optional_text (get_field raw ''shopId'') of
           None \<Rightarrow> return None
         | Some shop \<Rightarrow> (case optional_text (get_field raw ''marketplaceId'') of
             None \<Rightarrow> return None
           | Some mkt \<Rightarrow> (case optional_text (get_field raw ''sku'') of
               None \<Rightarrow> return None
             | Some seller \<Rightarrow> listing_values eu raw shop mkt seller)))"

definition listing_key :: "listing_row \<Rightarrow> string \<times> string \<times> string" where
  "listing_key r = (lr_shop_id r, lr_marketplace_id r, lr_seller_sku r)"

definition set_listing :: "listing_row \<Rightarrow> listing_row \<Rightarrow> listing_row" where
  "set_listing v r = v\<lparr>lr_shop_id := lr_shop_id r, lr_marketplace_id := lr_marketplace_id r, lr_seller_sku := lr_seller_sku r\<rparr>"

definition upsert_listing :: "country list \<Rightarrow> listing_row list \<Rightarrow> payload \<Rightarrow> listing_row list res" where
  "upsert_listing eu = store_parsed (parse_listing eu) (store_row listing_key listing_key (\<lambda>v. v) set_listing)"

definition insert_missing_sku_configs :: "sku list \<Rightarrow> sku_config list \<Rightarrow> sku_config list" where
  "insert_missing_sku_configs sku_codes configs =
     configs @ [\<lparr>sc_commodity_sku = code, sc_enabled = True, sc_lead_time_days = None\<rparr>. code \<leftarrow> sku_codes, code \<notin> set (map sc_commodity_sku configs)]"

definition backfill_sku_configs_from_commodities :: "commodity_master list \<Rightarrow> sku_config list \<Rightarrow> sku_config list" where
  "backfill_sku_configs_from_commodities commodities = insert_missing_sku_configs (sort (map cm_sku commodities))"

definition backfill_sku_configs_from_synced_listings :: "listing_row list \<Rightarrow> sku_config list \<Rightarrow> sku_config list" where
  "backfill_sku_configs_from_synced_listings listings =
     insert_missing_sku_configs (sorted_set [sku. l \<leftarrow> listings, Some sku \<leftarrow> [pl_commodity_sku (lr_listing l)]])"

definition put_sku_configs :: "sku_config list \<Rightarrow> 'a full_world_scheme \<Rightarrow> 'a full_world_scheme" where
  "put_sku_configs configs w = w\<lparr>sw_db := (sw_db w)\<lparr>t_sku_config := configs\<rparr>\<rparr>"

text \<open>Three transactions: the checks, the commodities, the listings.\<close>

definition commodity_part :: "stream \<Rightarrow> 'a full_world_scheme \<Rightarrow> 'a full_world_scheme outcome" where
  "commodity_part str w =
     (case consume_stream 0 upsert_commodity str (fw_commodities w) of
        (_, Some e) \<Rightarrow> (w, Some e)
      | (rows, None) \<Rightarrow> (put_sku_configs (backfill_sku_configs_from_commodities rows (t_sku_config (sw_db w))) (w\<lparr>fw_commodities := rows\<rparr>), None))"

definition listing_part :: "country list \<Rightarrow> stream \<Rightarrow> 'a full_world_scheme \<Rightarrow> 'a full_world_scheme outcome" where
  "listing_part eu str w =
     (case consume_stream 0 (upsert_listing eu) str (fw_listings w) of
        (_, Some e) \<Rightarrow> (w, Some e)
      | (rows, None) \<Rightarrow> (put_sku_configs (backfill_sku_configs_from_synced_listings rows (t_sku_config (sw_db w))) (w\<lparr>fw_listings := rows\<rparr>), None))"

definition product_listing_body ::
  "(string, bool) dict \<Rightarrow> stream \<Rightarrow> stream \<Rightarrow> 'a full_world_scheme \<Rightarrow> 'a full_world_scheme outcome" where
  "product_listing_body nullable_map commodities listings w =
     (case bind_res (ensure_product_listing_schema_compatible nullable_map) (\<lambda>_. world_eu_countries w) of
        Inl e \<Rightarrow> (w, Some e)
      | Inr eu \<Rightarrow>
          (case commodity_part commodities w of
             (w', Some e) \<Rightarrow> (w', Some e)
           | (w', None) \<Rightarrow> listing_part eu listings w'))"

text \<open>\<^verbatim>\<open>run_sync_job\<close> for this job.\<close>

definition sync_product_listing_job ::
  "(string, bool) dict \<Rightarrow> stream \<Rightarrow> stream \<Rightarrow> instant \<Rightarrow> instant \<Rightarrow> (exc \<Rightarrow> string) \<Rightarrow> 'a full_world_scheme \<Rightarrow> 'a full_world_scheme outcome" where
  "sync_product_listing_job nullable_map commodities listings started finished message =
     run_sync_job ''sync_product_listing'' started finished message (product_listing_body nullable_map commodities listings)"

subsection \<open>sync/all.py\<close>

text \<open>Everything the six jobs take from outside, with the time each is started and finished at.\<close>

record sync_inputs =
  in_lib :: time_library
  in_message :: "exc \<Rightarrow> string"
  in_nullable :: "(string, bool) dict"
  in_shops :: stream
  in_warehouses :: stream
  in_commodities :: stream
  in_listings :: stream
  in_inventory :: stream
  in_out_records :: stream
  in_orders :: "string \<times> string \<Rightarrow> string list option \<Rightarrow> stream"
  in_started :: "string \<Rightarrow> instant"
  in_finished :: "string \<Rightarrow> instant"

definition SYNC_ALL_STEPS :: "sync_inputs \<Rightarrow> (string \<times> ('a full_world_scheme \<Rightarrow> 'a full_world_scheme outcome)) list" where
  "SYNC_ALL_STEPS inp =
     (let started = in_started inp; finished = in_finished inp; message = in_message inp
      in [(''sync_shop'', sync_shop_job (in_shops inp) (started ''sync_shop'') (finished ''sync_shop'') message),
          (''sync_warehouse'', sync_warehouse_job (in_warehouses inp) (started ''sync_warehouse'') (finished ''sync_warehouse'') message),
          (''sync_product_listing'', sync_product_listing_job (in_nullable inp) (in_commodities inp) (in_listings inp)
             (started ''sync_product_listing'') (finished ''sync_product_listing'') message),
          (''sync_inventory'', sync_inventory_job (in_inventory inp) (started ''sync_inventory'') (finished ''sync_inventory'') message),
          (''sync_out_records'', sync_out_records_job (in_lib inp) (in_out_records inp) (started ''sync_out_records'') (finished ''sync_out_records'') message),
          (''sync_order_list'', sync_order_list_job (in_lib inp) (in_orders inp) (started ''sync_order_list'') message)])"

text \<open>The jobs one after the other; an exception ends the full synchronisation.\<close>

fun run_steps :: "(string \<times> ('w \<Rightarrow> 'w outcome)) list \<Rightarrow> 'w \<Rightarrow> 'w outcome" where
  "run_steps [] w = (w, None)"
| "run_steps ((name, handler) # steps) w =
     (case handler w of (w', None) \<Rightarrow> run_steps steps w' | (w', Some e) \<Rightarrow> (w', Some e))"

definition sync_all_job :: "sync_inputs \<Rightarrow> 'a full_world_scheme \<Rightarrow> 'a full_world_scheme outcome" where
  "sync_all_job inp w = run_steps (SYNC_ALL_STEPS inp) w"

section \<open>Lemmas\<close>

interpretation ct: overwrite_table cm_sku cm_sku "\<lambda>v. v" set_commodity
  by unfold_locales (auto simp: set_commodity_def)

interpretation lt: overwrite_table listing_key listing_key "\<lambda>v. v" set_listing
  by unfold_locales (auto simp: set_listing_def listing_key_def)

subsection \<open>Switches of the SKUs\<close>

text \<open>What a backfill does to the switches: nothing to those that exist, and the missing ones are added switched on.\<close>

definition switches_extended :: "sku_config list \<Rightarrow> sku_config list \<Rightarrow> bool" where
  "switches_extended old new \<longleftrightarrow> distinct (map sc_commodity_sku new)
     \<and> (\<exists>added. new = old @ added \<and> (\<forall>c \<in> set added. sc_enabled c \<and> sc_lead_time_days c = None))"

lemma switches_extended_refl: "distinct (map sc_commodity_sku old) \<Longrightarrow> switches_extended old old"
  by (simp add: switches_extended_def)

lemma switches_extended_trans: "switches_extended a b \<Longrightarrow> switches_extended b c \<Longrightarrow> switches_extended a c"
  unfolding switches_extended_def by fastforce

lemma insert_missing_skus: "set (map sc_commodity_sku (insert_missing_sku_configs codes old)) = set (map sc_commodity_sku old) \<union> set codes"
proof -
  have "map sc_commodity_sku (insert_missing_sku_configs codes old) =
      map sc_commodity_sku old @ filter (\<lambda>code. code \<notin> set (map sc_commodity_sku old)) codes"
    unfolding insert_missing_sku_configs_def map_append by (induction codes) auto
  then show ?thesis by (simp only:) auto
qed

lemma insert_missing_extends:
  assumes "distinct codes" and "distinct (map sc_commodity_sku old)"
  shows "switches_extended old (insert_missing_sku_configs codes old)"
proof -
  define added where "added = [\<lparr>sc_commodity_sku = code, sc_enabled = True, sc_lead_time_days = None\<rparr>. code \<leftarrow> codes, code \<notin> set (map sc_commodity_sku old)]"
  have skus: "map sc_commodity_sku added = filter (\<lambda>code. code \<notin> set (map sc_commodity_sku old)) codes"
    unfolding added_def by (induction codes) auto
  have new: "insert_missing_sku_configs codes old = old @ added" unfolding insert_missing_sku_configs_def added_def ..
  have "distinct (map sc_commodity_sku (old @ added))"
    using assms unfolding map_append skus by auto
  moreover have "\<forall>c \<in> set added. sc_enabled c \<and> sc_lead_time_days c = None" by (auto simp: added_def)
  ultimately show ?thesis unfolding switches_extended_def new by blast
qed

lemma commodity_part_cases:
  assumes part: "commodity_part str w = (w', e)" and dist: "distinct (map sc_commodity_sku (t_sku_config (sw_db w)))"
    and skus: "distinct (map cm_sku (fw_commodities w))"
  shows "switches_extended (t_sku_config (sw_db w)) (t_sku_config (sw_db w')) \<and> distinct (map cm_sku (fw_commodities w'))
    \<and> fw_listings w' = fw_listings w \<and> sw_states w' = sw_states w
    \<and> (e = None \<longrightarrow> cm_sku ` set (fw_commodities w') \<subseteq> sc_commodity_sku ` set (t_sku_config (sw_db w')))"
proof (cases "consume_stream 0 upsert_commodity str (fw_commodities w)")
  case (Pair rows x)
  show ?thesis
  proof (cases x)
    case (Some y)
    then show ?thesis using part Pair dist skus by (auto simp: commodity_part_def switches_extended_refl)
  next
    case None
    then have w': "w' = put_sku_configs (backfill_sku_configs_from_commodities rows (t_sku_config (sw_db w))) (w\<lparr>fw_commodities := rows\<rparr>)"
      using part Pair by (simp add: commodity_part_def)
    have "fold_res upsert_commodity (fw_commodities w) (fst str) = Inr rows" using Pair None by (simp add: consume_stream_success)
    then have "rows = foldl (\<lambda>w v. ct.store v w) (fw_commodities w) (parsed_values parse_commodity (fst str))"
      unfolding upsert_commodity_def by (rule fold_store_parsed)
    then have "distinct (map cm_sku rows)" using ct.distinct_stores [OF skus] by simp
    moreover have "switches_extended (t_sku_config (sw_db w)) (backfill_sku_configs_from_commodities rows (t_sku_config (sw_db w)))"
      unfolding backfill_sku_configs_from_commodities_def by (rule insert_missing_extends) (simp_all add: calculation dist)
    ultimately show ?thesis
      using insert_missing_skus [of "sort (map cm_sku rows)" "t_sku_config (sw_db w)"]
      by (auto simp: w' put_sku_configs_def backfill_sku_configs_from_commodities_def)
  qed
qed

lemma listing_part_cases:
  assumes part: "listing_part eu str w = (w', e)" and dist: "distinct (map sc_commodity_sku (t_sku_config (sw_db w)))"
  shows "switches_extended (t_sku_config (sw_db w)) (t_sku_config (sw_db w')) \<and> fw_commodities w' = fw_commodities w \<and> sw_states w' = sw_states w
    \<and> (e = None \<longrightarrow> (\<forall>l \<in> set (fw_listings w'). \<forall>s. pl_commodity_sku (lr_listing l) = Some s \<longrightarrow> s \<in> sc_commodity_sku ` set (t_sku_config (sw_db w'))))"
proof (cases "consume_stream 0 (upsert_listing eu) str (fw_listings w)")
  case (Pair rows x)
  show ?thesis
  proof (cases x)
    case (Some y)
    then show ?thesis using part Pair dist by (auto simp: listing_part_def switches_extended_refl)
  next
    case None
    define codes where "codes = sorted_set [sku. l \<leftarrow> rows, Some sku \<leftarrow> [pl_commodity_sku (lr_listing l)]]"
    have w': "w' = put_sku_configs (insert_missing_sku_configs codes (t_sku_config (sw_db w))) (w\<lparr>fw_listings := rows\<rparr>)" "e = None"
      using part Pair None by (simp_all add: listing_part_def backfill_sku_configs_from_synced_listings_def codes_def)
    have "switches_extended (t_sku_config (sw_db w)) (insert_missing_sku_configs codes (t_sku_config (sw_db w)))"
      by (rule insert_missing_extends) (simp_all add: codes_def dist)
    moreover have "s \<in> set codes" if "l \<in> set rows" "pl_commodity_sku (lr_listing l) = Some s" for l s
      using that by (force simp: codes_def)
    ultimately show ?thesis
      using insert_missing_skus [of codes "t_sku_config (sw_db w)"] by (auto simp: w' put_sku_configs_def)
  qed
qed

subsection \<open>The state rows of the jobs\<close>

definition job_status :: "'a sync_world_scheme \<Rightarrow> string \<Rightarrow> string option" where
  "job_status w name = Option.bind (find_by ss_job_name name (sw_states w)) ss_last_status"

text \<open>A job sets its own state row, to success exactly when it ends well, and no other.\<close>

definition reports_outcome :: "string \<Rightarrow> ('a sync_world_scheme \<Rightarrow> 'a sync_world_scheme outcome) \<Rightarrow> bool" where
  "reports_outcome name handler \<longleftrightarrow>
     (\<forall>w w' e. handler w = (w', e) \<longrightarrow> (job_status w' name = Some ''success'' \<longleftrightarrow> e = None)
        \<and> (\<forall>j. j \<noteq> name \<longrightarrow> find_by ss_job_name j (sw_states w') = find_by ss_job_name j (sw_states w)))"

lemma find_marks:
  assumes "j \<noteq> name"
  shows "find_by ss_job_name j (mark_sync_running name t rows) = find_by ss_job_name j rows"
    "find_by ss_job_name j (mark_sync_success name t u rows) = find_by ss_job_name j rows"
    "find_by ss_job_name j (mark_sync_failed name m rows) = find_by ss_job_name j rows"
  using assms by (simp_all add: mark_sync_running_def mark_sync_success_def mark_sync_failed_def find_upsert)

lemma mark_status:
  "Option.bind (find_by ss_job_name name (mark_sync_running name t rows)) ss_last_status = Some ''running''"
  "Option.bind (find_by ss_job_name name (mark_sync_success name t u rows)) ss_last_status = Some ''success''"
  "Option.bind (find_by ss_job_name name (mark_sync_failed name m rows)) ss_last_status = Some ''failed''"
  by (auto simp: mark_sync_running_def mark_sync_success_def mark_sync_failed_def find_upsert split: option.splits)

lemma run_sync_job_reports:
  assumes body: "\<And>w w' e. body w = (w', e) \<Longrightarrow> sw_states w' = sw_states w"
  shows "reports_outcome name (run_sync_job name started finished message body)"
  unfolding reports_outcome_def
proof (intro allI impI)
  fix w w' e
  assume run: "run_sync_job name started finished message body w = (w', e)"
  obtain w1 x where b: "body (w\<lparr>sw_states := mark_sync_running name started (sw_states w)\<rparr>) = (w1, x)" by (metis surj_pair)
  have states: "sw_states w1 = mark_sync_running name started (sw_states w)" using body [OF b] by simp
  show "(job_status w' name = Some ''success'' \<longleftrightarrow> e = None)
      \<and> (\<forall>j. j \<noteq> name \<longrightarrow> find_by ss_job_name j (sw_states w') = find_by ss_job_name j (sw_states w))"
    using run b states by (cases x) (auto simp: run_sync_job_def job_status_def mark_status find_marks)
qed

lemma bodies_keep_states:
  "shop_body str w = (w', e) \<Longrightarrow> sw_states w' = sw_states w"
  "warehouse_body str w = (w', e) \<Longrightarrow> sw_states w' = sw_states w"
  "inventory_body str w = (w', e) \<Longrightarrow> sw_states w' = sw_states w"
  "out_records_body lib str t w = (w', e) \<Longrightarrow> sw_states w' = sw_states w"
  by (auto simp: shop_body_def warehouse_body_def inventory_body_def out_records_body_def Let_def split: prod.splits sum.splits option.splits)

lemma product_listing_keeps_states: "product_listing_body nm cs ls w = (w', e) \<Longrightarrow> sw_states w' = sw_states w"
  by (auto simp: product_listing_body_def commodity_part_def listing_part_def put_sku_configs_def split: prod.splits sum.splits option.splits)

lemma order_list_reports: "reports_outcome ''sync_order_list'' (sync_order_list_job lib api started message)"
  unfolding reports_outcome_def
proof (intro allI impI)
  fix w w' :: "'a order_world_scheme" and e
  assume run: "sync_order_list_job lib api started message w = (w', e)"
  define w1 where "w1 = w\<lparr>sw_states := mark_sync_running ''sync_order_list'' started (sw_states w)\<rparr>"
  define w2 where "w2 = cleanup_legacy_orders w1"
  have w12: "sw_states w1 = mark_sync_running ''sync_order_list'' started (sw_states w)"
    "sw_states w2 = mark_sync_running ''sync_order_list'' started (sw_states w)"
    by (simp_all add: w1_def w2_def cleanup_legacy_orders_def Let_def)
  have "e \<noteq> None \<and> sw_states w' = sw_states w1
      \<or> e = None \<and> sw_states w' = mark_sync_success ''sync_order_list'' started started (sw_states w2)
      \<or> (\<exists>x. e = Some x \<and> sw_states w' = mark_sync_failed ''sync_order_list'' (message x) (sw_states w2))"
    using run unfolding sync_order_list_job_def w1_def [symmetric] w2_def [symmetric] Let_def
    by (auto simp: put_order_tables_def split: sum.splits if_splits prod.splits option.splits)
  then show "(job_status w' ''sync_order_list'' = Some ''success'' \<longleftrightarrow> e = None)
      \<and> (\<forall>j. j \<noteq> ''sync_order_list'' \<longrightarrow> find_by ss_job_name j (sw_states w') = find_by ss_job_name j (sw_states w))"
    using mark_status [of "''sync_order_list''"] unfolding w12 by (auto simp: job_status_def find_marks)
qed

lemma steps_report: "(name, handler) \<in> set (SYNC_ALL_STEPS inp) \<Longrightarrow> reports_outcome name handler"
  unfolding SYNC_ALL_STEPS_def Let_def sync_shop_job_def sync_warehouse_job_def sync_product_listing_job_def sync_inventory_job_def sync_out_records_job_def
  by (auto intro: run_sync_job_reports order_list_reports bodies_keep_states product_listing_keeps_states)

text \<open>Steps that report, one after the other: those before the failure succeed, the failing one does not, and the later ones are not touched.\<close>

lemma run_steps_reports:
  assumes "\<And>name handler. (name, handler) \<in> set steps \<Longrightarrow> reports_outcome name handler" and "distinct (map fst steps)"
    and "run_steps steps w = (w', e)"
  shows "(\<forall>j. j \<notin> set (map fst steps) \<longrightarrow> find_by ss_job_name j (sw_states w') = find_by ss_job_name j (sw_states w))
    \<and> (\<exists>k. (\<forall>j \<in> set (take k (map fst steps)). job_status w' j = Some ''success'')
        \<and> (\<forall>j \<in> set (drop (Suc k) (map fst steps)). find_by ss_job_name j (sw_states w') = find_by ss_job_name j (sw_states w))
        \<and> (if e = None then k = length steps else k < length steps \<and> job_status w' (map fst steps ! k) \<noteq> Some ''success''))"
  using assms
proof (induction steps arbitrary: w)
  case Nil
  then show ?case by simp
next
  case (Cons step steps)
  obtain name handler where step: "step = (name, handler)" by (cases step)
  obtain w1 x where h: "handler w = (w1, x)" by (metis surj_pair)
  have "reports_outcome name handler" using Cons.prems(1) step by simp
  then have own: "job_status w1 name = Some ''success'' \<longleftrightarrow> x = None"
    and other: "\<And>j. j \<noteq> name \<Longrightarrow> find_by ss_job_name j (sw_states w1) = find_by ss_job_name j (sw_states w)"
    using h unfolding reports_outcome_def by blast+
  have fresh: "name \<notin> set (map fst steps)" "distinct (map fst steps)" using Cons.prems(2) step by simp_all
  show ?case
  proof (cases x)
    case (Some y)
    then have e: "w' = w1" "e = Some y" using Cons.prems(3) step h by simp_all
    have "find_by ss_job_name j (sw_states w') = find_by ss_job_name j (sw_states w)" if "j \<noteq> name" for j using other [OF that] e by simp
    moreover have "j \<noteq> name" if "j \<in> set (map fst steps)" for j using fresh(1) that by blast
    ultimately show ?thesis using own Some e step by (intro conjI exI [of _ 0]) simp_all
  next
    case None
    then have rest: "run_steps steps w1 = (w', e)" using Cons.prems(3) step h by simp
    from Cons.IH [OF _ fresh(2) rest] Cons.prems(1)
    obtain k where k: "\<And>j. j \<in> set (take k (map fst steps)) \<Longrightarrow> job_status w' j = Some ''success''"
      "\<And>j. j \<in> set (drop (Suc k) (map fst steps)) \<Longrightarrow> find_by ss_job_name j (sw_states w') = find_by ss_job_name j (sw_states w1)"
      "if e = None then k = length steps else k < length steps \<and> job_status w' (map fst steps ! k) \<noteq> Some ''success''"
      and kept: "\<And>j. j \<notin> set (map fst steps) \<Longrightarrow> find_by ss_job_name j (sw_states w') = find_by ss_job_name j (sw_states w1)"
      by (metis list.set_intros(2))
    have "job_status w' name = Some ''success''" using own None kept [OF fresh(1)] by (simp add: job_status_def)
    moreover have "find_by ss_job_name j (sw_states w') = find_by ss_job_name j (sw_states w)" if "j \<in> set (drop (Suc k) (map fst steps))" for j
      using k(2) [OF that] other [of j] fresh(1) in_set_dropD [OF that] by auto
    ultimately show ?thesis using k(1,3) kept other step by (intro conjI exI [of _ "Suc k"]) auto
  qed
qed

section \<open>Properties\<close>

text \<open>
  C24: the synchronisation of products never changes the switch or the lead time of a SKU that has
  one, however it ends; when it ends well, every commodity and every SKU named by a listing has
  exactly one switch, and those it added are on, with no lead time of their own.
\<close>
theorem product_sync_completes_switches:
  assumes run: "sync_product_listing_job nullable_map commodities listings started finished message w = (w', e)"
    and dist: "distinct (map sc_commodity_sku (t_sku_config (sw_db w)))" and skus: "distinct (map cm_sku (fw_commodities w))"
  shows "switches_extended (t_sku_config (sw_db w)) (t_sku_config (sw_db w'))
    \<and> (e = None \<longrightarrow> cm_sku ` set (fw_commodities w') \<subseteq> sc_commodity_sku ` set (t_sku_config (sw_db w'))
        \<and> (\<forall>l \<in> set (fw_listings w'). \<forall>s. pl_commodity_sku (lr_listing l) = Some s \<longrightarrow> s \<in> sc_commodity_sku ` set (t_sku_config (sw_db w'))))"
proof -
  define w0 where "w0 = w\<lparr>sw_states := mark_sync_running ''sync_product_listing'' started (sw_states w)\<rparr>"
  obtain w1 where body: "product_listing_body nullable_map commodities listings w0 = (w1, e)"
    and same: "sw_db w' = sw_db w1" "fw_commodities w' = fw_commodities w1" "fw_listings w' = fw_listings w1"
    using run unfolding sync_product_listing_job_def run_sync_job_def w0_def [symmetric] by (auto split: prod.splits option.splits)
  have w0: "sw_db w0 = sw_db w" "fw_commodities w0 = fw_commodities w" by (simp_all add: w0_def)
  show ?thesis
  proof (cases "bind_res (ensure_product_listing_schema_compatible nullable_map) (\<lambda>_. world_eu_countries w0)")
    case (Inl x)
    then show ?thesis using body w0 same switches_extended_refl [OF dist] by (auto simp: product_listing_body_def)
  next
    case (Inr eu)
    obtain w2 x where cp: "commodity_part commodities w0 = (w2, x)" by (metis surj_pair)
    note first = commodity_part_cases [OF cp, unfolded w0, OF dist skus]
    show ?thesis
    proof (cases x)
      case (Some y)
      then show ?thesis using first body Inr cp same by (auto simp: product_listing_body_def)
    next
      case None
      then have "listing_part eu listings w2 = (w1, e)" using body Inr cp by (simp add: product_listing_body_def)
      from listing_part_cases [OF this]
      have ext: "switches_extended (t_sku_config (sw_db w2)) (t_sku_config (sw_db w1))" and cm: "fw_commodities w1 = fw_commodities w2"
        and ls: "e = None \<Longrightarrow> \<forall>l \<in> set (fw_listings w1). \<forall>s. pl_commodity_sku (lr_listing l) = Some s \<longrightarrow> s \<in> sc_commodity_sku ` set (t_sku_config (sw_db w1))"
        using first unfolding switches_extended_def by blast+
      have "sc_commodity_sku ` set (t_sku_config (sw_db w2)) \<subseteq> sc_commodity_sku ` set (t_sku_config (sw_db w1))"
        using ext unfolding switches_extended_def by auto
      moreover have "cm_sku ` set (fw_commodities w2) \<subseteq> sc_commodity_sku ` set (t_sku_config (sw_db w2))" using first None by simp
      ultimately have "cm_sku ` set (fw_commodities w1) \<subseteq> sc_commodity_sku ` set (t_sku_config (sw_db w1))"
        unfolding cm by (rule subset_trans [rotated])
      then show ?thesis using switches_extended_trans [OF _ ext] first ls same by simp
    qed
  qed
qed


text \<open>The properties at a product and a listing that are new, and at a listing that fails.\<close>

definition demo_full_world :: full_world where
  "demo_full_world =
     \<lparr>sw_db = (sw_db demo_order_world)\<lparr>t_sku_config := [\<lparr>sc_commodity_sku = ''A'', sc_enabled = False, sc_lead_time_days = Some 9\<rparr>]\<rparr>,
      sw_shops = [], sw_states = [], ow_next_order_id = 2, ow_order_details = [], ow_detail_fetch_logs = [],
      fw_commodities = [], fw_listings = []\<rparr>"

definition demo_nullable :: "(string, bool) dict" where
  "demo_nullable = [(''commodity_sku'', True), (''commodity_id'', True)]"

definition demo_commodities :: stream where
  "demo_commodities = ([[(''sku'', Scalar (SText ''B''))], [(''sku'', Scalar (SText ''A''))]], None)"

definition demo_listings :: stream where
  "demo_listings = ([[(''shopId'', Scalar (SText ''S'')), (''marketplaceId'', Scalar (SText ''US'')), (''sku'', Scalar (SText ''B-1'')),
     (''commoditySku'', Scalar (SText ''C''))]], None)"

theorem product_sync_completes_switches_witness:
  "let (w', e) = sync_product_listing_job demo_nullable demo_commodities demo_listings 20 30 (\<lambda>_. []) demo_full_world
   in e = None \<and> switches_extended (t_sku_config (sw_db demo_full_world)) (t_sku_config (sw_db w'))
    \<and> cm_sku ` set (fw_commodities w') \<subseteq> sc_commodity_sku ` set (t_sku_config (sw_db w'))
    \<and> map sc_commodity_sku (t_sku_config (sw_db w')) = [''A'', ''B'', ''C'']"
proof -
  obtain w' e where run: "sync_product_listing_job demo_nullable demo_commodities demo_listings 20 30 (\<lambda>_. []) demo_full_world = (w', e)" by (metis surj_pair)
  have "distinct (map sc_commodity_sku (t_sku_config (sw_db demo_full_world)))" "distinct (map cm_sku (fw_commodities demo_full_world))"
    by (simp_all add: demo_full_world_def)
  note facts = product_sync_completes_switches [OF run this]
  have "let (w', e) = sync_product_listing_job demo_nullable demo_commodities demo_listings 20 30 (\<lambda>_. []) demo_full_world
     in e = None \<and> map sc_commodity_sku (t_sku_config (sw_db w')) = [''A'', ''B'', ''C'']" by code_simp
  then show ?thesis using facts unfolding run by simp
qed

definition demo_inputs :: sync_inputs where
  "demo_inputs =
     \<lparr>in_lib = demo_lib, in_message = \<lambda>_. [], in_nullable = demo_nullable, in_shops = ([], None), in_warehouses = ([], None),
      in_commodities = demo_commodities, in_listings = ([], Some SaihuAPIError), in_inventory = ([], None), in_out_records = ([], None),
      in_orders = \<lambda>_ _. ([], None), in_started = \<lambda>_. 20, in_finished = \<lambda>_. 30\<rparr>"

end
