(* ===== verification/Access_Control.thy ===== *)
theory Access_Control
  imports Sync_Common "HOL-Library.Word"
begin

text \<open>
  Users, roles, permissions and sessions: \<^verbatim>\<open>core/permissions.py\<close>, \<^verbatim>\<open>core/permission_cache.py\<close>,
  \<^verbatim>\<open>core/permission_sync.py\<close>, \<^verbatim>\<open>core/security.py\<close>, \<^verbatim>\<open>api/deps.py\<close>, \<^verbatim>\<open>api/auth.py\<close>,
  \<^verbatim>\<open>api/auth_roles.py\<close>, \<^verbatim>\<open>api/auth_users.py\<close> and \<^verbatim>\<open>schemas/auth.py\<close>. The libraries behind
  passwords and tokens (bcrypt, PyJWT) are parameters; a token that PyJWT accepts carries the
  claims that \<open>create_access_token\<close> writes. A request is one transaction. The cache is that of one process.
\<close>

unbundle bit_operations_syntax

section \<open>Definitions\<close>

subsection \<open>core/permissions.py\<close>

record perm_def =
  pd_code :: string
  pd_name :: string
  pd_group_name :: string

definition REGISTRY :: "perm_def list" where
  "REGISTRY =
     [\<lparr>pd_code = ''home:view'', pd_name = utf8 [228, 191, 161, 230, 129, 175, 230, 128, 187, 232, 167, 136, 45, 230, 159, 165, 231, 156, 139],
        pd_group_name = utf8 [228, 191, 161, 230, 129, 175, 230, 128, 187, 232, 167, 136]\<rparr>,
      \<lparr>pd_code = ''home:refresh'', pd_name = utf8 [228, 191, 161, 230, 129, 175, 230, 128, 187, 232, 167, 136, 45, 229, 136, 183, 230, 150, 176],
        pd_group_name = utf8 [228, 191, 161, 230, 129, 175, 230, 128, 187, 232, 167, 136]\<rparr>,
      \<lparr>pd_code = ''restock:view'', pd_name = utf8 [232, 161, 165, 232, 180, 167, 229, 143, 145, 232, 181, 183, 45, 230, 159, 165, 231, 156, 139],
        pd_group_name = utf8 [232, 161, 165, 232, 180, 167, 229, 143, 145, 232, 181, 183]\<rparr>,
      \<lparr>pd_code = ''restock:operate'', pd_name = utf8 [232, 161, 165, 232, 180, 167, 229, 143, 145, 232, 181, 183, 45, 230, 147, 141, 228, 189, 156],
        pd_group_name = utf8 [232, 161, 165, 232, 180, 167, 229, 143, 145, 232, 181, 183]\<rparr>,
      \<lparr>pd_code = ''restock:export'', pd_name = utf8 [232, 161, 165, 232, 180, 167, 229, 143, 145, 232, 181, 183, 45, 229, 175, 188, 229, 135, 186],
        pd_group_name = utf8 [232, 161, 165, 232, 180, 167, 229, 143, 145, 232, 181, 183]\<rparr>,
      \<lparr>pd_code = ''restock:new_cycle'', pd_name = utf8 [232, 161, 165, 232, 180, 167, 229, 143, 145, 232, 181, 183, 45, 229, 188, 128, 229, 144, 175, 230, 150, 176, 228, 184, 128, 232, 189, 174],
        pd_group_name = utf8 [232, 161, 165, 232, 180, 167, 229, 143, 145, 232, 181, 183]\<rparr>,
      \<lparr>pd_code = ''history:view'', pd_name = utf8 [229, 142, 134, 229, 143, 178, 232, 174, 176, 229, 189, 149, 45, 230, 159, 165, 231, 156, 139],
        pd_group_name = utf8 [229, 142, 134, 229, 143, 178, 232, 174, 176, 229, 189, 149]\<rparr>,
      \<lparr>pd_code = ''history:delete'', pd_name = utf8 [229, 142, 134, 229, 143, 178, 232, 174, 176, 229, 189, 149, 45, 229, 136, 160, 233, 153, 164],
        pd_group_name = utf8 [229, 142, 134, 229, 143, 178, 232, 174, 176, 229, 189, 149]\<rparr>,
      \<lparr>pd_code = ''data_base:view'', pd_name = utf8 [229, 159, 186, 231, 161, 128, 230, 149, 176, 230, 141, 174, 45, 230, 159, 165, 231, 156, 139],
        pd_group_name = utf8 [229, 159, 186, 231, 161, 128, 230, 149, 176, 230, 141, 174]\<rparr>,
      \<lparr>pd_code = ''data_base:edit'', pd_name = utf8 [229, 159, 186, 231, 161, 128, 230, 149, 176, 230, 141, 174, 45, 231, 188, 150, 232, 190, 145],
        pd_group_name = utf8 [229, 159, 186, 231, 161, 128, 230, 149, 176, 230, 141, 174]\<rparr>,
      \<lparr>pd_code = ''data_biz:view'', pd_name = utf8 [228, 184, 154, 229, 138, 161, 230, 149, 176, 230, 141, 174, 45, 230, 159, 165, 231, 156, 139],
        pd_group_name = utf8 [228, 184, 154, 229, 138, 161, 230, 149, 176, 230, 141, 174]\<rparr>,
      \<lparr>pd_code = ''data_biz:edit'', pd_name = utf8 [228, 184, 154, 229, 138, 161, 230, 149, 176, 230, 141, 174, 45, 231, 188, 150, 232, 190, 145],
        pd_group_name = utf8 [228, 184, 154, 229, 138, 161, 230, 149, 176, 230, 141, 174]\<rparr>,
      \<lparr>pd_code = ''sync:view'', pd_name = utf8 [229, 144, 140, 230, 173, 165, 231, 174, 161, 231, 144, 134, 45, 230, 159, 165, 231, 156, 139],
        pd_group_name = utf8 [229, 144, 140, 230, 173, 165, 231, 174, 161, 231, 144, 134]\<rparr>,
      \<lparr>pd_code = ''sync:operate'', pd_name = utf8 [229, 144, 140, 230, 173, 165, 231, 174, 161, 231, 144, 134, 45, 230, 147, 141, 228, 189, 156],
        pd_group_name = utf8 [229, 144, 140, 230, 173, 165, 231, 174, 161, 231, 144, 134]\<rparr>,
      \<lparr>pd_code = ''config:view'', pd_name = utf8 [229, 159, 186, 231, 161, 128, 233, 133, 141, 231, 189, 174, 45, 230, 159, 165, 231, 156, 139],
        pd_group_name = utf8 [229, 159, 186, 231, 161, 128, 233, 133, 141, 231, 189, 174]\<rparr>,
      \<lparr>pd_code = ''config:edit'', pd_name = utf8 [229, 159, 186, 231, 161, 128, 233, 133, 141, 231, 189, 174, 45, 231, 188, 150, 232, 190, 145],
        pd_group_name = utf8 [229, 159, 186, 231, 161, 128, 233, 133, 141, 231, 189, 174]\<rparr>,
      \<lparr>pd_code = ''monitor:view'', pd_name = utf8 [231, 179, 187, 231, 187, 159, 231, 155, 145, 230, 142, 167, 45, 230, 159, 165, 231, 156, 139],
        pd_group_name = utf8 [231, 179, 187, 231, 187, 159, 231, 155, 145, 230, 142, 167]\<rparr>,
      \<lparr>pd_code = ''auth:view'', pd_name = utf8 [230, 157, 131, 233, 153, 144, 232, 174, 190, 231, 189, 174, 45, 230, 159, 165, 231, 156, 139],
        pd_group_name = utf8 [230, 157, 131, 233, 153, 144, 232, 174, 190, 231, 189, 174]\<rparr>,
      \<lparr>pd_code = ''auth:manage'', pd_name = utf8 [230, 157, 131, 233, 153, 144, 232, 174, 190, 231, 189, 174, 45, 231, 174, 161, 231, 144, 134],
        pd_group_name = utf8 [230, 157, 131, 233, 153, 144, 232, 174, 190, 231, 189, 174]\<rparr>]"

definition ALL_CODES :: "string list" where
  "ALL_CODES = map pd_code REGISTRY"

definition VIEW_DEPENDENT_ACTIONS :: "string list" where
  "VIEW_DEPENDENT_ACTIONS = [''edit'', ''operate'', ''manage'', ''delete'', ''export'', ''refresh'', ''new_cycle'']"

text \<open>The view permission that a code implies, if there is one.\<close>

definition implied_view :: "string list \<Rightarrow> string \<Rightarrow> string option" where
  "implied_view available code =
     (case py_split1 (CHR '':'') code of
        [namespace, action] \<Rightarrow>
          if action \<in> set VIEW_DEPENDENT_ACTIONS \<and> namespace @ '':view'' \<in> set available then Some (namespace @ '':view'') else None
      | _ \<Rightarrow> None)"

definition expand_permission_dependencies :: "string list \<Rightarrow> string list \<Rightarrow> string list" where
  "expand_permission_dependencies codes available = remdups (codes @ List.map_filter (implied_view available) codes)"

subsection \<open>Tables\<close>

record role_row =
  ro_id :: int
  ro_name :: string
  ro_description :: string
  ro_is_superadmin :: bool

record permission_row =
  pm_id :: int
  pm_code :: string
  pm_name :: string
  pm_group_name :: string
  pm_sort_order :: int
  pm_active :: bool

record sys_user =
  su_id :: int
  su_username :: string
  su_display_name :: string
  su_password_hash :: string
  su_role_id :: int
  su_is_active :: bool
  su_perm_version :: int
  su_last_login_at :: "instant option"

record login_attempt =
  la_source_key :: string
  la_failed_count :: int
  la_locked_until :: "instant option"
  la_updated_at :: instant

record auth_db =
  a_roles :: "role_row list"
  a_permissions :: "permission_row list"
  a_role_permissions :: "(int \<times> int) list"
  a_users :: "sys_user list"
  a_attempts :: "login_attempt list"
  a_exporters :: "int list"
  a_next_role_id :: int
  a_next_permission_id :: int
  a_next_user_id :: int

text \<open>\<open>a_exporters\<close> are the users that rows of \<^verbatim>\<open>suggestion_snapshot\<close> and \<^verbatim>\<open>excel_export_log\<close> refer to.\<close>

text \<open>The codes of the active permissions of a role.\<close>

definition role_codes :: "int \<Rightarrow> auth_db \<Rightarrow> string list" where
  "role_codes role_id db =
     [pm_code p. p \<leftarrow> a_permissions db, pm_active p, (r, pid) \<leftarrow> a_role_permissions db, pid = pm_id p \<and> r = role_id]"

text \<open>\<^verbatim>\<open>UPDATE sys_user SET ... WHERE p\<close>.\<close>

definition update_users :: "(sys_user \<Rightarrow> bool) \<Rightarrow> (sys_user \<Rightarrow> sys_user) \<Rightarrow> auth_db \<Rightarrow> auth_db" where
  "update_users p f db = db\<lparr>a_users := map (\<lambda>u. if p u then f u else u) (a_users db)\<rparr>"

definition bump :: "sys_user \<Rightarrow> sys_user" where
  "bump u = u\<lparr>su_perm_version := su_perm_version u + 1\<rparr>"

subsection \<open>core/permission\_sync.py\<close>

definition sync_permission :: "auth_db \<Rightarrow> nat \<times> perm_def \<Rightarrow> auth_db" where
  "sync_permission db entry =
     (let (idx, d) = entry
      in db\<lparr>a_permissions := upsert pm_code (pd_code d)
              (\<lambda>p. p\<lparr>pm_name := pd_name d, pm_group_name := pd_group_name d, pm_sort_order := int idx, pm_active := True\<rparr>)
              \<lparr>pm_id = a_next_permission_id db, pm_code = pd_code d, pm_name = pd_name d, pm_group_name = pd_group_name d,
               pm_sort_order = int idx, pm_active = True\<rparr> (a_permissions db),
            a_next_permission_id := a_next_permission_id db + 1\<rparr>)"

definition sync_permissions :: "auth_db \<Rightarrow> auth_db" where
  "sync_permissions db =
     (let db' = foldl sync_permission db (enumerate 0 REGISTRY)
      in db'\<lparr>a_permissions := map (\<lambda>p. if pm_code p \<notin> set ALL_CODES then p\<lparr>pm_active := False\<rparr> else p) (a_permissions db')\<rparr>)"

subsection \<open>core/permission\_cache.py\<close>

type_synonym perm_cache = "(int, int \<times> string list) dict"

definition CACHE_MAXSIZE :: nat where
  "CACHE_MAXSIZE = 100"

definition move_to_end :: "'k \<Rightarrow> ('k, 'v) dict \<Rightarrow> ('k, 'v) dict" where
  "move_to_end k d = filter (\<lambda>(j, v). j \<noteq> k) d @ filter (\<lambda>(j, v). j = k) d"

definition cache_get :: "int \<Rightarrow> int \<Rightarrow> perm_cache \<Rightarrow> string list option \<times> perm_cache" where
  "cache_get user_id version store =
     (case dict_get store user_id of
        None \<Rightarrow> (None, store)
      | Some (cached_version, perms) \<Rightarrow>
          if cached_version \<noteq> version then (None, store) else (Some perms, move_to_end user_id store))"

definition cache_set :: "int \<Rightarrow> int \<Rightarrow> string list \<Rightarrow> perm_cache \<Rightarrow> perm_cache" where
  "cache_set user_id version perms store =
     (let store' = move_to_end user_id (dict_set user_id (version, perms) store)
      in drop (length store' - CACHE_MAXSIZE) store')"

subsection \<open>core/security.py and api/deps.py\<close>

record jwt_payload =
  jp_sub :: "string option"
  jp_pv :: "int option"

text \<open>The libraries: checking and making a password hash, and reading and writing a token.\<close>

record crypto =
  cr_verify :: "string \<Rightarrow> string \<Rightarrow> bool"
  cr_hash :: "string \<Rightarrow> string"
  cr_decode :: "string \<Rightarrow> jwt_payload option"
  cr_encode :: "jwt_payload \<Rightarrow> string"

definition create_access_token :: "crypto \<Rightarrow> int \<Rightarrow> int \<Rightarrow> string" where
  "create_access_token cr user_id perm_version = cr_encode cr \<lparr>jp_sub = Some (int_to_string user_id), jp_pv = Some perm_version\<rparr>"

definition decode_token :: "crypto \<Rightarrow> string \<Rightarrow> jwt_payload res" where
  "decode_token cr token = (case cr_decode cr token of None \<Rightarrow> raise Unauthorized | Some payload \<Rightarrow> return payload)"

record user_context =
  uc_id :: int
  uc_username :: string
  uc_display_name :: string
  uc_role_id :: int
  uc_role_name :: string
  uc_is_superadmin :: bool
  uc_perm_version :: int

text \<open>The join of users and roles.\<close>

definition joined_user :: "(sys_user \<Rightarrow> bool) \<Rightarrow> auth_db \<Rightarrow> (sys_user \<times> role_row) option" where
  "joined_user p db =
     (case [(u, r). u \<leftarrow> a_users db, p u, r \<leftarrow> a_roles db, ro_id r = su_role_id u] of [] \<Rightarrow> None | x # xs \<Rightarrow> Some x)"

definition bearer_token :: "string option \<Rightarrow> string option" where
  "bearer_token authorization =
     (case authorization of
        None \<Rightarrow> None
      | Some a \<Rightarrow> if take 7 (map lower_char a) = ''bearer '' then Some (py_strip (py_split1 (CHR '' '') a ! 1)) else None)"

definition context_of :: "sys_user \<times> role_row \<Rightarrow> user_context" where
  "context_of row =
     (let (u, r) = row
      in \<lparr>uc_id = su_id u, uc_username = su_username u, uc_display_name = su_display_name u, uc_role_id = su_role_id u,
          uc_role_name = ro_name r, uc_is_superadmin = ro_is_superadmin r, uc_perm_version = su_perm_version u\<rparr>)"

definition token_user :: "jwt_payload \<Rightarrow> auth_db \<Rightarrow> user_context res" where
  "token_user payload db =
     (case Option.bind (jp_sub payload) py_int of
        None \<Rightarrow> raise Unauthorized
      | Some user_id \<Rightarrow>
          (case joined_user (\<lambda>u. su_id u = user_id) db of
             None \<Rightarrow> raise Unauthorized
           | Some (u, r) \<Rightarrow>
               if \<not> su_is_active u then raise Unauthorized
               else if su_perm_version u \<noteq> (case jp_pv payload of None \<Rightarrow> - 1 | Some pv \<Rightarrow> pv) then raise Unauthorized
               else return (context_of (u, r))))"

definition get_current_user :: "crypto \<Rightarrow> string option \<Rightarrow> auth_db \<Rightarrow> user_context res" where
  "get_current_user cr authorization db =
     (case bearer_token authorization of
        None \<Rightarrow> raise Unauthorized
      | Some token \<Rightarrow> bind_res (decode_token cr token) (\<lambda>payload. token_user payload db))"

definition get_current_permissions :: "user_context \<Rightarrow> auth_db \<Rightarrow> perm_cache \<Rightarrow> string list \<times> perm_cache" where
  "get_current_permissions user db cache =
     (if uc_is_superadmin user then (ALL_CODES, cache)
      else case cache_get (uc_id user) (uc_perm_version user) cache of
             (Some perms, cache') \<Rightarrow> (perms, cache')
           | (None, cache') \<Rightarrow>
               let perms = role_codes (uc_role_id user) db
               in (perms, cache_set (uc_id user) (uc_perm_version user) perms cache'))"

definition require_permission :: "string list \<Rightarrow> string list \<Rightarrow> unit res" where
  "require_permission codes permissions = (if list_all (\<lambda>code. code \<in> set permissions) codes then return () else raise Forbidden)"

text \<open>A state of the process: the tables and its cache. A handler behind a guard, as one transaction.\<close>

record auth_state =
  as_db :: auth_db
  as_cache :: perm_cache

definition authenticated ::
  "crypto \<Rightarrow> string option \<Rightarrow> (user_context \<Rightarrow> auth_db \<Rightarrow> (auth_db \<times> 'a) res) \<Rightarrow> auth_state \<Rightarrow> auth_state \<times> 'a res" where
  "authenticated cr authorization body s =
     (case bind_res (get_current_user cr authorization (as_db s)) (\<lambda>user. body user (as_db s)) of
        Inl e \<Rightarrow> (s, raise e)
      | Inr (db, x) \<Rightarrow> (s\<lparr>as_db := db\<rparr>, return x))"

definition guarded ::
  "crypto \<Rightarrow> string list \<Rightarrow> string option \<Rightarrow> (user_context \<Rightarrow> auth_db \<Rightarrow> (auth_db \<times> 'a) res) \<Rightarrow> auth_state \<Rightarrow> auth_state \<times> 'a res" where
  "guarded cr codes authorization body s =
     (case get_current_user cr authorization (as_db s) of
        Inl e \<Rightarrow> (s, raise e)
      | Inr user \<Rightarrow>
          let (permissions, cache) = get_current_permissions user (as_db s) (as_cache s)
          in case bind_res (require_permission codes permissions) (\<lambda>_. body user (as_db s)) of
               Inl e \<Rightarrow> (s\<lparr>as_cache := cache\<rparr>, raise e)
             | Inr (db, x) \<Rightarrow> (\<lparr>as_db = db, as_cache = cache\<rparr>, return x))"

definition length_between :: "nat \<Rightarrow> nat \<Rightarrow> string \<Rightarrow> bool" where
  "length_between lo hi s \<longleftrightarrow> lo \<le> utf8_length s \<and> utf8_length s \<le> hi"

text \<open>A body that its schema rejects is answered by 422.\<close>

definition checked :: "bool \<Rightarrow> 'a res \<Rightarrow> 'a res" where
  "checked ok r = (if ok then r else raise (HTTPException 422))"

subsection \<open>api/auth.py\<close>

record request_source =
  rs_peer :: "string option"
  rs_forwarded_for :: string
  rs_real_ip :: string

definition parse_octet :: "string \<Rightarrow> 32 word option" where
  "parse_octet s =
     (if s \<noteq> [] \<and> list_all is_digit s \<and> length s \<le> 3 \<and> (length s = 1 \<or> hd s \<noteq> CHR ''0'') \<and> digits_value s \<le> 255
      then Some (word_of_int (digits_value s)) else None)"

text \<open>\<^verbatim>\<open>ipaddress.ip_address\<close>; an address of version 6 is in no network of version 4.\<close>

definition parse_ipv4 :: "string \<Rightarrow> 32 word option" where
  "parse_ipv4 s =
     (case map parse_octet (py_split (CHR ''.'') s) of
        [Some a, Some b, Some c, Some d] \<Rightarrow> Some (push_bit 24 a + push_bit 16 b + push_bit 8 c + d)
      | _ \<Rightarrow> None)"

definition TRUSTED_CIDRS :: "(32 word \<times> nat) list" where
  "TRUSTED_CIDRS = [(0x0A000000, 8), (0xAC100000, 12), (0xC0A80000, 16), (0x7F000000, 8)]"

definition in_network :: "32 word \<Rightarrow> 32 word \<times> nat \<Rightarrow> bool" where
  "in_network addr cidr \<longleftrightarrow> (let (network, prefix) = cidr in addr AND push_bit (32 - prefix) (- 1) = network)"

definition is_trusted :: "string \<Rightarrow> bool" where
  "is_trusted peer_ip = (case parse_ipv4 peer_ip of None \<Rightarrow> False | Some addr \<Rightarrow> list_ex (in_network addr) TRUSTED_CIDRS)"

definition get_login_source_key :: "request_source \<Rightarrow> string" where
  "get_login_source_key request =
     (let peer_ip = (case rs_peer request of None \<Rightarrow> ''unknown'' | Some p \<Rightarrow> p);
          forwarded_for = py_strip (rs_forwarded_for request);
          client_ip = (if is_trusted peer_ip
                       then if forwarded_for \<noteq> [] then py_strip (takeWhile (\<lambda>c. c \<noteq> CHR '','') forwarded_for) else py_strip (rs_real_ip request)
                       else peer_ip)
      in ''ip:'' @ (if client_ip = [] then ''unknown'' else client_ip))"

record user_info =
  ui_id :: int
  ui_username :: string
  ui_display_name :: string
  ui_role_name :: string
  ui_is_superadmin :: bool
  ui_password_is_default :: bool
  ui_permissions :: "string list"

definition build_user_info :: "crypto \<Rightarrow> auth_db \<Rightarrow> user_context \<Rightarrow> string \<Rightarrow> user_info" where
  "build_user_info cr db user password_hash =
     \<lparr>ui_id = uc_id user, ui_username = uc_username user, ui_display_name = uc_display_name user, ui_role_name = uc_role_name user,
      ui_is_superadmin = uc_is_superadmin user, ui_password_is_default = cr_verify cr ''admin123'' password_hash,
      ui_permissions = (if uc_is_superadmin user then map pd_code REGISTRY else role_codes (uc_role_id user) db)\<rparr>"

record login_settings =
  ls_failed_max :: int
  ls_lock_minutes :: int
  ls_jwt_expires_hours :: int

definition check_lockout :: "string \<Rightarrow> instant \<Rightarrow> auth_db \<Rightarrow> login_attempt option res" where
  "check_lockout source_key now db =
     (let attempt = find_by la_source_key source_key (a_attempts db)
      in case Option.bind attempt la_locked_until of
           Some locked_until \<Rightarrow> if locked_until > now then raise LoginLocked else return attempt
         | None \<Rightarrow> return attempt)"

definition record_failure :: "login_settings \<Rightarrow> string \<Rightarrow> instant \<Rightarrow> auth_db \<Rightarrow> auth_db" where
  "record_failure st source_key now db =
     (let current_failed = (case find_by la_source_key source_key (a_attempts db) of None \<Rightarrow> 0 | Some a \<Rightarrow> la_failed_count a);
          new_count = current_failed + 1;
          locks = new_count \<ge> ls_failed_max st;
          failed_count = (if locks then 0 else new_count);
          locked_until = (if locks then Some (now + ls_lock_minutes st * 60000000) else None)
      in db\<lparr>a_attempts := upsert la_source_key source_key
                            (\<lambda>a. a\<lparr>la_failed_count := failed_count, la_locked_until := locked_until, la_updated_at := now\<rparr>)
                            \<lparr>la_source_key = source_key, la_failed_count = failed_count, la_locked_until = locked_until, la_updated_at = now\<rparr>
                            (a_attempts db)\<rparr>)"

definition clear_attempts :: "login_attempt option \<Rightarrow> string \<Rightarrow> instant \<Rightarrow> auth_db \<Rightarrow> auth_db" where
  "clear_attempts attempt source_key now db =
     (case attempt of
        None \<Rightarrow> db
      | Some a \<Rightarrow>
          if la_failed_count a \<noteq> 0 \<or> la_locked_until a \<noteq> None
          then db\<lparr>a_attempts := map (\<lambda>r. if la_source_key r = source_key
                    then r\<lparr>la_failed_count := 0, la_locked_until := None, la_updated_at := now\<rparr> else r) (a_attempts db)\<rparr>
          else db)"

text \<open>Both counters, committed before the answer; a key too long for its column loses the transaction.\<close>

definition reject_login :: "login_settings \<Rightarrow> string \<Rightarrow> string \<Rightarrow> instant \<Rightarrow> auth_db \<Rightarrow> auth_db \<times> 'a res" where
  "reject_login st ip_key user_key now db =
     (if fits_text 100 (Some ip_key) \<and> fits_text 100 (Some user_key)
      then (record_failure st user_key now (record_failure st ip_key now db), raise Unauthorized)
      else (db, raise (HTTPException 500)))"

record login_response =
  lo_access_token :: string
  lo_expires_in :: int
  lo_user :: user_info

definition accept_login ::
  "crypto \<Rightarrow> login_settings \<Rightarrow> login_attempt option \<Rightarrow> login_attempt option \<Rightarrow> string \<Rightarrow> string \<Rightarrow> instant \<Rightarrow> sys_user \<times> role_row \<Rightarrow> auth_db \<Rightarrow>
   auth_db \<times> login_response res" where
  "accept_login cr st ip_attempt user_attempt ip_key user_key now row db =
     (let u = fst row;
          db' = update_users (\<lambda>v. su_id v = su_id u) (\<lambda>v. v\<lparr>su_last_login_at := Some now\<rparr>)
                  (clear_attempts user_attempt user_key now (clear_attempts ip_attempt ip_key now db))
      in (db', return \<lparr>lo_access_token = create_access_token cr (su_id u) (su_perm_version u),
                       lo_expires_in = ls_jwt_expires_hours st * 3600,
                       lo_user = build_user_info cr db' (context_of row) (su_password_hash u)\<rparr>))"

definition login ::
  "crypto \<Rightarrow> login_settings \<Rightarrow> instant \<Rightarrow> request_source \<Rightarrow> string \<Rightarrow> string \<Rightarrow> auth_db \<Rightarrow> auth_db \<times> login_response res" where
  "login cr st now request username password db =
     (if \<not> (length_between 1 50 username \<and> length_between 1 128 password) then (db, raise (HTTPException 422))
      else let ip_key = get_login_source_key request; user_key = ''user:'' @ username
           in case check_lockout ip_key now db of
                Inl e \<Rightarrow> (db, raise e)
              | Inr ip_attempt \<Rightarrow>
                  (case check_lockout user_key now db of
                     Inl e \<Rightarrow> (db, raise e)
                   | Inr user_attempt \<Rightarrow>
                       (case joined_user (\<lambda>u. su_username u = username) db of
                          None \<Rightarrow> reject_login st ip_key user_key now db
                        | Some row \<Rightarrow>
                            if \<not> su_is_active (fst row) then reject_login st ip_key user_key now db
                            else if \<not> cr_verify cr password (su_password_hash (fst row)) then reject_login st ip_key user_key now db
                            else accept_login cr st ip_attempt user_attempt ip_key user_key now row db)))"

definition user_hash :: "int \<Rightarrow> auth_db \<Rightarrow> string res" where
  "user_hash user_id db = (case find_by su_id user_id (a_users db) of None \<Rightarrow> raise NoResultFound | Some u \<Rightarrow> return (su_password_hash u))"

definition me :: "crypto \<Rightarrow> user_context \<Rightarrow> auth_db \<Rightarrow> (auth_db \<times> user_info) res" where
  "me cr user db = bind_res (user_hash (uc_id user) db) (\<lambda>h. return (db, build_user_info cr db user h))"

definition set_password :: "crypto \<Rightarrow> string \<Rightarrow> sys_user \<Rightarrow> sys_user" where
  "set_password cr new_password u = bump (u\<lparr>su_password_hash := cr_hash cr new_password\<rparr>)"

definition change_own_password :: "crypto \<Rightarrow> string \<Rightarrow> string \<Rightarrow> user_context \<Rightarrow> auth_db \<Rightarrow> (auth_db \<times> unit) res" where
  "change_own_password cr old_password new_password user db =
     checked (length_between 1 128 old_password \<and> length_between 6 128 new_password)
       (bind_res (user_hash (uc_id user) db) (\<lambda>current_hash.
          if \<not> cr_verify cr old_password current_hash then raise Unauthorized
          else return (update_users (\<lambda>u. su_id u = uc_id user) (set_password cr new_password) db, ())))"

subsection \<open>api/auth\_roles.py\<close>

record role_out =
  rl_id :: int
  rl_name :: string
  rl_description :: string
  rl_is_superadmin :: bool
  rl_user_count :: nat

definition role_to_out :: "auth_db \<Rightarrow> role_row \<Rightarrow> role_out" where
  "role_to_out db r =
     \<lparr>rl_id = ro_id r, rl_name = ro_name r, rl_description = ro_description r, rl_is_superadmin = ro_is_superadmin r,
      rl_user_count = length (filter (\<lambda>u. su_role_id u = ro_id r) (a_users db))\<rparr>"

definition get_role_or_404 :: "int \<Rightarrow> auth_db \<Rightarrow> role_row res" where
  "get_role_or_404 role_id db = (case find_by ro_id role_id (a_roles db) of None \<Rightarrow> raise NotFound | Some r \<Rightarrow> return r)"

definition list_roles :: "user_context \<Rightarrow> auth_db \<Rightarrow> (auth_db \<times> role_out list) res" where
  "list_roles user db = return (db, map (role_to_out db) (a_roles db))"

definition create_role :: "string \<Rightarrow> string \<Rightarrow> user_context \<Rightarrow> auth_db \<Rightarrow> (auth_db \<times> role_out) res" where
  "create_role name description user db =
     checked (length_between 1 50 name \<and> length_between 0 200 description)
       (if list_ex (\<lambda>r. ro_name r = name) (a_roles db) then raise ConflictError
        else let r = \<lparr>ro_id = a_next_role_id db, ro_name = name, ro_description = description, ro_is_superadmin = False\<rparr>
             in return (db\<lparr>a_roles := a_roles db @ [r], a_next_role_id := a_next_role_id db + 1\<rparr>,
                        \<lparr>rl_id = ro_id r, rl_name = name, rl_description = description, rl_is_superadmin = False, rl_user_count = 0\<rparr>))"

definition rename_role :: "string option \<Rightarrow> string option \<Rightarrow> role_row \<Rightarrow> role_row" where
  "rename_role name description r =
     r\<lparr>ro_name := (case name of None \<Rightarrow> ro_name r | Some n \<Rightarrow> n), ro_description := (case description of None \<Rightarrow> ro_description r | Some d \<Rightarrow> d)\<rparr>"

text \<open>The name is unique in the table but not checked here.\<close>

definition update_role :: "int \<Rightarrow> string option \<Rightarrow> string option \<Rightarrow> user_context \<Rightarrow> auth_db \<Rightarrow> (auth_db \<times> role_out) res" where
  "update_role role_id name description user db =
     checked ((case name of None \<Rightarrow> True | Some n \<Rightarrow> length_between 1 50 n) \<and> (case description of None \<Rightarrow> True | Some d \<Rightarrow> length_between 0 200 d))
       (bind_res (get_role_or_404 role_id db) (\<lambda>role.
          if ro_is_superadmin role then raise BusinessError
          else if list_ex (\<lambda>r. ro_id r \<noteq> role_id \<and> name = Some (ro_name r)) (a_roles db) then raise (HTTPException 500)
          else let db' = db\<lparr>a_roles := map (\<lambda>r. if ro_id r = role_id then rename_role name description r else r) (a_roles db)\<rparr>
               in return (db', role_to_out db' (rename_role name description role))))"

definition delete_role :: "int \<Rightarrow> user_context \<Rightarrow> auth_db \<Rightarrow> (auth_db \<times> unit) res" where
  "delete_role role_id user db =
     bind_res (get_role_or_404 role_id db) (\<lambda>role.
       if ro_is_superadmin role then raise BusinessError
       else if list_ex (\<lambda>u. su_role_id u = role_id) (a_users db) then raise BusinessError
       else return (db\<lparr>a_roles := filter (\<lambda>r. ro_id r \<noteq> role_id) (a_roles db),
                       a_role_permissions := filter (\<lambda>(r, p). r \<noteq> role_id) (a_role_permissions db)\<rparr>, ()))"

definition active_permissions :: "auth_db \<Rightarrow> permission_row list" where
  "active_permissions db = filter pm_active (a_permissions db)"

definition get_role_permissions :: "int \<Rightarrow> user_context \<Rightarrow> auth_db \<Rightarrow> (auth_db \<times> string list) res" where
  "get_role_permissions role_id user db =
     bind_res (get_role_or_404 role_id db) (\<lambda>role.
       return (db, if ro_is_superadmin role then map pm_code (sort_key pm_sort_order (active_permissions db)) else role_codes role_id db))"

definition grant :: "int \<Rightarrow> string list \<Rightarrow> auth_db \<Rightarrow> (int \<times> int) list" where
  "grant role_id codes db =
     [(role_id, pm_id p). code \<leftarrow> sort codes, p \<leftarrow> active_permissions db, pm_code p = code]"

definition update_role_permissions :: "int \<Rightarrow> string list \<Rightarrow> user_context \<Rightarrow> auth_db \<Rightarrow> (auth_db \<times> unit) res" where
  "update_role_permissions role_id permission_codes user db =
     bind_res (get_role_or_404 role_id db) (\<lambda>role.
       if ro_is_superadmin role then raise BusinessError
       else let old_codes = role_codes role_id db;
                active_codes = map pm_code (active_permissions db);
                new_codes = expand_permission_dependencies permission_codes active_codes
            in if \<not> set new_codes \<subseteq> set active_codes then raise BusinessError
               else if set new_codes = set old_codes then return (db, ())
               else return (update_users (\<lambda>u. su_role_id u = role_id) bump
                              (db\<lparr>a_role_permissions := filter (\<lambda>(r, p). r \<noteq> role_id) (a_role_permissions db) @ grant role_id new_codes db\<rparr>), ()))"

definition list_permissions :: "user_context \<Rightarrow> auth_db \<Rightarrow> (auth_db \<times> perm_def list) res" where
  "list_permissions user db =
     return (db, map (\<lambda>p. \<lparr>pd_code = pm_code p, pd_name = pm_name p, pd_group_name = pm_group_name p\<rparr>) (sort_key pm_sort_order (active_permissions db)))"

subsection \<open>api/auth\_users.py\<close>

record user_out =
  uo_id :: int
  uo_username :: string
  uo_display_name :: string
  uo_role_id :: int
  uo_role_name :: string
  uo_is_active :: bool
  uo_is_superadmin :: bool
  uo_last_login_at :: "instant option"

definition user_to_out :: "sys_user \<times> role_row \<Rightarrow> user_out" where
  "user_to_out row =
     (let (u, r) = row
      in \<lparr>uo_id = su_id u, uo_username = su_username u, uo_display_name = su_display_name u, uo_role_id = su_role_id u, uo_role_name = ro_name r,
          uo_is_active = su_is_active u, uo_is_superadmin = ro_is_superadmin r, uo_last_login_at = su_last_login_at u\<rparr>)"

text \<open>The answer of a handler: the row as it is after the change.\<close>

definition with_user_out :: "int \<Rightarrow> auth_db \<Rightarrow> (auth_db \<times> user_out option) res" where
  "with_user_out user_id db = return (db, map_option user_to_out (joined_user (\<lambda>u. su_id u = user_id) db))"

definition active_superadmin :: "auth_db \<Rightarrow> sys_user \<Rightarrow> bool" where
  "active_superadmin db u \<longleftrightarrow> su_is_active u \<and> list_ex (\<lambda>r. ro_id r = su_role_id u \<and> ro_is_superadmin r) (a_roles db)"

definition check_last_superadmin :: "int \<Rightarrow> auth_db \<Rightarrow> unit res" where
  "check_last_superadmin user_id db =
     (if list_ex (\<lambda>u. active_superadmin db u \<and> su_id u \<noteq> user_id) (a_users db) then return () else raise BusinessError)"

definition list_users :: "user_context \<Rightarrow> auth_db \<Rightarrow> (auth_db \<times> user_out list) res" where
  "list_users user db = return (db, [user_to_out (u, r). u \<leftarrow> a_users db, r \<leftarrow> a_roles db, ro_id r = su_role_id u])"

definition valid_username :: "string \<Rightarrow> bool" where
  "valid_username s \<longleftrightarrow> length_between 1 50 s \<and> list_all (\<lambda>c. py_isalpha_char c \<or> is_digit c \<or> c = CHR ''_'') s"

definition create_user :: "crypto \<Rightarrow> string \<Rightarrow> string \<Rightarrow> string \<Rightarrow> int \<Rightarrow> user_context \<Rightarrow> auth_db \<Rightarrow> (auth_db \<times> user_out option) res" where
  "create_user cr username display_name password role_id user db =
     checked (valid_username username \<and> length_between 0 50 display_name \<and> length_between 6 128 password)
       (if list_ex (\<lambda>u. su_username u = username) (a_users db) then raise ConflictError
        else if find_by ro_id role_id (a_roles db) = None then raise NotFound
        else let new_user = \<lparr>su_id = a_next_user_id db, su_username = username, su_display_name = display_name,
                             su_password_hash = cr_hash cr password, su_role_id = role_id, su_is_active = True, su_perm_version = 0,
                             su_last_login_at = None\<rparr>
             in with_user_out (a_next_user_id db) (db\<lparr>a_users := a_users db @ [new_user], a_next_user_id := a_next_user_id db + 1\<rparr>))"

definition target_user :: "int \<Rightarrow> auth_db \<Rightarrow> (sys_user \<times> role_row) res" where
  "target_user user_id db = (case joined_user (\<lambda>u. su_id u = user_id) db of None \<Rightarrow> raise NotFound | Some row \<Rightarrow> return row)"

definition set_display :: "string option \<Rightarrow> sys_user \<Rightarrow> sys_user" where
  "set_display display_name u = u\<lparr>su_display_name := (case display_name of None \<Rightarrow> su_display_name u | Some d \<Rightarrow> d)\<rparr>"

definition set_role :: "int \<Rightarrow> sys_user \<Rightarrow> sys_user" where
  "set_role role_id u = bump (u\<lparr>su_role_id := role_id\<rparr>)"

text \<open>The change of the role that a request asks for: \<open>None\<close> when it keeps the role.\<close>

definition new_role_of :: "int option \<Rightarrow> sys_user \<Rightarrow> int option" where
  "new_role_of role_id u = (case role_id of None \<Rightarrow> None | Some r \<Rightarrow> if r \<noteq> su_role_id u then Some r else None)"

definition check_role_change :: "int option \<Rightarrow> int \<Rightarrow> role_row \<Rightarrow> auth_db \<Rightarrow> unit res" where
  "check_role_change change user_id old_role db =
     (case change of
        None \<Rightarrow> return ()
      | Some rid \<Rightarrow>
          (case find_by ro_id rid (a_roles db) of
             None \<Rightarrow> raise NotFound
           | Some new_role \<Rightarrow> if ro_is_superadmin old_role \<and> \<not> ro_is_superadmin new_role then check_last_superadmin user_id db else return ()))"

definition update_user :: "int \<Rightarrow> string option \<Rightarrow> int option \<Rightarrow> user_context \<Rightarrow> auth_db \<Rightarrow> (auth_db \<times> user_out option) res" where
  "update_user user_id display_name role_id user db =
     checked (case display_name of None \<Rightarrow> True | Some d \<Rightarrow> length_between 0 50 d)
       (bind_res (target_user user_id db) (\<lambda>target.
          let change = new_role_of role_id (fst target)
          in bind_res (check_role_change change user_id (snd target) db) (\<lambda>_.
               with_user_out user_id
                 (update_users (\<lambda>u. su_id u = user_id)
                    (\<lambda>u. case change of None \<Rightarrow> set_display display_name u | Some rid \<Rightarrow> set_role rid (set_display display_name u)) db))))"

definition check_delete_user :: "int \<Rightarrow> user_context \<Rightarrow> auth_db \<Rightarrow> unit res" where
  "check_delete_user user_id user db =
     bind_res (target_user user_id db) (\<lambda>target.
       if user_id = uc_id user then raise BusinessError
       else if ro_is_superadmin (snd target) then check_last_superadmin user_id db else return ())"

text \<open>A user whose exports are recorded cannot be removed: the keys of those rows refer to the user.\<close>

definition remove_user :: "int \<Rightarrow> auth_db \<Rightarrow> auth_db res" where
  "remove_user user_id db =
     (if user_id \<in> set (a_exporters db) then raise (HTTPException 500)
      else return (db\<lparr>a_users := filter (\<lambda>u. su_id u \<noteq> user_id) (a_users db)\<rparr>))"

definition delete_user :: "int \<Rightarrow> user_context \<Rightarrow> auth_db \<Rightarrow> (auth_db \<times> unit) res" where
  "delete_user user_id user db =
     bind_res (check_delete_user user_id user db) (\<lambda>_. bind_res (remove_user user_id db) (\<lambda>db'. return (db', ())))"

definition set_active :: "bool \<Rightarrow> sys_user \<Rightarrow> sys_user" where
  "set_active is_active u = bump (u\<lparr>su_is_active := is_active\<rparr>)"

definition toggle_user_status :: "int \<Rightarrow> bool \<Rightarrow> user_context \<Rightarrow> auth_db \<Rightarrow> (auth_db \<times> user_out option) res" where
  "toggle_user_status user_id is_active user db =
     bind_res (target_user user_id db) (\<lambda>target.
       if user_id = uc_id user \<and> \<not> is_active then raise BusinessError
       else bind_res (if \<not> is_active \<and> ro_is_superadmin (snd target) then check_last_superadmin user_id db else return ()) (\<lambda>_.
              with_user_out user_id (update_users (\<lambda>u. su_id u = user_id) (set_active is_active) db)))"

definition reset_password :: "crypto \<Rightarrow> int \<Rightarrow> string \<Rightarrow> user_context \<Rightarrow> auth_db \<Rightarrow> (auth_db \<times> unit) res" where
  "reset_password cr user_id new_password user db =
     checked (length_between 6 128 new_password)
       (if find_by su_id user_id (a_users db) = None then raise NotFound
        else return (update_users (\<lambda>u. su_id u = user_id) (set_password cr new_password) db, ()))"

subsection \<open>Requests\<close>

datatype auth_request =
    Login instant request_source string string
  | Logout
  | Me
  | ChangeOwnPassword string string
  | ListRoles
  | CreateRole string string
  | UpdateRole int "string option" "string option"
  | DeleteRole int
  | GetRolePermissions int
  | UpdateRolePermissions int "string list"
  | ListPermissions
  | ListUsers
  | CreateUser string string string int
  | UpdateUser int "string option" "int option"
  | DeleteUser int
  | ToggleUserStatus int bool
  | ResetPassword int string
  | OtherEndpoint "string list"

definition answered :: "'s \<times> 'a res \<Rightarrow> 's \<times> unit res" where
  "answered x = (fst x, map_sum id (\<lambda>_. ()) (snd x))"

definition AUTH_VIEW :: string where
  "AUTH_VIEW = ''auth:view''"

definition AUTH_MANAGE :: string where
  "AUTH_MANAGE = ''auth:manage''"

text \<open>The routers: which guard stands before which handler. The other endpoints of the application leave these tables alone.\<close>

fun serve :: "crypto \<Rightarrow> login_settings \<Rightarrow> string option \<Rightarrow> auth_request \<Rightarrow> auth_state \<Rightarrow> auth_state \<times> unit res" where
  "serve cr st auth (Login now src username password) s =
     (let (db, r) = login cr st now src username password (as_db s) in answered (s\<lparr>as_db := db\<rparr>, r))"
| "serve cr st auth Logout s = authenticated cr auth (\<lambda>user db. return (db, ())) s"
| "serve cr st auth Me s = answered (authenticated cr auth (me cr) s)"
| "serve cr st auth (ChangeOwnPassword old new) s = authenticated cr auth (change_own_password cr old new) s"
| "serve cr st auth ListRoles s = answered (guarded cr [AUTH_VIEW] auth list_roles s)"
| "serve cr st auth (CreateRole name descr) s = answered (guarded cr [AUTH_MANAGE] auth (create_role name descr) s)"
| "serve cr st auth (UpdateRole rid name descr) s = answered (guarded cr [AUTH_MANAGE] auth (update_role rid name descr) s)"
| "serve cr st auth (DeleteRole rid) s = guarded cr [AUTH_MANAGE] auth (delete_role rid) s"
| "serve cr st auth (GetRolePermissions rid) s = answered (guarded cr [AUTH_VIEW] auth (get_role_permissions rid) s)"
| "serve cr st auth (UpdateRolePermissions rid codes) s = guarded cr [AUTH_MANAGE] auth (update_role_permissions rid codes) s"
| "serve cr st auth ListPermissions s = answered (guarded cr [AUTH_VIEW] auth list_permissions s)"
| "serve cr st auth ListUsers s = answered (guarded cr [AUTH_VIEW] auth list_users s)"
| "serve cr st auth (CreateUser username display password rid) s =
     answered (guarded cr [AUTH_MANAGE] auth (create_user cr username display password rid) s)"
| "serve cr st auth (UpdateUser uid display rid) s = answered (guarded cr [AUTH_MANAGE] auth (update_user uid display rid) s)"
| "serve cr st auth (DeleteUser uid) s = guarded cr [AUTH_MANAGE] auth (delete_user uid) s"
| "serve cr st auth (ToggleUserStatus uid is_active) s = answered (guarded cr [AUTH_MANAGE] auth (toggle_user_status uid is_active) s)"
| "serve cr st auth (ResetPassword uid password) s = guarded cr [AUTH_MANAGE] auth (reset_password cr uid password) s"
| "serve cr st auth (OtherEndpoint codes) s = guarded cr codes auth (\<lambda>user db. return (db, ())) s"

text \<open>
  What happens to the accounts: a request, a start of the process, which synchronises the registry and has an
  empty cache, or an export by a user.
\<close>

inductive auth_step :: "crypto \<Rightarrow> login_settings \<Rightarrow> auth_state \<Rightarrow> auth_state \<Rightarrow> bool" for cr st where
  request: "serve cr st auth req s = (s', r) \<Longrightarrow> auth_step cr st s s'"
| restart: "auth_step cr st s \<lparr>as_db = sync_permissions (as_db s), as_cache = []\<rparr>"
| export: "uid \<in> su_id ` set (a_users (as_db s)) \<Longrightarrow>
    auth_step cr st s (s\<lparr>as_db := (as_db s)\<lparr>a_exporters := uid # a_exporters (as_db s)\<rparr>\<rparr>)"

end
