(* ===== verification/Account_Safety.thy ===== *)
theory Account_Safety
  imports Access_Control
begin

text \<open>
  What the accounts guarantee under any sequence of requests: the tables stay consistent with an active superadministrator,
  a session that was ended stays ended, the cache never shows, only managers change accounts, and a
  user name is tried only so often.
\<close>

section \<open>Invariants\<close>

definition users_ok :: "auth_db \<Rightarrow> bool" where
  "users_ok db \<longleftrightarrow> distinct (map su_id (a_users db)) \<and> distinct (map su_username (a_users db))
     \<and> (\<forall>u \<in> set (a_users db). su_id u < a_next_user_id db \<and> su_role_id u \<in> ro_id ` set (a_roles db))"

definition roles_ok :: "auth_db \<Rightarrow> bool" where
  "roles_ok db \<longleftrightarrow> distinct (map ro_id (a_roles db)) \<and> distinct (map ro_name (a_roles db)) \<and> (\<forall>r \<in> set (a_roles db). ro_id r < a_next_role_id db)"

definition permissions_ok :: "auth_db \<Rightarrow> bool" where
  "permissions_ok db \<longleftrightarrow> distinct (map pm_id (a_permissions db)) \<and> distinct (map pm_code (a_permissions db))
     \<and> (\<forall>p \<in> set (a_permissions db). pm_id p < a_next_permission_id db)
     \<and> (\<forall>(r, p) \<in> set (a_role_permissions db). r \<in> ro_id ` set (a_roles db) \<and> p \<in> pm_id ` set (a_permissions db))"

definition has_superadmin :: "auth_db \<Rightarrow> bool" where
  "has_superadmin db \<longleftrightarrow> (\<exists>u \<in> set (a_users db). active_superadmin db u)"

definition accounts_ok :: "auth_db \<Rightarrow> bool" where
  "accounts_ok db \<longleftrightarrow> users_ok db \<and> roles_ok db \<and> permissions_ok db \<and> has_superadmin db"

text \<open>What a change of the tables means for sessions: no identifier comes back, versions only grow, and a user whose version is kept is as before.\<close>

definition sessions_age :: "auth_db \<Rightarrow> auth_db \<Rightarrow> bool" where
  "sessions_age db db' \<longleftrightarrow> a_next_user_id db \<le> a_next_user_id db'
     \<and> (\<forall>u' \<in> set (a_users db'). a_next_user_id db \<le> su_id u'
          \<or> (\<exists>u \<in> set (a_users db). su_id u = su_id u' \<and> su_perm_version u \<le> su_perm_version u'
               \<and> (su_perm_version u = su_perm_version u' \<longrightarrow> su_role_id u = su_role_id u')))"

definition codes_kept :: "auth_db \<Rightarrow> auth_db \<Rightarrow> bool" where
  "codes_kept db db' \<longleftrightarrow> (\<forall>u \<in> set (a_users db). \<forall>u' \<in> set (a_users db').
     su_id u = su_id u' \<and> su_perm_version u = su_perm_version u' \<longrightarrow> set (role_codes (su_role_id u) db) = set (role_codes (su_role_id u') db'))"

text \<open>A cached entry is of an identifier that was given out, not newer than its user, and right when it is as new.\<close>

definition cache_ok :: "auth_state \<Rightarrow> bool" where
  "cache_ok s \<longleftrightarrow> wf_dict (as_cache s) \<and> length (as_cache s) \<le> CACHE_MAXSIZE
     \<and> (\<forall>(uid, version, perms) \<in> set (as_cache s). uid < a_next_user_id (as_db s)
          \<and> (\<forall>u \<in> set (a_users (as_db s)). su_id u = uid \<longrightarrow> version \<le> su_perm_version u
                \<and> (version = su_perm_version u \<longrightarrow> set perms = set (role_codes (su_role_id u) (as_db s)))))"

lemma sessions_age_refl: "sessions_age db db"
  by (auto simp: sessions_age_def)

lemma sessions_age_trans:
  assumes "sessions_age a b" and "sessions_age b c"
  shows "sessions_age a c"
  unfolding sessions_age_def
proof (intro conjI ballI)
  show "a_next_user_id a \<le> a_next_user_id c" using assms by (simp add: sessions_age_def)
next
  fix w assume w: "w \<in> set (a_users c)"
  show "a_next_user_id a \<le> su_id w
          \<or> (\<exists>u \<in> set (a_users a). su_id u = su_id w \<and> su_perm_version u \<le> su_perm_version w
               \<and> (su_perm_version u = su_perm_version w \<longrightarrow> su_role_id u = su_role_id w))"
  proof (cases "a_next_user_id b \<le> su_id w")
    case True
    then show ?thesis using assms(1) by (auto simp: sessions_age_def)
  next
    case False
    then obtain v where v: "v \<in> set (a_users b)" "su_id v = su_id w" "su_perm_version v \<le> su_perm_version w"
      "su_perm_version v = su_perm_version w \<longrightarrow> su_role_id v = su_role_id w"
      using assms(2) w unfolding sessions_age_def by blast
    show ?thesis
    proof (cases "a_next_user_id a \<le> su_id v")
      case True
      then show ?thesis using v(2) by simp
    next
      case False
      then obtain u where "u \<in> set (a_users a)" "su_id u = su_id v" "su_perm_version u \<le> su_perm_version v"
        "su_perm_version u = su_perm_version v \<longrightarrow> su_role_id u = su_role_id v"
        using assms(1) v(1) unfolding sessions_age_def by blast
      then show ?thesis using v by (intro disjI2 bexI [of _ u]) auto
    qed
  qed
qed

lemma cache_ok_step:
  assumes "cache_ok s" and "sessions_age (as_db s) db" and "codes_kept (as_db s) db"
  shows "cache_ok (s\<lparr>as_db := db\<rparr>)"
proof -
  have "uid < a_next_user_id db \<and> (\<forall>u \<in> set (a_users db). su_id u = uid \<longrightarrow> version \<le> su_perm_version u
      \<and> (version = su_perm_version u \<longrightarrow> set perms = set (role_codes (su_role_id u) db)))"
    if entry: "(uid, version, perms) \<in> set (as_cache s)" for uid version perms
  proof (intro conjI ballI impI)
    have old: "uid < a_next_user_id (as_db s)"
      "\<And>u. u \<in> set (a_users (as_db s)) \<Longrightarrow> su_id u = uid \<Longrightarrow> version \<le> su_perm_version u
         \<and> (version = su_perm_version u \<longrightarrow> set perms = set (role_codes (su_role_id u) (as_db s)))"
      using assms(1) entry unfolding cache_ok_def by auto
    show "uid < a_next_user_id db" using old(1) assms(2) by (simp add: sessions_age_def)
    fix u' assume u': "u' \<in> set (a_users db)" "su_id u' = uid"
    then obtain u where u: "u \<in> set (a_users (as_db s))" "su_id u = su_id u'" "su_perm_version u \<le> su_perm_version u'"
      using assms(2) old(1) unfolding sessions_age_def by fastforce
    show "version \<le> su_perm_version u'" using old(2) [OF u(1)] u u' by simp
    assume "version = su_perm_version u'"
    then have "su_perm_version u = su_perm_version u'" "version = su_perm_version u" using old(2) [OF u(1)] u u'(2) by auto
    then show "set perms = set (role_codes (su_role_id u') db)"
      using old(2) [OF u(1)] u u' assms(3) unfolding codes_kept_def by blast
  qed
  then show ?thesis using assms(1) unfolding cache_ok_def by auto
qed

section \<open>The cache\<close>

lemma move_to_end_set [simp]: "set (move_to_end k d) = set d"
  by (auto simp: move_to_end_def)

lemma move_to_end_length [simp]: "length (move_to_end k d) = length d"
  unfolding move_to_end_def length_append by (induction d) auto

lemma move_to_end_wf [simp]: "wf_dict d \<Longrightarrow> wf_dict (move_to_end k d)"
  by (auto simp: move_to_end_def distinct_map inj_on_def)

lemma dict_set_mem: "(j, v) \<in> set (dict_set k x d) \<Longrightarrow> (j, v) = (k, x) \<or> (j, v) \<in> set d"
  unfolding dict_set_def by (induction d) (auto split: if_splits)

lemma dict_get_mem: "dict_get d k = Some v \<Longrightarrow> (k, v) \<in> set d"
  unfolding dict_get_def by (rule map_of_SomeD)

lemma cache_set_spec:
  assumes "wf_dict store"
  shows "wf_dict (cache_set uid v perms store) \<and> length (cache_set uid v perms store) \<le> CACHE_MAXSIZE
    \<and> set (cache_set uid v perms store) \<subseteq> insert (uid, v, perms) (set store)"
proof -
  define d where "d = move_to_end uid (dict_set uid (v, perms) store)"
  have "wf_dict d" unfolding d_def using assms by (intro move_to_end_wf) simp
  moreover have "set d \<subseteq> insert (uid, v, perms) (set store)" unfolding d_def using dict_set_mem by fastforce
  moreover have "cache_set uid v perms store = drop (length d - CACHE_MAXSIZE) d" by (simp add: cache_set_def d_def Let_def)
  ultimately show ?thesis by (auto simp: drop_map [symmetric] dest: in_set_dropD)
qed

lemma cache_get_spec:
  assumes "wf_dict store"
  shows "wf_dict (snd (cache_get uid v store)) \<and> length (snd (cache_get uid v store)) = length store \<and> set (snd (cache_get uid v store)) = set store
    \<and> (\<forall>perms. fst (cache_get uid v store) = Some perms \<longrightarrow> (uid, v, perms) \<in> set store)"
  using assms by (auto simp: cache_get_def dest: dict_get_mem split: option.splits)

text \<open>The user a request acts for.\<close>

lemma joined_user_Some:
  assumes "joined_user p db = Some (u, r)"
  shows "u \<in> set (a_users db) \<and> p u \<and> r \<in> set (a_roles db) \<and> ro_id r = su_role_id u"
proof -
  have "(u, r) \<in> set [(u, r). u \<leftarrow> a_users db, p u, r \<leftarrow> a_roles db, ro_id r = su_role_id u]"
    using assms unfolding joined_user_def by (auto split: list.splits simp del: set_concat)
  then show ?thesis by auto
qed

lemma token_user_Inr:
  assumes "token_user payload db = Inr user"
  obtains u r uid where "Option.bind (jp_sub payload) py_int = Some uid" and "u \<in> set (a_users db)" and "su_id u = uid" and "r \<in> set (a_roles db)"
    and "ro_id r = su_role_id u" and "su_is_active u" and "user = context_of (u, r)"
    and "su_perm_version u = (case jp_pv payload of None \<Rightarrow> - 1 | Some pv \<Rightarrow> pv)"
proof -
  obtain uid where uid: "Option.bind (jp_sub payload) py_int = Some uid"
    using assms unfolding token_user_def by (cases "Option.bind (jp_sub payload) py_int") simp_all
  obtain u r where j: "joined_user (\<lambda>u. su_id u = uid) db = Some (u, r)"
    using assms uid unfolding token_user_def by (cases "joined_user (\<lambda>u. su_id u = uid) db") auto
  note j' = joined_user_Some [OF j]
  have "su_is_active u \<and> su_perm_version u = (case jp_pv payload of None \<Rightarrow> - 1 | Some pv \<Rightarrow> pv) \<and> user = context_of (u, r)"
    using assms uid j unfolding token_user_def by (simp split: if_splits)
  then show ?thesis using that [OF uid] j' by blast
qed

lemma current_user_Inr:
  assumes "get_current_user cr auth db = Inr user"
  obtains payload where "token_user payload db = Inr user"
  using assms unfolding get_current_user_def by (auto simp: bind_res_Inr_iff split: option.splits)

lemma current_user_row:
  assumes "get_current_user cr auth db = Inr user"
  obtains u r where "u \<in> set (a_users db)" and "r \<in> set (a_roles db)" and "ro_id r = su_role_id u" and "user = context_of (u, r)"
proof -
  from current_user_Inr [OF assms] obtain payload where "token_user payload db = Inr user" .
  then show ?thesis using that by (elim token_user_Inr) blast
qed

lemma context_of_simps [simp]:
  "uc_id (context_of (u, r)) = su_id u" "uc_role_id (context_of (u, r)) = su_role_id u" "uc_perm_version (context_of (u, r)) = su_perm_version u"
  "uc_is_superadmin (context_of (u, r)) = ro_is_superadmin r"
  by (simp_all add: context_of_def)

text \<open>What the tables say a user may do.\<close>

definition granted :: "user_context \<Rightarrow> auth_db \<Rightarrow> string set" where
  "granted user db = (if uc_is_superadmin user then set ALL_CODES else set (role_codes (uc_role_id user) db))"

lemma distinct_ids: "distinct (map key xs) \<Longrightarrow> x \<in> set xs \<Longrightarrow> y \<in> set xs \<Longrightarrow> key x = key y \<Longrightarrow> x = y"
  by (auto simp: distinct_map inj_on_def)

lemma current_permissions:
  assumes ok: "cache_ok s" and users: "users_ok (as_db s)" and row: "u \<in> set (a_users (as_db s))"
    and run: "get_current_permissions (context_of (u, r)) (as_db s) (as_cache s) = (perms, cache)"
  shows "cache_ok (s\<lparr>as_cache := cache\<rparr>) \<and> set perms = granted (context_of (u, r)) (as_db s)"
proof (cases "ro_is_superadmin r")
  case True
  then show ?thesis using run ok by (auto simp: get_current_permissions_def granted_def cache_ok_def)
next
  case False
  obtain hit store where get: "cache_get (su_id u) (su_perm_version u) (as_cache s) = (hit, store)" by (metis surj_pair)
  have wf: "wf_dict (as_cache s)" and len: "length (as_cache s) \<le> CACHE_MAXSIZE" using ok by (simp_all add: cache_ok_def)
  note spec = cache_get_spec [OF wf, of "su_id u" "su_perm_version u", unfolded get fst_conv snd_conv]
  have entries: "uid < a_next_user_id (as_db s) \<and> (\<forall>u \<in> set (a_users (as_db s)). su_id u = uid \<longrightarrow> version \<le> su_perm_version u
      \<and> (version = su_perm_version u \<longrightarrow> set perms = set (role_codes (su_role_id u) (as_db s))))"
    if "(uid, version, perms) \<in> set (as_cache s)" for uid version perms
    using ok that unfolding cache_ok_def by auto
  show ?thesis
  proof (cases hit)
    case (Some p)
    then have c: "perms = p" "cache = store" using run False get by (simp_all add: get_current_permissions_def)
    have "(su_id u, su_perm_version u, p) \<in> set (as_cache s)" using spec Some by simp
    from entries [OF this] have "set p = set (role_codes (su_role_id u) (as_db s))" using row by blast
    then show ?thesis using spec len entries False by (auto simp: c cache_ok_def granted_def)
  next
    case None
    define p where "p = role_codes (su_role_id u) (as_db s)"
    have c: "perms = p" "cache = cache_set (su_id u) (su_perm_version u) p store"
      using run False get None by (auto simp: get_current_permissions_def p_def Let_def)
    note st = cache_set_spec [of store "su_id u" "su_perm_version u" p]
    have new: "su_id u < a_next_user_id (as_db s) \<and> (\<forall>v \<in> set (a_users (as_db s)). su_id v = su_id u \<longrightarrow> su_perm_version u \<le> su_perm_version v
        \<and> (su_perm_version u = su_perm_version v \<longrightarrow> set p = set (role_codes (su_role_id v) (as_db s))))"
      using users row distinct_ids [of su_id "a_users (as_db s)"] unfolding users_ok_def p_def by auto
    have "uid < a_next_user_id (as_db s) \<and> (\<forall>u \<in> set (a_users (as_db s)). su_id u = uid \<longrightarrow> version \<le> su_perm_version u
        \<and> (version = su_perm_version u \<longrightarrow> set perms = set (role_codes (su_role_id u) (as_db s))))"
      if "(uid, version, perms) \<in> set cache" for uid version perms
    proof (cases "(uid, version, perms) \<in> set (as_cache s)")
      case True
      then show ?thesis by (rule entries)
    next
      case False
      then have "(uid, version, perms) = (su_id u, su_perm_version u, p)" using that st spec unfolding c(2) by auto
      then show ?thesis using new by simp
    qed
    then have "\<forall>(uid, version, perms) \<in> set cache. uid < a_next_user_id (as_db s) \<and> (\<forall>u \<in> set (a_users (as_db s)). su_id u = uid \<longrightarrow>
        version \<le> su_perm_version u \<and> (version = su_perm_version u \<longrightarrow> set perms = set (role_codes (su_role_id u) (as_db s))))"
      by blast
    moreover have "wf_dict cache" "length cache \<le> CACHE_MAXSIZE" using st spec unfolding c(2) by simp_all
    moreover have "set perms = granted (context_of (u, r)) (as_db s)" by (simp add: c(1) p_def granted_def False)
    ultimately show ?thesis by (simp add: cache_ok_def)
  qed
qed

section \<open>The handlers\<close>

text \<open>A handler keeps the accounts when it is one transaction from a consistent state to a consistent state, with sessions ageing.\<close>

definition accounts_move :: "auth_db \<Rightarrow> auth_db \<Rightarrow> bool" where
  "accounts_move db db' \<longleftrightarrow> accounts_ok db' \<and> sessions_age db db' \<and> codes_kept db db'"

lemma accounts_move_refl: "accounts_ok db \<Longrightarrow> accounts_move db db"
  by (auto simp: accounts_move_def sessions_age_refl codes_kept_def accounts_ok_def users_ok_def dest: distinct_ids [rotated 3])

lemma role_codes_cong: "a_permissions db' = a_permissions db \<Longrightarrow> a_role_permissions db' = a_role_permissions db \<Longrightarrow> role_codes rid db' = role_codes rid db"
  unfolding role_codes_def by (simp only:)

lemma role_codes_iff: "c \<in> set (role_codes rid db) \<longleftrightarrow> (\<exists>p \<in> set (a_permissions db). pm_active p \<and> pm_code p = c \<and> (rid, pm_id p) \<in> set (a_role_permissions db))"
  by (auto simp: role_codes_def)

lemma codes_keptI:
  assumes age: "sessions_age db db'" and ok: "users_ok db"
    and same: "\<And>u u'. u \<in> set (a_users db) \<Longrightarrow> u' \<in> set (a_users db') \<Longrightarrow> su_id u = su_id u' \<Longrightarrow> su_perm_version u = su_perm_version u' \<Longrightarrow>
      set (role_codes (su_role_id u) db') = set (role_codes (su_role_id u) db)"
  shows "codes_kept db db'"
  unfolding codes_kept_def
proof (intro ballI impI, elim conjE)
  fix u u' assume u: "u \<in> set (a_users db)" "u' \<in> set (a_users db')" "su_id u = su_id u'" "su_perm_version u = su_perm_version u'"
  have "su_id u < a_next_user_id db" using ok u(1) by (simp add: users_ok_def)
  then obtain v where v: "v \<in> set (a_users db)" "su_id v = su_id u'" "su_perm_version v = su_perm_version u' \<longrightarrow> su_role_id v = su_role_id u'"
    using age u(2,3) unfolding sessions_age_def by fastforce
  have "v = u" using ok u(1,3) v(1,2) distinct_ids [of su_id "a_users db" v u] by (simp add: users_ok_def)
  then have "su_role_id u = su_role_id u'" using v(3) u(4) by simp
  then show "set (role_codes (su_role_id u) db) = set (role_codes (su_role_id u') db')" using same [OF u] by simp
qed

lemma update_users_simps [simp]:
  "a_roles (update_users p f db) = a_roles db" "a_permissions (update_users p f db) = a_permissions db"
  "a_role_permissions (update_users p f db) = a_role_permissions db" "a_next_user_id (update_users p f db) = a_next_user_id db"
  "a_next_role_id (update_users p f db) = a_next_role_id db" "a_next_permission_id (update_users p f db) = a_next_permission_id db"
  "a_users (update_users p f db) = map (\<lambda>u. if p u then f u else u) (a_users db)"
  by (simp_all add: update_users_def)

text \<open>Changing users in place.\<close>

lemma update_users_move:
  assumes ok: "accounts_ok db"
    and f: "\<And>u. u \<in> set (a_users db) \<Longrightarrow> p u \<Longrightarrow> su_id (f u) = su_id u \<and> su_username (f u) = su_username u \<and> su_role_id (f u) \<in> ro_id ` set (a_roles db)
      \<and> su_perm_version u \<le> su_perm_version (f u) \<and> (su_perm_version u = su_perm_version (f u) \<longrightarrow> su_role_id u = su_role_id (f u))"
    and admin: "has_superadmin (update_users p f db)"
  shows "accounts_move db (update_users p f db)"
proof -
  define g where "g = (\<lambda>u. if p u then f u else u)"
  have g: "su_id (g u) = su_id u" "su_username (g u) = su_username u" "su_role_id (g u) \<in> ro_id ` set (a_roles db)"
    "su_perm_version u \<le> su_perm_version (g u)" "su_perm_version u = su_perm_version (g u) \<Longrightarrow> su_role_id u = su_role_id (g u)"
    if "u \<in> set (a_users db)" for u
    using f [OF that] ok that by (auto simp: g_def accounts_ok_def users_ok_def)
  have users: "a_users (update_users p f db) = map g (a_users db)" by (simp add: g_def)
  have names: "map su_id (map g (a_users db)) = map su_id (a_users db)" "map su_username (map g (a_users db)) = map su_username (a_users db)"
    using g(1,2) by auto
  have "\<forall>u \<in> set (map g (a_users db)). su_id u < a_next_user_id db \<and> su_role_id u \<in> ro_id ` set (a_roles db)"
    using ok g(1,3) by (auto simp: accounts_ok_def users_ok_def)
  then have "users_ok (update_users p f db)"
    using ok unfolding users_ok_def users names accounts_ok_def by simp
  then have "accounts_ok (update_users p f db)"
    using ok admin by (simp add: accounts_ok_def roles_ok_def permissions_ok_def)
  moreover have "sessions_age db (update_users p f db)"
    unfolding sessions_age_def users using g by auto
  moreover from calculation have "codes_kept db (update_users p f db)"
    using ok by (intro codes_keptI) (simp_all add: accounts_ok_def role_codes_cong [of "update_users p f db" db])
  ultimately show ?thesis by (simp add: accounts_move_def)
qed

lemma superadmin_update:
  assumes "has_superadmin db" and "\<And>u. u \<in> set (a_users db) \<Longrightarrow> p u \<Longrightarrow> active_superadmin db u \<Longrightarrow> active_superadmin db (f u)"
  shows "has_superadmin (update_users p f db)"
proof -
  obtain u where u: "u \<in> set (a_users db)" "active_superadmin db u" using assms(1) by (auto simp: has_superadmin_def)
  have "active_superadmin db (if p u then f u else u)" using assms(2) u by simp
  moreover have "(if p u then f u else u) \<in> set (a_users (update_users p f db))" using u(1) by auto
  ultimately show ?thesis unfolding has_superadmin_def active_superadmin_def update_users_simps by blast
qed

lemma superadmin_other:
  assumes "check_last_superadmin uid db = Inr x"
  shows "has_superadmin (update_users (\<lambda>u. su_id u = uid) f db)"
  using assms by (force simp: check_last_superadmin_def has_superadmin_def list_ex_iff active_superadmin_def split: if_splits)

lemma bump_simps [simp]:
  "su_id (bump u) = su_id u" "su_username (bump u) = su_username u" "su_role_id (bump u) = su_role_id u" "su_is_active (bump u) = su_is_active u"
  "su_perm_version (bump u) = su_perm_version u + 1"
  by (simp_all add: bump_def)

lemmas user_edits = set_password_def set_display_def set_role_def set_active_def

lemma checked_Inr [simp]: "checked ok r = Inr x \<longleftrightarrow> ok \<and> r = Inr x"
  by (simp add: checked_def)

text \<open>Users in place, users added and removed, roles and grants.\<close>

lemma change_own_password_move: "accounts_ok db \<Longrightarrow> change_own_password cr old new user db = Inr (db', x) \<Longrightarrow> accounts_move db db'"
  by (auto simp: change_own_password_def bind_res_Inr_iff user_edits active_superadmin_def accounts_ok_def users_ok_def
      intro!: update_users_move superadmin_update split: if_splits)

lemma reset_password_move: "accounts_ok db \<Longrightarrow> reset_password cr uid new user db = Inr (db', x) \<Longrightarrow> accounts_move db db'"
  by (auto simp: reset_password_def user_edits active_superadmin_def accounts_ok_def users_ok_def
      intro!: update_users_move superadmin_update split: if_splits)

lemma target_user_Inr:
  assumes "target_user uid db = Inr (u, r)"
  shows "u \<in> set (a_users db) \<and> su_id u = uid \<and> r \<in> set (a_roles db) \<and> ro_id r = su_role_id u"
  using assms joined_user_Some [of "\<lambda>u. su_id u = uid" db u r] by (simp add: target_user_def split: option.splits)

text \<open>A user whose role is no superadministrator's is not an active superadministrator.\<close>

lemma target_superadmin:
  assumes "accounts_ok db" and "target_user uid db = Inr (u, r)" and "v \<in> set (a_users db)" and "su_id v = uid" and "active_superadmin db v"
  shows "ro_is_superadmin r"
proof -
  note t = target_user_Inr [OF assms(2)]
  have "v = u" using assms(1,3,4) t distinct_ids [of su_id "a_users db" v u] by (simp add: accounts_ok_def users_ok_def)
  then obtain q where q: "q \<in> set (a_roles db)" "ro_id q = su_role_id u" "ro_is_superadmin q"
    using assms(5) by (auto simp: active_superadmin_def list_ex_iff)
  have "q = r" using assms(1) t q distinct_ids [of ro_id "a_roles db" q r] by (simp add: accounts_ok_def roles_ok_def)
  then show ?thesis using q(3) by simp
qed

lemma toggle_user_status_move:
  assumes ok: "accounts_ok db" and run: "toggle_user_status uid is_active user db = Inr (db', x)"
  shows "accounts_move db db'"
proof -
  obtain u r where t: "target_user uid db = Inr (u, r)" and safe: "\<not> is_active \<Longrightarrow> ro_is_superadmin r \<Longrightarrow> check_last_superadmin uid db = Inr ()"
    and db': "db' = update_users (\<lambda>u. su_id u = uid) (set_active is_active) db"
    using run by (auto simp: toggle_user_status_def with_user_out_def bind_res_Inr_iff split: if_splits)
  have "has_superadmin db'"
  proof (cases "\<not> is_active \<and> ro_is_superadmin r")
    case True
    then show ?thesis using superadmin_other [of uid db] safe unfolding db' by blast
  next
    case False
    then show ?thesis
      using ok target_superadmin [OF ok t] unfolding db'
      by (intro superadmin_update) (auto simp: accounts_ok_def active_superadmin_def user_edits)
  qed
  then show ?thesis unfolding db' using ok by (intro update_users_move) (auto simp: user_edits accounts_ok_def users_ok_def)
qed

lemma update_user_move:
  assumes ok: "accounts_ok db" and run: "update_user uid display rid user db = Inr (db', x)"
  shows "accounts_move db db'"
proof -
  obtain u r where t: "target_user uid db = Inr (u, r)" and chk: "check_role_change (new_role_of rid u) uid r db = Inr ()"
    and db': "db' = update_users (\<lambda>u. su_id u = uid)
      (\<lambda>v. case new_role_of rid u of None \<Rightarrow> set_display display v | Some i \<Rightarrow> set_role i (set_display display v)) db"
    using run by (auto simp: update_user_def with_user_out_def bind_res_Inr_iff Let_def)
  show ?thesis
  proof (cases "new_role_of rid u")
    case None
    then show ?thesis unfolding db' using ok
      by (auto simp: user_edits active_superadmin_def accounts_ok_def users_ok_def intro!: update_users_move superadmin_update)
  next
    case (Some i)
    obtain q where q: "q \<in> set (a_roles db)" "ro_id q = i" "ro_is_superadmin r \<Longrightarrow> \<not> ro_is_superadmin q \<Longrightarrow> check_last_superadmin uid db = Inr ()"
      using chk Some find_by_Some [of ro_id i "a_roles db"] by (auto simp: check_role_change_def split: option.splits if_splits)
    have "has_superadmin db'"
    proof (cases "ro_is_superadmin r \<and> \<not> ro_is_superadmin q")
      case True
      then show ?thesis using superadmin_other [of uid db] q(3) unfolding db' by blast
    next
      case False
      then show ?thesis
        using ok target_superadmin [OF ok t] q(1,2) unfolding db' Some
        by (intro superadmin_update) (auto simp: accounts_ok_def active_superadmin_def user_edits list_ex_iff)
    qed
    then show ?thesis unfolding db' Some using ok q(1,2) by (intro update_users_move) (auto simp: user_edits)
  qed
qed

lemma accounts_moveI:
  assumes "accounts_ok db" and "accounts_ok db'" and "sessions_age db db'"
    and "\<And>u. u \<in> set (a_users db) \<Longrightarrow> set (role_codes (su_role_id u) db') = set (role_codes (su_role_id u) db)"
  shows "accounts_move db db'"
  using assms codes_keptI [of db db'] by (simp add: accounts_move_def accounts_ok_def)

lemma create_user_move:
  assumes ok: "accounts_ok db" and run: "create_user cr name display password rid user db = Inr (db', x)"
  shows "accounts_move db db'"
proof -
  define u where "u = \<lparr>su_id = a_next_user_id db, su_username = name, su_display_name = display, su_password_hash = cr_hash cr password,
    su_role_id = rid, su_is_active = True, su_perm_version = 0, su_last_login_at = None\<rparr>"
  have fresh: "name \<notin> su_username ` set (a_users db)" and role: "rid \<in> ro_id ` set (a_roles db)"
    and db': "db' = db\<lparr>a_users := a_users db @ [u], a_next_user_id := a_next_user_id db + 1\<rparr>"
    using run find_by_None [of ro_id rid "a_roles db"] by (auto simp: create_user_def with_user_out_def u_def list_ex_iff Let_def split: if_splits)
  have "su_id u = a_next_user_id db" "su_username u = name" "su_role_id u = rid" by (simp_all add: u_def)
  note u = this
  have "users_ok db'" using ok fresh role u by (auto simp: db' users_ok_def accounts_ok_def)
  moreover have "has_superadmin db'" using ok by (auto simp: db' has_superadmin_def accounts_ok_def active_superadmin_def)
  ultimately have "accounts_ok db'" using ok by (simp add: db' accounts_ok_def roles_ok_def permissions_ok_def)
  moreover have "sessions_age db db'" using u by (auto simp: db' sessions_age_def)
  ultimately show ?thesis using ok by (intro accounts_moveI) (simp_all add: db' role_codes_def)
qed

lemma delete_user_move:
  assumes ok: "accounts_ok db" and run: "delete_user uid user db = Inr (db', x)"
  shows "accounts_move db db'"
proof -
  obtain u r where t: "target_user uid db = Inr (u, r)" and safe: "ro_is_superadmin r \<Longrightarrow> check_last_superadmin uid db = Inr ()"
    and db': "db' = db\<lparr>a_users := filter (\<lambda>u. su_id u \<noteq> uid) (a_users db)\<rparr>"
    using run by (auto simp: delete_user_def check_delete_user_def remove_user_def bind_res_Inr_iff split: if_splits)
  have "\<exists>v \<in> set (a_users db). active_superadmin db v \<and> su_id v \<noteq> uid"
  proof (cases "ro_is_superadmin r")
    case True
    then show ?thesis using safe by (auto simp: check_last_superadmin_def list_ex_iff split: if_splits)
  next
    case False
    then show ?thesis using ok target_superadmin [OF ok t] by (auto simp: accounts_ok_def has_superadmin_def)
  qed
  then have "has_superadmin db'" by (auto simp: db' has_superadmin_def active_superadmin_def)
  moreover have "users_ok db'" using ok by (auto simp: db' users_ok_def accounts_ok_def distinct_map inj_on_def)
  ultimately have "accounts_ok db'" using ok by (simp add: db' accounts_ok_def roles_ok_def permissions_ok_def)
  moreover have "sessions_age db db'" by (auto simp: db' sessions_age_def)
  ultimately show ?thesis using ok by (intro accounts_moveI) (simp_all add: db' role_codes_def)
qed

text \<open>Changing the roles, with the users and their rights as they were.\<close>

lemma roles_move:
  assumes ok: "accounts_ok db" and roles: "roles_ok db'" and users: "a_users db' = a_users db" "a_next_user_id db' = a_next_user_id db"
    and perms: "a_permissions db' = a_permissions db" "a_next_permission_id db' = a_next_permission_id db"
    and used: "\<And>u. u \<in> set (a_users db) \<Longrightarrow> su_role_id u \<in> ro_id ` set (a_roles db')"
    and admins: "\<And>r. r \<in> set (a_roles db) \<Longrightarrow> ro_is_superadmin r \<Longrightarrow> \<exists>q \<in> set (a_roles db'). ro_id q = ro_id r \<and> ro_is_superadmin q"
    and grants: "\<forall>(r, p) \<in> set (a_role_permissions db'). r \<in> ro_id ` set (a_roles db') \<and> p \<in> pm_id ` set (a_permissions db)"
    and codes: "\<And>u. u \<in> set (a_users db) \<Longrightarrow> set (role_codes (su_role_id u) db') = set (role_codes (su_role_id u) db)"
  shows "accounts_move db db'"
proof -
  have "users_ok db'" using ok used by (simp add: users_ok_def accounts_ok_def users)
  moreover have "permissions_ok db'" using ok grants by (simp add: permissions_ok_def accounts_ok_def perms)
  moreover have "has_superadmin db'"
    using ok admins unfolding has_superadmin_def accounts_ok_def active_superadmin_def users by (auto simp: list_ex_iff) metis
  ultimately have "accounts_ok db'" using roles by (simp add: accounts_ok_def)
  moreover have "sessions_age db db'" by (auto simp: sessions_age_def users)
  ultimately show ?thesis using ok codes by (intro accounts_moveI)
qed

lemma create_role_move:
  assumes ok: "accounts_ok db" and run: "create_role name descr user db = Inr (db', x)"
  shows "accounts_move db db'"
proof -
  have fresh: "name \<notin> ro_name ` set (a_roles db)"
    and db': "db' = db\<lparr>a_roles := a_roles db @ [\<lparr>ro_id = a_next_role_id db, ro_name = name, ro_description = descr, ro_is_superadmin = False\<rparr>],
      a_next_role_id := a_next_role_id db + 1\<rparr>"
    using run by (auto simp: create_role_def list_ex_iff Let_def split: if_splits)
  show ?thesis
    by (rule roles_move [OF ok]) (use ok fresh in \<open>auto simp: db' roles_ok_def accounts_ok_def users_ok_def permissions_ok_def role_codes_def\<close>)
qed

lemma get_role_Inr: "get_role_or_404 rid db = Inr role \<Longrightarrow> role \<in> set (a_roles db) \<and> ro_id role = rid"
  using find_by_Some [of ro_id rid "a_roles db" role] by (simp add: get_role_or_404_def split: option.splits)

lemma update_role_move:
  assumes ok: "accounts_ok db" and run: "update_role rid name descr user db = Inr (db', x)"
  shows "accounts_move db db'"
proof -
  define g where "g = (\<lambda>r. if ro_id r = rid then rename_role name descr r else r)"
  have fresh: "\<And>r. r \<in> set (a_roles db) \<Longrightarrow> ro_id r \<noteq> rid \<Longrightarrow> name \<noteq> Some (ro_name r)"
    and db': "db' = db\<lparr>a_roles := map g (a_roles db)\<rparr>"
    using run by (auto simp: update_role_def g_def bind_res_Inr_iff list_ex_iff Let_def split: if_splits)
  have g: "ro_id (g r) = ro_id r" "ro_is_superadmin (g r) = ro_is_superadmin r" for r by (simp_all add: g_def rename_role_def)
  have name: "ro_name (g r) = (if ro_id r = rid then (case name of None \<Rightarrow> ro_name r | Some n \<Rightarrow> n) else ro_name r)" for r
    by (simp add: g_def rename_role_def)
  have "inj_on (\<lambda>r. ro_name (g r)) (set (a_roles db))"
    using ok fresh unfolding inj_on_def name
    by (auto simp: accounts_ok_def roles_ok_def split: option.splits dest: distinct_ids)
  then have "distinct (map ro_name (map g (a_roles db)))"
    using ok by (simp add: accounts_ok_def roles_ok_def distinct_map comp_def)
  moreover have "distinct (map (ro_id \<circ> g) (a_roles db))" using ok g(1) by (simp add: accounts_ok_def roles_ok_def comp_def)
  moreover have "ro_id ` set (map g (a_roles db)) = ro_id ` set (a_roles db)" using g(1) by (force simp: image_image)
  ultimately show ?thesis
    using ok g unfolding db'
    by (intro roles_move [OF ok]) (auto simp: roles_ok_def accounts_ok_def users_ok_def permissions_ok_def role_codes_def)
qed

lemma delete_role_move:
  assumes ok: "accounts_ok db" and run: "delete_role rid user db = Inr (db', x)"
  shows "accounts_move db db'"
proof -
  obtain role where role: "get_role_or_404 rid db = Inr role" and plain: "\<not> ro_is_superadmin role"
    and unused: "\<And>u. u \<in> set (a_users db) \<Longrightarrow> su_role_id u \<noteq> rid"
    and db': "db' = db\<lparr>a_roles := filter (\<lambda>r. ro_id r \<noteq> rid) (a_roles db), a_role_permissions := filter (\<lambda>(r, p). r \<noteq> rid) (a_role_permissions db)\<rparr>"
    using run by (auto simp: delete_role_def bind_res_Inr_iff list_ex_iff split: if_splits)
  have "ro_id r \<noteq> rid" if "r \<in> set (a_roles db)" "ro_is_superadmin r" for r
    using get_role_Inr [OF role] plain that ok distinct_ids [of ro_id "a_roles db" r role] by (auto simp: accounts_ok_def roles_ok_def)
  moreover have "set (role_codes (su_role_id u) db') = set (role_codes (su_role_id u) db)" if "u \<in> set (a_users db)" for u
    using unused [OF that] by (auto simp: role_codes_iff db')
  moreover have "roles_ok db'" using ok by (auto simp: db' roles_ok_def accounts_ok_def distinct_map inj_on_def)
  moreover have "su_role_id u \<in> ro_id ` {r \<in> set (a_roles db). ro_id r \<noteq> rid}" if "u \<in> set (a_users db)" for u
    using ok unused [OF that] that by (auto simp: accounts_ok_def users_ok_def)
  ultimately show ?thesis
    using ok unused by (intro roles_move [OF ok]) (auto simp: db' accounts_ok_def users_ok_def permissions_ok_def)
qed

lemma expand_subset: "set codes \<subseteq> set (expand_permission_dependencies codes available)"
  by (auto simp: expand_permission_dependencies_def)

lemma grant_iff: "(r, i) \<in> set (grant rid codes db) \<longleftrightarrow> r = rid \<and> (\<exists>p \<in> set (a_permissions db). pm_active p \<and> pm_id p = i \<and> pm_code p \<in> set codes)"
  by (auto simp: grant_def active_permissions_def)

text \<open>After a grant a role has exactly the codes that were granted, and the others have what they had.\<close>

lemma grant_codes:
  fixes rid :: int
  assumes perms: "distinct (map pm_id (a_permissions db))" and active: "set codes \<subseteq> set (map pm_code (active_permissions db))"
  defines "db' \<equiv> db\<lparr>a_role_permissions := filter (\<lambda>(r, p). r \<noteq> rid) (a_role_permissions db) @ grant rid codes db\<rparr>"
  shows "set (role_codes q db') = (if q = rid then set codes else set (role_codes q db))"
proof (cases "q = rid")
  case True
  have "c \<in> set (role_codes rid db') \<longleftrightarrow> c \<in> set codes" for c
  proof
    assume "c \<in> set (role_codes rid db')"
    then obtain p where p: "p \<in> set (a_permissions db)" "pm_active p" "pm_code p = c" "(rid, pm_id p) \<in> set (a_role_permissions db')"
      by (auto simp: role_codes_iff db'_def)
    then obtain p' where "p' \<in> set (a_permissions db)" "pm_id p' = pm_id p" "pm_code p' \<in> set codes" by (auto simp: db'_def grant_iff)
    then show "c \<in> set codes" using p distinct_ids [OF perms] by metis
  next
    assume c: "c \<in> set codes"
    then obtain p where "p \<in> set (a_permissions db)" "pm_active p" "pm_code p = c" using active by (auto simp: active_permissions_def)
    then show "c \<in> set (role_codes rid db')" using c by (auto simp: role_codes_iff db'_def grant_iff)
  qed
  then show ?thesis using True by auto
next
  case False
  then show ?thesis by (auto simp: role_codes_iff db'_def grant_iff)
qed

text \<open>An accepted change of the grants, when it changes anything.\<close>

lemma update_role_permissions_Inr:
  assumes "update_role_permissions rid codes user db = Inr (db', x)"
  obtains (same) "db' = db" and "set (expand_permission_dependencies codes (map pm_code (active_permissions db))) = set (role_codes rid db)"
  | (changed) role where "get_role_or_404 rid db = Inr role"
      and "set (expand_permission_dependencies codes (map pm_code (active_permissions db))) \<subseteq> set (map pm_code (active_permissions db))"
      and "db' = update_users (\<lambda>u. su_role_id u = rid) bump (db\<lparr>a_role_permissions := filter (\<lambda>(r, p). r \<noteq> rid) (a_role_permissions db)
        @ grant rid (expand_permission_dependencies codes (map pm_code (active_permissions db))) db\<rparr>)"
  using assms unfolding update_role_permissions_def Let_def bind_res_Inr_iff by (auto split: if_splits)

lemma update_role_permissions_move:
  assumes ok: "accounts_ok db" and run: "update_role_permissions rid codes user db = Inr (db', x)"
  shows "accounts_move db db'"
  using run
proof (cases rule: update_role_permissions_Inr)
  case same
  then show ?thesis using accounts_move_refl [OF ok] by simp
next
  case (changed role)
  define new where "new = expand_permission_dependencies codes (map pm_code (active_permissions db))"
  define db1 where "db1 = db\<lparr>a_role_permissions := filter (\<lambda>(r, p). r \<noteq> rid) (a_role_permissions db) @ grant rid new db\<rparr>"
  have db': "db' = update_users (\<lambda>u. su_role_id u = rid) bump db1" using changed(3) by (simp add: db1_def new_def)
  have ids: "distinct (map pm_id (a_permissions db))" using ok by (simp add: accounts_ok_def permissions_ok_def)
  have "permissions_ok db1"
    using ok get_role_Inr [OF changed(1)] by (auto simp: db1_def permissions_ok_def accounts_ok_def grant_iff)
  then have ok1: "accounts_ok db1" using ok by (simp add: db1_def accounts_ok_def users_ok_def roles_ok_def has_superadmin_def active_superadmin_def)
  have "accounts_move db1 db'" unfolding db'
    using ok1 by (auto simp: accounts_ok_def users_ok_def active_superadmin_def intro!: update_users_move superadmin_update)
  then have ok': "accounts_ok db'" and age: "sessions_age db db'" by (simp_all add: accounts_move_def sessions_age_def db1_def)
  have "set (role_codes (su_role_id u) db') = set (role_codes (su_role_id u) db)"
    if u: "u \<in> set (a_users db)" "u' \<in> set (a_users db')" "su_id u = su_id u'" "su_perm_version u = su_perm_version u'" for u u'
  proof -
    obtain v where v: "v \<in> set (a_users db)" "u' = (if su_role_id v = rid then bump v else v)" using u(2) by (auto simp: db' db1_def)
    have "su_id v = su_id u" using v(2) u(3) by (simp split: if_splits)
    moreover have "distinct (map su_id (a_users db))" using ok by (simp add: accounts_ok_def users_ok_def)
    ultimately have "v = u" using v(1) u(1) by (intro distinct_ids [of su_id "a_users db"])
    then have "su_role_id u \<noteq> rid" using v(2) u(4) by auto
    moreover have "role_codes q db' = role_codes q db1" for q by (rule role_codes_cong) (simp_all add: db')
    moreover have "set (role_codes q db1) = (if q = rid then set new else set (role_codes q db))" for q
      unfolding db1_def by (rule grant_codes [OF ids changed(2) [folded new_def]])
    ultimately show ?thesis by simp
  qed
  then have "codes_kept db db'" using age ok by (intro codes_keptI) (simp_all add: accounts_ok_def)
  then show ?thesis using ok' age by (simp add: accounts_move_def)
qed

text \<open>The counters of failed logins and the time of the last one are not part of the accounts.\<close>

lemma attempts_irrelevant [simp]:
  "accounts_ok (db\<lparr>a_attempts := x\<rparr>) = accounts_ok db"
  "accounts_move (db\<lparr>a_attempts := x\<rparr>) db' = accounts_move db db'"
  by (simp_all add: accounts_ok_def users_ok_def roles_ok_def permissions_ok_def has_superadmin_def active_superadmin_def accounts_move_def
      sessions_age_def codes_kept_def role_codes_def)

lemma exporters_irrelevant [simp]:
  "accounts_ok (db\<lparr>a_exporters := x\<rparr>) = accounts_ok db"
  "accounts_move (db\<lparr>a_exporters := x\<rparr>) db' = accounts_move db db'"
  by (simp_all add: accounts_ok_def users_ok_def roles_ok_def permissions_ok_def has_superadmin_def active_superadmin_def accounts_move_def
      sessions_age_def codes_kept_def role_codes_def)

lemma record_failure_attempts: "\<exists>x. record_failure st key now db = db\<lparr>a_attempts := x\<rparr>"
  unfolding record_failure_def Let_def by (rule exI, rule refl)

lemma clear_attempts_attempts: "\<exists>x. clear_attempts a key now db = db\<lparr>a_attempts := x\<rparr>"
proof -
  have same: "\<exists>x. db = db\<lparr>a_attempts := x\<rparr>" by (rule exI [of _ "a_attempts db"]) simp
  show ?thesis unfolding clear_attempts_def by (cases a) (simp_all add: same, blast)
qed

lemma reject_login_attempts: "\<exists>x. fst (reject_login st ip_key user_key now db) = db\<lparr>a_attempts := x\<rparr>"
proof -
  obtain x where x: "record_failure st ip_key now db = db\<lparr>a_attempts := x\<rparr>" using record_failure_attempts by blast
  obtain y where y: "record_failure st user_key now (db\<lparr>a_attempts := x\<rparr>) = (db\<lparr>a_attempts := x\<rparr>)\<lparr>a_attempts := y\<rparr>" using record_failure_attempts by blast
  show ?thesis by (auto simp: reject_login_def x y intro: exI [of _ "a_attempts db"])
qed

lemma accept_login_db:
  "\<exists>x. fst (accept_login cr st ia ua ip_key user_key now row db) = update_users (\<lambda>v. su_id v = su_id (fst row)) (\<lambda>v. v\<lparr>su_last_login_at := Some now\<rparr>) (db\<lparr>a_attempts := x\<rparr>)"
proof -
  obtain x where x: "clear_attempts ia ip_key now db = db\<lparr>a_attempts := x\<rparr>" using clear_attempts_attempts by blast
  obtain y where y: "clear_attempts ua user_key now (db\<lparr>a_attempts := x\<rparr>) = (db\<lparr>a_attempts := x\<rparr>)\<lparr>a_attempts := y\<rparr>" using clear_attempts_attempts by blast
  show ?thesis by (auto simp: accept_login_def Let_def x y)
qed

lemma login_db:
  obtains (same) "fst (login cr st now src name password db) = db"
  | (rejected) x where "fst (login cr st now src name password db) = db\<lparr>a_attempts := x\<rparr>"
  | (accepted) x uid where "fst (login cr st now src name password db) = update_users (\<lambda>v. su_id v = uid) (\<lambda>v. v\<lparr>su_last_login_at := Some now\<rparr>) (db\<lparr>a_attempts := x\<rparr>)"
proof -
  have "fst (login cr st now src name password db) = db \<or> (\<exists>x. fst (login cr st now src name password db) = db\<lparr>a_attempts := x\<rparr>)
    \<or> (\<exists>x uid. fst (login cr st now src name password db) = update_users (\<lambda>v. su_id v = uid) (\<lambda>v. v\<lparr>su_last_login_at := Some now\<rparr>) (db\<lparr>a_attempts := x\<rparr>))"
    unfolding login_def Let_def
    using reject_login_attempts [of st _ _ now db] accept_login_db [of cr st _ _ _ _ now _ db]
    by (auto split: sum.splits option.splits) blast+
  then show ?thesis using that by blast
qed

lemma login_move:
  assumes "accounts_ok db"
  shows "accounts_move db (fst (login cr st now src name password db))"
proof (cases rule: login_db [of cr st now src name password db])
  case same
  then show ?thesis using accounts_move_refl [OF assms] by simp
next
  case (rejected x)
  have "accounts_move (db\<lparr>a_attempts := x\<rparr>) (db\<lparr>a_attempts := x\<rparr>)" by (rule accounts_move_refl) (simp add: assms)
  then show ?thesis by (simp add: rejected)
next
  case (accepted x uid)
  have ok: "accounts_ok (db\<lparr>a_attempts := x\<rparr>)" by (simp add: assms)
  have "accounts_move (db\<lparr>a_attempts := x\<rparr>) (update_users (\<lambda>v. su_id v = uid) (\<lambda>v. v\<lparr>su_last_login_at := Some now\<rparr>) (db\<lparr>a_attempts := x\<rparr>))"
    by (rule update_users_move [OF ok]) (use ok in \<open>auto simp: accounts_ok_def users_ok_def active_superadmin_def intro!: superadmin_update\<close>)
  then show ?thesis by (simp add: accepted)
qed

text \<open>Starting the process.\<close>

lemma sync_permission_simps [simp]:
  "a_roles (sync_permission db e) = a_roles db" "a_users (sync_permission db e) = a_users db" "a_next_user_id (sync_permission db e) = a_next_user_id db"
  "a_next_role_id (sync_permission db e) = a_next_role_id db" "a_role_permissions (sync_permission db e) = a_role_permissions db"
  by (simp_all add: sync_permission_def Let_def split: prod.splits)

lemma sync_permission_ok:
  assumes "permissions_ok db"
  shows "permissions_ok (sync_permission db e)"
proof -
  obtain idx d where e: "e = (idx, d)" by (cases e)
  define f where "f = (\<lambda>p :: permission_row. if pm_code p = pd_code d then p\<lparr>pm_name := pd_name d, pm_group_name := pd_group_name d, pm_sort_order := int idx, pm_active := True\<rparr> else p)"
  have f: "pm_id (f p) = pm_id p" "pm_code (f p) = pm_code p" for p by (simp_all add: f_def)
  show ?thesis
  proof (cases "list_ex (\<lambda>p. pm_code p = pd_code d) (a_permissions db)")
    case True
    then have "a_permissions (sync_permission db e) = map f (a_permissions db)" "a_next_permission_id (sync_permission db e) = a_next_permission_id db + 1"
      by (simp_all add: e sync_permission_def upsert_def f_def)
    note new = this
    have "pm_id ` set (map f (a_permissions db)) = pm_id ` set (a_permissions db)" using f(1) by (force simp: image_image)
    moreover have "\<forall>p \<in> set (map f (a_permissions db)). pm_id p < a_next_permission_id db + 1" using assms f(1) by (fastforce simp: permissions_ok_def)
    ultimately show ?thesis using assms f by (simp add: permissions_ok_def new comp_def)
  next
    case False
    define p where "p = \<lparr>pm_id = a_next_permission_id db, pm_code = pd_code d, pm_name = pd_name d, pm_group_name = pd_group_name d,
      pm_sort_order = int idx, pm_active = True\<rparr>"
    have "a_permissions (sync_permission db e) = a_permissions db @ [p]" "a_next_permission_id (sync_permission db e) = a_next_permission_id db + 1"
      using False by (simp_all add: e sync_permission_def upsert_def p_def)
    moreover have "pm_code p \<notin> pm_code ` set (a_permissions db)" "pm_id p = a_next_permission_id db" using False by (auto simp: list_ex_iff p_def)
    moreover have "\<forall>q \<in> set (a_permissions db). pm_id q < a_next_permission_id db" using assms by (simp add: permissions_ok_def)
    ultimately show ?thesis using assms unfolding permissions_ok_def sync_permission_simps by (simp, fastforce)
  qed
qed

lemma sync_permissions_ok:
  assumes "accounts_ok db"
  shows "accounts_ok (sync_permissions db) \<and> sessions_age db (sync_permissions db)"
proof -
  have fold: "permissions_ok (foldl sync_permission db es) \<and> a_roles (foldl sync_permission db es) = a_roles db \<and> a_users (foldl sync_permission db es) = a_users db
      \<and> a_next_user_id (foldl sync_permission db es) = a_next_user_id db \<and> a_next_role_id (foldl sync_permission db es) = a_next_role_id db"
    if "permissions_ok db" for es db
    using that by (induction es arbitrary: db) (simp_all add: sync_permission_ok)
  define db1 where "db1 = foldl sync_permission db (enumerate 0 REGISTRY)"
  define f where "f = (\<lambda>p :: permission_row. if pm_code p \<notin> set ALL_CODES then p\<lparr>pm_active := False\<rparr> else p)"
  have f: "pm_id (f p) = pm_id p" "pm_code (f p) = pm_code p" for p by (simp_all add: f_def)
  have s: "sync_permissions db = db1\<lparr>a_permissions := map f (a_permissions db1)\<rparr>" by (simp add: sync_permissions_def db1_def f_def Let_def)
  have d: "permissions_ok db1" "a_roles db1 = a_roles db" "a_users db1 = a_users db" "a_next_user_id db1 = a_next_user_id db" "a_next_role_id db1 = a_next_role_id db"
    using fold [of db "enumerate 0 REGISTRY"] assms unfolding db1_def accounts_ok_def by blast+
  have "pm_id ` f ` set (a_permissions db1) = pm_id ` set (a_permissions db1)" using f by (force simp: image_image)
  then have "permissions_ok (sync_permissions db)" using d(1) f by (auto simp: s permissions_ok_def comp_def)
  then show ?thesis using assms d by (auto simp: s accounts_ok_def users_ok_def roles_ok_def has_superadmin_def active_superadmin_def sessions_age_def)
qed

section \<open>Requests\<close>

text \<open>The contract of a handler that runs behind a guard, and what the guard makes of it.\<close>

locale account_handler =
  fixes body :: "user_context \<Rightarrow> auth_db \<Rightarrow> (auth_db \<times> 'a) res"
  assumes moves: "accounts_ok db \<Longrightarrow> body user db = Inr (db', x) \<Longrightarrow> accounts_move db db'"
begin

lemma guarded_cases:
  assumes ok: "accounts_ok (as_db s)" "cache_ok s" and run: "guarded cr codes auth body s = (s', r)"
  obtains (denied) e where "r = Inl e" and "as_db s' = as_db s" and "cache_ok s'"
  | (accepted) user x where "get_current_user cr auth (as_db s) = Inr user" and "set codes \<subseteq> granted user (as_db s)"
      and "body user (as_db s) = Inr (as_db s', x)" and "r = Inr x" and "accounts_move (as_db s) (as_db s')" and "cache_ok s'"
proof (cases "get_current_user cr auth (as_db s)")
  case (Inl e)
  then show ?thesis using run ok by (intro denied [of e]) (auto simp: guarded_def)
next
  case (Inr user)
  obtain perms cache where perms: "get_current_permissions user (as_db s) (as_cache s) = (perms, cache)" by (metis surj_pair)
  from current_user_row [OF Inr] obtain u q where row: "u \<in> set (a_users (as_db s))" "user = context_of (u, q)" by blast
  have "users_ok (as_db s)" using ok(1) by (simp add: accounts_ok_def)
  from current_permissions [OF ok(2) this row(1) perms [unfolded row(2)]]
  have cache: "cache_ok (s\<lparr>as_cache := cache\<rparr>)" and set: "set perms = granted user (as_db s)" by (simp_all add: row(2))
  show ?thesis
  proof (cases "bind_res (require_permission codes perms) (\<lambda>_. body user (as_db s))")
    case (Inl e)
    then show ?thesis using run Inr perms cache by (intro denied [of e]) (auto simp: guarded_def)
  next
    case (Inr y)
    obtain db x where y: "y = (db, x)" by (cases y)
    have body: "body user (as_db s) = Inr (db, x)" and codes: "set codes \<subseteq> set perms"
      using Inr y by (auto simp: bind_res_Inr_iff require_permission_def list_all_iff split: if_splits)
    have s': "s' = \<lparr>as_db = db, as_cache = cache\<rparr>" "r = Inr x"
      using run \<open>get_current_user cr auth (as_db s) = Inr user\<close> perms Inr y by (auto simp: guarded_def)
    have move: "accounts_move (as_db s) db" using moves [OF ok(1) body] .
    have "cache_ok ((s\<lparr>as_cache := cache\<rparr>)\<lparr>as_db := db\<rparr>)"
      using cache_ok_step [OF cache] move by (simp add: accounts_move_def)
    then show ?thesis
      using accepted [of user x] \<open>get_current_user cr auth (as_db s) = Inr user\<close> codes set body s' move by (simp add: cache_ok_def)
  qed
qed

lemma guarded_keeps:
  assumes "accounts_ok (as_db s)" "cache_ok s" and "guarded cr codes auth body s = (s', r)"
  shows "accounts_move (as_db s) (as_db s') \<and> cache_ok s'"
  by (rule guarded_cases [OF assms]) (simp_all add: accounts_move_refl [OF assms(1)])

lemma guarded_authorised:
  assumes "accounts_ok (as_db s)" "cache_ok s" and "guarded cr codes auth body s = (s', r)" and "as_db s' \<noteq> as_db s"
  shows "\<exists>user. get_current_user cr auth (as_db s) = Inr user \<and> set codes \<subseteq> granted user (as_db s)"
  by (rule guarded_cases [OF assms(1-3)]) (use assms(4) in auto)

lemma authenticated_keeps:
  assumes "accounts_ok (as_db s)" "cache_ok s" and "authenticated cr auth body s = (s', r)"
  shows "accounts_move (as_db s) (as_db s') \<and> cache_ok s'"
proof (cases "bind_res (get_current_user cr auth (as_db s)) (\<lambda>user. body user (as_db s))")
  case (Inl e)
  then show ?thesis using assms by (auto simp: authenticated_def accounts_move_refl)
next
  case (Inr y)
  obtain db x where y: "y = (db, x)" by (cases y)
  have s': "s' = s\<lparr>as_db := db\<rparr>" using assms(3) Inr y by (auto simp: authenticated_def)
  have "accounts_move (as_db s) db" using Inr y moves [OF assms(1)] by (auto simp: bind_res_Inr_iff)
  then show ?thesis using cache_ok_step [OF assms(2)] by (simp add: s' accounts_move_def)
qed

end

interpretation h_read: account_handler "\<lambda>user db. return (db, f user db)" for f
  by unfold_locales (auto intro: accounts_move_refl)

interpretation h_me: account_handler "me cr" for cr
  by unfold_locales (auto simp: me_def bind_res_Inr_iff intro: accounts_move_refl)

interpretation h_own_password: account_handler "change_own_password cr old new" for cr old new
  by unfold_locales (rule change_own_password_move)

interpretation h_create_role: account_handler "create_role name descr" for name descr
  by unfold_locales (rule create_role_move)

interpretation h_update_role: account_handler "update_role rid name descr" for rid name descr
  by unfold_locales (rule update_role_move)

interpretation h_delete_role: account_handler "delete_role rid" for rid
  by unfold_locales (rule delete_role_move)

interpretation h_role_permissions: account_handler "get_role_permissions rid" for rid
  by unfold_locales (auto simp: get_role_permissions_def bind_res_Inr_iff intro: accounts_move_refl)

interpretation h_grant: account_handler "update_role_permissions rid codes" for rid codes
  by unfold_locales (rule update_role_permissions_move)

interpretation h_create_user: account_handler "create_user cr name display password rid" for cr name display password rid
  by unfold_locales (rule create_user_move)

interpretation h_update_user: account_handler "update_user uid display rid" for uid display rid
  by unfold_locales (rule update_user_move)

interpretation h_delete_user: account_handler "delete_user uid" for uid
  by unfold_locales (rule delete_user_move)

interpretation h_status: account_handler "toggle_user_status uid is_active" for uid is_active
  by unfold_locales (rule toggle_user_status_move)

interpretation h_reset: account_handler "reset_password cr uid password" for cr uid password
  by unfold_locales (rule reset_password_move)

interpretation h_list_roles: account_handler list_roles
  by unfold_locales (auto simp: list_roles_def intro: accounts_move_refl)

interpretation h_list_permissions: account_handler list_permissions
  by unfold_locales (auto simp: list_permissions_def intro: accounts_move_refl)

interpretation h_list_users: account_handler list_users
  by unfold_locales (auto simp: list_users_def intro: accounts_move_refl)

lemma answered_Pair: "answered x = (s', r) \<Longrightarrow> \<exists>y. x = (s', y) \<and> (\<forall>u. r = Inr u \<longrightarrow> (\<exists>v. y = Inr v))"
  by (cases x; cases "snd x") (auto simp: answered_def)

text \<open>Every request keeps the accounts and the cache.\<close>

lemma serve_keeps:
  assumes ok: "accounts_ok (as_db s)" "cache_ok s" and run: "serve cr st auth req s = (s', r)"
  shows "accounts_move (as_db s) (as_db s') \<and> cache_ok s'"
proof (cases req)
  case (Login now src name password)
  have s': "s' = s\<lparr>as_db := fst (login cr st now src name password (as_db s))\<rparr>"
    using run by (auto simp: Login answered_def Let_def split: prod.splits)
  have move: "accounts_move (as_db s) (as_db s')" using login_move [OF ok(1)] by (simp add: s')
  then show ?thesis using cache_ok_step [OF ok(2)] by (simp add: s' accounts_move_def)
next
  case Logout
  show ?thesis using h_read.authenticated_keeps [OF ok run [unfolded Logout serve.simps]] .
next
  case Me
  then obtain y where "authenticated cr auth (me cr) s = (s', y)" using run answered_Pair by fastforce
  then show ?thesis by (rule h_me.authenticated_keeps [OF ok])
next
  case (ChangeOwnPassword old new)
  show ?thesis using h_own_password.authenticated_keeps [OF ok run [unfolded ChangeOwnPassword serve.simps]] .
next
  case ListRoles
  then obtain y where "guarded cr [AUTH_VIEW] auth list_roles s = (s', y)" using run answered_Pair by fastforce
  then show ?thesis by (rule h_list_roles.guarded_keeps [OF ok])
next
  case (CreateRole name descr)
  then obtain y where "guarded cr [AUTH_MANAGE] auth (create_role name descr) s = (s', y)" using run answered_Pair by fastforce
  then show ?thesis by (rule h_create_role.guarded_keeps [OF ok])
next
  case (UpdateRole rid name descr)
  then obtain y where "guarded cr [AUTH_MANAGE] auth (update_role rid name descr) s = (s', y)" using run answered_Pair by fastforce
  then show ?thesis by (rule h_update_role.guarded_keeps [OF ok])
next
  case (DeleteRole rid)
  show ?thesis using h_delete_role.guarded_keeps [OF ok run [unfolded DeleteRole serve.simps]] .
next
  case (GetRolePermissions rid)
  then obtain y where "guarded cr [AUTH_VIEW] auth (get_role_permissions rid) s = (s', y)" using run answered_Pair by fastforce
  then show ?thesis by (rule h_role_permissions.guarded_keeps [OF ok])
next
  case (UpdateRolePermissions rid codes)
  show ?thesis using h_grant.guarded_keeps [OF ok run [unfolded UpdateRolePermissions serve.simps]] .
next
  case ListPermissions
  then obtain y where "guarded cr [AUTH_VIEW] auth list_permissions s = (s', y)" using run answered_Pair by fastforce
  then show ?thesis by (rule h_list_permissions.guarded_keeps [OF ok])
next
  case ListUsers
  then obtain y where "guarded cr [AUTH_VIEW] auth list_users s = (s', y)" using run answered_Pair by fastforce
  then show ?thesis by (rule h_list_users.guarded_keeps [OF ok])
next
  case (CreateUser name display password rid)
  then obtain y where "guarded cr [AUTH_MANAGE] auth (create_user cr name display password rid) s = (s', y)" using run answered_Pair by fastforce
  then show ?thesis by (rule h_create_user.guarded_keeps [OF ok])
next
  case (UpdateUser uid display rid)
  then obtain y where "guarded cr [AUTH_MANAGE] auth (update_user uid display rid) s = (s', y)" using run answered_Pair by fastforce
  then show ?thesis by (rule h_update_user.guarded_keeps [OF ok])
next
  case (DeleteUser uid)
  show ?thesis using h_delete_user.guarded_keeps [OF ok run [unfolded DeleteUser serve.simps]] .
next
  case (ToggleUserStatus uid is_active)
  then obtain y where "guarded cr [AUTH_MANAGE] auth (toggle_user_status uid is_active) s = (s', y)" using run answered_Pair by fastforce
  then show ?thesis by (rule h_status.guarded_keeps [OF ok])
next
  case (ResetPassword uid password)
  show ?thesis using h_reset.guarded_keeps [OF ok run [unfolded ResetPassword serve.simps]] .
next
  case (OtherEndpoint codes)
  show ?thesis using h_read.guarded_keeps [OF ok run [unfolded OtherEndpoint serve.simps]] .
qed

lemma auth_step_keeps:
  assumes "auth_step cr st s s'" and ok: "accounts_ok (as_db s)" "cache_ok s"
  shows "accounts_ok (as_db s') \<and> cache_ok s' \<and> sessions_age (as_db s) (as_db s')"
  using assms(1)
proof cases
  case (request auth req r)
  from serve_keeps [OF ok this] show ?thesis by (simp add: accounts_move_def)
next
  case restart
  then show ?thesis using sync_permissions_ok [OF ok(1)] by (simp add: cache_ok_def)
next
  case (export uid)
  define db where "db = (as_db s)\<lparr>a_exporters := uid # a_exporters (as_db s)\<rparr>"
  have "accounts_move db db" by (rule accounts_move_refl) (simp add: db_def ok(1))
  then have "accounts_move (as_db s) db" unfolding db_def by (simp only: exporters_irrelevant)
  then have db: "accounts_ok db" "sessions_age (as_db s) db" "codes_kept (as_db s) db" by (simp_all add: accounts_move_def)
  then show ?thesis using cache_ok_step [OF ok(2) db(2,3)] export by (simp add: db_def)
qed

lemma auth_steps_keep:
  assumes "(auth_step cr st)\<^sup>*\<^sup>* s s'" and "accounts_ok (as_db s)" "cache_ok s"
  shows "accounts_ok (as_db s') \<and> cache_ok s' \<and> sessions_age (as_db s) (as_db s')"
  using assms
proof (induction rule: rtranclp_induct)
  case base
  then show ?case by (simp add: sessions_age_refl)
next
  case (step y z)
  then show ?case using auth_step_keeps [OF step.hyps(2)] sessions_age_trans by blast
qed

section \<open>Sessions\<close>

text \<open>The sessions of a user up to a version are over.\<close>

definition ended :: "int \<Rightarrow> int \<Rightarrow> auth_db \<Rightarrow> bool" where
  "ended uid version db \<longleftrightarrow> uid < a_next_user_id db \<and> (\<forall>u \<in> set (a_users db). su_id u = uid \<longrightarrow> version < su_perm_version u)"

lemma ended_stays: "ended uid version db \<Longrightarrow> sessions_age db db' \<Longrightarrow> ended uid version db'"
  unfolding ended_def sessions_age_def by fastforce

lemma ended_rejected:
  assumes "ended uid version db" and "Option.bind (jp_sub payload) py_int = Some uid" and "(case jp_pv payload of None \<Rightarrow> - 1 | Some pv \<Rightarrow> pv) \<le> version"
  shows "token_user payload db = raise Unauthorized"
proof (cases "token_user payload db")
  case (Inl e)
  then show ?thesis by (auto simp: token_user_def split: option.splits if_splits prod.splits)
next
  case (Inr user)
  then show ?thesis by (rule token_user_Inr) (use assms in \<open>auto simp: ended_def\<close>)
qed

text \<open>The requests that end the sessions of a user.\<close>

fun ends_sessions :: "auth_request \<Rightarrow> sys_user \<Rightarrow> auth_db \<Rightarrow> bool" where
  "ends_sessions (DeleteUser uid) u db \<longleftrightarrow> uid = su_id u"
| "ends_sessions (ToggleUserStatus uid is_active) u db \<longleftrightarrow> uid = su_id u"
| "ends_sessions (ResetPassword uid password) u db \<longleftrightarrow> uid = su_id u"
| "ends_sessions (UpdateUser uid display rid) u db \<longleftrightarrow> uid = su_id u \<and> new_role_of rid u \<noteq> None"
| "ends_sessions (UpdateRolePermissions rid codes) u db \<longleftrightarrow>
     rid = su_role_id u \<and> set (expand_permission_dependencies codes (map pm_code (active_permissions db))) \<noteq> set (role_codes rid db)"
| "ends_sessions _ u db \<longleftrightarrow> False"

lemma ended_update:
  assumes "users_ok db" and "u \<in> set (a_users db)" and "p u" and "\<And>v. su_id (f v) = su_id v \<and> su_perm_version v < su_perm_version (f v)"
    and "a_users db1 = a_users db" and "a_next_user_id db1 = a_next_user_id db"
  shows "ended (su_id u) (su_perm_version u) (update_users p f db1)"
  unfolding ended_def
proof (intro conjI ballI impI)
  show "su_id u < a_next_user_id (update_users p f db1)" using assms(1,2,6) by (simp add: users_ok_def)
  fix w assume w: "w \<in> set (a_users (update_users p f db1))" "su_id w = su_id u"
  then obtain v where v: "v \<in> set (a_users db)" "w = (if p v then f v else v)" by (auto simp: assms(5))
  have "su_id v = su_id u" using w(2) v(2) assms(4) by (simp split: if_splits)
  then have "v = u" using assms(1,2) v(1) distinct_ids [of su_id "a_users db" v u] by (simp add: users_ok_def)
  then show "su_perm_version u < su_perm_version w" using v(2) assms(3,4) by simp
qed

lemma set_role_simps [simp]:
  "su_id (set_role rid u) = su_id u" "su_perm_version (set_role rid u) = su_perm_version u + 1"
  "su_id (set_display d u) = su_id u" "su_perm_version (set_display d u) = su_perm_version u"
  by (simp_all add: user_edits)

lemma request_ends_sessions:
  assumes ok: "accounts_ok (as_db s)" "cache_ok s" and u: "u \<in> set (a_users (as_db s))"
    and req: "ends_sessions req u (as_db s)" and run: "serve cr st auth req s = (s', Inr ())"
  shows "ended (su_id u) (su_perm_version u) (as_db s')"
proof -
  define db where "db = as_db s"
  have users: "users_ok db" and udb: "u \<in> set (a_users db)" using ok(1) u by (simp_all add: accounts_ok_def db_def)
  have bumped: "ended (su_id u) (su_perm_version u) (update_users (\<lambda>v. su_id v = su_id u) f db)"
    if "\<And>v. su_id (f v) = su_id v \<and> su_perm_version v < su_perm_version (f v)" for f
    by (rule ended_update [OF users udb _ that]) simp_all
  show ?thesis
  proof (cases req)
    case (DeleteUser uid)
    from h_delete_user.guarded_cases [OF ok run [unfolded DeleteUser serve.simps]]
    obtain user x where "delete_user uid user db = Inr (as_db s', x)" unfolding db_def by (metis Inr_not_Inl)
    then have "as_db s' = db\<lparr>a_users := filter (\<lambda>u. su_id u \<noteq> uid) (a_users db)\<rparr>"
      by (auto simp: delete_user_def remove_user_def bind_res_Inr_iff split: if_splits)
    then show ?thesis using req DeleteUser users udb by (simp add: ended_def users_ok_def)
  next
    case (ToggleUserStatus uid is_active)
    then obtain y where g: "guarded cr [AUTH_MANAGE] auth (toggle_user_status uid is_active) s = (s', Inr y)" using run answered_Pair by fastforce
    from h_status.guarded_cases [OF ok g] obtain user x where "toggle_user_status uid is_active user db = Inr (as_db s', x)"
      unfolding db_def by (metis Inr_not_Inl)
    then have "as_db s' = update_users (\<lambda>u. su_id u = uid) (set_active is_active) db"
      by (auto simp: toggle_user_status_def with_user_out_def bind_res_Inr_iff split: if_splits)
    then show ?thesis using req ToggleUserStatus bumped [of "set_active is_active"] by (simp add: user_edits)
  next
    case (ResetPassword uid password)
    from h_reset.guarded_cases [OF ok run [unfolded ResetPassword serve.simps]]
    obtain user x where "reset_password cr uid password user db = Inr (as_db s', x)" unfolding db_def by (metis Inr_not_Inl)
    then have "as_db s' = update_users (\<lambda>u. su_id u = uid) (set_password cr password) db"
      by (auto simp: reset_password_def split: if_splits)
    then show ?thesis using req ResetPassword bumped [of "set_password cr password"] by (simp add: user_edits)
  next
    case (UpdateUser uid display rid)
    then obtain y where g: "guarded cr [AUTH_MANAGE] auth (update_user uid display rid) s = (s', Inr y)" using run answered_Pair by fastforce
    from h_update_user.guarded_cases [OF ok g] obtain user x where b: "update_user uid display rid user db = Inr (as_db s', x)"
      unfolding db_def by (metis Inr_not_Inl)
    then obtain v r where t: "target_user uid db = Inr (v, r)"
      and s': "as_db s' = update_users (\<lambda>u. su_id u = uid)
        (\<lambda>w. case new_role_of rid v of None \<Rightarrow> set_display display w | Some i \<Rightarrow> set_role i (set_display display w)) db"
      by (auto simp: update_user_def with_user_out_def bind_res_Inr_iff Let_def)
    have "v = u" using target_user_Inr [OF t] users udb req UpdateUser distinct_ids [of su_id "a_users db" v u] by (simp add: users_ok_def)
    then obtain i where "new_role_of rid v = Some i" using req UpdateUser by auto
    then show ?thesis using req UpdateUser bumped [of "\<lambda>w. set_role i (set_display display w)"] s' by simp
  next
    case (UpdateRolePermissions rid codes)
    from h_grant.guarded_cases [OF ok run [unfolded UpdateRolePermissions serve.simps]]
    obtain user x where "update_role_permissions rid codes user db = Inr (as_db s', x)" unfolding db_def by (metis Inr_not_Inl)
    then show ?thesis
    proof (cases rule: update_role_permissions_Inr)
      case same
      then show ?thesis using req UpdateRolePermissions by (simp add: db_def)
    next
      case (changed role)
      show ?thesis unfolding changed(3)
        by (rule ended_update [OF users udb]) (use req UpdateRolePermissions in simp_all)
    qed
  qed (use req in simp_all)
qed

section \<open>Counting failed logins\<close>

abbreviation attempt_of :: "string \<Rightarrow> auth_db \<Rightarrow> login_attempt option" where
  "attempt_of key db \<equiv> find_by la_source_key key (a_attempts db)"

definition failures :: "login_attempt option \<Rightarrow> int" where
  "failures a = (case a of None \<Rightarrow> 0 | Some r \<Rightarrow> la_failed_count r)"

definition lock_end :: "login_attempt option \<Rightarrow> instant option" where
  "lock_end a = Option.bind a la_locked_until"

lemma attempt_after_failure:
  "failures (attempt_of j (record_failure st key now db)) =
     (if j = key then if failures (attempt_of key db) + 1 \<ge> ls_failed_max st then 0 else failures (attempt_of key db) + 1 else failures (attempt_of j db))"
  "lock_end (attempt_of j (record_failure st key now db)) =
     (if j = key then if failures (attempt_of key db) + 1 \<ge> ls_failed_max st then Some (now + ls_lock_minutes st * 60000000) else None else lock_end (attempt_of j db))"
  unfolding record_failure_def Let_def by (auto simp: find_upsert failures_def lock_end_def split: option.splits)

lemma attempt_after_clear: "j \<noteq> key \<Longrightarrow> attempt_of j (clear_attempts a key now db) = attempt_of j db"
proof -
  assume j: "j \<noteq> key"
  define f where "f = (\<lambda>r :: login_attempt. if la_source_key r = key then r\<lparr>la_failed_count := 0, la_locked_until := None, la_updated_at := now\<rparr> else r)"
  have f: "la_source_key (f r) = la_source_key r" for r by (simp add: f_def)
  have "map_option f (find_by la_source_key j rows) = find_by la_source_key j rows" for rows
    using j find_by_Some [of la_source_key j rows] by (cases "find_by la_source_key j rows") (auto simp: f_def)
  then have "find_by la_source_key j (map f rows) = find_by la_source_key j rows" for rows
    using find_by_map [of la_source_key f j rows, OF f] by simp
  then show "attempt_of j (clear_attempts a key now db) = attempt_of j db"
    unfolding f_def by (auto simp: clear_attempts_def split: option.splits)
qed

text \<open>What is left of the tries for a key until a time: none while it is locked at least that long.\<close>

definition tries_left :: "login_settings \<Rightarrow> instant \<Rightarrow> login_attempt option \<Rightarrow> int" where
  "tries_left st until a = (if \<exists>t. lock_end a = Some t \<and> until \<le> t then 0 else ls_failed_max st - failures a)"

definition counter_ok :: "login_settings \<Rightarrow> login_attempt option \<Rightarrow> bool" where
  "counter_ok st a \<longleftrightarrow> 0 \<le> failures a \<and> failures a < ls_failed_max st"

definition user_key :: "string \<Rightarrow> string" where
  "user_key name = ''user:'' @ name"

lemma keys_differ: "get_login_source_key src \<noteq> user_key name" "user_key n = user_key m \<longleftrightarrow> n = m"
  by (simp_all add: get_login_source_key_def user_key_def Let_def)

text \<open>A password was tested when the login was neither refused by a lock nor by the schema.\<close>

definition tested :: "unit res \<Rightarrow> bool" where
  "tested r \<longleftrightarrow> r \<noteq> raise LoginLocked \<and> r \<noteq> raise (HTTPException 422)"

fun guesses :: "string \<Rightarrow> auth_request \<Rightarrow> bool" where
  "guesses name (Login now src username password) \<longleftrightarrow> username = name"
| "guesses name _ \<longleftrightarrow> False"

text \<open>Only logins touch the counters.\<close>

lemma guarded_attempts:
  assumes "\<And>user db db' x. body user db = Inr (db', x) \<Longrightarrow> a_attempts db' = a_attempts db"
  shows "a_attempts (as_db (fst (guarded cr codes auth body s))) = a_attempts (as_db s)"
    "a_attempts (as_db (fst (authenticated cr auth body s))) = a_attempts (as_db s)"
  using assms by (auto simp: guarded_def authenticated_def bind_res_Inr_iff split: sum.splits prod.splits)

lemma handler_attempts:
  "change_own_password cr old new user db = Inr (db', x) \<Longrightarrow> a_attempts db' = a_attempts db"
  "create_role name descr user db = Inr (db', y) \<Longrightarrow> a_attempts db' = a_attempts db"
  "update_role rid name' descr' user db = Inr (db', y) \<Longrightarrow> a_attempts db' = a_attempts db"
  "delete_role rid user db = Inr (db', x) \<Longrightarrow> a_attempts db' = a_attempts db"
  "update_role_permissions rid codes user db = Inr (db', x) \<Longrightarrow> a_attempts db' = a_attempts db"
  "create_user cr name display password rid user db = Inr (db', z) \<Longrightarrow> a_attempts db' = a_attempts db"
  "update_user uid display' rid' user db = Inr (db', z) \<Longrightarrow> a_attempts db' = a_attempts db"
  "delete_user uid user db = Inr (db', x) \<Longrightarrow> a_attempts db' = a_attempts db"
  "toggle_user_status uid is_active user db = Inr (db', z) \<Longrightarrow> a_attempts db' = a_attempts db"
  "reset_password cr uid password user db = Inr (db', x) \<Longrightarrow> a_attempts db' = a_attempts db"
  "me cr user db = Inr (db', i) \<Longrightarrow> a_attempts db' = a_attempts db"
  "get_role_permissions rid user db = Inr (db', cs) \<Longrightarrow> a_attempts db' = a_attempts db"
  by (auto simp: change_own_password_def create_role_def update_role_def delete_role_def update_role_permissions_def create_user_def update_user_def
      delete_user_def remove_user_def toggle_user_status_def reset_password_def me_def get_role_permissions_def with_user_out_def update_users_def
      bind_res_Inr_iff Let_def split: if_splits)

lemma answered_fst [simp]: "fst (answered x) = fst x"
  by (simp add: answered_def)

lemma serve_attempts:
  assumes "\<And>now src name password. req \<noteq> Login now src name password"
  shows "a_attempts (as_db (fst (serve cr st auth req s))) = a_attempts (as_db s)"
  using assms
  by (cases req) (auto simp: list_roles_def list_users_def list_permissions_def intro!: guarded_attempts dest: handler_attempts)

lemma check_lockout_Inl: "check_lockout key now db = Inl e \<Longrightarrow> e = LoginLocked"
  by (auto simp: check_lockout_def Let_def split: option.splits if_splits)

lemma login_other:
  assumes "username \<noteq> name"
  shows "attempt_of (user_key name) (fst (login cr st now src username password db)) = attempt_of (user_key name) db"
proof -
  define K where "K = user_key name"
  have K: "K \<noteq> get_login_source_key src" "K \<noteq> ''user:'' @ username"
    using keys_differ(1) [of src name] assms by (simp_all add: K_def user_key_def)
  have fail: "attempt_of K (record_failure st key now db) = attempt_of K db" if "K \<noteq> key" for key db
    unfolding record_failure_def Let_def using that by (simp add: find_upsert)
  have "attempt_of K (fst (reject_login st (get_login_source_key src) (''user:'' @ username) now db :: auth_db \<times> login_response res)) = attempt_of K db"
    using K by (simp add: reject_login_def fail)
  moreover have "attempt_of K (fst (accept_login cr st ia ua (get_login_source_key src) (''user:'' @ username) now row db)) = attempt_of K db" for ia ua row
    using K by (simp add: accept_login_def Let_def update_users_def attempt_after_clear)
  ultimately show ?thesis unfolding login_def Let_def K_def [symmetric] by (simp split: sum.splits option.splits)
qed

text \<open>A login under the name itself: refused without a test, or one try less.\<close>

lemma login_same:
  assumes fits: "fits_text 100 (Some (get_login_source_key src))" and ok: "counter_ok st (attempt_of (user_key name) db)"
    and time: "t0 \<le> now" "now < t0 + ls_lock_minutes st * 60000000"
    and run: "login cr st now src name password db = (db', r)" and wrong: "\<And>x. r \<noteq> Inr x"
  defines "until \<equiv> t0 + ls_lock_minutes st * 60000000"
  shows "db' = db \<and> (r = raise LoginLocked \<or> r = raise (HTTPException 422))
    \<or> r = raise Unauthorized \<and> counter_ok st (attempt_of (user_key name) db')
      \<and> tries_left st until (attempt_of (user_key name) db') + 1 \<le> tries_left st until (attempt_of (user_key name) db)"
proof -
  define K where "K = user_key name"
  define I where "I = get_login_source_key src"
  have K: "K \<noteq> I" using keys_differ(1) [of src name] by (simp add: K_def I_def)
  have KK: "''user:'' @ name = K" by (simp add: K_def user_key_def)
  show ?thesis
  proof (cases "length_between 1 50 name \<and> length_between 1 128 password")
    case False
    then show ?thesis using run by (auto simp: login_def)
  next
    case True
    show ?thesis
    proof (cases "check_lockout I now db = Inl LoginLocked \<or> check_lockout K now db = Inl LoginLocked")
      case True
      then have "(db', r) = (db, raise LoginLocked)"
        using run \<open>length_between 1 50 name \<and> length_between 1 128 password\<close> check_lockout_Inl [of I now db] check_lockout_Inl [of K now db]
        unfolding login_def Let_def KK I_def [symmetric] by (cases "check_lockout I now db"; cases "check_lockout K now db") auto
      then show ?thesis by simp
    next
      case False
      have fitK: "fits_text 100 (Some K)" using True by (simp add: K_def user_key_def fits_text_def length_between_def utf8_length_def)
      obtain ia ua where chk: "check_lockout I now db = Inr ia" "check_lockout K now db = Inr ua"
        using False by (auto simp: check_lockout_def Let_def split: option.splits if_splits)
      have "(db', r) = reject_login st I K now db"
        using run wrong True chk unfolding login_def Let_def KK I_def [symmetric]
        by (auto simp: accept_login_def Let_def split: option.splits if_splits)
      then have db': "db' = record_failure st K now (record_failure st I now db)" and r: "r = raise Unauthorized"
        using fits fitK by (simp_all add: reject_login_def I_def)
      have open_K: "\<not> (\<exists>t. lock_end (attempt_of K db) = Some t \<and> until \<le> t)"
        using chk(2) time(2) by (auto simp: check_lockout_def lock_end_def until_def Let_def split: option.splits if_splits)
      have f: "failures (attempt_of K (record_failure st I now db)) = failures (attempt_of K db)" using K by (simp add: attempt_after_failure)
      have "counter_ok st (attempt_of K db')" using ok by (auto simp: counter_ok_def db' attempt_after_failure f K_def [symmetric])
      moreover have "tries_left st until (attempt_of K db') + 1 \<le> tries_left st until (attempt_of K db)"
        using ok open_K time(1) K unfolding tries_left_def db' attempt_after_failure f counter_ok_def K_def [symmetric]
        by (auto simp: until_def)
      ultimately show ?thesis using r by (simp add: K_def)
    qed
  qed
qed

text \<open>The answers to a sequence of requests.\<close>

fun answers :: "crypto \<Rightarrow> login_settings \<Rightarrow> (string option \<times> auth_request) list \<Rightarrow> auth_state \<Rightarrow> (auth_request \<times> unit res) list" where
  "answers cr st [] s = []"
| "answers cr st ((auth, req) # reqs) s = (let (s', r) = serve cr st auth req s in (req, r) # answers cr st reqs s')"

definition guess_count :: "string \<Rightarrow> (auth_request \<times> unit res) list \<Rightarrow> nat" where
  "guess_count name rs = length (filter (\<lambda>(req, r). guesses name req \<and> tested r) rs)"

lemma serve_counter:
  assumes ok: "counter_ok st (attempt_of (user_key name) (as_db s))" and run: "serve cr st auth req s = (s', r)"
    and time: "\<And>now src password. req = Login now src name password \<Longrightarrow>
      t0 \<le> now \<and> now < t0 + ls_lock_minutes st * 60000000 \<and> fits_text 100 (Some (get_login_source_key src))"
    and wrong: "guesses name req \<Longrightarrow> r \<noteq> Inr ()"
  defines "left \<equiv> \<lambda>s. tries_left st (t0 + ls_lock_minutes st * 60000000) (attempt_of (user_key name) (as_db s))"
  shows "counter_ok st (attempt_of (user_key name) (as_db s')) \<and> left s' + (if guesses name req \<and> tested r then 1 else 0) \<le> left s"
proof (cases "\<exists>now src username password. req = Login now src username password")
  case True
  then obtain now src username password where Login: "req = Login now src username password" by blast
  obtain db x where l: "login cr st now src username password (as_db s) = (db, x)" by (metis surj_pair)
  have s': "s' = s\<lparr>as_db := db\<rparr>" and r: "r = map_sum id (\<lambda>_. ()) x" using run l by (simp_all add: Login answered_def)
  show ?thesis
  proof (cases "username = name")
    case False
    then show ?thesis using login_other [OF False, of cr st now src password "as_db s"] l ok by (simp add: Login s' left_def)
  next
    case True
    have "x \<noteq> Inr y" for y using wrong True r by (auto simp: Login)
    note same = login_same [OF _ ok _ _ l [unfolded True] this, of t0]
    have t: "t0 \<le> now" "now < t0 + ls_lock_minutes st * 60000000" "fits_text 100 (Some (get_login_source_key src))"
      using time [of now src password] Login True by simp_all
    from same [OF t(3,1,2)] show ?thesis
      using ok True by (auto simp: Login s' r left_def tested_def)
  qed
next
  case False
  then have "a_attempts (as_db s') = a_attempts (as_db s)" using serve_attempts [of req cr st auth s] run by auto
  moreover have "\<not> guesses name req" using False by (cases req) auto
  ultimately show ?thesis using ok by (simp add: left_def)
qed

lemma guesses_bounded:
  assumes "counter_ok st (attempt_of (user_key name) (as_db s))"
    and "\<And>auth now src password. (auth, Login now src name password) \<in> set reqs \<Longrightarrow>
      t0 \<le> now \<and> now < t0 + ls_lock_minutes st * 60000000 \<and> fits_text 100 (Some (get_login_source_key src))"
    and "\<And>req r. (req, r) \<in> set (answers cr st reqs s) \<Longrightarrow> guesses name req \<Longrightarrow> r \<noteq> Inr ()"
  shows "int (guess_count name (answers cr st reqs s)) \<le> tries_left st (t0 + ls_lock_minutes st * 60000000) (attempt_of (user_key name) (as_db s))"
  using assms
proof (induction reqs arbitrary: s)
  case Nil
  then show ?case by (simp add: guess_count_def tries_left_def counter_ok_def)
next
  case (Cons areq reqs)
  obtain auth req where a: "areq = (auth, req)" by (cases areq)
  obtain s' r where run: "serve cr st auth req s = (s', r)" by (metis surj_pair)
  have wrong: "guesses name req \<Longrightarrow> r \<noteq> Inr ()" using Cons.prems(3) [of req r] by (simp add: a run)
  have time: "t0 \<le> now \<and> now < t0 + ls_lock_minutes st * 60000000 \<and> fits_text 100 (Some (get_login_source_key src))"
    if "req = Login now src name password" for now src password
    using Cons.prems(2) [of auth now src password] that by (simp add: a)
  have step: "counter_ok st (attempt_of (user_key name) (as_db s'))
      \<and> tries_left st (t0 + ls_lock_minutes st * 60000000) (attempt_of (user_key name) (as_db s')) + (if guesses name req \<and> tested r then 1 else 0)
        \<le> tries_left st (t0 + ls_lock_minutes st * 60000000) (attempt_of (user_key name) (as_db s))"
    by (rule serve_counter [OF Cons.prems(1) run]) (fact time, fact wrong)
  have times: "t0 \<le> now \<and> now < t0 + ls_lock_minutes st * 60000000 \<and> fits_text 100 (Some (get_login_source_key src))"
    if "(q, Login now src name password) \<in> set reqs" for q now src password
    by (rule Cons.prems(2) [of q now src password]) (simp add: that)
  have wrongs: "y \<noteq> Inr ()" if "(q, y) \<in> set (answers cr st reqs s')" "guesses name q" for q y
    by (rule Cons.prems(3) [of q y]) (simp_all add: a run that)
  have "int (guess_count name (answers cr st reqs s')) \<le> tries_left st (t0 + ls_lock_minutes st * 60000000) (attempt_of (user_key name) (as_db s'))"
    by (rule Cons.IH [OF conjunct1 [OF step]]) (fact times, fact wrongs)
  then show ?case using step by (cases "guesses name req \<and> tested r") (auto simp: a run guess_count_def)
qed

section \<open>Authorisation\<close>

text \<open>The columns of a user that decide what the user may do.\<close>

definition account_row :: "sys_user \<Rightarrow> int \<times> string \<times> int \<times> bool" where
  "account_row u = (su_id u, su_username u, su_role_id u, su_is_active u)"

definition same_accounts :: "auth_db \<Rightarrow> auth_db \<Rightarrow> bool" where
  "same_accounts db db' \<longleftrightarrow> a_roles db' = a_roles db \<and> a_role_permissions db' = a_role_permissions db
     \<and> map account_row (a_users db') = map account_row (a_users db)"

lemma same_accounts_refl: "db' = db \<Longrightarrow> same_accounts db db'"
  by (simp add: same_accounts_def)

lemma same_accounts_update: "(\<And>u. account_row (f u) = account_row u) \<Longrightarrow> same_accounts db (update_users p f (db\<lparr>a_attempts := x\<rparr>))"
  by (simp add: same_accounts_def)

lemma login_same_accounts: "same_accounts db (fst (login cr st now src name password db))"
  by (rule login_db [of cr st now src name password db])
    (simp_all add: same_accounts_refl same_accounts_update account_row_def, simp add: same_accounts_def)

lemma own_password_same_accounts: "change_own_password cr old new user db = Inr (db', x) \<Longrightarrow> same_accounts db db'"
  by (auto simp: change_own_password_def bind_res_Inr_iff same_accounts_def account_row_def user_edits split: if_splits)

lemma guarded_read:
  assumes "\<And>user db db' x. body user db = Inr (db', x) \<Longrightarrow> db' = db"
  shows "as_db (fst (guarded cr codes auth body s)) = as_db s" "as_db (fst (authenticated cr auth body s)) = as_db s"
  using assms by (auto simp: guarded_def authenticated_def bind_res_Inr_iff split: sum.splits prod.splits)

lemma readers: "me cr user db = Inr (db', i) \<Longrightarrow> db' = db" "get_role_permissions rid user db = Inr (db', cs) \<Longrightarrow> db' = db"
  by (auto simp: me_def get_role_permissions_def bind_res_Inr_iff)

text \<open>The requests that only managers may make.\<close>

fun manages :: "auth_request \<Rightarrow> bool" where
  "manages (CreateRole _ _) = True" | "manages (UpdateRole _ _ _) = True" | "manages (DeleteRole _) = True"
| "manages (UpdateRolePermissions _ _) = True" | "manages (CreateUser _ _ _ _) = True" | "manages (UpdateUser _ _ _) = True"
| "manages (DeleteUser _) = True" | "manages (ToggleUserStatus _ _) = True" | "manages (ResetPassword _ _) = True"
| "manages _ = False"

lemma unmanaged_same_accounts:
  assumes "\<not> manages req"
  shows "same_accounts (as_db s) (as_db (fst (serve cr st auth req s)))"
proof (cases req)
  case (Login now src name password)
  then show ?thesis using login_same_accounts [of "as_db s" cr st now src name password] by (simp split: prod.split) auto
next
  case (ChangeOwnPassword old new)
  then show ?thesis using own_password_same_accounts [of cr old new]
    by (auto simp: authenticated_def bind_res_Inr_iff same_accounts_refl split: sum.splits)
qed (use assms in \<open>auto simp: list_roles_def list_users_def list_permissions_def intro!: same_accounts_refl guarded_read dest: readers\<close>)

lemma manages_authorised:
  assumes "manages req" and ok: "accounts_ok (as_db s)" "cache_ok s" and diff: "as_db (fst (serve cr st auth req s)) \<noteq> as_db s"
  shows "\<exists>user. get_current_user cr auth (as_db s) = Inr user \<and> set [AUTH_MANAGE] \<subseteq> granted user (as_db s)"
  using assms(1) diff
  by (cases req)
    (auto simp del: list.set intro: h_create_role.guarded_authorised [OF ok surjective_pairing] h_update_role.guarded_authorised [OF ok surjective_pairing]
      h_delete_role.guarded_authorised [OF ok surjective_pairing] h_grant.guarded_authorised [OF ok surjective_pairing]
      h_create_user.guarded_authorised [OF ok surjective_pairing] h_update_user.guarded_authorised [OF ok surjective_pairing]
      h_delete_user.guarded_authorised [OF ok surjective_pairing] h_status.guarded_authorised [OF ok surjective_pairing]
      h_reset.guarded_authorised [OF ok surjective_pairing])

section \<open>Properties\<close>

text \<open>The view permission a code implies implies nothing itself.\<close>

lemma implied_view_closed:
  assumes "implied_view available code = Some v"
  shows "v \<in> set available \<and> implied_view available v = None"
proof (cases "CHR '':'' \<in> set code")
  case False
  then show ?thesis using assms by (simp add: implied_view_def)
next
  case True
  define ns where "ns = takeWhile (\<lambda>x. x \<noteq> CHR '':'') code"
  have v: "v = ns @ '':view''" "v \<in> set available"
    using assms True by (simp_all add: implied_view_def ns_def split: if_splits)
  have ns: "CHR '':'' \<notin> set ns" unfolding ns_def by (metis (mono_tags, lifting) set_takeWhileD)
  then have "py_split1 (CHR '':'') v = [ns, ''view'']"
    unfolding v(1) by (simp add: takeWhile_append dropWhile_append)
  moreover have "''view'' \<notin> set VIEW_DEPENDENT_ACTIONS" by (simp add: VIEW_DEPENDENT_ACTIONS_def)
  ultimately show ?thesis using v(2) by (simp add: implied_view_def del: py_split1.simps)
qed

text \<open>
  C8: under any sequence of requests, starts of the process and exports the accounts stay consistent: identifiers, user names, role names and
  codes are unique, every user has a role, every grant names a role and a permission, and an active superadministrator remains.
\<close>
theorem accounts_invariant:
  assumes "accounts_ok (as_db s)" and "cache_ok s" and "(auth_step cr st)\<^sup>*\<^sup>* s s'"
  shows "users_ok (as_db s') \<and> roles_ok (as_db s') \<and> permissions_ok (as_db s') \<and> (\<exists>u \<in> set (a_users (as_db s')). active_superadmin (as_db s') u)"
  using auth_steps_keep [OF assms(3,1,2)] by (simp add: accounts_ok_def has_superadmin_def)

text \<open>
  C9: once a user is deleted, disabled or enabled, given a new password or another role, or the rights of the role change, a token
  issued before is refused for ever, whatever happens later.
\<close>
theorem revoked_sessions_stay_revoked:
  assumes "accounts_ok (as_db s)" and "cache_ok s" and "u \<in> set (a_users (as_db s))" and "ends_sessions req u (as_db s)"
    and "serve cr st auth req s = (s1, Inr ())" and "(auth_step cr st)\<^sup>*\<^sup>* s1 s'"
    and "bearer_token old = Some token" and "cr_decode cr token = Some \<lparr>jp_sub = Some sub, jp_pv = Some pv\<rparr>"
    and "py_int sub = Some (su_id u)" and "pv \<le> su_perm_version u"
  shows "get_current_user cr old (as_db s') = raise Unauthorized"
proof -
  from serve_keeps [OF assms(1,2,5)] have "accounts_ok (as_db s1)" "cache_ok s1" by (simp_all add: accounts_move_def)
  from auth_steps_keep [OF assms(6) this] have "sessions_age (as_db s1) (as_db s')" by simp
  then have "ended (su_id u) (su_perm_version u) (as_db s')"
    using ended_stays request_ends_sessions [OF assms(1-5)] by blast
  from ended_rejected [OF this, of "\<lparr>jp_sub = Some sub, jp_pv = Some pv\<rparr>"] assms(7-10)
  show ?thesis by (simp add: get_current_user_def decode_token_def bind_res_def)
qed

text \<open>
  C11: the cache does not show: in every reachable state the rights of a request are those the tables give, all codes for a
  superadministrator and else the active codes of the role; the cache has at most 100 entries.
\<close>
theorem permission_cache_transparent:
  assumes "accounts_ok (as_db s)" and "cache_ok s" and "(auth_step cr st)\<^sup>*\<^sup>* s s'"
    and user: "get_current_user cr auth (as_db s') = Inr user" and perms: "get_current_permissions user (as_db s') (as_cache s') = (perms, cache)"
  shows "set perms = (if uc_is_superadmin user then set ALL_CODES else set (role_codes (uc_role_id user) (as_db s'))) \<and> length cache \<le> CACHE_MAXSIZE"
proof -
  from auth_steps_keep [OF assms(3,1,2)] have ok: "accounts_ok (as_db s')" "cache_ok s'" by simp_all
  from current_user_row [OF user] obtain u r where row: "u \<in> set (a_users (as_db s'))" "user = context_of (u, r)" by blast
  have "users_ok (as_db s')" using ok(1) by (simp add: accounts_ok_def)
  from current_permissions [OF ok(2) this row(1) perms [unfolded row(2)]] show ?thesis
    by (simp add: row(2) granted_def cache_ok_def)
qed


text \<open>
  After the rights of a role were set, the role has exactly the named codes with the view codes they imply, closed under that implication;
  every other role has what it had.
\<close>
theorem role_permissions_exact:
  assumes "accounts_ok db" and "update_role_permissions rid codes user db = Inr (db', x)"
  shows "set (role_codes rid db') = set codes \<union> {v. \<exists>c \<in> set codes. implied_view (map pm_code (active_permissions db)) c = Some v}
    \<and> (\<forall>c \<in> set (role_codes rid db'). \<forall>v. implied_view (map pm_code (active_permissions db)) c = Some v \<longrightarrow> v \<in> set (role_codes rid db'))
    \<and> (\<forall>q. q \<noteq> rid \<longrightarrow> set (role_codes q db') = set (role_codes q db))"
proof -
  define av where "av = map pm_code (active_permissions db)"
  define new where "new = expand_permission_dependencies codes av"
  have new: "set new = set codes \<union> {v. \<exists>c \<in> set codes. implied_view av c = Some v}"
    by (force simp: new_def expand_permission_dependencies_def List.map_filter_def)
  have res: "set (role_codes rid db') = set new \<and> (\<forall>q. q \<noteq> rid \<longrightarrow> set (role_codes q db') = set (role_codes q db))"
    using assms(2)
  proof (cases rule: update_role_permissions_Inr)
    case same
    then show ?thesis by (simp add: new_def av_def)
  next
    case (changed role)
    define db1 where "db1 = db\<lparr>a_role_permissions := filter (\<lambda>(r, p). r \<noteq> rid) (a_role_permissions db) @ grant rid new db\<rparr>"
    have "role_codes q db' = role_codes q db1" for q by (rule role_codes_cong) (simp_all add: changed(3) db1_def new_def av_def)
    moreover have "set (role_codes q db1) = (if q = rid then set new else set (role_codes q db))" for q
      unfolding db1_def using assms(1) changed(2) by (intro grant_codes) (simp_all add: accounts_ok_def permissions_ok_def new_def av_def)
    ultimately show ?thesis by simp
  qed
  have "v \<in> set new" if "c \<in> set new" "implied_view av c = Some v" for c v
    using that new implied_view_closed [of av _ c] by auto
  then show ?thesis using res new by (simp add: av_def [symmetric])
qed

text \<open>
  C10: a request that changes roles, grants or who has which account, role and status comes with the valid token of a user to whom the tables
  give the right to manage accounts.
\<close>
theorem account_changes_authorised:
  assumes "accounts_ok (as_db s)" and "cache_ok s" and "serve cr st auth req s = (s', r)" and "\<not> same_accounts (as_db s) (as_db s')"
  shows "\<exists>user. get_current_user cr auth (as_db s) = Inr user \<and> AUTH_MANAGE \<in> granted user (as_db s)"
proof -
  have "manages req" using unmanaged_same_accounts [of req s cr st auth] assms(3,4) by auto
  moreover have "as_db s' \<noteq> as_db s" using assms(4) same_accounts_refl by metis
  ultimately show ?thesis using manages_authorised [OF _ assms(1,2), of req cr st auth] assms(3) by simp
qed

section \<open>Examples\<close>

lemma ALL_CODES_list [code]:
  "ALL_CODES = [''home:view'', ''home:refresh'', ''restock:view'', ''restock:operate'', ''restock:export'', ''restock:new_cycle'', ''history:view'', ''history:delete'', ''data_base:view'', ''data_base:edit'', ''data_biz:view'', ''data_biz:edit'', ''sync:view'', ''sync:operate'', ''config:view'', ''config:edit'', ''monitor:view'', ''auth:view'', ''auth:manage'']"
  by (simp add: ALL_CODES_def REGISTRY_def)

text \<open>An installation with one superadministrator and one user of a plain role; the token \<^verbatim>\<open>b\<close> is the session of that user.\<close>

definition demo_crypto :: crypto where
  "demo_crypto = \<lparr>cr_verify = (\<lambda>plain hashed. plain = hashed), cr_hash = (\<lambda>plain. plain),
     cr_decode = (\<lambda>t. if t = ''a'' then Some \<lparr>jp_sub = Some ''1'', jp_pv = Some 0\<rparr>
                      else if t = ''b'' then Some \<lparr>jp_sub = Some ''2'', jp_pv = Some 0\<rparr> else None), cr_encode = (\<lambda>p. [])\<rparr>"

definition demo_user :: "int \<Rightarrow> string \<Rightarrow> int \<Rightarrow> sys_user" where
  "demo_user i name rid = \<lparr>su_id = i, su_username = name, su_display_name = name, su_password_hash = ''secret'', su_role_id = rid, su_is_active = True,
     su_perm_version = 0, su_last_login_at = None\<rparr>"

definition demo_accounts :: auth_db where
  "demo_accounts =
     \<lparr>a_roles = [\<lparr>ro_id = 1, ro_name = ''admin'', ro_description = [], ro_is_superadmin = True\<rparr>,
                 \<lparr>ro_id = 2, ro_name = ''plain'', ro_description = [], ro_is_superadmin = False\<rparr>],
      a_permissions = [\<lparr>pm_id = 1, pm_code = ''sync:view'', pm_name = [], pm_group_name = [], pm_sort_order = 0, pm_active = True\<rparr>,
                       \<lparr>pm_id = 2, pm_code = ''sync:operate'', pm_name = [], pm_group_name = [], pm_sort_order = 1, pm_active = True\<rparr>],
      a_role_permissions = [(2, 1)], a_users = [demo_user 1 ''root'' 1, demo_user 2 ''bob'' 2], a_attempts = [], a_exporters = [],
      a_next_role_id = 3, a_next_permission_id = 3, a_next_user_id = 3\<rparr>"

definition demo_auth :: auth_state where
  "demo_auth = \<lparr>as_db = demo_accounts, as_cache = []\<rparr>"

definition demo_settings :: login_settings where
  "demo_settings = \<lparr>ls_failed_max = 5, ls_lock_minutes = 10, ls_jwt_expires_hours = 24\<rparr>"

lemma demo_auth_ok: "accounts_ok (as_db demo_auth)" "cache_ok demo_auth"
  by (simp_all add: demo_auth_def demo_accounts_def demo_user_def accounts_ok_def users_ok_def roles_ok_def permissions_ok_def has_superadmin_def
      active_superadmin_def cache_ok_def)

theorem accounts_invariant_witness:
  "\<exists>s'. (auth_step demo_crypto demo_settings)\<^sup>*\<^sup>* demo_auth s' \<and> users_ok (as_db s') \<and> map ro_name (a_roles (as_db s')) = [''admin'', ''plain'', ''new'']"
proof -
  obtain s' r where run: "serve demo_crypto demo_settings (Some ''Bearer a'') (CreateRole ''new'' []) demo_auth = (s', r)" by (metis surj_pair)
  have steps: "(auth_step demo_crypto demo_settings)\<^sup>*\<^sup>* demo_auth s'" using auth_step.request [OF run] by (rule r_into_rtranclp)
  have "map ro_name (a_roles (as_db (fst (serve demo_crypto demo_settings (Some ''Bearer a'') (CreateRole ''new'' []) demo_auth)))) = [''admin'', ''plain'', ''new'']"
    by code_simp
  then have names: "map ro_name (a_roles (as_db s')) = [''admin'', ''plain'', ''new'']" unfolding run fst_conv .
  have "users_ok (as_db s')" using accounts_invariant [OF demo_auth_ok steps] by (rule conjunct1)
  then show ?thesis using steps names by (intro exI [of _ s'] conjI)
qed

theorem revoked_sessions_stay_revoked_witness:
  "let (s', r) = serve demo_crypto demo_settings (Some ''Bearer a'') (ToggleUserStatus 2 True) demo_auth
   in r = Inr () \<and> get_current_user demo_crypto (Some ''Bearer b'') (as_db s') = raise Unauthorized
    \<and> map_sum id uc_username (get_current_user demo_crypto (Some ''Bearer b'') demo_accounts) = Inr ''bob''"
proof -
  obtain s' r where run: "serve demo_crypto demo_settings (Some ''Bearer a'') (ToggleUserStatus 2 True) demo_auth = (s', r)" by (metis surj_pair)
  have "snd (serve demo_crypto demo_settings (Some ''Bearer a'') (ToggleUserStatus 2 True) demo_auth) = Inr ()" by code_simp
  then have r: "r = Inr ()" using run by simp
  have u: "demo_user 2 ''bob'' 2 \<in> set (a_users (as_db demo_auth))" by (simp add: demo_auth_def demo_accounts_def)
  have ends: "ends_sessions (ToggleUserStatus 2 True) (demo_user 2 ''bob'' 2) (as_db demo_auth)" by (simp add: demo_user_def)
  have "bearer_token (Some ''Bearer b'') = Some ''b''" by code_simp
  moreover have "cr_decode demo_crypto ''b'' = Some \<lparr>jp_sub = Some ''2'', jp_pv = Some 0\<rparr>" by (simp add: demo_crypto_def)
  moreover have "py_int ''2'' = Some (su_id (demo_user 2 ''bob'' 2))" by code_simp
  moreover have "0 \<le> su_perm_version (demo_user 2 ''bob'' 2)" by (simp add: demo_user_def)
  ultimately have "get_current_user demo_crypto (Some ''Bearer b'') (as_db s') = raise Unauthorized"
    using revoked_sessions_stay_revoked [OF demo_auth_ok u ends run [unfolded r] rtranclp.rtrancl_refl, of "Some ''Bearer b''" "''b''" "''2''" 0] by simp
  moreover have "map_sum id uc_username (get_current_user demo_crypto (Some ''Bearer b'') demo_accounts) = Inr ''bob''" by code_simp
  ultimately show ?thesis using run r by simp
qed

theorem permission_cache_transparent_witness:
  "\<exists>user perms cache. get_current_user demo_crypto (Some ''Bearer b'') demo_accounts = Inr user
    \<and> get_current_permissions user demo_accounts [] = (perms, cache) \<and> set perms = {''sync:view''} \<and> length cache \<le> CACHE_MAXSIZE"
proof -
  have "\<not> isl (get_current_user demo_crypto (Some ''Bearer b'') demo_accounts)" by code_simp
  then obtain user where user: "get_current_user demo_crypto (Some ''Bearer b'') demo_accounts = Inr user"
    by (cases "get_current_user demo_crypto (Some ''Bearer b'') demo_accounts") auto
  obtain perms cache where perms: "get_current_permissions user demo_accounts [] = (perms, cache)" by (metis surj_pair)
  have "map_sum id (\<lambda>u. (uc_is_superadmin u, uc_role_id u)) (get_current_user demo_crypto (Some ''Bearer b'') demo_accounts) = Inr (False, 2)" by code_simp
  then have u: "\<not> uc_is_superadmin user" "uc_role_id user = 2" using user by simp_all
  have "set (role_codes 2 demo_accounts) = {''sync:view''}" by (simp add: role_codes_def demo_accounts_def)
  moreover have "set perms = (if uc_is_superadmin user then set ALL_CODES else set (role_codes (uc_role_id user) demo_accounts)) \<and> length cache \<le> CACHE_MAXSIZE"
    using permission_cache_transparent [OF demo_auth_ok rtranclp.rtrancl_refl, of demo_crypto "Some ''Bearer b''" user perms cache] user perms
    by (simp add: demo_auth_def)
  ultimately show ?thesis using user perms u by auto
qed

definition demo_guess :: "instant \<Rightarrow> string option \<times> auth_request" where
  "demo_guess now = (None, Login now \<lparr>rs_peer = Some ''8.8.8.8'', rs_forwarded_for = [], rs_real_ip = []\<rparr> ''bob'' ''x'')"


theorem role_permissions_exact_witness:
  "\<exists>db'. update_role_permissions 2 [''sync:operate''] (context_of (demo_user 1 ''root'' 1, hd (a_roles demo_accounts))) demo_accounts = Inr (db', ())
    \<and> set (role_codes 1 db') = set (role_codes 1 demo_accounts) \<and> ''sync:view'' \<in> set (role_codes 2 db')"
proof -
  define user where "user = context_of (demo_user 1 ''root'' 1, hd (a_roles demo_accounts))"
  have "\<not> isl (update_role_permissions 2 [''sync:operate''] user demo_accounts)" unfolding user_def by code_simp
  then obtain db' where run: "update_role_permissions 2 [''sync:operate''] user demo_accounts = Inr (db', ())"
    by (cases "update_role_permissions 2 [''sync:operate''] user demo_accounts") auto
  have "implied_view (map pm_code (active_permissions demo_accounts)) ''sync:operate'' = Some ''sync:view''" by code_simp
  then have "''sync:view'' \<in> set (role_codes 2 db') \<and> set (role_codes 1 db') = set (role_codes 1 demo_accounts)"
    using role_permissions_exact [OF _ run] demo_auth_ok(1) by (simp add: demo_auth_def)
  then show ?thesis using run unfolding user_def by blast
qed

theorem account_changes_authorised_witness:
  "let (s', r) = serve demo_crypto demo_settings (Some ''Bearer a'') (DeleteRole 2) (demo_auth\<lparr>as_db := demo_accounts\<lparr>a_users := [demo_user 1 ''root'' 1]\<rparr>\<rparr>)
   in length (a_roles (as_db s')) = 1 \<and> (\<exists>user. get_current_user demo_crypto (Some ''Bearer a'') (demo_accounts\<lparr>a_users := [demo_user 1 ''root'' 1]\<rparr>) = Inr user
     \<and> AUTH_MANAGE \<in> granted user (demo_accounts\<lparr>a_users := [demo_user 1 ''root'' 1]\<rparr>))"
proof -
  define s where "s = demo_auth\<lparr>as_db := demo_accounts\<lparr>a_users := [demo_user 1 ''root'' 1]\<rparr>\<rparr>"
  have ok: "accounts_ok (as_db s)" "cache_ok s"
    by (simp_all add: s_def demo_auth_def demo_accounts_def demo_user_def accounts_ok_def users_ok_def roles_ok_def permissions_ok_def has_superadmin_def
        active_superadmin_def cache_ok_def)
  obtain s' r where run: "serve demo_crypto demo_settings (Some ''Bearer a'') (DeleteRole 2) s = (s', r)" by (metis surj_pair)
  have "length (a_roles (as_db (fst (serve demo_crypto demo_settings (Some ''Bearer a'') (DeleteRole 2) s)))) = 1" unfolding s_def by code_simp
  then have len: "length (a_roles (as_db s')) = 1" unfolding run by simp
  have "length (a_roles (as_db s)) = 2" by (simp add: s_def demo_accounts_def)
  then have "\<not> same_accounts (as_db s) (as_db s')" using len by (auto simp: same_accounts_def)
  from account_changes_authorised [OF ok run this] show ?thesis using run len by (simp add: s_def)
qed

section \<open>Observations\<close>

text \<open>
  The check for the last superadministrator and the change it guards are two statements: two superadministrators who delete each other at the
  same time both pass the check, and none is left.
\<close>
theorem last_superadmin_race:
  "let root = demo_user 1 ''root'' 1; eve = demo_user 2 ''eve'' 1; db = demo_accounts\<lparr>a_users := [root, eve]\<rparr>; role = hd (a_roles demo_accounts)
   in check_delete_user 1 (context_of (eve, role)) db = Inr () \<and> check_delete_user 2 (context_of (root, role)) db = Inr ()
    \<and> map_sum id (\<lambda>db'. map su_id (filter (active_superadmin db') (a_users db'))) (bind_res (remove_user 1 db) (remove_user 2)) = Inr []"
  by code_simp

text \<open>Renaming a role to the name of another is an internal error; creating one with that name is a conflict.\<close>

theorem rename_role_conflict:
  assumes "get_role_or_404 rid db = Inr role" and "\<not> ro_is_superadmin role" and "other \<in> set (a_roles db)" and "ro_id other \<noteq> rid"
    and "length_between 1 50 (ro_name other)"
  shows "update_role rid (Some (ro_name other)) None user db = raise (HTTPException 500) \<and> create_role (ro_name other) [] user db = raise ConflictError"
  using assms by (auto simp: update_role_def create_role_def checked_def bind_res_def list_ex_iff length_between_def utf8_length_def)

text \<open>A user who has exported a snapshot can not be deleted: the answer is an internal error.\<close>

theorem exporter_not_deletable:
  assumes "check_delete_user uid user db = Inr ()" and "uid \<in> set (a_exporters db)"
  shows "delete_user uid user db = raise (HTTPException 500)"
  using assms by (simp add: delete_user_def remove_user_def bind_res_def)

text \<open>A forwarded address longer than its column loses the transaction that counts the failure: wrong passwords are answered and never counted.\<close>

theorem overlong_source_not_counted:
  assumes "\<not> fits_text 100 (Some (get_login_source_key src))" and "check_lockout (get_login_source_key src) now db = Inr a"
    and "check_lockout (''user:'' @ name) now db = Inr b" and "length_between 1 50 name" and "length_between 1 128 password"
    and "joined_user (\<lambda>u. su_username u = name) db = Some row" and "\<not> cr_verify cr password (su_password_hash (fst row))"
  shows "login cr st now src name password db = (db, raise (HTTPException 500))"
  using assms unfolding login_def Let_def by (simp add: reject_login_def)

end
