(* ===== verification/Spec2Isabelle.thy ===== *)
theory Spec2Isabelle
  imports Country_Codes Engine_Runner Task_Worker Export_Lifecycle Mapping_Transfer Config_Api Zipcode_Config Third_Party_Import Order_Edit Sync_Locks Sync_Stock Sync_Orders Sync_All Account_Safety
begin

text \<open>
  The back end of a restock planner (\<^verbatim>\<open>src/backend/app\<close>). It copies orders, stock, shipments,
  shops, warehouses and products from the Saihu API into PostgreSQL, computes from them what to
  purchase and what to ship to each country and warehouse, lets users edit the result and the
  parameters, and exports it as workbooks. Everything slow runs as a task of a queue in the
  database. The development models that code as HOL functions over records of tables, and proves what each
  part promises.

  \<^bold>\<open>Theories and sources.\<close>

  \<^item> \<open>Restock_Prelude\<close>: dictionaries, strings, errors (\<open>res\<close> = exception or value), SQL grouping, and
    the lemmas and collections that the components share. \<open>Py_Float\<close>: binary64 with its rounding,
    as a locale \<open>fp_rounding\<close> and its interpretation.
  \<^item> \<open>Country_Codes\<close>: \<^verbatim>\<open>core/countries.py\<close>, \<^verbatim>\<open>core/restock_regions.py\<close>,
    \<^verbatim>\<open>core/country_mapping.py\<close>. \<open>Sql_Like\<close>: \<^verbatim>\<open>core/query.py\<close>.
    \<open>Physical_Item\<close>: \<^verbatim>\<open>services/physical_item.py\<close>.
  \<^item> \<open>Db_Schema\<close>, \<open>Suggestion_Store\<close>: the ORM classes of \<^verbatim>\<open>models/\<close> as records; a table is a list of rows.
  \<^item> The engine: \<open>Engine_Context\<close> (\<^verbatim>\<open>engine/context.py\<close>), \<open>Step1_Velocity\<close>, \<open>Step2_Sale_Days\<close>,
    \<open>Step3_Country_Qty\<close>, \<open>Step4_Total\<close>, \<open>Step5_Warehouse_Split\<close>, \<open>Step6_Timing\<close>
    (\<^verbatim>\<open>engine/step*.py\<close>, \<^verbatim>\<open>warnings.py\<close>, \<^verbatim>\<open>restock_dates.py\<close>), \<open>Sku_Mapping\<close>
    (\<^verbatim>\<open>engine/sku_mapping.py\<close>), \<open>Zipcode_Matcher\<close>, \<open>Apportionment\<close> (the contract of splitting a
    whole number, with its three implementations), \<open>Engine_Runner\<close> (\<^verbatim>\<open>runner.py\<close>,
    \<^verbatim>\<open>calc_engine_job.py\<close>).
  \<^item> What users do with the result: \<open>Suggestion_Api\<close> (\<^verbatim>\<open>api/suggestion.py\<close>), \<open>Snapshot_Api\<close>
    (\<^verbatim>\<open>api/snapshot.py\<close>), \<open>Excel_Export\<close> (\<^verbatim>\<open>services/excel_export.py\<close>), \<open>Generation_Toggle\<close> (the
    switch of \<^verbatim>\<open>api/config.py\<close>), \<open>Retention\<close> (\<^verbatim>\<open>tasks/jobs/retention.py\<close>, \<^verbatim>\<open>daily_archive.py\<close>),
    \<open>Export_Lifecycle\<close> (a step relation over all of these, in any interleaving).
  \<^item> Configuration: \<open>Mapping_Config\<close>, \<open>Mapping_Transfer\<close>, \<open>Config_Api\<close>, \<open>Zipcode_Config\<close>
    (\<^verbatim>\<open>api/config.py\<close>, \<^verbatim>\<open>schemas/config.py\<close>).
  \<^item> Data by hand: \<open>Third_Party_Import\<close> (\<^verbatim>\<open>services/third_party_inventory.py\<close>), \<open>Order_Edit\<close>
    (\<^verbatim>\<open>services/order_edit.py\<close>).
  \<^item> The queue: \<open>Task_Queue\<close> (\<^verbatim>\<open>tasks/queue.py\<close>, \<^verbatim>\<open>reaper.py\<close>, \<^verbatim>\<open>api/task.py\<close>) and \<open>Task_Worker\<close>
    (\<^verbatim>\<open>tasks/worker.py\<close>).
  \<^item> Synchronisation: \<open>Saihu_Payload\<close> (reading JSON, \<^verbatim>\<open>core/timezone.py\<close>), \<open>Sync_Common\<close>
    (\<^verbatim>\<open>sync/common.py\<close>, upserts, the course of a job), \<open>Sync_Locks\<close> (\<^verbatim>\<open>sync/locks.py\<close>),
    \<open>Sync_Stock\<close> (\<^verbatim>\<open>warehouse.py\<close>, \<^verbatim>\<open>shop.py\<close>, \<^verbatim>\<open>inventory.py\<close>, \<^verbatim>\<open>out_records.py\<close>),
    \<open>Sync_Orders\<close> (\<^verbatim>\<open>order_list.py\<close>), \<open>Sync_All\<close> (\<^verbatim>\<open>product_listing.py\<close>, \<^verbatim>\<open>all.py\<close>).
  \<^item> Accounts: \<open>Access_Control\<close> (\<^verbatim>\<open>core/permissions.py\<close>, \<^verbatim>\<open>permission_cache.py\<close>, \<^verbatim>\<open>permission_sync.py\<close>,
    \<^verbatim>\<open>security.py\<close>, \<^verbatim>\<open>api/deps.py\<close>, \<^verbatim>\<open>api/auth.py\<close>, \<^verbatim>\<open>auth_roles.py\<close>, \<^verbatim>\<open>auth_users.py\<close>: the guards, the handlers
    and the step relation of their requests) and \<open>Account_Safety\<close> (what they guarantee).
  A definition has the name of the Python function it translates, without a leading underscore; where
  a function is long its parts are definitions of their own, composed as the function composes them.

  \<^bold>\<open>What is shown.\<close>

  \<^item> The engine: velocity is the weighted average of the orders of the window (and within a stated
    error of the exact one), stock and restock quantities are what their formulas say for every SKU and
    country, a split over warehouses loses and invents nothing, and the items of a run are
    sound (\<open>engine_items_sound\<close>): quantities positive, totals the sum of the countries, warehouses of a
    country adding up to it.
  \<^item> The life of a suggestion: invariants of all reachable states, exported rows never change,
    a run replaces the draft, file paths stay inside the storage directory and round trip.
  \<^item> The queue: at most one active task per key, lease and status rules in every reachable state,
    refinement of an abstract lock table, a worker drains the queue, a worker that lost its lease
    writes nothing.
  \<^item> Configuration and uploads keep what the engine relies on (unique rules, positive quantities, valid
    parameters, ordered segments); an exported sheet reads back; an upload replaces exactly its stock.
  \<^item> Synchronisation: two runs of a job never overlap, and each job stores what was delivered and keeps what was
    maintained by hand, also when it breaks off; orders in two tables refine a map of orders.
  \<^item> Accounts: an active superadministrator always remains, an ended session stays ended, only managers change
    accounts, the cache of rights does not show, and the number of passwords tried for a name is bounded.

  The interfaces are locales: \<open>fp_rounding\<close>, \<open>apportionment\<close>, the keyed table \<open>upsert_table\<close> and
  \<open>overwrite_table\<close> with the interpretations of all synchronised tables, \<open>account_handler\<close> for the handlers behind a guard, and others in the theories
  that provide them; every one is interpreted on the definitions of the model.

  \<^bold>\<open>Conventions.\<close> A request or job step is a transaction: a function to the new state or an exception,
  which leaves the committed state as it was. Text is a list of bytes of UTF-8; case and letters are those of ASCII; lengths are
  counted in bytes where only ASCII is accepted and in characters (\<open>utf8_length\<close>) in the
  synchronisation. The database orders text by code point. A value outside its column is an error:
  \<open>HTTPException 500\<close> in a request, \<open>DatabaseError\<close> in a job. Texts that hold a date or a time are the
  date or the instant (microseconds); the clock is an argument. A query without an order returns the rows in the order of
  the list, and a Python set is walked in the order of first insertion; the theorems hold for every
  order of the tables. Error messages and progress reports carry no data and are left out, as are columns
  that nothing reads. Cells of an uploaded sheet are empty, text or whole numbers. The API delivers a list of rows that may end in
  an exception. Parameters are what is not in the repository: \<^verbatim>\<open>dateutil\<close> and the zone data, SHA-256,
  the workbook library (what a written cell reads back as), the file system, and bcrypt and PyJWT.

  \<^bold>\<open>Bounds.\<close> All functions are total. The worker's loop is given a number of rounds, and it is proved that as many
  rounds as there are tasks are enough; the retry of an enqueue that loses a race is bounded, and it is
  proved that it is not needed when requests do not overlap. Floats have no upper exponent bound (the values come from
  32-bit columns).

  \<^bold>\<open>Not modelled.\<close> The read-only lists and charts (\<^verbatim>\<open>api/data.py\<close>, \<^verbatim>\<open>api/metrics.py\<close>, \<^verbatim>\<open>api/monitor.py\<close>,
  \<^verbatim>\<open>tasks/jobs/dashboard_snapshot.py\<close>) show tables and change nothing the rest reads; which right each route asks for
  (\<^verbatim>\<open>tasks/access.py\<close>, \<^verbatim>\<open>api/sync.py\<close>) is modelled for the account routes only, the other requests are modelled behind their guard;
  the HTTP client of the API (\<^verbatim>\<open>saihu/\<close>), the scheduler (\<^verbatim>\<open>tasks/scheduler.py\<close>), the rate limit, the application start,
  settings, logging and sessions are input, output and library calls; the migrations (\<^verbatim>\<open>alembic/\<close>) build the schema that
  the records describe; the browser front end is another language.
\<close>

end
